(* ===== verification/Prelude.thy ===== *)
theory Prelude
  imports Main "HOL-Library.Multiset" "HOL-Library.List_Lexorder" "HOL-Library.Char_ord"
begin

text \<open>
  What the component theories share: names for the Go types the repository uses
  everywhere (byte strings, string maps, wall-clock times, results with an error),
  the HTTP status codes of the handlers, the collections of rewrite rules the
  component proofs draw from, generic lemmas on lists and maps, and the interfaces
  (locales) that several components implement.
\<close>

section \<open>Names for Go types\<close>

text \<open>
  Byte slices, strings and \<open>json.RawMessage\<close> values are \<^typ>\<open>string\<close>.
  A Go map is a partial function; code that ranges over a map takes the order in which
  Go happens to visit the keys as an argument, so a theorem about it holds for every
  order. Times are seconds since an epoch.
\<close>

type_synonym bytes = string
type_synonym go_time = int
type_synonym smap = "string \<rightharpoonup> string"

text \<open>
  An outcome that is not a value: an error value with its message, or a run-time panic
  (a nil dereference, say), which no error return reports.
\<close>

datatype go_error = Err string | Panic string

type_synonym 'a result = "go_error + 'a"

text \<open>\<open>errors.Wrap\<close> puts a message in front of an error; a panic passes through.\<close>

fun wrap :: "string \<Rightarrow> go_error \<Rightarrow> go_error" where
  "wrap msg (Err m) = Err (msg @ '': '' @ m)"
| "wrap msg (Panic m) = Panic m"

text \<open>The message of an error.\<close>

fun error_string :: "go_error \<Rightarrow> string" where
  "error_string (Err m) = m"
| "error_string (Panic m) = m"

fun is_err :: "'e + 'a \<Rightarrow> bool" where
  "is_err (Inl _) = True"
| "is_err (Inr _) = False"

text \<open>A pointer that may be nil is an option; \<open>ptr.ToBool\<close> reads nil as false.\<close>

definition ToBool :: "bool option \<Rightarrow> bool" where
  "ToBool p = (case p of None \<Rightarrow> False | Some b \<Rightarrow> b)"

section \<open>Strings\<close>

text \<open>\<open>strconv.FormatBool\<close>.\<close>

definition FormatBool :: "bool \<Rightarrow> string" where
  "FormatBool b = (if b then ''true'' else ''false'')"

text \<open>\<open>strings.Split\<close> with a separator of one character.\<close>

function split_on :: "char \<Rightarrow> string \<Rightarrow> string list" where
  "split_on sep s =
     (if sep \<in> set s
      then takeWhile (\<lambda>c. c \<noteq> sep) s # split_on sep (tl (dropWhile (\<lambda>c. c \<noteq> sep) s))
      else [s])"
  by pat_completeness auto
termination
proof (relation "measure (length \<circ> snd)", goal_cases)
  case (2 sep s)
  then have "dropWhile (\<lambda>c. c \<noteq> sep) s \<noteq> []" by (auto simp: dropWhile_eq_Nil_conv)
  then show ?case
    using length_dropWhile_le [of "\<lambda>c. c \<noteq> sep" s]
    by (cases "dropWhile (\<lambda>c. c \<noteq> sep) s") auto
qed simp

declare split_on.simps [simp del]

text \<open>\<open>strings.TrimSpace\<close> on ASCII text.\<close>

definition is_space :: "char \<Rightarrow> bool" where
  "is_space c \<longleftrightarrow> c \<in> {CHR '' '', CHR 0x09, CHR 0x0A, CHR 0x0B, CHR 0x0C, CHR 0x0D}"

definition TrimSpace :: "string \<Rightarrow> string" where
  "TrimSpace s = rev (dropWhile is_space (rev (dropWhile is_space s)))"

section \<open>HTTP status codes\<close>

definition StatusOK :: int where "StatusOK = 200"
definition StatusBadRequest :: int where "StatusBadRequest = 400"
definition StatusUnauthorized :: int where "StatusUnauthorized = 401"
definition StatusForbidden :: int where "StatusForbidden = 403"
definition StatusNotFound :: int where "StatusNotFound = 404"
definition StatusInternalServerError :: int where "StatusInternalServerError = 500"
definition StatusBadGateway :: int where "StatusBadGateway = 502"
definition StatusServiceUnavailable :: int where "StatusServiceUnavailable = 503"

definition is_2xx :: "int \<Rightarrow> bool" where
  "is_2xx c \<longleftrightarrow> 200 \<le> c \<and> c < 300"

section \<open>HTTP headers\<close>

text \<open>
  \<open>textproto.CanonicalMIMEHeaderKey\<close>: a key of token characters is rewritten so that
  the first letter and every letter after a hyphen are upper case and all others lower
  case; any other key is left alone. A header maps canonical keys to lists of values.
\<close>

definition is_lower :: "char \<Rightarrow> bool" where
  "is_lower c \<longleftrightarrow> CHR ''a'' \<le> c \<and> c \<le> CHR ''z''"

definition is_upper :: "char \<Rightarrow> bool" where
  "is_upper c \<longleftrightarrow> CHR ''A'' \<le> c \<and> c \<le> CHR ''Z''"

definition is_digit :: "char \<Rightarrow> bool" where
  "is_digit c \<longleftrightarrow> CHR ''0'' \<le> c \<and> c \<le> CHR ''9''"

definition to_upper :: "char \<Rightarrow> char" where
  "to_upper c = (if is_lower c then char_of (of_char c - (32::nat)) else c)"

definition to_lower :: "char \<Rightarrow> char" where
  "to_lower c = (if is_upper c then char_of (of_char c + (32::nat)) else c)"

definition valid_header_byte :: "char \<Rightarrow> bool" where
  "valid_header_byte c \<longleftrightarrow> is_lower c \<or> is_upper c \<or> is_digit c \<or>
     c \<in> set [CHR ''!'', CHR 0x23, CHR ''$'', CHR ''%'', CHR ''&'', CHR 0x27, CHR ''*'', CHR ''+'',
             CHR ''-'', CHR ''.'', CHR 0x5E, CHR ''_'', CHR 0x60, CHR ''|'', CHR 0x7E]"

fun canonical_loop :: "bool \<Rightarrow> string \<Rightarrow> string" where
  "canonical_loop upper [] = []"
| "canonical_loop upper (c # cs) =
     (let c' = (if upper then to_upper c else to_lower c)
      in c' # canonical_loop (c' = CHR ''-'') cs)"

definition CanonicalHeaderKey :: "string \<Rightarrow> string" where
  "CanonicalHeaderKey k = (if list_all valid_header_byte k then canonical_loop True k else k)"

type_synonym header = "string \<rightharpoonup> string list"

definition Header_Set :: "string \<Rightarrow> string \<Rightarrow> header \<Rightarrow> header" where
  "Header_Set k v h = h(CanonicalHeaderKey k \<mapsto> [v])"

definition Header_Add :: "string \<Rightarrow> string \<Rightarrow> header \<Rightarrow> header" where
  "Header_Add k v h =
     h(CanonicalHeaderKey k \<mapsto> (case h (CanonicalHeaderKey k) of None \<Rightarrow> [] | Some vs \<Rightarrow> vs) @ [v])"

definition Header_Get :: "string \<Rightarrow> header \<Rightarrow> string" where
  "Header_Get k h = (case h (CanonicalHeaderKey k) of Some (v # _) \<Rightarrow> v | _ \<Rightarrow> [])"

section \<open>Collections of rewrite rules\<close>

named_theorems status_code_defs "the numeric values of the HTTP status codes"
named_theorems model_defs "definitions unfolded when a model is run on a concrete input"

lemmas status_code_values [status_code_defs] =
  StatusOK_def StatusBadRequest_def StatusUnauthorized_def StatusForbidden_def
  StatusNotFound_def StatusInternalServerError_def StatusBadGateway_def
  StatusServiceUnavailable_def is_2xx_def

lemma ToBool_simps [simp]: "ToBool None = False" "ToBool (Some b) = b"
  by (simp_all add: ToBool_def)

lemma is_2xx_simps [simp]:
  "is_2xx StatusOK" "\<not> is_2xx StatusBadGateway" "\<not> is_2xx StatusInternalServerError"
  "\<not> is_2xx StatusUnauthorized"
  by (simp_all add: status_code_defs)

lemma Header_Get_Set:
  "Header_Get k (Header_Set k' v h) =
     (if CanonicalHeaderKey k = CanonicalHeaderKey k' then v else Header_Get k h)"
  by (simp add: Header_Get_def Header_Set_def)

lemma is_err_iff: "is_err r \<longleftrightarrow> (\<exists>e. r = Inl e)"
  by (cases r) auto

section \<open>Lists and maps\<close>

lemma find_Some_in_set: "find P xs = Some x \<Longrightarrow> x \<in> set xs \<and> P x"
  by (auto simp: find_Some_iff in_set_conv_nth)

lemma find_append:
  "find P (xs @ ys) = (case find P xs of None \<Rightarrow> find P ys | Some x \<Rightarrow> Some x)"
  by (induction xs) auto

lemma find_map_key:
  "distinct (map f xs) \<Longrightarrow> x \<in> set xs \<Longrightarrow> find (\<lambda>y. f y = f x) xs = Some x"
  by (induction xs) force+

lemma list_all2_left: "list_all2 P xs ys \<Longrightarrow> x \<in> set xs \<Longrightarrow> \<exists>y\<in>set ys. P x y"
  by (induction rule: list_all2_induct) auto

lemma list_all2_right: "list_all2 P xs ys \<Longrightarrow> y \<in> set ys \<Longrightarrow> \<exists>x\<in>set xs. P x y"
  by (induction rule: list_all2_induct) auto

lemma sort_key_distinct_unique:
  assumes "mset xs = mset ys" and "distinct (map f xs)"
  shows "sort_key f xs = sort_key f ys"
proof (rule properties_for_sort_key)
  show "mset (sort_key f ys) = mset xs" using assms(1) by simp
  show "filter (\<lambda>x. f k = f x) (sort_key f ys) = filter (\<lambda>x. f k = f x) xs"
    if "k \<in> set (sort_key f ys)" for k
  proof -
    from assms(1) have d: "distinct (map f ys)"
      by (metis assms(2) mset_eq_imp_distinct_iff mset_map)
    have k: "k \<in> set xs" "k \<in> set ys"
      using that assms(1) by (auto dest: mset_eq_setD)
    have "filter (\<lambda>x. f k = f x) zs = [k]" if "distinct (map f zs)" "k \<in> set zs" for zs
      using that by (induction zs) (auto simp: filter_empty_conv image_iff)
    moreover have "distinct (map f (sort_key f ys))"
      using d by (metis mset_eq_imp_distinct_iff mset_map mset_sort)
    ultimately show ?thesis using assms(2) k by simp
  qed
  show "sorted (map f (sort_key f ys))" by simp
qed

section \<open>Interfaces\<close>

text \<open>
  A store of values under keys, seen through a lookup: what the condition list of a
  resource status and the upload details of a meter report promise their clients.
  Every law is relative to the representation invariant \<open>invar\<close>.
\<close>

locale keyed_writes =
  fixes lookup :: "'s \<Rightarrow> 'k \<Rightarrow> 'v option"
    and put :: "'k \<Rightarrow> 'v \<Rightarrow> 's \<Rightarrow> 's"
    and invar :: "'s \<Rightarrow> bool"
  assumes lookup_put: "invar s \<Longrightarrow> lookup (put k v s) = (lookup s)(k \<mapsto> v)"
    and invar_put: "invar s \<Longrightarrow> invar (put k v s)"
begin

lemma put_get: "invar s \<Longrightarrow> lookup (put k v s) k = Some v"
  by (simp add: lookup_put)

lemma put_get_other: "invar s \<Longrightarrow> k \<noteq> k' \<Longrightarrow> lookup (put k v s) k' = lookup s k'"
  by (simp add: lookup_put)

lemma last_write_wins: "invar s \<Longrightarrow> lookup (put k v (put k w s)) = lookup (put k v s)"
  by (simp add: lookup_put invar_put)

lemma put_commute:
  "invar s \<Longrightarrow> k \<noteq> k' \<Longrightarrow> lookup (put k v (put k' w s)) = lookup (put k' w (put k v s))"
  by (simp add: lookup_put invar_put fun_upd_twist)

lemma invar_puts: "invar s \<Longrightarrow> invar (fold (\<lambda>(k, v). put k v) kvs s)"
  by (induction kvs arbitrary: s) (auto simp: invar_put)

lemma lookup_puts:
  "invar s \<Longrightarrow> lookup (fold (\<lambda>(k, v). put k v) kvs s) = lookup s ++ map_of (rev kvs)"
proof (induction kvs arbitrary: s)
  case Nil
  then show ?case by simp
next
  case (Cons kv kvs)
  then show ?case
    by (cases kv) (simp add: lookup_put invar_put map_add_def fun_eq_iff split: option.split)
qed

end

text \<open>A store from which keys can be removed as well.\<close>

locale keyed_store = keyed_writes lookup put invar
  for lookup :: "'s \<Rightarrow> 'k \<Rightarrow> 'v option" and put :: "'k \<Rightarrow> 'v \<Rightarrow> 's \<Rightarrow> 's" and invar :: "'s \<Rightarrow> bool" +
  fixes del :: "'k \<Rightarrow> 's \<Rightarrow> 's"
  assumes lookup_del: "invar s \<Longrightarrow> lookup (del k s) = (lookup s)(k := None)"
    and invar_del: "invar s \<Longrightarrow> invar (del k s)"
begin

lemma del_get: "invar s \<Longrightarrow> lookup (del k s) k = None"
  by (simp add: lookup_del)

lemma del_put: "invar s \<Longrightarrow> lookup (del k (put k v s)) = lookup (del k s)"
  by (simp add: lookup_put lookup_del invar_put)

end

end
