(* ===== verification/EventTypes.thy ===== *)
theory EventTypes
  imports Prelude
begin

text \<open>
  The data of the data reporter (\<open>datareporter/v2/pkg/events/event_type.go\<close>) and the
  event accumulator (\<open>event_accumulator.go\<close>). An accumulator operation holds its
  mutex from the first to the last statement, so each is one atomic step on the map. The
  read-write lock of \<open>UserConfigs\<close> is part of the state, because one of its methods
  returns without releasing it.
\<close>

section \<open>Data\<close>

record Event =
  evUser :: string
  evRawMessage :: bytes
  evManifestType :: string

record UserManifestType =
  umtUser :: string
  umtManifestType :: string

type_synonym EventJsons = "bytes list"
type_synonym Metadata = smap

record Manifest =
  mfType :: string
  mfVersion :: string

record ReportData =
  rdMetadata :: Metadata
  rdEventJsons :: EventJsons

record UserConfig =
  ucUserName :: string
  ucMetadata :: smap

text \<open>\<open>readers\<close> counts the read locks taken and not yet released.\<close>

record UserConfigs =
  userConfigs :: "UserConfig list"
  readers :: nat

section \<open>User configurations\<close>

fun HasUser_loop :: "UserConfig list \<Rightarrow> string \<Rightarrow> bool" where
  "HasUser_loop [] userName = False"
| "HasUser_loop (uc # ucs) userName =
     (if ucUserName uc = userName then True else HasUser_loop ucs userName)"

text \<open>
  \<open>HasUser\<close> takes the read lock; only the path that falls out of the loop releases it.
\<close>

definition HasUser :: "UserConfigs \<Rightarrow> string \<Rightarrow> bool \<times> UserConfigs" where
  "HasUser a userName =
     (let locked = a\<lparr>readers := Suc (readers a)\<rparr>
      in if HasUser_loop (userConfigs a) userName then (True, locked)
         else (False, locked\<lparr>readers := readers a\<rparr>))"

text \<open>
  \<open>SetUserConfigs\<close> needs the write lock, which is granted only when no read lock is
  out: \<open>None\<close> is the call that waits for one that nobody will release. The deep
  comparison decides only whether the equal value is stored again.
\<close>

definition SetUserConfigs :: "UserConfigs \<Rightarrow> UserConfig list \<Rightarrow> UserConfigs option" where
  "SetUserConfigs a ucs =
     (if readers a = 0
      then Some (if ucs \<noteq> userConfigs a then a\<lparr>userConfigs := ucs\<rparr> else a)
      else None)"

fun GetMetadata_loop :: "UserConfig list \<Rightarrow> string \<Rightarrow> Metadata \<Rightarrow> Metadata" where
  "GetMetadata_loop [] userName metadata = metadata"
| "GetMetadata_loop (uc # ucs) userName metadata =
     GetMetadata_loop ucs userName (if ucUserName uc = userName then ucMetadata uc else metadata)"

definition GetMetadata :: "UserConfigs \<Rightarrow> string \<Rightarrow> Metadata" where
  "GetMetadata a userName = GetMetadata_loop (userConfigs a) userName Map.empty"

section \<open>The event accumulator\<close>

type_synonym EventMap = "UserManifestType \<rightharpoonup> EventJsons"

text \<open>Indexing a Go map at an absent key yields the zero value, here the nil slice.\<close>

definition held_at :: "EventMap \<Rightarrow> UserManifestType \<Rightarrow> EventJsons" where
  "held_at m k = (case m k of None \<Rightarrow> [] | Some js \<Rightarrow> js)"

definition event_key :: "Event \<Rightarrow> UserManifestType" where
  "event_key e = \<lparr>umtUser = evUser e, umtManifestType = evManifestType e\<rparr>"

definition Add :: "Event \<Rightarrow> EventMap \<Rightarrow> EventMap \<times> int" where
  "Add event m =
     (let k = event_key event; aEventJsons = held_at m k @ [evRawMessage event]
      in (m(k \<mapsto> aEventJsons), int (length aEventJsons)))"

definition Flush :: "UserManifestType \<Rightarrow> EventMap \<Rightarrow> EventMap \<times> EventJsons" where
  "Flush k m = (m(k := None), held_at m k)"

definition FlushAll :: "EventMap \<Rightarrow> EventMap \<times> EventMap" where
  "FlushAll m = (Map.empty, m)"

definition IsEmpty :: "UserManifestType \<Rightarrow> EventMap \<Rightarrow> bool" where
  "IsEmpty k m \<longleftrightarrow> length (held_at m k) = 0"

text \<open>
  \<open>GetKeys\<close> allocates one slot per key and fills them in the order Go visits the map
  (\<open>order\<close>); a slot that is not filled keeps the zero key.
\<close>

fun GetKeys_loop :: "UserManifestType list \<Rightarrow> nat \<Rightarrow> UserManifestType list \<Rightarrow> UserManifestType list" where
  "GetKeys_loop [] i keys = keys"
| "GetKeys_loop (k # ks) i keys = GetKeys_loop ks (Suc i) (keys[i := k])"

definition GetKeys :: "UserManifestType list \<Rightarrow> EventMap \<Rightarrow> UserManifestType list" where
  "GetKeys order m =
     GetKeys_loop order 0 (replicate (card (dom m)) \<lparr>umtUser = '''', umtManifestType = ''''\<rparr>)"

text \<open>An order in which Go may visit the keys of a map: every key once.\<close>

definition visits :: "('k \<rightharpoonup> 'v) \<Rightarrow> 'k list \<Rightarrow> bool" where
  "visits m order \<longleftrightarrow> distinct order \<and> set order = dom m"

section \<open>The interface of an accumulator\<close>

text \<open>
  What the processor needs of the accumulator: adding appends under one key, flushing a
  key hands over exactly what was held there, flushing everything hands over everything.
\<close>

locale event_accumulator =
  fixes add :: "'e \<Rightarrow> 's \<Rightarrow> 's \<times> int"
    and flush :: "'k \<Rightarrow> 's \<Rightarrow> 's \<times> 'v list"
    and flush_all :: "'s \<Rightarrow> 's \<times> ('k \<rightharpoonup> 'v list)"
    and key :: "'e \<Rightarrow> 'k"
    and payload :: "'e \<Rightarrow> 'v"
    and held :: "'s \<Rightarrow> 'k \<Rightarrow> 'v list"
  assumes held_add: "held (fst (add e s)) = (held s)(key e := held s (key e) @ [payload e])"
    and add_length: "snd (add e s) = int (length (held (fst (add e s)) (key e)))"
    and held_flush: "held (fst (flush k s)) = (held s)(k := [])"
    and flush_result: "snd (flush k s) = held s k"
    and held_flush_all: "held (fst (flush_all s)) = (\<lambda>_. [])"
    and flush_all_result: "snd (flush_all s) k = None \<Longrightarrow> held s k = []"
    and flush_all_some: "snd (flush_all s) k = Some js \<Longrightarrow> held s k = js"
begin

lemma add_conserves:
  "mset (held (fst (add e s)) k) =
     mset (held s k) + (if k = key e then {#payload e#} else {#})"
  by (simp add: held_add)

lemma flush_conserves:
  "mset (held s k) =
     mset (held (fst (flush k' s)) k) + (if k = k' then mset (snd (flush k' s)) else {#})"
  by (simp add: held_flush flush_result)

lemma flush_all_entry: "(case snd (flush_all s) k of None \<Rightarrow> [] | Some js \<Rightarrow> js) = held s k"
  by (auto dest: flush_all_result flush_all_some split: option.split)

lemma add_then_flush: "snd (flush (key e) (fst (add e s))) = held s (key e) @ [payload e]"
  by (simp add: flush_result held_add)

lemma adds_then_flush:
  "snd (flush k (fold (\<lambda>e s. fst (add e s)) es s)) =
     held s k @ map payload (filter (\<lambda>e. key e = k) es)"
  by (induction es arbitrary: s) (auto simp: flush_result held_add)

end

lemma held_at_upd [simp]: "held_at (m(k \<mapsto> js)) k' = (if k' = k then js else held_at m k')"
  and held_at_del [simp]: "held_at (m(k := None)) k' = (if k' = k then [] else held_at m k')"
  and held_at_empty [simp]: "held_at Map.empty k = []"
  by (simp_all add: held_at_def)

interpretation accum: event_accumulator Add Flush FlushAll event_key evRawMessage held_at
  by unfold_locales
     (auto simp: Add_def Flush_def FlushAll_def Let_def fun_eq_iff, auto simp: held_at_def)

section \<open>Properties of the data\<close>

lemma HasUser_loop_iff: "HasUser_loop ucs u \<longleftrightarrow> (\<exists>uc \<in> set ucs. ucUserName uc = u)"
  by (induction ucs) auto

lemma GetMetadata_loop_last:
  "GetMetadata_loop ucs u md =
     (case find (\<lambda>uc. ucUserName uc = u) (rev ucs) of None \<Rightarrow> md | Some uc \<Rightarrow> ucMetadata uc)"
  by (induction ucs arbitrary: md) (auto simp: find_append split: option.split)

lemma GetKeys_loop_fill:
  "length done + length ks = length keys \<Longrightarrow> take (length done) keys = done \<Longrightarrow>
   GetKeys_loop ks (length done) keys = done @ ks"
proof (induction ks arbitrary: "done" keys)
  case Nil
  then show ?case by simp
next
  case (Cons k ks)
  have "take (length (done @ [k])) (keys[length done := k]) = done @ [k]"
    using Cons.prems by (simp add: take_Suc_conv_app_nth)
  then show ?case
    using Cons.IH [of "done @ [k]" "keys[length done := k]"] Cons.prems by simp
qed

lemma GetKeys_visits: "visits m order \<Longrightarrow> GetKeys order m = order"
  unfolding GetKeys_def
  using GetKeys_loop_fill [of "[]" order]
  by (simp add: visits_def distinct_card [symmetric])

text \<open>
  The metadata of a user is that of the last configuration entry with the user's name,
  and no metadata for a user without an entry.
\<close>

lemma GetMetadata_last_entry:
  "GetMetadata a u =
     (case find (\<lambda>uc. ucUserName uc = u) (rev (userConfigs a)) of
        None \<Rightarrow> Map.empty | Some uc \<Rightarrow> ucMetadata uc)"
  by (simp add: GetMetadata_def GetMetadata_loop_last)

text \<open>
  Once \<open>HasUser\<close> has found a user, no later update of the user configurations
  takes effect: the read lock it leaves behind blocks \<open>SetUserConfigs\<close> for ever,
  while a call that does not find the user leaves the lock as it was.
\<close>

theorem HasUser_leaks_read_lock:
  "(if \<exists>uc \<in> set (userConfigs a). ucUserName uc = u
    then fst (HasUser a u) \<and> SetUserConfigs (snd (HasUser a u)) ucs = None
    else \<not> fst (HasUser a u) \<and> snd (HasUser a u) = a)"
  by (simp add: HasUser_def HasUser_loop_iff SetUserConfigs_def)

text \<open>
  Events added under a user and manifest type come back from \<open>Flush\<close> in the order
  they were added, after the ones already held, with none of another key among them.
\<close>

lemma accumulator_flush_returns_added:
  "snd (Flush k (fold (\<lambda>e m. fst (Add e m)) es m)) =
     held_at m k @ map evRawMessage (filter (\<lambda>e. event_key e = k) es)"
  by (rule accum.adds_then_flush)

end
