(* ===== verification/Destinations.thy ===== *)
theory Destinations
  imports EventTypes
begin

text \<open>
  The parts of a data filter of the data reporter: the selector that decides whether a
  filter applies to an event (\<open>pkg/selector/selector.go\<close>), the transformer of its
  payload (\<open>pkg/transformer/transformer.go\<close>) and the uploader to an alternate
  destination (\<open>pkg/uploader/uploader.go\<close>). The JSON path, JSON, URL and kazaam
  libraries are arguments of the model (\<open>libs\<close>), and so is the network: a server
  answers a request from the whole history of requests that the uploader made.
\<close>

section \<open>Libraries\<close>

record ('expr, 'obj, 'kz, 'url) libs =
  jp_ParseString :: "string \<Rightarrow> 'expr result"
  jp_Get :: "'expr \<Rightarrow> 'obj \<Rightarrow> 'obj list"
  oj_Parse :: "string \<Rightarrow> 'obj result"
  alt_String :: "'obj \<Rightarrow> string"
  NewKazaam :: "string \<Rightarrow> 'kz result"
  kazaam_Transform :: "'kz \<Rightarrow> bytes \<Rightarrow> bytes result"
  url_Parse :: "string \<Rightarrow> 'url result"
  url_JoinPath :: "'url \<Rightarrow> string \<Rightarrow> 'url"
  url_String :: "'url \<Rightarrow> string"
  NewRequest :: "string \<Rightarrow> bytes \<Rightarrow> go_error option"

section \<open>Selectors\<close>

fun NewJsonPathsSelector_loop ::
  "('expr, 'obj, 'kz, 'url) libs \<Rightarrow> 'expr list \<Rightarrow> string list \<Rightarrow> 'expr list result" where
  "NewJsonPathsSelector_loop L jps [] = Inr jps"
| "NewJsonPathsSelector_loop L jps (jsonpath # jsonpaths) =
     (case jp_ParseString L jsonpath of
        Inl err \<Rightarrow> Inl err
      | Inr x \<Rightarrow> NewJsonPathsSelector_loop L (jps @ [x]) jsonpaths)"

definition NewJsonPathsSelector ::
  "('expr, 'obj, 'kz, 'url) libs \<Rightarrow> string list \<Rightarrow> 'expr list result" where
  "NewJsonPathsSelector L jsonpaths = NewJsonPathsSelector_loop L [] jsonpaths"

fun JsonPathsSelector_loop :: "('expr, 'obj, 'kz, 'url) libs \<Rightarrow> 'obj \<Rightarrow> 'expr list \<Rightarrow> bool" where
  "JsonPathsSelector_loop L obj [] = True"
| "JsonPathsSelector_loop L obj (x # xs) =
     (if length (jp_Get L x obj) = 0 then False else JsonPathsSelector_loop L obj xs)"

definition JsonPathsSelector_Matches ::
  "('expr, 'obj, 'kz, 'url) libs \<Rightarrow> 'expr list \<Rightarrow> string \<Rightarrow> bool" where
  "JsonPathsSelector_Matches L js jsonString =
     (case oj_Parse L jsonString of
        Inl err \<Rightarrow> False
      | Inr obj \<Rightarrow> JsonPathsSelector_loop L obj js)"

definition UsersSelector_Matches :: "string list \<Rightarrow> string \<Rightarrow> bool" where
  "UsersSelector_Matches us user = (if length us = 0 then True else List.member us user)"

record 'expr DataFilterSelector =
  selJsonPaths :: "'expr list"
  selUsers :: "string list"

record v1alpha1_Selector =
  MatchExpressions :: "string list"
  MatchUsers :: "string list"

definition NewDataFilterSelector ::
  "('expr, 'obj, 'kz, 'url) libs \<Rightarrow> v1alpha1_Selector \<Rightarrow> 'expr DataFilterSelector result" where
  "NewDataFilterSelector L sel =
     (case NewJsonPathsSelector L (MatchExpressions sel) of
        Inl err \<Rightarrow> Inl (wrap ''failed to parse datafilter selector matchexpression'' err)
      | Inr jps \<Rightarrow> Inr \<lparr>selJsonPaths = jps, selUsers = MatchUsers sel\<rparr>)"

definition DataFilterSelector_Matches ::
  "('expr, 'obj, 'kz, 'url) libs \<Rightarrow> 'expr DataFilterSelector \<Rightarrow> Event \<Rightarrow> bool" where
  "DataFilterSelector_Matches L dfs event \<longleftrightarrow>
     JsonPathsSelector_Matches L (selJsonPaths dfs) (evRawMessage event) \<and>
     UsersSelector_Matches (selUsers dfs) (evUser event)"

section \<open>Transformers\<close>

record 'kz Transformer =
  transformerType :: string
  transformerText :: string
  kazaamTransformer :: "'kz option"

text \<open>Calling the engine of a transformer that has none is a nil dereference.\<close>

definition Transform ::
  "('expr, 'obj, 'kz, 'url) libs \<Rightarrow> 'kz Transformer \<Rightarrow> bytes \<Rightarrow> bytes result" where
  "Transform L t json =
     (if transformerType t = ''kazaam'' then
        (case kazaamTransformer t of
           None \<Rightarrow> Inl (Panic ''nil kazaam'')
         | Some k \<Rightarrow> kazaam_Transform L k json)
      else Inl (Err ''unsupported transformer type''))"

definition NewTransformer ::
  "('expr, 'obj, 'kz, 'url) libs \<Rightarrow> string \<Rightarrow> string \<Rightarrow> 'kz Transformer result" where
  "NewTransformer L ttype ttext =
     (if ttype = ''kazaam'' then
        (case NewKazaam L ttext of
           Inl err \<Rightarrow> Inl (wrap ''invalid transformer string'' err)
         | Inr k \<Rightarrow> Inr \<lparr>transformerType = ttype, transformerText = ttext, kazaamTransformer = Some k\<rparr>)
      else Inl (Err ''unsupported transformer type''))"

section \<open>Uploaders\<close>

record uploader_Config =
  DestURL :: string
  DestHeader :: smap
  DestURLSuffixExpr :: string
  AuthURL :: string
  AuthHeader :: smap
  AuthDestHeader :: string
  AuthDestHeaderPrefix :: string
  AuthTokenExpr :: string
  AuthBodyData :: bytes

record ('expr, 'kz, 'url) Uploader =
  upConfig :: uploader_Config
  upTransformer :: "'kz Transformer"
  upDestURL :: 'url
  upDestURLSuffixExpr :: "'expr option"
  upAuthURL :: "'url option"
  upAuthTokenExpr :: "'expr option"
  upDestHeader :: header
  upAuthHeader :: header
  upAuthBodyData :: bytes
  upAuthToken :: string

text \<open>
  The header loops range over Go maps; \<open>destOrder\<close> and \<open>authOrder\<close> are the orders
  in which the keys are visited. Keys absent from the map are never visited.
\<close>

fun header_loop :: "(string \<Rightarrow> string \<Rightarrow> header \<Rightarrow> header) \<Rightarrow> smap \<Rightarrow> string list \<Rightarrow> header \<Rightarrow> header" where
  "header_loop putv m [] h = h"
| "header_loop putv m (k # ks) h =
     header_loop putv m ks (case m k of None \<Rightarrow> h | Some v \<Rightarrow> putv k v h)"

definition parse_if :: "('a \<Rightarrow> 'b result) \<Rightarrow> bool \<Rightarrow> 'a \<Rightarrow> 'b option result" where
  "parse_if parse c x = (if c then map_sum id Some (parse x) else Inr None)"

definition NewUploader ::
  "('expr, 'obj, 'kz, 'url) libs \<Rightarrow> string list \<Rightarrow> string list \<Rightarrow> uploader_Config \<Rightarrow>
     'kz Transformer \<Rightarrow> ('expr, 'kz, 'url) Uploader result" where
  "NewUploader L destOrder authOrder config transformer =
     (case url_Parse L (DestURL config) of
        Inl err \<Rightarrow> Inl err
      | Inr destURL \<Rightarrow>
          (case parse_if (jp_ParseString L) (length (DestURLSuffixExpr config) \<noteq> 0)
                  (DestURLSuffixExpr config) of
             Inl err \<Rightarrow> Inl err
           | Inr suffixExpr \<Rightarrow>
               (case parse_if (url_Parse L) (length (AuthURL config) \<noteq> 0) (AuthURL config) of
                  Inl err \<Rightarrow> Inl err
                | Inr authURL \<Rightarrow>
                    (case parse_if (jp_ParseString L) (length (AuthDestHeader config) \<noteq> 0)
                            (AuthTokenExpr config) of
                       Inl err \<Rightarrow> Inl err
                     | Inr tokenExpr \<Rightarrow>
                         Inr \<lparr>upConfig = config, upTransformer = transformer,
                              upDestURL = destURL, upDestURLSuffixExpr = suffixExpr,
                              upAuthURL = authURL, upAuthTokenExpr = tokenExpr,
                              upDestHeader = header_loop Header_Set (DestHeader config) destOrder Map.empty,
                              upAuthHeader = header_loop Header_Add (AuthHeader config) authOrder Map.empty,
                              upAuthBodyData = AuthBodyData config, upAuthToken = []\<rparr>))))"

text \<open>
  Requests are all POST. A response's body may fail to be read. The server sees the
  requests so far, the current one last.
\<close>

record http_request =
  rqURL :: string
  rqHeader :: header
  rqBody :: bytes

record http_response =
  rsStatusCode :: int
  rsBody :: "bytes result"

type_synonym trace = "http_request list"
type_synonym http_server = "trace \<Rightarrow> http_response result"

definition uploadToDest ::
  "('expr, 'obj, 'kz, 'url) libs \<Rightarrow> http_server \<Rightarrow> ('expr, 'kz, 'url) Uploader \<Rightarrow> 'url \<Rightarrow> bytes \<Rightarrow>
     trace \<Rightarrow> trace \<times> http_response result" where
  "uploadToDest L srv u destURL body tr =
     (case NewRequest L (url_String L destURL) body of
        Some err \<Rightarrow> (tr, Inl err)
      | None \<Rightarrow>
          (let h = (if length (AuthDestHeader (upConfig u)) \<noteq> 0 \<and> length (upAuthToken u) \<noteq> 0
                    then Header_Set (AuthDestHeader (upConfig u))
                           (AuthDestHeaderPrefix (upConfig u) @ upAuthToken u) (upDestHeader u)
                    else upDestHeader u);
               tr' = tr @ [\<lparr>rqURL = url_String L destURL, rqHeader = h, rqBody = body\<rparr>]
           in (tr', srv tr')))"

definition parseForSuffix ::
  "('expr, 'obj, 'kz, 'url) libs \<Rightarrow> ('expr, 'kz, 'url) Uploader \<Rightarrow> bytes \<Rightarrow> string" where
  "parseForSuffix L u eventMsg =
     (case upDestURLSuffixExpr u of
        None \<Rightarrow> []
      | Some expr \<Rightarrow>
          (case oj_Parse L eventMsg of
             Inl err \<Rightarrow> []
           | Inr obj \<Rightarrow>
               (case jp_Get L expr obj of [] \<Rightarrow> [] | r # _ \<Rightarrow> alt_String L r)))"

text \<open>
  \<open>callAuth\<close>: the status code and error it returns, with the uploader whose token it
  may have replaced. A nil authorization URL would be dereferenced.
\<close>

definition callAuth_token ::
  "('expr, 'obj, 'kz, 'url) libs \<Rightarrow> ('expr, 'kz, 'url) Uploader \<Rightarrow> http_response \<Rightarrow>
     ('expr, 'kz, 'url) Uploader \<times> int \<times> go_error option" where
  "callAuth_token L u aResp =
     (case rsBody aResp of
        Inl err \<Rightarrow> (u, StatusInternalServerError, Some err)
      | Inr aBody \<Rightarrow>
          (case upAuthTokenExpr u of
             Some expr \<Rightarrow>
               (case oj_Parse L aBody of
                  Inl err \<Rightarrow> (u, StatusInternalServerError,
                     Some (Err ''could not parse response body data from authorization endpoint''))
                | Inr obj \<Rightarrow>
                    (case jp_Get L expr obj of
                       [] \<Rightarrow> (u, rsStatusCode aResp, None)
                     | r # _ \<Rightarrow> (u\<lparr>upAuthToken := alt_String L r\<rparr>, rsStatusCode aResp, None)))
           | None \<Rightarrow> (u\<lparr>upAuthToken := aBody\<rparr>, rsStatusCode aResp, None)))"

definition callAuth ::
  "('expr, 'obj, 'kz, 'url) libs \<Rightarrow> http_server \<Rightarrow> ('expr, 'kz, 'url) Uploader \<Rightarrow> trace \<Rightarrow>
     trace \<times> ('expr, 'kz, 'url) Uploader \<times> int \<times> go_error option" where
  "callAuth L srv u tr =
     (case upAuthURL u of
        None \<Rightarrow> (tr, u, 0, Some (Panic ''nil authURL''))
      | Some authURL \<Rightarrow>
          (case NewRequest L (url_String L authURL) (upAuthBodyData u) of
             Some err \<Rightarrow> (tr, u, StatusInternalServerError, Some err)
           | None \<Rightarrow>
               (let tr' = tr @ [\<lparr>rqURL = url_String L authURL, rqHeader = upAuthHeader u,
                                 rqBody = upAuthBodyData u\<rparr>]
                in case srv tr' of
                     Inl err \<Rightarrow> (tr', u, StatusInternalServerError, Some err)
                   | Inr aResp \<Rightarrow>
                       (if \<not> is_2xx (rsStatusCode aResp)
                        then (tr', u, rsStatusCode aResp, Some (Err ''non 200 response''))
                        else (tr', callAuth_token L u aResp)))))"

definition upload ::
  "('expr, 'obj, 'kz, 'url) libs \<Rightarrow> http_server \<Rightarrow> ('expr, 'kz, 'url) Uploader \<Rightarrow> 'url \<Rightarrow> bytes \<Rightarrow>
     trace \<Rightarrow> trace \<times> ('expr, 'kz, 'url) Uploader \<times> int \<times> go_error option" where
  "upload L srv u destURL body tr =
     (case uploadToDest L srv u destURL body tr of
        (tr1, Inl err) \<Rightarrow> (tr1, u, StatusInternalServerError, Some err)
      | (tr1, Inr dResp) \<Rightarrow>
          (if rsStatusCode dResp = StatusUnauthorized \<and> upAuthURL u \<noteq> None then
             (case callAuth L srv u tr1 of
                (tr2, u', statusCode, Some err) \<Rightarrow> (tr2, u', statusCode, Some err)
              | (tr2, u', statusCode, None) \<Rightarrow>
                  (case uploadToDest L srv u' destURL body tr2 of
                     (tr3, Inl err) \<Rightarrow> (tr3, u', StatusInternalServerError, Some err)
                   | (tr3, Inr adResp) \<Rightarrow>
                       (if \<not> is_2xx (rsStatusCode adResp)
                        then (tr3, u', rsStatusCode adResp, Some (Err ''non 200 response''))
                        else (tr3, u', rsStatusCode adResp, None))))
           else if \<not> is_2xx (rsStatusCode dResp)
           then (tr1, u, rsStatusCode dResp, Some (Err ''non 200 response''))
           else (tr1, u, rsStatusCode dResp, None)))"

definition TransformAndUpload ::
  "('expr, 'obj, 'kz, 'url) libs \<Rightarrow> http_server \<Rightarrow> ('expr, 'kz, 'url) Uploader \<Rightarrow> bytes \<Rightarrow>
     trace \<Rightarrow> trace \<times> ('expr, 'kz, 'url) Uploader \<times> int \<times> go_error option" where
  "TransformAndUpload L srv u eventMsg tr =
     (let destURL = url_JoinPath L (upDestURL u) (parseForSuffix L u eventMsg);
          body = (case Transform L (upTransformer u) eventMsg of Inl err \<Rightarrow> eventMsg | Inr out \<Rightarrow> out)
      in upload L srv u destURL body tr)"

text \<open>
  Libraries in which expressions and objects are strings, every lookup yields the object
  itself, and nothing fails; and a server that wants a token on its second endpoint.
\<close>

definition demo_libs :: "(string, string, unit, string) libs" where
  "demo_libs = \<lparr>
     jp_ParseString = Inr, jp_Get = (\<lambda>x obj. [obj]), oj_Parse = Inr, alt_String = id,
     NewKazaam = (\<lambda>_. Inr ()), kazaam_Transform = (\<lambda>_ b. Inr b),
     url_Parse = Inr, url_JoinPath = (\<lambda>u s. u @ s), url_String = id,
     NewRequest = (\<lambda>_ _. None)\<rparr>"

definition demo_uploader :: "(string, unit, string) Uploader" where
  "demo_uploader = \<lparr>
     upConfig = \<lparr>DestURL = ''d'', DestHeader = Map.empty, DestURLSuffixExpr = [], AuthURL = ''a'',
       AuthHeader = Map.empty, AuthDestHeader = ''authorization'', AuthDestHeaderPrefix = ''Bearer '',
       AuthTokenExpr = [], AuthBodyData = ''key''\<rparr>,
     upTransformer = \<lparr>transformerType = ''kazaam'', transformerText = [], kazaamTransformer = Some ()\<rparr>,
     upDestURL = ''d'', upDestURLSuffixExpr = None, upAuthURL = Some ''a'', upAuthTokenExpr = None,
     upDestHeader = Map.empty, upAuthHeader = Map.empty, upAuthBodyData = ''key'', upAuthToken = []\<rparr>"

definition demo_server :: http_server where
  "demo_server tr =
     (if length tr = 1 then Inr \<lparr>rsStatusCode = 401, rsBody = Inr []\<rparr>
      else if length tr = 2 then Inr \<lparr>rsStatusCode = 200, rsBody = Inr ''tok''\<rparr>
      else Inr \<lparr>rsStatusCode = 200, rsBody = Inr []\<rparr>)"

section \<open>Lemmas\<close>

lemma NewJsonPathsSelector_loop_ok:
  "NewJsonPathsSelector_loop L jps ps = Inr xs \<longleftrightarrow>
     (\<exists>ys. xs = jps @ ys \<and> map (jp_ParseString L) ps = map Inr ys)"
  by (induction ps arbitrary: jps) (auto simp: Cons_eq_map_conv split: sum.splits)

lemma JsonPathsSelector_loop_all:
  "JsonPathsSelector_loop L obj xs \<longleftrightarrow> (\<forall>x \<in> set xs. jp_Get L x obj \<noteq> [])"
  by (induction xs) auto

lemma uploadToDest_trace:
  "uploadToDest L srv u d body tr = (tr', r) \<Longrightarrow>
     tr' = tr \<and> is_err r \<or> (\<exists>h. tr' = tr @ [\<lparr>rqURL = url_String L d, rqHeader = h, rqBody = body\<rparr>] \<and> r = srv tr')"
  by (auto simp: uploadToDest_def Let_def split: option.splits)

lemma callAuth_token_config:
  "callAuth_token L u aResp = (u', c, err) \<Longrightarrow> upConfig u' = upConfig u \<and> upDestHeader u' = upDestHeader u"
  by (auto simp: callAuth_token_def split: sum.splits option.splits list.splits)

lemma callAuth_trace:
  "callAuth L srv u tr = (tr', u', c, err) \<Longrightarrow>
     \<exists>reqs. tr' = tr @ reqs \<and> length reqs \<le> 1 \<and> upConfig u' = upConfig u \<and> upDestHeader u' = upDestHeader u \<and>
       (err = None \<longrightarrow> is_2xx c \<and> length reqs = 1)"
  by (auto simp: callAuth_def callAuth_token_def Let_def StatusInternalServerError_def
      split: option.splits sum.splits if_splits list.splits; metis)

lemma callAuth_code:
  "callAuth L srv u tr = (tr', u', c, err) \<Longrightarrow> upAuthURL u \<noteq> None \<Longrightarrow> err = None \<longleftrightarrow> is_2xx c"
  by (auto simp: callAuth_def callAuth_token_def Let_def status_code_defs
      split: option.splits sum.splits if_splits list.splits; metis)

lemma uploadToDest_ok:
  "uploadToDest L srv u d body tr = (tr', Inr resp) \<Longrightarrow>
     tr' = tr @ [\<lparr>rqURL = url_String L d,
       rqHeader = (if AuthDestHeader (upConfig u) \<noteq> [] \<and> upAuthToken u \<noteq> []
         then Header_Set (AuthDestHeader (upConfig u)) (AuthDestHeaderPrefix (upConfig u) @ upAuthToken u)
                (upDestHeader u)
         else upDestHeader u),
       rqBody = body\<rparr>] \<and> srv tr' = Inr resp"
  by (auto simp: uploadToDest_def Let_def split: option.splits if_splits)

lemma uploadToDest_length:
  "uploadToDest L srv u d body tr = (tr', r) \<Longrightarrow> length tr' \<le> Suc (length tr)"
  by (auto dest: uploadToDest_trace)

lemma upload_retry_case:
  assumes "upload L srv u d body [] = (tr, u', code, err)" and "2 \<le> length tr"
  obtains tr1 dResp tr2 c aerr where
    "uploadToDest L srv u d body [] = (tr1, Inr dResp)" "length tr1 = 1"
    "rsStatusCode dResp = StatusUnauthorized" "upAuthURL u \<noteq> None"
    "callAuth L srv u tr1 = (tr2, u', c, aerr)"
    "aerr \<noteq> None \<and> tr = tr2 \<or> aerr = None \<and> (\<exists>r. uploadToDest L srv u' d body tr2 = (tr, r))"
proof -
  obtain tr1 r where 1: "uploadToDest L srv u d body [] = (tr1, r)" by fastforce
  from uploadToDest_length [OF 1] have len1: "length tr1 \<le> 1" by simp
  from 1 assms len1 obtain dResp where r: "r = Inr dResp"
    by (cases r) (auto simp: upload_def)
  have len: "length tr1 = 1" using uploadToDest_trace [OF 1] r by auto
  obtain tr2 v c aerr where 2: "callAuth L srv u tr1 = (tr2, v, c, aerr)" by (metis prod_cases4)
  have unauth: "rsStatusCode dResp = StatusUnauthorized \<and> upAuthURL u \<noteq> None"
    using assms 1 r len1 by (auto simp: upload_def split: if_splits)
  then have "v = u' \<and> (aerr \<noteq> None \<and> tr = tr2 \<or> aerr = None \<and> (\<exists>r. uploadToDest L srv u' d body tr2 = (tr, r)))"
    using assms(1) 1 2 r
    by (auto simp: upload_def split: option.splits prod.splits sum.splits if_splits)
  with 1 2 r len unauth that show ?thesis by metis
qed

lemma upload_retry_shape:
  assumes "upload L srv u d body [] = (tr, u', code, err)" and "2 \<le> length tr"
  shows "\<exists>req reqs r. tr = req # reqs \<and> length reqs \<le> 2 \<and> srv [req] = Inr r \<and>
    rsStatusCode r = StatusUnauthorized \<and> upAuthURL u \<noteq> None"
proof -
  obtain tr1 dResp tr2 c aerr where
    1: "uploadToDest L srv u d body [] = (tr1, Inr dResp)" and
    u: "rsStatusCode dResp = StatusUnauthorized" "upAuthURL u \<noteq> None" and
    2: "callAuth L srv u tr1 = (tr2, u', c, aerr)" and
    fin: "aerr \<noteq> None \<and> tr = tr2 \<or> aerr = None \<and> (\<exists>r. uploadToDest L srv u' d body tr2 = (tr, r))"
    using upload_retry_case [OF assms] by metis
  obtain req where tr1: "tr1 = [req]" "srv [req] = Inr dResp"
    using uploadToDest_trace [OF 1] by auto
  obtain reqs where tr2: "tr2 = req # reqs" "length reqs \<le> 1"
    using callAuth_trace [OF 2] tr1 by auto
  from fin have "\<exists>more. tr = tr2 @ more \<and> length more \<le> 1"
    by (auto dest: uploadToDest_trace)
  with tr1 tr2 u show ?thesis by (auto intro!: exI [of _ req])
qed

lemma upload_code: "upload L srv u d body tr0 = (tr, u', code, err) \<Longrightarrow> err = None \<longleftrightarrow> is_2xx code"
  by (auto simp: upload_def StatusInternalServerError_def is_2xx_def
      dest!: callAuth_code [unfolded is_2xx_def]
      split: prod.splits sum.splits option.splits if_splits)

section \<open>Properties\<close>

text \<open>
  A filter's selector matches an event exactly when the payload parses as JSON, every
  JSON path expression yields a result on it, and the user is listed or no users are.
\<close>

lemma selector_matches_iff:
  "DataFilterSelector_Matches L dfs event \<longleftrightarrow>
     (\<exists>obj. oj_Parse L (evRawMessage event) = Inr obj \<and>
            list_all (\<lambda>x. jp_Get L x obj \<noteq> []) (selJsonPaths dfs)) \<and>
     (selUsers dfs = [] \<or> evUser event \<in> set (selUsers dfs))"
  by (auto simp: DataFilterSelector_Matches_def JsonPathsSelector_Matches_def
      UsersSelector_Matches_def JsonPathsSelector_loop_all list_all_iff split: sum.splits)

text \<open>
  An upload makes at most three requests, and more than one only after the destination
  answered 401 and an authorization endpoint is configured; the status code it returns is
  in the 200 range exactly when it returns no error.
\<close>

theorem upload_protocol:
  assumes "upload L srv u d body [] = (tr, u', code, err)"
  shows "(err = None \<longleftrightarrow> is_2xx code) \<and> length tr \<le> 3 \<and>
     (2 \<le> length tr \<longrightarrow> upAuthURL u \<noteq> None \<and>
        (\<exists>r. srv [hd tr] = Inr r \<and> rsStatusCode r = StatusUnauthorized))"
proof (cases "2 \<le> length tr")
  case True
  from upload_retry_shape [OF assms True] upload_code [OF assms] show ?thesis by auto
next
  case False
  with upload_code [OF assms] show ?thesis by simp
qed

theorem upload_protocol_witness:
  "\<exists>tr u' code err. upload demo_libs demo_server demo_uploader ''d'' ''x'' [] = (tr, u', code, err) \<and>
     (err = None \<longleftrightarrow> is_2xx code) \<and> length tr \<le> 3"
proof -
  obtain tr u' code err where
    e: "upload demo_libs demo_server demo_uploader ''d'' ''x'' [] = (tr, u', code, err)"
    by (metis prod_cases4)
  from upload_protocol [OF e] e show ?thesis by blast
qed

text \<open>
  When an upload is retried after authorization, the retry goes to the same URL with
  the same body and carries the token just obtained, behind the configured prefix, in the
  configured header.
\<close>

theorem upload_retry_carries_token:
  assumes "upload L srv u d body [] = (tr, u', code, err)" and "length tr = 3"
    and "AuthDestHeader (upConfig u) \<noteq> []" and "upAuthToken u' \<noteq> []"
  shows "rqURL (tr ! 2) = rqURL (tr ! 0) \<and> rqBody (tr ! 2) = rqBody (tr ! 0) \<and>
     Header_Get (AuthDestHeader (upConfig u)) (rqHeader (tr ! 2)) =
       AuthDestHeaderPrefix (upConfig u) @ upAuthToken u'"
proof -
  have "2 \<le> length tr" using assms(2) by simp
  then obtain tr1 dResp tr2 c aerr where
    1: "uploadToDest L srv u d body [] = (tr1, Inr dResp)" and
    2: "callAuth L srv u tr1 = (tr2, u', c, aerr)" and
    fin: "aerr \<noteq> None \<and> tr = tr2 \<or> aerr = None \<and> (\<exists>r. uploadToDest L srv u' d body tr2 = (tr, r))"
    using upload_retry_case [OF assms(1)] by metis
  obtain h where tr1: "tr1 = [\<lparr>rqURL = url_String L d, rqHeader = h, rqBody = body\<rparr>]"
    using uploadToDest_trace [OF 1] by auto
  obtain reqs where tr2: "tr2 = tr1 @ reqs" "length reqs \<le> 1" "upConfig u' = upConfig u"
    using callAuth_trace [OF 2] by blast
  from fin assms(2) tr1 tr2 obtain r where 3: "uploadToDest L srv u' d body tr2 = (tr, r)"
    by auto
  have "tr = tr2 @ [\<lparr>rqURL = url_String L d,
      rqHeader = Header_Set (AuthDestHeader (upConfig u')) (AuthDestHeaderPrefix (upConfig u') @ upAuthToken u')
        (upDestHeader u'), rqBody = body\<rparr>]"
    using 3 assms(2-4) tr1 tr2 by (auto simp: uploadToDest_def Let_def split: option.splits)
  moreover from this assms(2) tr1 tr2 obtain x where "reqs = [x]"
    by (cases reqs) auto
  ultimately show ?thesis using tr1 tr2 by (simp add: Header_Get_Set)
qed

theorem upload_retry_carries_token_witness:
  "Header_Get ''authorization''
     (rqHeader (fst (upload demo_libs demo_server demo_uploader ''d'' ''x'' []) ! 2)) = ''Bearer tok''"
proof -
  obtain tr u' code err where
    e: "upload demo_libs demo_server demo_uploader ''d'' ''x'' [] = (tr, u', code, err)"
    by (metis prod_cases4)
  have h: "length tr = 3" "AuthDestHeader (upConfig demo_uploader) \<noteq> []" "upAuthToken u' = ''tok''"
    using e by (auto simp: upload_def uploadToDest_def callAuth_def callAuth_token_def demo_libs_def
        demo_server_def demo_uploader_def Let_def status_code_defs)
  from upload_retry_carries_token [OF e h(1,2)] h(3) e show ?thesis
    by (simp add: demo_uploader_def)
qed

end
