(* ===== verification/DataFilters.thy ===== *)
theory DataFilters
  imports Destinations
begin

text \<open>
  The data filters of the data reporter (\<open>datareporter/v2/pkg/datafilter/datafilter.go\<close>)
  and the part of the \<open>DataReporterConfig\<close> resource they are built from
  (\<open>datareporter/v2/api/v1alpha1/datareporterconfig_types.go\<close>). The Kubernetes client
  is an argument that answers a get of a secret or config map; the certificate library is
  an argument too. A nil \<open>ConfigMapKeyRef\<close> is dereferenced by the code and is a panic
  here. The write lock makes \<open>Build\<close> one step against \<open>FilterAndUpload\<close>.
\<close>

section \<open>The configuration resource\<close>

record KeySelector =
  ksName :: string
  ksKey :: string

record v1alpha1_Transformer =
  vtType :: string
  vtConfigMapKeyRef :: "KeySelector option"

record v1alpha1_Authorization =
  auURL :: string
  auHeaderSecret :: string
  auAuthDestHeader :: string
  auAuthDestHeaderPrefix :: string
  auTokenExpr :: string
  auBodyData :: "KeySelector option"

record v1alpha1_Destination =
  deTransformer :: v1alpha1_Transformer
  deURL :: string
  deURLSuffixExpr :: string
  deHeaderSecret :: string
  deAuthorization :: v1alpha1_Authorization

record v1alpha1_DataFilter =
  vdSelector :: v1alpha1_Selector
  vdManifestType :: string
  vdTransformer :: v1alpha1_Transformer
  vdAltDestinations :: "v1alpha1_Destination list"

record v1alpha1_Certificate =
  ctClientCert :: "KeySelector option"
  ctClientKey :: "KeySelector option"

record v1alpha1_TLSConfig =
  tcCACerts :: "KeySelector list"
  tcCertificates :: "v1alpha1_Certificate list"
  tcInsecureSkipVerify :: bool
  tcCipherSuites :: "string list"
  tcMinVersion :: string

record RouteSpec =
  rsToKind :: string
  rsToName :: string
  rsTargetPort :: int
  rsTermination :: string
  rsInsecureEdgePolicy :: string

record v1alpha1_Route =
  roSpec :: "RouteSpec option"
  roDisabled :: "bool option"

record DataReporterConfigSpec =
  spUserConfigs :: "UserConfig list"
  spDataFilters :: "v1alpha1_DataFilter list"
  spTLSConfig :: "v1alpha1_TLSConfig option"
  spConfirmDelivery :: "bool option"
  spRoute :: "v1alpha1_Route option"

section \<open>State\<close>

record ('expr, 'kz, 'url) DataFilter =
  dfSelector :: "'expr DataFilterSelector"
  dfTransformer :: "'kz Transformer"
  dfDestinations :: "('expr, 'kz, 'url) Uploader list"
  dfManifestType :: string

record ('pool, 'cert) tls_Config =
  tlInsecureSkipVerify :: bool
  tlRootCAs :: "'pool option"
  tlCertificates :: "'cert list"
  tlMinVersion :: nat
  tlCipherSuites :: "nat list"

text \<open>
  What the transport of the shared HTTP client is: the retrying round tripper around an
  \<open>http.Transport\<close> with its TLS settings, around something else, or another type.
\<close>

datatype ('pool, 'cert) transport =
    RetryableTransport "('pool, 'cert) tls_Config option"
  | RetryableOther
  | OtherTransport

record ('expr, 'kz, 'url, 'pool, 'cert) DataFilters =
  dfsTransport :: "('pool, 'cert) transport"
  dfsDataFilters :: "('expr, 'kz, 'url) DataFilter list"
  dfsConfirmDelivery :: "bool option"
  dfsHasClient :: bool

record kube =
  kSecret :: "string \<Rightarrow> string \<Rightarrow> (string \<rightharpoonup> bytes) result"
  kConfigMap :: "string \<Rightarrow> string \<Rightarrow> (string \<rightharpoonup> string) result"

record ('pool, 'cert) tls_libs =
  SystemCertPool :: "'pool result"
  AppendCertsFromPEM :: "'pool \<Rightarrow> bytes \<Rightarrow> 'pool option"
  X509KeyPair :: "bytes \<Rightarrow> bytes \<Rightarrow> 'cert result"
  TLSVersion :: "string \<Rightarrow> nat result"
  TLSCipherSuites :: "string list \<Rightarrow> nat list result"

definition defaultManifestType :: string where
  "defaultManifestType = ''dataReporter''"

section \<open>Reading secrets and config maps\<close>

definition getMapFromSecret :: "kube \<Rightarrow> string \<Rightarrow> string \<Rightarrow> smap result" where
  "getMapFromSecret k ns name = kSecret k ns name"

definition getSecretData :: "kube \<Rightarrow> string \<Rightarrow> KeySelector \<Rightarrow> bytes result" where
  "getSecretData k ns ref =
     (case kSecret k ns (ksName ref) of
        Inl err \<Rightarrow> Inl (wrap ''error getting secret'' err)
      | Inr data \<Rightarrow>
          (case data (ksKey ref) of
             None \<Rightarrow> Inl (Err ''key not found for secret'')
           | Some b \<Rightarrow> Inr b))"

text \<open>The reference is a pointer the callers dereference.\<close>

definition getConfigMapData :: "kube \<Rightarrow> string \<Rightarrow> KeySelector option \<Rightarrow> string result" where
  "getConfigMapData k ns refp =
     (case refp of
        None \<Rightarrow> Inl (Panic ''nil ConfigMapKeyRef'')
      | Some ref \<Rightarrow>
          (case kConfigMap k ns (ksName ref) of
             Inl err \<Rightarrow> Inl (wrap ''error getting configmap'' err)
           | Inr data \<Rightarrow>
               (case data (ksKey ref) of
                  None \<Rightarrow> Inl (Err ''key not found for configmap'')
                | Some s \<Rightarrow> Inr s)))"

section \<open>Building the filters\<close>

text \<open>
  One alternate destination. \<open>order\<close> is Go's visiting order of a header map;
  \<open>filterT\<close> is the transformer of the enclosing filter: the code passes its type for the
  destination's transformer as well, and names its reference in the details of an error.
\<close>

definition buildDestination ::
  "('expr, 'obj, 'kz, 'url) libs \<Rightarrow> (smap \<Rightarrow> string list) \<Rightarrow> kube \<Rightarrow> string \<Rightarrow> v1alpha1_Transformer \<Rightarrow>
     v1alpha1_Destination \<Rightarrow> ('expr, 'kz, 'url) Uploader result" where
  "buildDestination L order k ns filterT dest =
     (case (if length (deHeaderSecret dest) \<noteq> 0 then getMapFromSecret k ns (deHeaderSecret dest)
            else Inr Map.empty) of
        Inl err \<Rightarrow> Inl (wrap ''could not get destination header secret'' err)
      | Inr destHeader \<Rightarrow>
     (case (if length (auHeaderSecret (deAuthorization dest)) \<noteq> 0
            then getMapFromSecret k ns (auHeaderSecret (deAuthorization dest)) else Inr Map.empty) of
        Inl err \<Rightarrow> Inl (wrap ''could not get authorization header secret'' err)
      | Inr authHeader \<Rightarrow>
     (case (case auBodyData (deAuthorization dest) of
              None \<Rightarrow> Inr [] | Some ref \<Rightarrow> getSecretData k ns ref) of
        Inl err \<Rightarrow> Inl (wrap ''could not get authorization body data'' err)
      | Inr authBodyData \<Rightarrow>
     (case getConfigMapData k ns (vtConfigMapKeyRef (deTransformer dest)) of
        Inl err \<Rightarrow> (case vtConfigMapKeyRef filterT of
                      None \<Rightarrow> Inl (Panic ''nil ConfigMapKeyRef'')
                    | Some _ \<Rightarrow> Inl (wrap ''could not get transformer config'' err))
      | Inr tConfig \<Rightarrow>
     (case NewTransformer L (vtType filterT) tConfig of
        Inl err \<Rightarrow> Inl (wrap ''could not initialize transformer'' err)
      | Inr t \<Rightarrow>
          NewUploader L (order destHeader) (order authHeader)
            \<lparr>DestURL = deURL dest, DestHeader = destHeader,
             DestURLSuffixExpr = deURLSuffixExpr dest,
             AuthURL = auURL (deAuthorization dest), AuthHeader = authHeader,
             AuthDestHeader = auAuthDestHeader (deAuthorization dest),
             AuthDestHeaderPrefix = auAuthDestHeaderPrefix (deAuthorization dest),
             AuthTokenExpr = auTokenExpr (deAuthorization dest),
             AuthBodyData = authBodyData\<rparr> t)))))"

fun buildDestinations ::
  "('expr, 'obj, 'kz, 'url) libs \<Rightarrow> (smap \<Rightarrow> string list) \<Rightarrow> kube \<Rightarrow> string \<Rightarrow> v1alpha1_Transformer \<Rightarrow>
     v1alpha1_Destination list \<Rightarrow> ('expr, 'kz, 'url) Uploader list result" where
  "buildDestinations L order k ns filterT [] = Inr []"
| "buildDestinations L order k ns filterT (dest # dests) =
     (case buildDestination L order k ns filterT dest of
        Inl err \<Rightarrow> Inl err
      | Inr u \<Rightarrow>
          (case buildDestinations L order k ns filterT dests of
             Inl err \<Rightarrow> Inl err
           | Inr us \<Rightarrow> Inr (u # us)))"

text \<open>One filter. The structure literal at the end of the loop sets no manifest type.\<close>

definition buildDataFilter ::
  "('expr, 'obj, 'kz, 'url) libs \<Rightarrow> (smap \<Rightarrow> string list) \<Rightarrow> kube \<Rightarrow> string \<Rightarrow>
     v1alpha1_DataFilter \<Rightarrow> ('expr, 'kz, 'url) DataFilter result" where
  "buildDataFilter L order k ns df =
     (case NewDataFilterSelector L (vdSelector df) of
        Inl err \<Rightarrow> Inl err
      | Inr sel \<Rightarrow>
     (case buildDestinations L order k ns (vdTransformer df) (vdAltDestinations df) of
        Inl err \<Rightarrow> Inl err
      | Inr destinations \<Rightarrow>
     (case getConfigMapData k ns (vtConfigMapKeyRef (vdTransformer df)) of
        Inl err \<Rightarrow> Inl (wrap ''could not get transformer config'' err)
      | Inr tConfig \<Rightarrow>
     (case NewTransformer L (vtType (vdTransformer df)) tConfig of
        Inl err \<Rightarrow> Inl (wrap ''could not initialize transformer'' err)
      | Inr t \<Rightarrow>
          Inr \<lparr>dfSelector = sel, dfTransformer = t, dfDestinations = destinations,
               dfManifestType = []\<rparr>))))"

fun updateDataFilters_loop ::
  "('expr, 'obj, 'kz, 'url) libs \<Rightarrow> (smap \<Rightarrow> string list) \<Rightarrow> kube \<Rightarrow> string \<Rightarrow>
     v1alpha1_DataFilter list \<Rightarrow> ('expr, 'kz, 'url) DataFilter list result" where
  "updateDataFilters_loop L order k ns [] = Inr []"
| "updateDataFilters_loop L order k ns (df # dfs) =
     (case buildDataFilter L order k ns df of
        Inl err \<Rightarrow> Inl err
      | Inr f \<Rightarrow>
          (case updateDataFilters_loop L order k ns dfs of
             Inl err \<Rightarrow> Inl err
           | Inr fs \<Rightarrow> Inr (f # fs)))"

definition updateDataFilters ::
  "('expr, 'obj, 'kz, 'url) libs \<Rightarrow> (smap \<Rightarrow> string list) \<Rightarrow> kube \<Rightarrow> string \<Rightarrow> DataReporterConfigSpec \<Rightarrow>
     ('expr, 'kz, 'url, 'pool, 'cert) DataFilters \<Rightarrow>
     ('expr, 'kz, 'url, 'pool, 'cert) DataFilters \<times> go_error option" where
  "updateDataFilters L order k ns spec d =
     (case updateDataFilters_loop L order k ns (spDataFilters spec) of
        Inl err \<Rightarrow> (d, Some err)
      | Inr newDataFilters \<Rightarrow> (d\<lparr>dfsDataFilters := newDataFilters\<rparr>, None))"

section \<open>TLS settings\<close>

fun addCACerts ::
  "('pool, 'cert) tls_libs \<Rightarrow> kube \<Rightarrow> string \<Rightarrow> KeySelector list \<Rightarrow> 'pool \<Rightarrow> 'pool result" where
  "addCACerts T k ns [] pool = Inr pool"
| "addCACerts T k ns (sks # rest) pool =
     (case getSecretData k ns sks of
        Inl err \<Rightarrow> Inl (wrap ''error getting cacert data'' err)
      | Inr certData \<Rightarrow>
          (case AppendCertsFromPEM T pool certData of
             None \<Rightarrow> Inl (Err ''cacert secret data could not be appended to cert pool'')
           | Some pool' \<Rightarrow> addCACerts T k ns rest pool'))"

fun clientCertificates ::
  "('pool, 'cert) tls_libs \<Rightarrow> kube \<Rightarrow> string \<Rightarrow> v1alpha1_Certificate list \<Rightarrow> 'cert list result" where
  "clientCertificates T k ns [] = Inr []"
| "clientCertificates T k ns (pair # rest) =
     (case (ctClientCert pair, ctClientKey pair) of
        (Some certRef, Some keyRef) \<Rightarrow>
          (case getSecretData k ns keyRef of
             Inl err \<Rightarrow> Inl (wrap ''error getting client key data'' err)
           | Inr keyData \<Rightarrow>
          (case getSecretData k ns certRef of
             Inl err \<Rightarrow> Inl (wrap ''error getting client cert data'' err)
           | Inr certData \<Rightarrow>
          (case X509KeyPair T certData keyData of
             Inl err \<Rightarrow> Inl (wrap ''error creating cert from client x509 key pair'' err)
           | Inr cert \<Rightarrow>
          (case clientCertificates T k ns rest of
             Inl err \<Rightarrow> Inl err
           | Inr certs \<Rightarrow> Inr (cert # certs)))))
      | _ \<Rightarrow> Inl (Err ''missing key/cert pair for tlsconfig certificates''))"

definition getTLSConfig ::
  "('pool, 'cert) tls_libs \<Rightarrow> kube \<Rightarrow> string \<Rightarrow> DataReporterConfigSpec \<Rightarrow>
     ('pool, 'cert) tls_Config option result" where
  "getTLSConfig T k ns spec =
     (case spTLSConfig spec of
        None \<Rightarrow> Inr None
      | Some tc \<Rightarrow>
          (if tcInsecureSkipVerify tc
           then Inr (Some \<lparr>tlInsecureSkipVerify = True, tlRootCAs = None, tlCertificates = [],
                           tlMinVersion = 0, tlCipherSuites = []\<rparr>)
           else
     (case SystemCertPool T of
        Inl err \<Rightarrow> Inl (wrap ''failed to get system cert pool'' err)
      | Inr pool0 \<Rightarrow>
     (case addCACerts T k ns (tcCACerts tc) pool0 of
        Inl err \<Rightarrow> Inl err
      | Inr pool \<Rightarrow>
     (case clientCertificates T k ns (tcCertificates tc) of
        Inl err \<Rightarrow> Inl err
      | Inr certs \<Rightarrow>
     (case (if length (tcMinVersion tc) \<noteq> 0 then TLSVersion T (tcMinVersion tc) else Inr 0) of
        Inl err \<Rightarrow> Inl (wrap ''failed to parse tls config minversion'' err)
      | Inr minVersion \<Rightarrow>
     (case (if length (tcCipherSuites tc) \<noteq> 0 then TLSCipherSuites T (tcCipherSuites tc) else Inr []) of
        Inl err \<Rightarrow> Inl (wrap ''failed to convert tls config cipher suite name to id'' err)
      | Inr cipherSuites \<Rightarrow>
          Inr (Some \<lparr>tlInsecureSkipVerify = False, tlRootCAs = Some pool, tlCertificates = certs,
                     tlMinVersion = minVersion, tlCipherSuites = cipherSuites\<rparr>))))))))"

definition updateHttpClient ::
  "('pool, 'cert) tls_libs \<Rightarrow> kube \<Rightarrow> string \<Rightarrow> DataReporterConfigSpec \<Rightarrow>
     ('expr, 'kz, 'url, 'pool, 'cert) DataFilters \<Rightarrow>
     ('expr, 'kz, 'url, 'pool, 'cert) DataFilters \<times> go_error option" where
  "updateHttpClient T k ns spec d =
     (case dfsTransport d of
        RetryableTransport old \<Rightarrow>
          (case getTLSConfig T k ns spec of
             Inl err \<Rightarrow> (d, Some (wrap ''error creating tls config'' err))
           | Inr tlsConfig \<Rightarrow> (d\<lparr>dfsTransport := RetryableTransport tlsConfig\<rparr>, None))
      | RetryableOther \<Rightarrow> (d, Some (Err ''httpclient transport is not of type http.Transport''))
      | OtherTransport \<Rightarrow> (d, None))"

definition Build ::
  "('expr, 'obj, 'kz, 'url) libs \<Rightarrow> ('pool, 'cert) tls_libs \<Rightarrow> (smap \<Rightarrow> string list) \<Rightarrow> kube \<Rightarrow> string \<Rightarrow>
     DataReporterConfigSpec \<Rightarrow> ('expr, 'kz, 'url, 'pool, 'cert) DataFilters \<Rightarrow>
     ('expr, 'kz, 'url, 'pool, 'cert) DataFilters \<times> go_error option" where
  "Build L T order k ns spec d =
     (if \<not> dfsHasClient d then (d, Some (Err ''dataFilters k8sclient is nil''))
      else
        (let d1 = (case spConfirmDelivery spec of
                     None \<Rightarrow> d
                   | Some b \<Rightarrow> d\<lparr>dfsConfirmDelivery := Some b\<rparr>)
         in case updateHttpClient T k ns spec d1 of
              (d2, Some err) \<Rightarrow> (d2, Some (wrap ''failed to update http client'' err))
            | (d2, None) \<Rightarrow>
                (case updateDataFilters L order k ns spec d2 of
                   (d3, Some err) \<Rightarrow> (d3, Some (wrap ''failed to update datafilters'' err))
                 | (d3, None) \<Rightarrow> (d3, None))))"

section \<open>Filtering an event\<close>

text \<open>
  What one call does: the status codes it returns, the events it reports directly and puts
  on the engine's channel, and the filters with the tokens their destinations now hold.
\<close>

record ('expr, 'kz, 'url) filter_outcome =
  foStatusCodes :: "int list"
  foReported :: "Event list"
  foEnqueued :: "Event list"
  foDataFilters :: "('expr, 'kz, 'url) DataFilter list"

text \<open>
  Delivery to the data service: \<open>reportOne\<close> is \<open>ProcessorSender.ReportOne\<close>. The
  flag says whether the caller goes on.
\<close>

definition deliver ::
  "(Event \<Rightarrow> go_error option) \<Rightarrow> bool \<Rightarrow> Event \<Rightarrow> bool \<times> int list \<times> Event list \<times> Event list" where
  "deliver reportOne confirm event =
     (if confirm then
        (case reportOne event of
           Some err \<Rightarrow> (False, [StatusBadGateway], [event], [])
         | None \<Rightarrow> (True, [], [event], []))
      else (True, [StatusOK], [], [event]))"

text \<open>
  The event for the data service: the filter's manifest type, and the transformed payload
  unless the transformation fails.
\<close>

definition dsEvent_of ::
  "('expr, 'obj, 'kz, 'url) libs \<Rightarrow> ('expr, 'kz, 'url) DataFilter \<Rightarrow> Event \<Rightarrow> Event" where
  "dsEvent_of L df event0 =
     (let event = event0\<lparr>evManifestType :=
            (if length (dfManifestType df) = 0 then defaultManifestType else dfManifestType df)\<rparr>
      in case Transform L (dfTransformer df) (evRawMessage event) of
           Inl err \<Rightarrow> event
         | Inr transformedJson \<Rightarrow> event\<lparr>evRawMessage := transformedJson\<rparr>)"

text \<open>
  The destinations of the matched filter are uploaded to by one goroutine each and their
  codes come back in the order the goroutines finish; \<open>arrive\<close> is that reordering.
  Every goroutine's exchange with its destination is a history of its own.
\<close>

definition matchedFilter ::
  "('expr, 'obj, 'kz, 'url) libs \<Rightarrow> http_server \<Rightarrow> (int list \<Rightarrow> int list) \<Rightarrow>
     (Event \<Rightarrow> go_error option) \<Rightarrow> bool \<Rightarrow> ('expr, 'kz, 'url) DataFilter \<Rightarrow> Event \<Rightarrow>
     ('expr, 'kz, 'url) DataFilter \<times> int list \<times> Event list \<times> Event list" where
  "matchedFilter L srv arrive reportOne confirm df event =
     (case deliver reportOne confirm (dsEvent_of L df event) of
        (False, codes, reported, enqueued) \<Rightarrow> (df, codes, reported, enqueued)
      | (True, codes, reported, enqueued) \<Rightarrow>
          (let runs = map (\<lambda>u. TransformAndUpload L srv u (evRawMessage event) []) (dfDestinations df)
           in (df\<lparr>dfDestinations := map (\<lambda>(tr, u, c, err). u) runs\<rparr>,
               codes @ arrive (map (\<lambda>(tr, u, c, err). c) runs), reported, enqueued)))"

fun FilterAndUpload_loop ::
  "('expr, 'obj, 'kz, 'url) libs \<Rightarrow> http_server \<Rightarrow> (int list \<Rightarrow> int list) \<Rightarrow>
     (Event \<Rightarrow> go_error option) \<Rightarrow> bool \<Rightarrow> Event \<Rightarrow> ('expr, 'kz, 'url) DataFilter list \<Rightarrow>
     ('expr, 'kz, 'url) filter_outcome" where
  "FilterAndUpload_loop L srv arrive reportOne confirm event [] =
     (case deliver reportOne confirm (event\<lparr>evManifestType := defaultManifestType\<rparr>) of
        (ok, codes, reported, enqueued) \<Rightarrow>
          \<lparr>foStatusCodes = codes, foReported = reported, foEnqueued = enqueued, foDataFilters = []\<rparr>)"
| "FilterAndUpload_loop L srv arrive reportOne confirm event (df # dfs) =
     (if DataFilterSelector_Matches L (dfSelector df) event then
        (case matchedFilter L srv arrive reportOne confirm df event of
           (df', codes, reported, enqueued) \<Rightarrow>
             \<lparr>foStatusCodes = codes, foReported = reported, foEnqueued = enqueued,
              foDataFilters = df' # dfs\<rparr>)
      else
        (let r = FilterAndUpload_loop L srv arrive reportOne confirm event dfs
         in r\<lparr>foDataFilters := df # foDataFilters r\<rparr>))"

definition FilterAndUpload ::
  "('expr, 'obj, 'kz, 'url) libs \<Rightarrow> http_server \<Rightarrow> (int list \<Rightarrow> int list) \<Rightarrow>
     (Event \<Rightarrow> go_error option) \<Rightarrow> ('expr, 'kz, 'url, 'pool, 'cert) DataFilters \<Rightarrow> Event \<Rightarrow>
     ('expr, 'kz, 'url) filter_outcome" where
  "FilterAndUpload L srv arrive reportOne d event =
     FilterAndUpload_loop L srv arrive reportOne (ToBool (dfsConfirmDelivery d)) event (dfsDataFilters d)"

text \<open>What the first matching filter makes of an event for the data service.\<close>

definition first_match ::
  "('expr, 'obj, 'kz, 'url) libs \<Rightarrow> ('expr, 'kz, 'url) DataFilter list \<Rightarrow> Event \<Rightarrow>
     ('expr, 'kz, 'url) DataFilter option" where
  "first_match L dfs event = find (\<lambda>df. DataFilterSelector_Matches L (dfSelector df) event) dfs"

definition service_event ::
  "('expr, 'obj, 'kz, 'url) libs \<Rightarrow> ('expr, 'kz, 'url) DataFilter list \<Rightarrow> Event \<Rightarrow> Event" where
  "service_event L dfs event =
     (case first_match L dfs event of
        None \<Rightarrow> event\<lparr>evManifestType := defaultManifestType\<rparr>
      | Some df \<Rightarrow> dsEvent_of L df event)"

definition dest_delivered ::
  "('expr, 'obj, 'kz, 'url) libs \<Rightarrow> http_server \<Rightarrow> bytes \<Rightarrow> ('expr, 'kz, 'url) Uploader \<Rightarrow> bool" where
  "dest_delivered L srv body u = (snd (snd (snd (TransformAndUpload L srv u body []))) = None)"

definition demo_spec :: "v1alpha1_DataFilter list \<Rightarrow> DataReporterConfigSpec" where
  "demo_spec dfs = \<lparr>spUserConfigs = [], spDataFilters = dfs, spTLSConfig = None, spConfirmDelivery = None,
     spRoute = None\<rparr>"

definition demo_filter :: v1alpha1_DataFilter where
  "demo_filter = \<lparr>vdSelector = \<lparr>MatchExpressions = [], MatchUsers = []\<rparr>, vdManifestType = ''custom'',
     vdTransformer = \<lparr>vtType = ''kazaam'', vtConfigMapKeyRef = Some \<lparr>ksName = ''cm'', ksKey = ''k''\<rparr>\<rparr>,
     vdAltDestinations = []\<rparr>"

definition demo_kube :: kube where
  "demo_kube = \<lparr>kSecret = (\<lambda>_ _. Inl (Err ''not found'')), kConfigMap = (\<lambda>_ _. Inr [''k'' \<mapsto> ''t''])\<rparr>"

definition demo_tls :: "(unit, unit) tls_libs" where
  "demo_tls = \<lparr>SystemCertPool = Inr (), AppendCertsFromPEM = (\<lambda>_ _. Some ()), X509KeyPair = (\<lambda>_ _. Inr ()),
     TLSVersion = (\<lambda>_. Inr 0), TLSCipherSuites = (\<lambda>_. Inr [])\<rparr>"

definition demo_filters :: "(string, unit, string, unit, unit) DataFilters" where
  "demo_filters = \<lparr>dfsTransport = OtherTransport, dfsDataFilters = [], dfsConfirmDelivery = None,
     dfsHasClient = True\<rparr>"

section \<open>Lemmas\<close>

named_theorems build_defs "the definitions a build of the data filters unfolds"

lemmas build_unfolds [build_defs] =
  Build_def updateHttpClient_def updateDataFilters_def Let_def

lemma NewTransformer_type: "NewTransformer L ty tx = Inr t \<Longrightarrow> transformerType t = ty"
  by (auto simp: NewTransformer_def split: if_splits sum.splits)

lemma NewUploader_transformer: "NewUploader L o1 o2 c t = Inr u \<Longrightarrow> upTransformer u = t"
  by (auto simp: NewUploader_def split: sum.splits)

lemma buildDestination_ok:
  "buildDestination L order k ns ty dest = Inr u \<Longrightarrow>
     vtConfigMapKeyRef (deTransformer dest) \<noteq> None \<and> transformerType (upTransformer u) = vtType ty"
  by (auto simp: buildDestination_def getConfigMapData_def dest!: NewUploader_transformer NewTransformer_type
      split: sum.splits option.splits)

lemma buildDestinations_ok:
  "buildDestinations L order k ns ty dests = Inr us \<Longrightarrow>
     list_all2 (\<lambda>dest u. vtConfigMapKeyRef (deTransformer dest) \<noteq> None \<and>
       transformerType (upTransformer u) = vtType ty) dests us"
  by (induction dests arbitrary: us) (auto dest: buildDestination_ok split: sum.splits)

lemma buildDataFilter_ok:
  "buildDataFilter L order k ns df = Inr f \<Longrightarrow>
     dfManifestType f = [] \<and> vtConfigMapKeyRef (vdTransformer df) \<noteq> None \<and>
     NewDataFilterSelector L (vdSelector df) = Inr (dfSelector f) \<and>
     list_all2 (\<lambda>dest u. vtConfigMapKeyRef (deTransformer dest) \<noteq> None \<and>
       transformerType (upTransformer u) = vtType (vdTransformer df))
       (vdAltDestinations df) (dfDestinations f)"
  by (auto simp: buildDataFilter_def getConfigMapData_def dest: buildDestinations_ok
      split: sum.splits option.splits)

lemma updateDataFilters_loop_ok:
  "updateDataFilters_loop L order k ns dfs = Inr fs \<Longrightarrow>
     list_all2 (\<lambda>df f. buildDataFilter L order k ns df = Inr f) dfs fs"
  by (induction dfs arbitrary: fs) (auto split: sum.splits)

lemma Build_ok:
  assumes "Build L T order k ns spec d = (d', None)"
  shows "updateDataFilters_loop L order k ns (spDataFilters spec) = Inr (dfsDataFilters d')"
  using assms by (auto simp: build_defs split: prod.splits option.splits sum.splits if_splits transport.splits)

lemma deliver_events:
  "deliver reportOne confirm e = (ok, codes, reported, enqueued) \<Longrightarrow>
     (if confirm then reported = [e] \<and> enqueued = [] else reported = [] \<and> enqueued = [e])"
  by (auto simp: deliver_def split: if_splits option.splits)

lemma deliver_codes:
  "deliver reportOne confirm e = (ok, codes, reported, enqueued) \<Longrightarrow>
     ok = (confirm \<longrightarrow> reportOne e = None) \<and> list_all is_2xx codes = ok"
  by (auto simp: deliver_def status_code_defs split: if_splits option.splits)

lemma service_event_Cons:
  "service_event L (df # dfs) event =
     (if DataFilterSelector_Matches L (dfSelector df) event then dsEvent_of L df event
      else service_event L dfs event)"
  by (simp add: service_event_def first_match_def)

lemma FilterAndUpload_loop_events:
  "if confirm
   then foReported (FilterAndUpload_loop L srv arrive reportOne confirm event dfs) = [service_event L dfs event] \<and>
        foEnqueued (FilterAndUpload_loop L srv arrive reportOne confirm event dfs) = []
   else foReported (FilterAndUpload_loop L srv arrive reportOne confirm event dfs) = [] \<and>
        foEnqueued (FilterAndUpload_loop L srv arrive reportOne confirm event dfs) = [service_event L dfs event]"
proof (induction dfs)
  case Nil
  then show ?case
    by (auto simp: service_event_def first_match_def deliver_def split: option.split)
next
  case (Cons df dfs)
  then show ?case
    by (auto simp: service_event_Cons matchedFilter_def deliver_def Let_def split: option.split)
qed

lemma TransformAndUpload_code:
  "TransformAndUpload L srv u body tr = (tr', u', c, err) \<Longrightarrow> err = None \<longleftrightarrow> is_2xx c"
  by (auto simp: TransformAndUpload_def Let_def upload_code)

lemma list_all_mset: "mset xs = mset ys \<Longrightarrow> list_all P xs = list_all P ys"
  by (metis list_all_iff mset_eq_setD)

lemma dest_codes:
  assumes "\<And>xs. mset (arrive xs) = mset xs"
  shows "list_all is_2xx (arrive (map (\<lambda>(tr, u, c, err). c)
           (map (\<lambda>u. TransformAndUpload L srv u body []) us))) =
         list_all (dest_delivered L srv body) us"
proof -
  have "is_2xx ((\<lambda>(tr, u, c, err). c) (TransformAndUpload L srv u body [])) = dest_delivered L srv body u" for u
    by (auto simp: dest_delivered_def split: prod.split dest: TransformAndUpload_code)
  then show ?thesis
    by (subst list_all_mset [OF assms]) (simp add: list_all_iff comp_def)
qed

lemma FilterAndUpload_loop_codes:
  assumes "\<And>xs. mset (arrive xs) = mset xs"
  shows "list_all is_2xx (foStatusCodes (FilterAndUpload_loop L srv arrive reportOne confirm event dfs)) \<longleftrightarrow>
     (confirm \<longrightarrow> reportOne (service_event L dfs event) = None) \<and>
     (case first_match L dfs event of None \<Rightarrow> True
      | Some df \<Rightarrow> list_all (dest_delivered L srv (evRawMessage event)) (dfDestinations df))"
proof (induction dfs)
  case Nil
  show ?case
    by (auto simp: service_event_def first_match_def deliver_def split: option.split)
next
  case (Cons df dfs)
  show ?case
  proof (cases "DataFilterSelector_Matches L (dfSelector df) event")
    case True
    then show ?thesis
      using dest_codes [OF assms, of L srv "evRawMessage event" "dfDestinations df"]
      by (auto simp: service_event_Cons first_match_def matchedFilter_def deliver_def Let_def
          split: option.split)
  next
    case False
    then show ?thesis
      using Cons.IH by (simp add: service_event_Cons first_match_def Let_def)
  qed
qed

section \<open>Properties\<close>

text \<open>
  C8: every event handed to the filters goes to the data service exactly once: reported
  directly when delivery is confirmed and put on the engine's channel otherwise, with the
  payload and manifest type that the first matching filter gives it, or as it is with the
  default manifest type when no filter matches.
\<close>

theorem FilterAndUpload_exactly_once:
  "(if ToBool (dfsConfirmDelivery d)
    then foReported (FilterAndUpload L srv arrive reportOne d event) = [service_event L (dfsDataFilters d) event] \<and>
         foEnqueued (FilterAndUpload L srv arrive reportOne d event) = []
    else foReported (FilterAndUpload L srv arrive reportOne d event) = [] \<and>
         foEnqueued (FilterAndUpload L srv arrive reportOne d event) = [service_event L (dfsDataFilters d) event])"
  unfolding FilterAndUpload_def by (rule FilterAndUpload_loop_events)

text \<open>
  Whatever order the uploads finish in, the status codes are all in the 200 range
  exactly when the data service took the event (if delivery is confirmed) and every
  destination of the first matching filter took it too.
\<close>

theorem FilterAndUpload_codes_iff:
  assumes "\<And>xs. mset (arrive xs) = mset xs"
  shows "list_all is_2xx (foStatusCodes (FilterAndUpload L srv arrive reportOne d event)) \<longleftrightarrow>
     (ToBool (dfsConfirmDelivery d) \<longrightarrow> reportOne (service_event L (dfsDataFilters d) event) = None) \<and>
     (case first_match L (dfsDataFilters d) event of None \<Rightarrow> True
      | Some df \<Rightarrow> list_all (dest_delivered L srv (evRawMessage event)) (dfDestinations df))"
  unfolding FilterAndUpload_def using assms by (rule FilterAndUpload_loop_codes)

theorem FilterAndUpload_codes_iff_witness:
  "list_all is_2xx (foStatusCodes (FilterAndUpload demo_libs demo_server rev (\<lambda>_. None) demo_filters
     \<lparr>evUser = ''u'', evRawMessage = ''x'', evManifestType = ''''\<rparr>))"
  by (subst FilterAndUpload_codes_iff) (simp_all add: demo_filters_def first_match_def)

text \<open>
  A build that fails leaves the filters in force as they were, and one whose TLS
  settings cannot be made leaves the transport's TLS settings as they were.
\<close>

theorem Build_failure_keeps_filters:
  assumes "Build L T order k ns spec d = (d', Some err)"
  shows "dfsDataFilters d' = dfsDataFilters d \<and>
     (is_err (getTLSConfig T k ns spec) \<longrightarrow> dfsTransport d' = dfsTransport d)"
  using assms
  by (auto simp: build_defs split: prod.splits option.splits sum.splits if_splits transport.splits)

theorem Build_failure_keeps_filters_witness:
  "\<exists>d'. Build demo_libs demo_tls (\<lambda>_. []) demo_kube ''ns'' (demo_spec [demo_filter])
       (demo_filters\<lparr>dfsHasClient := False\<rparr>) = (d', Some (Err ''dataFilters k8sclient is nil'')) \<and>
     dfsDataFilters d' = []"
proof -
  let ?d = "demo_filters\<lparr>dfsHasClient := False\<rparr>"
  have b: "Build demo_libs demo_tls (\<lambda>_. []) demo_kube ''ns'' (demo_spec [demo_filter]) ?d =
      (?d, Some (Err ''dataFilters k8sclient is nil''))"
    by (simp add: Build_def)
  from Build_failure_keeps_filters [OF b] b show ?thesis by (auto simp: demo_filters_def)
qed

text \<open>
  After any successful build every event is handed over with the default manifest type,
  whatever manifest types the filters of the resource configure: the build never copies
  the configured one.
\<close>

theorem Build_drops_manifest_type:
  assumes "Build L T order k ns spec d = (d', None)"
  shows "list_all (\<lambda>e. evManifestType e = ''dataReporter'')
     (foReported (FilterAndUpload L srv arrive reportOne d' event) @
      foEnqueued (FilterAndUpload L srv arrive reportOne d' event))"
proof -
  have "list_all (\<lambda>f. dfManifestType f = []) (dfsDataFilters d')"
    using updateDataFilters_loop_ok [OF Build_ok [OF assms]]
    by (induction rule: list_all2_induct) (auto dest: buildDataFilter_ok)
  then have "evManifestType (service_event L (dfsDataFilters d') event) = ''dataReporter''"
    by (auto simp: service_event_def first_match_def list_all_iff defaultManifestType_def
        dsEvent_of_def Let_def dest: find_Some_in_set split: option.split sum.split)
  then show ?thesis
    using FilterAndUpload_loop_events [of "ToBool (dfsConfirmDelivery d')" L srv arrive reportOne event "dfsDataFilters d'"]
    by (simp add: FilterAndUpload_def split: if_splits)
qed

theorem Build_drops_manifest_type_witness:
  "\<exists>d'. Build demo_libs demo_tls (\<lambda>_. []) demo_kube ''ns'' (demo_spec [demo_filter]) demo_filters = (d', None) \<and>
     vdManifestType demo_filter = ''custom'' \<and>
     list_all (\<lambda>e. evManifestType e = ''dataReporter'')
       (foReported (FilterAndUpload demo_libs demo_server id (\<lambda>_. None) d' \<lparr>evUser = ''u'', evRawMessage = ''x'', evManifestType = ''''\<rparr>) @
        foEnqueued (FilterAndUpload demo_libs demo_server id (\<lambda>_. None) d' \<lparr>evUser = ''u'', evRawMessage = ''x'', evManifestType = ''''\<rparr>))"
proof -
  obtain d' where b: "Build demo_libs demo_tls (\<lambda>_. []) demo_kube ''ns'' (demo_spec [demo_filter]) demo_filters = (d', None)"
    by (simp add: build_defs demo_filters_def demo_spec_def demo_filter_def buildDataFilter_def
        NewDataFilterSelector_def NewJsonPathsSelector_def getConfigMapData_def demo_kube_def
        NewTransformer_def demo_libs_def)
  from Build_drops_manifest_type [OF b] b show ?thesis by (auto simp: demo_filter_def)
qed

text \<open>
  After a successful build every destination's transformer has the type of its filter's
  transformer, whatever type the destination configures, and every filter and destination
  had a reference to a transformer configuration: a filter without one makes the build
  panic even though the resource declares the transformer optional.
\<close>

theorem Build_transformers:
  assumes "Build L T order k ns spec d = (d', None)"
  shows "list_all2 (\<lambda>df f. vtConfigMapKeyRef (vdTransformer df) \<noteq> None \<and>
       list_all2 (\<lambda>dest u. vtConfigMapKeyRef (deTransformer dest) \<noteq> None \<and>
           transformerType (upTransformer u) = vtType (vdTransformer df))
         (vdAltDestinations df) (dfDestinations f))
     (spDataFilters spec) (dfsDataFilters d')"
  using updateDataFilters_loop_ok [OF Build_ok [OF assms]]
  by (rule list_all2_mono) (blast dest: buildDataFilter_ok)

theorem Build_transformers_witness:
  "\<exists>d'. Build demo_libs demo_tls (\<lambda>_. []) demo_kube ''ns'' (demo_spec [demo_filter]) demo_filters = (d', None) \<and>
     length (dfsDataFilters d') = 1 \<and>
     snd (Build demo_libs demo_tls (\<lambda>_. []) demo_kube ''ns''
       (demo_spec [demo_filter\<lparr>vdTransformer := \<lparr>vtType = [], vtConfigMapKeyRef = None\<rparr>\<rparr>]) demo_filters)
       = Some (Panic ''nil ConfigMapKeyRef'')"
proof -
  obtain d' where b: "Build demo_libs demo_tls (\<lambda>_. []) demo_kube ''ns'' (demo_spec [demo_filter]) demo_filters = (d', None)"
    by (simp add: build_defs demo_filters_def demo_spec_def demo_filter_def buildDataFilter_def
        NewDataFilterSelector_def NewJsonPathsSelector_def getConfigMapData_def demo_kube_def
        NewTransformer_def demo_libs_def)
  have "length (dfsDataFilters d') = 1"
    using Build_transformers [OF b] by (auto simp: demo_spec_def dest: list_all2_lengthD)
  with b show ?thesis
    by (simp add: build_defs demo_filters_def demo_spec_def demo_filter_def buildDataFilter_def
        NewDataFilterSelector_def NewJsonPathsSelector_def getConfigMapData_def demo_libs_def)
qed

end
