(* ===== verification/EventReporting.thy ===== *)
theory EventReporting
  imports EventTypes
begin

text \<open>
  Building and uploading one report (\<open>datareporter/v2/pkg/events/event_reporter.go\<close>).
  The operating system, the JSON encoder, the archiver and the data service client are
  arguments of the model (\<open>report_env\<close>): a temporary directory, the result of every
  call that can fail, and the archive as a function of the files under its source
  directory. The files written are explicit, so that a theorem can say what is uploaded.
\<close>

section \<open>The environment of a report\<close>

type_synonym file_tree = "(string \<times> bytes) list"

record report_env =
  MkdirTemp :: "string \<Rightarrow> string \<Rightarrow> string result"
  Mkdir :: "string \<Rightarrow> go_error option"
  IsExist :: "go_error \<Rightarrow> bool"
  MarshalManifest :: "Manifest \<Rightarrow> bytes result"
  MarshalReportData :: "ReportData \<Rightarrow> bytes result"
  uuid_New :: string
  WriteFile :: "string \<Rightarrow> bytes \<Rightarrow> go_error option"
  TarGzip :: "string \<Rightarrow> string \<Rightarrow> file_tree \<Rightarrow> bytes result"
  OpenFile :: "string \<Rightarrow> go_error option"
  GRPCCallOptions :: "string \<Rightarrow> go_error option"
  UploadFile :: "string \<Rightarrow> bytes \<Rightarrow> string result"

text \<open>\<open>filepath.Join\<close> of two non-empty clean parts.\<close>

definition path_join :: "string \<Rightarrow> string \<Rightarrow> string" where
  "path_join a b = a @ ''/'' @ b"

section \<open>Writing and uploading\<close>

text \<open>
  What follows the creation of the directory for the JSON files: the manifest, the event
  data, the archive over both. Only these two files lie under the archive's source
  directory, which was created inside a fresh temporary directory. The result is the
  archive's path and content.
\<close>

definition writeReport_files ::
  "report_env \<Rightarrow> string \<Rightarrow> string \<Rightarrow> Metadata \<Rightarrow> string \<Rightarrow> EventJsons \<Rightarrow> (string \<times> bytes) result" where
  "writeReport_files env dir filesDir metadata manifestType eventJsons =
     (case MarshalManifest env \<lparr>mfType = manifestType, mfVersion = ''1''\<rparr> of
        Inl err \<Rightarrow> Inl err
      | Inr manifestBytes \<Rightarrow>
          (let manifestFilePath = path_join filesDir ''manifest.json'' in
           case WriteFile env manifestFilePath manifestBytes of
             Some err \<Rightarrow> Inl err
           | None \<Rightarrow>
               (case MarshalReportData env \<lparr>rdMetadata = metadata, rdEventJsons = eventJsons\<rparr> of
                  Inl err \<Rightarrow> Inl err
                | Inr eventsBytes \<Rightarrow>
                    (let fileid = uuid_New env;
                         eventsFilePath = path_join filesDir (fileid @ ''.json'') in
                     case WriteFile env eventsFilePath eventsBytes of
                       Some err \<Rightarrow> Inl err
                     | None \<Rightarrow>
                         (let archiveFilePath =
                                path_join dir (''data-reporter-'' @ fileid @ ''.tar.gz'') in
                          case TarGzip env filesDir archiveFilePath
                                 [(manifestFilePath, manifestBytes), (eventsFilePath, eventsBytes)] of
                            Inl err \<Rightarrow> Inl err
                          | Inr archive \<Rightarrow> Inr (archiveFilePath, archive))))))"

definition writeReport ::
  "report_env \<Rightarrow> string \<Rightarrow> Metadata \<Rightarrow> string \<Rightarrow> EventJsons \<Rightarrow> (string \<times> bytes) result" where
  "writeReport env dir metadata manifestType eventJsons =
     (let filesDir = path_join dir ''archive'' in
      case Mkdir env filesDir of
        Some err \<Rightarrow>
          (if \<not> IsExist env err then Inl err
           else writeReport_files env dir filesDir metadata manifestType eventJsons)
      | None \<Rightarrow> writeReport_files env dir filesDir metadata manifestType eventJsons)"

text \<open>The result of an upload is the id the data service gave the file.\<close>

definition uploadReport :: "report_env \<Rightarrow> string \<Rightarrow> string \<Rightarrow> bytes \<Rightarrow> string result" where
  "uploadReport env tokenFile archiveFilePath archive =
     (case OpenFile env archiveFilePath of
        Some err \<Rightarrow> Inl err
      | None \<Rightarrow>
          (case GRPCCallOptions env tokenFile of
             Some err \<Rightarrow> Inl err
           | None \<Rightarrow> UploadFile env archiveFilePath archive))"

text \<open>
  \<open>Report\<close>: the error it returns, if any, and the files it uploaded. The deferred
  removal of the temporary directory has no further effect on the outcome.
\<close>

definition Report ::
  "report_env \<Rightarrow> string \<Rightarrow> string \<Rightarrow> Metadata \<Rightarrow> string \<Rightarrow> EventJsons \<Rightarrow>
     go_error option \<times> (string \<times> bytes) list" where
  "Report env outputDir tokenFile metadata manifestType eventJsons =
     (case MkdirTemp env outputDir ''datareporter-'' of
        Inl err \<Rightarrow> (Some err, [])
      | Inr dir \<Rightarrow>
          (case writeReport env dir metadata manifestType eventJsons of
             Inl err \<Rightarrow> (Some err, [])
           | Inr (archiveFilePath, archive) \<Rightarrow>
               (case uploadReport env tokenFile archiveFilePath archive of
                  Inl err \<Rightarrow> (Some err, [])
                | Inr fileId \<Rightarrow> (None, [(archiveFilePath, archive)]))))"

text \<open>An environment in which every call succeeds and the archive lists its members.\<close>

definition demo_env :: report_env where
  "demo_env = \<lparr>
     MkdirTemp = (\<lambda>d p. Inr (d @ p @ ''1'')),
     Mkdir = (\<lambda>_. None), IsExist = (\<lambda>_. False),
     MarshalManifest = (\<lambda>m. Inr (mfType m @ mfVersion m)),
     MarshalReportData = (\<lambda>r. Inr (concat (rdEventJsons r))),
     uuid_New = ''u'',
     WriteFile = (\<lambda>_ _. None),
     TarGzip = (\<lambda>_ _ fs. Inr (concat (map snd fs))),
     OpenFile = (\<lambda>_. None), GRPCCallOptions = (\<lambda>_. None),
     UploadFile = (\<lambda>_ _. Inr ''1'')\<rparr>"

section \<open>Properties\<close>

lemma writeReport_files_ok:
  assumes "writeReport_files env dir filesDir metadata manifestType eventJsons = Inr (path, archive)"
  shows "\<exists>mb eb.
     MarshalManifest env \<lparr>mfType = manifestType, mfVersion = ''1''\<rparr> = Inr mb \<and>
     MarshalReportData env \<lparr>rdMetadata = metadata, rdEventJsons = eventJsons\<rparr> = Inr eb \<and>
     TarGzip env filesDir path
       [(path_join filesDir ''manifest.json'', mb),
        (path_join filesDir (uuid_New env @ ''.json''), eb)] = Inr archive"
  using assms
  by (auto simp: writeReport_files_def Let_def split: sum.splits option.splits)

lemma writeReport_ok:
  assumes "writeReport env dir metadata manifestType eventJsons = Inr r"
  shows "writeReport_files env dir (path_join dir ''archive'') metadata manifestType eventJsons = Inr r"
  using assms by (auto simp: writeReport_def Let_def split: option.splits if_splits)

lemma Report_outcome:
  "Report env out tok md mt js = (None, ups) \<Longrightarrow>
     \<exists>dir path archive. writeReport env dir md mt js = Inr (path, archive) \<and> ups = [(path, archive)]"
  by (auto simp: Report_def split: sum.splits prod.splits)

text \<open>
  A report that succeeds has uploaded exactly one archive, made of exactly two files:
  the manifest with the given manifest type and version 1, and the encoding of the given
  metadata together with all the given events.
\<close>

theorem Report_uploads_all_events:
  assumes "Report env out tok md mt js = (None, ups)"
  shows "\<exists>filesDir path archive mb eb.
     ups = [(path, archive)] \<and>
     MarshalManifest env \<lparr>mfType = mt, mfVersion = ''1''\<rparr> = Inr mb \<and>
     MarshalReportData env \<lparr>rdMetadata = md, rdEventJsons = js\<rparr> = Inr eb \<and>
     TarGzip env filesDir path
       [(path_join filesDir ''manifest.json'', mb),
        (path_join filesDir (uuid_New env @ ''.json''), eb)] = Inr archive"
proof -
  from Report_outcome [OF assms] obtain dir path archive where
    w: "writeReport env dir md mt js = Inr (path, archive)" and ups: "ups = [(path, archive)]"
    by blast
  from writeReport_files_ok [OF writeReport_ok [OF w]] ups show ?thesis by blast
qed

theorem Report_uploads_all_events_witness:
  "\<exists>filesDir path archive mb eb.
     snd (Report demo_env ''t'' '''' Map.empty ''dataReporter'' [''a'', ''b'']) = [(path, archive)] \<and>
     MarshalManifest demo_env \<lparr>mfType = ''dataReporter'', mfVersion = ''1''\<rparr> = Inr mb \<and>
     MarshalReportData demo_env \<lparr>rdMetadata = Map.empty, rdEventJsons = [''a'', ''b'']\<rparr> = Inr eb \<and>
     TarGzip demo_env filesDir path
       [(path_join filesDir ''manifest.json'', mb),
        (path_join filesDir (uuid_New demo_env @ ''.json''), eb)] = Inr archive"
proof (rule Report_uploads_all_events [where out = "''t''" and tok = "''''"])
  show "Report demo_env ''t'' '''' Map.empty ''dataReporter'' [''a'', ''b''] =
      (None, snd (Report demo_env ''t'' '''' Map.empty ''dataReporter'' [''a'', ''b'']))"
    by (simp add: demo_env_def Report_def writeReport_def writeReport_files_def uploadReport_def
        Let_def path_join_def)
qed

end
