(* ===== verification/Conditions.thy ===== *)
theory Conditions
  imports Prelude
begin

text \<open>
  The status conditions every custom resource of the operators carries
  (\<open>v2/pkg/utils/status/status.go\<close>): a slice used as a set keyed by condition type.
  The operations are translated as they scan the slice; the theorems say that they keep
  the types distinct, that the slice then behaves as a map from types to conditions, how
  the change flag and the transition time come out, and that the order in which the
  conditions are marshalled does not depend on the order of the slice.
\<close>

section \<open>Data\<close>

text \<open>\<open>corev1.ConditionStatus\<close> is a string type with three named values.\<close>

definition ConditionTrue :: string where "ConditionTrue = ''True''"
definition ConditionFalse :: string where "ConditionFalse = ''False''"
definition ConditionUnknown :: string where "ConditionUnknown = ''Unknown''"

record Condition =
  cType :: string
  cStatus :: string
  cReason :: string
  cMessage :: string
  cLastTransitionTime :: go_time

type_synonym Conditions = "Condition list"

section \<open>Operations\<close>

definition IsTrue :: "Condition \<Rightarrow> bool" where
  "IsTrue c \<longleftrightarrow> cStatus c = ConditionTrue"

definition IsFalse :: "Condition \<Rightarrow> bool" where
  "IsFalse c \<longleftrightarrow> cStatus c = ConditionFalse"

definition IsUnknown :: "Condition \<Rightarrow> bool" where
  "IsUnknown c \<longleftrightarrow> cStatus c = ConditionUnknown"

fun IsTrueFor :: "Conditions \<Rightarrow> string \<Rightarrow> bool" where
  "IsTrueFor [] t = False"
| "IsTrueFor (c # cs) t = (if cType c = t then IsTrue c else IsTrueFor cs t)"

fun IsFalseFor :: "Conditions \<Rightarrow> string \<Rightarrow> bool" where
  "IsFalseFor [] t = False"
| "IsFalseFor (c # cs) t = (if cType c = t then IsFalse c else IsFalseFor cs t)"

fun IsUnknownFor :: "Conditions \<Rightarrow> string \<Rightarrow> bool" where
  "IsUnknownFor [] t = True"
| "IsUnknownFor (c # cs) t = (if cType c = t then IsUnknown c else IsUnknownFor cs t)"

text \<open>The loop of \<open>SetCondition\<close>: the new condition already carries the current time.\<close>

fun SetCondition_loop :: "Condition \<Rightarrow> Conditions \<Rightarrow> Conditions \<times> bool" where
  "SetCondition_loop nc [] = ([nc], True)"
| "SetCondition_loop nc (c # cs) =
     (if cType c = cType nc then
        (let nc' = (if cStatus c = cStatus nc
                    then nc\<lparr>cLastTransitionTime := cLastTransitionTime c\<rparr> else nc);
             changed = (cStatus c \<noteq> cStatus nc' \<or> cReason c \<noteq> cReason nc' \<or>
                        cMessage c \<noteq> cMessage nc')
         in (nc' # cs, changed))
      else (let (cs', changed) = SetCondition_loop nc cs in (c # cs', changed)))"

definition SetCondition :: "go_time \<Rightarrow> Condition \<Rightarrow> Conditions \<Rightarrow> Conditions \<times> bool" where
  "SetCondition now newCond conds =
     SetCondition_loop (newCond\<lparr>cLastTransitionTime := now\<rparr>) conds"

fun NewConditions_loop :: "go_time \<Rightarrow> Conditions \<Rightarrow> Condition list \<Rightarrow> Conditions" where
  "NewConditions_loop now conds [] = conds"
| "NewConditions_loop now conds (c # cs) =
     NewConditions_loop now (fst (SetCondition now c conds)) cs"

definition NewConditions :: "go_time \<Rightarrow> Condition list \<Rightarrow> Conditions" where
  "NewConditions now cs = NewConditions_loop now [] cs"

fun GetCondition :: "Conditions \<Rightarrow> string \<Rightarrow> Condition option" where
  "GetCondition [] t = None"
| "GetCondition (c # cs) t = (if cType c = t then Some c else GetCondition cs t)"

fun RemoveCondition :: "string \<Rightarrow> Conditions \<Rightarrow> Conditions \<times> bool" where
  "RemoveCondition t [] = ([], False)"
| "RemoveCondition t (c # cs) =
     (if cType c = t then (cs, True)
      else (let (cs', removed) = RemoveCondition t cs in (c # cs', removed)))"

text \<open>\<open>MarshalJSON\<close> sorts by type before it encodes; this is the encoded order.\<close>

definition MarshalJSON_order :: "Conditions \<Rightarrow> Conditions" where
  "MarshalJSON_order conds = sort_key cType conds"

section \<open>Invariant and views\<close>

definition types_distinct :: "Conditions \<Rightarrow> bool" where
  "types_distinct conds \<longleftrightarrow> distinct (map cType conds)"

text \<open>What a condition says, without the time it last changed.\<close>

definition says :: "Condition \<Rightarrow> string \<times> string \<times> string" where
  "says c = (cStatus c, cReason c, cMessage c)"

definition cond_view :: "Conditions \<Rightarrow> string \<Rightarrow> (string \<times> string \<times> string) option" where
  "cond_view conds t = map_option says (GetCondition conds t)"

definition put_cond ::
  "go_time \<Rightarrow> string \<Rightarrow> string \<times> string \<times> string \<Rightarrow> Conditions \<Rightarrow> Conditions" where
  "put_cond now t v conds = fst (SetCondition now
     \<lparr>cType = t, cStatus = fst v, cReason = fst (snd v), cMessage = snd (snd v),
      cLastTransitionTime = 0\<rparr> conds)"

definition del_cond :: "string \<Rightarrow> Conditions \<Rightarrow> Conditions" where
  "del_cond t conds = fst (RemoveCondition t conds)"

section \<open>The scan loops\<close>

lemma set_loop_types:
  "set (map cType (fst (SetCondition_loop nc cs))) = insert (cType nc) (set (map cType cs))"
  by (induction cs) (auto simp: Let_def split: prod.splits)

lemma set_loop_distinct:
  "types_distinct cs \<Longrightarrow> types_distinct (fst (SetCondition_loop nc cs))"
proof (induction cs)
  case Nil
  then show ?case by (simp add: types_distinct_def)
next
  case (Cons c cs)
  then show ?case
    using set_loop_types [of nc cs]
    by (auto simp: types_distinct_def Let_def split: prod.splits)
qed

lemma set_loop_get:
  "GetCondition (fst (SetCondition_loop nc cs)) t =
     (if t = cType nc then
        Some (case GetCondition cs t of
                None \<Rightarrow> nc
              | Some c \<Rightarrow> if cStatus c = cStatus nc
                          then nc\<lparr>cLastTransitionTime := cLastTransitionTime c\<rparr> else nc)
      else GetCondition cs t)"
  by (induction cs) (auto simp: Let_def split: prod.splits)

lemma set_loop_changed:
  "snd (SetCondition_loop nc cs) \<longleftrightarrow>
     (case GetCondition cs (cType nc) of
        None \<Rightarrow> True
      | Some c \<Rightarrow> says c \<noteq> says nc)"
  by (induction cs) (auto simp: Let_def says_def split: prod.splits)

lemma get_None_iff: "GetCondition cs t = None \<longleftrightarrow> t \<notin> set (map cType cs)"
  by (induction cs) auto

lemma remove_types_subset: "set (fst (RemoveCondition t cs)) \<subseteq> set cs"
  by (induction cs) (auto split: prod.splits)

lemma remove_distinct:
  "types_distinct cs \<Longrightarrow> types_distinct (fst (RemoveCondition t cs))"
proof (induction cs)
  case Nil
  then show ?case by simp
next
  case (Cons c cs)
  then show ?case
    using remove_types_subset [of t cs]
    by (auto simp: types_distinct_def split: prod.splits)
qed

lemma remove_get:
  "types_distinct cs \<Longrightarrow>
   GetCondition (fst (RemoveCondition t cs)) u = (if u = t then None else GetCondition cs u)"
  by (induction cs) (auto simp: types_distinct_def get_None_iff split: prod.splits)

lemma remove_flag: "snd (RemoveCondition t cs) \<longleftrightarrow> GetCondition cs t \<noteq> None"
  by (induction cs) (auto split: prod.splits)

lemma new_loop_distinct:
  "types_distinct conds \<Longrightarrow> types_distinct (NewConditions_loop now conds cs)"
  by (induction cs arbitrary: conds) (simp_all add: SetCondition_def set_loop_distinct)

lemma says_update_time [simp]: "says (c\<lparr>cLastTransitionTime := t\<rparr>) = says c"
  by (simp add: says_def)

lemma cond_view_put: "cond_view (put_cond now t v conds) = (cond_view conds)(t \<mapsto> v)"
  by (rule ext)
     (auto simp: cond_view_def put_cond_def SetCondition_def set_loop_get says_def
       split: option.split)

section \<open>The condition list is a keyed store\<close>

interpretation conds: keyed_store cond_view "put_cond now" types_distinct del_cond
  for now
proof unfold_locales
  fix s :: Conditions and k v
  assume inv: "types_distinct s"
  show "cond_view (put_cond now k v s) = (cond_view s)(k \<mapsto> v)"
    by (rule cond_view_put)
  show "cond_view (del_cond k s) = (cond_view s)(k := None)"
    using inv by (auto simp: cond_view_def del_cond_def remove_get fun_eq_iff)
  show "types_distinct (put_cond now k v s)"
    using inv by (simp add: put_cond_def SetCondition_def set_loop_distinct)
  show "types_distinct (del_cond k s)"
    using inv by (simp add: del_cond_def remove_distinct)
qed

section \<open>Properties\<close>

text \<open>
  Setting or removing a condition keeps the condition types of a status distinct, and
  \<open>NewConditions\<close> builds such a list from any input.
\<close>

theorem conditions_types_distinct:
  assumes "types_distinct conds"
  shows "types_distinct (fst (SetCondition now c conds)) \<and>
         types_distinct (fst (RemoveCondition t conds)) \<and>
         types_distinct (NewConditions now cs)"
proof (intro conjI)
  show "types_distinct (fst (SetCondition now c conds))"
    using assms by (simp add: SetCondition_def set_loop_distinct)
  show "types_distinct (fst (RemoveCondition t conds))"
    using assms by (rule remove_distinct)
  show "types_distinct (NewConditions now cs)"
    unfolding NewConditions_def by (rule new_loop_distinct) (simp add: types_distinct_def)
qed

theorem conditions_types_distinct_witness:
  "types_distinct (fst (SetCondition 5
     \<lparr>cType = ''B'', cStatus = ''True'', cReason = '''', cMessage = '''', cLastTransitionTime = 0\<rparr>
     [\<lparr>cType = ''A'', cStatus = ''True'', cReason = '''', cMessage = '''', cLastTransitionTime = 1\<rparr>]))"
  by (rule conditions_types_distinct [THEN conjunct1]) (simp add: types_distinct_def)

text \<open>
  A condition that is set is the one \<open>GetCondition\<close> returns for its type, with the
  old transition time exactly when a condition of that type with the same status was there
  before and the current time otherwise; every other type is untouched; and the returned
  flag is true exactly when the type was absent or its status, reason or message differ.
\<close>

theorem SetCondition_spec:
  "GetCondition (fst (SetCondition now c conds)) t =
     (if t = cType c then
        Some (case GetCondition conds t of
                None \<Rightarrow> c\<lparr>cLastTransitionTime := now\<rparr>
              | Some old \<Rightarrow> c\<lparr>cLastTransitionTime :=
                  (if cStatus old = cStatus c then cLastTransitionTime old else now)\<rparr>)
      else GetCondition conds t) \<and>
   (snd (SetCondition now c conds) \<longleftrightarrow>
      (case GetCondition conds (cType c) of None \<Rightarrow> True | Some old \<Rightarrow> says old \<noteq> says c))"
  by (auto simp: SetCondition_def set_loop_get set_loop_changed split: option.split)

text \<open>
  Removing a condition type from a list with distinct types makes that type absent,
  leaves every other type as it was, and reports true exactly when the type was there.
\<close>

lemma RemoveCondition_spec:
  assumes "types_distinct conds"
  shows "GetCondition (fst (RemoveCondition t conds)) u =
           (if u = t then None else GetCondition conds u) \<and>
         (snd (RemoveCondition t conds) \<longleftrightarrow> GetCondition conds t \<noteq> None)"
  using assms by (simp add: remove_get remove_flag)


text \<open>
  Two condition lists that hold the same conditions in different orders are marshalled
  in the same order when their types are distinct, so a status does not appear changed
  because a slice was permuted.
\<close>

lemma MarshalJSON_order_canonical:
  assumes "mset conds = mset conds'" and "types_distinct conds"
  shows "MarshalJSON_order conds = MarshalJSON_order conds'"
  using assms by (simp add: MarshalJSON_order_def types_distinct_def sort_key_distinct_unique)

theorem MarshalJSON_order_canonical_witness:
  "let a = \<lparr>cType = ''A'', cStatus = ''True'', cReason = '''', cMessage = '''', cLastTransitionTime = 1\<rparr>;
       b = \<lparr>cType = ''B'', cStatus = ''True'', cReason = '''', cMessage = '''', cLastTransitionTime = 2\<rparr>
   in MarshalJSON_order [a, b] = MarshalJSON_order [b, a]"
  unfolding Let_def
  by (rule MarshalJSON_order_canonical) (simp_all add: types_distinct_def)

text \<open>
  Writing a sequence of conditions leaves for every type the last one written, whatever
  else the list held: the list behaves as a map with last-write-wins updates.
\<close>

theorem conditions_last_write_wins:
  assumes "types_distinct conds"
  shows "cond_view (fold (\<lambda>(t, v). put_cond now t v) kvs conds) =
         cond_view conds ++ map_of (rev kvs)"
  using assms by (rule conds.lookup_puts)

theorem conditions_last_write_wins_witness:
  "cond_view (fold (\<lambda>(t, v). put_cond 3 t v)
     [(''A'', (''True'', ''r'', ''m'')), (''A'', (''False'', ''r'', ''n''))] []) ''A''
   = Some (''False'', ''r'', ''n'')"
  using conditions_last_write_wins [of "[]" 3 "[(''A'', (''True'', ''r'', ''m'')), (''A'', (''False'', ''r'', ''n''))]"]
  by (simp add: types_distinct_def)

end
