(* ===== verification/EventProcessor.thy ===== *)
theory EventProcessor
  imports EventReporting Conditions
begin

text \<open>
  The processor of the data reporter's event engine
  (\<open>datareporter/v2/pkg/events/event_processor.go\<close>, \<open>event_engine.go\<close>).
  The functions \<open>Process\<close>, \<open>Send\<close>, \<open>SendAll\<close> and \<open>ReportOne\<close> are
  translated one by one over a reporting function. The goroutines that \<open>Start\<close>
  spawns are a step relation over the accumulator and their program counters: the digester
  that reads the event channel, the sender that reads the ready channel, the ticker that
  flushes everything. Both channels are unbuffered, so a send and its receive are one step.
\<close>

section \<open>The operations\<close>

text \<open>\<open>Process\<close>: the new accumulator, and the key sent on the ready channel, if any.\<close>

definition Process :: "int \<Rightarrow> Event \<Rightarrow> EventMap \<Rightarrow> EventMap \<times> UserManifestType option" where
  "Process maxEventEntries event m =
     (let (m', len) = Add event m
      in (m', if len \<ge> maxEventEntries then Some (event_key event) else None))"

text \<open>
  A reporting function is \<open>EventReporter.Report\<close> with its environment applied; the
  calls made are returned with the error, in order.
\<close>

type_synonym report_call = "Metadata \<times> string \<times> EventJsons"
type_synonym reporter = "Metadata \<Rightarrow> string \<Rightarrow> EventJsons \<Rightarrow> go_error option"

definition call_for :: "UserConfigs \<Rightarrow> UserManifestType \<Rightarrow> EventJsons \<Rightarrow> report_call" where
  "call_for ucs k js = (GetMetadata ucs (umtUser k), umtManifestType k, js)"

definition Send ::
  "reporter \<Rightarrow> UserConfigs \<Rightarrow> UserManifestType \<Rightarrow> EventMap \<Rightarrow>
     EventMap \<times> report_call list \<times> go_error option" where
  "Send report ucs k m =
     (let (m', eventJsons) = Flush k m;
          (metadata, manifestType, js) = call_for ucs k eventJsons
      in (m', [(metadata, manifestType, js)], report metadata manifestType js))"

fun SendAll_loop ::
  "reporter \<Rightarrow> UserConfigs \<Rightarrow> (UserManifestType \<times> EventJsons) list \<Rightarrow>
     report_call list \<times> go_error option" where
  "SendAll_loop report ucs [] = ([], None)"
| "SendAll_loop report ucs ((k, eventJsons) # rest) =
     (let (metadata, manifestType, js) = call_for ucs k eventJsons
      in case report metadata manifestType js of
           Some err \<Rightarrow> ([(metadata, manifestType, js)], Some err)
         | None \<Rightarrow>
             (let (calls, err) = SendAll_loop report ucs rest
              in ((metadata, manifestType, js) # calls, err)))"

text \<open>The entries of a flushed map in the order Go visits them.\<close>

definition entries :: "UserManifestType list \<Rightarrow> EventMap \<Rightarrow> (UserManifestType \<times> EventJsons) list" where
  "entries order m = map (\<lambda>k. (k, held_at m k)) order"

definition SendAll ::
  "reporter \<Rightarrow> UserConfigs \<Rightarrow> UserManifestType list \<Rightarrow> EventMap \<Rightarrow>
     EventMap \<times> report_call list \<times> go_error option" where
  "SendAll report ucs order m =
     (let (m', eventMap) = FlushAll m
      in (m', SendAll_loop report ucs (entries order eventMap)))"

definition ReportOne :: "reporter \<Rightarrow> UserConfigs \<Rightarrow> Event \<Rightarrow> report_call list \<times> go_error option" where
  "ReportOne report ucs event =
     (let metadata = GetMetadata ucs (evUser event)
      in ([(metadata, evManifestType event, [evRawMessage event])],
          report metadata (evManifestType event) [evRawMessage event]))"

section \<open>Status conditions the processor sets\<close>

definition ConditionUploadFailure :: string where "ConditionUploadFailure = ''UploadFailed''"
definition ReasonUploadFailed :: string where "ReasonUploadFailed = ''UploadFailed''"
definition ConditionConnectionFailure :: string where
  "ConditionConnectionFailure = ''DataServiceConnectionFailed''"
definition ReasonConnectionFailure :: string where
  "ReasonConnectionFailure = ''DataServiceConnectionFailed''"

definition UploadFailure_cond :: Condition where
  "UploadFailure_cond = \<lparr>cType = ConditionUploadFailure, cStatus = ConditionTrue,
     cReason = ReasonUploadFailed,
     cMessage = ''an error occured while uploading a report to data-service, check pod logs for more information'',
     cLastTransitionTime = 0\<rparr>"

definition ConnectionFailure_cond :: Condition where
  "ConnectionFailure_cond = \<lparr>cType = ConditionConnectionFailure, cStatus = ConditionTrue,
     cReason = ReasonConnectionFailure,
     cMessage = ''an error occured while attempting to initialize a connection to service/rhm-data-service'',
     cLastTransitionTime = 0\<rparr>"

text \<open>
  The closures run under \<open>retry.RetryOnConflict\<close> get the resource and, if its
  conditions changed, update it. The argument is the outcome of the get; \<open>Some\<close> is
  the status that is written, \<open>None\<close> that no write is made.
\<close>

definition UpdateErrorStatus :: "go_time \<Rightarrow> Conditions result \<Rightarrow> Conditions option" where
  "UpdateErrorStatus now got =
     (case got of
        Inl err \<Rightarrow> None
      | Inr conds \<Rightarrow>
          (let (conds', changed) = SetCondition now UploadFailure_cond conds
           in if changed then Some conds' else None))"

definition clearUploadFailure :: "Conditions result \<Rightarrow> Conditions option" where
  "clearUploadFailure got =
     (case got of
        Inl err \<Rightarrow> None
      | Inr conds \<Rightarrow>
          (let (conds', removed) = RemoveCondition ConditionUploadFailure conds
           in if removed then Some conds' else None))"

text \<open>
  The connection loop of \<open>provideDataService\<close> over the attempts it makes: when each is
  made, whether it connects, and whether the resource can be read. The state is the
  resource's conditions; \<open>None\<close> is a loop that has not ended when the attempts run out.
\<close>

record attempt =
  atTime :: go_time
  atConnects :: bool
  atReadable :: bool

fun provideDataService_loop :: "attempt list \<Rightarrow> Conditions \<Rightarrow> (nat \<times> Conditions) option" where
  "provideDataService_loop [] conds = None"
| "provideDataService_loop (a # as) conds =
     (if \<not> atConnects a then
        (let conds' = (if atReadable a
                       then (let (cs, changed) = SetCondition (atTime a) ConnectionFailure_cond conds
                             in if changed then cs else conds)
                       else conds)
         in map_option (\<lambda>(n, cs). (Suc n, cs)) (provideDataService_loop as conds'))
      else
        Some (1, if atReadable a
                 then (let (cs, removed) = RemoveCondition ConditionConnectionFailure conds
                       in if removed then cs else conds)
                 else conds))"

text \<open>
  The connection settings of \<open>provideDataServiceConfig\<close>: the certificate and the
  token are read from their files, each only when its path is configured.
\<close>

record DataServiceConfig =
  dscAddress :: string
  dscToken :: string
  dscCert :: "bytes option"
  dscOutputPath :: string
  dscCipherSuites :: "nat list"
  dscMinVersion :: nat

record events_Config =
  OutputDirectory :: string
  DataServiceTokenFile :: string
  DataServiceCertFile :: string
  DataServiceURL :: string
  cfgCipherSuites :: "nat list"
  cfgMinVersion :: nat

definition provideDataServiceConfig ::
  "(string \<Rightarrow> bytes result) \<Rightarrow> events_Config \<Rightarrow> DataServiceConfig result" where
  "provideDataServiceConfig readFile config =
     (case (if DataServiceCertFile config \<noteq> [] then map_sum id Some (readFile (DataServiceCertFile config))
            else Inr None) of
        Inl err \<Rightarrow> Inl err
      | Inr cert \<Rightarrow>
          (case (if DataServiceTokenFile config \<noteq> [] then readFile (DataServiceTokenFile config)
                 else Inr []) of
             Inl err \<Rightarrow> Inl err
           | Inr serviceAccountToken \<Rightarrow>
               Inr \<lparr>dscAddress = DataServiceURL config, dscToken = serviceAccountToken,
                    dscCert = cert, dscOutputPath = OutputDirectory config,
                    dscCipherSuites = cfgCipherSuites config, dscMinVersion = cfgMinVersion config\<rparr>))"

section \<open>The goroutines\<close>

datatype digester = DIdle | DSignal UserManifestType
datatype sender = SIdle | SKey UserManifestType | SReporting UserManifestType EventJsons
datatype ticker = TIdle | TSending "(UserManifestType \<times> EventJsons) list"

text \<open>
  \<open>enAccepted\<close>, \<open>enDelivered\<close> and \<open>enLost\<close> are history: the events taken from the
  event channel, the batches whose report succeeded and the batches that were flushed
  but never reported, because their report or, under \<open>SendAll\<close>, an earlier one failed.
\<close>

record engine =
  enAcc :: EventMap
  enDigest :: digester
  enSend :: sender
  enTick :: ticker
  enAccepted :: "(UserManifestType \<times> EventJsons) list"
  enDelivered :: "(UserManifestType \<times> EventJsons) list"
  enLost :: "(UserManifestType \<times> EventJsons) list"

definition engine_init :: engine where
  "engine_init = \<lparr>enAcc = Map.empty, enDigest = DIdle, enSend = SIdle, enTick = TIdle,
     enAccepted = [], enDelivered = [], enLost = []\<rparr>"

definition digest_after :: "UserManifestType option \<Rightarrow> digester" where
  "digest_after signal = (case signal of None \<Rightarrow> DIdle | Some k \<Rightarrow> DSignal k)"

inductive engine_step :: "int \<Rightarrow> engine \<Rightarrow> engine \<Rightarrow> bool" for maxEntries where
  receive: "enDigest s = DIdle \<Longrightarrow> Process maxEntries e (enAcc s) = (m', signal) \<Longrightarrow>
     engine_step maxEntries s
       (s\<lparr>enAcc := m', enDigest := digest_after signal,
          enAccepted := (event_key e, [evRawMessage e]) # enAccepted s\<rparr>)"
| handover: "enDigest s = DSignal k \<Longrightarrow> enSend s = SIdle \<Longrightarrow>
     engine_step maxEntries s (s\<lparr>enDigest := DIdle, enSend := SKey k\<rparr>)"
| flush: "enSend s = SKey k \<Longrightarrow> Flush k (enAcc s) = (m', js) \<Longrightarrow>
     engine_step maxEntries s (s\<lparr>enAcc := m', enSend := SReporting k js\<rparr>)"
| report_ok: "enSend s = SReporting k js \<Longrightarrow>
     engine_step maxEntries s (s\<lparr>enSend := SIdle, enDelivered := (k, js) # enDelivered s\<rparr>)"
| report_err: "enSend s = SReporting k js \<Longrightarrow>
     engine_step maxEntries s (s\<lparr>enSend := SIdle, enLost := (k, js) # enLost s\<rparr>)"
| tick_flush: "enTick s = TIdle \<Longrightarrow> FlushAll (enAcc s) = (m', eventMap) \<Longrightarrow> visits eventMap order \<Longrightarrow>
     engine_step maxEntries s (s\<lparr>enAcc := m', enTick := TSending (entries order eventMap)\<rparr>)"
| tick_ok: "enTick s = TSending (kjs # rest) \<Longrightarrow>
     engine_step maxEntries s (s\<lparr>enTick := TSending rest, enDelivered := kjs # enDelivered s\<rparr>)"
| tick_err: "enTick s = TSending (kjs # rest) \<Longrightarrow>
     engine_step maxEntries s (s\<lparr>enTick := TIdle, enLost := kjs # rest @ enLost s\<rparr>)"
| tick_done: "enTick s = TSending [] \<Longrightarrow> engine_step maxEntries s (s\<lparr>enTick := TIdle\<rparr>)"

inductive engine_reachable :: "int \<Rightarrow> engine \<Rightarrow> bool" for maxEntries where
  start: "engine_reachable maxEntries engine_init"
| step: "engine_reachable maxEntries s \<Longrightarrow> engine_step maxEntries s t \<Longrightarrow>
     engine_reachable maxEntries t"

section \<open>Counting events\<close>

text \<open>The events under one key in a list of batches, and those a goroutine holds.\<close>

fun tally :: "(UserManifestType \<times> EventJsons) list \<Rightarrow> UserManifestType \<Rightarrow> bytes multiset" where
  "tally [] k = {#}"
| "tally ((k', js) # rest) k = (if k' = k then mset js else {#}) + tally rest k"

fun sender_holds :: "sender \<Rightarrow> UserManifestType \<Rightarrow> bytes multiset" where
  "sender_holds (SReporting k' js) k = (if k' = k then mset js else {#})"
| "sender_holds _ k = {#}"

fun ticker_holds :: "ticker \<Rightarrow> UserManifestType \<Rightarrow> bytes multiset" where
  "ticker_holds (TSending es) k = tally es k"
| "ticker_holds TIdle k = {#}"

definition conserved :: "engine \<Rightarrow> bool" where
  "conserved s \<longleftrightarrow> (\<forall>k. tally (enAccepted s) k =
     mset (held_at (enAcc s) k) + sender_holds (enSend s) k + ticker_holds (enTick s) k +
     tally (enDelivered s) k + tally (enLost s) k)"

text \<open>
  How long a key's list can be: below the maximum, unless the digester is waiting to hand
  that key over or the sender has it in hand.
\<close>

definition acc_room :: "int \<Rightarrow> engine \<Rightarrow> UserManifestType \<Rightarrow> bool" where
  "acc_room maxE s k \<longleftrightarrow>
     int (length (held_at (enAcc s) k)) < maxE +
       (if enDigest s = DSignal k then 1 else 0) + (if enSend s = SKey k then 1 else 0)"

definition bounded_acc :: "int \<Rightarrow> engine \<Rightarrow> bool" where
  "bounded_acc maxE s \<longleftrightarrow> (\<forall>k. acc_room maxE s k)"

lemma tally_append [simp]: "tally (xs @ ys) k = tally xs k + tally ys k"
  by (induction xs) auto

lemma tally_entries:
  "distinct order \<Longrightarrow> tally (entries order m) k = (if k \<in> set order then mset (held_at m k) else {#})"
  by (induction order) (auto simp: entries_def)

lemma tally_visited: "visits m order \<Longrightarrow> tally (entries order m) k = mset (held_at m k)"
  by (auto simp: visits_def tally_entries held_at_def split: option.split)

section \<open>Invariants of the goroutines\<close>

lemma Process_conserves:
  "Process maxE e m = (m', signal) \<Longrightarrow>
   mset (held_at m' k) = mset (held_at m k) + (if event_key e = k then {#evRawMessage e#} else {#})"
  using accum.add_conserves [of e m k] by (auto simp: Process_def Let_def split: prod.splits)

lemma Process_signal:
  assumes "Process maxE e m = (m', signal)"
  shows "signal = (if maxE \<le> int (length (held_at m' (event_key e))) then Some (event_key e) else None)"
  using assms accum.add_length [of e m] by (auto simp: Process_def Let_def split: prod.splits)

lemma Process_held:
  "Process maxE e m = (m', signal) \<Longrightarrow>
   held_at m' = (held_at m)(event_key e := held_at m (event_key e) @ [evRawMessage e])"
  using accum.held_add [of e m] by (auto simp: Process_def Let_def split: prod.splits)

lemma engine_step_conserved: "engine_step maxE s t \<Longrightarrow> conserved s \<Longrightarrow> conserved t"
proof (induction rule: engine_step.induct)
  case (receive s e m' signal)
  then show ?case using Process_conserves [OF receive(2)] by (simp add: conserved_def)
next
  case (flush s k m' js)
  then show ?case using accum.flush_conserves [of "enAcc s" _ k]
    by (auto simp: conserved_def)
next
  case (tick_flush s m' eventMap order)
  then show ?case by (auto simp: conserved_def FlushAll_def tally_visited)
qed (auto simp: conserved_def ac_simps)

lemma engine_step_bounded: "engine_step maxE s t \<Longrightarrow> 1 \<le> maxE \<Longrightarrow> bounded_acc maxE s \<Longrightarrow> bounded_acc maxE t"
proof (induction rule: engine_step.induct)
  case (receive s e m' signal)
  show ?case unfolding bounded_acc_def
  proof
    fix k
    have "acc_room maxE s k" using receive.prems by (simp add: bounded_acc_def)
    then show "acc_room maxE (s\<lparr>enAcc := m', enDigest := digest_after signal,
        enAccepted := (event_key e, [evRawMessage e]) # enAccepted s\<rparr>) k"
      using receive.hyps(1) Process_signal [OF receive.hyps(2)] Process_held [OF receive.hyps(2)]
      by (auto simp: acc_room_def digest_after_def)
  qed
next
  case (handover s k)
  then show ?case by (auto simp: bounded_acc_def acc_room_def)
next
  case (flush s k m' js)
  show ?case unfolding bounded_acc_def
  proof
    fix k'
    have "acc_room maxE s k'" using flush.prems by (simp add: bounded_acc_def)
    then show "acc_room maxE (s\<lparr>enAcc := m', enSend := SReporting k js\<rparr>) k'"
      using flush.hyps flush.prems by (auto simp: acc_room_def Flush_def split: if_splits)
  qed
qed (auto simp: bounded_acc_def acc_room_def FlushAll_def)

lemma reachable_conserved: "engine_reachable maxE s \<Longrightarrow> conserved s"
proof (induction rule: engine_reachable.induct)
  case start
  show ?case by (simp add: conserved_def engine_init_def)
next
  case (step s t)
  then show ?case by (blast intro: engine_step_conserved)
qed

lemma reachable_bounded: "engine_reachable maxE s \<Longrightarrow> 1 \<le> maxE \<Longrightarrow> bounded_acc maxE s"
proof (induction rule: engine_reachable.induct)
  case start
  then show ?case by (simp add: bounded_acc_def acc_room_def engine_init_def)
next
  case (step s t)
  then show ?case by (blast intro: engine_step_bounded)
qed

section \<open>The status conditions\<close>

lemma provideDataService_keeps_others:
  "types_distinct conds \<Longrightarrow> provideDataService_loop as conds = Some (n, conds') \<Longrightarrow>
   t \<noteq> ConditionConnectionFailure \<Longrightarrow> GetCondition conds' t = GetCondition conds t"
proof (induction as arbitrary: conds n)
  case Nil
  then show ?case by simp
next
  case (Cons a as)
  let ?set = "SetCondition (atTime a) ConnectionFailure_cond conds"
  have d: "types_distinct (fst ?set)"
    using Cons.prems(1) by (simp add: SetCondition_def set_loop_distinct)
  have g: "GetCondition (fst ?set) t = GetCondition conds t"
    using Cons.prems(3) by (simp add: SetCondition_def set_loop_get ConnectionFailure_cond_def)
  show ?case
  proof (cases "atConnects a")
    case True
    then show ?thesis
      using Cons.prems remove_get [of conds ConditionConnectionFailure t]
      by (auto split: prod.splits if_splits)
  next
    case False
    then show ?thesis
      using Cons.prems Cons.IH [of conds] Cons.IH [OF d] g
      by (auto split: prod.splits if_splits)
  qed
qed

lemma provideDataService_clears:
  "types_distinct conds \<Longrightarrow> provideDataService_loop as conds = Some (n, conds') \<Longrightarrow>
   atReadable (as ! (n - 1)) \<Longrightarrow> GetCondition conds' ConditionConnectionFailure = None"
proof (induction as arbitrary: conds n)
  case Nil
  then show ?case by simp
next
  case (Cons a as)
  let ?set = "SetCondition (atTime a) ConnectionFailure_cond conds"
  have d: "types_distinct (fst ?set)"
    using Cons.prems(1) by (simp add: SetCondition_def set_loop_distinct)
  show ?case
  proof (cases "atConnects a")
    case True
    then show ?thesis
      using Cons.prems remove_get [of conds ConditionConnectionFailure ConditionConnectionFailure]
        remove_flag [of ConditionConnectionFailure conds]
      by (auto split: prod.splits if_splits)
  next
    case False
    let ?conds = "if atReadable a then (if snd ?set then fst ?set else conds) else conds"
    from False Cons.prems(2) obtain m where
      m: "provideDataService_loop as ?conds = Some (m, conds')" and n: "n = Suc m"
      by (auto simp: case_prod_beta split: if_splits)
    then obtain m' where m': "m = Suc m'" by (cases as) (auto split: if_splits)
    have "types_distinct ?conds" using d Cons.prems(1) by simp
    from Cons.IH [OF this m] Cons.prems(3) n m' show ?thesis by simp
  qed
qed

lemma provideDataService_returns:
  "\<exists>a \<in> set as. atConnects a \<Longrightarrow>
   \<exists>n conds'. provideDataService_loop as conds = Some (n, conds') \<and> 1 \<le> n \<and> n \<le> length as \<and>
     atConnects (as ! (n - 1)) \<and> \<not> list_ex atConnects (take (n - 1) as)"
proof (induction as arbitrary: conds)
  case Nil
  then show ?case by simp
next
  case (Cons a as)
  show ?case
  proof (cases "atConnects a")
    case True
    then show ?thesis by (simp add: Let_def)
  next
    case False
    with Cons.prems have "\<exists>a \<in> set as. atConnects a" by auto
    note IH = Cons.IH [OF this]
    obtain c where eq: "provideDataService_loop (a # as) conds =
        map_option (\<lambda>(n, cs). (Suc n, cs)) (provideDataService_loop as c)"
      using False by (simp add: Let_def)
    from IH [of c] obtain n cs where "provideDataService_loop as c = Some (n, cs)" "1 \<le> n"
      "n \<le> length as" "atConnects (as ! (n - 1))" "\<not> list_ex atConnects (take (n - 1) as)"
      by blast
    with eq False show ?thesis
      by (intro exI [of _ "Suc n"] exI [of _ cs]) (cases n; simp)
  qed
qed

section \<open>Sending as steps of the goroutines\<close>

definition report_succeeds :: "reporter \<Rightarrow> UserConfigs \<Rightarrow> UserManifestType \<times> EventJsons \<Rightarrow> bool" where
  "report_succeeds report ucs kjs =
     (let (md, mt, js) = call_for ucs (fst kjs) (snd kjs) in report md mt js = None)"

lemma SendAll_loop_spec:
  "SendAll_loop report ucs es =
     (let oks = takeWhile (report_succeeds report ucs) es;
          rest = dropWhile (report_succeeds report ucs) es
      in (map (\<lambda>(k, js). call_for ucs k js) (oks @ take 1 rest),
          case rest of [] \<Rightarrow> None
          | (k, js) # _ \<Rightarrow> (let (md, mt, js') = call_for ucs k js in report md mt js')))"
proof (induction es)
  case Nil
  then show ?case by simp
next
  case (Cons kjs es)
  obtain k js where kjs: "kjs = (k, js)" by (cases kjs)
  obtain md mt js' where c: "call_for ucs k js = (md, mt, js')" by (cases "call_for ucs k js")
  show ?case
    by (cases "report md mt js'") (simp_all add: kjs c Cons.IH report_succeeds_def Let_def)
qed

lemma SendAll_loop_err:
  "snd (SendAll_loop report ucs es) = None \<longleftrightarrow> dropWhile (report_succeeds report ucs) es = []"
  by (induction es)
     (auto simp: report_succeeds_def Let_def case_prod_beta split: option.splits)

lemma tick_run:
  "enTick s = TSending es \<Longrightarrow>
   (engine_step maxE)\<^sup>*\<^sup>* s
     (s\<lparr>enTick := TIdle, enDelivered := rev (takeWhile ok es) @ enDelivered s,
        enLost := dropWhile ok es @ enLost s\<rparr>)"
proof (induction es arbitrary: s)
  case Nil
  then show ?case using engine_step.tick_done [of s maxE] by simp
next
  case (Cons e es)
  show ?case
  proof (cases "ok e")
    case True
    let ?s = "s\<lparr>enTick := TSending es, enDelivered := e # enDelivered s\<rparr>"
    have "engine_step maxE s ?s" using Cons.prems by (rule engine_step.tick_ok)
    with Cons.IH [of ?s] True show ?thesis by (simp add: converse_rtranclp_into_rtranclp)
  next
    case False
    then show ?thesis using engine_step.tick_err [OF Cons.prems, of maxE] by simp
  qed
qed

section \<open>Properties\<close>

text \<open>
  C1: in every state the engine can reach, each event taken from the event channel is, for
  its user and manifest type, in exactly one place: still accumulated, in the batch the
  sender is reporting, in a batch the ticker is sending, in a delivered batch, or in a
  batch given up after a failed report. No event is duplicated and none disappears.
\<close>

theorem engine_conserves_events:
  assumes "engine_reachable maxEntries s"
  shows "tally (enAccepted s) k =
     mset (held_at (enAcc s) k) + sender_holds (enSend s) k + ticker_holds (enTick s) k +
     tally (enDelivered s) k + tally (enLost s) k"
  using reachable_conserved [OF assms] by (simp add: conserved_def)

theorem engine_conserves_events_witness:
  "\<exists>s. engine_reachable 2 s \<and>
     tally (enAccepted s) \<lparr>umtUser = ''u'', umtManifestType = ''m''\<rparr> = {#''x''#} \<and>
     tally (enAccepted s) \<lparr>umtUser = ''u'', umtManifestType = ''m''\<rparr> =
     mset (held_at (enAcc s) \<lparr>umtUser = ''u'', umtManifestType = ''m''\<rparr>) +
     sender_holds (enSend s) \<lparr>umtUser = ''u'', umtManifestType = ''m''\<rparr> +
     ticker_holds (enTick s) \<lparr>umtUser = ''u'', umtManifestType = ''m''\<rparr> +
     tally (enDelivered s) \<lparr>umtUser = ''u'', umtManifestType = ''m''\<rparr> +
     tally (enLost s) \<lparr>umtUser = ''u'', umtManifestType = ''m''\<rparr>"
proof -
  let ?k = "\<lparr>umtUser = ''u'', umtManifestType = ''m''\<rparr>"
  let ?e = "\<lparr>evUser = ''u'', evRawMessage = ''x'', evManifestType = ''m''\<rparr>"
  let ?s = "engine_init\<lparr>enAcc := [?k \<mapsto> [''x'']], enDigest := DIdle, enAccepted := [(?k, [''x''])]\<rparr>"
  have "engine_step 2 engine_init ?s"
    using engine_step.receive [of engine_init 2 ?e "[?k \<mapsto> [''x'']]" None]
    by (simp add: engine_init_def Process_def Add_def event_key_def digest_after_def)
  then have r: "engine_reachable 2 ?s" by (rule engine_reachable.step [OF engine_reachable.start])
  from engine_conserves_events [OF r, of ?k] r show ?thesis
    by (intro exI [of _ ?s]) simp
qed

text \<open>
  C31: With a maximum of at least one entry, no user and manifest type ever has more than
  one event over the maximum accumulated, because the digester that reached it waits until
  the sender has taken the key over.
\<close>

theorem engine_accumulator_bounded:
  assumes "engine_reachable maxEntries s" and "1 \<le> maxEntries"
  shows "int (length (held_at (enAcc s) k)) \<le> maxEntries + 1"
proof -
  from reachable_bounded [OF assms] have "acc_room maxEntries s k" by (simp add: bounded_acc_def)
  then show ?thesis by (auto simp: acc_room_def split: if_splits)
qed

theorem engine_accumulator_bounded_witness:
  "engine_reachable 1 engine_init \<and>
   int (length (held_at (enAcc engine_init) \<lparr>umtUser = ''u'', umtManifestType = ''m''\<rparr>)) \<le> 1 + 1"
  using engine_accumulator_bounded [OF engine_reachable.start, of 1] engine_reachable.start by auto

text \<open>
  C13: \<open>SendAll\<close> empties the accumulator and reports the batches in the order the map is
  visited up to and including the first one whose report fails, returning that error; the
  goroutine steps it stands for deliver the batches before the failure and give up the
  failed batch together with every later one, whose reports are never attempted.
\<close>

theorem SendAll_refines_steps:
  assumes "enTick s = TIdle" and "visits (enAcc s) order"
    and "SendAll report ucs order (enAcc s) = (m', calls, err)"
  shows "m' = Map.empty \<and>
     (let es = entries order (enAcc s);
          oks = takeWhile (report_succeeds report ucs) es;
          rest = dropWhile (report_succeeds report ucs) es
      in calls = map (\<lambda>(k, js). call_for ucs k js) (oks @ take 1 rest) \<and>
         (err = None \<longleftrightarrow> rest = []) \<and>
         (engine_step maxE)\<^sup>*\<^sup>* s
           (s\<lparr>enAcc := m', enTick := TIdle, enDelivered := rev oks @ enDelivered s,
              enLost := rest @ enLost s\<rparr>))"
proof -
  let ?ok = "report_succeeds report ucs" and ?es = "entries order (enAcc s)"
  let ?s = "s\<lparr>enAcc := Map.empty, enTick := TSending ?es\<rparr>"
  have m': "m' = Map.empty" using assms(3) by (simp add: SendAll_def FlushAll_def)
  have loop: "SendAll_loop report ucs ?es = (calls, err)"
    using assms(3) by (simp add: SendAll_def FlushAll_def)
  have err: "err = None \<longleftrightarrow> dropWhile ?ok ?es = []"
    using SendAll_loop_err [of report ucs ?es] loop by simp
  have "engine_step maxE s ?s"
    using engine_step.tick_flush [of s Map.empty "enAcc s" order maxE] assms(1,2)
    by (simp add: FlushAll_def)
  moreover have "(engine_step maxE)\<^sup>*\<^sup>* ?s
      (s\<lparr>enAcc := m', enTick := TIdle, enDelivered := rev (takeWhile ?ok ?es) @ enDelivered s,
         enLost := dropWhile ?ok ?es @ enLost s\<rparr>)"
    using tick_run [of ?s ?es maxE ?ok] m' by simp
  ultimately show ?thesis
    using m' loop err by (simp add: SendAll_loop_spec Let_def converse_rtranclp_into_rtranclp)
qed

theorem SendAll_refines_steps_witness:
  "let k = \<lparr>umtUser = ''u'', umtManifestType = ''m''\<rparr>;
       s = engine_init\<lparr>enAcc := [k \<mapsto> [''x'']]\<rparr>
   in (engine_step 1)\<^sup>*\<^sup>* s (s\<lparr>enAcc := Map.empty, enTick := TIdle, enLost := [(k, [''x''])]\<rparr>)"
proof -
  let ?k = "\<lparr>umtUser = ''u'', umtManifestType = ''m''\<rparr>"
  let ?s = "engine_init\<lparr>enAcc := [?k \<mapsto> [''x'']]\<rparr>"
  let ?r = "\<lambda>_ _ _. Some (Err ''down'')" and ?u = "\<lparr>userConfigs = [], readers = 0\<rparr>"
  have h: "enTick ?s = TIdle" "visits (enAcc ?s) [?k]"
    by (simp_all add: engine_init_def visits_def)
  have "SendAll ?r ?u [?k] (enAcc ?s) = (Map.empty, [(Map.empty, ''m'', [''x''])], Some (Err ''down''))"
    by (simp add: SendAll_def FlushAll_def entries_def call_for_def GetMetadata_def)
  from SendAll_refines_steps [OF h this, of 1] show ?thesis
    by (simp add: engine_init_def entries_def report_succeeds_def call_for_def Let_def)
qed

text \<open>
  The connection loop returns as soon as an attempt connects and not before; while it
  retries it only ever touches the connection-failure condition, which is gone when the
  loop returns if the resource could be read at the successful attempt.
\<close>

theorem provideDataService_correct:
  assumes "\<exists>a \<in> set as. atConnects a" and "types_distinct conds"
  shows "\<exists>n conds'. provideDataService_loop as conds = Some (n, conds') \<and>
     1 \<le> n \<and> n \<le> length as \<and>
     atConnects (as ! (n - 1)) \<and> \<not> list_ex atConnects (take (n - 1) as) \<and>
     (\<forall>t. t \<noteq> ConditionConnectionFailure \<longrightarrow> GetCondition conds' t = GetCondition conds t) \<and>
     (atReadable (as ! (n - 1)) \<longrightarrow> GetCondition conds' ConditionConnectionFailure = None)"
proof -
  from provideDataService_returns [OF assms(1)] obtain n conds' where
    n: "provideDataService_loop as conds = Some (n, conds')" "1 \<le> n" "n \<le> length as"
      "atConnects (as ! (n - 1))" "\<not> list_ex atConnects (take (n - 1) as)"
    by blast
  then show ?thesis
    using provideDataService_keeps_others [OF assms(2) n(1)] provideDataService_clears [OF assms(2) n(1)]
    by blast
qed

theorem provideDataService_correct_witness:
  "\<exists>n conds'. provideDataService_loop
       [\<lparr>atTime = 1, atConnects = False, atReadable = True\<rparr>,
        \<lparr>atTime = 2, atConnects = True, atReadable = True\<rparr>] [] = Some (n, conds') \<and>
     GetCondition conds' ConditionConnectionFailure = None"
proof -
  let ?as = "[\<lparr>atTime = 1, atConnects = False, atReadable = True\<rparr>,
              \<lparr>atTime = 2, atConnects = True, atReadable = True\<rparr>]"
  from provideDataService_correct [of ?as "[]"] obtain n conds' where
    "provideDataService_loop ?as [] = Some (n, conds')" "1 \<le> n" "n \<le> 2"
    "atReadable (?as ! (n - 1)) \<longrightarrow> GetCondition conds' ConditionConnectionFailure = None"
    by (auto simp: types_distinct_def)
  moreover from this have "n = 1 \<or> n = 2" by auto
  ultimately show ?thesis by (auto intro: exI [of _ n])
qed

end
