(* ===== verification/EventApi.thy ===== *)
theory EventApi
  imports DataFilters EventProcessor
begin

text \<open>
  The HTTP interface of the data reporter: the authentication and authorization filter in
  front of it (\<open>datareporter/v2/pkg/filters/filters.go\<close>) and the handler of
  \<open>/v1/event\<close> (\<open>datareporter/v2/pkg/server/server.go\<close>). The token and access
  reviews are arguments of the model, and so are \<open>json.Valid\<close> and \<open>json.Marshal\<close>.
\<close>

section \<open>Requests and responses\<close>

record request =
  reqMethod :: string
  reqPath :: string
  reqHeader :: header
  reqBody :: "bytes result"

text \<open>
  The body is the payload written after the status line, if any; \<open>rpEvent\<close> is the
  event that was passed to the data filters, if the handler got that far.
\<close>

record response =
  rpStatus :: int
  rpBody :: "bytes option"
  rpEvent :: "Event option"

definition respond :: "int \<Rightarrow> response" where
  "respond code = \<lparr>rpStatus = code, rpBody = None, rpEvent = None\<rparr>"

section \<open>Authentication and authorization\<close>

record user_info =
  uiName :: string
  uiGroups :: "string list"

datatype decision = DecisionDeny | DecisionAllow | DecisionNoOpinion

fun join_with :: "string \<Rightarrow> string list \<Rightarrow> string" where
  "join_with sep [] = []"
| "join_with sep [s] = s"
| "join_with sep (s # t # ss) = s @ sep @ join_with sep (t # ss)"

definition WithAuth ::
  "(request \<Rightarrow> user_info option result) \<Rightarrow> (user_info \<Rightarrow> string \<Rightarrow> string \<Rightarrow> decision result) \<Rightarrow>
     (request \<Rightarrow> response) \<Rightarrow> request \<Rightarrow> response" where
  "WithAuth authenticate authorize handler req =
     (case authenticate req of
        Inl err \<Rightarrow> respond StatusInternalServerError
      | Inr None \<Rightarrow> respond StatusUnauthorized
      | Inr (Some user) \<Rightarrow>
          (case authorize user (map to_lower (reqMethod req)) (reqPath req) of
             Inl err \<Rightarrow> respond StatusInternalServerError
           | Inr d \<Rightarrow>
               (if d \<noteq> DecisionAllow then respond StatusForbidden
                else handler (req\<lparr>reqHeader :=
                       Header_Set ''x-remote-groups'' (join_with ''|'' (uiGroups user))
                         (Header_Set ''x-remote-user'' (uiName user) (reqHeader req))\<rparr>))))"

section \<open>The event handler\<close>

record ('expr, 'obj, 'kz, 'url) api =
  apLibs :: "('expr, 'obj, 'kz, 'url) libs"
  apServer :: http_server
  apArrive :: "int list \<Rightarrow> int list"
  apReportOne :: "Event \<Rightarrow> go_error option"
  apJsonValid :: "bytes \<Rightarrow> bool"
  apMarshalEvent :: "Event \<Rightarrow> bytes"

fun EventHandler_codes :: "int list \<Rightarrow> int option" where
  "EventHandler_codes [] = None"
| "EventHandler_codes (statusCode # codes) =
     (if \<not> (200 \<le> statusCode \<and> statusCode < 300) then Some StatusBadGateway
      else EventHandler_codes codes)"

definition EventHandler ::
  "('expr, 'obj, 'kz, 'url) api \<Rightarrow> bool \<Rightarrow> bool \<Rightarrow> ('expr, 'kz, 'url, 'pool, 'cert) DataFilters \<Rightarrow>
     request \<Rightarrow> response" where
  "EventHandler A ready licenseAccept dataFilters r =
     (if \<not> ready then respond StatusServiceUnavailable
      else if \<not> licenseAccept then respond StatusInternalServerError
      else
        (let headerUser = Header_Get ''x-remote-user'' (reqHeader r) in
         if headerUser = [] then respond StatusBadRequest
         else
           (case reqBody r of
              Inl err \<Rightarrow> respond StatusInternalServerError
            | Inr eventKeyBytes \<Rightarrow>
                (if \<not> apJsonValid A eventKeyBytes then respond StatusBadRequest
                 else
                   (let event = \<lparr>evUser = headerUser, evRawMessage = eventKeyBytes, evManifestType = []\<rparr>;
                        out = FilterAndUpload (apLibs A) (apServer A) (apArrive A) (apReportOne A) dataFilters event
                    in case EventHandler_codes (foStatusCodes out) of
                         Some code \<Rightarrow> \<lparr>rpStatus = code, rpBody = None, rpEvent = Some event\<rparr>
                       | None \<Rightarrow> \<lparr>rpStatus = StatusOK, rpBody = Some (apMarshalEvent A event),
                                  rpEvent = Some event\<rparr>)))))"

definition demo_api :: "(string, string, unit, string) api" where
  "demo_api = \<lparr>apLibs = demo_libs, apServer = demo_server, apArrive = id, apReportOne = (\<lambda>_. None),
     apJsonValid = (\<lambda>_. True), apMarshalEvent = evRawMessage\<rparr>"

section \<open>Lemmas\<close>

lemma EventHandler_codes_None: "EventHandler_codes codes = None \<longleftrightarrow> list_all is_2xx codes"
  by (induction codes) (auto simp: is_2xx_def)

lemma EventHandler_codes_Some: "EventHandler_codes codes = Some c \<Longrightarrow> c = StatusBadGateway"
  by (induction codes) (auto split: if_splits)

lemma remote_header_keys:
  "CanonicalHeaderKey ''x-remote-user'' \<noteq> CanonicalHeaderKey ''x-remote-groups''"
  by code_simp

lemma EventHandler_event:
  "rpEvent (EventHandler A ready lic d r) = Some event \<Longrightarrow>
     evUser event = Header_Get ''x-remote-user'' (reqHeader r) \<and> reqBody r = Inr (evRawMessage event)"
  by (auto simp: EventHandler_def respond_def Let_def split: if_splits sum.splits option.splits)

section \<open>Properties\<close>

text \<open>
  C17: behind the filter, an event reaches the data filters only for a request whose
  credentials were accepted and authorized, and its user is the name the authenticator
  returned, whatever the client sent in the user header.
\<close>

theorem handled_event_is_authenticated:
  assumes "rpEvent (WithAuth authenticate authorize (EventHandler A ready lic d) req) = Some event"
  shows "\<exists>user. authenticate req = Inr (Some user) \<and>
     authorize user (map to_lower (reqMethod req)) (reqPath req) = Inr DecisionAllow \<and>
     evUser event = uiName user \<and> ready \<and> lic"
proof -
  from assms obtain user where u: "authenticate req = Inr (Some user)"
    "authorize user (map to_lower (reqMethod req)) (reqPath req) = Inr DecisionAllow"
    by (auto simp: WithAuth_def respond_def split: sum.splits option.splits if_splits)
  let ?h = "Header_Set ''x-remote-groups'' (join_with ''|'' (uiGroups user))
              (Header_Set ''x-remote-user'' (uiName user) (reqHeader req))"
  have e: "rpEvent (EventHandler A ready lic d (req\<lparr>reqHeader := ?h\<rparr>)) = Some event"
    using assms u by (simp add: WithAuth_def)
  have "ready \<and> lic" using e by (auto simp: EventHandler_def respond_def split: if_splits)
  moreover have "evUser event = uiName user"
    using EventHandler_event [OF e] by (simp add: Header_Get_Set remote_header_keys)
  ultimately show ?thesis using u by blast
qed

theorem handled_event_is_authenticated_witness:
  "\<exists>event user. rpEvent (WithAuth (\<lambda>_. Inr (Some \<lparr>uiName = ''alice'', uiGroups = [''g'']\<rparr>))
        (\<lambda>_ _ _. Inr DecisionAllow) (EventHandler demo_api True True demo_filters)
        \<lparr>reqMethod = ''POST'', reqPath = ''/v1/event'', reqHeader = [''X-Remote-User'' \<mapsto> [''mallory'']],
         reqBody = Inr ''x''\<rparr>) = Some event \<and> evUser event = ''alice''"
proof -
  let ?a = "\<lambda>_. Inr (Some \<lparr>uiName = ''alice'', uiGroups = [''g'']\<rparr>)"
  let ?r = "\<lparr>reqMethod = ''POST'', reqPath = ''/v1/event'', reqHeader = [''X-Remote-User'' \<mapsto> [''mallory'']],
             reqBody = Inr ''x''\<rparr>"
  have "rpEvent (WithAuth ?a (\<lambda>_ _ _. Inr DecisionAllow) (EventHandler demo_api True True demo_filters) ?r) \<noteq> None"
    by (simp add: WithAuth_def EventHandler_def Header_Get_Set remote_header_keys demo_api_def Let_def
        split: option.split)
  then obtain event where
    e: "rpEvent (WithAuth ?a (\<lambda>_ _ _. Inr DecisionAllow) (EventHandler demo_api True True demo_filters) ?r) = Some event"
    by blast
  from handled_event_is_authenticated [OF e] e show ?thesis by auto
qed

text \<open>
  The handler answers 200 exactly when the engine is ready, the license is accepted, a
  user is named, the body was read and is valid JSON, every destination of the first
  matching filter took the event and, if delivery is confirmed, the data service has
  already taken it; and a failed delivery is answered with 502.
\<close>

theorem EventHandler_ok_iff:
  assumes "\<And>xs. mset (apArrive A xs) = mset xs"
  shows "rpStatus (EventHandler A ready lic d r) = StatusOK \<longleftrightarrow>
     ready \<and> lic \<and> Header_Get ''x-remote-user'' (reqHeader r) \<noteq> [] \<and>
     (\<exists>body. reqBody r = Inr body \<and> apJsonValid A body \<and>
        (let event = \<lparr>evUser = Header_Get ''x-remote-user'' (reqHeader r), evRawMessage = body, evManifestType = []\<rparr>
         in (ToBool (dfsConfirmDelivery d) \<longrightarrow>
               apReportOne A (service_event (apLibs A) (dfsDataFilters d) event) = None) \<and>
            (case first_match (apLibs A) (dfsDataFilters d) event of None \<Rightarrow> True
             | Some df \<Rightarrow> list_all (dest_delivered (apLibs A) (apServer A) body) (dfDestinations df))))"
proof (cases "\<exists>body. reqBody r = Inr body \<and> apJsonValid A body \<and> ready \<and> lic \<and>
    Header_Get ''x-remote-user'' (reqHeader r) \<noteq> []")
  case False
  then show ?thesis
    by (auto simp: EventHandler_def respond_def Let_def status_code_defs split: if_splits sum.splits)
next
  case True
  then obtain body where b: "reqBody r = Inr body" "apJsonValid A body" "ready" "lic"
    "Header_Get ''x-remote-user'' (reqHeader r) \<noteq> []" by blast
  let ?event = "\<lparr>evUser = Header_Get ''x-remote-user'' (reqHeader r), evRawMessage = body, evManifestType = []\<rparr>"
  let ?codes = "foStatusCodes (FilterAndUpload (apLibs A) (apServer A) (apArrive A) (apReportOne A) d ?event)"
  have "rpStatus (EventHandler A ready lic d r) = StatusOK \<longleftrightarrow> list_all is_2xx ?codes"
    using b by (auto simp: EventHandler_def Let_def EventHandler_codes_None status_code_defs
        dest!: EventHandler_codes_Some split: option.splits
        simp flip: EventHandler_codes_None)
  also have "\<dots> \<longleftrightarrow> (ToBool (dfsConfirmDelivery d) \<longrightarrow>
         apReportOne A (service_event (apLibs A) (dfsDataFilters d) ?event) = None) \<and>
      (case first_match (apLibs A) (dfsDataFilters d) ?event of None \<Rightarrow> True
       | Some df \<Rightarrow> list_all (dest_delivered (apLibs A) (apServer A) body) (dfDestinations df))"
    unfolding FilterAndUpload_def by (subst FilterAndUpload_loop_codes [OF assms]) (simp split: option.split)
  finally show ?thesis using b by (simp add: Let_def)
qed

theorem EventHandler_ok_iff_witness:
  "rpStatus (EventHandler demo_api True True demo_filters
     \<lparr>reqMethod = ''POST'', reqPath = ''/v1/event'', reqHeader = [''X-Remote-User'' \<mapsto> [''alice'']],
      reqBody = Inr ''x''\<rparr>) = StatusOK"
proof (subst EventHandler_ok_iff)
  show "mset (apArrive demo_api xs) = mset xs" for xs by (simp add: demo_api_def)
  have "CanonicalHeaderKey ''x-remote-user'' = ''X-Remote-User''" by code_simp
  then show "True \<and> True \<and> Header_Get ''x-remote-user'' (reqHeader
      \<lparr>reqMethod = ''POST'', reqPath = ''/v1/event'', reqHeader = [''X-Remote-User'' \<mapsto> [''alice'']], reqBody = Inr ''x''\<rparr>) \<noteq> [] \<and>
     (\<exists>body. reqBody
      \<lparr>reqMethod = ''POST'', reqPath = ''/v1/event'', reqHeader = [''X-Remote-User'' \<mapsto> [''alice'']], reqBody = Inr ''x''\<rparr> = Inr body \<and>
       apJsonValid demo_api body \<and>
        (let event = \<lparr>evUser = Header_Get ''x-remote-user'' (reqHeader
      \<lparr>reqMethod = ''POST'', reqPath = ''/v1/event'', reqHeader = [''X-Remote-User'' \<mapsto> [''alice'']], reqBody = Inr ''x''\<rparr>), evRawMessage = body, evManifestType = []\<rparr>
         in (ToBool (dfsConfirmDelivery demo_filters) \<longrightarrow>
               apReportOne demo_api (service_event (apLibs demo_api) (dfsDataFilters demo_filters) event) = None) \<and>
            (case first_match (apLibs demo_api) (dfsDataFilters demo_filters) event of None \<Rightarrow> True
             | Some df \<Rightarrow> list_all (dest_delivered (apLibs demo_api) (apServer demo_api) body) (dfDestinations df))))"
    by (simp add: Header_Get_def demo_api_def demo_filters_def first_match_def)
qed

end
