(* ===== verification/ReporterController.thy ===== *)
theory ReporterController
  imports EventApi
begin

text \<open>
  The controller of the \<open>DataReporterConfig\<close> resource
  (\<open>datareporter/v2/internal/controller/datareporterconfig_controller.go\<close>): the watch
  sets that decide which secrets and config maps trigger a reconcile, the predicates over
  them, and \<open>Reconcile\<close> itself. The API server is an argument: the outcome of each
  get, write, apply and delete. The conditions of the resource are state; what the
  reconcile writes and applies is the list of its actions, in order.
\<close>

section \<open>Names\<close>

definition DATAREPORTERCONFIG_NAME :: string where "DATAREPORTERCONFIG_NAME = ''datareporterconfig''"
definition MARKETPLACECONFIG_NAME :: string where "MARKETPLACECONFIG_NAME = ''marketplaceconfig''"
definition DATAREPORTER_SERVICE_NAME :: string where
  "DATAREPORTER_SERVICE_NAME = ''ibm-data-reporter-operator-controller-manager-metrics-service''"

section \<open>Watch sets\<close>

fun certificate_secrets :: "v1alpha1_Certificate list \<Rightarrow> string set \<Rightarrow> string set" where
  "certificate_secrets [] s = s"
| "certificate_secrets (cert # certs) s =
     (let s1 = (case ctClientCert cert of None \<Rightarrow> s | Some ref \<Rightarrow> insert (ksName ref) s);
          s2 = (case ctClientKey cert of None \<Rightarrow> s1 | Some ref \<Rightarrow> insert (ksName ref) s1)
      in certificate_secrets certs s2)"

fun cacert_secrets :: "KeySelector list \<Rightarrow> string set \<Rightarrow> string set" where
  "cacert_secrets [] s = s"
| "cacert_secrets (c # cs) s = cacert_secrets cs (insert (ksName c) s)"

fun destination_names ::
  "v1alpha1_Destination list \<Rightarrow> string set \<times> string set \<Rightarrow> string set \<times> string set" where
  "destination_names [] (secrets, cms) = (secrets, cms)"
| "destination_names (dest # dests) (secrets, cms) =
     (let cms1 = (case vtConfigMapKeyRef (deTransformer dest) of
                    None \<Rightarrow> cms | Some ref \<Rightarrow> insert (ksName ref) cms);
          secrets1 = (case auBodyData (deAuthorization dest) of
                        None \<Rightarrow> secrets | Some ref \<Rightarrow> insert (ksName ref) secrets);
          secrets2 = insert (auHeaderSecret (deAuthorization dest))
                       (insert (deHeaderSecret dest) secrets1)
      in destination_names dests (secrets2, cms1))"

fun filter_names ::
  "v1alpha1_DataFilter list \<Rightarrow> string set \<times> string set \<Rightarrow> string set \<times> string set" where
  "filter_names [] (secrets, cms) = (secrets, cms)"
| "filter_names (df # dfs) (secrets, cms) =
     (let cms1 = (case vtConfigMapKeyRef (vdTransformer df) of
                    None \<Rightarrow> cms | Some ref \<Rightarrow> insert (ksName ref) cms)
      in filter_names dfs (destination_names (vdAltDestinations df) (secrets, cms1)))"

text \<open>The two sets \<open>setSecretConfigMapList\<close> stores: secrets, then config maps.\<close>

definition setSecretConfigMapList :: "DataReporterConfigSpec \<Rightarrow> string set \<times> string set" where
  "setSecretConfigMapList spec =
     (let secretSet = (case spTLSConfig spec of
            None \<Rightarrow> {}
          | Some tc \<Rightarrow> certificate_secrets (tcCertificates tc) (cacert_secrets (tcCACerts tc) {}))
      in filter_names (spDataFilters spec) (secretSet, {}))"

record watch_sets =
  secretsSet :: "string set"
  configMapsSet :: "string set"

definition Exists :: "string set \<Rightarrow> string \<Rightarrow> bool" where
  "Exists w item \<longleftrightarrow> item \<in> w"

datatype kind = KDataReporterConfig | KMarketplaceConfig | KService | KConfigMap | KSecret
datatype event_kind = EvCreate | EvUpdate | EvDelete | EvGeneric

text \<open>The predicates of \<open>SetupWithManager\<close>: does an event on an object pass?\<close>

definition watch_predicate :: "watch_sets \<Rightarrow> kind \<Rightarrow> event_kind \<Rightarrow> string \<Rightarrow> bool" where
  "watch_predicate w k ev name =
     (if ev = EvGeneric then False
      else case k of
             KDataReporterConfig \<Rightarrow> name = DATAREPORTERCONFIG_NAME
           | KMarketplaceConfig \<Rightarrow> name = MARKETPLACECONFIG_NAME
           | KService \<Rightarrow> name = DATAREPORTER_SERVICE_NAME
           | KConfigMap \<Rightarrow> Exists (configMapsSet w) name
           | KSecret \<Rightarrow> Exists (secretsSet w) name)"

section \<open>Reconcile\<close>

definition ConditionNoLicense :: string where "ConditionNoLicense = ''NoLicense''"
definition ReasonLicenseNotAccepted :: string where "ReasonLicenseNotAccepted = ''LicenseNotAccepted''"
definition ConditionDataFilterInvalid :: string where "ConditionDataFilterInvalid = ''DataFilterInvalid''"
definition ReasonDataFilterInvalid :: string where "ReasonDataFilterInvalid = ''DataFilterInvalid''"

definition NoLicense_cond :: Condition where
  "NoLicense_cond = \<lparr>cType = ConditionNoLicense, cStatus = ConditionTrue, cReason = ReasonLicenseNotAccepted,
     cMessage = ''License has not been accepted in marketplaceconfig'', cLastTransitionTime = 0\<rparr>"

fun error_text :: "go_error \<Rightarrow> string" where
  "error_text (Err m) = m"
| "error_text (Panic m) = m"

definition DataFilterInvalid_cond :: "go_error \<Rightarrow> Condition" where
  "DataFilterInvalid_cond derr = \<lparr>cType = ConditionDataFilterInvalid, cStatus = ConditionTrue,
     cReason = ReasonDataFilterInvalid, cMessage = error_text derr, cLastTransitionTime = 0\<rparr>"

definition default_route :: RouteSpec where
  "default_route = \<lparr>rsToKind = ''Service'', rsToName = DATAREPORTER_SERVICE_NAME, rsTargetPort = 8443,
     rsTermination = ''reencrypt'', rsInsecureEdgePolicy = ''Redirect''\<rparr>"

datatype action =
    CreateConfig
  | UpdateStatus Conditions
  | ApplyService
  | ApplyRoute RouteSpec
  | DeleteRoute

text \<open>
  The API server during one reconcile. \<open>asMarketplace\<close> is the accept flag of the
  marketplace configuration or the error of its get; \<open>asGet i\<close> the specification the
  \<open>i\<close>-th get of the resource returns; \<open>asWrite\<close> the outcome of a status write. The
  results of the conflict-retried calls are those of their last attempt.
\<close>

record api_server =
  asMarketplace :: "bool option result"
  asGet :: "nat \<Rightarrow> DataReporterConfigSpec result"
  asIsNotFound :: "go_error \<Rightarrow> bool"
  asCreate :: "go_error option"
  asWrite :: "nat \<Rightarrow> go_error option"
  asApplyService :: "go_error option"
  asApplyRoute :: "go_error option"
  asDeleteRoute :: "go_error option"
  asNow :: go_time

record ('expr, 'kz, 'url, 'pool, 'cert) reconciler =
  rcLicenseAccept :: bool
  rcUserConfigs :: UserConfigs
  rcDataFilters :: "('expr, 'kz, 'url, 'pool, 'cert) DataFilters"
  rcWatch :: watch_sets
  rcConditions :: Conditions

text \<open>
  A status block: get the resource, change its conditions, write them if they changed. The
  refreshed specification replaces the one read before.
\<close>

definition status_block ::
  "api_server \<Rightarrow> nat \<Rightarrow> (Conditions \<Rightarrow> Conditions \<times> bool) \<Rightarrow> Conditions \<Rightarrow>
     (DataReporterConfigSpec \<times> Conditions \<times> action list) result" where
  "status_block A i change conds =
     (case asGet A i of
        Inl err \<Rightarrow> Inl err
      | Inr spec \<Rightarrow>
          (let (conds', changed) = change conds in
           if changed then
             (case asWrite A i of
                Some err \<Rightarrow> Inl err
              | None \<Rightarrow> Inr (spec, conds', [UpdateStatus conds']))
           else Inr (spec, conds, [])))"

text \<open>The license: read it from the marketplace configuration, keep the old one on an error.\<close>

definition reconcile_license :: "api_server \<Rightarrow> bool \<Rightarrow> bool" where
  "reconcile_license A old = (case asMarketplace A of Inl err \<Rightarrow> old | Inr accept \<Rightarrow> ToBool accept)"

definition license_change :: "go_time \<Rightarrow> bool \<Rightarrow> Conditions \<Rightarrow> Conditions \<times> bool" where
  "license_change now accepted conds =
     (if accepted then RemoveCondition ConditionNoLicense conds
      else SetCondition now NoLicense_cond conds)"

definition filters_change :: "go_time \<Rightarrow> go_error option \<Rightarrow> Conditions \<Rightarrow> Conditions \<times> bool" where
  "filters_change now derr conds =
     (case derr of
        Some err \<Rightarrow> SetCondition now (DataFilterInvalid_cond err) conds
      | None \<Rightarrow> RemoveCondition ReasonDataFilterInvalid conds)"

text \<open>The route step: its action, and the error it returns.\<close>

definition reconcile_route :: "api_server \<Rightarrow> DataReporterConfigSpec \<Rightarrow> action \<times> go_error option" where
  "reconcile_route A spec =
     (let routeSpec = (case spRoute spec of
            None \<Rightarrow> default_route
          | Some r \<Rightarrow> (case roSpec r of None \<Rightarrow> default_route | Some s \<Rightarrow> s));
          createRoute = (case spRoute spec of None \<Rightarrow> True | Some r \<Rightarrow> \<not> ToBool (roDisabled r))
      in if createRoute then (ApplyRoute routeSpec, asApplyRoute A)
         else (DeleteRoute,
               case asDeleteRoute A of
                 None \<Rightarrow> None
               | Some err \<Rightarrow> if \<not> asIsNotFound A err then Some err else None))"

text \<open>From the build of the filters to the end. A panic of the build ends the reconcile.\<close>

fun panics :: "go_error option \<Rightarrow> bool" where
  "panics (Some (Panic m)) = True"
| "panics _ = False"

definition reconcile_filters ::
  "('expr, 'obj, 'kz, 'url) libs \<Rightarrow> ('pool, 'cert) tls_libs \<Rightarrow> (smap \<Rightarrow> string list) \<Rightarrow> kube \<Rightarrow> string \<Rightarrow>
     api_server \<Rightarrow> DataReporterConfigSpec \<Rightarrow> action list \<Rightarrow>
     ('expr, 'kz, 'url, 'pool, 'cert) reconciler \<Rightarrow>
     ('expr, 'kz, 'url, 'pool, 'cert) reconciler \<times> action list \<times> go_error option" where
  "reconcile_filters L T order k ns A spec acts s =
     (let (d', derr) = Build L T order k ns spec (rcDataFilters s);
          s1 = s\<lparr>rcDataFilters := d'\<rparr>
      in if panics derr then (s1, acts, derr)
         else case status_block A 2 (filters_change (asNow A) derr) (rcConditions s) of
           Inl err \<Rightarrow> (s1, acts, Some err)
         | Inr (spec', conds', acts') \<Rightarrow> (s1\<lparr>rcConditions := conds'\<rparr>, acts @ acts', None))"

definition Reconcile ::
  "('expr, 'obj, 'kz, 'url) libs \<Rightarrow> ('pool, 'cert) tls_libs \<Rightarrow> (smap \<Rightarrow> string list) \<Rightarrow> kube \<Rightarrow> string \<Rightarrow>
     api_server \<Rightarrow> ('expr, 'kz, 'url, 'pool, 'cert) reconciler \<Rightarrow>
     ('expr, 'kz, 'url, 'pool, 'cert) reconciler \<times> action list \<times> go_error option" where
  "Reconcile L T order k ns A s =
     (let s0 = s\<lparr>rcLicenseAccept := reconcile_license A (rcLicenseAccept s)\<rparr>
      in case asGet A 0 of
           Inl err \<Rightarrow>
             (if asIsNotFound A err then
                (case asCreate A of
                   Some cerr \<Rightarrow> (s0, [], Some cerr)
                 | None \<Rightarrow> (s0, [CreateConfig], Some err))
              else (s0, [], Some err))
         | Inr spec0 \<Rightarrow>
             (let (secrets, cms) = setSecretConfigMapList spec0;
                  s1 = s0\<lparr>rcWatch := \<lparr>secretsSet = secrets, configMapsSet = cms\<rparr>\<rparr>
              in case status_block A 1 (license_change (asNow A) (rcLicenseAccept s1)) (rcConditions s1) of
                   Inl err \<Rightarrow> (s1, [], Some err)
                 | Inr (spec, conds, acts) \<Rightarrow>
                     (let s2 = s1\<lparr>rcConditions := conds\<rparr>
                      in case SetUserConfigs (rcUserConfigs s2) (spUserConfigs spec) of
                           None \<Rightarrow> (s2, acts, Some (Panic ''blocked on the user configuration lock''))
                         | Some ucs \<Rightarrow>
                             (let s3 = s2\<lparr>rcUserConfigs := ucs\<rparr>
                              in case asApplyService A of
                                   Some err \<Rightarrow> (s3, acts @ [ApplyService], Some err)
                                 | None \<Rightarrow>
                                     (case reconcile_route A spec of
                                        (ract, Some err) \<Rightarrow> (s3, acts @ [ApplyService, ract], Some err)
                                      | (ract, None) \<Rightarrow>
                                          reconcile_filters L T order k ns A spec
                                            (acts @ [ApplyService, ract]) s3)))))"

section \<open>The watch sets cover what a build reads\<close>

lemma certificate_secrets_iff:
  "x \<in> certificate_secrets certs s \<longleftrightarrow>
     x \<in> s \<or> (\<exists>c\<in>set certs. (\<exists>r. (ctClientCert c = Some r \<or> ctClientKey c = Some r) \<and> x = ksName r))"
  by (induction certs s rule: certificate_secrets.induct) (auto simp: Let_def split: option.splits)

lemma cacert_secrets_iff: "x \<in> cacert_secrets cs s \<longleftrightarrow> x \<in> s \<or> x \<in> ksName ` set cs"
  by (induction cs s rule: cacert_secrets.induct) auto

definition dest_secrets :: "v1alpha1_Destination \<Rightarrow> string set" where
  "dest_secrets dest = {deHeaderSecret dest, auHeaderSecret (deAuthorization dest)} \<union>
     (case auBodyData (deAuthorization dest) of None \<Rightarrow> {} | Some ref \<Rightarrow> {ksName ref})"

definition ref_name :: "KeySelector option \<Rightarrow> string set" where
  "ref_name r = (case r of None \<Rightarrow> {} | Some ref \<Rightarrow> {ksName ref})"

lemma destination_names_eq:
  "destination_names dests (secrets, cms) =
     (secrets \<union> \<Union> (dest_secrets ` set dests),
      cms \<union> \<Union> ((ref_name \<circ> vtConfigMapKeyRef \<circ> deTransformer) ` set dests))"
  by (induction dests arbitrary: secrets cms)
     (auto simp: Let_def dest_secrets_def ref_name_def split: option.splits)

lemma filter_names_eq:
  "filter_names dfs (secrets, cms) =
     (secrets \<union> \<Union> ((\<lambda>df. \<Union> (dest_secrets ` set (vdAltDestinations df))) ` set dfs),
      cms \<union> \<Union> ((\<lambda>df. ref_name (vtConfigMapKeyRef (vdTransformer df)) \<union>
                     \<Union> ((ref_name \<circ> vtConfigMapKeyRef \<circ> deTransformer) ` set (vdAltDestinations df))) ` set dfs))"
  by (induction dfs arbitrary: secrets cms)
     (auto simp: Let_def destination_names_eq ref_name_def split: option.splits)

text \<open>Two clients that answer alike on the given names.\<close>

definition same_objects :: "string \<Rightarrow> string set \<Rightarrow> string set \<Rightarrow> kube \<Rightarrow> kube \<Rightarrow> bool" where
  "same_objects ns secrets cms k k' \<longleftrightarrow>
     (\<forall>n\<in>secrets. kSecret k ns n = kSecret k' ns n) \<and>
     (\<forall>n\<in>cms. kConfigMap k ns n = kConfigMap k' ns n)"

lemma same_objects_subset:
  "same_objects ns S C k k' \<Longrightarrow> S' \<subseteq> S \<Longrightarrow> C' \<subseteq> C \<Longrightarrow> same_objects ns S' C' k k'"
  by (auto simp: same_objects_def)

lemma getSecretData_same:
  "same_objects ns S C k k' \<Longrightarrow> ksName ref \<in> S \<Longrightarrow> getSecretData k ns ref = getSecretData k' ns ref"
  by (simp add: same_objects_def getSecretData_def)

lemma getConfigMapData_same:
  "same_objects ns S C k k' \<Longrightarrow> ref_name r \<subseteq> C \<Longrightarrow> getConfigMapData k ns r = getConfigMapData k' ns r"
  by (auto simp: same_objects_def getConfigMapData_def ref_name_def split: option.splits)

lemma buildDestination_same:
  assumes "same_objects ns S C k k'" "dest_secrets dest \<subseteq> S"
    and "ref_name (vtConfigMapKeyRef (deTransformer dest)) \<subseteq> C"
  shows "buildDestination L order k ns ft dest = buildDestination L order k' ns ft dest"
proof -
  have "getMapFromSecret k ns (deHeaderSecret dest) = getMapFromSecret k' ns (deHeaderSecret dest)"
    "getMapFromSecret k ns (auHeaderSecret (deAuthorization dest)) =
     getMapFromSecret k' ns (auHeaderSecret (deAuthorization dest))"
    using assms by (auto simp: same_objects_def dest_secrets_def getMapFromSecret_def)
  moreover have "(case auBodyData (deAuthorization dest) of None \<Rightarrow> Inr [] | Some ref \<Rightarrow> getSecretData k ns ref) =
      (case auBodyData (deAuthorization dest) of None \<Rightarrow> Inr [] | Some ref \<Rightarrow> getSecretData k' ns ref)"
    using assms getSecretData_same by (auto simp: dest_secrets_def split: option.splits)
  moreover note getConfigMapData_same [OF assms(1,3)]
  ultimately show ?thesis by (simp add: buildDestination_def cong: sum.case_cong)
qed

lemma buildDestinations_same:
  assumes "same_objects ns S C k k'" "\<Union> (dest_secrets ` set dests) \<subseteq> S"
    and "\<Union> ((ref_name \<circ> vtConfigMapKeyRef \<circ> deTransformer) ` set dests) \<subseteq> C"
  shows "buildDestinations L order k ns ft dests = buildDestinations L order k' ns ft dests"
  using assms(2,3)
proof (induction dests)
  case (Cons dest dests)
  have "buildDestination L order k ns ft dest = buildDestination L order k' ns ft dest"
    using Cons.prems by (intro buildDestination_same [OF assms(1)]) auto
  with Cons show ?case by (simp cong: sum.case_cong)
qed simp

lemma updateDataFilters_loop_same:
  assumes "same_objects ns S C k k'" "fst (filter_names dfs (S0, C0)) \<subseteq> S" "snd (filter_names dfs (S0, C0)) \<subseteq> C"
  shows "updateDataFilters_loop L order k ns dfs = updateDataFilters_loop L order k' ns dfs"
  using assms(2,3)
proof (induction dfs arbitrary: S0 C0)
  case (Cons df dfs)
  note sub = Cons.prems [unfolded filter_names_eq, simplified]
  have "buildDestinations L order k ns ft (vdAltDestinations df) =
        buildDestinations L order k' ns ft (vdAltDestinations df)" for ft
    using sub by (intro buildDestinations_same [OF assms(1)]) auto
  moreover have "getConfigMapData k ns (vtConfigMapKeyRef (vdTransformer df)) =
                 getConfigMapData k' ns (vtConfigMapKeyRef (vdTransformer df))"
    using sub by (intro getConfigMapData_same [OF assms(1)]) auto
  moreover have "updateDataFilters_loop L order k ns dfs = updateDataFilters_loop L order k' ns dfs"
    using sub by (intro Cons.IH [of S0 C0]) (auto simp: filter_names_eq)
  ultimately show ?case by (simp add: buildDataFilter_def cong: sum.case_cong)
qed simp

lemma addCACerts_same:
  assumes "same_objects ns S C k k'" "ksName ` set cs \<subseteq> S"
  shows "addCACerts T k ns cs pool = addCACerts T k' ns cs pool"
  using assms(2)
proof (induction cs arbitrary: pool)
  case (Cons c cs)
  then show ?case using getSecretData_same [OF assms(1), of c]
    by (auto split: sum.splits option.splits)
qed simp

lemma clientCertificates_same:
  assumes "same_objects ns S C k k'" "certificate_secrets certs S0 \<subseteq> S"
  shows "clientCertificates T k ns certs = clientCertificates T k' ns certs"
  using assms(2)
proof (induction certs arbitrary: S0)
  case (Cons c certs)
  have names: "\<And>r. ctClientCert c = Some r \<or> ctClientKey c = Some r \<Longrightarrow> ksName r \<in> S"
    using Cons.prems certificate_secrets_iff [of _ "c # certs" S0] by fastforce
  have "clientCertificates T k ns certs = clientCertificates T k' ns certs"
    using Cons.prems by (intro Cons.IH) (simp add: Let_def)
  then show ?case
    using names getSecretData_same [OF assms(1)]
    by (cases "ctClientCert c"; cases "ctClientKey c") (simp_all cong: sum.case_cong)
qed simp

text \<open>
  C14: A rebuild of the data filters reads nothing but the secrets and config maps whose
  names the controller watches: for two cluster states that agree on them, \<open>Build\<close>
  gives the same filters, TLS settings and error. So ignoring events on every other
  object, as the watch predicates do, never leaves stale filters behind.
\<close>
theorem Build_reads_watched_only:
  assumes "same_objects ns (fst (setSecretConfigMapList spec)) (snd (setSecretConfigMapList spec)) k k'"
  shows "Build L T order k ns spec d = Build L T order k' ns spec d"
proof -
  obtain S C where SC: "setSecretConfigMapList spec = (S, C)" by fastforce
  with assms have same: "same_objects ns S C k k'" by simp
  obtain S0 where S0: "filter_names (spDataFilters spec) (S0, {}) = (S, C)"
    and tls: "\<And>tc. spTLSConfig spec = Some tc \<Longrightarrow>
          S0 = certificate_secrets (tcCertificates tc) (cacert_secrets (tcCACerts tc) {})"
    using SC by (fastforce simp: setSecretConfigMapList_def Let_def split: option.splits)
  have sub: "S0 \<subseteq> S" using S0 by (auto simp: filter_names_eq)
  have "updateDataFilters_loop L order k ns (spDataFilters spec) =
        updateDataFilters_loop L order k' ns (spDataFilters spec)"
    using S0 by (intro updateDataFilters_loop_same [OF same, of _ S0 "{}"]) simp_all
  then have filters: "updateDataFilters L order k ns spec = updateDataFilters L order k' ns spec"
    by (intro ext) (simp add: updateDataFilters_def)
  have "getTLSConfig T k ns spec = getTLSConfig T k' ns spec"
  proof (cases "spTLSConfig spec")
    case (Some tc)
    have "ksName ` set (tcCACerts tc) \<subseteq> S"
      using sub tls [OF Some] by (auto simp: certificate_secrets_iff cacert_secrets_iff)
    moreover have "certificate_secrets (tcCertificates tc) (cacert_secrets (tcCACerts tc) {}) \<subseteq> S"
      using sub tls [OF Some] by simp
    ultimately show ?thesis
      using Some by (simp add: getTLSConfig_def addCACerts_same [OF same] clientCertificates_same [OF same] cong: sum.case_cong)
  qed (simp add: getTLSConfig_def)
  then have client: "updateHttpClient T k ns spec = updateHttpClient T k' ns spec"
    by (intro ext) (simp add: updateHttpClient_def cong: transport.case_cong)
  show ?thesis unfolding Build_def filters client ..
qed

theorem Build_reads_watched_only_witness:
  "Build demo_libs demo_tls (\<lambda>_. []) (demo_kube\<lparr>kSecret := (\<lambda>_ _. Inr Map.empty)\<rparr>) ''ns''
       (demo_spec [demo_filter]) demo_filters =
     Build demo_libs demo_tls (\<lambda>_. []) demo_kube ''ns'' (demo_spec [demo_filter]) demo_filters \<and>
   snd (setSecretConfigMapList (demo_spec [demo_filter])) = {''cm''}"
  by (intro conjI Build_reads_watched_only)
     (simp_all add: same_objects_def setSecretConfigMapList_def demo_spec_def demo_filter_def demo_kube_def)

section \<open>What a reconcile leaves behind\<close>

lemma status_block_InrD:
  assumes "status_block A i change conds = Inr (spec, conds', acts)"
    and "\<not> snd (change conds) \<Longrightarrow> fst (change conds) = conds"
  shows "asGet A i = Inr spec \<and> conds' = fst (change conds) \<and>
         acts = (if snd (change conds) then [UpdateStatus conds'] else [])"
  using assms by (auto simp: status_block_def split: sum.splits prod.splits option.splits if_splits)

lemma unchanged_SetCondition: "\<not> snd (SetCondition_loop c conds) \<Longrightarrow> fst (SetCondition_loop c conds) = conds"
  by (induction conds) (auto simp: Let_def split: if_splits prod.splits)

lemma unchanged_RemoveCondition: "\<not> snd (RemoveCondition t conds) \<Longrightarrow> fst (RemoveCondition t conds) = conds"
  by (induction conds) (auto split: if_splits prod.splits)

lemma license_change_get:
  assumes "types_distinct conds"
  shows "GetCondition (fst (license_change now acc conds)) t =
     (if t = ConditionNoLicense then (if acc then None else GetCondition (fst (license_change now acc conds)) t)
      else GetCondition conds t)"
    "GetCondition (fst (license_change now acc conds)) ConditionNoLicense = None \<longleftrightarrow> acc"
    "types_distinct (fst (license_change now acc conds))"
    "\<not> snd (license_change now acc conds) \<Longrightarrow> fst (license_change now acc conds) = conds"
  using assms
  by (auto simp: license_change_def remove_get SetCondition_def set_loop_get NoLicense_cond_def
      set_loop_distinct remove_distinct
      intro: unchanged_RemoveCondition unchanged_SetCondition)

lemma filters_change_get:
  assumes "types_distinct conds"
  shows "t \<noteq> ConditionDataFilterInvalid \<Longrightarrow>
     GetCondition (fst (filters_change now derr conds)) t = GetCondition conds t"
    "GetCondition (fst (filters_change now derr conds)) ConditionDataFilterInvalid = None \<longleftrightarrow> derr = None"
    "types_distinct (fst (filters_change now derr conds))"
    "\<not> snd (filters_change now derr conds) \<Longrightarrow> fst (filters_change now derr conds) = conds"
  using assms
  by (auto simp: filters_change_def remove_get SetCondition_def set_loop_get DataFilterInvalid_cond_def
      ConditionDataFilterInvalid_def ReasonDataFilterInvalid_def set_loop_distinct remove_distinct
      intro: unchanged_RemoveCondition unchanged_SetCondition
      split: option.splits)

lemma Reconcile_okE:
  assumes "Reconcile L T order k ns A s = (s', acts, None)"
  obtains spec0 spec spec' conds acts1 acts2 ucs ract d' derr conds' where
    "asGet A 0 = Inr spec0"
    "status_block A 1 (license_change (asNow A) (reconcile_license A (rcLicenseAccept s))) (rcConditions s) =
       Inr (spec, conds, acts1)"
    "SetUserConfigs (rcUserConfigs s) (spUserConfigs spec) = Some ucs"
    "asApplyService A = None" "reconcile_route A spec = (ract, None)"
    "Build L T order k ns spec (rcDataFilters s) = (d', derr)" "\<not> panics derr"
    "status_block A 2 (filters_change (asNow A) derr) conds = Inr (spec', conds', acts2)"
    "s' = \<lparr>rcLicenseAccept = reconcile_license A (rcLicenseAccept s), rcUserConfigs = ucs, rcDataFilters = d',
       rcWatch = \<lparr>secretsSet = fst (setSecretConfigMapList spec0), configMapsSet = snd (setSecretConfigMapList spec0)\<rparr>,
       rcConditions = conds'\<rparr>"
    "acts = acts1 @ [ApplyService, ract] @ acts2"
  using assms
  by (cases s) (auto simp: Reconcile_def reconcile_filters_def Let_def
      split: sum.splits prod.splits option.splits if_splits)

text \<open>The two status blocks together.\<close>

lemma reconcile_conditions:
  assumes "types_distinct conds0"
    and lic: "status_block A 1 (license_change now acc) conds0 = Inr (spec, conds, acts1)"
    and fil: "status_block A 2 (filters_change now derr) conds = Inr (spec', conds', acts2)"
  shows "asGet A 1 = Inr spec" "types_distinct conds'"
    "GetCondition conds' ConditionNoLicense = None \<longleftrightarrow> acc"
    "GetCondition conds' ConditionDataFilterInvalid = None \<longleftrightarrow> derr = None"
    "t \<notin> {ConditionNoLicense, ConditionDataFilterInvalid} \<Longrightarrow> GetCondition conds' t = GetCondition conds0 t"
proof -
  note licg = license_change_get [OF assms(1), where now = now and acc = acc]
  from status_block_InrD [OF lic licg(4)]
  have 1: "asGet A 1 = Inr spec" "conds = fst (license_change now acc conds0)" by simp_all
  note filg = filters_change_get [OF licg(3), folded 1(2), where now = now and derr = derr]
  from status_block_InrD [OF fil filg(4)]
  have 2: "conds' = fst (filters_change now derr conds)" by simp
  have ne: "ConditionNoLicense \<noteq> ConditionDataFilterInvalid"
    by (simp add: ConditionNoLicense_def ConditionDataFilterInvalid_def)
  show "asGet A 1 = Inr spec" by (rule 1)
  show "t \<notin> {ConditionNoLicense, ConditionDataFilterInvalid} \<Longrightarrow> GetCondition conds' t = GetCondition conds0 t"
    using licg(1) [of t] filg(1) [of t] by (simp add: 2 1(2) [symmetric])
  show "GetCondition conds' ConditionNoLicense = None \<longleftrightarrow> acc"
    using licg(2) filg(1) [OF ne] by (simp add: 2 1(2) [symmetric])
  show "types_distinct conds'" "GetCondition conds' ConditionDataFilterInvalid = None \<longleftrightarrow> derr = None"
    by (simp_all add: 2 filg(2,3))
qed

text \<open>The route that a specification asks for.\<close>

definition route_enabled :: "DataReporterConfigSpec \<Rightarrow> bool" where
  "route_enabled spec \<longleftrightarrow> (\<forall>r. spRoute spec = Some r \<longrightarrow> roDisabled r \<noteq> Some True)"

lemma reconcile_route_action:
  "fst (reconcile_route A spec) =
     (if route_enabled spec
      then ApplyRoute (case Option.bind (spRoute spec) roSpec of None \<Rightarrow> default_route | Some rs \<Rightarrow> rs)
      else DeleteRoute)"
  by (auto simp: reconcile_route_def route_enabled_def Let_def ToBool_def split: option.splits)

text \<open>
  C15: A reconcile that returns no error has brought the state in line with the cluster:
  the license flag is the marketplace configuration's, or the old one when that cannot be
  read; the condition \<open>NoLicense\<close> is present exactly when the license is not
  accepted, and \<open>DataFilterInvalid\<close> exactly when the build of the filters failed; all
  other conditions are as before; the user configurations, the filters and the watch sets
  are those of the resource; and the service is applied before the route is applied or,
  when the resource disables it, deleted.
\<close>
theorem Reconcile_ok_state:
  assumes "Reconcile L T order k ns A s = (s', acts, None)" and "types_distinct (rcConditions s)"
  shows "\<exists>spec0 spec derr pre post.
     asGet A 0 = Inr spec0 \<and> asGet A 1 = Inr spec \<and>
     rcLicenseAccept s' = (case asMarketplace A of Inl err \<Rightarrow> rcLicenseAccept s | Inr acc \<Rightarrow> acc = Some True) \<and>
     (GetCondition (rcConditions s') ConditionNoLicense = None \<longleftrightarrow> rcLicenseAccept s') \<and>
     Build L T order k ns spec (rcDataFilters s) = (rcDataFilters s', derr) \<and>
     (GetCondition (rcConditions s') ConditionDataFilterInvalid = None \<longleftrightarrow> derr = None) \<and>
     (\<forall>t. t \<notin> {ConditionNoLicense, ConditionDataFilterInvalid} \<longrightarrow>
        GetCondition (rcConditions s') t = GetCondition (rcConditions s) t) \<and>
     types_distinct (rcConditions s') \<and>
     userConfigs (rcUserConfigs s') = spUserConfigs spec \<and>
     (secretsSet (rcWatch s'), configMapsSet (rcWatch s')) = setSecretConfigMapList spec0 \<and>
     acts = pre @ [ApplyService,
       if route_enabled spec
       then ApplyRoute (case Option.bind (spRoute spec) roSpec of None \<Rightarrow> default_route | Some rs \<Rightarrow> rs)
       else DeleteRoute] @ post"
proof -
  let ?acc = "reconcile_license A (rcLicenseAccept s)"
  obtain spec0 spec spec' conds acts1 acts2 ucs ract d' derr conds' where
    get0: "asGet A 0 = Inr spec0"
    and lic: "status_block A 1 (license_change (asNow A) ?acc) (rcConditions s) = Inr (spec, conds, acts1)"
    and ucs: "SetUserConfigs (rcUserConfigs s) (spUserConfigs spec) = Some ucs"
    and route: "reconcile_route A spec = (ract, None)"
    and build: "Build L T order k ns spec (rcDataFilters s) = (d', derr)"
    and fil: "status_block A 2 (filters_change (asNow A) derr) conds = Inr (spec', conds', acts2)"
    and s': "s' = \<lparr>rcLicenseAccept = ?acc, rcUserConfigs = ucs, rcDataFilters = d',
       rcWatch = \<lparr>secretsSet = fst (setSecretConfigMapList spec0), configMapsSet = snd (setSecretConfigMapList spec0)\<rparr>,
       rcConditions = conds'\<rparr>"
    and acts: "acts = acts1 @ [ApplyService, ract] @ acts2"
    by (rule Reconcile_okE [OF assms(1)])
  note conds = reconcile_conditions [OF assms(2) lic fil]
  have "ract = (if route_enabled spec
       then ApplyRoute (case Option.bind (spRoute spec) roSpec of None \<Rightarrow> default_route | Some rs \<Rightarrow> rs)
       else DeleteRoute)"
    using reconcile_route_action [of A spec] route by simp
  moreover have "userConfigs ucs = spUserConfigs spec"
    using ucs by (auto simp: SetUserConfigs_def split: if_splits)
  moreover have "?acc = (case asMarketplace A of Inl err \<Rightarrow> rcLicenseAccept s | Inr acc \<Rightarrow> acc = Some True)"
    by (simp add: reconcile_license_def ToBool_def split: sum.split option.split)
  ultimately show ?thesis
    using get0 conds build acts
    by (intro exI [of _ spec0] exI [of _ spec] exI [of _ derr] exI [of _ acts1] exI [of _ acts2] conjI)
       (simp_all add: s')
qed

definition demo_cluster :: api_server where
  "demo_cluster = \<lparr>asMarketplace = Inr (Some True), asGet = (\<lambda>_. Inr (demo_spec [])),
     asIsNotFound = (\<lambda>_. False), asCreate = None, asWrite = (\<lambda>_. None), asApplyService = None,
     asApplyRoute = None, asDeleteRoute = None, asNow = 3\<rparr>"

definition demo_reconciler :: "(string, unit, string, unit, unit) reconciler" where
  "demo_reconciler = \<lparr>rcLicenseAccept = False, rcUserConfigs = \<lparr>userConfigs = [], readers = 0\<rparr>,
     rcDataFilters = demo_filters, rcWatch = \<lparr>secretsSet = {}, configMapsSet = {}\<rparr>,
     rcConditions = [NoLicense_cond]\<rparr>"

theorem Reconcile_ok_state_witness:
  "\<exists>s' acts. Reconcile demo_libs demo_tls (\<lambda>_. []) demo_kube ''ns'' demo_cluster demo_reconciler = (s', acts, None) \<and>
     rcLicenseAccept s' \<and> GetCondition (rcConditions s') ConditionNoLicense = None"
proof -
  obtain s' acts where
    r: "Reconcile demo_libs demo_tls (\<lambda>_. []) demo_kube ''ns'' demo_cluster demo_reconciler = (s', acts, None)"
    by (simp add: Reconcile_def demo_cluster_def demo_reconciler_def demo_spec_def setSecretConfigMapList_def
        status_block_def license_change_def NoLicense_cond_def reconcile_license_def SetUserConfigs_def
        reconcile_route_def reconcile_filters_def build_defs demo_filters_def filters_change_def Let_def)
  have "types_distinct (rcConditions demo_reconciler)"
    by (simp add: demo_reconciler_def types_distinct_def)
  from Reconcile_ok_state [OF r this] r show ?thesis
    by (auto simp: demo_cluster_def)
qed

end
