(* ===== verification/MeterReports.thy ===== *)
theory MeterReports
  imports Conditions
begin

text \<open>
  The meter report resource (\<open>v2/api/marketplace/v1alpha1/meterreport_types.go\<close>): the
  upload details per target and the status of a report. The pointers in a list of upload
  details are never nil, so that the list holds the details themselves.
\<close>

section \<open>Upload details\<close>

definition UploadStatusSuccess :: string where "UploadStatusSuccess = ''success''"
definition UploadStatusFailure :: string where "UploadStatusFailure = ''failure''"

record UploadDetails =
  udTarget :: string
  udID :: string
  udStatus :: string
  udError :: string

type_synonym UploadDetailConditions = "UploadDetails list"

definition Success :: "UploadDetails \<Rightarrow> bool" where
  "Success u \<longleftrightarrow> udStatus u = UploadStatusSuccess"

fun uploads_Set :: "UploadDetails \<Rightarrow> UploadDetailConditions \<Rightarrow> UploadDetailConditions" where
  "uploads_Set cond [] = [cond]"
| "uploads_Set cond (c # cs) = (if udTarget c = udTarget cond then cond # cs else c # uploads_Set cond cs)"

fun uploads_Append :: "UploadDetailConditions \<Rightarrow> UploadDetailConditions \<Rightarrow> UploadDetailConditions" where
  "uploads_Append u [] = u"
| "uploads_Append u (c # cs) = uploads_Append (uploads_Set c u) cs"

fun uploads_Get :: "UploadDetailConditions \<Rightarrow> string \<Rightarrow> UploadDetails option" where
  "uploads_Get [] target = None"
| "uploads_Get (c # cs) target = (if udTarget c = target then Some c else uploads_Get cs target)"

fun OneSuccessOf :: "UploadDetailConditions \<Rightarrow> string list \<Rightarrow> bool" where
  "OneSuccessOf u [] = False"
| "OneSuccessOf u (target # targets) =
     (case uploads_Get u target of
        None \<Rightarrow> OneSuccessOf u targets
      | Some status \<Rightarrow>
          (if udTarget status = target \<and> udStatus status = UploadStatusSuccess then True
           else OneSuccessOf u targets))"

fun AllSuccesses_loop :: "UploadDetailConditions \<Rightarrow> bool" where
  "AllSuccesses_loop [] = True"
| "AllSuccesses_loop (c # cs) = (if \<not> Success c then False else AllSuccesses_loop cs)"

definition AllSuccesses :: "UploadDetailConditions \<Rightarrow> bool" where
  "AllSuccesses u = (if length u = 0 then False else AllSuccesses_loop u)"

text \<open>The error of the first target that did not succeed.\<close>

fun uploads_Errors :: "UploadDetailConditions \<Rightarrow> go_error option" where
  "uploads_Errors [] = None"
| "uploads_Errors (c # cs) =
     (if \<not> Success c then Some (Err (''target:'' @ udTarget c @ '' error:'' @ udError c)) else uploads_Errors cs)"

section \<open>The report\<close>

record ErrorDetails =
  edReason :: string
  edDetails :: smap

record MeterReportStatus =
  msConditions :: Conditions
  msUploadStatus :: UploadDetailConditions
  msMetricUploadCount :: "int option"
  msRetryUpload :: int
  msDataServiceStatus :: "UploadDetails option"
  msErrors :: "ErrorDetails list"
  msWarnings :: "ErrorDetails list"

record MeterReport =
  mrName :: string
  mrStartTime :: go_time
  mrEndTime :: go_time
  mrStatus :: MeterReportStatus

definition ReportConditionTypeStorageStatus :: string where "ReportConditionTypeStorageStatus = ''Stored''"
definition ReportConditionTypeUploadStatus :: string where "ReportConditionTypeUploadStatus = ''Uploaded''"

definition IsStored :: "MeterReportStatus \<Rightarrow> bool" where
  "IsStored stat =
     (case GetCondition (msConditions stat) ReportConditionTypeStorageStatus of None \<Rightarrow> False | Some c \<Rightarrow> IsTrue c)"

definition IsUploaded :: "MeterReportStatus \<Rightarrow> bool" where
  "IsUploaded stat =
     (case GetCondition (msConditions stat) ReportConditionTypeUploadStatus of None \<Rightarrow> False | Some c \<Rightarrow> IsTrue c)"

definition upload_condition :: "string \<Rightarrow> string \<Rightarrow> string \<Rightarrow> Condition" where
  "upload_condition st reason msg = \<lparr>cType = ReportConditionTypeUploadStatus, cStatus = st, cReason = reason,
     cMessage = msg, cLastTransitionTime = 0\<rparr>"

definition ReportConditionUploadStatusFinished :: Condition where
  "ReportConditionUploadStatusFinished = upload_condition ConditionTrue ''Finished'' []"
definition ReportConditionUploadStatusUnknown :: Condition where
  "ReportConditionUploadStatusUnknown = upload_condition ConditionUnknown ''NotStarted'' []"
definition ReportConditionUploadStatusErrored :: Condition where
  "ReportConditionUploadStatusErrored = upload_condition ConditionFalse ''Errored'' []"
definition ReportConditionJobIsDisconnected :: Condition where
  "ReportConditionJobIsDisconnected = upload_condition ConditionFalse ''Disconn''
     ''Report is running in a disconnected environment''"
definition ReportConditionJobHasNoData :: Condition where
  "ReportConditionJobHasNoData = upload_condition ConditionFalse ''NoData'' ''Report has no data''"
definition ReportConditionJobSkipped :: Condition where
  "ReportConditionJobSkipped = upload_condition ConditionFalse ''Skipped'' []"
definition ReportConditionFailedAttempts :: Condition where
  "ReportConditionFailedAttempts = upload_condition ConditionFalse ''MaxRetries'' []"

definition ReportConditionJobErrored :: Condition where
  "ReportConditionJobErrored = \<lparr>cType = ''JobRunning'', cStatus = ConditionFalse, cReason = ''Errored'',
     cMessage = ''Job has errored'', cLastTransitionTime = 0\<rparr>"

definition storage_condition :: "string \<Rightarrow> string \<Rightarrow> Condition" where
  "storage_condition st reason = \<lparr>cType = ReportConditionTypeStorageStatus, cStatus = st, cReason = reason,
     cMessage = [], cLastTransitionTime = 0\<rparr>"

definition ReportConditionStorageStatusFinished :: Condition where
  "ReportConditionStorageStatusFinished = storage_condition ConditionTrue ''Finished''"
definition ReportConditionStorageStatusUnknown :: Condition where
  "ReportConditionStorageStatusUnknown = storage_condition ConditionUnknown ''NotStarted''"
definition ReportConditionStorageStatusErrored :: Condition where
  "ReportConditionStorageStatusErrored = storage_condition ConditionFalse ''Errored''"

section \<open>Upload details are a keyed store\<close>

definition targets_distinct :: "UploadDetailConditions \<Rightarrow> bool" where
  "targets_distinct u \<longleftrightarrow> distinct (map udTarget u)"

definition upload_view :: "UploadDetailConditions \<Rightarrow> string \<Rightarrow> (string \<times> string \<times> string) option" where
  "upload_view u t = map_option (\<lambda>d. (udID d, udStatus d, udError d)) (uploads_Get u t)"

definition put_upload ::
  "string \<Rightarrow> string \<times> string \<times> string \<Rightarrow> UploadDetailConditions \<Rightarrow> UploadDetailConditions" where
  "put_upload t v u = uploads_Set \<lparr>udTarget = t, udID = fst v, udStatus = fst (snd v), udError = snd (snd v)\<rparr> u"

lemma uploads_Set_targets: "set (map udTarget (uploads_Set c u)) = insert (udTarget c) (set (map udTarget u))"
  by (induction u) auto

lemma uploads_Set_distinct: "targets_distinct u \<Longrightarrow> targets_distinct (uploads_Set c u)"
proof (induction u)
  case (Cons a u)
  then show ?case using uploads_Set_targets [of c u] by (auto simp: targets_distinct_def)
qed (simp add: targets_distinct_def)

lemma uploads_Get_Set: "uploads_Get (uploads_Set c u) t = (if t = udTarget c then Some c else uploads_Get u t)"
  by (induction u) auto

lemma uploads_Get_target: "uploads_Get u t = Some d \<Longrightarrow> udTarget d = t"
  by (induction u) (auto split: if_splits)

interpretation uploads: keyed_writes upload_view put_upload targets_distinct
  by unfold_locales (auto simp: upload_view_def put_upload_def uploads_Get_Set uploads_Set_distinct)

lemma uploads_Append_fold: "uploads_Append u cs =
  fold (\<lambda>(t, v). put_upload t v) (map (\<lambda>d. (udTarget d, udID d, udStatus d, udError d)) cs) u"
proof (induction cs arbitrary: u)
  case (Cons a cs)
  then show ?case by (cases a) (simp add: put_upload_def)
qed simp

lemma OneSuccessOf_iff:
  "OneSuccessOf u targets \<longleftrightarrow> (\<exists>t\<in>set targets. \<exists>d. uploads_Get u t = Some d \<and> Success d)"
  by (induction targets) (auto simp: Success_def dest: uploads_Get_target split: option.splits)

end
