(* ===== verification/FileFilters.thy ===== *)
theory FileFilters
  imports Prelude
begin

text \<open>
  The filter language of the data service's file listing: its text form and parser
  (\<open>airgap/v2/apis/dataservice/v1/fileserver/filter.go\<close>) and its translation to the
  \<open>WHERE\<close> clause of the query (\<open>airgap/v2/pkg/database/filter.go\<close>).

  The parser reads the token stream of Go's \<open>text/scanner\<close>. A lexeme here is one token
  of that scanner with its text and whether the next character of the input follows it
  directly, which is what \<open>Peek\<close> sees.
\<close>

section \<open>Filters\<close>

definition FilterEqual :: string where "FilterEqual = ''==''"
definition FilterNotEqual :: string where "FilterNotEqual = ''!=''"
definition FilterGreaterThan :: string where "FilterGreaterThan = ''>''"
definition FilterGreaterThanEqual :: string where "FilterGreaterThanEqual = ''>=''"
definition FilterLessThan :: string where "FilterLessThan = ''<''"
definition FilterLessThanEqual :: string where "FilterLessThanEqual = ''<=''"
definition FilterAnd :: string where "FilterAnd = ''&&''"
definition FilterOr :: string where "FilterOr = ''||''"

lemmas filter_operator_defs = FilterEqual_def FilterNotEqual_def FilterGreaterThan_def
  FilterGreaterThanEqual_def FilterLessThan_def FilterLessThanEqual_def FilterAnd_def FilterOr_def

record Filter =
  flLeft :: string
  flOperator :: string
  flRight :: string
  flNext :: string

definition Filter_MarshalText :: "Filter \<Rightarrow> string" where
  "Filter_MarshalText f = flLeft f @ flOperator f @ flRight f @ flNext f"

fun Filters_MarshalText :: "Filter list \<Rightarrow> string" where
  "Filters_MarshalText [] = []"
| "Filters_MarshalText (f # fs) = Filter_MarshalText f @ Filters_MarshalText fs"

section \<open>Tokens\<close>

record lexeme =
  lxText :: string
  lxGlued :: bool

text \<open>
  What the parser stores in its token slice. \<open>TNil\<close> is the nil that comes with the error
  for an unknown symbol: the parser looks only for the end of the input, so the nil is
  stored like any token.
\<close>

datatype token = TString string | TOperator string | TBoolean string | TNil

definition Peek_is :: "lexeme \<Rightarrow> lexeme list \<Rightarrow> char \<Rightarrow> bool" where
  "Peek_is lx rest c \<longleftrightarrow> lxGlued lx \<and> rest \<noteq> [] \<and> lxText (hd rest) \<noteq> [] \<and> hd (lxText (hd rest)) = c"

definition IsLetter :: "char \<Rightarrow> bool" where
  "IsLetter c \<longleftrightarrow> (CHR ''a'' \<le> c \<and> c \<le> CHR ''z'') \<or> (CHR ''A'' \<le> c \<and> c \<le> CHR ''Z'')"

definition IsDigit :: "char \<Rightarrow> bool" where
  "IsDigit c \<longleftrightarrow> CHR ''0'' \<le> c \<and> c \<le> CHR ''9''"

text \<open>The loop that joins the parts of a dotted name.\<close>

fun dotted_loop :: "lexeme \<Rightarrow> lexeme list \<Rightarrow> string \<Rightarrow> string \<times> lexeme list" where
  "dotted_loop lx [] acc = (acc, [])"
| "dotted_loop lx (l # rest) acc =
     (if lxGlued lx \<and> lxText l \<noteq> [] \<and>
         (IsLetter (hd (lxText l)) \<or> IsDigit (hd (lxText l)) \<or>
          hd (lxText l) = CHR ''_'' \<or> hd (lxText l) = CHR ''.'')
      then dotted_loop l rest (acc @ lxText l)
      else (acc, l # rest))"

text \<open>The next token and the rest of the input; \<open>None\<close> is the end of the input.\<close>

fun nextToken :: "lexeme list \<Rightarrow> (token \<times> lexeme list) option" where
  "nextToken [] = None"
| "nextToken (lx # rest) =
     (if lxText lx = ''='' then
        (if Peek_is lx rest (CHR ''='') then Some (TOperator FilterEqual, tl rest) else Some (TNil, rest))
      else if lxText lx = ''!'' then
        (if Peek_is lx rest (CHR ''='') then Some (TOperator FilterNotEqual, tl rest) else Some (TNil, rest))
      else if lxText lx = ''<'' then
        (if Peek_is lx rest (CHR ''='') then Some (TOperator FilterLessThanEqual, tl rest)
         else Some (TOperator FilterLessThan, rest))
      else if lxText lx = ''>'' then
        (if Peek_is lx rest (CHR ''='') then Some (TOperator FilterGreaterThanEqual, tl rest)
         else Some (TOperator FilterGreaterThan, rest))
      else if lxText lx = ''&'' then
        (if Peek_is lx rest (CHR ''&'') then Some (TBoolean FilterAnd, tl rest) else nextToken rest)
      else if lxText lx = ''|'' then
        (if Peek_is lx rest (CHR ''|'') then Some (TBoolean FilterOr, tl rest) else nextToken rest)
      else if \<not> Peek_is lx rest (CHR ''.'') then Some (TString (lxText lx), rest)
      else (let (text, rest') = dotted_loop lx rest (lxText lx) in Some (TString text, rest')))"

lemma dotted_loop_shorter: "dotted_loop lx ls acc = (t, rest) \<Longrightarrow> length rest \<le> length ls"
  by (induction lx ls acc rule: dotted_loop.induct) (auto split: if_splits)

lemma nextToken_shorter: "nextToken ls = Some (t, rest) \<Longrightarrow> length rest < length ls"
  by (induction ls rule: nextToken.induct)
     (auto simp: Let_def less_Suc_eq_le split: if_splits prod.splits dest!: dotted_loop_shorter)

function scan_tokens :: "lexeme list \<Rightarrow> token list" where
  "scan_tokens ls = (case nextToken ls of None \<Rightarrow> [] | Some (t, rest) \<Rightarrow> t # scan_tokens rest)"
  by pat_completeness auto
termination by (relation "measure length") (auto dest: nextToken_shorter)

declare scan_tokens.simps [simp del]

section \<open>The parser\<close>

definition empty_filter :: Filter where
  "empty_filter = \<lparr>flLeft = [], flOperator = [], flRight = [], flNext = []\<rparr>"

fun token_string :: "token \<Rightarrow> string option" where
  "token_string (TString s) = Some s"
| "token_string _ = None"

fun token_operator :: "token \<Rightarrow> string option" where
  "token_operator (TOperator s) = Some s"
| "token_operator _ = None"

fun token_boolean :: "token \<Rightarrow> string option" where
  "token_boolean (TBoolean s) = Some s"
| "token_boolean _ = None"

definition ErrFilterBadFormat :: "string \<Rightarrow> go_error" where
  "ErrFilterBadFormat msg = wrap msg
     (Err ''incorrect filter should follow the form [arg] [op] [arg] ([boolop] [arg] [op] [arg])...'')"

text \<open>
  The loop of \<open>UnmarshalText\<close> over the tokens that are left. Its locals are the filter
  pointer, the token slice and the result slice.
\<close>

fun UnmarshalText_loop ::
  "token list \<Rightarrow> Filter option \<Rightarrow> token list \<Rightarrow> Filter list \<Rightarrow> Filter list result" where
  "UnmarshalText_loop [] flt0 tokens f =
     (case flt0 of
        Some flt \<Rightarrow> Inr (f @ [flt])
      | None \<Rightarrow>
          (if length tokens \<noteq> 0 then Inl (ErrFilterBadFormat ''incomplete filter'') else Inr f))"
| "UnmarshalText_loop (token # tail) flt0 tokens0 f =
     (let tokens = tokens0 @ [token] in
      if length tokens = 3 then
        (case token_string (tokens ! 0) of
           None \<Rightarrow> Inl (ErrFilterBadFormat ''left token is not a string'')
         | Some left \<Rightarrow>
        (case token_operator (tokens ! 1) of
           None \<Rightarrow> Inl (ErrFilterBadFormat ''operator token is not an operator'')
         | Some op \<Rightarrow>
        (case token_string (tokens ! 2) of
           None \<Rightarrow> Inl (ErrFilterBadFormat ''right token is not a string'')
         | Some right \<Rightarrow>
             UnmarshalText_loop tail
               (Some \<lparr>flLeft = left, flOperator = op, flRight = right, flNext = []\<rparr>) tokens f)))
      else if length tokens = 4 then
        (case token_boolean (tokens ! 3) of
           None \<Rightarrow> Inl (ErrFilterBadFormat ''boolean token is not a string'')
         | Some boolOperator \<Rightarrow>
             (case flt0 of
                None \<Rightarrow> Inl (Panic ''nil filter'')
              | Some flt \<Rightarrow>
                  UnmarshalText_loop tail None [] (f @ [flt\<lparr>flNext := boolOperator\<rparr>])))
      else UnmarshalText_loop tail flt0 tokens f)"

definition UnmarshalText :: "lexeme list \<Rightarrow> Filter list result" where
  "UnmarshalText text = UnmarshalText_loop (scan_tokens text) (Some empty_filter) [] []"

section \<open>The \<open>WHERE\<close> clause\<close>

definition operatorToSql :: "string \<Rightarrow> string" where
  "operatorToSql op =
     (if op = FilterEqual then ''='' else if op = FilterNotEqual then ''<>'' else op)"

definition boolOperatorToSQL :: "string \<Rightarrow> string" where
  "boolOperatorToSQL op =
     (if op = FilterAnd then ''AND'' else if op = FilterOr then ''OR'' else [])"

text \<open>
  What the translation takes from Go's string and time functions, and the lookup of a field
  name in the schemas gorm derives from the models: the quoted column and whether its type
  is a time.
\<close>

record scope_env =
  scUnquote :: "string \<Rightarrow> string result"
  scTitle :: "string \<Rightarrow> string"
  scFields :: "string \<Rightarrow> (string \<times> bool) option"
  scParseRFC3339 :: "string \<Rightarrow> go_time result"
  scParseInt :: "string \<Rightarrow> go_time result"

datatype variable = VString string | VTime go_time

definition unquoted :: "scope_env \<Rightarrow> string \<Rightarrow> string" where
  "unquoted S s = (case scUnquote S s of Inl err \<Rightarrow> s | Inr u \<Rightarrow> u)"

definition getFieldMapping :: "scope_env \<Rightarrow> string \<Rightarrow> (string \<times> bool) result" where
  "getFieldMapping S name =
     (case scFields S name of
        None \<Rightarrow> Inl (Err (''field '' @ name @ '' not found''))
      | Some fm \<Rightarrow> Inr fm)"

text \<open>The text and variables written for one filter before its value is looked at.\<close>

definition clause_text :: "string \<Rightarrow> Filter \<Rightarrow> string" where
  "clause_text fieldName f =
     fieldName @ '' '' @ operatorToSql (flOperator f) @ '' ?'' @
     (if flNext f \<noteq> [] then '' '' @ boolOperatorToSQL (flNext f) @ '' '' else [])"

definition right_variable :: "scope_env \<Rightarrow> bool \<Rightarrow> Filter \<Rightarrow> variable result" where
  "right_variable S isTime f =
     (let right = unquoted S (flRight f) in
      if isTime then
        (case scParseRFC3339 S right of
           Inr t \<Rightarrow> Inr (VTime t)
         | Inl err1 \<Rightarrow>
             (case scParseInt S right of
                Inr t \<Rightarrow> Inr (VTime t)
              | Inl err2 \<Rightarrow> Inl (wrap (case err1 of Err m \<Rightarrow> m | Panic m \<Rightarrow> m) err2)))
      else Inr (VString right))"

fun ToScope_loop ::
  "scope_env \<Rightarrow> Filter list \<Rightarrow> string \<Rightarrow> variable list \<Rightarrow> string \<times> variable list \<times> go_error option" where
  "ToScope_loop S [] builder variables = (builder, variables, None)"
| "ToScope_loop S (f # fs) builder variables =
     (case getFieldMapping S (scTitle S (unquoted S (flLeft f))) of
        Inl err \<Rightarrow> (builder, variables, Some err)
      | Inr (fieldName, isTime) \<Rightarrow>
          (let builder' = builder @ clause_text fieldName f in
           case right_variable S isTime f of
             Inl err \<Rightarrow> (builder', variables, Some err)
           | Inr v \<Rightarrow> ToScope_loop S fs builder' (variables @ [v])))"

text \<open>\<open>None\<close> when there are no filters: the query is left as it is.\<close>

definition filter_ToScope ::
  "scope_env \<Rightarrow> Filter list \<Rightarrow> (string \<times> variable list \<times> go_error option) option" where
  "filter_ToScope S filters =
     (if length filters = 0 then None else Some (ToScope_loop S filters [] []))"

section \<open>The parser against its grammar\<close>

text \<open>
  The grammar: groups of left, operator, right and boolean operator, where the last boolean
  operator may be missing.
\<close>

fun grammar :: "token list \<Rightarrow> Filter list option" where
  "grammar [] = Some []"
| "grammar [TString l, TOperator p, TString r] =
     Some [\<lparr>flLeft = l, flOperator = p, flRight = r, flNext = []\<rparr>]"
| "grammar (TString l # TOperator p # TString r # TBoolean b # tail) =
     map_option (\<lambda>fs. \<lparr>flLeft = l, flOperator = p, flRight = r, flNext = b\<rparr> # fs) (grammar tail)"
| "grammar _ = None"

lemma token_casts:
  "token_string t = Some s \<longleftrightarrow> t = TString s"
  "token_operator t = Some s \<longleftrightarrow> t = TOperator s"
  "token_boolean t = Some s \<longleftrightarrow> t = TBoolean s"
  by (cases t; auto)+

text \<open>Four iterations of the loop, from an empty token slice.\<close>

lemma loop_short:
  "length ts < 3 \<Longrightarrow> UnmarshalText_loop ts flt [] f =
     (case flt of Some g \<Rightarrow> Inr (f @ [g])
      | None \<Rightarrow> if ts = [] then Inr f else Inl (ErrFilterBadFormat ''incomplete filter''))"
  by (cases ts rule: remdups_adj.cases) (auto split: option.split simp: less_Suc_eq numeral_eq_Suc)

lemma loop_group:
  "UnmarshalText_loop (a # b # c # ts) flt [] f = Inr fs \<longleftrightarrow>
     (\<exists>l p r. a = TString l \<and> b = TOperator p \<and> c = TString r \<and>
        (case ts of
           [] \<Rightarrow> fs = f @ [\<lparr>flLeft = l, flOperator = p, flRight = r, flNext = []\<rparr>]
         | d # tail \<Rightarrow> \<exists>bo. d = TBoolean bo \<and>
             UnmarshalText_loop tail None [] (f @ [\<lparr>flLeft = l, flOperator = p, flRight = r, flNext = bo\<rparr>]) = Inr fs))"
  by (cases ts) (auto simp: Let_def token_casts split: option.split)

lemma loop_grammar:
  "UnmarshalText_loop ts None [] f = Inr fs \<longleftrightarrow> (\<exists>gs. grammar ts = Some gs \<and> fs = f @ gs)"
proof (induction ts arbitrary: f fs rule: length_induct)
  case (1 ts)
  show ?case
  proof (cases "length ts < 3")
    case True
    then have "grammar ts = (if ts = [] then Some [] else None)"
      by (cases ts rule: grammar.cases) auto
    with True show ?thesis by (auto simp: loop_short)
  next
    case False
    then obtain a b c tail where ts: "ts = a # b # c # tail"
      by (cases ts rule: remdups_adj.cases; cases "tl (tl ts)") auto
    show ?thesis
    proof (cases tail)
      case Nil
      then show ?thesis unfolding ts loop_group by (cases "(a, b, c)" rule: prod_cases3; cases a; cases b; cases c) auto
    next
      case (Cons d rest)
      with ts 1 have IH: "\<And>f fs. UnmarshalText_loop rest None [] f = Inr fs \<longleftrightarrow> (\<exists>gs. grammar rest = Some gs \<and> fs = f @ gs)"
        by simp
      show ?thesis unfolding ts Cons loop_group
        by (cases a; cases b; cases c; cases d) (auto simp: IH)
    qed
  qed
qed

lemma loop_group_grammar:
  "UnmarshalText_loop (a # b # c # ts) flt [] f = Inr fs \<longleftrightarrow>
     (\<exists>gs. grammar (a # b # c # ts) = Some gs \<and> fs = f @ gs)"
  using loop_grammar [of "a # b # c # ts" f fs] by (simp only: loop_group)

lemma UnmarshalText_iff:
  "UnmarshalText text = Inr fs \<longleftrightarrow>
     (if length (scan_tokens text) < 3 then fs = [empty_filter]
      else grammar (scan_tokens text) = Some fs)"
proof (cases "length (scan_tokens text) < 3")
  case False
  then obtain a b c rest where ts: "scan_tokens text = a # b # c # rest"
    by (cases "scan_tokens text" rule: remdups_adj.cases; cases "tl (tl (scan_tokens text))") auto
  show ?thesis using False
    unfolding UnmarshalText_def ts loop_group_grammar by simp
qed (auto simp: UnmarshalText_def loop_short)

text \<open>
  The parser of file filters accepts exactly its grammar, with one exception. A text
  with at least three tokens parses to the filters the grammar gives, and is refused when
  the grammar refuses it; a text with fewer, complete or not, is accepted as one empty filter.
\<close>
theorem UnmarshalText_grammar:
  "UnmarshalText text = Inr fs \<longleftrightarrow>
     (if length (scan_tokens text) < 3 then fs = [empty_filter]
      else grammar (scan_tokens text) = Some fs)"
  by (rule UnmarshalText_iff)

section \<open>Round trip\<close>

definition glued :: "string \<Rightarrow> lexeme" where
  "glued s = \<lparr>lxText = s, lxGlued = True\<rparr>"

text \<open>The lexemes of the text that \<open>MarshalText\<close> writes: symbols come one character at a time.\<close>

definition filter_lexemes :: "Filter \<Rightarrow> lexeme list" where
  "filter_lexemes f = glued (flLeft f) # map (\<lambda>c. glued [c]) (flOperator f) @ glued (flRight f) #
     map (\<lambda>c. glued [c]) (flNext f)"

definition filters_lexemes :: "Filter list \<Rightarrow> lexeme list" where
  "filters_lexemes fs = concat (map filter_lexemes fs)"

lemma filters_lexemes_text: "concat (map lxText (filters_lexemes fs)) = Filters_MarshalText fs"
  by (induction fs)
     (simp_all add: filters_lexemes_def filter_lexemes_def glued_def Filter_MarshalText_def comp_def)

definition word :: "string \<Rightarrow> bool" where
  "word s \<longleftrightarrow> s \<noteq> [] \<and> hd s \<notin> {CHR ''='', CHR ''!'', CHR ''<'', CHR ''>'', CHR ''&'', CHR ''|'', CHR ''.''}"

definition operators :: "string set" where
  "operators = {FilterEqual, FilterNotEqual, FilterGreaterThan, FilterGreaterThanEqual,
     FilterLessThan, FilterLessThanEqual}"

definition filter_ok :: "Filter \<Rightarrow> bool" where
  "filter_ok f \<longleftrightarrow> word (flLeft f) \<and> word (flRight f) \<and> flOperator f \<in> operators \<and>
     flNext f \<in> {[], FilterAnd, FilterOr}"

lemma nextToken_word:
  assumes "word s" and "rest = [] \<or> hd (lxText (hd rest)) \<noteq> CHR ''.''"
  shows "nextToken (glued s # rest) = Some (TString s, rest)"
proof -
  obtain c cs where s: "s = c # cs" using assms(1) by (cases s) (auto simp: word_def)
  have "\<not> Peek_is (glued s) rest (CHR ''.'')" using assms(2) by (auto simp: Peek_is_def)
  moreover have "c \<notin> {CHR ''='', CHR ''!'', CHR ''<'', CHR ''>'', CHR ''&'', CHR ''|''}"
    using assms(1) by (simp add: word_def s)
  ultimately show ?thesis by (simp add: s glued_def)
qed

lemma nextToken_operator:
  assumes "p \<in> operators" "word r"
  shows "nextToken (map (\<lambda>c. glued [c]) p @ glued r # rest) = Some (TOperator p, glued r # rest)"
  using assms by (auto simp: operators_def filter_operator_defs glued_def Peek_is_def word_def)

lemma nextToken_boolean:
  "b \<in> {FilterAnd, FilterOr} \<Longrightarrow>
     nextToken (map (\<lambda>c. glued [c]) b @ rest) = Some (TBoolean b, rest)"
  by (auto simp: filter_operator_defs glued_def Peek_is_def)

lemma scan_tokens_Some: "nextToken ls = Some (t, rest) \<Longrightarrow> scan_tokens ls = t # scan_tokens rest"
  by (subst scan_tokens.simps) simp

lemma scan_tokens_Nil [simp]: "scan_tokens [] = []"
  by (subst scan_tokens.simps) simp

lemma scan_filter:
  assumes "filter_ok f" "flNext f = [] \<Longrightarrow> rest = []"
  shows "scan_tokens (filter_lexemes f @ rest) =
     [TString (flLeft f), TOperator (flOperator f), TString (flRight f)] @
     (if flNext f = [] then [] else [TBoolean (flNext f)]) @ scan_tokens rest"
proof -
  have ok: "word (flLeft f)" "word (flRight f)" "flOperator f \<in> operators"
    "flNext f \<noteq> [] \<Longrightarrow> flNext f \<in> {FilterAnd, FilterOr}"
    using assms(1) by (auto simp: filter_ok_def)
  let ?tl = "map (\<lambda>c. glued [c]) (flNext f) @ rest"
  have "scan_tokens (filter_lexemes f @ rest) = TString (flLeft f) #
      scan_tokens (map (\<lambda>c. glued [c]) (flOperator f) @ glued (flRight f) # ?tl)"
    using ok(1,3) unfolding filter_lexemes_def append_Cons append_assoc
    by (intro scan_tokens_Some nextToken_word)
       (auto simp: operators_def filter_operator_defs glued_def)
  also have "\<dots> = TString (flLeft f) # TOperator (flOperator f) # scan_tokens (glued (flRight f) # ?tl)"
    by (simp add: scan_tokens_Some [OF nextToken_operator [OF ok(3,2)]])
  also have "\<dots> = TString (flLeft f) # TOperator (flOperator f) # TString (flRight f) # scan_tokens ?tl"
    using ok(4) assms(2)
    by (cases "flNext f = []"; subst scan_tokens_Some [OF nextToken_word [OF ok(2)]])
       (auto simp: filter_operator_defs glued_def)
  also have "scan_tokens ?tl = (if flNext f = [] then [] else [TBoolean (flNext f)]) @ scan_tokens rest"
    using ok(4) assms(2) scan_tokens_Some [OF nextToken_boolean [of "flNext f" rest]] by auto
  finally show ?thesis by simp
qed

text \<open>Every filter but the last continues with a boolean operator.\<close>

fun chained :: "Filter list \<Rightarrow> bool" where
  "chained [] = True"
| "chained [f] = True"
| "chained (f # g # fs) = (flNext f \<noteq> [] \<and> chained (g # fs))"

lemma scan_filters_grammar:
  "list_all filter_ok fs \<Longrightarrow> chained fs \<Longrightarrow> grammar (scan_tokens (filters_lexemes fs)) = Some fs"
proof (induction fs rule: chained.induct)
  case (2 f)
  then show ?case using scan_filter [of f "[]"] by (cases f) (simp add: filters_lexemes_def)
next
  case (3 f g fs)
  then show ?case using scan_filter [of f "filters_lexemes (g # fs)"]
    by (cases f) (simp add: filters_lexemes_def)
qed (simp add: filters_lexemes_def)

text \<open>
  The text that \<open>MarshalText\<close> writes for well-formed filters parses back to them.
\<close>
theorem filters_round_trip:
  assumes "fs \<noteq> []" "list_all filter_ok fs" "chained fs"
  shows "concat (map lxText (filters_lexemes fs)) = Filters_MarshalText fs \<and>
         UnmarshalText (filters_lexemes fs) = Inr fs"
proof -
  obtain f gs where "fs = f # gs" using assms(1) by (cases fs) auto
  with assms(2,3) have "\<not> length (scan_tokens (filters_lexemes fs)) < 3"
    using scan_filter [of f "filters_lexemes gs"]
    by (cases gs) (auto simp: filters_lexemes_def)
  with scan_filters_grammar [OF assms(2,3)] show ?thesis
    by (simp add: filters_lexemes_text UnmarshalText_iff)
qed

theorem filters_round_trip_witness:
  "UnmarshalText (filters_lexemes
      [\<lparr>flLeft = ''size'', flOperator = ''>='', flRight = ''10'', flNext = ''&&''\<rparr>,
       \<lparr>flLeft = ''source'', flOperator = ''=='', flRight = ''b'', flNext = []\<rparr>]) =
     Inr [\<lparr>flLeft = ''size'', flOperator = ''>='', flRight = ''10'', flNext = ''&&''\<rparr>,
       \<lparr>flLeft = ''source'', flOperator = ''=='', flRight = ''b'', flNext = []\<rparr>]"
  by (rule conjunct2 [OF filters_round_trip])
     (simp_all add: filter_ok_def word_def operators_def filter_operator_defs)

section \<open>The query text\<close>

text \<open>The clause of one filter as its three parts: column, comparison, connective.\<close>

definition clause_parts :: "string \<times> string \<times> string \<Rightarrow> string" where
  "clause_parts = (\<lambda>(column, cmp, conn). column @ '' '' @ cmp @ '' ?'' @ conn)"

definition known_part :: "scope_env \<Rightarrow> string \<times> string \<times> string \<Rightarrow> bool" where
  "known_part S = (\<lambda>(column, cmp, conn). column \<in> fst ` ran (scFields S) \<and>
     cmp \<in> {''='', ''<>'', ''>'', ''>='', ''<'', ''<=''} \<and> conn \<in> {[], '' AND '', '' OR ''})"

definition parsed_filter :: "Filter \<Rightarrow> bool" where
  "parsed_filter f \<longleftrightarrow> flOperator f \<in> operators \<and> flNext f \<in> {[], FilterAnd, FilterOr}"

lemma clause_text_known:
  assumes "parsed_filter f" "scFields S name = Some (column, isTime)"
  shows "\<exists>p. clause_text column f = clause_parts p \<and> known_part S p"
proof -
  from assms have "known_part S (column, operatorToSql (flOperator f),
      if flNext f \<noteq> [] then '' '' @ boolOperatorToSQL (flNext f) @ '' '' else [])"
    by (auto simp: known_part_def parsed_filter_def operators_def filter_operator_defs operatorToSql_def
        boolOperatorToSQL_def ran_def image_iff)
  then show ?thesis by (intro exI conjI) (auto simp: clause_text_def clause_parts_def)
qed

lemma ToScope_loop_parts:
  assumes "list_all parsed_filter fs" "ToScope_loop S fs builder vars = (text, vars', err)"
  shows "\<exists>parts. text = builder @ concat (map clause_parts parts) \<and> list_all (known_part S) parts \<and>
           (err = None \<longrightarrow> length parts = length fs \<and> length vars' = length vars + length fs)"
  using assms
proof (induction fs arbitrary: builder vars)
  case (Cons f fs)
  show ?case
  proof (cases "scFields S (scTitle S (unquoted S (flLeft f)))")
    case None
    with Cons.prems show ?thesis by (intro exI [of _ "[]"]) (auto simp: getFieldMapping_def)
  next
    case (Some fm)
    then obtain column isTime where fm: "scFields S (scTitle S (unquoted S (flLeft f))) = Some (column, isTime)"
      by (cases fm) auto
    from Cons.prems(1) have "parsed_filter f" by simp
    from clause_text_known [OF this fm] obtain p where
      p: "clause_text column f = clause_parts p" "known_part S p" by blast
    show ?thesis
    proof (cases "right_variable S isTime f")
      case (Inl e)
      with Cons.prems fm p show ?thesis
        by (intro exI [of _ "[p]"]) (auto simp: getFieldMapping_def)
    next
      case (Inr v)
      with Cons.prems fm have "ToScope_loop S fs (builder @ clause_text column f) (vars @ [v]) = (text, vars', err)"
        by (simp add: getFieldMapping_def)
      from Cons.IH [OF _ this] Cons.prems(1) obtain parts where
        "text = builder @ clause_text column f @ concat (map clause_parts parts)" "list_all (known_part S) parts"
        "err = None \<longrightarrow> length parts = length fs \<and> length vars' = Suc (length vars) + length fs"
        by auto
      with p show ?thesis by (intro exI [of _ "p # parts"]) auto
    qed
  qed
qed (auto intro: exI [of _ "[]"])

lemma grammar_operators:
  "grammar ts = Some fs \<Longrightarrow> \<forall>p. TOperator p \<in> set ts \<longrightarrow> p \<in> operators \<Longrightarrow>
     \<forall>b. TBoolean b \<in> set ts \<longrightarrow> b \<in> {FilterAnd, FilterOr} \<Longrightarrow> list_all parsed_filter fs"
  by (induction ts arbitrary: fs rule: grammar.induct) (auto simp: parsed_filter_def)

lemma nextToken_operators:
  "nextToken ls = Some (t, rest) \<Longrightarrow>
     (\<forall>p. t = TOperator p \<longrightarrow> p \<in> operators) \<and> (\<forall>b. t = TBoolean b \<longrightarrow> b \<in> {FilterAnd, FilterOr})"
  by (induction ls rule: nextToken.induct)
     (auto simp: Let_def operators_def split: if_splits prod.splits)

lemma scan_operators:
  "(TOperator p \<in> set (scan_tokens ls) \<longrightarrow> p \<in> operators) \<and>
   (TBoolean b \<in> set (scan_tokens ls) \<longrightarrow> b \<in> {FilterAnd, FilterOr})"
proof (induction ls rule: scan_tokens.induct)
  case (1 ls)
  show ?case
  proof (cases "nextToken ls")
    case (Some tr)
    then obtain t rest where n: "nextToken ls = Some (t, rest)" by (cases tr) auto
    show ?thesis using 1 [OF n refl] nextToken_operators [OF n] by (auto simp: scan_tokens_Some [OF n])
  qed (simp add: scan_tokens.simps)
qed

text \<open>
  C18: no text of a request gets into the query. The \<open>WHERE\<close> clause built from filters
  that were parsed is a sequence of known columns, each with one of six comparisons, a
  placeholder and at most one connective; when the translation succeeds there is one bound
  variable for every placeholder.
\<close>
theorem filter_query_no_injection:
  assumes "UnmarshalText text = Inr fs" and "3 \<le> length (scan_tokens text)"
    and "filter_ToScope S fs = Some (sql, vars, err)"
  shows "\<exists>parts. sql = concat (map clause_parts parts) \<and> list_all (known_part S) parts \<and>
           (err = None \<longrightarrow> length parts = length fs \<and> length vars = length fs)"
proof -
  from assms(1,2) have "grammar (scan_tokens text) = Some fs" by (simp add: UnmarshalText_iff)
  then have "list_all parsed_filter fs" using grammar_operators scan_operators by blast
  moreover have "ToScope_loop S fs [] [] = (sql, vars, err)"
    using assms(3) by (simp add: filter_ToScope_def split: if_splits)
  ultimately show ?thesis using ToScope_loop_parts [of fs S "[]" "[]"] by simp
qed

definition demo_scope :: scope_env where
  "demo_scope = \<lparr>scUnquote = (\<lambda>_. Inl (Err ''invalid syntax'')), scTitle = id,
     scFields = [''Size'' \<mapsto> (''`stored_file_contents`.`size`'', False)],
     scParseRFC3339 = (\<lambda>_. Inl (Err ''bad time'')), scParseInt = (\<lambda>_. Inr 0)\<rparr>"

theorem filter_query_no_injection_witness:
  "\<exists>sql vars. filter_ToScope demo_scope [\<lparr>flLeft = ''Size'', flOperator = ''>'', flRight = ''1) or 1'', flNext = []\<rparr>] =
      Some (sql, vars, None) \<and>
     (\<exists>parts. sql = concat (map clause_parts parts) \<and> list_all (known_part demo_scope) parts \<and> length parts = 1)"
proof -
  let ?f = "\<lparr>flLeft = ''Size'', flOperator = ''>'', flRight = ''1) or 1'', flNext = []\<rparr>"
  have toks: "scan_tokens (filters_lexemes [?f]) = [TString ''Size'', TOperator ''>'', TString ''1) or 1'']"
    using scan_filter [of ?f "[]"]
    by (simp add: filters_lexemes_def filter_ok_def word_def operators_def filter_operator_defs)
  have s: "filter_ToScope demo_scope [?f] =
      Some (''`stored_file_contents`.`size` > ?'', [VString ''1) or 1''], None)"
    by (simp add: filter_ToScope_def demo_scope_def unquoted_def getFieldMapping_def right_variable_def
        clause_text_def operatorToSql_def filter_operator_defs)
  from filter_query_no_injection [OF _ _ s, of "filters_lexemes [?f]"] s toks
  show ?thesis by (simp add: UnmarshalText_iff)
qed

end
