(* ===== verification/Decimal.thy ===== *)
theory Decimal
  imports Prelude
begin

text \<open>
  Decimal text of integers as Go prints and reads it: \<open>fmt.Sprintf("%d")\<close> and
  \<open>strconv.Itoa\<close>, \<open>strconv.ParseUint(s, 10, 0)\<close> and \<open>strconv.Atoi\<close> on a 64-bit
  platform, and the wrap-around of \<open>int\<close>.
\<close>

definition wrap64 :: "int \<Rightarrow> int" where
  "wrap64 i = (i + 2 ^ 63) mod 2 ^ 64 - 2 ^ 63"

definition digit_char :: "nat \<Rightarrow> char" where
  "digit_char d = char_of (48 + d)"

fun itoa_nat :: "nat \<Rightarrow> string" where
  "itoa_nat n = (if n < 10 then [digit_char n] else itoa_nat (n div 10) @ [digit_char (n mod 10)])"

declare itoa_nat.simps [simp del]

definition Itoa :: "int \<Rightarrow> string" where
  "Itoa i = (if i < 0 then CHR ''-'' # itoa_nat (nat (- i)) else itoa_nat (nat i))"

definition decimal_digit :: "char \<Rightarrow> bool" where
  "decimal_digit c \<longleftrightarrow> 48 \<le> (of_char c :: nat) \<and> (of_char c :: nat) \<le> 57"

definition digits_value :: "string \<Rightarrow> nat" where
  "digits_value s = foldl (\<lambda>n c. 10 * n + (of_char c - 48)) 0 s"

definition read_digits :: "string \<Rightarrow> nat option" where
  "read_digits s = (if s \<noteq> [] \<and> list_all decimal_digit s then Some (digits_value s) else None)"

definition ParseUint :: "string \<Rightarrow> nat result" where
  "ParseUint s =
     (case read_digits s of
        None \<Rightarrow> Inl (Err ''invalid syntax'')
      | Some n \<Rightarrow> if n < 2 ^ 64 then Inr n else Inl (Err ''value out of range''))"

definition Atoi :: "string \<Rightarrow> int result" where
  "Atoi s =
     (let (neg, ds) = (case s of
            [] \<Rightarrow> (False, [])
          | c # cs \<Rightarrow> if c = CHR ''-'' then (True, cs) else if c = CHR ''+'' then (False, cs) else (False, s))
      in case read_digits ds of
           None \<Rightarrow> Inl (Err ''invalid syntax'')
         | Some n \<Rightarrow>
             (let i = (if neg then - int n else int n) in
              if - (2 ^ 63) \<le> i \<and> i < 2 ^ 63 then Inr i else Inl (Err ''value out of range'')))"

section \<open>Printing and reading back\<close>

lemma wrap64_id: "- (2 ^ 63) \<le> i \<Longrightarrow> i < 2 ^ 63 \<Longrightarrow> wrap64 i = i"
  by (simp add: wrap64_def)

lemma of_char_digit [simp]: "d < 10 \<Longrightarrow> of_char (digit_char d) = (48 + d :: nat)"
  by (simp add: digit_char_def)

lemma decimal_digit_char [simp]: "d < 10 \<Longrightarrow> decimal_digit (digit_char d)"
  by (simp add: decimal_digit_def)

lemma itoa_nat_digits: "list_all decimal_digit (itoa_nat n) \<and> itoa_nat n \<noteq> []"
proof (induction n rule: itoa_nat.induct)
  case (1 n)
  then show ?case
    by (subst (1 2) itoa_nat.simps) auto
qed

lemma digits_value_snoc: "digits_value (s @ [c]) = 10 * digits_value s + (of_char c - 48)"
  by (simp add: digits_value_def)

lemma digits_value_itoa: "digits_value (itoa_nat n) = n"
proof (induction n rule: itoa_nat.induct)
  case (1 n)
  then show ?case
    by (subst itoa_nat.simps) (simp add: digits_value_snoc, simp add: digits_value_def)
qed

lemma read_digits_itoa [simp]: "read_digits (itoa_nat n) = Some n"
  using itoa_nat_digits [of n] by (simp add: read_digits_def digits_value_itoa)

lemma ParseUint_itoa: "n < 2 ^ 64 \<Longrightarrow> ParseUint (itoa_nat n) = Inr n"
  by (simp add: ParseUint_def)

lemma itoa_nat_hd: "\<exists>c cs. itoa_nat n = c # cs \<and> decimal_digit c"
  using itoa_nat_digits [of n] by (cases "itoa_nat n") auto

lemma Atoi_itoa_nat: "int n < 2 ^ 63 \<Longrightarrow> Atoi (itoa_nat n) = Inr (int n)"
proof -
  assume n: "int n < 2 ^ 63"
  obtain c cs where c: "itoa_nat n = c # cs" "decimal_digit c" using itoa_nat_hd by blast
  then have "c \<noteq> CHR ''-''" "c \<noteq> CHR ''+''" by (auto simp: decimal_digit_def)
  with n c show ?thesis using read_digits_itoa [of n] by (simp add: Atoi_def)
qed

lemma Atoi_Itoa: "- (2 ^ 63) \<le> i \<Longrightarrow> i < 2 ^ 63 \<Longrightarrow> Atoi (Itoa i) = Inr i"
  using Atoi_itoa_nat [of "nat i"] by (cases "i < 0") (auto simp: Itoa_def, simp add: Atoi_def)

lemma Itoa_nonempty [simp]: "Itoa i \<noteq> []"
  using itoa_nat_digits by (auto simp: Itoa_def)

end
