(* ===== verification/FileStore.thy ===== *)
theory FileStore
  imports FileFilters Decimal
begin

text \<open>
  The file store of the data service (\<open>airgap/v2/pkg/database/filestore.go\<close>,
  \<open>list_options.go\<close>, \<open>scopes.go\<close>) and its models (\<open>airgap/v2/pkg/models/v2\<close>).

  The database behind gorm is an argument. It answers reads and writes from the history of
  the writes tried so far; the history records each of them with its outcome. The hook
  \<open>BeforeSave\<close> runs on a content row that is created.
\<close>

section \<open>Models\<close>

record StoredFileMetadata =
  mdID :: nat
  mdCreatedAt :: go_time
  mdUpdatedAt :: go_time
  mdFileID :: nat
  mdKey :: string
  mdValue :: string

record StoredFileContent =
  coID :: nat
  coCreatedAt :: go_time
  coUpdatedAt :: go_time
  coFileID :: nat
  coChecksum :: string
  coSize :: int
  coMimeType :: string
  coContent :: bytes

record DeletedAt =
  daTime :: go_time
  daValid :: bool

record StoredFile =
  sfID :: nat
  sfCreatedAt :: go_time
  sfUpdatedAt :: go_time
  sfDeletedAt :: DeletedAt
  sfName :: string
  sfSource :: string
  sfSourceType :: string
  sfFile :: StoredFileContent
  sfMetadata :: "StoredFileMetadata list"

record StoredFileKey =
  kyName :: string
  kySource :: string
  kySourceType :: string

definition zero_content :: StoredFileContent where
  "zero_content = \<lparr>coID = 0, coCreatedAt = 0, coUpdatedAt = 0, coFileID = 0, coChecksum = [], coSize = 0,
     coMimeType = [], coContent = []\<rparr>"

definition zero_file :: StoredFile where
  "zero_file = \<lparr>sfID = 0, sfCreatedAt = 0, sfUpdatedAt = 0, sfDeletedAt = \<lparr>daTime = 0, daValid = False\<rparr>,
     sfName = [], sfSource = [], sfSourceType = [], sfFile = zero_content, sfMetadata = []\<rparr>"

text \<open>\<open>sha\<close> is the hexadecimal SHA-256 of the content.\<close>

definition BeforeSave :: "(bytes \<Rightarrow> string) \<Rightarrow> StoredFileContent \<Rightarrow> StoredFileContent" where
  "BeforeSave sha f =
     (if length (coContent f) = 0 then f
      else f\<lparr>coSize := int (length (coContent f)), coChecksum := sha (coContent f)\<rparr>)"

definition ConvertStrToUint :: "string \<Rightarrow> nat result" where
  "ConvertStrToUint s = ParseUint s"

section \<open>The database\<close>

definition ErrInvalidInput :: go_error where "ErrInvalidInput = Err ''invalid input''"
definition ErrNotFound :: go_error where "ErrNotFound = Err ''not found''"
definition ErrDatabaseIsLocked :: go_error where "ErrDatabaseIsLocked = Err ''database is locked''"
definition ErrRecordNotFound :: go_error where "ErrRecordNotFound = Err ''record not found''"

datatype db_write =
    CreateFile StoredFile
  | CreateMetadata StoredFileMetadata
  | UpdateMetadata StoredFileMetadata StoredFileMetadata
  | CreateContent StoredFileContent
  | UpdateContent StoredFileContent StoredFileContent
  | UpdateFile nat StoredFile
  | DeleteFile bool nat
  | DeleteContentsBefore go_time
  | DeleteMetadataBefore go_time
  | DeleteFilesBefore go_time
  | TxBegin | TxCommit | TxRollback

type_synonym history = "(db_write \<times> go_error option) list"

text \<open>
  \<open>dbFind\<close> gives the zero file for an unknown id, as gorm's \<open>Find\<close> does. The
  \<open>dbAssign\<close> functions are what a successful create does to the object it was given.
  \<open>dbQuery\<close> is the list query without its limit and offset.
\<close>

record store_env =
  dbFind :: "history \<Rightarrow> nat \<Rightarrow> StoredFile result"
  dbFirstByKey :: "history \<Rightarrow> StoredFileKey \<Rightarrow> StoredFile result"
  dbFirstMetadata :: "history \<Rightarrow> nat \<Rightarrow> string \<Rightarrow> StoredFileMetadata result"
  dbFirstById :: "history \<Rightarrow> string \<Rightarrow> StoredFile result"
  dbQuery :: "history \<Rightarrow> bool \<Rightarrow> (string \<times> variable list \<times> go_error option) option \<Rightarrow> StoredFile list result"
  dbExec :: "history \<Rightarrow> db_write \<Rightarrow> go_error option"
  dbRows :: "history \<Rightarrow> db_write \<Rightarrow> int"
  dbAssignFile :: "history \<Rightarrow> StoredFile \<Rightarrow> StoredFile"
  dbAssignMetadata :: "history \<Rightarrow> StoredFileMetadata \<Rightarrow> StoredFileMetadata"
  dbAssignContent :: "history \<Rightarrow> StoredFileContent \<Rightarrow> StoredFileContent"
  dbSha256 :: "bytes \<Rightarrow> string"
  dbScope :: scope_env
  dbNow :: go_time
  dbCleanupAfter :: int

text \<open>
  A write, repeated while the database is locked. The retries have no limit of their own;
  \<open>n\<close> is how many of them the context allows before it is done.
\<close>

fun retryWriteTx :: "store_env \<Rightarrow> nat \<Rightarrow> db_write \<Rightarrow> history \<Rightarrow> history \<times> go_error option" where
  "retryWriteTx E 0 w h = (h @ [(w, dbExec E h w)], dbExec E h w)"
| "retryWriteTx E (Suc n) w h =
     (if dbExec E h w = Some ErrDatabaseIsLocked
      then retryWriteTx E n w (h @ [(w, dbExec E h w)])
      else (h @ [(w, dbExec E h w)], dbExec E h w))"

section \<open>Operations\<close>

definition store_Get :: "store_env \<Rightarrow> history \<Rightarrow> string \<Rightarrow> StoredFile result" where
  "store_Get E h fid =
     (case ConvertStrToUint fid of
        Inl err \<Rightarrow> Inl err
      | Inr idInt \<Rightarrow> dbFind E h idInt)"

definition GetByFileKey :: "store_env \<Rightarrow> history \<Rightarrow> StoredFileKey option \<Rightarrow> StoredFile result" where
  "GetByFileKey E h fileKey =
     (case fileKey of
        None \<Rightarrow> Inl (Err ''filekey is nil'')
      | Some key \<Rightarrow>
          (case dbFirstByKey E h key of
             Inl err \<Rightarrow> if err = ErrRecordNotFound then Inl ErrNotFound else Inl err
           | Inr file \<Rightarrow> Inr file))"

text \<open>A \<open>uint\<close> converted to an \<open>int\<close>.\<close>

definition int_of_uint :: "nat \<Rightarrow> int" where
  "int_of_uint n = wrap64 (int n)"

text \<open>The lookup of \<open>Save\<close>; a nil result is \<open>None\<close>.\<close>

definition Save_lookup :: "store_env \<Rightarrow> history \<Rightarrow> StoredFile \<Rightarrow> StoredFile option result" where
  "Save_lookup E h file =
     (let found = (if sfID file \<noteq> 0 then store_Get E h (Itoa (int_of_uint (sfID file)))
                   else if sfName file \<noteq> [] \<and> sfSource file \<noteq> [] \<and> sfSourceType file \<noteq> [] then
                     GetByFileKey E h (Some \<lparr>kyName = sfName file, kySource = sfSource file,
                                             kySourceType = sfSourceType file\<rparr>)
                   else Inr zero_file)
      in case found of
           Inl err \<Rightarrow> if err = ErrNotFound then Inr None else Inl err
         | Inr f \<Rightarrow> Inr (Some f))"

fun Save_metadata ::
  "store_env \<Rightarrow> nat \<Rightarrow> nat \<Rightarrow> StoredFileMetadata list \<Rightarrow> history \<Rightarrow>
     history \<times> StoredFileMetadata list \<times> go_error option" where
  "Save_metadata E n fid [] h = (h, [], None)"
| "Save_metadata E n fid (m # ms) h =
     (case dbFirstMetadata E h fid (mdKey m) of
        Inl err \<Rightarrow>
          (if err \<noteq> ErrRecordNotFound then (h, m # ms, Some err)
           else
             (let m1 = m\<lparr>mdFileID := fid\<rparr> in
              case retryWriteTx E n (CreateMetadata m1) h of
                (h1, Some e) \<Rightarrow> (h1, m1 # ms, Some e)
              | (h1, None) \<Rightarrow>
                  (let (h2, ms', e) = Save_metadata E n fid ms h1
                   in (h2, dbAssignMetadata E h1 m1 # ms', e))))
      | Inr foundMetadata \<Rightarrow>
          (case retryWriteTx E n (UpdateMetadata foundMetadata m) h of
             (h1, Some e) \<Rightarrow> (h1, m # ms, Some e)
           | (h1, None) \<Rightarrow>
               (let (h2, ms', e) = Save_metadata E n fid ms h1 in (h2, m # ms', e))))"

definition Save_content ::
  "store_env \<Rightarrow> nat \<Rightarrow> StoredFile \<Rightarrow> StoredFileContent \<Rightarrow> history \<Rightarrow>
     history \<times> StoredFileContent \<times> go_error option" where
  "Save_content E n foundFile content h =
     (if length (coContent content) \<noteq> 0 then
        (if coID content \<noteq> 0 then
           (case retryWriteTx E n (UpdateContent (sfFile foundFile) content) h of
              (h1, e) \<Rightarrow> (h1, content, e))
         else
           (let c1 = BeforeSave (dbSha256 E) (content\<lparr>coFileID := sfID foundFile\<rparr>) in
            case retryWriteTx E n (CreateContent c1) h of
              (h1, Some e) \<Rightarrow> (h1, c1, Some e)
            | (h1, None) \<Rightarrow> (h1, dbAssignContent E h1 c1, None)))
      else (h, content, None))"

text \<open>The update of a file that was found.\<close>

definition Save_update ::
  "store_env \<Rightarrow> nat \<Rightarrow> StoredFile \<Rightarrow> StoredFile \<Rightarrow> history \<Rightarrow>
     history \<times> StoredFile \<times> string \<times> go_error option" where
  "Save_update E n foundFile file h =
     (let file1 = file\<lparr>sfDeletedAt := \<lparr>daTime = 0, daValid = False\<rparr>\<rparr> in
      case Save_metadata E n (sfID foundFile) (sfMetadata file1) h of
        (h1, ms, Some e) \<Rightarrow> (h1, file1\<lparr>sfMetadata := ms\<rparr>, [], Some e)
      | (h1, ms, None) \<Rightarrow>
          (let file2 = file1\<lparr>sfMetadata := ms\<rparr> in
           case Save_content E n foundFile (sfFile file2) h1 of
             (h2, c, Some e) \<Rightarrow> (h2, file2\<lparr>sfFile := c\<rparr>, [], Some e)
           | (h2, c, None) \<Rightarrow>
               (let file3 = file2\<lparr>sfFile := c\<rparr>;
                    (h3, e) = retryWriteTx E n (UpdateFile (sfID foundFile) file3) h2
                in (h3, file3, itoa_nat (sfID foundFile), e))))"

definition Save_create ::
  "store_env \<Rightarrow> nat \<Rightarrow> StoredFile \<Rightarrow> history \<Rightarrow> history \<times> StoredFile option \<times> string \<times> go_error option" where
  "Save_create E n file h =
     (let file1 = file\<lparr>sfFile := BeforeSave (dbSha256 E) (sfFile file)\<rparr> in
      case retryWriteTx E n (CreateFile file1) h of
        (h1, Some e) \<Rightarrow> (h1, Some file1, itoa_nat (sfID file1), Some e)
      | (h1, None) \<Rightarrow>
          (let file2 = dbAssignFile E h1 file1 in (h1, Some file2, itoa_nat (sfID file2), None)))"

definition Save ::
  "store_env \<Rightarrow> nat \<Rightarrow> StoredFile option \<Rightarrow> history \<Rightarrow>
     history \<times> StoredFile option \<times> string \<times> go_error option" where
  "Save E n filep h =
     (case filep of
        None \<Rightarrow> (h, None, [], Some (wrap ''file is nil'' ErrInvalidInput))
      | Some file \<Rightarrow>
          (case Save_lookup E h file of
             Inl err \<Rightarrow> (h, Some file, [], Some err)
           | Inr foundp \<Rightarrow>
               (case foundp of
                  None \<Rightarrow> Save_create E n file h
                | Some foundFile \<Rightarrow>
                    (if sfID foundFile = 0 then Save_create E n file h
                     else (case Save_update E n foundFile file h of
                             (h', file', i, e) \<Rightarrow> (h', Some file', i, e))))))"

definition store_Delete :: "store_env \<Rightarrow> nat \<Rightarrow> string \<Rightarrow> bool \<Rightarrow> history \<Rightarrow> history \<times> go_error option" where
  "store_Delete E n fid permanent h =
     (case ConvertStrToUint fid of
        Inl err \<Rightarrow> (h, Some err)
      | Inr idInt \<Rightarrow> retryWriteTx E n (DeleteFile permanent idInt) h)"

definition store_Download :: "store_env \<Rightarrow> history \<Rightarrow> string \<Rightarrow> StoredFile result" where
  "store_Download E h fid = dbFirstById E h fid"

text \<open>The three deletes of \<open>CleanTombstones\<close>, in one transaction.\<close>

definition CleanTombstones_tx :: "store_env \<Rightarrow> nat \<Rightarrow> go_time \<Rightarrow> history \<Rightarrow> history \<times> int \<times> go_error option" where
  "CleanTombstones_tx E n cutoff h =
     (case retryWriteTx E n (DeleteContentsBefore cutoff) h of
        (h1, Some e) \<Rightarrow> (h1, 0, Some e)
      | (h1, None) \<Rightarrow>
     (case retryWriteTx E n (DeleteMetadataBefore cutoff) h1 of
        (h2, Some e) \<Rightarrow> (h2, 0, Some e)
      | (h2, None) \<Rightarrow>
     (case retryWriteTx E n (DeleteFilesBefore cutoff) h2 of
        (h3, Some e) \<Rightarrow> (h3, 0, Some e)
      | (h3, None) \<Rightarrow> (h3, dbRows E h3 (DeleteFilesBefore cutoff), None))))"

definition store_exec :: "store_env \<Rightarrow> db_write \<Rightarrow> history \<Rightarrow> history \<times> go_error option" where
  "store_exec E w h = (h @ [(w, dbExec E h w)], dbExec E h w)"

definition store_CleanTombstones :: "store_env \<Rightarrow> nat \<Rightarrow> history \<Rightarrow> history \<times> int \<times> go_error option" where
  "store_CleanTombstones E n h =
     (let cutoff = dbNow E - dbCleanupAfter E in
      case store_exec E TxBegin h of
        (h1, Some e) \<Rightarrow> (h1, 0, Some e)
      | (h1, None) \<Rightarrow>
          (case CleanTombstones_tx E n cutoff h1 of
             (h2, rows, Some e) \<Rightarrow> (fst (store_exec E TxRollback h2), 0, Some e)
           | (h2, rows, None) \<Rightarrow>
               (case store_exec E TxCommit h2 of
                  (h3, Some e) \<Rightarrow> (h3, 0, Some e)
                | (h3, None) \<Rightarrow> (h3, rows, None))))"

section \<open>Listing\<close>

record ListPagination =
  lpPage :: int
  lpPageSize :: int

record ListOptions =
  loPagination :: "ListPagination option"
  loShowDeleted :: bool
  loFilters :: "Filter list"

datatype ListOption = OptPagination ListPagination | OptShowDeleted | OptFilters "Filter list"

fun ApplyToList :: "ListOption \<Rightarrow> ListOptions \<Rightarrow> ListOptions" where
  "ApplyToList (OptPagination l) opts = opts\<lparr>loPagination := Some l\<rparr>"
| "ApplyToList OptShowDeleted opts = opts\<lparr>loShowDeleted := True\<rparr>"
| "ApplyToList (OptFilters f) opts = opts\<lparr>loFilters := f\<rparr>"

fun ApplyOptions_loop :: "ListOption list \<Rightarrow> ListOptions \<Rightarrow> ListOptions" where
  "ApplyOptions_loop [] o' = o'"
| "ApplyOptions_loop (opt # opts) o' = ApplyOptions_loop opts (ApplyToList opt o')"

definition ApplyOptions :: "ListOption list \<Rightarrow> ListOptions \<Rightarrow> ListOptions" where
  "ApplyOptions opts o' =
     ApplyOptions_loop opts (o'\<lparr>loPagination := Some \<lparr>lpPage = 1, lpPageSize = 10\<rparr>\<rparr>)"

definition clamp_page_size :: "int \<Rightarrow> int" where
  "clamp_page_size pageSize = (if pageSize > 100 then 100 else if pageSize \<le> 0 then 10 else pageSize)"

definition Paginate :: "string \<Rightarrow> int \<Rightarrow> ListOption" where
  "Paginate pageToken pageSize =
     (let page = (if pageToken = [] then 1
                  else (case Atoi pageToken of Inl err \<Rightarrow> 1 | Inr p \<Rightarrow> p))
      in OptPagination \<lparr>lpPage = page, lpPageSize = clamp_page_size pageSize\<rparr>)"

text \<open>The offset and limit of a page; gorm writes no offset unless it is positive.\<close>

definition paginator_ToScope :: "ListOptions \<Rightarrow> (int \<times> int) option" where
  "paginator_ToScope opts =
     (case loPagination opts of
        None \<Rightarrow> None
      | Some l \<Rightarrow>
          (let page = (if lpPage l = 0 then 1 else lpPage l);
               pageSize = clamp_page_size (lpPageSize l)
           in Some (wrap64 ((page - 1) * pageSize), pageSize + 1)))"

definition apply_page :: "(int \<times> int) option \<Rightarrow> 'a list \<Rightarrow> 'a list" where
  "apply_page scope rows =
     (case scope of
        None \<Rightarrow> rows
      | Some (offset, limit) \<Rightarrow> take (nat limit) (drop (nat offset) rows))"

text \<open>The files of a page, the token of the next one, and the error.\<close>

definition store_List ::
  "store_env \<Rightarrow> history \<Rightarrow> ListOption list \<Rightarrow> StoredFile list \<times> string \<times> go_error option" where
  "store_List E h opts =
     (let listOpts = ApplyOptions opts \<lparr>loPagination = None, loShowDeleted = False, loFilters = []\<rparr>;
          pagination = (case loPagination listOpts of None \<Rightarrow> \<lparr>lpPage = 0, lpPageSize = 0\<rparr> | Some l \<Rightarrow> l);
          query = dbQuery E h (loShowDeleted listOpts) (filter_ToScope (dbScope E) (loFilters listOpts));
          files = (case query of Inl err \<Rightarrow> [] | Inr rows \<Rightarrow> apply_page (paginator_ToScope listOpts) rows);
          err = (case query of Inl err \<Rightarrow> Some err | Inr rows \<Rightarrow> None)
      in if int (length files) = lpPageSize pagination + 1
         then (take (length files - 1) files, Itoa (wrap64 (lpPage pagination + 1)), err)
         else (files, [], err))"

section \<open>What is written\<close>

text \<open>The writes of a history that succeeded, in order.\<close>

definition committed :: "history \<Rightarrow> db_write list" where
  "committed h = map fst (filter (\<lambda>(w, e). e = None) h)"

lemma committed_append [simp]: "committed (h @ g) = committed h @ committed g"
  by (simp add: committed_def)

lemma committed_single [simp]: "committed [(w, e)] = (if e = None then [w] else [])"
  by (simp add: committed_def)

lemma retry_committed:
  "retryWriteTx E n w h = (h', e) \<Longrightarrow> committed h' = committed h @ (if e = None then [w] else [])"
  by (induction E n w h rule: retryWriteTx.induct) (auto split: if_splits)

text \<open>The write that stores one metadata entry of a file.\<close>

definition stores_metadata :: "nat \<Rightarrow> StoredFileMetadata \<Rightarrow> db_write \<Rightarrow> bool" where
  "stores_metadata fid m w \<longleftrightarrow> w = CreateMetadata (m\<lparr>mdFileID := fid\<rparr>) \<or> (\<exists>found. w = UpdateMetadata found m)"

lemma stores_metadata_intros [simp]:
  "stores_metadata fid m (CreateMetadata (m\<lparr>mdFileID := fid\<rparr>))" "stores_metadata fid m (UpdateMetadata found m)"
  by (simp_all add: stores_metadata_def)

lemma Save_metadata_committed:
  "Save_metadata E n fid ms h = (h', ms', None) \<Longrightarrow>
     \<exists>ws. committed h' = committed h @ ws \<and> list_all2 (stores_metadata fid) ms ws"
proof (induction E n fid ms h arbitrary: h' ms' rule: Save_metadata.induct)
  case (2 E n fid m ms h)
  show ?case
  proof (cases "dbFirstMetadata E h fid (mdKey m)")
    case (Inl err)
    with 2(3) obtain h1 ms1 where err: "err = ErrRecordNotFound"
      and w: "retryWriteTx E n (CreateMetadata (m\<lparr>mdFileID := fid\<rparr>)) h = (h1, None)"
      and r: "Save_metadata E n fid ms h1 = (h', ms1, None)"
      by (auto simp: Let_def split: if_splits prod.splits option.splits)
    from 2(1) [OF Inl _ refl w [symmetric] refl r] err obtain ws where
      "committed h' = committed h1 @ ws" "list_all2 (stores_metadata fid) ms ws" by auto
    with retry_committed [OF w] show ?thesis
      by (intro exI [of _ "CreateMetadata (m\<lparr>mdFileID := fid\<rparr>) # ws"]) simp
  next
    case (Inr found)
    with 2(3) obtain h1 ms1 where
      w: "retryWriteTx E n (UpdateMetadata found m) h = (h1, None)"
      and r: "Save_metadata E n fid ms h1 = (h', ms1, None)"
      by (auto simp: Let_def split: if_splits prod.splits option.splits)
    from 2(2) [OF Inr w [symmetric] refl r] obtain ws where
      "committed h' = committed h1 @ ws" "list_all2 (stores_metadata fid) ms ws" by auto
    with retry_committed [OF w] show ?thesis
      by (intro exI [of _ "UpdateMetadata found m # ws"]) simp
  qed
qed simp

text \<open>The writes that store the content of a file: none when it is empty.\<close>

definition stores_content :: "(bytes \<Rightarrow> string) \<Rightarrow> StoredFile \<Rightarrow> StoredFileContent \<Rightarrow> db_write list \<Rightarrow> bool" where
  "stores_content sha found c ws \<longleftrightarrow>
     (if coContent c = [] then ws = []
      else if coID c \<noteq> 0 then ws = [UpdateContent (sfFile found) c]
      else ws = [CreateContent (BeforeSave sha (c\<lparr>coFileID := sfID found\<rparr>))])"

lemma Save_content_committed:
  "Save_content E n found c h = (h', c', None) \<Longrightarrow>
     \<exists>ws. committed h' = committed h @ ws \<and> stores_content (dbSha256 E) found c ws"
  by (auto simp: Save_content_def stores_content_def Let_def dest: retry_committed
      split: if_splits prod.splits option.splits)

lemma Save_update_committed:
  assumes "Save_update E n found file h = (h', file', i, None)"
  shows "i = itoa_nat (sfID found) \<and>
     (\<exists>ws cs. committed h' = committed h @ ws @ cs @ [UpdateFile (sfID found) file'] \<and>
        list_all2 (stores_metadata (sfID found)) (sfMetadata file) ws \<and>
        stores_content (dbSha256 E) found (sfFile file) cs \<and> \<not> daValid (sfDeletedAt file'))"
proof -
  let ?file1 = "file\<lparr>sfDeletedAt := \<lparr>daTime = 0, daValid = False\<rparr>\<rparr>"
  from assms obtain h1 ms h2 c where
    m: "Save_metadata E n (sfID found) (sfMetadata file) h = (h1, ms, None)"
    and c: "Save_content E n found (sfFile file) h1 = (h2, c, None)"
    and f: "file' = ?file1\<lparr>sfMetadata := ms, sfFile := c\<rparr>"
    and u: "retryWriteTx E n (UpdateFile (sfID found) file') h2 = (h', None)"
    and i: "i = itoa_nat (sfID found)"
    by (auto simp: Save_update_def Let_def split: prod.splits option.splits)
  obtain ws cs where "committed h1 = committed h @ ws" "committed h2 = committed h1 @ cs"
    and "list_all2 (stores_metadata (sfID found)) (sfMetadata file) ws"
    and "stores_content (dbSha256 E) found (sfFile file) cs"
    using Save_metadata_committed [OF m] Save_content_committed [OF c] by blast
  with retry_committed [OF u] i show ?thesis
    by (intro conjI exI [of _ ws] exI [of _ cs]) (simp_all add: f)
qed

text \<open>
  What a successful \<open>Save\<close> writes. A file that is not in the store is created by one
  write, with size and checksum of its content; otherwise one write per metadata entry
  creates or updates that entry of the stored file, then its content is stored unless it is
  empty, and last the file itself is updated, never with a deletion time. The returned id
  is the one of the stored file.
\<close>
theorem Save_writes:
  assumes "Save E n (Some file) h = (h', Some file', i, None)"
  shows "case Save_lookup E h file of
       Inl err \<Rightarrow> False
     | Inr foundp \<Rightarrow>
         (case foundp of
            Some found \<Rightarrow> (if sfID found \<noteq> 0 then
              i = itoa_nat (sfID found) \<and>
              (\<exists>ws cs. committed h' = committed h @ ws @ cs @ [UpdateFile (sfID found) file'] \<and>
                 list_all2 (stores_metadata (sfID found)) (sfMetadata file) ws \<and>
                 stores_content (dbSha256 E) found (sfFile file) cs \<and> \<not> daValid (sfDeletedAt file'))
              else committed h' = committed h @ [CreateFile (file\<lparr>sfFile := BeforeSave (dbSha256 E) (sfFile file)\<rparr>)] \<and>
                   i = itoa_nat (sfID file'))
          | None \<Rightarrow> committed h' = committed h @ [CreateFile (file\<lparr>sfFile := BeforeSave (dbSha256 E) (sfFile file)\<rparr>)] \<and>
                    i = itoa_nat (sfID file'))"
proof -
  have create: "Save_create E n file h = (h', Some file', i, None) \<Longrightarrow>
      committed h' = committed h @ [CreateFile (file\<lparr>sfFile := BeforeSave (dbSha256 E) (sfFile file)\<rparr>)] \<and>
      i = itoa_nat (sfID file')"
    by (auto simp: Save_create_def Let_def dest: retry_committed split: prod.splits option.splits)
  show ?thesis
  proof (cases "Save_lookup E h file")
    case (Inl err)
    with assms show ?thesis by (simp add: Save_def)
  next
    case (Inr foundp)
    show ?thesis
    proof (cases foundp)
      case None
      with assms Inr create show ?thesis by (simp add: Save_def)
    next
      case (Some found)
      with assms Inr create Save_update_committed [where found = found] show ?thesis
        by (auto simp: Save_def split: prod.splits if_splits)
    qed
  qed
qed

definition demo_store :: store_env where
  "demo_store = \<lparr>dbFind = (\<lambda>_ i. if i = 7 then Inr (zero_file\<lparr>sfID := 7\<rparr>) else Inr zero_file),
     dbFirstByKey = (\<lambda>_ _. Inl ErrRecordNotFound), dbFirstMetadata = (\<lambda>_ _ _. Inl ErrRecordNotFound),
     dbFirstById = (\<lambda>_ _. Inr (zero_file\<lparr>sfFile := zero_content\<lparr>coContent := ''data'', coChecksum := ''data''\<rparr>\<rparr>)),
     dbQuery = (\<lambda>_ _ _. Inr (map (\<lambda>i. zero_file\<lparr>sfID := i\<rparr>) [1, 2, 3])),
     dbExec = (\<lambda>h _. if h = [] then Some ErrDatabaseIsLocked else None), dbRows = (\<lambda>_ _. 1),
     dbAssignFile = (\<lambda>h f. f\<lparr>sfID := 5\<rparr>), dbAssignMetadata = (\<lambda>_ m. m), dbAssignContent = (\<lambda>_ c. c),
     dbSha256 = id, dbScope = demo_scope, dbNow = 100, dbCleanupAfter = 10\<rparr>"

theorem Save_writes_witness:
  "\<exists>h' file'. Save demo_store 1 (Some (zero_file\<lparr>sfID := 7\<rparr>)) [] = (h', Some file', ''7'', None) \<and>
     committed h' = [UpdateFile 7 file'] \<and> \<not> daValid (sfDeletedAt file')"
proof -
  have seven: "itoa_nat 7 = ''7''" by code_simp
  have look: "Save_lookup demo_store [] (zero_file\<lparr>sfID := 7\<rparr>) = Inr (Some (zero_file\<lparr>sfID := 7\<rparr>))"
    using ParseUint_itoa [of 7]
    by (simp add: Save_lookup_def store_Get_def ConvertStrToUint_def int_of_uint_def wrap64_def Itoa_def demo_store_def)
  then obtain h' file' where
    s: "Save demo_store 1 (Some (zero_file\<lparr>sfID := 7\<rparr>)) [] = (h', Some file', ''7'', None)"
    by (simp add: Save_def Save_update_def Save_content_def zero_file_def zero_content_def demo_store_def seven Let_def)
  from Save_writes [OF s] look s show ?thesis
    by (auto simp: stores_content_def zero_file_def zero_content_def committed_def)
qed

section \<open>Tombstones\<close>

text \<open>
  The clean-up of tombstones is one transaction. When it succeeds, the contents, the
  metadata and then the files of the same cut-off are deleted between the begin and the
  commit; when it fails, either nothing was begun, or the transaction was rolled back, or
  the commit itself failed.
\<close>
theorem CleanTombstones_transaction:
  "store_CleanTombstones E n h = (h', rows, err) \<Longrightarrow>
     (let cutoff = dbNow E - dbCleanupAfter E in
      case err of
        None \<Rightarrow> committed h' = committed h @ [TxBegin, DeleteContentsBefore cutoff, DeleteMetadataBefore cutoff,
                  DeleteFilesBefore cutoff, TxCommit]
      | Some e \<Rightarrow> rows = 0 \<and> TxCommit \<notin> set (drop (length (committed h)) (committed h')) \<and>
          (committed h' = committed h \<or> fst (last h') \<in> {TxRollback, TxCommit}))"
  by (auto simp: store_CleanTombstones_def CleanTombstones_tx_def store_exec_def Let_def
      dest!: retry_committed split: prod.splits option.splits)

theorem CleanTombstones_transaction_witness:
  "\<exists>h' rows. store_CleanTombstones demo_store 0 [(TxRollback, None)] = (h', rows, None) \<and>
     committed h' = [TxRollback, TxBegin, DeleteContentsBefore 90, DeleteMetadataBefore 90, DeleteFilesBefore 90, TxCommit]"
proof -
  obtain h' rows where s: "store_CleanTombstones demo_store 0 [(TxRollback, None)] = (h', rows, None)"
    by (simp add: store_CleanTombstones_def CleanTombstones_tx_def store_exec_def demo_store_def)
  from CleanTombstones_transaction [OF s] s show ?thesis by (simp add: demo_store_def committed_def)
qed

section \<open>Paging\<close>

text \<open>
  A client that asks for pages of a size and follows the tokens it gets, at most
  \<open>k\<close> times.
\<close>

fun follow_pages :: "store_env \<Rightarrow> history \<Rightarrow> ListOption list \<Rightarrow> int \<Rightarrow> nat \<Rightarrow> string \<Rightarrow> StoredFile list" where
  "follow_pages E h opts psize 0 token = []"
| "follow_pages E h opts psize (Suc k) token =
     (case store_List E h (Paginate token psize # opts) of
        (files, nextToken', err) \<Rightarrow>
          files @ (if nextToken' = [] then [] else follow_pages E h opts psize k nextToken'))"

definition no_pagination :: "ListOption list \<Rightarrow> bool" where
  "no_pagination opts \<longleftrightarrow> (\<forall>l. OptPagination l \<notin> set opts)"

lemma ApplyOptions_loop_pagination:
  "no_pagination opts \<Longrightarrow> loPagination (ApplyOptions_loop opts o') = loPagination o'"
proof (induction opts arbitrary: o')
  case (Cons opt opts)
  then show ?case by (cases opt) (auto simp: no_pagination_def)
qed simp

lemma ApplyOptions_loop_same:
  "loShowDeleted a = loShowDeleted b \<Longrightarrow> loFilters a = loFilters b \<Longrightarrow>
     loShowDeleted (ApplyOptions_loop opts a) = loShowDeleted (ApplyOptions_loop opts b) \<and>
     loFilters (ApplyOptions_loop opts a) = loFilters (ApplyOptions_loop opts b)"
proof (induction opts arbitrary: a b)
  case (Cons opt opts)
  show ?case unfolding ApplyOptions_loop.simps
    by (rule Cons.IH) (cases opt; use Cons.prems in simp)+
qed simp

lemma clamp_page_size_bounds: "1 \<le> clamp_page_size s" "clamp_page_size s \<le> 100"
  by (simp_all add: clamp_page_size_def)

lemma clamp_page_size_idem [simp]: "clamp_page_size (clamp_page_size s) = clamp_page_size s"
  by (simp add: clamp_page_size_def)

text \<open>The rows the options select, whatever the page.\<close>

definition selected_rows :: "store_env \<Rightarrow> history \<Rightarrow> ListOption list \<Rightarrow> StoredFile list result" where
  "selected_rows E h opts =
     (let o' = ApplyOptions opts \<lparr>loPagination = None, loShowDeleted = False, loFilters = []\<rparr>
      in dbQuery E h (loShowDeleted o') (filter_ToScope (dbScope E) (loFilters o')))"

lemma store_List_page:
  assumes "no_pagination opts" "selected_rows E h opts = Inr rows"
    and "Paginate token psize = OptPagination \<lparr>lpPage = int (Suc p), lpPageSize = s\<rparr>"
    and "int p * s < 2 ^ 63 - 1" "0 \<le> int p" "int p < 2 ^ 62"
  shows "store_List E h (Paginate token psize # opts) =
     (let page = take (nat s) (drop (p * nat s) rows)
      in if nat s < length (drop (p * nat s) rows) then (page, Itoa (int p + 2), None) else (page, [], None))"
proof -
  have s: "clamp_page_size s = s" "1 \<le> s"
    using assms(3) clamp_page_size_bounds(1) [of psize] by (auto simp: Paginate_def Let_def)
  let ?o = "ApplyOptions (Paginate token psize # opts) \<lparr>loPagination = None, loShowDeleted = False, loFilters = []\<rparr>"
  have pag: "loPagination ?o = Some \<lparr>lpPage = int (Suc p), lpPageSize = s\<rparr>"
    by (simp add: ApplyOptions_def assms(3) ApplyOptions_loop_pagination [OF assms(1)])
  have q: "dbQuery E h (loShowDeleted ?o) (filter_ToScope (dbScope E) (loFilters ?o)) = Inr rows"
    using assms(2) ApplyOptions_loop_same [of
      "\<lparr>loPagination = Some \<lparr>lpPage = int (Suc p), lpPageSize = s\<rparr>, loShowDeleted = False, loFilters = []\<rparr>"
      "\<lparr>loPagination = Some \<lparr>lpPage = 1, lpPageSize = 10\<rparr>, loShowDeleted = False, loFilters = []\<rparr>" opts]
    by (simp add: selected_rows_def ApplyOptions_def assms(3) Let_def)
  have off: "wrap64 (int p * s) = int p * s" "wrap64 (int p + 2) = int p + 2"
    using assms(4-) s by (auto intro!: wrap64_id intro: order_trans [of _ 0])
  then have off': "wrap64 (1 + int p + 1) = int p + 2" by (simp add: add.commute add.left_commute)
  have "nat (int p * s) = p * nat s" "nat (s + 1) = Suc (nat s)"
    using s by (simp_all add: nat_mult_distrib nat_add_distrib)
  then have L: "store_List E h (Paginate token psize # opts) =
      (let files = take (Suc (nat s)) (drop (p * nat s) rows)
       in if int (length files) = s + 1 then (take (length files - 1) files, Itoa (int p + 2), None)
          else (files, [], None))"
    using off(1) off' s(1) by (simp add: store_List_def pag q paginator_ToScope_def apply_page_def Let_def)
  show ?thesis
  proof (cases "nat s < length (drop (p * nat s) rows)")
    case True
    then have "length (take (Suc (nat s)) (drop (p * nat s) rows)) = Suc (nat s)" by simp
    with True s(2) show ?thesis unfolding L by (simp add: min_def)
  next
    case False
    then have "take (Suc (nat s)) (drop (p * nat s) rows) = drop (p * nat s) rows"
      "take (nat s) (drop (p * nat s) rows) = drop (p * nat s) rows" by simp_all
    with False s(2) show ?thesis unfolding L by (auto simp: Let_def)
  qed
qed

lemma store_List_length:
  assumes "no_pagination opts"
  shows "length (fst (store_List E h (Paginate token psize # opts))) \<le> 100"
proof -
  let ?o = "ApplyOptions (Paginate token psize # opts) \<lparr>loPagination = None, loShowDeleted = False, loFilters = []\<rparr>"
  define s where "s = clamp_page_size psize"
  obtain p where pag: "loPagination ?o = Some \<lparr>lpPage = p, lpPageSize = s\<rparr>"
    by (simp add: ApplyOptions_def Paginate_def Let_def ApplyOptions_loop_pagination [OF assms] s_def)
  define F where "F = (case dbQuery E h (loShowDeleted ?o) (filter_ToScope (dbScope E) (loFilters ?o)) of
      Inl err \<Rightarrow> [] | Inr rows \<Rightarrow> apply_page (paginator_ToScope ?o) rows)"
  have s: "1 \<le> s" "s \<le> 100" "clamp_page_size s = s" using clamp_page_size_bounds by (simp_all add: s_def)
  then have "int (length F) \<le> s + 1"
    by (simp add: F_def pag paginator_ToScope_def apply_page_def Let_def min_def split: sum.split) linarith
  moreover have "fst (store_List E h (Paginate token psize # opts)) =
      (if int (length F) = s + 1 then take (length F - 1) F else F)"
    unfolding store_List_def Let_def pag F_def [symmetric] by simp
  ultimately show ?thesis using s by (auto split: if_splits)
qed

lemma Paginate_token:
  "int p < 2 ^ 62 \<Longrightarrow> Paginate (if p = 0 then [] else Itoa (int (Suc p))) psize =
     OptPagination \<lparr>lpPage = int (Suc p), lpPageSize = clamp_page_size psize\<rparr>"
  using Atoi_Itoa [of "int (Suc p)"] by (simp add: Paginate_def)

lemma follow_from_page:
  fixes psize :: int
  defines "s \<equiv> nat (clamp_page_size psize)"
  assumes "no_pagination opts" "selected_rows E h opts = Inr rows" "length rows < 2 ^ 50"
    and "p * s \<le> length rows" "length rows < (p + k) * s"
  shows "follow_pages E h opts psize k (if p = 0 then [] else Itoa (int (Suc p))) = drop (p * s) rows"
  using assms(5,6)
proof (induction k arbitrary: p)
  case (Suc k)
  have s1: "1 \<le> s" "s \<le> 100" "int s = clamp_page_size psize"
    using clamp_page_size_bounds [of psize] by (auto simp: s_def)
  have "p \<le> p * s" using s1(1) by simp
  with Suc.prems(1) assms(4) have "p < 2 ^ 50" "p * s < 2 ^ 50" by linarith+
  then have p: "int p < 2 ^ 50" "int p * int s < 2 ^ 50"
    by (simp_all flip: of_nat_mult)
  let ?tok = "if p = 0 then [] else Itoa (int (Suc p))"
  have pag: "Paginate ?tok psize = OptPagination \<lparr>lpPage = int (Suc p), lpPageSize = int s\<rparr>"
    using Paginate_token [of p psize] p s1(3) by simp
  have L: "store_List E h (Paginate ?tok psize # opts) =
      (let page = take s (drop (p * s) rows)
       in if s < length (drop (p * s) rows) then (page, Itoa (int p + 2), None) else (page, [], None))"
    using store_List_page [OF assms(2,3) pag] p by simp
  show ?case
  proof (cases "s < length (drop (p * s) rows)")
    case True
    then have "Suc p * s \<le> length rows" "length rows < (Suc p + k) * s"
      using Suc.prems by simp_all
    from Suc.IH [OF this] have "follow_pages E h opts psize k (Itoa (int p + 2)) = drop (s + p * s) rows"
      by (simp add: add.commute)
    with True show ?thesis by (simp only: follow_pages.simps L) (simp add: Let_def add.commute flip: drop_drop)
  next
    case False
    then show ?thesis by (simp only: follow_pages.simps L) (simp add: Let_def)
  qed
qed simp

text \<open>
  C12: paging is complete and exact. On an unchanged store, a client that starts without a
  page token and follows the tokens it is given gets every selected file exactly once and
  in the order of the query, whatever page size it asks for; the last page carries no token.
\<close>
theorem paging_enumerates_all:
  assumes "no_pagination opts" "selected_rows E h opts = Inr rows" "length rows < 2 ^ 50"
    and "length rows < k"
  shows "follow_pages E h opts psize k [] = rows"
proof -
  have "1 \<le> nat (clamp_page_size psize)" using clamp_page_size_bounds(1) [of psize] by simp
  then have "k \<le> k * nat (clamp_page_size psize)" by simp
  with assms(4) have "length rows < k * nat (clamp_page_size psize)" by linarith
  then show ?thesis using assms follow_from_page [of opts E h rows 0 psize k] by simp
qed

theorem paging_enumerates_all_witness:
  "follow_pages demo_store [] [OptShowDeleted] 2 4 [] = map (\<lambda>i. zero_file\<lparr>sfID := i\<rparr>) [1, 2, 3]"
  by (rule paging_enumerates_all) (simp_all add: no_pagination_def selected_rows_def demo_store_def)

end
