(* ===== verification/FileServer.thy ===== *)
theory FileServer
  imports FileStore
begin

text \<open>
  The gRPC handlers of the data service (\<open>airgap/v2/internal/server/fileserver.go\<close>), the
  conversions between stored files and messages (\<open>airgap/v2/pkg/models/v2/transform.go\<close>)
  and the helper that receives a download
  (\<open>airgap/v2/apis/dataservice/v1/fileserver/utils.go\<close>). Times count from Go's zero time.
  A stream is the list of its messages and how it ends; sending can fail at any message.
\<close>

section \<open>Messages\<close>

record FileInfo =
  fiId :: string
  fiName :: string
  fiSource :: string
  fiSourceType :: string
  fiCreatedAt :: go_time
  fiUpdatedAt :: go_time
  fiDeletedAt :: "go_time option"
  fiChecksum :: string
  fiSize :: nat
  fiMimeType :: string
  fiMetadata :: smap

datatype grpc_code = CInvalidArgument | CInternal | CNotFound | CUnknown | CFailedPrecondition | CDataLoss

record grpc_status =
  gsCode :: grpc_code
  gsMessage :: string

type_synonym 'a rpc = "grpc_status + 'a"

definition Errorf :: "grpc_code \<Rightarrow> string \<Rightarrow> grpc_status" where
  "Errorf c msg = \<lparr>gsCode = c, gsMessage = msg\<rparr>"

text \<open>\<open>order\<close> is the order in which Go visits the metadata map.\<close>

fun metadata_list :: "smap \<Rightarrow> string list \<Rightarrow> StoredFileMetadata list" where
  "metadata_list m [] = []"
| "metadata_list m (k # ks) =
     (case m k of
        None \<Rightarrow> metadata_list m ks
      | Some v \<Rightarrow> \<lparr>mdID = 0, mdCreatedAt = 0, mdUpdatedAt = 0, mdFileID = 0, mdKey = k, mdValue = v\<rparr>
                 # metadata_list m ks)"

definition StoredFileFromProto :: "(smap \<Rightarrow> string list) \<Rightarrow> FileInfo \<Rightarrow> StoredFile" where
  "StoredFileFromProto order finfo =
     zero_file\<lparr>sfName := fiName finfo, sfSource := fiSource finfo, sfSourceType := fiSourceType finfo,
       sfMetadata := metadata_list (fiMetadata finfo) (order (fiMetadata finfo))\<rparr>"

fun metadata_map :: "StoredFileMetadata list \<Rightarrow> smap \<Rightarrow> smap" where
  "metadata_map [] m = m"
| "metadata_map (md # mds) m = metadata_map mds (m(mdKey md \<mapsto> mdValue md))"

definition StoredFileToProto :: "StoredFile \<Rightarrow> FileInfo" where
  "StoredFileToProto file =
     \<lparr>fiId = itoa_nat (sfID file), fiName = sfName file, fiSource = sfSource file,
      fiSourceType = sfSourceType file, fiCreatedAt = sfCreatedAt file, fiUpdatedAt = sfUpdatedAt file,
      fiDeletedAt = (if daTime (sfDeletedAt file) \<noteq> 0 then Some (daTime (sfDeletedAt file)) else None),
      fiChecksum = coChecksum (sfFile file), fiSize = nat (coSize (sfFile file) mod 2 ^ 32),
      fiMimeType = coMimeType (sfFile file), fiMetadata = metadata_map (sfMetadata file) Map.empty\<rparr>"

section \<open>Upload\<close>

datatype upload_request = ChunkData bytes | Info FileInfo

text \<open>The receive loop: the collected bytes and the last file information.\<close>

fun UploadFile_recv ::
  "upload_request list \<Rightarrow> go_error option \<Rightarrow> bytes \<Rightarrow> FileInfo option \<Rightarrow> (bytes \<times> FileInfo option) rpc" where
  "UploadFile_recv [] (Some err) bs finfo =
     Inl (Errorf CUnknown (''Error while processing stream, details: '' @ error_string err))"
| "UploadFile_recv [] None bs finfo = Inr (bs, finfo)"
| "UploadFile_recv (ChunkData b # rest) stop bs finfo = UploadFile_recv rest stop (bs @ b) finfo"
| "UploadFile_recv (Info i # rest) stop bs finfo = UploadFile_recv rest stop bs (Some i)"

record upload_stream =
  usRequests :: "upload_request list"
  usEnd :: "go_error option"
  usSendErr :: "go_error option"

text \<open>The reply is the id and the size; a failing reply is the error of the stream.\<close>

definition UploadFile ::
  "store_env \<Rightarrow> nat \<Rightarrow> (smap \<Rightarrow> string list) \<Rightarrow> upload_stream \<Rightarrow> history \<Rightarrow> history \<times> (string \<times> nat) rpc" where
  "UploadFile E n order stream h =
     (case UploadFile_recv (usRequests stream) (usEnd stream) [] None of
        Inl e \<Rightarrow> (h, Inl e)
      | Inr (bs, finfop) \<Rightarrow>
          (case finfop of
             None \<Rightarrow> (h, Inl (Errorf CFailedPrecondition ''no file info provided''))
           | Some finfo \<Rightarrow>
               (if length bs = 0 then (h, Inl (Errorf CFailedPrecondition ''no file data provided''))
                else
                  (let file0 = StoredFileFromProto order finfo;
                       file = file0\<lparr>sfFile := (sfFile file0)\<lparr>coContent := bs, coMimeType := fiMimeType finfo\<rparr>\<rparr>
                   in case Save E n (Some file) h of
                        (h', filep, i, Some err) \<Rightarrow>
                          (h', Inl (Errorf CUnknown (''Failed to save file in database: '' @ error_string err)))
                      | (h', filep, i, None) \<Rightarrow>
                          (let saved = (case filep of None \<Rightarrow> file | Some f \<Rightarrow> f) in
                           if coChecksum (sfFile saved) \<noteq> fiChecksum finfo
                           then (h', Inl (Errorf CDataLoss ''calculated checksum does not match''))
                           else
                             (case usSendErr stream of
                                Some err \<Rightarrow> (h', Inl (Errorf CUnknown (error_string err)))
                              | None \<Rightarrow> (h', Inr (i, nat (coSize (sfFile saved) mod 2 ^ 32)))))))))"

section \<open>Listing and lookup\<close>

definition int32_of :: "int \<Rightarrow> int" where
  "int32_of i = (i + 2 ^ 31) mod 2 ^ 32 - 2 ^ 31"

record ListFilesRequest =
  lfPageSize :: int
  lfPageToken :: string
  lfIncludeDeleted :: bool
  lfFilter :: string

record ListFilesResponse =
  lrFiles :: "FileInfo list"
  lrNextPageToken :: string
  lrPageSize :: int

text \<open>\<open>scan\<close> is the scanner that splits the filter text into lexemes.\<close>

definition ListFiles_options ::
  "(string \<Rightarrow> lexeme list) \<Rightarrow> ListFilesRequest \<Rightarrow> ListOption list rpc" where
  "ListFiles_options scan req =
     (let opts = (if lfIncludeDeleted req then [OptShowDeleted] else []) in
      if lfFilter req \<noteq> [] then
        (case UnmarshalText (scan (lfFilter req)) of
           Inl err \<Rightarrow> Inl (Errorf CInvalidArgument (''Filter is formatted incorrectly. Error: '' @ error_string err))
         | Inr filters \<Rightarrow> Inr (opts @ [OptFilters filters]))
      else Inr opts)"

definition ListFiles ::
  "store_env \<Rightarrow> (string \<Rightarrow> lexeme list) \<Rightarrow> ListFilesRequest \<Rightarrow> history \<Rightarrow> ListFilesResponse rpc" where
  "ListFiles E scan req h =
     (let pageSize = (if lfPageSize req \<noteq> 0 then lfPageSize req else 100) in
      case ListFiles_options scan req of
        Inl e \<Rightarrow> Inl e
      | Inr opts \<Rightarrow>
          (case store_List E h (Paginate (lfPageToken req) pageSize # opts) of
             (files, pageToken, Some err) \<Rightarrow> Inl (Errorf CInternal ''failed to list files'')
           | (files, pageToken, None) \<Rightarrow>
               Inr \<lparr>lrFiles = map StoredFileToProto files, lrNextPageToken = pageToken,
                    lrPageSize = int32_of pageSize\<rparr>))"

datatype id_lookup = LookupId string | LookupKey StoredFileKey | LookupNone

definition get_reply :: "StoredFile result \<Rightarrow> FileInfo rpc" where
  "get_reply r =
     (case r of
        Inl err \<Rightarrow>
          (if err = ErrNotFound then Inl (Errorf CNotFound ''not found'')
           else Inl (Errorf CInternal (''failed to get file '' @ error_string err)))
      | Inr file \<Rightarrow> Inr (StoredFileToProto file))"

definition GetFile :: "store_env \<Rightarrow> id_lookup \<Rightarrow> history \<Rightarrow> FileInfo rpc" where
  "GetFile E req h =
     (case req of
        LookupId i \<Rightarrow> if i \<noteq> [] then get_reply (store_Get E h i) else Inl (Errorf CInternal ''no key provided'')
      | LookupKey key \<Rightarrow> get_reply (GetByFileKey E h (Some key))
      | LookupNone \<Rightarrow> Inl (Errorf CInternal ''no key provided''))"

section \<open>Metadata updates\<close>

text \<open>
  The entries the request does not name are copied into its map; \<open>None\<close> is the nil map
  of a request without metadata, into which an assignment panics.
\<close>

fun keep_metadata :: "StoredFileMetadata list \<Rightarrow> smap option \<Rightarrow> smap option option" where
  "keep_metadata [] m = Some m"
| "keep_metadata (md # mds) m =
     (case m of
        None \<Rightarrow> None
      | Some mm \<Rightarrow>
          (if mm (mdKey md) = None then keep_metadata mds (Some (mm(mdKey md \<mapsto> mdValue md)))
           else keep_metadata mds m))"

datatype 'a reply = Reply "'a rpc" | Crash string

definition UpdateFileMetadata ::
  "store_env \<Rightarrow> nat \<Rightarrow> (smap \<Rightarrow> string list) \<Rightarrow> string \<Rightarrow> smap option \<Rightarrow> history \<Rightarrow> history \<times> FileInfo reply" where
  "UpdateFileMetadata E n order i metadata h =
     (case store_Get E h i of
        Inl err \<Rightarrow>
          (if err = ErrRecordNotFound then (h, Reply (Inl (Errorf CNotFound ''not found'')))
           else (h, Reply (Inl (Errorf CInternal (''failed to get file '' @ error_string err)))))
      | Inr file \<Rightarrow>
          (case keep_metadata (sfMetadata file) metadata of
             None \<Rightarrow> (h, Crash ''assignment to entry in nil map'')
           | Some m \<Rightarrow>
               (let mm = (case m of None \<Rightarrow> Map.empty | Some x \<Rightarrow> x);
                    file1 = file\<lparr>sfMetadata := metadata_list mm (order mm)\<rparr>
                in case Save E n (Some file1) h of
                     (h', filep, j, Some err) \<Rightarrow>
                       (h', Reply (Inl (Errorf CInternal (''failed to save file '' @ error_string err))))
                   | (h', filep, j, None) \<Rightarrow>
                       (h', Reply (Inr (StoredFileToProto (case filep of None \<Rightarrow> file1 | Some f \<Rightarrow> f)))))))"

section \<open>Download\<close>

definition chunkSize :: nat where "chunkSize = 1024"

text \<open>\<open>send i\<close> is the outcome of sending the \<open>i\<close>-th message.\<close>

function DownloadFile_loop ::
  "(nat \<Rightarrow> go_error option) \<Rightarrow> bytes \<Rightarrow> bytes list \<Rightarrow> bytes list \<times> grpc_status option" where
  "DownloadFile_loop send buf sent =
     (if length buf \<noteq> 0 then
        (let (chunk, buf') = (if length buf \<ge> chunkSize then (take chunkSize buf, drop chunkSize buf)
                              else (buf, drop (length buf) buf))
         in case send (length sent) of
              Some err \<Rightarrow> (sent, Some (Errorf CUnknown (''Error while sending response '' @ error_string err)))
            | None \<Rightarrow> DownloadFile_loop send buf' (sent @ [chunk]))
      else (sent, None))"
  by pat_completeness auto
termination
  by (relation "measure (\<lambda>(send, buf, sent). length buf)") (auto simp: chunkSize_def split: if_splits)

declare DownloadFile_loop.simps [simp del]

definition DownloadFile ::
  "store_env \<Rightarrow> string \<Rightarrow> (nat \<Rightarrow> go_error option) \<Rightarrow> history \<Rightarrow> bytes list \<times> grpc_status option" where
  "DownloadFile E i send h =
     (case store_Download E h i of
        Inl err \<Rightarrow> ([], Some (Errorf CInvalidArgument (''Failed to fetch file from database due to: '' @ error_string err)))
      | Inr file \<Rightarrow> DownloadFile_loop send (coContent (sfFile file)) [])"

text \<open>
  The receiving helper: what it has written, the checksum and the error it returns. Its
  named error result still holds the end-of-stream value when it returns normally.
\<close>

definition EOF :: go_error where "EOF = Err ''EOF''"

fun ProcessDownloadStream ::
  "(bytes \<Rightarrow> string) \<Rightarrow> (nat \<Rightarrow> go_error option) \<Rightarrow> bytes option list \<Rightarrow> go_error option \<Rightarrow> bytes \<Rightarrow> nat \<Rightarrow>
     bytes \<times> string \<times> go_error option" where
  "ProcessDownloadStream sha wr [] None out i = (out, sha out, Some EOF)"
| "ProcessDownloadStream sha wr [] (Some err) out i =
     (out, [], Some (wrap ''error while reading stream'' err))"
| "ProcessDownloadStream sha wr (None # rest) stop out i = ProcessDownloadStream sha wr rest stop out i"
| "ProcessDownloadStream sha wr (Some d # rest) stop out i =
     (case wr i of
        Some err \<Rightarrow> (out, [], Some (wrap ''failed to write file'' err))
      | None \<Rightarrow> ProcessDownloadStream sha wr rest stop (out @ d) (Suc i))"

record http_reply =
  hrStatus :: int
  hrDigest :: string
  hrBody :: bytes

definition httpDownloadFile :: "store_env \<Rightarrow> string option \<Rightarrow> history \<Rightarrow> http_reply" where
  "httpDownloadFile E idp h =
     (case idp of
        None \<Rightarrow> \<lparr>hrStatus = 400, hrDigest = [], hrBody = ''file id is not provided''\<rparr>
      | Some i \<Rightarrow>
          (case store_Download E h i of
             Inl err \<Rightarrow> \<lparr>hrStatus = 500, hrDigest = [], hrBody = error_string err\<rparr>
           | Inr file \<Rightarrow> \<lparr>hrStatus = 200, hrDigest = ''sha-256='' @ coChecksum (sfFile file),
                           hrBody = coContent (sfFile file)\<rparr>))"

section \<open>Deletion\<close>

definition DeleteFile_handler :: "store_env \<Rightarrow> nat \<Rightarrow> string \<Rightarrow> bool \<Rightarrow> history \<Rightarrow> history \<times> string rpc" where
  "DeleteFile_handler E n i permanent h =
     (case store_Delete E n i permanent h of
        (h', Some err) \<Rightarrow> (h', Inl (Errorf CInternal (''failed to delete file '' @ error_string err)))
      | (h', None) \<Rightarrow> (h', Inr i))"

definition CleanTombstones_handler :: "store_env \<Rightarrow> nat \<Rightarrow> history \<Rightarrow> history \<times> int rpc" where
  "CleanTombstones_handler E n h =
     (case store_CleanTombstones E n h of
        (h', rows, Some err) \<Rightarrow> (h', Inl (Errorf CInternal (''failed to clean tombstones '' @ error_string err)))
      | (h', rows, None) \<Rightarrow> (h', Inr (int32_of rows)))"

section \<open>Download round trip\<close>

text \<open>A list of chunks as the server cuts them: full ones, then a shorter one that is not empty.\<close>

fun well_cut :: "bytes list \<Rightarrow> bool" where
  "well_cut [] = True"
| "well_cut [c] = (0 < length c \<and> length c \<le> chunkSize)"
| "well_cut (c # cs) = (length c = chunkSize \<and> well_cut cs)"

lemma well_cut_Cons: "well_cut (c # cs) \<longleftrightarrow> (if cs = [] then 0 < length c \<and> length c \<le> chunkSize else length c = chunkSize \<and> well_cut cs)"
  by (cases cs) simp_all

lemma well_cut_concat: "well_cut cs \<Longrightarrow> concat cs = [] \<longleftrightarrow> cs = []"
  by (cases cs) (auto simp: well_cut_Cons chunkSize_def split: if_splits)

lemma DownloadFile_loop_ok:
  "(\<And>i. send i = None) \<Longrightarrow>
     \<exists>cs. DownloadFile_loop send buf sent = (sent @ cs, None) \<and> concat cs = buf \<and> well_cut cs"
proof (induction send buf sent rule: DownloadFile_loop.induct)
  case (1 send buf sent)
  show ?case
  proof (cases "buf = []")
    case False
    define chunk where "chunk = (if length buf \<ge> chunkSize then take chunkSize buf else buf)"
    define buf' where "buf' = (if length buf \<ge> chunkSize then drop chunkSize buf else [])"
    have eq: "DownloadFile_loop send buf sent = DownloadFile_loop send buf' (sent @ [chunk])"
      using False 1(2) by (subst DownloadFile_loop.simps) (simp add: chunk_def buf'_def)
    have "\<exists>cs. DownloadFile_loop send buf' (sent @ [chunk]) = ((sent @ [chunk]) @ cs, None) \<and> concat cs = buf' \<and> well_cut cs"
      using False 1(2) by (intro 1(1)) (auto simp: chunk_def buf'_def)
    then obtain cs where cs: "DownloadFile_loop send buf' (sent @ [chunk]) = ((sent @ [chunk]) @ cs, None)"
      "concat cs = buf'" "well_cut cs" by blast
    have "chunk @ buf' = buf" "0 < length chunk" "length chunk \<le> chunkSize" "buf' \<noteq> [] \<longrightarrow> length chunk = chunkSize"
      using False by (auto simp: chunk_def buf'_def chunkSize_def)
    with cs eq well_cut_concat [OF cs(3)] show ?thesis
      by (intro exI [of _ "chunk # cs"]) (auto simp: well_cut_Cons)
  qed (subst DownloadFile_loop.simps, simp)
qed

lemma ProcessDownloadStream_ok:
  "(\<And>i. wr i = None) \<Longrightarrow>
     ProcessDownloadStream sha wr (map Some cs) None out i = (out @ concat cs, sha (out @ concat cs), Some EOF)"
  by (induction cs arbitrary: out i) simp_all

text \<open>
  A download sends the stored content cut into chunks of 1024 bytes, none of them
  empty and only the last one shorter; the receiving helper writes exactly the stored
  content and computes its checksum. The helper reports the end of the stream as its error
  even though nothing failed.
\<close>
theorem download_round_trip:
  assumes "store_Download E h i = Inr file" and "\<And>k. send k = None" and "\<And>k. wr k = None"
  shows "\<exists>cs. DownloadFile E i send h = (cs, None) \<and> well_cut cs \<and>
     ProcessDownloadStream sha wr (map Some cs) None [] 0 =
       (coContent (sfFile file), sha (coContent (sfFile file)), Some EOF)"
  using DownloadFile_loop_ok [of send "coContent (sfFile file)" "[]"] assms
    ProcessDownloadStream_ok [of wr sha _ "[]" 0]
  by (auto simp: DownloadFile_def)

theorem download_round_trip_witness:
  "\<exists>cs. DownloadFile demo_store ''7'' (\<lambda>_. None) [] = (cs, None) \<and> concat cs = ''data''"
proof -
  have d: "store_Download demo_store [] ''7'' = Inr (zero_file\<lparr>sfFile := zero_content\<lparr>coContent := ''data'', coChecksum := ''data''\<rparr>\<rparr>)"
    by (simp add: store_Download_def demo_store_def)
  from download_round_trip [OF d, of "\<lambda>_. None" "\<lambda>_. None" id] obtain cs where
    "DownloadFile demo_store ''7'' (\<lambda>_. None) [] = (cs, None)"
    "ProcessDownloadStream id (\<lambda>_. None) (map Some cs) None [] 0 = (''data'', ''data'', Some EOF)"
    by auto
  with ProcessDownloadStream_ok [of "\<lambda>_. None" id cs "[]" 0] show ?thesis by auto
qed

section \<open>Upload integrity\<close>

lemma UploadFile_recv_chunks:
  "UploadFile_recv reqs None bs finfo =
     Inr (bs @ concat (map (\<lambda>r. case r of ChunkData b \<Rightarrow> b | Info i \<Rightarrow> []) reqs),
          fold (\<lambda>r f. case r of ChunkData b \<Rightarrow> f | Info i \<Rightarrow> Some i) reqs finfo)"
proof (induction reqs arbitrary: bs finfo)
  case (Cons r reqs)
  then show ?case by (cases r) simp_all
qed simp

text \<open>What gorm assigns on a create leaves the content's checksum and the metadata entries alone.\<close>

definition assigns_keys_only :: "store_env \<Rightarrow> bool" where
  "assigns_keys_only E \<longleftrightarrow>
     (\<forall>h f. coChecksum (sfFile (dbAssignFile E h f)) = coChecksum (sfFile f) \<and>
            map (\<lambda>m. (mdKey m, mdValue m)) (sfMetadata (dbAssignFile E h f)) = map (\<lambda>m. (mdKey m, mdValue m)) (sfMetadata f)) \<and>
     (\<forall>h c. coChecksum (dbAssignContent E h c) = coChecksum c) \<and>
     (\<forall>h m. mdKey (dbAssignMetadata E h m) = mdKey m \<and> mdValue (dbAssignMetadata E h m) = mdValue m)"

lemma retry_grows: "retryWriteTx E n w h = (h', None) \<Longrightarrow> committed h' \<noteq> committed h"
  by (auto dest: retry_committed)

lemma Save_content_checksum:
  "Save_content E n found content h = (h', c, None) \<Longrightarrow> assigns_keys_only E \<Longrightarrow> coContent content \<noteq> [] \<Longrightarrow>
     coID content = 0 \<Longrightarrow> coChecksum c = dbSha256 E (coContent content)"
  by (auto simp: Save_content_def assigns_keys_only_def BeforeSave_def Let_def split: prod.splits option.splits)

lemma Save_checksum:
  assumes "Save E n (Some file) h = (h', filep, i, None)" "assigns_keys_only E"
    and "coContent (sfFile file) \<noteq> []" "coID (sfFile file) = 0"
  shows "\<exists>f. filep = Some f \<and> coChecksum (sfFile f) = dbSha256 E (coContent (sfFile file)) \<and> committed h' \<noteq> committed h"
proof -
  have create: "Save_create E n file h = (h', filep, i, None) \<Longrightarrow> ?thesis"
    using assms(2-)
    by (auto simp: Save_create_def assigns_keys_only_def BeforeSave_def Let_def dest: retry_grows
        split: prod.splits option.splits)
  have update: "\<exists>f. filep = Some f \<and> Save_update E n found file h = (h', f, i, None) \<Longrightarrow> ?thesis" for found
  proof -
    assume "\<exists>f. filep = Some f \<and> Save_update E n found file h = (h', f, i, None)"
    then obtain f where f: "filep = Some f" and u: "Save_update E n found file h = (h', f, i, None)" by blast
    then obtain h1 h2 ms c where "Save_content E n found (sfFile file) h1 = (h2, c, None)" "sfFile f = c"
      by (auto simp: Save_update_def Let_def split: prod.splits option.splits)
    with Save_content_checksum [OF _ assms(2-)] have
      "coChecksum (sfFile f) = dbSha256 E (coContent (sfFile file))" by simp
    with f Save_update_committed [OF u] show ?thesis by auto
  qed
  show ?thesis using assms(1) create update
    by (auto simp: Save_def split: sum.splits option.splits if_splits prod.splits)
qed

lemma UploadFile_reply:
  assumes "assigns_keys_only E"
    and "UploadFile_recv reqs None [] None = Inr (bs, Some finfo)" and "bs \<noteq> []"
    and "Save E n (Some ((StoredFileFromProto order finfo)\<lparr>sfFile := zero_content\<lparr>coContent := bs, coMimeType := fiMimeType finfo\<rparr>\<rparr>)) h
           = (h', filep, i, None)"
  shows "\<exists>reply. UploadFile E n order \<lparr>usRequests = reqs, usEnd = None, usSendErr = None\<rparr> h = (h', reply) \<and>
     committed h' \<noteq> committed h \<and>
     (if fiChecksum finfo = dbSha256 E bs then \<exists>sz. reply = Inr (i, sz)
      else reply = Inl (Errorf CDataLoss ''calculated checksum does not match''))"
proof -
  have z: "sfFile (StoredFileFromProto order finfo) = zero_content"
    by (simp add: StoredFileFromProto_def zero_file_def)
  from Save_checksum [OF assms(4,1)] assms(3) obtain f where
    "filep = Some f" "coChecksum (sfFile f) = dbSha256 E bs" "committed h' \<noteq> committed h"
    by (auto simp: zero_content_def)
  with assms(2,3,4) z show ?thesis by (auto simp: UploadFile_def Let_def)
qed

text \<open>
  C16: upload integrity. Once a complete upload has been saved, the reply is a success
  exactly when the checksum in the file information is the SHA-256 of the received chunks
  put together, and a data-loss error otherwise. The check comes after the save: the file
  is in the store in both cases.
\<close>
theorem UploadFile_integrity:
  assumes "assigns_keys_only E"
    and "UploadFile_recv reqs None [] None = Inr (bs, Some finfo)" and "bs \<noteq> []"
    and "Save E n (Some ((StoredFileFromProto order finfo)\<lparr>sfFile := zero_content\<lparr>coContent := bs, coMimeType := fiMimeType finfo\<rparr>\<rparr>)) h
           = (h', filep, i, None)"
  shows "\<exists>reply. UploadFile E n order \<lparr>usRequests = reqs, usEnd = None, usSendErr = None\<rparr> h = (h', reply) \<and>
     committed h' \<noteq> committed h \<and>
     (if fiChecksum finfo = dbSha256 E bs then \<exists>sz. reply = Inr (i, sz)
      else reply = Inl (Errorf CDataLoss ''calculated checksum does not match''))"
  by (rule UploadFile_reply [OF assms])

lemma demo_store_assigns: "assigns_keys_only demo_store"
  by (simp add: assigns_keys_only_def demo_store_def)

definition demo_info :: FileInfo where
  "demo_info = \<lparr>fiId = [], fiName = ''report'', fiSource = ''src'', fiSourceType = ''t'', fiCreatedAt = 0,
     fiUpdatedAt = 0, fiDeletedAt = None, fiChecksum = ''abc'', fiSize = 0, fiMimeType = ''text'', fiMetadata = Map.empty\<rparr>"

theorem UploadFile_integrity_witness:
  "\<exists>h' sz. UploadFile demo_store 1 (\<lambda>_. []) \<lparr>usRequests = [Info demo_info, ChunkData ''ab'', ChunkData ''c''],
     usEnd = None, usSendErr = None\<rparr> [] = (h', Inr (''5'', sz)) \<and> committed h' \<noteq> committed []"
proof -
  have r: "UploadFile_recv [Info demo_info, ChunkData ''ab'', ChunkData ''c''] None [] None = Inr (''abc'', Some demo_info)"
    by simp
  have five: "itoa_nat 5 = ''5''" by code_simp
  obtain h' filep where
    "Save demo_store 1 (Some ((StoredFileFromProto (\<lambda>_. []) demo_info)\<lparr>sfFile := zero_content\<lparr>coContent := ''abc'',
       coMimeType := fiMimeType demo_info\<rparr>\<rparr>)) [] = (h', filep, ''5'', None)"
    by (simp add: Save_def Save_lookup_def GetByFileKey_def Save_create_def StoredFileFromProto_def demo_info_def
        zero_file_def demo_store_def five Let_def)
  from UploadFile_integrity [OF demo_store_assigns r _ this] show ?thesis
    by (auto simp: demo_info_def demo_store_def)
qed

section \<open>Metadata updates merge\<close>

definition metadata_of :: "StoredFileMetadata list \<Rightarrow> smap" where
  "metadata_of mds = map_of (map (\<lambda>m. (mdKey m, mdValue m)) mds)"

lemma keep_metadata_merge: "keep_metadata mds (Some m) = Some (Some (metadata_of mds ++ m))"
proof (induction mds arbitrary: m)
  case (Cons md mds)
  have "metadata_of mds ++ m(mdKey md \<mapsto> mdValue md) = metadata_of (md # mds) ++ m" if "m (mdKey md) = None"
    using that by (intro ext) (auto simp: metadata_of_def map_add_def split: option.splits)
  moreover have "metadata_of mds ++ m = metadata_of (md # mds) ++ m" if "m (mdKey md) = Some v" for v
    using that by (intro ext) (auto simp: metadata_of_def map_add_def split: option.splits)
  ultimately show ?case using Cons by (cases "m (mdKey md)") (simp_all add: fun_upd_def del: map_add_upd)
qed (simp add: metadata_of_def)

lemma metadata_map_fold: "metadata_map mds m = m ++ metadata_of (rev mds)"
  by (induction mds arbitrary: m) (simp_all add: metadata_of_def map_add_upd)

lemma metadata_list_keys:
  "map (\<lambda>m. (mdKey m, mdValue m)) (metadata_list mm ks) = map (\<lambda>k. (k, the (mm k))) (filter (\<lambda>k. mm k \<noteq> None) ks)"
  by (induction ks) (auto split: option.splits)

text \<open>Listing a map in any order and reading it back gives the map.\<close>

lemma metadata_list_map:
  assumes "distinct ks" "set ks = dom mm"
  shows "metadata_map (metadata_list mm ks) Map.empty = mm"
proof -
  have "filter (\<lambda>k. mm k \<noteq> None) ks = ks" using assms(2) by (auto simp: filter_id_conv)
  then have "metadata_of (rev (metadata_list mm ks)) = map_of (rev (map (\<lambda>k. (k, the (mm k))) ks))"
    by (simp add: metadata_of_def metadata_list_keys flip: rev_map)
  also have "\<dots> = map_of (map (\<lambda>k. (k, the (mm k))) ks)"
    using assms(1) by (intro map_of_inject_set [THEN iffD2]) (simp_all add: comp_def rev_map)
  also have "\<dots> = mm"
    using assms(2) by (intro ext) (auto simp: map_of_map_restrict restrict_map_def dom_def)
  finally show ?thesis by (simp add: metadata_map_fold)
qed

lemma metadata_map_cong:
  "map (\<lambda>m. (mdKey m, mdValue m)) a = map (\<lambda>m. (mdKey m, mdValue m)) b \<Longrightarrow> metadata_map a m = metadata_map b m"
  by (simp add: metadata_map_fold metadata_of_def flip: rev_map)

lemma Save_metadata_entries:
  "Save_metadata E n fid ms h = (h', ms', None) \<Longrightarrow> assigns_keys_only E \<Longrightarrow>
     map (\<lambda>m. (mdKey m, mdValue m)) ms' = map (\<lambda>m. (mdKey m, mdValue m)) ms"
  by (induction E n fid ms h arbitrary: h' ms' rule: Save_metadata.induct)
     (auto simp: Let_def assigns_keys_only_def split: sum.splits if_splits prod.splits option.splits)

lemma Save_keeps_metadata:
  assumes "Save E n (Some file) h = (h', filep, i, None)" "assigns_keys_only E"
  shows "\<exists>f. filep = Some f \<and> metadata_map (sfMetadata f) m = metadata_map (sfMetadata file) m"
proof -
  have create: "Save_create E n file h = (h', filep, i, None) \<Longrightarrow> ?thesis"
    using assms(2) by (auto simp: Save_create_def assigns_keys_only_def Let_def intro!: metadata_map_cong
        split: prod.splits option.splits)
  have update: "Save_update E n found file h = (h', f, i, None) \<Longrightarrow>
      metadata_map (sfMetadata f) m = metadata_map (sfMetadata file) m" for found f
    using assms(2) by (auto simp: Save_update_def Let_def dest: Save_metadata_entries intro!: metadata_map_cong
        split: prod.splits option.splits)
  show ?thesis using assms(1) create
    by (auto simp: Save_def dest: update split: sum.splits option.splits if_splits prod.splits)
qed

text \<open>
  A metadata update merges. When the file is found and the save succeeds, the reply
  carries the stored metadata overridden by the entries of the request, whatever order the
  map is visited in. A request without metadata for a file that has some crashes the
  handler, because it assigns into a nil map.
\<close>
theorem UpdateFileMetadata_merges:
  assumes "store_Get E h i = Inr file" and "assigns_keys_only E"
    and "\<And>m. finite (dom m) \<Longrightarrow> distinct (order m) \<and> set (order m) = dom m"
  shows "(\<forall>m h' info. finite (dom m) \<and> UpdateFileMetadata E n order i (Some m) h = (h', Reply (Inr info)) \<longrightarrow>
            fiMetadata info = metadata_of (sfMetadata file) ++ m) \<and>
         (sfMetadata file \<noteq> [] \<longrightarrow>
            UpdateFileMetadata E n order i None h = (h, Crash ''assignment to entry in nil map''))"
proof (intro conjI allI impI)
  fix m h' info
  assume fu: "finite (dom m) \<and> UpdateFileMetadata E n order i (Some m) h = (h', Reply (Inr info))"
  then have u: "UpdateFileMetadata E n order i (Some m) h = (h', Reply (Inr info))" ..
  let ?mm = "metadata_of (sfMetadata file) ++ m"
  let ?file1 = "file\<lparr>sfMetadata := metadata_list ?mm (order ?mm)\<rparr>"
  obtain filep j where s: "Save E n (Some ?file1) h = (h', filep, j, None)"
    and info: "info = StoredFileToProto (case filep of None \<Rightarrow> ?file1 | Some f \<Rightarrow> f)"
    using u assms(1) by (auto simp: UpdateFileMetadata_def keep_metadata_merge Let_def split: prod.splits option.splits)
  have "finite (dom ?mm)" using fu by (simp add: metadata_of_def finite_dom_map_of)
  from Save_keeps_metadata [OF s assms(2), of Map.empty] assms(3) [OF this] show "fiMetadata info = ?mm"
    by (auto simp: info StoredFileToProto_def metadata_list_map)
next
  assume "sfMetadata file \<noteq> []"
  then show "UpdateFileMetadata E n order i None h = (h, Crash ''assignment to entry in nil map'')"
    using assms(1) by (cases "sfMetadata file") (simp_all add: UpdateFileMetadata_def)
qed

definition demo_files :: store_env where
  "demo_files = demo_store\<lparr>dbFind := (\<lambda>_ i. Inr (if i = 7 then zero_file\<lparr>sfID := 7, sfMetadata :=
      [\<lparr>mdID = 1, mdCreatedAt = 0, mdUpdatedAt = 0, mdFileID = 7, mdKey = ''a'', mdValue = ''old''\<rparr>]\<rparr> else zero_file))\<rparr>"

theorem UpdateFileMetadata_merges_witness:
  "UpdateFileMetadata demo_files 0 (\<lambda>m. sorted_list_of_set (dom m)) ''7'' None [] =
     ([], Crash ''assignment to entry in nil map'')"
proof -
  have "itoa_nat 7 = ''7''" by code_simp
  then have seven: "ConvertStrToUint ''7'' = Inr 7"
    using ParseUint_itoa [of 7] by (simp add: ConvertStrToUint_def)
  have "store_Get demo_files [] ''7'' = Inr (zero_file\<lparr>sfID := 7, sfMetadata :=
      [\<lparr>mdID = 1, mdCreatedAt = 0, mdUpdatedAt = 0, mdFileID = 7, mdKey = ''a'', mdValue = ''old''\<rparr>]\<rparr>)"
    by (simp add: store_Get_def seven demo_files_def)
  from UpdateFileMetadata_merges [OF this, of "\<lambda>m. sorted_list_of_set (dom m)" 0] show ?thesis
    by (simp add: demo_files_def demo_store_def assigns_keys_only_def)
qed

text \<open>
  An unknown id is not reported as such. The lookup by id gives an empty file when no
  row has the id, so \<open>GetFile\<close> answers with a file of id 0, and a metadata update
  of an unknown id, if it succeeds, creates a nameless file.
\<close>
theorem unknown_id_not_reported:
  assumes "ConvertStrToUint i = Inr k" and "dbFind E h k = Inr zero_file" and "i \<noteq> []"
  shows "GetFile E (LookupId i) h = Inr (StoredFileToProto zero_file) \<and>
     (\<forall>m h' info. UpdateFileMetadata E n order i (Some m) h = (h', Reply (Inr info)) \<longrightarrow>
        committed h' = committed h @ [CreateFile (zero_file\<lparr>sfMetadata := metadata_list m (order m)\<rparr>)])"
proof (intro conjI allI impI)
  show "GetFile E (LookupId i) h = Inr (StoredFileToProto zero_file)"
    using assms by (simp add: GetFile_def get_reply_def store_Get_def)
next
  fix m h' info
  assume u: "UpdateFileMetadata E n order i (Some m) h = (h', Reply (Inr info))"
  let ?file1 = "zero_file\<lparr>sfMetadata := metadata_list m (order m)\<rparr>"
  have "Save_lookup E h ?file1 = Inr (Some zero_file)"
    by (simp add: Save_lookup_def zero_file_def)
  moreover have "\<exists>filep j. Save E n (Some ?file1) h = (h', filep, j, None)"
    using u assms by (auto simp: UpdateFileMetadata_def store_Get_def zero_file_def Let_def split: prod.splits option.splits)
  ultimately have "\<exists>filep j. Save_create E n ?file1 h = (h', filep, j, None)"
    by (simp add: Save_def zero_file_def)
  then have "\<exists>file1. file1 = ?file1\<lparr>sfFile := BeforeSave (dbSha256 E) (sfFile ?file1)\<rparr> \<and>
      committed h' = committed h @ [CreateFile file1]"
    by (auto simp: Save_create_def Let_def dest: retry_committed split: prod.splits option.splits)
  then show "committed h' = committed h @ [CreateFile ?file1]"
    by (simp add: BeforeSave_def zero_file_def zero_content_def)
qed

theorem unknown_id_not_reported_witness:
  "GetFile demo_store (LookupId ''9'') [] = Inr (StoredFileToProto zero_file)"
proof -
  have "itoa_nat 9 = ''9''" by code_simp
  then have nine: "ConvertStrToUint ''9'' = Inr 9"
    using ParseUint_itoa [of 9] by (simp add: ConvertStrToUint_def)
  have "dbFind demo_store [] 9 = Inr zero_file" by (simp add: demo_store_def)
  from unknown_id_not_reported [OF nine this, of 0 "\<lambda>_. []"] show ?thesis by simp
qed

text \<open>
  A reply to a list request never carries more than a hundred files, whatever page
  size, token, filter and store.
\<close>
lemma ListFiles_bounded:
  assumes "ListFiles E scan req h = Inr res"
  shows "length (lrFiles res) \<le> 100"
proof -
  let ?ps = "if lfPageSize req \<noteq> 0 then lfPageSize req else 100"
  from assms obtain opts files tok where opts: "ListFiles_options scan req = Inr opts"
    and l: "store_List E h (Paginate (lfPageToken req) ?ps # opts) = (files, tok, None)"
    and res: "lrFiles res = map StoredFileToProto files"
    by (auto simp: ListFiles_def Let_def split: sum.splits prod.splits option.splits)
  have "no_pagination opts"
    using opts by (auto simp: ListFiles_options_def no_pagination_def Let_def split: if_splits sum.splits)
  from store_List_length [OF this, of E h "lfPageToken req" ?ps] l have "length files \<le> 100" by simp
  with res show ?thesis by simp
qed


end
