(* ===== verification/DataServiceClient.thy ===== *)
theory DataServiceClient
  imports FileServer
begin

text \<open>
  The reporter's client of the data service (\<open>reporter/v2/pkg/dataservice/dataservice.go\<close>).
  Its remote procedure calls are arguments; the theorems at the end connect them to the
  handlers of the file server. The file system and the readers are arguments as well.
\<close>

section \<open>Listing\<close>

definition client_request :: "string \<Rightarrow> ListFilesRequest" where
  "client_request pageToken =
     \<lparr>lfPageSize = 100, lfPageToken = pageToken, lfIncludeDeleted = False, lfFilter = []\<rparr>"

text \<open>
  The loop over the pages with at most \<open>k\<close> calls; \<open>None\<close> is a loop that has not
  ended by then.
\<close>

fun client_ListFiles ::
  "(ListFilesRequest \<Rightarrow> ListFilesResponse rpc) \<Rightarrow> nat \<Rightarrow> string \<Rightarrow> FileInfo list \<Rightarrow>
     (FileInfo list \<times> go_error option) option" where
  "client_ListFiles rpc 0 pageToken fileList = None"
| "client_ListFiles rpc (Suc k) pageToken fileList =
     (case rpc (client_request pageToken) of
        Inl e \<Rightarrow> Some (fileList, Some (Err (''error while opening stream: '' @ gsMessage e)))
      | Inr response \<Rightarrow>
          (let fileList' = fileList @ lrFiles response in
           if lrNextPageToken response = [] then Some (fileList', None)
           else client_ListFiles rpc k (lrNextPageToken response) fileList'))"

section \<open>Download\<close>

text \<open>
  The receive loop: it writes every chunk to the file and to the hash. \<open>wr i\<close> is the
  outcome of the \<open>i\<close>-th write. The result is what was written and the error.
\<close>

fun client_receive ::
  "(nat \<Rightarrow> go_error option) \<Rightarrow> bytes option list \<Rightarrow> go_error option \<Rightarrow> bytes \<Rightarrow> nat \<Rightarrow> bytes \<times> go_error option" where
  "client_receive wr [] None out i = (out, None)"
| "client_receive wr [] (Some err) out i = (out, Some (wrap ''error while reading stream'' err))"
| "client_receive wr (None # rest) stop out i = client_receive wr rest stop out i"
| "client_receive wr (Some d # rest) stop out i =
     (case wr i of
        Some err \<Rightarrow> (out, Some (wrap ''failed to write file'' err))
      | None \<Rightarrow> client_receive wr rest stop (out @ d) (Suc i))"

record client_os =
  osJoin :: "string \<Rightarrow> string \<Rightarrow> string"
  osOpen :: "go_error option"
  osWrite :: "nat \<Rightarrow> go_error option"
  osClose :: "go_error option"
  osSha256 :: "bytes \<Rightarrow> string"

fun append_error :: "go_error option \<Rightarrow> go_error option \<Rightarrow> go_error option" where
  "append_error None e = e"
| "append_error (Some e) None = Some e"
| "append_error (Some e) (Some f) = Some (wrap (error_string e) f)"

text \<open>
  The file's name, the bytes in it when it was opened, and the error. \<open>rpc\<close> opens the
  stream: its messages and how it ends.
\<close>

definition client_DownloadFile ::
  "client_os \<Rightarrow> (string \<Rightarrow> (bytes option list \<times> go_error option) result) \<Rightarrow> string \<Rightarrow> FileInfo option \<Rightarrow>
     string \<times> bytes option \<times> go_error option" where
  "client_DownloadFile Os rpc outputPath infop =
     (case infop of
        None \<Rightarrow> ([], None, Some (Err ''info provided is empty''))
      | Some info \<Rightarrow>
          (case rpc (fiId info) of
             Inl err \<Rightarrow> ([], None, Some (wrap ''failed to attempt download due to'' err))
           | Inr (messages, stop) \<Rightarrow>
               (let file = osJoin Os outputPath (fiName info) in
                case osOpen Os of
                  Some err \<Rightarrow> (file, None, Some (wrap ''failed to attempt download due to'' err))
                | None \<Rightarrow>
                    (case client_receive (osWrite Os) messages stop [] 0 of
                       (out, Some err) \<Rightarrow> (file, Some out, append_error (Some err) (osClose Os))
                     | (out, None) \<Rightarrow>
                         (if fiChecksum info \<noteq> osSha256 Os out
                          then (file, Some out, append_error (Some (Err ''file checksum doesn't match'')) (osClose Os))
                          else (file, Some out, append_error None (osClose Os)))))))"

section \<open>Upload\<close>

text \<open>One result of a reader: the bytes it put in the buffer, and its error.\<close>

type_synonym read_result = "bytes \<times> go_error option"

text \<open>
  The send loop: the messages sent, and the error that ends the upload early. A reader that
  returns bytes together with an error has its bytes dropped; a reader that has no more
  results has ended.
\<close>

fun client_send ::
  "(nat \<Rightarrow> go_error option) \<Rightarrow> read_result list \<Rightarrow> upload_request list \<Rightarrow> upload_request list \<times> go_error option" where
  "client_send send [] sent = (sent, None)"
| "client_send send ((b, Some err) # reads) sent = (if err = EOF then (sent, None) else (sent, Some err))"
| "client_send send ((b, None) # reads) sent =
     (case send (length sent) of
        Some err \<Rightarrow> (sent, Some err)
      | None \<Rightarrow> client_send send reads (sent @ [ChunkData b]))"

record client_rpcs =
  crGetFile :: "StoredFileKey \<Rightarrow> FileInfo rpc"
  crOpenUpload :: "go_error option"
  crSend :: "nat \<Rightarrow> go_error option"
  crCloseAndRecv :: "upload_request list \<Rightarrow> (string \<times> nat) rpc"

definition client_Upload ::
  "client_rpcs \<Rightarrow> FileInfo option \<Rightarrow> read_result list \<Rightarrow> string \<times> go_error option" where
  "client_Upload R infop reader =
     (case infop of
        None \<Rightarrow> ([], Some (Err ''info provided is empty''))
      | Some info0 \<Rightarrow>
          (let info = (case crGetFile R \<lparr>kyName = fiName info0, kySource = fiSource info0, kySourceType = fiSourceType info0\<rparr> of
                 Inl e \<Rightarrow> info0
               | Inr resp \<Rightarrow> if fiId resp \<noteq> [] then info0\<lparr>fiId := fiId resp\<rparr> else info0)
           in case crOpenUpload R of
                Some err \<Rightarrow> ([], Some err)
              | None \<Rightarrow>
                  (case crSend R 0 of
                     Some err \<Rightarrow> ([], Some err)
                   | None \<Rightarrow>
                       (case client_send (crSend R) reader [Info info] of
                          (sent, Some err) \<Rightarrow> ([], Some err)
                        | (sent, None) \<Rightarrow>
                            (case crCloseAndRecv R sent of
                               Inl e \<Rightarrow> ([], Some (Err (gsMessage e)))
                             | Inr (i, sz) \<Rightarrow> (i, None))))))"

text \<open>What a \<open>bytes.Reader\<close> gives a buffer of 1024 bytes.\<close>

function bytes_reader :: "bytes \<Rightarrow> read_result list" where
  "bytes_reader b =
     (if b = [] then [([], Some EOF)] else (take chunkSize b, None) # bytes_reader (drop chunkSize b))"
  by pat_completeness auto
termination by (relation "measure length") (auto simp: chunkSize_def)

declare bytes_reader.simps [simp del]

text \<open>The information sent ahead of a report's content.\<close>

definition upload_info ::
  "(bytes \<Rightarrow> string) \<Rightarrow> (string \<Rightarrow> string) \<Rightarrow> smap result option \<Rightarrow> string \<Rightarrow> bytes \<Rightarrow> FileInfo" where
  "upload_info sha base metadata fileName b =
     \<lparr>fiId = [], fiName = base fileName, fiSource = ''redhat-marketplace'', fiSourceType = ''report'',
      fiCreatedAt = 0, fiUpdatedAt = 0, fiDeletedAt = None, fiChecksum = sha b, fiSize = 0,
      fiMimeType = ''application/gzip'',
      fiMetadata = (case metadata of Some (Inr out) \<Rightarrow> out | _ \<Rightarrow> Map.empty)\<rparr>"

definition client_UploadFile ::
  "client_rpcs \<Rightarrow> (bytes \<Rightarrow> string) \<Rightarrow> (string \<Rightarrow> string) \<Rightarrow> smap result option \<Rightarrow> string \<Rightarrow> bytes result \<Rightarrow>
     string \<times> go_error option" where
  "client_UploadFile R sha base metadata fileName content =
     (case content of
        Inl err \<Rightarrow> ([], Some err)
      | Inr b \<Rightarrow>
          client_Upload R (Some (upload_info sha base metadata fileName b))
            (bytes_reader b))"

section \<open>Other calls\<close>

definition client_UpdateMetadata :: "(string \<Rightarrow> smap \<Rightarrow> FileInfo rpc) \<Rightarrow> FileInfo \<Rightarrow> grpc_status option" where
  "client_UpdateMetadata rpc file = (case rpc (fiId file) (fiMetadata file) of Inl e \<Rightarrow> Some e | Inr x \<Rightarrow> None)"

definition client_DeleteFile :: "(string \<Rightarrow> bool \<Rightarrow> string rpc) \<Rightarrow> FileInfo option \<Rightarrow> go_error option" where
  "client_DeleteFile rpc infop =
     (case infop of
        None \<Rightarrow> Some (Err ''info provided is empty'')
      | Some info \<Rightarrow> (case rpc (fiId info) False of Inl e \<Rightarrow> Some (Err (gsMessage e)) | Inr x \<Rightarrow> None))"

section \<open>The client against the server\<close>

lemma client_send_ok:
  "(\<And>i. send i = None) \<Longrightarrow> list_all (\<lambda>(b, e). e = None) reads \<Longrightarrow>
     client_send send (reads @ [(b, Some EOF)]) sent = (sent @ map (ChunkData \<circ> fst) reads, None)"
  by (induction reads arbitrary: sent) auto

lemma bytes_reader_reads:
  "\<exists>reads. bytes_reader b = reads @ [([], Some EOF)] \<and> list_all (\<lambda>(b, e). e = None) reads \<and> concat (map fst reads) = b"
proof (induction b rule: bytes_reader.induct)
  case (1 b)
  show ?case
  proof (cases "b = []")
    case False
    with 1 obtain reads where "bytes_reader (drop chunkSize b) = reads @ [([], Some EOF)]"
      "list_all (\<lambda>(b, e). e = None) reads" "concat (map fst reads) = drop chunkSize b" by blast
    with False show ?thesis
      by (subst bytes_reader.simps) (auto intro!: exI [of _ "(take chunkSize b, None) # reads"])
  qed (subst bytes_reader.simps, simp)
qed

lemma recv_chunks:
  "UploadFile_recv (Info info # map (ChunkData \<circ> fst) reads) None [] None = Inr (concat (map fst reads), Some info)"
proof -
  have "UploadFile_recv (map (ChunkData \<circ> fst) reads) None bs f = Inr (bs @ concat (map fst reads), f)" for bs f
    by (induction reads arbitrary: bs) simp_all
  then show ?thesis by simp
qed

text \<open>The calls of a client whose transport does not fail, answered by the server's handlers.\<close>

definition served_by :: "store_env \<Rightarrow> nat \<Rightarrow> (smap \<Rightarrow> string list) \<Rightarrow> history \<Rightarrow> client_rpcs" where
  "served_by E n order h = \<lparr>crGetFile = (\<lambda>key. GetFile E (LookupKey key) h), crOpenUpload = None, crSend = (\<lambda>_. None),
     crCloseAndRecv = (\<lambda>reqs. snd (UploadFile E n order \<lparr>usRequests = reqs, usEnd = None, usSendErr = None\<rparr> h))\<rparr>"

lemma sent_info_id:
  fixes info :: FileInfo
  shows "\<exists>i. (case r of Inl e \<Rightarrow> info | Inr resp \<Rightarrow> if fiId resp \<noteq> [] then info\<lparr>fiId := fiId resp\<rparr> else info) =
     info\<lparr>fiId := i\<rparr>"
  by (cases info; cases r) auto

lemma client_UploadFile_sends:
  "\<exists>i. client_UploadFile (served_by E n order h) sha base metadata name (Inr b) =
     (case snd (UploadFile E n order \<lparr>usRequests = Info (upload_info sha base metadata name b\<lparr>fiId := i\<rparr>) #
          map (ChunkData \<circ> fst) (butlast (bytes_reader b)), usEnd = None, usSendErr = None\<rparr> h) of
        Inl e \<Rightarrow> ([], Some (Err (gsMessage e)))
      | Inr (j, sz) \<Rightarrow> (j, None))"
proof -
  obtain reads where r: "bytes_reader b = reads @ [([], Some EOF)]" "list_all (\<lambda>(b, e). e = None) reads"
    using bytes_reader_reads by blast
  let ?info = "upload_info sha base metadata name b"
  obtain i where i: "(case GetFile E (LookupKey \<lparr>kyName = fiName ?info, kySource = fiSource ?info,
        kySourceType = fiSourceType ?info\<rparr>) h of
      Inl e \<Rightarrow> ?info | Inr resp \<Rightarrow> if fiId resp \<noteq> [] then ?info\<lparr>fiId := fiId resp\<rparr> else ?info) = ?info\<lparr>fiId := i\<rparr>"
    using sent_info_id by blast
  show ?thesis
    using r client_send_ok [of "\<lambda>_. None" reads "[]"]
    by (intro exI [of _ i]) (simp add: client_UploadFile_def client_Upload_def served_by_def i Let_def)
qed

text \<open>
  C10: a report the client uploads arrives whole. The server receives exactly the bytes of
  the report under its checksum, so that when the store saves the file the client gets the
  id of the saved file and no error.
\<close>
theorem client_upload_accepted:
  assumes "assigns_keys_only E" and "b \<noteq> []"
    and "Save E n (Some ((StoredFileFromProto order (upload_info (dbSha256 E) base metadata name b))
           \<lparr>sfFile := zero_content\<lparr>coContent := b, coMimeType := ''application/gzip''\<rparr>\<rparr>)) h = (h', filep, j, None)"
  shows "client_UploadFile (served_by E n order h) (dbSha256 E) base metadata name (Inr b) = (j, None)"
proof -
  obtain reads where r: "bytes_reader b = reads @ [([], Some EOF)]" "concat (map fst reads) = b"
    using bytes_reader_reads by blast
  obtain i where c: "client_UploadFile (served_by E n order h) (dbSha256 E) base metadata name (Inr b) =
     (case snd (UploadFile E n order \<lparr>usRequests = Info (upload_info (dbSha256 E) base metadata name b\<lparr>fiId := i\<rparr>) #
          map (ChunkData \<circ> fst) reads, usEnd = None, usSendErr = None\<rparr> h) of
        Inl e \<Rightarrow> ([], Some (Err (gsMessage e))) | Inr (j, sz) \<Rightarrow> (j, None))"
    using client_UploadFile_sends [of E n order h "dbSha256 E" base metadata name b] by (auto simp: r(1))
  let ?info = "upload_info (dbSha256 E) base metadata name b\<lparr>fiId := i\<rparr>"
  have info: "fiChecksum ?info = dbSha256 E b" "fiMimeType ?info = ''application/gzip''"
    by (simp_all add: upload_info_def)
  have s: "Save E n (Some ((StoredFileFromProto order ?info)
      \<lparr>sfFile := zero_content\<lparr>coContent := b, coMimeType := fiMimeType ?info\<rparr>\<rparr>)) h = (h', filep, j, None)"
    using assms(3) unfolding info(2) by (simp add: StoredFileFromProto_def)
  show ?thesis
    using UploadFile_reply [OF assms(1) recv_chunks [of ?info reads, unfolded r(2)] assms(2) s] info(1)
    by (auto simp: c)
qed

theorem client_upload_accepted_witness:
  "client_UploadFile (served_by demo_store 1 (\<lambda>_. []) []) id id None ''report'' (Inr ''content'') = (''5'', None)"
proof -
  have five: "itoa_nat 5 = ''5''" by code_simp
  obtain h' filep where
    s: "Save demo_store 1 (Some ((StoredFileFromProto (\<lambda>_. []) (upload_info (dbSha256 demo_store) id None ''report'' ''content''))
       \<lparr>sfFile := zero_content\<lparr>coContent := ''content'', coMimeType := ''application/gzip''\<rparr>\<rparr>)) [] = (h', filep, ''5'', None)"
    by (simp add: Save_def Save_lookup_def GetByFileKey_def Save_create_def StoredFileFromProto_def upload_info_def
        zero_file_def demo_store_def five Let_def)
  from client_upload_accepted [OF demo_store_assigns _ s] show ?thesis by (simp add: demo_store_def)
qed

lemma client_list_from_page:
  assumes "selected_rows E h [] = Inr rows" "length rows < 2 ^ 50"
    and "p * 100 \<le> length rows" "length rows < (p + k) * 100"
  shows "client_ListFiles (\<lambda>req. ListFiles E scan req h) k (if p = 0 then [] else Itoa (int (Suc p))) acc =
     Some (acc @ map StoredFileToProto (drop (p * 100) rows), None)"
  using assms(3,4)
proof (induction k arbitrary: p acc)
  case (Suc k)
  define tok where "tok = (if p = 0 then [] else Itoa (int (Suc p)))"
  from Suc.prems(1) assms(2) have "p < 2 ^ 50" "p * 100 < 2 ^ 50" by linarith+
  then have p: "int p < 2 ^ 50" "int p * 100 < 2 ^ 50" by simp_all
  have pag: "Paginate tok 100 = OptPagination \<lparr>lpPage = int (Suc p), lpPageSize = 100\<rparr>"
    using Paginate_token [of p 100] p unfolding tok_def by (simp add: clamp_page_size_def)
  have "no_pagination []" by (simp add: no_pagination_def)
  from store_List_page [OF this assms(1) pag] p
  have L: "store_List E h [Paginate tok 100] =
      (let page = take 100 (drop (p * 100) rows)
       in if 100 < length rows - p * 100 then (page, Itoa (int p + 2), None) else (page, [], None))"
    by simp
  have R: "ListFiles E scan (client_request tok) h =
      Inr \<lparr>lrFiles = map StoredFileToProto (take 100 (drop (p * 100) rows)),
           lrNextPageToken = (if 100 < length rows - p * 100 then Itoa (int p + 2) else []), lrPageSize = 100\<rparr>"
    by (simp add: ListFiles_def client_request_def ListFiles_options_def L int32_of_def Let_def)
  show ?case unfolding tok_def [symmetric]
  proof (cases "100 < length rows - p * 100")
    case True
    then have "Suc p * 100 \<le> length rows" "length rows < (Suc p + k) * 100" using Suc.prems by simp_all
    from Suc.IH [OF this] have IH: "\<And>acc. client_ListFiles (\<lambda>req. ListFiles E scan req h) k (Itoa (int p + 2)) acc =
        Some (acc @ map StoredFileToProto (drop (100 + p * 100) rows), None)"
      by (simp add: add.commute)
    have "take 100 (drop (p * 100) rows) @ drop (100 + p * 100) rows = drop (p * 100) rows"
      by (metis append_take_drop_id drop_drop)
    then have "map StoredFileToProto (take 100 (drop (p * 100) rows)) @ map StoredFileToProto (drop (100 + p * 100) rows) =
        map StoredFileToProto (drop (p * 100) rows)" by (simp only: flip: map_append)
    with True show "client_ListFiles (\<lambda>req. ListFiles E scan req h) (Suc k) tok acc =
        Some (acc @ map StoredFileToProto (drop (p * 100) rows), None)"
      by (simp add: R IH)
  next
    case False
    then show "client_ListFiles (\<lambda>req. ListFiles E scan req h) (Suc k) tok acc =
        Some (acc @ map StoredFileToProto (drop (p * 100) rows), None)"
      by (simp add: R)
  qed
qed simp

text \<open>
  The client's listing ends and is complete: against the server's handler, on an
  unchanged store of fewer files than it may make calls, it returns every file that is not
  deleted, once and in order.
\<close>
theorem client_lists_all_files:
  assumes "selected_rows E h [] = Inr rows" "length rows < 2 ^ 50" "length rows < k"
  shows "client_ListFiles (\<lambda>req. ListFiles E scan req h) k [] [] = Some (map StoredFileToProto rows, None)"
  using client_list_from_page [OF assms(1,2), of 0 k scan "[]"] assms(3) by simp

theorem client_lists_all_files_witness:
  "client_ListFiles (\<lambda>req. ListFiles demo_store (\<lambda>_. []) req []) 4 [] [] =
     Some (map StoredFileToProto (map (\<lambda>i. zero_file\<lparr>sfID := i\<rparr>) [1, 2, 3]), None)"
  by (rule client_lists_all_files) (simp_all add: selected_rows_def demo_store_def)

lemma client_receive_ok:
  "(\<And>i. wr i = None) \<Longrightarrow> client_receive wr (map Some cs) None out i = (out @ concat cs, None)"
  by (induction cs arbitrary: out i) simp_all

text \<open>
  A download against the server verifies the file: when nothing fails on the way, the
  client has written exactly the stored content, and it reports an error exactly when the
  checksum it was told is not the one of that content.
\<close>
theorem client_download_verifies:
  assumes "store_Download E h (fiId info) = Inr file"
    and "osOpen Os = None" and "\<And>k. osWrite Os k = None" and "osClose Os = None"
  shows "\<exists>err. client_DownloadFile Os (\<lambda>i. Inr (map Some (fst (DownloadFile E i (\<lambda>_. None) h)), None)) path (Some info) =
       (osJoin Os path (fiName info), Some (coContent (sfFile file)), err) \<and>
     (err = None \<longleftrightarrow> fiChecksum info = osSha256 Os (coContent (sfFile file)))"
proof -
  obtain cs where "DownloadFile E (fiId info) (\<lambda>_. None) h = (cs, None)" "concat cs = coContent (sfFile file)"
    using DownloadFile_loop_ok [of "\<lambda>_. None" "coContent (sfFile file)" "[]"] assms(1)
    by (auto simp: DownloadFile_def)
  then show ?thesis
    using client_receive_ok [of "osWrite Os" cs "[]" 0, OF assms(3)] assms(2,4)
    by (simp add: client_DownloadFile_def Let_def)
qed

theorem client_download_verifies_witness:
  "\<exists>err. client_DownloadFile \<lparr>osJoin = (@), osOpen = None, osWrite = (\<lambda>_. None), osClose = None, osSha256 = id\<rparr>
      (\<lambda>i. Inr (map Some (fst (DownloadFile demo_store i (\<lambda>_. None) [])), None)) ''/tmp/'' (Some demo_info) =
      (''/tmp/report'', Some ''data'', err) \<and> err \<noteq> None"
proof -
  have d: "store_Download demo_store [] (fiId demo_info) =
      Inr (zero_file\<lparr>sfFile := zero_content\<lparr>coContent := ''data'', coChecksum := ''data''\<rparr>\<rparr>)"
    by (simp add: store_Download_def demo_store_def)
  show ?thesis
    using client_download_verifies [OF d, of "\<lparr>osJoin = (@), osOpen = None, osWrite = (\<lambda>_. None), osClose = None, osSha256 = id\<rparr>" "''/tmp/''"]
    by (auto simp: demo_info_def)
qed

end
