(* ===== verification/ReportUpload.thy ===== *)
theory ReportUpload
  imports MeterReports DataServiceClient
begin

text \<open>
  The upload half of the reporter's reconcile job
  (\<open>reporter/v2/pkg/reporter/upload_task.go\<close>, \<open>reconcile_task.go\<close>): stored reports are
  taken from the data service, sent to the upload targets, their outcome is written to the
  meter report, and the stored file is deleted once a required target has taken it.

  The state is the meter reports of the namespace and the history of what the job did. The
  data service, the local files and the upload targets are arguments that answer from that
  history.
\<close>

section \<open>State and environment\<close>

datatype upload_action =
    Sent string FileInfo string
  | SendFailed string FileInfo
  | FileDeleted FileInfo
  | MetadataSet FileInfo
  | StatusWritten string MeterReportStatus
  | ReportSent string string bytes string
  | ReportSendFailed string string

record upload_state =
  usReports :: "string \<rightharpoonup> MeterReport"
  usHistory :: "upload_action list"

record upload_env =
  ueGetFile :: "upload_action list \<Rightarrow> string \<Rightarrow> FileInfo result"
  ueListFiles :: "upload_action list \<Rightarrow> FileInfo list \<times> go_error option"
  ueDownloadFile :: "upload_action list \<Rightarrow> FileInfo \<Rightarrow> string result"
  ueReadFile :: "upload_action list \<Rightarrow> string \<Rightarrow> bytes result"
  ueUploaders :: "(string \<times> (upload_action list \<Rightarrow> string \<Rightarrow> bytes \<Rightarrow> string result)) list"
  ueUpdateMetadata :: "upload_action list \<Rightarrow> FileInfo \<Rightarrow> go_error option"
  ueDeleteFile :: "upload_action list \<Rightarrow> FileInfo \<Rightarrow> go_error option"
  ueUpdateStatus :: "upload_action list \<Rightarrow> string \<Rightarrow> go_error option"
  ueNow :: go_time
  ueIsDisconnected :: bool
  ueMaxUploadAttempts :: int

definition record_action :: "upload_action \<Rightarrow> upload_state \<Rightarrow> upload_state" where
  "record_action a s = s\<lparr>usHistory := usHistory s @ [a]\<rparr>"

definition required_targets :: "string list" where
  "required_targets = [''redhat-marketplace'', ''redhat-insights'']"

definition data_service_target :: string where
  "data_service_target = ''data-service''"

section \<open>Uploading one file\<close>

definition failure_details :: "string \<Rightarrow> go_error \<Rightarrow> UploadDetails" where
  "failure_details target err =
     \<lparr>udTarget = target, udID = [], udStatus = UploadStatusFailure, udError = ''error: '' @ error_string err\<rparr>"

fun uploadFile_loop ::
  "upload_env \<Rightarrow> FileInfo \<Rightarrow> string result \<Rightarrow>
     (string \<times> (upload_action list \<Rightarrow> string \<Rightarrow> bytes \<Rightarrow> string result)) list \<Rightarrow> upload_state \<Rightarrow>
     upload_state \<times> UploadDetailConditions" where
  "uploadFile_loop E file download [] s = (s, [])"
| "uploadFile_loop E file download ((target, up) # ups) s =
     (case download of
        Inl derr \<Rightarrow> (s, [failure_details target derr])
      | Inr localFileName \<Rightarrow>
          (case ueReadFile E (usHistory s) localFileName of
             Inl err \<Rightarrow>
               (let (s', rest) = uploadFile_loop E file download ups s in (s', failure_details target err # rest))
           | Inr data \<Rightarrow>
               (case up (usHistory s) (fiName file) data of
                  Inl err \<Rightarrow>
                    (let (s', rest) = uploadFile_loop E file download ups (record_action (SendFailed target file) s)
                     in (s', failure_details target err # rest))
                | Inr i \<Rightarrow>
                    (let (s', rest) = uploadFile_loop E file download ups (record_action (Sent target file i) s)
                     in (s', \<lparr>udTarget = target, udID = i, udStatus = UploadStatusSuccess, udError = []\<rparr> # rest)))))"

definition uploadFile :: "upload_env \<Rightarrow> FileInfo \<Rightarrow> upload_state \<Rightarrow> upload_state \<times> UploadDetailConditions" where
  "uploadFile E file s = uploadFile_loop E file (ueDownloadFile E (usHistory s) file) (ueUploaders E) s"

definition findStatus :: "UploadDetailConditions \<Rightarrow> bool \<times> Condition" where
  "findStatus statuses =
     (if OneSuccessOf statuses required_targets then (True, ReportConditionUploadStatusFinished)
      else
        (case uploads_Errors statuses of
           Some err \<Rightarrow> (False, ReportConditionUploadStatusErrored\<lparr>cMessage := error_string err\<rparr>)
         | None \<Rightarrow> (False, ReportConditionUploadStatusUnknown)))"

definition deleteFile :: "upload_env \<Rightarrow> FileInfo \<Rightarrow> upload_state \<Rightarrow> upload_state \<times> go_error option" where
  "deleteFile E file s =
     (case ueDeleteFile E (usHistory s) file of
        Some err \<Rightarrow> (s, Some err)
      | None \<Rightarrow> (record_action (FileDeleted file) s, None))"

section \<open>Reports\<close>

text \<open>The last attempt of the conflict retry: get the report, change its status, write it.\<close>

definition updateMeterReportStatus ::
  "upload_env \<Rightarrow> string \<Rightarrow> (MeterReportStatus \<Rightarrow> MeterReportStatus) \<Rightarrow> upload_state \<Rightarrow>
     upload_state \<times> go_error option" where
  "updateMeterReportStatus E name mutate s =
     (case usReports s name of
        None \<Rightarrow> (s, Some (Err ''not found''))
      | Some meterReport \<Rightarrow>
          (case ueUpdateStatus E (usHistory s) name of
             Some err \<Rightarrow> (s, Some err)
           | None \<Rightarrow>
               (let status' = mutate (mrStatus meterReport) in
                (record_action (StatusWritten name status')
                   (s\<lparr>usReports := (usReports s)(name \<mapsto> meterReport\<lparr>mrStatus := status'\<rparr>)\<rparr>), None))))"

text \<open>The change of the status after an upload.\<close>

definition upload_mutation ::
  "go_time \<Rightarrow> bool \<Rightarrow> Condition \<Rightarrow> UploadDetailConditions \<Rightarrow> MeterReportStatus \<Rightarrow> MeterReportStatus" where
  "upload_mutation now success condition statuses m =
     (let m1 = m\<lparr>msConditions := fst (SetCondition now condition (msConditions m)),
                msUploadStatus := uploads_Append (msUploadStatus m) statuses\<rparr>;
          m2 = (if \<not> success then m1\<lparr>msRetryUpload := msRetryUpload m1 + 1\<rparr> else m1)
      in case uploads_Get (msUploadStatus m2) data_service_target of
           None \<Rightarrow> m2
         | Some d \<Rightarrow> m2\<lparr>msDataServiceStatus := Some d\<rparr>)"

definition RunReport :: "upload_env \<Rightarrow> MeterReport \<Rightarrow> upload_state \<Rightarrow> upload_state \<times> go_error option" where
  "RunReport E report s =
     (case msDataServiceStatus (mrStatus report) of
        None \<Rightarrow> (s, Some (Err ''Report does not have an DataService file ID''))
      | Some d \<Rightarrow>
          (if udID d = [] then (s, Some (Err ''Report does not have an DataService file ID''))
           else
             (case ueGetFile E (usHistory s) (udID d) of
                Inl err \<Rightarrow> (s, Some err)
              | Inr file \<Rightarrow>
                  (let (s1, statuses) = uploadFile E file s;
                       (success, condition) = findStatus statuses
                   in case updateMeterReportStatus E (mrName report)
                             (upload_mutation (ueNow E) success condition statuses) s1 of
                        (s2, Some err) \<Rightarrow> (s2, Some err)
                      | (s2, None) \<Rightarrow>
                          (if success then (fst (deleteFile E file s2), None) else (s2, None))))))"

section \<open>Files without a report\<close>

definition uploadAttempts :: string where "uploadAttempts = ''uploadAttempts''"

definition attempts_of :: "FileInfo \<Rightarrow> int" where
  "attempts_of file =
     (case fiMetadata file uploadAttempts of
        None \<Rightarrow> 0
      | Some str \<Rightarrow> (case Atoi str of Inl err \<Rightarrow> 0 | Inr n \<Rightarrow> n))"

definition generic_file :: "upload_env \<Rightarrow> FileInfo \<Rightarrow> upload_state \<Rightarrow> upload_state" where
  "generic_file E listed s =
     (if fiDeletedAt listed \<noteq> None \<and> fiDeletedAt listed \<noteq> Some 0 then s
      else
        (case ueGetFile E (usHistory s) (fiId listed) of
           Inl err \<Rightarrow> s
         | Inr file \<Rightarrow>
             (let n = attempts_of file in
              if n \<ge> ueMaxUploadAttempts E then s
              else
                (let (s1, statuses) = uploadFile E file s;
                     (success, condition) = findStatus statuses
                 in if \<not> success \<and> n < ueMaxUploadAttempts E then
                      (let file1 = file\<lparr>fiMetadata := (fiMetadata file)(uploadAttempts \<mapsto> Itoa (n + 1))\<rparr>
                       in case ueUpdateMetadata E (usHistory s1) file1 of
                            Some err \<Rightarrow> s1
                          | None \<Rightarrow> record_action (MetadataSet file1) s1)
                    else fst (deleteFile E file s1)))))"

fun generic_files :: "upload_env \<Rightarrow> FileInfo list \<Rightarrow> upload_state \<Rightarrow> upload_state" where
  "generic_files E [] s = s"
| "generic_files E (f # fs) s = generic_files E fs (generic_file E f s)"

text \<open>
  The listing is repeated while it comes back partial. \<open>k\<close> bounds the number of rounds:
  the result is the state reached and whether the loop has ended by then, with its error,
  or goes on, so that every finite part of a run that never ends is seen too.
\<close>

datatype generic_end = Running | Ended "go_error option"

fun RunGeneric :: "upload_env \<Rightarrow> nat \<Rightarrow> upload_state \<Rightarrow> upload_state \<times> generic_end" where
  "RunGeneric E 0 s = (s, Running)"
| "RunGeneric E (Suc k) s =
     (case ueListFiles E (usHistory s) of
        (fileList, err) \<Rightarrow>
          (if length fileList \<noteq> 0 \<and> err \<noteq> None then RunGeneric E k (generic_files E fileList s)
           else
             (case err of
                Some e \<Rightarrow> (s, Ended (Some e))
              | None \<Rightarrow> (generic_files E fileList s, Ended None))))"

section \<open>The reconcile job\<close>

datatype ReportSkipReason =
  SkipDisconnected | SkipNoData | SkipNoFileID | SkipMaxAttempts | SkipComplete | SkipEmpty

definition CanRunReportTask :: "go_time \<Rightarrow> MeterReport \<Rightarrow> bool" where
  "CanRunReportTask now report =
     (let st = mrStatus report in
      if now < mrEndTime report then False
      else if (case msDataServiceStatus st of None \<Rightarrow> False | Some d \<Rightarrow> Success d) then False
      else if (case uploads_Get (msUploadStatus st) data_service_target of None \<Rightarrow> False | Some d \<Rightarrow> Success d) then False
      else if OneSuccessOf (msUploadStatus st) required_targets then False
      else True)"

definition CanRunUploadReportTask :: "upload_env \<Rightarrow> MeterReport \<Rightarrow> ReportSkipReason \<times> bool" where
  "CanRunUploadReportTask E report =
     (let st = mrStatus report in
      if ueNow E < mrEndTime report then (SkipEmpty, False)
      else if ueIsDisconnected E then (SkipDisconnected, False)
      else if msMetricUploadCount st = None \<or> msMetricUploadCount st = Some 0 then (SkipNoData, False)
      else if (case msDataServiceStatus st of None \<Rightarrow> True | Some d \<Rightarrow> udID d = [] \<or> \<not> Success d) then (SkipNoFileID, False)
      else if msRetryUpload st \<ge> ueMaxUploadAttempts E then (SkipMaxAttempts, False)
      else if OneSuccessOf (msUploadStatus st) required_targets then (SkipComplete, False)
      else (SkipEmpty, True))"

definition skip_condition :: "ReportSkipReason \<Rightarrow> Condition option" where
  "skip_condition skip =
     (case skip of
        SkipDisconnected \<Rightarrow> Some ReportConditionJobIsDisconnected
      | SkipNoData \<Rightarrow> Some ReportConditionJobHasNoData
      | SkipMaxAttempts \<Rightarrow> Some ReportConditionFailedAttempts
      | SkipComplete \<Rightarrow> None
      | SkipEmpty \<Rightarrow> None
      | SkipNoFileID \<Rightarrow> Some (ReportConditionJobSkipped\<lparr>cMessage := ''Report skipped because NoFileID''\<rparr>))"

definition setSkipReason :: "upload_env \<Rightarrow> MeterReport \<Rightarrow> ReportSkipReason \<Rightarrow> upload_state \<Rightarrow> upload_state" where
  "setSkipReason E mreport skip s =
     (case skip_condition skip of
        None \<Rightarrow> s
      | Some condition \<Rightarrow>
          fst (updateMeterReportStatus E (mrName mreport)
            (\<lambda>m. m\<lparr>msConditions := fst (SetCondition (ueNow E) condition (msConditions m))\<rparr>) s))"

text \<open>The selection: the reports to run, with the skip reasons of the others written.\<close>

fun select_uploads :: "upload_env \<Rightarrow> MeterReport list \<Rightarrow> upload_state \<Rightarrow> upload_state \<times> MeterReport list" where
  "select_uploads E [] s = (s, [])"
| "select_uploads E (report # reports) s =
     (case CanRunUploadReportTask E report of
        (reason, True) \<Rightarrow> (let (s', rs) = select_uploads E reports s in (s', report # rs))
      | (reason, False) \<Rightarrow> select_uploads E reports (setSkipReason E report reason s))"

fun run_reports :: "upload_env \<Rightarrow> MeterReport list \<Rightarrow> upload_state \<Rightarrow> upload_state \<times> go_error list" where
  "run_reports E [] s = (s, [])"
| "run_reports E (report # reports) s =
     (let (s1, err) = RunReport E report s;
          (s2, errs) = run_reports E reports s1
      in (s2, (case err of None \<Rightarrow> errs | Some e \<Rightarrow> e # errs)))"

text \<open>
  The upload step over the listed reports, or the error of the listing. \<open>newUpload\<close> is
  the error of creating the upload task. The errors are \<open>None\<close> while the loop over the
  remaining files goes on after \<open>k\<close> rounds.
\<close>

definition reconcile_upload ::
  "upload_env \<Rightarrow> nat \<Rightarrow> MeterReport list result \<Rightarrow> go_error option \<Rightarrow> upload_state \<Rightarrow>
     upload_state \<times> go_error list option" where
  "reconcile_upload E k listing newUpload s =
     (case listing of
        Inl err \<Rightarrow> (s, Some [err])
      | Inr items \<Rightarrow>
          (let (s1, toRun) = select_uploads E items s in
           case newUpload of
             Some err \<Rightarrow> (s1, Some [err])
           | None \<Rightarrow>
               (let (s2, errs) = run_reports E toRun s1 in
                if ueIsDisconnected E then (s2, Some errs)
                else
                  (case RunGeneric E k s2 of
                     (s3, Running) \<Rightarrow> (s3, None)
                   | (s3, Ended None) \<Rightarrow> (s3, Some errs)
                   | (s3, Ended (Some e)) \<Rightarrow> (s3, Some (errs @ [e]))))))"

section \<open>Files are deleted only after a required target took them\<close>

definition taken :: "upload_action list \<Rightarrow> FileInfo \<Rightarrow> bool" where
  "taken h fl \<longleftrightarrow> (\<exists>t\<in>set required_targets. \<exists>i. Sent t fl i \<in> set h)"

fun deletes_safe_rev :: "upload_action list \<Rightarrow> bool" where
  "deletes_safe_rev [] = True"
| "deletes_safe_rev (a # h) =
     ((case a of FileDeleted f \<Rightarrow> taken h f | _ \<Rightarrow> True) \<and> deletes_safe_rev h)"

text \<open>In a history every deletion of a file comes after a required target took it.\<close>

definition deletes_safe :: "upload_action list \<Rightarrow> bool" where
  "deletes_safe h = deletes_safe_rev (rev h)"

lemma taken_set_cong: "set h = set g \<Longrightarrow> taken h = taken g"
  by (simp add: taken_def fun_eq_iff)

lemma deletes_safe_snoc:
  "deletes_safe (h @ [a]) \<longleftrightarrow> deletes_safe h \<and> (\<forall>f. a = FileDeleted f \<longrightarrow> taken h f)"
  using taken_set_cong [of "rev h" h] by (auto simp: deletes_safe_def split: upload_action.splits)

lemma deletes_safe_iff:
  "deletes_safe h \<longleftrightarrow> (\<forall>pre f post. h = pre @ FileDeleted f # post \<longrightarrow> taken pre f)"
proof (induction h rule: rev_induct)
  case (snoc a h)
  show ?case unfolding deletes_safe_snoc snoc.IH
  proof (intro iffI conjI allI impI)
    fix pre f post
    assume "(\<forall>pre f post. h = pre @ FileDeleted f # post \<longrightarrow> taken pre f) \<and> (\<forall>f. a = FileDeleted f \<longrightarrow> taken h f)"
      and "h @ [a] = pre @ FileDeleted f # post"
    then show "taken pre f" by (cases post rule: rev_cases) auto
  next
    fix pre f post
    assume *: "\<forall>pre f post. h @ [a] = pre @ FileDeleted f # post \<longrightarrow> taken pre f" and "h = pre @ FileDeleted f # post"
    then show "taken pre f" by (metis append.assoc append_Cons)
  next
    fix f
    assume "\<forall>pre f post. h @ [a] = pre @ FileDeleted f # post \<longrightarrow> taken pre f" and "a = FileDeleted f"
    then show "taken h f" by blast
  qed
qed (simp add: deletes_safe_def)

lemma uploadFile_loop_outcome:
  "uploadFile_loop E fl dl ups s = (s', sts) \<Longrightarrow>
     usReports s' = usReports s \<and> set (usHistory s) \<subseteq> set (usHistory s') \<and>
     (deletes_safe (usHistory s) \<longrightarrow> deletes_safe (usHistory s')) \<and>
     set (map udTarget sts) \<subseteq> set (map fst ups) \<and>
     (distinct (map fst ups) \<longrightarrow> distinct (map udTarget sts)) \<and>
     (\<forall>d\<in>set sts. Success d \<longrightarrow> Sent (udTarget d) fl (udID d) \<in> set (usHistory s'))"
proof (induction E fl dl ups s arbitrary: s' sts rule: uploadFile_loop.induct)
  case (2 E fl dl target up ups s)
  show ?case
  proof (cases dl)
    case (Inl derr)
    with 2 show ?thesis by (auto simp: failure_details_def Success_def UploadStatusFailure_def UploadStatusSuccess_def)
  next
    case (Inr fname)
    show ?thesis
    proof (cases "ueReadFile E (usHistory s) fname")
      case rd: (Inl err)
      with 2(4) Inr obtain rest where r: "uploadFile_loop E fl dl ups s = (s', rest)" "sts = failure_details target err # rest"
        by (auto split: prod.splits)
      from 2(1) [OF Inr rd r(1)] r(2) show ?thesis
        by (auto simp: failure_details_def Success_def UploadStatusFailure_def UploadStatusSuccess_def)
    next
      case rd: (Inr data)
      show ?thesis
      proof (cases "up (usHistory s) (fiName fl) data")
        case u: (Inl err)
        let ?s = "record_action (SendFailed target fl) s"
        from u 2(4) Inr rd obtain rest where r: "uploadFile_loop E fl dl ups ?s = (s', rest)"
          "sts = failure_details target err # rest" by (auto split: prod.splits)
        from 2(2) [OF Inr rd u r(1)] r(2) show ?thesis
          by (auto simp: failure_details_def Success_def UploadStatusFailure_def UploadStatusSuccess_def
              record_action_def deletes_safe_snoc)
      next
        case u: (Inr i)
        let ?s = "record_action (Sent target fl i) s"
        from u 2(4) Inr rd obtain rest where r: "uploadFile_loop E fl dl ups ?s = (s', rest)"
          "sts = \<lparr>udTarget = target, udID = i, udStatus = UploadStatusSuccess, udError = []\<rparr> # rest"
          by (auto split: prod.splits)
        from 2(3) [OF Inr rd u r(1)] r(2) show ?thesis
          by (auto simp: record_action_def deletes_safe_snoc)
      qed
    qed
  qed
qed simp

lemmas uploadFile_outcome = uploadFile_loop_outcome [OF uploadFile_def [symmetric, THEN trans]]

lemma uploads_Get_in_set: "uploads_Get u t = Some d \<Longrightarrow> d \<in> set u"
  by (induction u) (auto split: if_splits)

lemma findStatus_success_taken:
  assumes "uploadFile E fl s = (s', sts)" "fst (findStatus sts)"
  shows "taken (usHistory s') fl"
proof -
  from assms(2) obtain t d where "t \<in> set required_targets" "uploads_Get sts t = Some d" "Success d"
    by (auto simp: findStatus_def OneSuccessOf_iff split: if_splits option.splits)
  with uploadFile_outcome [OF assms(1)] uploads_Get_in_set [of sts t d] uploads_Get_target [of sts t d]
  have "t \<in> set required_targets" "Sent t fl (udID d) \<in> set (usHistory s')" by auto
  then show ?thesis by (auto simp: taken_def)
qed

lemma updateMeterReportStatus_safe:
  "updateMeterReportStatus E name f s = (s', err) \<Longrightarrow>
     set (usHistory s) \<subseteq> set (usHistory s') \<and> (deletes_safe (usHistory s) \<longrightarrow> deletes_safe (usHistory s'))"
  by (auto simp: updateMeterReportStatus_def record_action_def deletes_safe_snoc Let_def split: option.splits)

lemma deleteFile_safe:
  "deletes_safe (usHistory s) \<Longrightarrow> taken (usHistory s) fl \<Longrightarrow> deletes_safe (usHistory (fst (deleteFile E fl s)))"
  by (auto simp: deleteFile_def record_action_def deletes_safe_snoc split: option.splits)

lemma taken_mono: "taken h f \<Longrightarrow> set h \<subseteq> set g \<Longrightarrow> taken g f"
  by (auto simp: taken_def)

lemma RunReport_safe:
  assumes "deletes_safe (usHistory s)"
  shows "deletes_safe (usHistory (fst (RunReport E report s)))"
proof (cases "msDataServiceStatus (mrStatus report)")
  case (Some d)
  show ?thesis
  proof (cases "udID d = [] \<or> (\<exists>err. ueGetFile E (usHistory s) (udID d) = Inl err)")
    case False
    then obtain fl where id: "udID d \<noteq> []" and f: "ueGetFile E (usHistory s) (udID d) = Inr fl"
      by (cases "ueGetFile E (usHistory s) (udID d)") auto
    obtain s1 sts where up: "uploadFile E fl s = (s1, sts)" by fastforce
    obtain ok cond where fs: "findStatus sts = (ok, cond)" by fastforce
    obtain s2 err where st: "updateMeterReportStatus E (mrName report) (upload_mutation (ueNow E) ok cond sts) s1 = (s2, err)"
      by fastforce
    have s2: "deletes_safe (usHistory s2)"
      using uploadFile_outcome [OF up] updateMeterReportStatus_safe [OF st] assms by blast
    moreover have "ok \<Longrightarrow> taken (usHistory s2) fl"
      using findStatus_success_taken [OF up] fs updateMeterReportStatus_safe [OF st] by (auto intro: taken_mono)
    ultimately show ?thesis
      using Some id f up fs st by (auto simp: RunReport_def deleteFile_safe split: option.splits)
  qed (auto simp: RunReport_def Some assms)
qed (simp add: RunReport_def assms)

lemma generic_file_safe:
  assumes "deletes_safe (usHistory s)"
  shows "deletes_safe (usHistory (generic_file E listed s))"
proof (cases "ueGetFile E (usHistory s) (fiId listed)")
  case (Inr fl)
  obtain s1 sts where up: "uploadFile E fl s = (s1, sts)" by fastforce
  obtain ok cond where fs: "findStatus sts = (ok, cond)" by fastforce
  have "deletes_safe (usHistory s1)" using uploadFile_outcome [OF up] assms by blast
  moreover have "ok \<Longrightarrow> taken (usHistory s1) fl" using findStatus_success_taken [OF up] fs by simp
  ultimately show ?thesis
    using Inr up fs assms
    by (auto simp: generic_file_def deleteFile_safe record_action_def deletes_safe_snoc Let_def split: option.splits)
qed (simp add: generic_file_def assms)

lemma generic_files_safe: "deletes_safe (usHistory s) \<Longrightarrow> deletes_safe (usHistory (generic_files E fs s))"
  by (induction fs arbitrary: s) (simp_all add: generic_file_safe)

lemma RunGeneric_safe:
  "deletes_safe (usHistory s) \<Longrightarrow> deletes_safe (usHistory (fst (RunGeneric E k s)))"
  by (induction k arbitrary: s) (auto simp: generic_files_safe split: prod.splits option.splits)

lemma setSkipReason_safe:
  "deletes_safe (usHistory s) \<Longrightarrow> deletes_safe (usHistory (setSkipReason E r skip s))"
  using updateMeterReportStatus_safe [OF surjective_pairing]
  by (auto simp: setSkipReason_def split: option.splits)

lemma select_uploads_safe:
  "deletes_safe (usHistory s) \<Longrightarrow> deletes_safe (usHistory (fst (select_uploads E rs s)))"
  by (induction E rs s rule: select_uploads.induct)
     (auto simp: setSkipReason_safe split: prod.splits bool.splits)

lemma run_reports_safe:
  "deletes_safe (usHistory s) \<Longrightarrow> deletes_safe (usHistory (fst (run_reports E rs s)))"
proof (induction rs arbitrary: s)
  case (Cons r rs)
  note r = RunReport_safe [OF Cons.prems, of E r]
  from Cons.IH [OF r] show ?case by (simp add: Let_def split_beta)
qed simp

lemma reconcile_upload_safe:
  assumes "deletes_safe (usHistory s)"
  shows "deletes_safe (usHistory (fst (reconcile_upload E k listing newUpload s)))"
proof (cases listing)
  case (Inr items)
  note s1 = select_uploads_safe [OF assms, of E items]
  note s2 = run_reports_safe [OF s1, of E "snd (select_uploads E items s)"]
  note s3 = RunGeneric_safe [OF s2, of E k]
  show ?thesis using s1 s2 s3 Inr
    by (auto simp: reconcile_upload_def Let_def split: prod.splits option.splits generic_end.splits)
qed (simp add: reconcile_upload_def assms)

text \<open>
  C3: no stored report is lost by the upload step. In everything the step has done after any
  number of rounds of its loop over the stored files, whether it has ended by then or goes
  on for ever, a file is deleted from the data service only after the marketplace or the
  insights target has taken that very file.
\<close>
theorem upload_deletes_only_taken:
  assumes "usHistory (fst (reconcile_upload E k listing newUpload \<lparr>usReports = reports, usHistory = []\<rparr>)) =
     pre @ FileDeleted fl # post"
  shows "\<exists>t\<in>{''redhat-marketplace'', ''redhat-insights''}. \<exists>i. Sent t fl i \<in> set pre"
proof -
  let ?s = "\<lparr>usReports = reports, usHistory = []\<rparr>"
  have "deletes_safe (usHistory ?s)" by (simp add: deletes_safe_def)
  from reconcile_upload_safe [OF this] assms show ?thesis
    by (fastforce simp: deletes_safe_iff taken_def required_targets_def)
qed

section \<open>The loop over the stored files ends\<close>

text \<open>
  What the data service holds after a history of the job: a deletion removes the file, an
  update of the metadata is merged into it, everything else leaves the files alone. Nobody
  else adds files meanwhile.
\<close>

definition stored_action :: "upload_action \<Rightarrow> FileInfo list \<Rightarrow> FileInfo list" where
  "stored_action a fs =
     (case a of
        FileDeleted f \<Rightarrow> filter (\<lambda>g. fiId g \<noteq> fiId f) fs
      | MetadataSet f \<Rightarrow> map (\<lambda>g. if fiId g = fiId f then g\<lparr>fiMetadata := fiMetadata g ++ fiMetadata f\<rparr> else g) fs
      | _ \<Rightarrow> fs)"

definition stored_files :: "FileInfo list \<Rightarrow> upload_action list \<Rightarrow> FileInfo list" where
  "stored_files fs h = fold stored_action h fs"

definition attempts_left :: "upload_env \<Rightarrow> FileInfo \<Rightarrow> nat" where
  "attempts_left E f = nat (ueMaxUploadAttempts E - attempts_of f)"

definition attempts_budget :: "upload_env \<Rightarrow> FileInfo list \<Rightarrow> nat" where
  "attempts_budget E fs = sum_list (map (attempts_left E) fs)"

definition partial_listing :: "upload_env \<Rightarrow> upload_action list \<Rightarrow> bool" where
  "partial_listing E h \<longleftrightarrow> fst (ueListFiles E h) \<noteq> [] \<and> snd (ueListFiles E h) \<noteq> None"

text \<open>
  A data service over the files \<open>fs\<close> that answers: it gives every file it holds, lists files
  it holds and each once, and carries out updates of metadata and deletions. Downloads and
  upload targets may fail in any way.
\<close>

definition serves_files :: "upload_env \<Rightarrow> FileInfo list \<Rightarrow> bool" where
  "serves_files E fs \<longleftrightarrow>
     distinct (map fiId fs) \<and> (\<forall>f\<in>set fs. fiDeletedAt f = None) \<and>
     (\<forall>h. \<forall>f\<in>set (stored_files fs h). ueGetFile E h (fiId f) = Inr f) \<and>
     (\<forall>h. set (fst (ueListFiles E h)) \<subseteq> set (stored_files fs h)) \<and>
     (\<forall>h. distinct (map fiId (fst (ueListFiles E h)))) \<and>
     (\<forall>h f. ueUpdateMetadata E h f = None) \<and> (\<forall>h f. ueDeleteFile E h f = None)"

lemma stored_files_snoc [simp]: "stored_files fs (h @ [a]) = stored_action a (stored_files fs h)"
  by (simp add: stored_files_def)

lemma stored_files_wf:
  assumes "distinct (map fiId fs)" "\<forall>f\<in>set fs. fiDeletedAt f = None"
  shows "distinct (map fiId (stored_files fs h)) \<and> (\<forall>f\<in>set (stored_files fs h). fiDeletedAt f = None)"
proof (induction h rule: rev_induct)
  case Nil
  with assms show ?case by (simp add: stored_files_def)
next
  case (snoc a h)
  have ids: "map fiId (map (\<lambda>g. if fiId g = fiId f then g\<lparr>fiMetadata := m g\<rparr> else g) gs) = map fiId gs" for f m and gs :: "FileInfo list"
    by simp
  from snoc show ?case
    by (auto simp: stored_action_def distinct_map_filter ids simp del: map_map split: upload_action.splits)
qed

lemma uploadFile_loop_stored:
  "stored_files fs (usHistory (fst (uploadFile_loop E fl dl ups s))) = stored_files fs (usHistory s)"
  by (induction E fl dl ups s rule: uploadFile_loop.induct)
     (auto simp: split_beta Let_def record_action_def stored_action_def split: sum.splits)

lemma uploadFile_stored:
  "uploadFile E fl s = (s1, sts) \<Longrightarrow> stored_files fs (usHistory s1) = stored_files fs (usHistory s)"
  using uploadFile_loop_stored by (metis fst_conv uploadFile_def)

lemma Atoi_range: "Atoi str = Inr i \<Longrightarrow> - (2 ^ 63) \<le> i \<and> i < 2 ^ 63"
  unfolding Atoi_def Let_def split_beta by (auto split: option.splits if_splits)

lemma attempts_left_counted:
  assumes "attempts_of f < ueMaxUploadAttempts E" "ueMaxUploadAttempts E < 2 ^ 63"
  shows "attempts_left E (f\<lparr>fiMetadata := fiMetadata f ++ (fiMetadata f)(uploadAttempts \<mapsto> Itoa (attempts_of f + 1))\<rparr>) <
     attempts_left E f"
proof -
  have "- (2 ^ 63) \<le> attempts_of f"
    using Atoi_range by (auto simp: attempts_of_def split: option.splits sum.splits)
  then have "Atoi (Itoa (attempts_of f + 1)) = Inr (attempts_of f + 1)"
    using assms by (intro Atoi_Itoa) simp_all
  with assms(1) show ?thesis by (simp add: attempts_left_def attempts_of_def)
qed

text \<open>One file of a listing: it uses up an attempt of its own when it has one left.\<close>

lemma stored_action_budget:
  assumes "distinct (map fiId gs)" "f \<in> set gs"
  shows "attempts_budget E (stored_action (FileDeleted f) gs) + attempts_left E f = attempts_budget E gs"
    and "attempts_budget E (stored_action (MetadataSet (f\<lparr>fiMetadata := m\<rparr>)) gs) + attempts_left E f =
       attempts_budget E gs + attempts_left E (f\<lparr>fiMetadata := fiMetadata f ++ m\<rparr>)"
proof -
  from assms(2) obtain ys zs where gs: "gs = ys @ f # zs" by (auto dest: split_list)
  with assms(1) have "fiId f \<notin> fiId ` set ys" "fiId f \<notin> fiId ` set zs" by simp_all
  then have keep: "fiId g \<noteq> fiId f" if "g \<in> set ys \<or> g \<in> set zs" for g
    using that by (metis image_eqI)
  have flt: "filter (\<lambda>g. fiId g \<noteq> fiId f) ys = ys" "filter (\<lambda>g. fiId g \<noteq> fiId f) zs = zs"
    by (rule filter_True, use keep in blast)+
  have upd: "map (\<lambda>g. if fiId g = fiId f then c g else g) ys = ys" "map (\<lambda>g. if fiId g = fiId f then c g else g) zs = zs" for c
    by (rule map_idI, use keep in simp)+
  from flt upd show "attempts_budget E (stored_action (FileDeleted f) gs) + attempts_left E f = attempts_budget E gs"
    and "attempts_budget E (stored_action (MetadataSet (f\<lparr>fiMetadata := m\<rparr>)) gs) + attempts_left E f =
       attempts_budget E gs + attempts_left E (f\<lparr>fiMetadata := fiMetadata f ++ m\<rparr>)"
    by (simp_all add: gs stored_action_def attempts_budget_def)
qed

lemma generic_file_budget:
  assumes "serves_files E fs" "ueMaxUploadAttempts E < 2 ^ 63" "f \<in> set (stored_files fs (usHistory s))"
  defines "gs \<equiv> stored_files fs (usHistory s)" and "gs' \<equiv> stored_files fs (usHistory (generic_file E f s))"
  shows "attempts_budget E gs' + (if attempts_of f < ueMaxUploadAttempts E then 1 else 0) \<le> attempts_budget E gs"
    and "\<forall>g\<in>set gs. fiId g \<noteq> fiId f \<longrightarrow> g \<in> set gs'"
proof -
  let ?m = "(fiMetadata f)(uploadAttempts \<mapsto> Itoa (attempts_of f + 1))"
  obtain s1 sts where up: "uploadFile E f s = (s1, sts)" by fastforce
  note st = uploadFile_stored [OF up, of fs]
  have env: "ueGetFile E (usHistory s) (fiId f) = Inr f" "fiDeletedAt f = None" "distinct (map fiId gs)" "f \<in> set gs"
    "\<And>h g. ueUpdateMetadata E h g = None" "\<And>h g. ueDeleteFile E h g = None"
    using assms(1,3) stored_files_wf [of fs "usHistory s"] by (auto simp: serves_files_def gs_def)
  note budget = stored_action_budget [OF env(3,4), of E]
  have gs': "gs' = (if attempts_of f \<ge> ueMaxUploadAttempts E then gs
      else if fst (findStatus sts) then stored_action (FileDeleted f) gs
      else stored_action (MetadataSet (f\<lparr>fiMetadata := ?m\<rparr>)) gs)"
    using st up env by (simp add: gs_def gs'_def generic_file_def deleteFile_def record_action_def Let_def split_beta)
  have "0 < attempts_left E f" if "attempts_of f < ueMaxUploadAttempts E" using that by (simp add: attempts_left_def)
  then show "attempts_budget E gs' + (if attempts_of f < ueMaxUploadAttempts E then 1 else 0) \<le> attempts_budget E gs"
    using budget(1) budget(2) [of ?m] attempts_left_counted [OF _ assms(2), of f] by (auto simp: gs')
  show "\<forall>g\<in>set gs. fiId g \<noteq> fiId f \<longrightarrow> g \<in> set gs'" by (auto simp: gs' stored_action_def image_iff)
qed

lemma generic_files_budget:
  assumes "serves_files E fs" "ueMaxUploadAttempts E < 2 ^ 63"
  shows "set ls \<subseteq> set (stored_files fs (usHistory s)) \<Longrightarrow> distinct (map fiId ls) \<Longrightarrow>
    attempts_budget E (stored_files fs (usHistory (generic_files E ls s))) +
      (if \<exists>f\<in>set ls. attempts_of f < ueMaxUploadAttempts E then 1 else 0) \<le> attempts_budget E (stored_files fs (usHistory s))"
proof (induction ls arbitrary: s)
  case (Cons f ls)
  note f = generic_file_budget [OF assms, of f s]
  have "set ls \<subseteq> set (stored_files fs (usHistory (generic_file E f s)))"
    using Cons.prems f(2) by (fastforce simp: image_iff)
  from Cons.IH [OF this] Cons.prems f(1) show ?case by (auto split: if_splits)
qed simp

lemma RunGeneric_Suc:
  "RunGeneric E (Suc k) s =
     (if partial_listing E (usHistory s) then RunGeneric E k (generic_files E (fst (ueListFiles E (usHistory s))) s)
      else (case snd (ueListFiles E (usHistory s)) of
              Some e \<Rightarrow> (s, Ended (Some e))
            | None \<Rightarrow> (generic_files E (fst (ueListFiles E (usHistory s))) s, Ended None)))"
  by (simp add: partial_listing_def split_beta split: option.splits)

lemma RunGeneric_budget:
  assumes "serves_files E fs" "ueMaxUploadAttempts E < 2 ^ 63"
    and "\<forall>h. partial_listing E h \<longrightarrow> (\<exists>f\<in>set (fst (ueListFiles E h)). attempts_of f < ueMaxUploadAttempts E)"
  shows "attempts_budget E (stored_files fs (usHistory s)) < k \<Longrightarrow> \<exists>err. snd (RunGeneric E k s) = Ended err"
proof (induction k arbitrary: s)
  case (Suc k)
  show ?case
  proof (cases "partial_listing E (usHistory s)")
    case True
    let ?ls = "fst (ueListFiles E (usHistory s))"
    have "set ?ls \<subseteq> set (stored_files fs (usHistory s))" "distinct (map fiId ?ls)"
      using assms(1) by (simp_all add: serves_files_def)
    from generic_files_budget [OF assms(1,2) this] assms(3) True Suc.prems
    have "attempts_budget E (stored_files fs (usHistory (generic_files E ?ls s))) < k" by simp
    from Suc.IH [OF this] True show ?thesis by (simp add: RunGeneric_Suc del: RunGeneric.simps)
  qed (simp add: RunGeneric_Suc del: RunGeneric.simps split: option.splits)
qed simp

text \<open>
  C19: the loop over the stored files ends. Whatever the downloads and the upload targets do,
  when the data service answers (it lists and gives files it holds, and takes updates of
  metadata and deletions) and every partial listing shows at least one file with attempts
  left, the loop has ended after one round more than there are attempts left on all stored
  files, and so has the upload step of any reports once it gets that many rounds.
\<close>
theorem RunGeneric_ends:
  assumes "serves_files E fs" and "ueMaxUploadAttempts E < 2 ^ 63"
    and "\<forall>h. partial_listing E h \<longrightarrow> (\<exists>f\<in>set (fst (ueListFiles E h)). attempts_of f < ueMaxUploadAttempts E)"
  shows "(\<exists>err. snd (RunGeneric E (Suc (attempts_budget E (stored_files fs (usHistory s)))) s) = Ended err) \<and>
     (\<exists>k errs. snd (reconcile_upload E k listing newUpload s) = Some errs)"
proof
  show "\<exists>err. snd (RunGeneric E (Suc (attempts_budget E (stored_files fs (usHistory s)))) s) = Ended err"
    by (rule RunGeneric_budget [OF assms]) simp
  let ?s2 = "fst (run_reports E (snd (select_uploads E (projr listing) s)) (fst (select_uploads E (projr listing) s)))"
  obtain err where "snd (RunGeneric E (Suc (attempts_budget E (stored_files fs (usHistory ?s2)))) ?s2) = Ended err"
    using RunGeneric_budget [OF assms, of ?s2, OF lessI] by blast
  then have "\<exists>errs. snd (reconcile_upload E (Suc (attempts_budget E (stored_files fs (usHistory ?s2)))) listing newUpload s) = Some errs"
    by (cases err) (auto simp: reconcile_upload_def Let_def split_beta split: sum.splits option.splits generic_end.splits)
  then show "\<exists>k errs. snd (reconcile_upload E k listing newUpload s) = Some errs" by blast
qed

text \<open>
  The condition on partial listings is needed: files that have used up their attempts are
  skipped and stay listed, so a listing that keeps coming back partial with only such files
  is repeated for ever, with nothing done in between.
\<close>
theorem exhausted_partial_listing_loops:
  assumes "partial_listing E (usHistory s)"
    and "\<forall>f\<in>set (fst (ueListFiles E (usHistory s))). \<exists>g. ueGetFile E (usHistory s) (fiId f) = Inr g \<and>
           ueMaxUploadAttempts E \<le> attempts_of g"
  shows "RunGeneric E k s = (s, Running)"
proof -
  have "generic_files E ls s = s" if "set ls \<subseteq> set (fst (ueListFiles E (usHistory s)))" for ls
    using that assms(2) by (induction ls) (auto simp: generic_file_def)
  then show ?thesis using assms(1) by (induction k) (simp_all add: RunGeneric_Suc del: RunGeneric.simps(2))
qed

section \<open>What an upload writes to its report\<close>

lemma uploads_Get_None: "uploads_Get u t = None \<longleftrightarrow> t \<notin> udTarget ` set u"
  by (induction u) auto

lemma uploads_Get_Append:
  "targets_distinct sts \<Longrightarrow>
     uploads_Get (uploads_Append u sts) t = (case uploads_Get sts t of Some d \<Rightarrow> Some d | None \<Rightarrow> uploads_Get u t)"
proof (induction sts arbitrary: u)
  case (Cons c sts)
  have "uploads_Get sts (udTarget c) = None"
    using Cons.prems by (simp add: targets_distinct_def uploads_Get_None)
  with Cons show ?case by (auto simp: targets_distinct_def uploads_Get_Set split: option.splits)
qed simp

lemma OneSuccessOf_Append:
  "targets_distinct sts \<Longrightarrow> OneSuccessOf sts ts \<Longrightarrow> OneSuccessOf (uploads_Append u sts) ts"
  unfolding OneSuccessOf_iff by (metis option.simps(5) uploads_Get_Append)

lemma findStatus_condition:
  "cType (snd (findStatus sts)) = ReportConditionTypeUploadStatus \<and>
   (IsTrue (snd (findStatus sts)) \<longleftrightarrow> fst (findStatus sts))"
  by (auto simp: findStatus_def upload_condition_def IsTrue_def ReportConditionUploadStatusFinished_def
      ReportConditionUploadStatusErrored_def ReportConditionUploadStatusUnknown_def ConditionTrue_def
      ConditionFalse_def ConditionUnknown_def split: option.splits)

lemma upload_mutation_status:
  assumes "targets_distinct sts" "findStatus sts = (ok, cond)"
  shows "IsUploaded (upload_mutation now ok cond sts m) \<longleftrightarrow> ok"
    "ok \<Longrightarrow> OneSuccessOf (msUploadStatus (upload_mutation now ok cond sts m)) required_targets"
    "msRetryUpload (upload_mutation now ok cond sts m) = msRetryUpload m + (if ok then 0 else 1)"
proof -
  have "cType cond = ReportConditionTypeUploadStatus" "IsTrue cond \<longleftrightarrow> ok"
    using findStatus_condition [of sts] assms(2) by auto
  then show "IsUploaded (upload_mutation now ok cond sts m) \<longleftrightarrow> ok"
    by (auto simp: upload_mutation_def Let_def IsUploaded_def SetCondition_def set_loop_get IsTrue_def
        split: option.splits)
  show "ok \<Longrightarrow> OneSuccessOf (msUploadStatus (upload_mutation now ok cond sts m)) required_targets"
    using assms OneSuccessOf_Append [OF assms(1), of required_targets "msUploadStatus m"]
    by (auto simp: upload_mutation_def Let_def findStatus_def split: if_splits option.splits)
  show "msRetryUpload (upload_mutation now ok cond sts m) = msRetryUpload m + (if ok then 0 else 1)"
    by (auto simp: upload_mutation_def Let_def split: option.splits)
qed

text \<open>
  C37: an upload that ends without error settles its report: either the report is now marked
  uploaded, and then it is neither generated nor uploaded again, or it is not, and then
  exactly one more attempt is counted against it.
\<close>
theorem RunReport_settles:
  assumes "RunReport E report s = (s', None)" and "usReports s (mrName report) = Some report"
    and "distinct (map fst (ueUploaders E))"
  shows "\<exists>r'. usReports s' (mrName report) = Some r' \<and>
     (if IsUploaded (mrStatus r')
      then msRetryUpload (mrStatus r') = msRetryUpload (mrStatus report) \<and>
           (\<forall>now. \<not> CanRunReportTask now r') \<and> \<not> snd (CanRunUploadReportTask E r')
      else msRetryUpload (mrStatus r') = msRetryUpload (mrStatus report) + 1)"
proof -
  from assms(1) obtain d fl s1 sts ok cond s2 where
    up: "uploadFile E fl s = (s1, sts)" and fs: "findStatus sts = (ok, cond)"
    and st: "updateMeterReportStatus E (mrName report) (upload_mutation (ueNow E) ok cond sts) s1 = (s2, None)"
    and s': "s' = (if ok then fst (deleteFile E fl s2) else s2)"
    by (auto simp: RunReport_def split: option.splits if_splits sum.splits prod.splits)
  have "usReports s1 (mrName report) = Some report" "targets_distinct sts"
    using uploadFile_outcome [OF up] assms(2,3) by (simp_all add: targets_distinct_def)
  note m = upload_mutation_status [OF this(2) fs, of "ueNow E" "mrStatus report"]
  let ?r' = "report\<lparr>mrStatus := upload_mutation (ueNow E) ok cond sts (mrStatus report)\<rparr>"
  have "usReports s2 (mrName report) = Some ?r'"
    using st \<open>usReports s1 (mrName report) = Some report\<close>
    by (auto simp: updateMeterReportStatus_def record_action_def Let_def split: option.splits)
  then have "usReports s' (mrName report) = Some ?r'"
    by (auto simp: s' deleteFile_def record_action_def split: option.splits)
  moreover have "ok \<Longrightarrow> (\<forall>now. \<not> CanRunReportTask now ?r') \<and> \<not> snd (CanRunUploadReportTask E ?r')"
    using m(2) by (auto simp: CanRunReportTask_def CanRunUploadReportTask_def Let_def)
  ultimately show ?thesis using m(1,3) by auto
qed

definition demo_uploads :: upload_env where
  "demo_uploads = \<lparr>ueGetFile = (\<lambda>_ _. Inr demo_info), ueListFiles = (\<lambda>_. ([], None)),
     ueDownloadFile = (\<lambda>_ _. Inr ''local''), ueReadFile = (\<lambda>_ _. Inr ''abc''),
     ueUploaders = [(''redhat-marketplace'', \<lambda>_ _ _. Inr ''m1'')], ueUpdateMetadata = (\<lambda>_ _. None),
     ueDeleteFile = (\<lambda>_ _. None), ueUpdateStatus = (\<lambda>_ _. None), ueNow = 10, ueIsDisconnected = False,
     ueMaxUploadAttempts = 3\<rparr>"

definition demo_report :: MeterReport where
  "demo_report = \<lparr>mrName = ''r'', mrStartTime = 0, mrEndTime = 5, mrStatus = \<lparr>msConditions = [], msUploadStatus = [],
     msMetricUploadCount = Some 1, msRetryUpload = 0, msDataServiceStatus =
       Some \<lparr>udTarget = ''data-service'', udID = ''7'', udStatus = ''success'', udError = []\<rparr>,
     msErrors = [], msWarnings = []\<rparr>\<rparr>"

lemmas demo_upload_simps = demo_uploads_def demo_report_def RunReport_def uploadFile_def findStatus_def
  required_targets_def UploadStatusSuccess_def updateMeterReportStatus_def record_action_def deleteFile_def
  CanRunUploadReportTask_def Success_def reconcile_upload_def

theorem upload_deletes_only_taken_witness:
  "\<exists>pre post. usHistory (fst (reconcile_upload demo_uploads 1 (Inr [demo_report]) None
        \<lparr>usReports = [''r'' \<mapsto> demo_report], usHistory = []\<rparr>)) = pre @ FileDeleted demo_info # post \<and>
     (\<exists>t\<in>{''redhat-marketplace'', ''redhat-insights''}. \<exists>i. Sent t demo_info i \<in> set pre)"
proof -
  let ?s = "\<lparr>usReports = [''r'' \<mapsto> demo_report], usHistory = []\<rparr>"
  have "FileDeleted demo_info \<in> set (usHistory (fst (reconcile_upload demo_uploads 1 (Inr [demo_report]) None ?s)))"
    by (simp add: demo_upload_simps Let_def)
  then obtain pre post where
    h: "usHistory (fst (reconcile_upload demo_uploads 1 (Inr [demo_report]) None ?s)) = pre @ FileDeleted demo_info # post"
    by (auto dest: split_list)
  from h upload_deletes_only_taken [OF h] show ?thesis by blast
qed

text \<open>
  A data service with two files that lists one file with attempts left at a time, and upload
  targets that refuse everything.
\<close>

definition demo_pending :: "FileInfo list" where
  "demo_pending = [demo_info\<lparr>fiId := ''1''\<rparr>, demo_info\<lparr>fiId := ''2''\<rparr>]"

definition demo_service :: upload_env where
  "demo_service = demo_uploads\<lparr>
     ueGetFile := (\<lambda>h i. case find (\<lambda>g. fiId g = i) (stored_files demo_pending h) of
                           None \<Rightarrow> Inl (Err ''not found'') | Some g \<Rightarrow> Inr g),
     ueListFiles := (\<lambda>h. case filter (\<lambda>g. attempts_of g < 3) (stored_files demo_pending h) of
                           [] \<Rightarrow> ([], None) | [g] \<Rightarrow> ([g], None) | g # gs \<Rightarrow> ([g], Some (Err ''too many''))),
     ueUploaders := [(''redhat-marketplace'', \<lambda>_ _ _. Inl (Err ''refused''))]\<rparr>"

lemma find_by_id: "distinct (map fiId gs) \<Longrightarrow> f \<in> set gs \<Longrightarrow> find (\<lambda>g. fiId g = fiId f) gs = Some f"
  by (induction gs) auto

lemma demo_listing:
  "set (fst (ueListFiles demo_service h)) \<subseteq> {f \<in> set (stored_files demo_pending h). attempts_of f < 3}"
proof -
  have "set (fst (case gs of [] \<Rightarrow> ([], None) | [g] \<Rightarrow> ([g], None) | g # gs \<Rightarrow> ([g], Some (Err ''too many'')))) \<subseteq> set gs"
    for gs :: "FileInfo list" by (simp split: list.splits)
  from this [of "filter (\<lambda>g. attempts_of g < 3) (stored_files demo_pending h)"] show ?thesis
    by (auto simp: demo_service_def)
qed

lemma demo_service_serves: "serves_files demo_service demo_pending"
proof -
  have ids: "distinct (map fiId demo_pending)" "\<forall>f\<in>set demo_pending. fiDeletedAt f = None"
    by (simp_all add: demo_pending_def demo_info_def)
  note wf = stored_files_wf [OF this]
  then have "ueGetFile demo_service h (fiId f) = Inr f" if "f \<in> set (stored_files demo_pending h)" for h f
    using that by (simp add: demo_service_def find_by_id)
  moreover have "distinct (map fiId (fst (ueListFiles demo_service h)))" for h
    by (simp add: demo_service_def split: list.splits)
  moreover have "set (fst (ueListFiles demo_service h)) \<subseteq> set (stored_files demo_pending h)" for h
    using demo_listing by fast
  moreover have "ueUpdateMetadata demo_service h f = None" "ueDeleteFile demo_service h f = None" for h f
    by (simp_all add: demo_service_def demo_uploads_def)
  ultimately show ?thesis using ids by (simp add: serves_files_def)
qed

theorem RunGeneric_ends_witness:
  "\<exists>err. snd (RunGeneric demo_service 7 \<lparr>usReports = Map.empty, usHistory = []\<rparr>) = Ended err"
proof -
  have "\<forall>h. partial_listing demo_service h \<longrightarrow>
      (\<exists>f\<in>set (fst (ueListFiles demo_service h)). attempts_of f < ueMaxUploadAttempts demo_service)"
  proof (intro allI impI)
    fix h assume "partial_listing demo_service h"
    then have "hd (fst (ueListFiles demo_service h)) \<in> set (fst (ueListFiles demo_service h))"
      by (simp add: partial_listing_def)
    moreover from this demo_listing have "attempts_of (hd (fst (ueListFiles demo_service h))) < 3" by blast
    moreover have "ueMaxUploadAttempts demo_service = 3" by (simp add: demo_service_def demo_uploads_def)
    ultimately show "\<exists>f\<in>set (fst (ueListFiles demo_service h)). attempts_of f < ueMaxUploadAttempts demo_service"
      by auto
  qed
  note ends = RunGeneric_ends [OF demo_service_serves _ this, of "\<lparr>usReports = Map.empty, usHistory = []\<rparr>"]
  have "attempts_budget demo_service demo_pending = 6"
    by (simp add: attempts_budget_def attempts_left_def attempts_of_def demo_service_def demo_pending_def demo_info_def demo_uploads_def)
  with ends show ?thesis by (simp add: stored_files_def demo_service_def demo_uploads_def del: RunGeneric.simps)
qed

theorem RunReport_settles_witness:
  "\<exists>s' r'. RunReport demo_uploads demo_report \<lparr>usReports = [''r'' \<mapsto> demo_report], usHistory = []\<rparr> = (s', None) \<and>
     usReports s' ''r'' = Some r' \<and> \<not> snd (CanRunUploadReportTask demo_uploads r')"
proof -
  let ?s = "\<lparr>usReports = [''r'' \<mapsto> demo_report], usHistory = []\<rparr>"
  obtain s' where r: "RunReport demo_uploads demo_report ?s = (s', None)"
    and up: "\<exists>r'. usReports s' ''r'' = Some r' \<and> IsUploaded (mrStatus r')"
    by (simp add: demo_upload_simps upload_mutation_def data_service_target_def IsUploaded_def SetCondition_def
        ReportConditionUploadStatusFinished_def upload_condition_def IsTrue_def Let_def)
  from RunReport_settles [OF r] up r show ?thesis
    by (auto simp: demo_report_def demo_uploads_def)
qed

end
