(* ===== verification/ReportScheduling.thy ===== *)
theory ReportScheduling
  imports MeterReports
begin

text \<open>
  The controller that keeps one meter report per day
  (\<open>v2/internal/controller/marketplace/meterreport_creator_controller.go\<close>) with the list
  helpers it uses (\<open>v2/pkg/utils/helpers.go\<close>). A day is its number counted from the day
  of Go's zero time; printing and parsing dates are arguments, as is the API server.
\<close>

section \<open>Helpers\<close>

fun Contains :: "string list \<Rightarrow> string \<Rightarrow> bool" where
  "Contains [] e = False"
| "Contains (a # s) e = (if a = e then True else Contains s e)"

fun RemoveKey :: "string list \<Rightarrow> string \<Rightarrow> string list" where
  "RemoveKey [] key = []"
| "RemoveKey (s # list) key = (if s \<noteq> key then s # RemoveKey list key else RemoveKey list key)"

definition FindDiff :: "string list \<Rightarrow> string list \<Rightarrow> string list" where
  "FindDiff a b = filter (\<lambda>x. x \<notin> set b) a"

text \<open>\<open>strings.SplitN(s, "-", 3)\<close>\<close>

definition SplitN3 :: "string \<Rightarrow> string list" where
  "SplitN3 s =
     (let a = takeWhile (\<lambda>c. c \<noteq> CHR ''-'') s; r = dropWhile (\<lambda>c. c \<noteq> CHR ''-'') s
      in if r = [] then [a]
         else
           (let b = takeWhile (\<lambda>c. c \<noteq> CHR ''-'') (tl r); r' = dropWhile (\<lambda>c. c \<noteq> CHR ''-'') (tl r)
            in if r' = [] then [a, b] else [a, b, tl r']))"

section \<open>State and environment\<close>

definition METER_REPORT_PREFIX :: string where "METER_REPORT_PREFIX = ''meter-report-''"

definition ConditionInstalling :: string where "ConditionInstalling = ''Installing''"
definition ReasonMeterBaseFinishInstall :: string where
  "ReasonMeterBaseFinishInstall = ''FinishedMeterBaseInstall''"

record MeterBase =
  mbEnabled :: bool
  mbConditions :: Conditions
  mbCreatedDay :: int
  mbDataServiceEnabled :: "bool option"

definition IsDataServiceEnabled :: "MeterBase \<Rightarrow> bool" where
  "IsDataServiceEnabled mb = (case mbDataServiceEnabled mb of None \<Rightarrow> True | Some b \<Rightarrow> b)"

record ServiceReference =
  srName :: string
  srNamespace :: string
  srTargetPort :: string

record new_report =
  nrName :: string
  nrStart :: int
  nrEnd :: int
  nrPrometheus :: ServiceReference
  nrExtraArgs :: "string list"

record creator_env =
  ceFormat :: "int \<Rightarrow> string"
  ceParse :: "string \<Rightarrow> int result"
  ceMeterBase :: "MeterBase result"
  ceIsNotFound :: "go_error \<Rightarrow> bool"
  ceList :: "string list result"
  ceDelete :: "string list \<Rightarrow> string \<Rightarrow> go_error option"
  ceCreate :: "new_report list \<Rightarrow> new_report \<Rightarrow> go_error option"
  ceLocalDay :: int
  ceToday :: int
  ceNamespace :: string

section \<open>Names and dates\<close>

definition newMeterReportNameFromString :: "string \<Rightarrow> string" where
  "newMeterReportNameFromString dateString = METER_REPORT_PREFIX @ dateString"

definition name_date :: "string \<Rightarrow> string option" where
  "name_date reportName =
     (let splitStr = SplitN3 reportName in
      if length splitStr \<noteq> 3 then None else Some (concat (drop 2 splitStr)))"

definition retrieveCreatedDate :: "creator_env \<Rightarrow> string \<Rightarrow> int result" where
  "retrieveCreatedDate E reportName =
     (case name_date reportName of
        None \<Rightarrow> Inl (Err ''failed to get date'')
      | Some d \<Rightarrow> ceParse E d)"

definition sortMeterReports :: "string list \<Rightarrow> string list" where
  "sortMeterReports names = sort names"

fun generateFoundCreatedDates :: "string list \<Rightarrow> string list" where
  "generateFoundCreatedDates [] = []"
| "generateFoundCreatedDates (n # ns) =
     (case name_date n of
        None \<Rightarrow> generateFoundCreatedDates ns
      | Some d \<Rightarrow> d # generateFoundCreatedDates ns)"

function expected_loop :: "creator_env \<Rightarrow> int \<Rightarrow> int \<Rightarrow> string list" where
  "expected_loop E d endDate = (if d \<le> endDate then ceFormat E d # expected_loop E (d + 1) endDate else [])"
  by pat_completeness auto
termination by (relation "measure (\<lambda>(E, d, e). nat (e - d + 1))") auto

declare expected_loop.simps [simp del]

definition generateExpectedDates :: "creator_env \<Rightarrow> int \<Rightarrow> int \<Rightarrow> int \<Rightarrow> string list" where
  "generateExpectedDates E endDate dateRange minDate =
     (let startDate = (if minDate > endDate + dateRange then minDate else endDate + dateRange)
      in expected_loop E startDate endDate)"

section \<open>Deleting and creating\<close>

text \<open>
  The loop runs over the names it started with; \<open>names\<close> is the list that is left. The
  result is the names left, or nil, the names deleted, and the error.
\<close>

fun removeOldReports_loop ::
  "creator_env \<Rightarrow> int \<Rightarrow> string list \<Rightarrow> string list \<Rightarrow> string list \<Rightarrow>
     string list \<times> string list \<times> go_error option" where
  "removeOldReports_loop E limit [] names deleted = (names, deleted, None)"
| "removeOldReports_loop E limit (n # ns) names deleted =
     (case retrieveCreatedDate E n of
        Inl err \<Rightarrow> removeOldReports_loop E limit ns names deleted
      | Inr d \<Rightarrow>
          (if d < limit then
             (case ceDelete E deleted n of
                Some err \<Rightarrow> ([], deleted, Some err)
              | None \<Rightarrow> removeOldReports_loop E limit ns (RemoveKey names n) (deleted @ [n]))
           else removeOldReports_loop E limit ns names deleted))"

definition removeOldReports :: "creator_env \<Rightarrow> string list \<Rightarrow> int \<Rightarrow> string list \<times> string list \<times> go_error option" where
  "removeOldReports E names dateRange = removeOldReports_loop E (ceLocalDay E + dateRange) names names []"

definition newMeterReport :: "creator_env \<Rightarrow> MeterBase \<Rightarrow> bool \<Rightarrow> int \<Rightarrow> int \<Rightarrow> string \<Rightarrow> new_report" where
  "newMeterReport E mb uwm startTime endTime name =
     \<lparr>nrName = name, nrStart = startTime, nrEnd = endTime,
      nrPrometheus = (if uwm then \<lparr>srName = ''thanos-querier'', srNamespace = ''openshift-monitoring'', srTargetPort = ''web''\<rparr>
                      else \<lparr>srName = ''rhm-prometheus-meterbase'', srNamespace = ceNamespace E, srTargetPort = ''rbac''\<rparr>),
      nrExtraArgs = (if IsDataServiceEnabled mb then [''--uploadTargets=data-service''] else [])\<rparr>"

definition missing_report :: "creator_env \<Rightarrow> MeterBase \<Rightarrow> bool \<Rightarrow> string \<Rightarrow> new_report" where
  "missing_report E mb uwm dateString =
     (let startDate = (case ceParse E dateString of Inl err \<Rightarrow> 0 | Inr d \<Rightarrow> d)
      in newMeterReport E mb uwm startDate (startDate + 1) (newMeterReportNameFromString dateString))"

fun create_loop ::
  "creator_env \<Rightarrow> MeterBase \<Rightarrow> bool \<Rightarrow> string list \<Rightarrow> new_report list \<Rightarrow> new_report list \<times> go_error option" where
  "create_loop E mb uwm [] created = (created, None)"
| "create_loop E mb uwm (d # ds) created =
     (let r = missing_report E mb uwm d in
      case ceCreate E created r of
        Some err \<Rightarrow> (created, Some err)
      | None \<Rightarrow> create_loop E mb uwm ds (created @ [r]))"

definition createReportIfNotFound ::
  "creator_env \<Rightarrow> MeterBase \<Rightarrow> bool \<Rightarrow> string list \<Rightarrow> string list \<Rightarrow> new_report list \<times> go_error option" where
  "createReportIfNotFound E mb uwm expected found = create_loop E mb uwm (FindDiff expected found) []"

section \<open>Reconcile\<close>

definition install_finished :: "MeterBase \<Rightarrow> bool" where
  "install_finished mb =
     (case GetCondition (mbConditions mb) ConditionInstalling of
        None \<Rightarrow> False
      | Some c \<Rightarrow> IsFalse c \<and> cReason c = ReasonMeterBaseFinishInstall)"

record creator_outcome =
  coDeleted :: "string list"
  coCreated :: "new_report list"
  coErr :: "go_error option"

definition creator_done :: "go_error option \<Rightarrow> creator_outcome" where
  "creator_done err = \<lparr>coDeleted = [], coCreated = [], coErr = err\<rparr>"

definition creator_Reconcile :: "creator_env \<Rightarrow> creator_outcome" where
  "creator_Reconcile E =
     (case ceMeterBase E of
        Inl err \<Rightarrow> if ceIsNotFound E err then creator_done None else creator_done (Some err)
      | Inr mb \<Rightarrow>
          (if \<not> mbEnabled mb then creator_done None
           else if \<not> install_finished mb then creator_done None
           else
             (case ceList E of
                Inl err \<Rightarrow> creator_done None
              | Inr items \<Rightarrow>
                  (let dateRangeInDays = -90;
                       (names, deleted, derr) = removeOldReports E (sortMeterReports items) dateRangeInDays;
                       expected = generateExpectedDates E (ceToday E) dateRangeInDays (mbCreatedDay mb);
                       found = generateFoundCreatedDates names;
                       (created, err) = createReportIfNotFound E mb True expected found
                   in \<lparr>coDeleted = deleted, coCreated = created, coErr = err\<rparr>))))"

section \<open>One report per day\<close>

lemma RemoveKey_filter: "RemoveKey xs k = filter (\<lambda>x. x \<noteq> k) xs"
  by (induction xs) auto

lemma Contains_iff: "Contains xs e \<longleftrightarrow> e \<in> set xs"
  by (induction xs) auto

definition report_old :: "creator_env \<Rightarrow> int \<Rightarrow> string \<Rightarrow> bool" where
  "report_old E limit n \<longleftrightarrow> (\<exists>d. retrieveCreatedDate E n = Inr d \<and> d < limit)"

lemma removeOldReports_loop_ok:
  assumes "\<And>del n. ceDelete E del n = None"
  shows "removeOldReports_loop E limit ns names del =
     (filter (\<lambda>x. \<not> (x \<in> set ns \<and> report_old E limit x)) names, del @ filter (report_old E limit) ns, None)"
proof (induction ns arbitrary: names del)
  case (Cons n ns)
  show ?case
  proof (cases "report_old E limit n")
    case True
    then have "removeOldReports_loop E limit (n # ns) names del =
        removeOldReports_loop E limit ns (RemoveKey names n) (del @ [n])"
      using assms by (auto simp: report_old_def)
    with True Cons show ?thesis by (auto simp: RemoveKey_filter filter_filter intro!: filter_cong)
  next
    case False
    then have "removeOldReports_loop E limit (n # ns) names del = removeOldReports_loop E limit ns names del"
      by (auto simp: report_old_def split: sum.splits)
    with False Cons show ?thesis by (auto intro!: filter_cong)
  qed
qed simp

lemma expected_loop_set: "set (expected_loop E d e) = ceFormat E ` {d..e}"
proof (induction E d e rule: expected_loop.induct)
  case (1 E d e)
  show ?case
  proof (cases "d \<le> e")
    case True
    then have "{d..e} = insert d {d + 1..e}" by auto
    with True 1 show ?thesis by (subst expected_loop.simps) simp
  qed (subst expected_loop.simps, simp)
qed

lemma expected_loop_distinct:
  assumes "\<And>d. ceParse E (ceFormat E d) = Inr d"
  shows "distinct (expected_loop E d e)"
proof (induction "nat (e - d + 1)" arbitrary: d)
  case 0
  then show ?case by (subst expected_loop.simps) simp
next
  case (Suc k)
  have "inj (ceFormat E)" using assms by (metis injI sum.inject(2))
  then have "ceFormat E d \<notin> set (expected_loop E (d + 1) e)"
    by (auto simp: expected_loop_set dest: injD)
  moreover have "distinct (expected_loop E (d + 1) e)" using Suc by simp
  ultimately show ?case using Suc.hyps(2) by (subst expected_loop.simps) simp
qed

lemma generateFoundCreatedDates_set: "set (generateFoundCreatedDates ns) = {d. \<exists>n\<in>set ns. name_date n = Some d}"
  by (induction ns) (auto split: option.splits)

lemma name_date_prefix: "name_date (METER_REPORT_PREFIX @ s) = Some s"
  by (simp add: name_date_def SplitN3_def METER_REPORT_PREFIX_def)

lemma create_loop_ok:
  "create_loop E mb uwm ds created = (created', None) \<Longrightarrow> created' = created @ map (missing_report E mb uwm) ds"
proof (induction ds arbitrary: created)
  case (Cons d ds)
  then have "create_loop E mb uwm ds (created @ [missing_report E mb uwm d]) = (created', None)"
    by (auto simp: Let_def split: option.splits)
  from Cons.IH [OF this] show ?case by simp
qed simp

lemma missing_report_days:
  assumes "ceParse E (ceFormat E d) = Inr d"
  shows "nrName (missing_report E mb uwm (ceFormat E d)) = METER_REPORT_PREFIX @ ceFormat E d"
    "nrStart (missing_report E mb uwm (ceFormat E d)) = d" "nrEnd (missing_report E mb uwm (ceFormat E d)) = d + 1"
  using assms by (simp_all add: missing_report_def newMeterReport_def newMeterReportNameFromString_def Let_def)

lemma missing_report_name: "nrName (missing_report E mb uwm x) = METER_REPORT_PREFIX @ x"
  by (simp add: missing_report_def newMeterReport_def newMeterReportNameFromString_def Let_def)

text \<open>The reports a reconcile deletes and keeps, and the dates it creates reports for.\<close>

definition old_reports :: "creator_env \<Rightarrow> string list \<Rightarrow> string list" where
  "old_reports E items = filter (report_old E (ceLocalDay E - 90)) (sort items)"

definition kept_reports :: "creator_env \<Rightarrow> string list \<Rightarrow> string list" where
  "kept_reports E items = filter (\<lambda>x. \<not> report_old E (ceLocalDay E - 90) x) (sort items)"

definition missing_dates :: "creator_env \<Rightarrow> MeterBase \<Rightarrow> string list \<Rightarrow> string list" where
  "missing_dates E mb items =
     FindDiff (generateExpectedDates E (ceToday E) (-90) (mbCreatedDay mb)) (generateFoundCreatedDates (kept_reports E items))"

lemma removeOldReports_ok:
  assumes "\<And>del n. ceDelete E del n = None"
  shows "removeOldReports E (sortMeterReports items) (-90) = (kept_reports E items, old_reports E items, None)"
  by (auto simp: removeOldReports_def sortMeterReports_def removeOldReports_loop_ok [OF assms]
      kept_reports_def old_reports_def intro!: filter_cong)

lemma kept_reports_set: "set (kept_reports E items) = set items - set (old_reports E items)"
  by (auto simp: kept_reports_def old_reports_def)

lemma missing_dates_set:
  "set (missing_dates E mb items) =
     ceFormat E ` {max (mbCreatedDay mb) (ceToday E - 90)..ceToday E} -
     {d. \<exists>n\<in>set (kept_reports E items). name_date n = Some d}"
  by (auto simp: missing_dates_def generateExpectedDates_def FindDiff_def expected_loop_set
      generateFoundCreatedDates_set max_def Let_def)

lemma missing_dates_distinct:
  "(\<And>d. ceParse E (ceFormat E d) = Inr d) \<Longrightarrow> distinct (missing_dates E mb items)"
  by (simp add: missing_dates_def generateExpectedDates_def FindDiff_def expected_loop_distinct Let_def)

lemma creator_outcome_eq:
  assumes "ceMeterBase E = Inr mb" "mbEnabled mb" "install_finished mb" "ceList E = Inr items"
    and "\<And>del n. ceDelete E del n = None" "coErr (creator_Reconcile E) = None"
  shows "coDeleted (creator_Reconcile E) = old_reports E items"
    "coCreated (creator_Reconcile E) = map (missing_report E mb True) (missing_dates E mb items)"
proof -
  obtain cr e where c: "create_loop E mb True (missing_dates E mb items) [] = (cr, e)" by fastforce
  have o: "creator_Reconcile E = \<lparr>coDeleted = old_reports E items, coCreated = cr, coErr = e\<rparr>"
    using assms(1-4) c
    by (simp add: creator_Reconcile_def removeOldReports_ok [OF assms(5)] createReportIfNotFound_def missing_dates_def Let_def)
  with assms(6) c create_loop_ok [of E mb True "missing_dates E mb items" "[]" cr]
  show "coDeleted (creator_Reconcile E) = old_reports E items"
    "coCreated (creator_Reconcile E) = map (missing_report E mb True) (missing_dates E mb items)"
    by simp_all
qed

text \<open>
  C5: the creator keeps exactly the reports it should. When metering is installed and no
  call fails, then afterwards every day from the installation, but at most ninety days back,
  to today has a report: one that was there and was not deleted, or a new one that covers
  just that day. New reports have new names, all different, and only reports older than
  ninety days are deleted. A printed date is taken to be read back as the same date, as
  the format does for years of four digits.
\<close>
theorem creator_reports_every_day:
  assumes "ceMeterBase E = Inr mb" "mbEnabled mb" "install_finished mb" "ceList E = Inr items"
    and "\<And>d. ceParse E (ceFormat E d) = Inr d" "\<And>del n. ceDelete E del n = None"
    and "coErr (creator_Reconcile E) = None"
  shows "(\<forall>d\<in>{max (mbCreatedDay mb) (ceToday E - 90)..ceToday E}.
           (\<exists>n\<in>set items - set (coDeleted (creator_Reconcile E)). name_date n = Some (ceFormat E d)) \<or>
           (\<exists>r\<in>set (coCreated (creator_Reconcile E)).
              nrName r = METER_REPORT_PREFIX @ ceFormat E d \<and> nrStart r = d \<and> nrEnd r = d + 1)) \<and>
    distinct (map nrName (coCreated (creator_Reconcile E))) \<and>
    (\<forall>r\<in>set (coCreated (creator_Reconcile E)). nrName r \<notin> set items - set (coDeleted (creator_Reconcile E))) \<and>
    (\<forall>n\<in>set (coDeleted (creator_Reconcile E)). n \<in> set items \<and> report_old E (ceLocalDay E - 90) n)"
proof -
  note out = creator_outcome_eq [OF assms(1-4,6,7)]
  have days: "(\<exists>n\<in>set items - set (old_reports E items). name_date n = Some (ceFormat E d)) \<or>
      (\<exists>r\<in>set (map (missing_report E mb True) (missing_dates E mb items)).
         nrName r = METER_REPORT_PREFIX @ ceFormat E d \<and> nrStart r = d \<and> nrEnd r = d + 1)"
    if "d \<in> {max (mbCreatedDay mb) (ceToday E - 90)..ceToday E}" for d
  proof -
    have "(\<exists>n\<in>set (kept_reports E items). name_date n = Some (ceFormat E d)) \<or> ceFormat E d \<in> set (missing_dates E mb items)"
      using that unfolding missing_dates_set by blast
    then show ?thesis
      using missing_report_days [OF assms(5) [of d], of mb True] unfolding kept_reports_set by auto
  qed
  moreover have "distinct (map nrName (map (missing_report E mb True) (missing_dates E mb items)))"
    using missing_dates_distinct [OF assms(5)] by (simp add: comp_def missing_report_name distinct_map inj_on_def)
  moreover have "nrName r \<notin> set items - set (old_reports E items)"
    if "r \<in> set (map (missing_report E mb True) (missing_dates E mb items))" for r
    using that name_date_prefix unfolding kept_reports_set [symmetric]
    by (fastforce simp: missing_dates_set missing_report_name)
  moreover have "n \<in> set items \<and> report_old E (ceLocalDay E - 90) n" if "n \<in> set (old_reports E items)" for n
    using that by (auto simp: old_reports_def)
  ultimately show ?thesis unfolding out by blast
qed

definition demo_creator :: creator_env where
  "demo_creator = \<lparr>ceFormat = (\<lambda>d. if d < 0 then CHR ''-'' # replicate (nat (- d)) CHR ''i'' else replicate (nat d) CHR ''i''),
     ceParse = (\<lambda>s. Inr (if s \<noteq> [] \<and> hd s = CHR ''-'' then - int (length (tl s)) else int (length s))),
     ceMeterBase = Inr \<lparr>mbEnabled = True, mbConditions = [\<lparr>cType = ConditionInstalling, cStatus = ConditionFalse,
        cReason = ReasonMeterBaseFinishInstall, cMessage = [], cLastTransitionTime = 0\<rparr>], mbCreatedDay = 2, mbDataServiceEnabled = None\<rparr>,
     ceIsNotFound = (\<lambda>_. False), ceList = Inr [''meter-report-ii''], ceDelete = (\<lambda>_ _. None), ceCreate = (\<lambda>_ _. None),
     ceLocalDay = 3, ceToday = 3, ceNamespace = ''ns''\<rparr>"

lemma demo_creator_dates: "ceParse demo_creator (ceFormat demo_creator d) = Inr d"
  by (cases "nat d") (auto simp: demo_creator_def)

theorem creator_reports_every_day_witness:
  "\<exists>r\<in>set (coCreated (creator_Reconcile demo_creator)). nrName r = ''meter-report-iii'' \<and> nrStart r = 3 \<and> nrEnd r = 4"
proof -
  obtain mb where m: "ceMeterBase demo_creator = Inr mb" "mbEnabled mb" "install_finished mb"
    by (simp add: demo_creator_def install_finished_def IsFalse_def)
  have l: "ceList demo_creator = Inr [''meter-report-ii'']" and d: "\<And>del n. ceDelete demo_creator del n = None"
    by (simp_all add: demo_creator_def)
  have "create_loop demo_creator mb True ds created = (created', err) \<Longrightarrow> err = None" for ds created created' err
    by (induction ds arbitrary: created) (auto simp: demo_creator_def Let_def)
  then have "coErr (creator_Reconcile demo_creator) = None"
    using m l by (simp add: creator_Reconcile_def removeOldReports_ok [OF d] createReportIfNotFound_def Let_def split: prod.splits)
  note all = creator_reports_every_day [OF m l demo_creator_dates d this]
  have days: "3 \<in> {max (mbCreatedDay mb) (ceToday demo_creator - 90)..ceToday demo_creator}"
    "ceFormat demo_creator 3 = ''iii''"
    using m(1) by (auto simp: demo_creator_def numeral_eq_Suc)
  have "name_date ''meter-report-ii'' = Some ''ii''"
    using name_date_prefix [of "''ii''"] by (simp add: METER_REPORT_PREFIX_def)
  with bspec [OF conjunct1 [OF all] days(1)] show ?thesis
    by (auto simp: days(2) METER_REPORT_PREFIX_def)
qed

end
