(* ===== verification/MeterFilters.thy ===== *)
theory MeterFilters
  imports Prelude
begin

text \<open>
  How the metering service decides which workload objects a meter definition covers
  (\<open>metering/v2/pkg/filter/filter.go\<close>, \<open>lookup.go\<close>), with the lookup of owners it uses
  (\<open>v2/pkg/client/find_owner.go\<close>, \<open>access.go\<close>). A resource filter of a definition is
  compiled to a list of runtime filters; an object is covered when one of these lists
  passes.

  The API server, the informers, the REST mapper and the conversion of label selectors
  are fields of an environment. An error keeps the kind the code asks for. A recursion
  that needs more stack frames than \<open>feStack\<close> ends the program; this is the error
  \<open>Crash\<close>, and theorems about it hold for every stack size.
\<close>

section \<open>Objects and definitions\<close>

record OwnerReference =
  orAPIVersion :: string
  orKind :: string
  orName :: string

text \<open>The dynamic types the code compares.\<close>

datatype go_type =
  TPod | TPersistentVolumeClaim | TService | TServiceMonitor | TMeterDefinition | TEnhanced | TOther string

record k8s_object =
  obType :: go_type
  obNamespace :: string
  obName :: string
  obUID :: string
  obGeneration :: int
  obLabels :: smap
  obAnnotations :: smap
  obOwners :: "OwnerReference list"

text \<open>An \<open>interface{}\<close> value: a \<open>metav1.Object\<close>, or something else.\<close>

datatype iface = MetaObj k8s_object | NonMeta go_type

datatype k8s_error = NotFound string | AccessDenied string | OtherError string | Crash string

record LabelRequirement =
  lrKey :: string
  lrOperator :: string
  lrValues :: "string list"

record LabelSelector =
  lsMatchLabels :: "(string \<times> string) list"
  lsMatchExpressions :: "LabelRequirement list"

type_synonym selector = "smap \<Rightarrow> bool"

record NamespaceFilter =
  nfUseOperatorGroup :: bool
  nfLabelSelector :: "LabelSelector option"

record OwnerCRDFilter =
  ocAPIVersion :: string
  ocKind :: string

record ResourceFilter =
  rfNamespace :: "NamespaceFilter option"
  rfOwnerCRD :: "OwnerCRDFilter option"
  rfLabel :: "LabelSelector option option"
  rfAnnotation :: "LabelSelector option option"
  rfWorkloadType :: string

record MeterDefinition =
  mdfName :: string
  mdfNamespace :: string
  mdfUID :: string
  mdfGeneration :: int
  mdfGroup :: string
  mdfKind :: string
  mdfResourceFilters :: "ResourceFilter list"
  mdfInstalledBy :: "(string \<times> string) option"

definition WorkloadTypePod :: string where "WorkloadTypePod = ''Pod''"
definition WorkloadTypeService :: string where "WorkloadTypeService = ''Service''"
definition WorkloadTypePVC :: string where "WorkloadTypePVC = ''PersistentVolumeClaim''"

text \<open>
  A cluster service version is read as its annotations and its namespace; an operator
  group as its status namespaces. A listing returns its items and its error.
\<close>

record filter_env =
  feRESTMapping :: "string \<Rightarrow> string \<Rightarrow> string \<Rightarrow> k8s_error + string"
  feReview :: "string \<Rightarrow> string \<Rightarrow> k8s_error + bool"
  feListerNamespaced :: "string \<Rightarrow> string \<Rightarrow> string \<Rightarrow> k8s_error + OwnerReference list"
  feListerCluster :: "string \<Rightarrow> string \<Rightarrow> k8s_error + OwnerReference list"
  feStack :: nat
  feAsSelector :: "LabelSelector \<Rightarrow> k8s_error + selector"
  feObjectKinds :: "k8s_error option"
  feGetCSV :: "string \<times> string \<Rightarrow> k8s_error + (smap \<times> string)"
  feOperatorGroups :: "string \<Rightarrow> string list list \<times> k8s_error option"
  feNamespaces :: "selector \<Rightarrow> string list \<times> k8s_error option"

section \<open>Owners\<close>

fun access_loop :: "filter_env \<Rightarrow> string \<Rightarrow> string list \<Rightarrow> k8s_error + bool" where
  "access_loop E gvr [] = Inr True"
| "access_loop E gvr (verb # verbs) =
     (case feReview E gvr verb of
        Inl err \<Rightarrow> Inl err
      | Inr allowed \<Rightarrow>
          (if \<not> allowed then Inl (AccessDenied gvr) else access_loop E gvr verbs))"

definition CheckAccess :: "filter_env \<Rightarrow> string \<Rightarrow> k8s_error + bool" where
  "CheckAccess E gvr = access_loop E gvr [''list'', ''get'', ''watch'']"

definition group_version :: "string \<Rightarrow> string \<times> string" where
  "group_version apiVersion =
     (let parts = split_on (CHR ''/'') apiVersion
      in if length parts = 1 then ([], apiVersion) else (parts ! 0, parts ! 1))"

definition FindOwner ::
  "filter_env \<Rightarrow> string \<Rightarrow> string \<Rightarrow> OwnerReference \<Rightarrow> k8s_error + OwnerReference list" where
  "FindOwner E name ns lookupOwner =
     (let (grp, version) = group_version (orAPIVersion lookupOwner) in
      case feRESTMapping E grp (orKind lookupOwner) version of
        Inl err \<Rightarrow> Inl err
      | Inr mapping \<Rightarrow>
          (case CheckAccess E mapping of
             Inl err \<Rightarrow> Inl err
           | Inr _ \<Rightarrow>
               (case feListerNamespaced E mapping ns name of
                  Inr refs \<Rightarrow> Inr refs
                | Inl _ \<Rightarrow> feListerCluster E mapping name)))"

definition owner_matches :: "OwnerCRDFilter \<Rightarrow> OwnerReference \<Rightarrow> bool" where
  "owner_matches f ref \<longleftrightarrow> orAPIVersion ref = ocAPIVersion f \<and> orKind ref = ocKind f"

text \<open>The second loop over the references; \<open>rec i ref\<close> is the recursive call for index \<open>i\<close>.\<close>

primrec owner_loop ::
  "(nat \<Rightarrow> OwnerReference \<Rightarrow> k8s_error + bool) \<Rightarrow> nat \<Rightarrow> OwnerReference list \<Rightarrow> k8s_error + bool" where
  "owner_loop rec i [] = Inr False"
| "owner_loop rec i (ref # refs) =
     (case rec i ref of
        Inl err \<Rightarrow> Inl err
      | Inr found \<Rightarrow> (if found then Inr True else owner_loop rec (i + 1) refs))"

text \<open>
  The first argument counts the stack frames left. The parameter \<open>i\<close> of the call is only
  compared with \<open>maxDepth\<close>: the loop declares its own \<open>i\<close>, the index of the reference,
  and that is what the recursive call gets one more of.
\<close>

primrec getOwners ::
  "nat \<Rightarrow> filter_env \<Rightarrow> OwnerCRDFilter \<Rightarrow> string \<Rightarrow> string \<Rightarrow> OwnerReference option \<Rightarrow>
     OwnerReference list \<Rightarrow> nat \<Rightarrow> nat \<Rightarrow> k8s_error + bool" where
  "getOwners 0 E f name ns owner inRefs i maxDepth = Inl (Crash ''stack overflow'')"
| "getOwners (Suc k) E f name ns owner inRefs i maxDepth =
     (case (case owner of Some o' \<Rightarrow> FindOwner E name ns o' | None \<Rightarrow> Inr inRefs) of
        Inl err \<Rightarrow> Inl err
      | Inr refs \<Rightarrow>
          (if list_ex (owner_matches f) refs then Inr True
           else if \<not> i < maxDepth then Inr False
           else owner_loop (\<lambda>j ref. getOwners k E f (orName ref) ns (Some ref) [] (j + 1) maxDepth) 0 refs))"

section \<open>Runtime filters\<close>

datatype FilterRuntimeObject =
  WorkloadNamespaceFilter "string list"
| WorkloadTypeFilter "go_type list"
| WorkloadFilterForOwner OwnerCRDFilter nat
| WorkloadLabelFilter selector
| WorkloadAnnotationFilter selector
| FalseFilter

definition not_meta :: k8s_error where "not_meta = OtherError ''type was not a metav1.Object''"

fun iface_type :: "iface \<Rightarrow> go_type" where
  "iface_type (MetaObj ob) = obType ob"
| "iface_type (NonMeta t) = t"

definition NewWorkloadFilterForOwner :: "OwnerCRDFilter \<Rightarrow> FilterRuntimeObject" where
  "NewWorkloadFilterForOwner f = WorkloadFilterForOwner f 5"

fun namespace_Filter :: "string list \<Rightarrow> k8s_object \<Rightarrow> bool" where
  "namespace_Filter [] ob = False"
| "namespace_Filter (ns # nss) ob =
     (if ns = [] then True else if ns = obNamespace ob then True else namespace_Filter nss ob)"

definition namespaceFilter_Filter :: "string list \<Rightarrow> iface \<Rightarrow> k8s_error + bool" where
  "namespaceFilter_Filter nss obj =
     (case obj of NonMeta _ \<Rightarrow> Inl not_meta | MetaObj ob \<Rightarrow> Inr (namespace_Filter nss ob))"

definition typeFilter_Filter :: "go_type list \<Rightarrow> iface \<Rightarrow> k8s_error + bool" where
  "typeFilter_Filter gvks obj = Inr (iface_type obj \<in> set gvks)"

definition ownerFilter_Filter :: "filter_env \<Rightarrow> OwnerCRDFilter \<Rightarrow> nat \<Rightarrow> iface \<Rightarrow> k8s_error + bool" where
  "ownerFilter_Filter E f maxDepth obj =
     (case obj of
        NonMeta _ \<Rightarrow> Inl not_meta
      | MetaObj ob \<Rightarrow>
          getOwners (feStack E) E f (obName ob) (obNamespace ob) None (obOwners ob) 0 maxDepth)"

definition labelFilter_Filter :: "selector \<Rightarrow> iface \<Rightarrow> k8s_error + bool" where
  "labelFilter_Filter sel obj =
     (case obj of NonMeta _ \<Rightarrow> Inl not_meta | MetaObj ob \<Rightarrow> Inr (sel (obLabels ob)))"

definition annotationFilter_Filter :: "selector \<Rightarrow> iface \<Rightarrow> k8s_error + bool" where
  "annotationFilter_Filter sel obj =
     (case obj of NonMeta _ \<Rightarrow> Inl not_meta | MetaObj ob \<Rightarrow> Inr (sel (obAnnotations ob)))"

lemmas Filter_defs [simp] =
  namespaceFilter_Filter_def typeFilter_Filter_def ownerFilter_Filter_def labelFilter_Filter_def
  annotationFilter_Filter_def

fun Filter_run :: "filter_env \<Rightarrow> FilterRuntimeObject \<Rightarrow> iface \<Rightarrow> k8s_error + bool" where
  "Filter_run E (WorkloadNamespaceFilter nss) obj = namespaceFilter_Filter nss obj"
| "Filter_run E (WorkloadTypeFilter gvks) obj = typeFilter_Filter gvks obj"
| "Filter_run E (WorkloadFilterForOwner f maxDepth) obj = ownerFilter_Filter E f maxDepth obj"
| "Filter_run E (WorkloadLabelFilter sel) obj = labelFilter_Filter sel obj"
| "Filter_run E (WorkloadAnnotationFilter sel) obj = annotationFilter_Filter sel obj"
| "Filter_run E FalseFilter obj = Inr False"

type_synonym FilterRuntimeObjects = "FilterRuntimeObject list"

text \<open>The result is \<open>pass\<close>, the index of the filter that decided, and the error.\<close>

fun Test_loop ::
  "filter_env \<Rightarrow> iface \<Rightarrow> int \<Rightarrow> bool \<Rightarrow> FilterRuntimeObjects \<Rightarrow> bool \<times> int \<times> k8s_error option" where
  "Test_loop E obj i pass [] = (pass, -1, None)"
| "Test_loop E obj i pass (f # fs) =
     (case Filter_run E f obj of
        Inl err \<Rightarrow> (False, i, Some err)
      | Inr False \<Rightarrow> (False, i, None)
      | Inr True \<Rightarrow> Test_loop E obj (i + 1) True fs)"

definition Test :: "filter_env \<Rightarrow> FilterRuntimeObjects \<Rightarrow> iface \<Rightarrow> bool \<times> int \<times> k8s_error option" where
  "Test E fs obj = Test_loop E obj 0 False fs"

fun Types :: "FilterRuntimeObjects \<Rightarrow> go_type list" where
  "Types [] = []"
| "Types (WorkloadTypeFilter gvks # fs) = gvks"
| "Types (_ # fs) = Types fs"

fun Namespaces :: "FilterRuntimeObjects \<Rightarrow> string list" where
  "Namespaces [] = []"
| "Namespaces (WorkloadNamespaceFilter nss # fs) = nss"
| "Namespaces (_ # fs) = Namespaces fs"

section \<open>Lookup filters of a meter definition\<close>

record MeterDefinitionLookupFilter =
  lfMeterDefinition :: MeterDefinition
  lfFilters :: "FilterRuntimeObjects list"

fun Matches_loop :: "filter_env \<Rightarrow> iface \<Rightarrow> FilterRuntimeObjects list \<Rightarrow> k8s_error + bool" where
  "Matches_loop E obj [] = Inr False"
| "Matches_loop E obj (g # gs) =
     (case Test E g obj of
        (ans, i, Some (NotFound m)) \<Rightarrow> Inr False
      | (ans, i, Some err) \<Rightarrow> Inl err
      | (ans, i, None) \<Rightarrow> (if ans then Inr True else Matches_loop E obj gs))"

definition Matches :: "filter_env \<Rightarrow> MeterDefinitionLookupFilter \<Rightarrow> iface \<Rightarrow> k8s_error + bool" where
  "Matches E s obj =
     (case obj of
        NonMeta _ \<Rightarrow> Inl (OtherError ''type is not a metav1 Object'')
      | MetaObj _ \<Rightarrow> Matches_loop E obj (lfFilters s))"

definition NamespaceAll :: string where "NamespaceAll = []"

definition installedByNamespace :: "MeterDefinition \<Rightarrow> smap \<times> string \<Rightarrow> string list" where
  "installedByNamespace inst csv =
     (case fst csv ''olm.operatorGroup'' of
        None \<Rightarrow> [mdfNamespace inst]
      | Some olmGroup \<Rightarrow>
          (case fst csv ''olm.operatorNamespace'' of
             None \<Rightarrow> [mdfNamespace inst]
           | Some olmNamespace \<Rightarrow>
               (if olmGroup = ''global-operators'' \<and> olmNamespace = ''openshift-operators'' then
                  (if olmNamespace = snd csv then [NamespaceAll] else [])
                else [mdfNamespace inst])))"

definition default_namespaces :: "MeterDefinition \<Rightarrow> string list" where
  "default_namespaces inst =
     (if mdfNamespace inst = ''openshift-operators'' then [NamespaceAll] else [mdfNamespace inst])"

definition group_namespaces :: "filter_env \<Rightarrow> MeterDefinition \<Rightarrow> string list \<Rightarrow> k8s_error + string list" where
  "group_namespaces E inst namespaces =
     (case feObjectKinds E of
        Some err \<Rightarrow> Inl err
      | None \<Rightarrow>
          (case mdfInstalledBy inst of
             Some ref \<Rightarrow>
               (case feGetCSV E ref of
                  Inl (NotFound m) \<Rightarrow> Inr namespaces
                | Inl err \<Rightarrow> Inl (OtherError ''csv not found due to error: error with findNamespaces'')
                | Inr csv \<Rightarrow> Inr (installedByNamespace inst csv))
           | None \<Rightarrow>
               (case feOperatorGroups E (mdfNamespace inst) of
                  (items, Some (NotFound m)) \<Rightarrow> Inr namespaces
                | (items, err) \<Rightarrow> (case items of [og] \<Rightarrow> Inr og | _ \<Rightarrow> Inr namespaces))))"

definition findNamespacesForResource ::
  "filter_env \<Rightarrow> MeterDefinition \<Rightarrow> ResourceFilter \<Rightarrow> k8s_error + string list" where
  "findNamespacesForResource E inst rf =
     (let namespaces = default_namespaces inst in
      case rfNamespace rf of
        None \<Rightarrow> Inr namespaces
      | Some nf \<Rightarrow>
          (if nfUseOperatorGroup nf then group_namespaces E inst namespaces
           else
             (case nfLabelSelector nf of
                None \<Rightarrow> Inr namespaces
              | Some ls \<Rightarrow>
                  (case feAsSelector E ls of
                     Inl err \<Rightarrow> Inl err
                   | Inr sel \<Rightarrow>
                       (case feNamespaces E sel of
                          (items, Some err) \<Rightarrow> Inl (OtherError ''namespace list error: error with findNamespaces'')
                        | (items, None) \<Rightarrow> Inr (namespaces @ items))))))"

fun type_filter :: "string \<Rightarrow> go_type option" where
  "type_filter w =
     (if w = WorkloadTypePod then Some TPod
      else if w = WorkloadTypePVC then Some TPersistentVolumeClaim
      else if w = WorkloadTypeService then Some TService
      else None)"

text \<open>A selector that is present adds one filter.\<close>

definition selector_filter ::
  "filter_env \<Rightarrow> (selector \<Rightarrow> FilterRuntimeObject) \<Rightarrow> LabelSelector option option \<Rightarrow> k8s_error + FilterRuntimeObjects" where
  "selector_filter E mk s =
     (case s of
        Some (Some ls) \<Rightarrow> (case feAsSelector E ls of Inl err \<Rightarrow> Inl err | Inr sel \<Rightarrow> Inr [mk sel])
      | _ \<Rightarrow> Inr [])"

definition createFilter :: "filter_env \<Rightarrow> MeterDefinition \<Rightarrow> ResourceFilter \<Rightarrow> k8s_error + FilterRuntimeObjects" where
  "createFilter E inst rf =
     (case findNamespacesForResource E inst rf of
        Inl err \<Rightarrow> Inl err
      | Inr namespaces \<Rightarrow>
          (case type_filter (rfWorkloadType rf) of
             None \<Rightarrow> Inl (OtherError ''unknown type filter'')
           | Some gvk \<Rightarrow>
               (case selector_filter E WorkloadLabelFilter (rfLabel rf) of
                  Inl err \<Rightarrow> Inl err
                | Inr lbl \<Rightarrow>
                    (case selector_filter E WorkloadAnnotationFilter (rfAnnotation rf) of
                       Inl err \<Rightarrow> Inl err
                     | Inr ann \<Rightarrow>
                         Inr ([WorkloadNamespaceFilter namespaces, WorkloadTypeFilter [gvk]] @ lbl @ ann @
                              (case rfOwnerCRD rf of
                                 None \<Rightarrow> []
                               | Some oc \<Rightarrow> [NewWorkloadFilterForOwner oc]))))))"

fun createFilters_loop ::
  "filter_env \<Rightarrow> MeterDefinition \<Rightarrow> ResourceFilter list \<Rightarrow> k8s_error + FilterRuntimeObjects list" where
  "createFilters_loop E inst [] = Inr []"
| "createFilters_loop E inst (rf # rfs) =
     (case createFilter E inst rf of
        Inl err \<Rightarrow> Inl err
      | Inr g \<Rightarrow> (case createFilters_loop E inst rfs of Inl err \<Rightarrow> Inl err | Inr gs \<Rightarrow> Inr (g # gs)))"

definition createFilters :: "filter_env \<Rightarrow> MeterDefinition \<Rightarrow> k8s_error + FilterRuntimeObjects list" where
  "createFilters E inst = createFilters_loop E inst (mdfResourceFilters inst)"

definition lookup_New :: "filter_env \<Rightarrow> MeterDefinition \<Rightarrow> k8s_error + MeterDefinitionLookupFilter" where
  "lookup_New E meterdef =
     (if length (mdfResourceFilters meterdef) = 0 then Inl (OtherError ''no resource filters provided'')
      else
        (case createFilters E meterdef of
           Inl err \<Rightarrow> Inl err
         | Inr filters \<Rightarrow> Inr \<lparr>lfMeterDefinition = meterdef, lfFilters = filters\<rparr>))"

text \<open>Appending the types of a group to the entry of each of its namespaces.\<close>

fun add_types :: "go_type list \<Rightarrow> string list \<Rightarrow> (string \<rightharpoonup> go_type list) \<Rightarrow> (string \<rightharpoonup> go_type list)" where
  "add_types ts [] m = m"
| "add_types ts (ns # nss) m =
     add_types ts nss (m(ns \<mapsto> (case m ns of None \<Rightarrow> [] | Some us \<Rightarrow> us) @ ts))"

definition GetNamespaces :: "MeterDefinitionLookupFilter \<Rightarrow> (string \<rightharpoonup> go_type list)" where
  "GetNamespaces s = fold (\<lambda>g. add_types (Types g) (Namespaces g)) (lfFilters s) Map.empty"


section \<open>Owner chains\<close>

inductive ancestor :: "filter_env \<Rightarrow> string \<Rightarrow> OwnerReference list \<Rightarrow> OwnerReference \<Rightarrow> bool" for E ns where
  direct: "r \<in> set refs \<Longrightarrow> ancestor E ns refs r"
| further: "r \<in> set refs \<Longrightarrow> FindOwner E (orName r) ns r = Inr refs' \<Longrightarrow> ancestor E ns refs' a \<Longrightarrow>
            ancestor E ns refs a"

text \<open>Every object of the chains has fewer than \<open>d\<close> owners.\<close>

definition few_owners :: "filter_env \<Rightarrow> string \<Rightarrow> nat \<Rightarrow> OwnerReference list \<Rightarrow> bool" where
  "few_owners E ns d refs \<longleftrightarrow> length refs < d \<and>
     (\<forall>r refs'. ancestor E ns refs r \<longrightarrow> FindOwner E (orName r) ns r = Inr refs' \<longrightarrow> length refs' < d)"

lemma few_owners_step:
  assumes "few_owners E ns d refs" "r \<in> set refs" "FindOwner E (orName r) ns r = Inr refs'"
  shows "few_owners E ns d refs'"
  using assms unfolding few_owners_def by (blast intro: ancestor.intros)

lemma owner_loop_True:
  "owner_loop rec i refs = Inr True \<Longrightarrow> \<exists>j < length refs. rec (i + j) (refs ! j) = Inr True"
proof (induction refs arbitrary: i)
  case (Cons r refs)
  show ?case
  proof (cases "rec i r = Inr True")
    case False
    with Cons.prems have "owner_loop rec (i + 1) refs = Inr True"
      by (auto split: sum.splits if_splits)
    from Cons.IH [OF this] obtain j where "j < length refs" "rec (i + 1 + j) (refs ! j) = Inr True" by blast
    then show ?thesis by (intro exI [of _ "Suc j"]) simp
  qed (auto intro: exI [of _ 0])
qed simp

lemma owner_loop_False:
  "owner_loop rec i refs = Inr False \<Longrightarrow> j < length refs \<Longrightarrow> rec (i + j) (refs ! j) = Inr False"
proof (induction refs arbitrary: i j)
  case (Cons r refs)
  from Cons.prems have "rec i r = Inr False" and "owner_loop rec (i + 1) refs = Inr False"
    by (auto split: sum.splits if_splits)
  with Cons.IH [of "i + 1" "j - 1"] Cons.prems(2) show ?case by (cases j) auto
qed simp

definition start_refs ::
  "filter_env \<Rightarrow> string \<Rightarrow> string \<Rightarrow> OwnerReference option \<Rightarrow> OwnerReference list \<Rightarrow> k8s_error + OwnerReference list" where
  "start_refs E name ns owner inRefs =
     (case owner of Some o' \<Rightarrow> FindOwner E name ns o' | None \<Rightarrow> Inr inRefs)"

lemma getOwners_Suc:
  "getOwners (Suc k) E f name ns owner inRefs i d =
     (case start_refs E name ns owner inRefs of
        Inl err \<Rightarrow> Inl err
      | Inr refs \<Rightarrow>
          (if list_ex (owner_matches f) refs then Inr True
           else if \<not> i < d then Inr False
           else owner_loop (\<lambda>j ref. getOwners k E f (orName ref) ns (Some ref) [] (j + 1) d) 0 refs))"
  by (simp add: start_refs_def)

lemma getOwners_sound:
  "getOwners k E f name ns owner inRefs i d = Inr True \<Longrightarrow>
     \<exists>refs a. start_refs E name ns owner inRefs = Inr refs \<and> ancestor E ns refs a \<and> owner_matches f a"
proof (induction k arbitrary: name owner inRefs i)
  case (Suc k)
  then obtain refs where refs: "start_refs E name ns owner inRefs = Inr refs"
    by (auto simp: getOwners_Suc simp del: getOwners.simps split: sum.splits)
  show ?case
  proof (cases "list_ex (owner_matches f) refs")
    case True
    then show ?thesis using refs by (auto simp: list_ex_iff intro: ancestor.direct)
  next
    case False
    with Suc.prems refs obtain j where j: "j < length refs"
      "getOwners k E f (orName (refs ! j)) ns (Some (refs ! j)) [] (j + 1) d = Inr True"
      by (auto simp: getOwners_Suc simp del: getOwners.simps split: if_splits dest!: owner_loop_True)
    from Suc.IH [OF j(2)] show ?thesis
      using refs nth_mem [OF j(1)] by (auto simp: start_refs_def [of E "orName (refs ! j)"] intro: ancestor.further)
  qed
qed simp

lemma getOwners_complete:
  "getOwners k E f name ns owner inRefs i d = Inr False \<Longrightarrow> i < d \<Longrightarrow>
     start_refs E name ns owner inRefs = Inr refs \<Longrightarrow> few_owners E ns d refs \<Longrightarrow>
     ancestor E ns refs a \<Longrightarrow> \<not> owner_matches f a"
proof (induction k arbitrary: name owner inRefs i refs)
  case (Suc k)
  then have none: "\<not> list_ex (owner_matches f) refs"
    and loop: "owner_loop (\<lambda>j ref. getOwners k E f (orName ref) ns (Some ref) [] (j + 1) d) 0 refs = Inr False"
    by (auto simp: getOwners_Suc simp del: getOwners.simps split: if_splits)
  from Suc.prems(5) show ?case
  proof (cases rule: ancestor.cases)
    case direct
    then show ?thesis using none by (auto simp: list_ex_iff)
  next
    case (further r refs')
    then obtain j where j: "j < length refs" "r = refs ! j" by (auto simp: in_set_conv_nth)
    have "j + 1 < d" using j Suc.prems(4) by (auto simp: few_owners_def)
    moreover have "getOwners k E f (orName r) ns (Some r) [] (j + 1) d = Inr False"
      using owner_loop_False [OF loop j(1)] j(2) by simp
    ultimately show ?thesis
      using Suc.IH [of "orName r" "Some r" "[]" "j + 1" refs'] further few_owners_step [OF Suc.prems(4) further(1,2)]
      by (simp add: start_refs_def)
  qed
qed simp

lemma owner_filter_iff:
  assumes "few_owners E (obNamespace ob) 5 (obOwners ob)"
    and "Filter_run E (NewWorkloadFilterForOwner f) (MetaObj ob) = Inr b"
  shows "b \<longleftrightarrow> (\<exists>a. ancestor E (obNamespace ob) (obOwners ob) a \<and> owner_matches f a)"
  using assms getOwners_sound [where owner = None and inRefs = "obOwners ob"]
    getOwners_complete [where owner = None and inRefs = "obOwners ob" and i = 0 and d = 5]
  by (cases b) (fastforce simp: NewWorkloadFilterForOwner_def start_refs_def)+

lemma getOwners_cycle:
  assumes "FindOwner E (orName r) ns r = Inr [r]" "\<not> owner_matches f r" "1 < d"
  shows "getOwners k E f (orName r) ns (Some r) [] 1 d = Inl (Crash ''stack overflow'')"
  using assms by (induction k) simp_all

section \<open>What a definition covers\<close>

definition selects :: "filter_env \<Rightarrow> LabelSelector option option \<Rightarrow> smap \<Rightarrow> bool" where
  "selects E s m \<longleftrightarrow> (case s of Some (Some ls) \<Rightarrow> (\<exists>sel. feAsSelector E ls = Inr sel \<and> sel m) | _ \<Rightarrow> True)"

definition covers :: "filter_env \<Rightarrow> MeterDefinition \<Rightarrow> ResourceFilter \<Rightarrow> k8s_object \<Rightarrow> bool" where
  "covers E md rf ob \<longleftrightarrow>
     (\<exists>nss. findNamespacesForResource E md rf = Inr nss \<and> (NamespaceAll \<in> set nss \<or> obNamespace ob \<in> set nss)) \<and>
     type_filter (rfWorkloadType rf) = Some (obType ob) \<and>
     selects E (rfLabel rf) (obLabels ob) \<and> selects E (rfAnnotation rf) (obAnnotations ob) \<and>
     (\<forall>oc. rfOwnerCRD rf = Some oc \<longrightarrow>
        (\<exists>a. ancestor E (obNamespace ob) (obOwners ob) a \<and> owner_matches oc a))"

lemma namespace_Filter_iff: "namespace_Filter nss ob \<longleftrightarrow> NamespaceAll \<in> set nss \<or> obNamespace ob \<in> set nss"
  by (induction nss) (auto simp: NamespaceAll_def)

lemma Test_loop_ok:
  "\<forall>f\<in>set fs. \<exists>b. Filter_run E f obj = Inr b \<Longrightarrow>
     \<exists>i'. Test_loop E obj i p fs = ((p \<or> fs \<noteq> []) \<and> (\<forall>f\<in>set fs. Filter_run E f obj = Inr True), i', None)"
proof (induction fs arbitrary: i p)
  case (Cons f fs)
  then obtain b where b: "Filter_run E f obj = Inr b" by auto
  show ?case
    using Cons.IH [of "i + 1" True] Cons.prems b by (cases b) auto
qed simp

lemma selector_filter_ok:
  assumes "selector_filter E mk s = Inr fs"
  shows "(\<forall>f\<in>set fs. \<exists>sel. f = mk sel) \<and>
    (\<forall>get ob. (\<forall>sel. Filter_run E (mk sel) (MetaObj ob) = Inr (sel (get ob))) \<longrightarrow>
       (selects E s (get ob) \<longleftrightarrow> (\<forall>f\<in>set fs. Filter_run E f (MetaObj ob) = Inr True)))"
  using assms by (auto simp: selector_filter_def selects_def split: option.splits sum.splits)

lemma createFilter_covers:
  assumes c: "createFilter E md rf = Inr g"
    and few: "few_owners E (obNamespace ob) 5 (obOwners ob)"
    and own: "\<And>oc. rfOwnerCRD rf = Some oc \<Longrightarrow>
        \<exists>b. Filter_run E (NewWorkloadFilterForOwner oc) (MetaObj ob) = Inr b"
  shows "\<exists>i. Test E g (MetaObj ob) = (covers E md rf ob, i, None)"
proof -
  from c obtain nss gvk lbl ann where p:
    "findNamespacesForResource E md rf = Inr nss" "type_filter (rfWorkloadType rf) = Some gvk"
    "selector_filter E WorkloadLabelFilter (rfLabel rf) = Inr lbl"
    "selector_filter E WorkloadAnnotationFilter (rfAnnotation rf) = Inr ann"
    and g: "g = [WorkloadNamespaceFilter nss, WorkloadTypeFilter [gvk]] @ lbl @ ann @
              (case rfOwnerCRD rf of None \<Rightarrow> [] | Some oc \<Rightarrow> [NewWorkloadFilterForOwner oc])"
    by (auto simp: createFilter_def simp del: type_filter.simps split: sum.splits option.splits)
  have sel: "\<exists>sel. f = WorkloadLabelFilter sel" if "f \<in> set lbl" for f
    using selector_filter_ok [OF p(3)] that by auto
  have sel': "\<exists>sel. f = WorkloadAnnotationFilter sel" if "f \<in> set ann" for f
    using selector_filter_ok [OF p(4)] that by auto
  have "\<forall>f\<in>set g. \<exists>b. Filter_run E f (MetaObj ob) = Inr b"
    using own by (auto simp: g split: option.splits dest!: sel sel')
  from Test_loop_ok [OF this, of 0 False] obtain i where
    t: "Test E g (MetaObj ob) = (\<forall>f\<in>set g. Filter_run E f (MetaObj ob) = Inr True, i, None)"
    by (auto simp: Test_def g)
  have "(\<forall>f\<in>set lbl. Filter_run E f (MetaObj ob) = Inr True) \<longleftrightarrow> selects E (rfLabel rf) (obLabels ob)"
    using selector_filter_ok [OF p(3)] by simp
  moreover have "(\<forall>f\<in>set ann. Filter_run E f (MetaObj ob) = Inr True) \<longleftrightarrow> selects E (rfAnnotation rf) (obAnnotations ob)"
    using selector_filter_ok [OF p(4)] by simp
  moreover have "Filter_run E (NewWorkloadFilterForOwner oc) (MetaObj ob) = Inr True \<longleftrightarrow>
      (\<exists>a. ancestor E (obNamespace ob) (obOwners ob) a \<and> owner_matches oc a)" if "rfOwnerCRD rf = Some oc" for oc
    using own [OF that] owner_filter_iff [OF few, of oc] by fastforce
  ultimately have "(\<forall>f\<in>set g. Filter_run E f (MetaObj ob) = Inr True) \<longleftrightarrow> covers E md rf ob"
    using p by (auto simp: g covers_def namespace_Filter_iff simp del: type_filter.simps
        split: option.splits)
  with t show ?thesis by auto
qed

lemma Matches_loop_covers:
  assumes "createFilters_loop E md rfs = Inr gs"
    and "few_owners E (obNamespace ob) 5 (obOwners ob)"
    and "\<And>rf oc. rf \<in> set rfs \<Longrightarrow> rfOwnerCRD rf = Some oc \<Longrightarrow>
        \<exists>b. Filter_run E (NewWorkloadFilterForOwner oc) (MetaObj ob) = Inr b"
  shows "Matches_loop E (MetaObj ob) gs = Inr (\<exists>rf\<in>set rfs. covers E md rf ob)"
  using assms
proof (induction rfs arbitrary: gs)
  case (Cons rf rfs)
  from Cons.prems(1) obtain g gs' where g: "createFilter E md rf = Inr g"
    and gs': "createFilters_loop E md rfs = Inr gs'" "gs = g # gs'"
    by (auto split: sum.splits)
  have "Matches_loop E (MetaObj ob) gs' = Inr (\<exists>rf\<in>set rfs. covers E md rf ob)"
    by (rule Cons.IH [OF gs'(1) Cons.prems(2) Cons.prems(3)]) auto
  moreover obtain i where "Test E g (MetaObj ob) = (covers E md rf ob, i, None)"
    using createFilter_covers [OF g Cons.prems(2)] Cons.prems(3) by fastforce
  ultimately show ?case using gs' by auto
qed simp

section \<open>A small cluster\<close>

text \<open>
  A pod owned by a replica set owned by a database resource, and a definition for the
  pods of databases. Label selectors compare their listed labels.
\<close>

definition demo_db :: OwnerReference where
  "demo_db = \<lparr>orAPIVersion = ''db.io/v1'', orKind = ''Database'', orName = ''db''\<rparr>"

definition demo_rs :: OwnerReference where
  "demo_rs = \<lparr>orAPIVersion = ''apps/v1'', orKind = ''ReplicaSet'', orName = ''rs''\<rparr>"

definition demo_env :: filter_env where
  "demo_env = \<lparr>
     feRESTMapping = \<lambda>g k v. Inr (g @ ''/'' @ v @ ''/'' @ k),
     feReview = \<lambda>gvr verb. Inr True,
     feListerNamespaced = \<lambda>mapping ns name.
       if name = ''rs'' then Inr [demo_db] else if name = ''loop'' then Inr [demo_rs\<lparr>orName := ''loop''\<rparr>] else Inr [],
     feListerCluster = \<lambda>mapping name. Inl (NotFound name),
     feStack = 100,
     feAsSelector = \<lambda>ls. Inr (\<lambda>m. list_all (\<lambda>(k, v). m k = Some v) (lsMatchLabels ls)),
     feObjectKinds = None,
     feGetCSV = \<lambda>ref. Inl (NotFound (snd ref)),
     feOperatorGroups = \<lambda>ns. ([], None),
     feNamespaces = \<lambda>sel. ([], None)\<rparr>"

definition demo_pod :: k8s_object where
  "demo_pod = \<lparr>obType = TPod, obNamespace = ''shop'', obName = ''db-0'', obUID = ''u1'', obGeneration = 1,
     obLabels = [''app'' \<mapsto> ''db''], obAnnotations = Map.empty, obOwners = [demo_rs]\<rparr>"

definition demo_filter :: ResourceFilter where
  "demo_filter = \<lparr>rfNamespace = None, rfOwnerCRD = Some \<lparr>ocAPIVersion = ''db.io/v1'', ocKind = ''Database''\<rparr>,
     rfLabel = Some (Some \<lparr>lsMatchLabels = [(''app'', ''db'')], lsMatchExpressions = []\<rparr>),
     rfAnnotation = None, rfWorkloadType = ''Pod''\<rparr>"

definition demo_mdef :: MeterDefinition where
  "demo_mdef = \<lparr>mdfName = ''dbs'', mdfNamespace = ''shop'', mdfUID = ''u2'', mdfGeneration = 1, mdfGroup = ''db.io'',
     mdfKind = ''Database'', mdfResourceFilters = [demo_filter], mdfInstalledBy = None\<rparr>"

lemmas demo_cluster_defs [model_defs] =
  demo_db_def demo_rs_def demo_env_def demo_pod_def demo_filter_def demo_mdef_def

lemma demo_FindOwner:
  "FindOwner demo_env name ns r =
     Inr (if name = ''rs'' then [demo_db] else if name = ''loop'' then [demo_rs\<lparr>orName := ''loop''\<rparr>] else [])"
  by (simp add: FindOwner_def CheckAccess_def demo_env_def split: prod.splits)

lemma demo_stack: "feStack demo_env = Suc (Suc 98)"
  by (simp add: demo_env_def)

lemma demo_ancestors: "ancestor demo_env ns [demo_rs] a \<longleftrightarrow> a = demo_rs \<or> a = demo_db"
proof -
  have none: "\<not> ancestor demo_env ns [] b" for b
    by (auto elim: ancestor.cases)
  have db: "ancestor demo_env ns [demo_db] b \<longleftrightarrow> b = demo_db" for b
    by (subst ancestor.simps) (auto simp: demo_FindOwner none demo_db_def)
  show ?thesis
    by (subst ancestor.simps) (auto simp: demo_FindOwner db demo_rs_def)
qed

lemma demo_few_owners: "few_owners demo_env ns 5 [demo_rs]"
  by (auto simp: few_owners_def demo_ancestors demo_FindOwner split: if_splits)

lemma demo_owner_filter:
  "Filter_run demo_env (NewWorkloadFilterForOwner \<lparr>ocAPIVersion = ''db.io/v1'', ocKind = ''Database''\<rparr>) (MetaObj demo_pod)
     = Inr True"
  by (simp add: NewWorkloadFilterForOwner_def eval_nat_numeral demo_FindOwner owner_matches_def demo_pod_def
      demo_rs_def demo_db_def demo_stack)

text \<open>The lookup filter compiled from the definition.\<close>

definition demo_lookup :: MeterDefinitionLookupFilter where
  "demo_lookup = \<lparr>lfMeterDefinition = demo_mdef,
     lfFilters = [[WorkloadNamespaceFilter [''shop''], WorkloadTypeFilter [TPod],
       WorkloadLabelFilter (\<lambda>m. list_all (\<lambda>(k, v). m k = Some v) [(''app'', ''db'')]),
       NewWorkloadFilterForOwner \<lparr>ocAPIVersion = ''db.io/v1'', ocKind = ''Database''\<rparr>]]\<rparr>"

lemma demo_selector:
  "feAsSelector demo_env ls = Inr (\<lambda>m. list_all (\<lambda>(k, v). m k = Some v) (lsMatchLabels ls))"
  by (simp add: demo_env_def)

lemma demo_lookup_New: "lookup_New demo_env demo_mdef = Inr demo_lookup"
  by (simp add: demo_lookup_def demo_mdef_def demo_filter_def lookup_New_def createFilters_def createFilter_def
      findNamespacesForResource_def selector_filter_def WorkloadTypePod_def default_namespaces_def demo_selector)

lemma demo_Matches: "Matches demo_env demo_lookup (MetaObj demo_pod) = Inr True"
  using demo_owner_filter
  by (simp add: Matches_def demo_lookup_def Test_def del: Filter_run.simps(3))
    (simp add: demo_pod_def)

section \<open>Properties\<close>

text \<open>
  C9: what a compiled lookup filter matches. For an object whose owners could be looked up
  and whose chains of owners nowhere fan out to five or more, the compiled filters of a
  definition match exactly when some resource filter of the definition covers the object:
  its namespaces contain the object's or stand for all, the workload type is the object's
  type, the label and annotation selectors that are set select it, and an owner of the
  required kind is among its ancestors.
\<close>

theorem Matches_iff_covered:
  assumes "lookup_New E md = Inr lf"
    and "few_owners E (obNamespace ob) 5 (obOwners ob)"
    and "\<And>rf oc. rf \<in> set (mdfResourceFilters md) \<Longrightarrow> rfOwnerCRD rf = Some oc \<Longrightarrow>
        \<exists>b. Filter_run E (NewWorkloadFilterForOwner oc) (MetaObj ob) = Inr b"
  shows "Matches E lf (MetaObj ob) = Inr (\<exists>rf\<in>set (mdfResourceFilters md). covers E md rf ob)"
  using assms Matches_loop_covers [of E md "mdfResourceFilters md" "lfFilters lf" ob]
  by (auto simp: lookup_New_def createFilters_def Matches_def split: if_splits sum.splits)

theorem Matches_iff_covered_witness:
  "\<exists>lf. lookup_New demo_env demo_mdef = Inr lf \<and>
     Matches demo_env lf (MetaObj demo_pod) = Inr (\<exists>rf\<in>set [demo_filter]. covers demo_env demo_mdef rf demo_pod)"
proof -
  note lf = demo_lookup_New
  have "few_owners demo_env (obNamespace demo_pod) 5 (obOwners demo_pod)"
    using demo_few_owners by (simp add: demo_pod_def)
  from Matches_iff_covered [OF lf this] demo_owner_filter show ?thesis
    using lf by (auto simp: demo_mdef_def demo_filter_def)
qed

text \<open>
  The depth limit of the owner search does not limit its depth. On an object whose
  only owner is, by the lookup, owned by itself, the search recurses until the stack is
  exhausted, however large the stack.
\<close>

theorem owner_search_unbounded:
  assumes "obOwners ob = [r]" and "FindOwner E (orName r) (obNamespace ob) r = Inr [r]"
    and "\<not> owner_matches f r"
  shows "Filter_run E (NewWorkloadFilterForOwner f) (MetaObj ob) = Inl (Crash ''stack overflow'')"
proof (cases "feStack E")
  case (Suc k)
  then show ?thesis
    using assms getOwners_cycle [OF assms(2,3), of 5 k] by (simp add: NewWorkloadFilterForOwner_def)
qed (simp add: NewWorkloadFilterForOwner_def)

theorem owner_search_unbounded_witness:
  "Filter_run demo_env (NewWorkloadFilterForOwner \<lparr>ocAPIVersion = ''db.io/v1'', ocKind = ''Database''\<rparr>)
     (MetaObj (demo_pod\<lparr>obOwners := [demo_rs\<lparr>orName := ''loop''\<rparr>]\<rparr>)) = Inl (Crash ''stack overflow'')"
  by (rule owner_search_unbounded [where r = "demo_rs\<lparr>orName := ''loop''\<rparr>"])
    (simp_all add: demo_FindOwner owner_matches_def demo_rs_def)

end
