(* ===== verification/MeterStores.thy ===== *)
theory MeterStores
  imports MeterFilters
begin

text \<open>
  The two stores of the metering service: the dictionary of meter definitions
  (\<open>metering/v2/pkg/stores/dictionary.go\<close>) and the store of workload objects with the
  definitions they match (\<open>metering/v2/pkg/stores/store.go\<close>, \<open>pkg/types/types.go\<close>).

  Both wrap a keyed cache and a delta queue of client-go. The cache is an argument: a
  record of its operations on a state of any type, with the documented laws stated in
  \<open>cache_laws\<close>. The operations take the key, which the stores compute with their own key
  function. Of the delta queue the model keeps the calls that were accepted; a call is
  refused only when the key of its object cannot be computed. The stores keep one type of
  item each, so the type assertions on items taken out of a cache always succeed.
\<close>

section \<open>Caches\<close>

record ('s, 'v) cache_ops =
  caGet :: "'s \<Rightarrow> string \<Rightarrow> 'v option"
  caAdd :: "string \<Rightarrow> 'v \<Rightarrow> 's \<Rightarrow> 's"
  caDelete :: "string \<Rightarrow> 's \<Rightarrow> 's"
  caReplace :: "(string \<times> 'v) list \<Rightarrow> 's \<Rightarrow> 's"
  caList :: "'s \<Rightarrow> 'v list"
  caByIndex :: "('v \<Rightarrow> string list) \<Rightarrow> 's \<Rightarrow> string \<Rightarrow> 'v list"

definition cache_laws :: "('s, 'v) cache_ops \<Rightarrow> bool" where
  "cache_laws C \<longleftrightarrow>
     (\<forall>k v s. caGet C (caAdd C k v s) = (caGet C s)(k \<mapsto> v)) \<and>
     (\<forall>k s. caGet C (caDelete C k s) = (caGet C s)(k := None)) \<and>
     (\<forall>kvs s. caGet C (caReplace C kvs s) = map_of (rev kvs)) \<and>
     (\<forall>s. set (caList C s) = ran (caGet C s)) \<and>
     (\<forall>f s x. set (caByIndex C f s x) = {v \<in> ran (caGet C s). x \<in> set (f v)})"

section \<open>Environment and items\<close>

text \<open>
  \<open>seGVK\<close> is the API version and kind the scheme knows for an object, \<open>seIsRuntime\<close>
  whether the object is a runtime object, and \<open>seMetaKey\<close> client-go's key of a namespace
  and a name.
\<close>

record store_env =
  seFilter :: filter_env
  seGVK :: "k8s_object \<Rightarrow> k8s_error + (string \<times> string)"
  seIsRuntime :: "k8s_object \<Rightarrow> bool"
  seMetaKey :: "string \<Rightarrow> string \<Rightarrow> string"

record MeterDefinitionExtended =
  mxMeterDefinition :: MeterDefinition
  mxFilter :: MeterDefinitionLookupFilter

record MeterDefinitionEnhancedObject =
  enObject :: k8s_object
  enMeterDefinitions :: "MeterDefinition list"

datatype delta_type = Added | Updated | Deleted | Replaced | Sync

section \<open>The dictionary of meter definitions\<close>

text \<open>What callers hand to the dictionary: a meter definition or something else.\<close>

datatype dict_arg = DefArg MeterDefinition | OtherArg

record 'd dictionary =
  diCache :: 'd
  diDelta :: "(delta_type \<times> MeterDefinitionExtended list) list"

definition def_key :: "store_env \<Rightarrow> MeterDefinition \<Rightarrow> string" where
  "def_key E md = seMetaKey E (mdfNamespace md) (mdfName md)"

definition newMeterDefinitionExtended :: "store_env \<Rightarrow> dict_arg \<Rightarrow> k8s_error + MeterDefinitionExtended" where
  "newMeterDefinitionExtended E obj =
     (case obj of
        OtherArg \<Rightarrow> Inl (OtherError ''expected meter definition'')
      | DefArg meterdef \<Rightarrow>
          (case lookup_New (seFilter E) meterdef of
             Inl err \<Rightarrow> Inl err
           | Inr lookup \<Rightarrow> Inr \<lparr>mxMeterDefinition = meterdef, mxFilter = lookup\<rparr>))"

definition ListFilters :: "('d, MeterDefinitionExtended) cache_ops \<Rightarrow> 'd \<Rightarrow> MeterDefinitionLookupFilter list" where
  "ListFilters C d = map mxFilter (caList C d)"

text \<open>The matching filters in listing order; a filter that is denied access is skipped.\<close>

fun find_loop ::
  "store_env \<Rightarrow> iface \<Rightarrow> MeterDefinitionLookupFilter list \<Rightarrow> k8s_error + MeterDefinitionLookupFilter list" where
  "find_loop E obj [] = Inr []"
| "find_loop E obj (l # ls) =
     (case Matches (seFilter E) l obj of
        Inl (AccessDenied m) \<Rightarrow> find_loop E obj ls
      | Inl err \<Rightarrow> Inl err
      | Inr ok \<Rightarrow>
          (case find_loop E obj ls of
             Inl err \<Rightarrow> Inl err
           | Inr results \<Rightarrow> Inr (if ok then l # results else results)))"

definition FindObjectMatches ::
  "store_env \<Rightarrow> ('d, MeterDefinitionExtended) cache_ops \<Rightarrow> 'd \<Rightarrow> iface \<Rightarrow>
     k8s_error + MeterDefinitionLookupFilter list" where
  "FindObjectMatches E C d obj = find_loop E obj (ListFilters C d)"

definition dict_Add ::
  "store_env \<Rightarrow> ('d, MeterDefinitionExtended) cache_ops \<Rightarrow> dict_arg \<Rightarrow> 'd dictionary \<Rightarrow>
     'd dictionary \<times> k8s_error option" where
  "dict_Add E C obj d =
     (case newMeterDefinitionExtended E obj of
        Inl err \<Rightarrow> (d, Some err)
      | Inr x \<Rightarrow>
          (d\<lparr>diDelta := diDelta d @ [(Added, [x])],
             diCache := caAdd C (def_key E (mxMeterDefinition x)) x (diCache d)\<rparr>, None))"

definition dict_Update ::
  "store_env \<Rightarrow> ('d, MeterDefinitionExtended) cache_ops \<Rightarrow> dict_arg \<Rightarrow> 'd dictionary \<Rightarrow>
     'd dictionary \<times> k8s_error option" where
  "dict_Update E C obj d =
     (case newMeterDefinitionExtended E obj of
        Inl err \<Rightarrow> (d, Some err)
      | Inr x \<Rightarrow>
          (let key = def_key E (mxMeterDefinition x);
               d' = d\<lparr>diDelta := diDelta d @ [(Updated, [x])], diCache := caAdd C key x (diCache d)\<rparr>
           in case caGet C (diCache d) key of
                Some prev \<Rightarrow>
                  (if mdfGeneration (mxMeterDefinition x) = mdfGeneration (mxMeterDefinition prev)
                   then (d, None) else (d', None))
              | None \<Rightarrow> (d', None)))"

definition dict_Delete ::
  "store_env \<Rightarrow> ('d, MeterDefinitionExtended) cache_ops \<Rightarrow> dict_arg \<Rightarrow> 'd dictionary \<Rightarrow>
     'd dictionary \<times> k8s_error option" where
  "dict_Delete E C obj d =
     (case newMeterDefinitionExtended E obj of
        Inl err \<Rightarrow> (d, Some err)
      | Inr x \<Rightarrow>
          (d\<lparr>diDelta := diDelta d @ [(Deleted, [x])],
             diCache := caDelete C (def_key E (mxMeterDefinition x)) (diCache d)\<rparr>, None))"

fun extend_all :: "store_env \<Rightarrow> dict_arg list \<Rightarrow> k8s_error + MeterDefinitionExtended list" where
  "extend_all E [] = Inr []"
| "extend_all E (obj # objs) =
     (case newMeterDefinitionExtended E obj of
        Inl err \<Rightarrow> Inl err
      | Inr x \<Rightarrow> (case extend_all E objs of Inl err \<Rightarrow> Inl err | Inr xs \<Rightarrow> Inr (x # xs)))"

definition dict_Replace ::
  "store_env \<Rightarrow> ('d, MeterDefinitionExtended) cache_ops \<Rightarrow> dict_arg list \<Rightarrow> 'd dictionary \<Rightarrow>
     'd dictionary \<times> k8s_error option" where
  "dict_Replace E C objs d =
     (case extend_all E objs of
        Inl err \<Rightarrow> (d, Some err)
      | Inr xs \<Rightarrow>
          (d\<lparr>diCache := caReplace C (map (\<lambda>x. (def_key E (mxMeterDefinition x), x)) xs) (diCache d),
             diDelta := diDelta d @ [(Replaced, xs)]\<rparr>, None))"

section \<open>The store of workload objects\<close>

text \<open>What callers hand to the store: an object, an item of the store, or something else.\<close>

datatype store_arg = ObjArg k8s_object | EnhancedArg MeterDefinitionEnhancedObject | NonObjArg go_type

text \<open>As an \<open>interface{}\<close> an item is a \<open>metav1.Object\<close> of its own type.\<close>

fun arg_iface :: "store_arg \<Rightarrow> iface" where
  "arg_iface (ObjArg ob) = MetaObj ob"
| "arg_iface (EnhancedArg m) = MetaObj ((enObject m)\<lparr>obType := TEnhanced\<rparr>)"
| "arg_iface (NonObjArg t) = NonMeta t"

fun newStoreObject :: "store_arg \<Rightarrow> k8s_error + MeterDefinitionEnhancedObject" where
  "newStoreObject (EnhancedArg m) = Inr m"
| "newStoreObject (ObjArg ob) = Inr \<lparr>enObject = ob, enMeterDefinitions = []\<rparr>"
| "newStoreObject (NonObjArg t) = Inl (OtherError ''can't convert to meterdefinition extended'')"

text \<open>The error of the kind lookup is not examined; the kind is then empty.\<close>

definition GVKNamespaceKeyFunc :: "store_env \<Rightarrow> k8s_object \<Rightarrow> k8s_error + string" where
  "GVKNamespaceKeyFunc E ob =
     (if \<not> seIsRuntime E ob then Inl (OtherError ''not a runtime object'')
      else
        (let (apiVersion, kind) = (case seGVK E ob of Inl _ \<Rightarrow> ([], []) | Inr gvk \<Rightarrow> gvk);
             gvkString = apiVersion @ ''/'' @ kind @ '':''
         in if length (obNamespace ob) > 0 then Inr (gvkString @ obNamespace ob @ ''/'' @ obName ob)
            else Inr (gvkString @ obName ob)))"

definition EnhancedObjectKeyFunc :: "store_env \<Rightarrow> store_arg \<Rightarrow> k8s_error + string" where
  "EnhancedObjectKeyFunc E obj =
     (case newStoreObject obj of Inl err \<Rightarrow> Inl err | Inr m \<Rightarrow> GVKNamespaceKeyFunc E (enObject m))"

definition IndexMeterDefinition :: string where "IndexMeterDefinition = ''meterDefinition''"
definition IndexNamespace :: string where "IndexNamespace = ''namespace''"

definition MeterDefinitionIndexFunc :: "store_env \<Rightarrow> MeterDefinitionEnhancedObject \<Rightarrow> string list" where
  "MeterDefinitionIndexFunc E m = map (def_key E) (enMeterDefinitions m)"

text \<open>The indexers the store is created with; an unknown index name is an error.\<close>

definition store_indexers :: "store_env \<Rightarrow> string \<Rightarrow> (MeterDefinitionEnhancedObject \<Rightarrow> string list) option" where
  "store_indexers E name =
     (if name = IndexMeterDefinition then Some (MeterDefinitionIndexFunc E)
      else if name = IndexNamespace then Some (\<lambda>m. [obNamespace (enObject m)])
      else None)"

record 's object_store =
  osIndex :: 's
  osDelta :: "(delta_type \<times> MeterDefinitionEnhancedObject) list"

type_synonym ('d, 's) caches =
  "('d, MeterDefinitionExtended) cache_ops \<times> ('s, MeterDefinitionEnhancedObject) cache_ops"

text \<open>The calls on the index and on the queue, which both compute the key of the item.\<close>

definition index_Add ::
  "store_env \<Rightarrow> ('s, MeterDefinitionEnhancedObject) cache_ops \<Rightarrow> MeterDefinitionEnhancedObject \<Rightarrow>
     's object_store \<Rightarrow> 's object_store \<times> k8s_error option" where
  "index_Add E C m s =
     (case EnhancedObjectKeyFunc E (EnhancedArg m) of
        Inl err \<Rightarrow> (s, Some err)
      | Inr k \<Rightarrow> (s\<lparr>osIndex := caAdd C k m (osIndex s)\<rparr>, None))"

definition delta_call ::
  "store_env \<Rightarrow> delta_type \<Rightarrow> MeterDefinitionEnhancedObject \<Rightarrow> 's object_store \<Rightarrow>
     's object_store \<times> k8s_error option" where
  "delta_call E t m s =
     (case EnhancedObjectKeyFunc E (EnhancedArg m) of
        Inl err \<Rightarrow> (s, Some err)
      | Inr k \<Rightarrow> (s\<lparr>osDelta := osDelta s @ [(t, m)]\<rparr>, None))"

definition addObj ::
  "store_env \<Rightarrow> ('d, 's) caches \<Rightarrow> 'd \<Rightarrow> store_arg \<Rightarrow> k8s_error + MeterDefinitionEnhancedObject" where
  "addObj E C d obj =
     (case EnhancedObjectKeyFunc E obj of
        Inl err \<Rightarrow> Inl err
      | Inr key \<Rightarrow>
          (case newStoreObject obj of
             Inl err \<Rightarrow> Inl err
           | Inr mdefObj \<Rightarrow>
               (case FindObjectMatches E (fst C) d (arg_iface obj) of
                  Inl err \<Rightarrow> Inl err
                | Inr results \<Rightarrow>
                    Inr (mdefObj\<lparr>enMeterDefinitions := enMeterDefinitions mdefObj @ map lfMeterDefinition results\<rparr>))))"

definition mstore_Add ::
  "store_env \<Rightarrow> ('d, 's) caches \<Rightarrow> 'd \<Rightarrow> store_arg \<Rightarrow> 's object_store \<Rightarrow> 's object_store \<times> k8s_error option" where
  "mstore_Add E C d obj s =
     (case addObj E C d obj of
        Inl err \<Rightarrow> (s, Some err)
      | Inr m \<Rightarrow>
          (case (if length (enMeterDefinitions m) \<noteq> 0 then delta_call E Added m s else (s, None)) of
             (s1, Some err) \<Rightarrow> (s1, Some err)
           | (s1, None) \<Rightarrow> index_Add E (snd C) m s1))"

text \<open>
  What \<open>Update\<close>, \<open>Resync\<close> and \<open>SyncByIndex\<close> do with a freshly matched item: queue it, or
  queue its deletion when nothing matches, and put it into the index.
\<close>

definition emit_and_index ::
  "store_env \<Rightarrow> ('d, 's) caches \<Rightarrow> MeterDefinitionEnhancedObject \<Rightarrow> 's object_store \<Rightarrow>
     's object_store \<times> k8s_error option" where
  "emit_and_index E C m s =
     (case delta_call E (if length (enMeterDefinitions m) \<noteq> 0 then Added else Deleted) m s of
        (s1, Some err) \<Rightarrow> (s1, Some err)
      | (s1, None) \<Rightarrow> index_Add E (snd C) m s1)"

definition index_Get ::
  "store_env \<Rightarrow> ('s, MeterDefinitionEnhancedObject) cache_ops \<Rightarrow> MeterDefinitionEnhancedObject \<Rightarrow> 's \<Rightarrow>
     k8s_error + MeterDefinitionEnhancedObject option" where
  "index_Get E C m i =
     (case EnhancedObjectKeyFunc E (EnhancedArg m) of Inl err \<Rightarrow> Inl err | Inr k \<Rightarrow> Inr (caGet C i k))"

definition mstore_Update ::
  "store_env \<Rightarrow> ('d, 's) caches \<Rightarrow> 'd \<Rightarrow> store_arg \<Rightarrow> 's object_store \<Rightarrow> 's object_store \<times> k8s_error option" where
  "mstore_Update E C d obj s =
     (case addObj E C d obj of
        Inl err \<Rightarrow> (s, Some err)
      | Inr m \<Rightarrow>
          (case index_Get E (snd C) m (osIndex s) of
             Inr (Some prev) \<Rightarrow>
               (if obGeneration (enObject m) = obGeneration (enObject prev) then (s, None)
                else emit_and_index E C m s)
           | _ \<Rightarrow> (s, None)))"

definition delete_found ::
  "store_env \<Rightarrow> ('s, MeterDefinitionEnhancedObject) cache_ops \<Rightarrow> MeterDefinitionEnhancedObject \<Rightarrow>
     's object_store \<Rightarrow> 's object_store \<times> k8s_error option" where
  "delete_found E C full s =
     (case delta_call E Deleted full s of
        (s1, Some err) \<Rightarrow> (s1, Some err)
      | (s1, None) \<Rightarrow>
          (case EnhancedObjectKeyFunc E (EnhancedArg full) of
             Inl err \<Rightarrow> (s1, Some err)
           | Inr k \<Rightarrow> (s1\<lparr>osIndex := caDelete C k (osIndex s1)\<rparr>, None)))"

definition mstore_Delete ::
  "store_env \<Rightarrow> ('d, 's) caches \<Rightarrow> store_arg \<Rightarrow> 's object_store \<Rightarrow> 's object_store \<times> k8s_error option" where
  "mstore_Delete E C obj s =
     (case newStoreObject obj of
        Inl err \<Rightarrow> (s, Some err)
      | Inr m \<Rightarrow>
          (case index_Get E (snd C) m (osIndex s) of
             Inl err \<Rightarrow> (s, Some err)
           | Inr None \<Rightarrow> (s, None)
           | Inr (Some full) \<Rightarrow> delete_found E (snd C) full s))"

text \<open>\<open>DeleteFromIndex\<close> differs from \<open>Delete\<close> only in when it takes the lock.\<close>

definition mstore_DeleteFromIndex ::
  "store_env \<Rightarrow> ('d, 's) caches \<Rightarrow> store_arg \<Rightarrow> 's object_store \<Rightarrow> 's object_store \<times> k8s_error option" where
  "mstore_DeleteFromIndex E C obj s = mstore_Delete E C obj s"

definition mstore_Get ::
  "store_env \<Rightarrow> ('d, 's) caches \<Rightarrow> store_arg \<Rightarrow> 's object_store \<Rightarrow> k8s_error + MeterDefinitionEnhancedObject option" where
  "mstore_Get E C obj s =
     (case newStoreObject obj of Inl err \<Rightarrow> Inl err | Inr m \<Rightarrow> index_Get E (snd C) m (osIndex s))"

fun mstore_Replace ::
  "store_env \<Rightarrow> ('d, 's) caches \<Rightarrow> 'd \<Rightarrow> store_arg list \<Rightarrow> 's object_store \<Rightarrow> 's object_store \<times> k8s_error option" where
  "mstore_Replace E C d [] s = (s, None)"
| "mstore_Replace E C d (obj # objs) s =
     (case mstore_Delete E C obj s of
        (s1, Some err) \<Rightarrow> (s1, Some err)
      | (s1, None) \<Rightarrow>
          (case mstore_Add E C d obj s1 of
             (s2, Some err) \<Rightarrow> (s2, Some err)
           | (s2, None) \<Rightarrow> mstore_Replace E C d objs s2))"

text \<open>The loop over items that \<open>Resync\<close> and \<open>SyncByIndex\<close> share.\<close>

fun rematch ::
  "store_env \<Rightarrow> ('d, 's) caches \<Rightarrow> 'd \<Rightarrow> MeterDefinitionEnhancedObject list \<Rightarrow> 's object_store \<Rightarrow>
     's object_store \<times> k8s_error option" where
  "rematch E C d [] s = (s, None)"
| "rematch E C d (mdeo # objs) s =
     (case addObj E C d (ObjArg (enObject mdeo)) of
        Inl err \<Rightarrow> (s, Some err)
      | Inr m \<Rightarrow>
          (case emit_and_index E C m s of
             (s1, Some err) \<Rightarrow> (s1, Some err)
           | (s1, None) \<Rightarrow> rematch E C d objs s1))"

definition mstore_Resync ::
  "store_env \<Rightarrow> ('d, 's) caches \<Rightarrow> 'd \<Rightarrow> 's object_store \<Rightarrow> 's object_store \<times> k8s_error option" where
  "mstore_Resync E C d s = rematch E C d (caList (snd C) (osIndex s)) s"

definition mstore_SyncByIndex ::
  "store_env \<Rightarrow> ('d, 's) caches \<Rightarrow> 'd \<Rightarrow> string \<Rightarrow> string \<Rightarrow> 's object_store \<Rightarrow>
     's object_store \<times> k8s_error option" where
  "mstore_SyncByIndex E C d indexName indexedValue s =
     (case store_indexers E indexName of
        None \<Rightarrow> (s, Some (OtherError ''index does not exist''))
      | Some f \<Rightarrow> rematch E C d (caByIndex (snd C) f (osIndex s) indexedValue) s)"


section \<open>Single effects\<close>

definition emit_type :: "MeterDefinitionEnhancedObject \<Rightarrow> delta_type" where
  "emit_type m = (if enMeterDefinitions m \<noteq> [] then Added else Deleted)"

text \<open>
  Every operation is a sequence of these: announce an item and index it, index an item
  that matches nothing without a word, announce the removal of an item and remove it.
\<close>

inductive store_effect ::
  "store_env \<Rightarrow> ('s, MeterDefinitionEnhancedObject) cache_ops \<Rightarrow> 's object_store \<Rightarrow> 's object_store \<Rightarrow> bool" for E C where
  announce: "GVKNamespaceKeyFunc E (enObject m) = Inr k \<Longrightarrow>
     store_effect E C s (s\<lparr>osDelta := osDelta s @ [(emit_type m, m)], osIndex := caAdd C k m (osIndex s)\<rparr>)"
| quiet: "GVKNamespaceKeyFunc E (enObject m) = Inr k \<Longrightarrow> enMeterDefinitions m = [] \<Longrightarrow>
     store_effect E C s (s\<lparr>osIndex := caAdd C k m (osIndex s)\<rparr>)"
| remove: "GVKNamespaceKeyFunc E (enObject m) = Inr k \<Longrightarrow>
     store_effect E C s (s\<lparr>osDelta := osDelta s @ [(Deleted, m)], osIndex := caDelete C k (osIndex s)\<rparr>)"

lemma key_of_item [simp]: "EnhancedObjectKeyFunc E (EnhancedArg m) = GVKNamespaceKeyFunc E (enObject m)"
  by (simp add: EnhancedObjectKeyFunc_def)

lemma emit_and_index_ok:
  "GVKNamespaceKeyFunc E (enObject m) = Inr k \<Longrightarrow>
     emit_and_index E C m s =
       (s\<lparr>osDelta := osDelta s @ [(emit_type m, m)], osIndex := caAdd (snd C) k m (osIndex s)\<rparr>, None)"
  by (simp add: emit_and_index_def delta_call_def index_Add_def emit_type_def)

lemma addObj_key: "addObj E C d obj = Inr m \<Longrightarrow> \<exists>k. GVKNamespaceKeyFunc E (enObject m) = Inr k"
  by (auto simp: addObj_def EnhancedObjectKeyFunc_def split: sum.splits)

lemma addObj_ObjArg:
  "addObj E C d (ObjArg ob) = Inr m \<longleftrightarrow>
     (\<exists>k fs. GVKNamespaceKeyFunc E ob = Inr k \<and> FindObjectMatches E (fst C) d (MetaObj ob) = Inr fs \<and>
        m = \<lparr>enObject = ob, enMeterDefinitions = map lfMeterDefinition fs\<rparr>)"
  by (auto simp: addObj_def EnhancedObjectKeyFunc_def split: sum.splits)

lemma mstore_Add_effect:
  "mstore_Add E C d obj s = (s', err) \<Longrightarrow> s' = s \<or> store_effect E (snd C) s s'"
  using addObj_key [of E C d obj]
  by (fastforce simp: mstore_Add_def delta_call_def index_Add_def emit_type_def
      split: sum.splits if_splits dest: announce [of E _ _ "snd C" s] quiet [of E _ _ "snd C" s])

lemma mstore_Update_effect:
  "mstore_Update E C d obj s = (s', err) \<Longrightarrow> s' = s \<or> store_effect E (snd C) s s'"
proof -
  assume u: "mstore_Update E C d obj s = (s', err)"
  show ?thesis
  proof (cases "addObj E C d obj")
    case (Inr m)
    then obtain k where k: "GVKNamespaceKeyFunc E (enObject m) = Inr k" using addObj_key [OF Inr] by auto
    then show ?thesis
      using u Inr announce [OF k, of "snd C" s]
      by (auto simp: mstore_Update_def emit_and_index_ok [OF k] index_Get_def split: option.splits if_splits)
  qed (use u in \<open>simp add: mstore_Update_def\<close>)
qed


lemma mstore_Delete_effect:
  assumes "mstore_Delete E C obj s = (s', err)"
    and keys: "\<And>k m. caGet (snd C) (osIndex s) k = Some m \<Longrightarrow> GVKNamespaceKeyFunc E (enObject m) = Inr k"
  shows "s' = s \<or> store_effect E (snd C) s s'"
proof -
  consider "s' = s"
    | m k full where "newStoreObject obj = Inr m" "GVKNamespaceKeyFunc E (enObject m) = Inr k"
      "caGet (snd C) (osIndex s) k = Some full" "(s', err) = delete_found E (snd C) full s"
    using assms(1) by (auto simp: mstore_Delete_def index_Get_def split: sum.splits option.splits)
  then show ?thesis
  proof cases
    case (2 m k full)
    then show ?thesis
      using remove [OF keys [OF 2(3)], of "snd C" s] keys [OF 2(3)]
      by (simp add: delete_found_def delta_call_def)
  qed simp
qed

section \<open>The queue tracks the index\<close>

definition item_key :: "store_env \<Rightarrow> MeterDefinitionEnhancedObject \<Rightarrow> string option" where
  "item_key E m = (case GVKNamespaceKeyFunc E (enObject m) of Inl _ \<Rightarrow> None | Inr k \<Rightarrow> Some k)"

definition last_delta ::
  "store_env \<Rightarrow> string \<Rightarrow> (delta_type \<times> MeterDefinitionEnhancedObject) list \<Rightarrow>
     (delta_type \<times> MeterDefinitionEnhancedObject) option" where
  "last_delta E k ds = find (\<lambda>(t, m). item_key E m = Some k) (rev ds)"

definition keys_ok ::
  "store_env \<Rightarrow> ('s, MeterDefinitionEnhancedObject) cache_ops \<Rightarrow> 's object_store \<Rightarrow> bool" where
  "keys_ok E C s \<longleftrightarrow> (\<forall>k m. caGet C (osIndex s) k = Some m \<longrightarrow> GVKNamespaceKeyFunc E (enObject m) = Inr k)"

text \<open>What the last delta of a key says about the entry under the key.\<close>

definition tracks ::
  "(delta_type \<times> MeterDefinitionEnhancedObject) option \<Rightarrow> MeterDefinitionEnhancedObject option \<Rightarrow> bool" where
  "tracks l e =
     (case e of
        None \<Rightarrow> (case l of None \<Rightarrow> True | Some (t, m) \<Rightarrow> t = Deleted)
      | Some m \<Rightarrow> enMeterDefinitions m \<noteq> [] \<longrightarrow> l = Some (Added, m))"

definition queue_ok ::
  "store_env \<Rightarrow> ('s, MeterDefinitionEnhancedObject) cache_ops \<Rightarrow> 's object_store \<Rightarrow> bool" where
  "queue_ok E C s \<longleftrightarrow> (\<forall>k. tracks (last_delta E k (osDelta s)) (caGet C (osIndex s) k))"

lemma tracks_simps [simp]:
  "tracks None None" "tracks (Some (t, m)) None \<longleftrightarrow> t = Deleted" "tracks (Some (emit_type m, m)) (Some m)"
  "enMeterDefinitions m = [] \<Longrightarrow> tracks l (Some m)"
  by (simp_all add: tracks_def emit_type_def)

lemma last_delta_snoc:
  "last_delta E k (ds @ [(t, m)]) = (if item_key E m = Some k then Some (t, m) else last_delta E k ds)"
  by (simp add: last_delta_def)

lemma effect_keys_ok:
  "store_effect E C s s' \<Longrightarrow> cache_laws C \<Longrightarrow> keys_ok E C s \<Longrightarrow> keys_ok E C s'"
  by (induction rule: store_effect.induct) (auto simp: keys_ok_def cache_laws_def split: if_splits)

lemma effect_queue_ok:
  "store_effect E C s s' \<Longrightarrow> cache_laws C \<Longrightarrow> queue_ok E C s \<Longrightarrow> queue_ok E C s'"
  by (induction rule: store_effect.induct)
    (simp_all add: queue_ok_def cache_laws_def last_delta_snoc item_key_def)

text \<open>The operations callers perform on the store, while the dictionary changes beneath it.\<close>

inductive store_step ::
  "store_env \<Rightarrow> ('d, 's) caches \<Rightarrow> 's object_store \<Rightarrow> 's object_store \<Rightarrow> bool" for E C where
  step_Add: "mstore_Add E C d obj s = (s', err) \<Longrightarrow> store_step E C s s'"
| step_Update: "mstore_Update E C d obj s = (s', err) \<Longrightarrow> store_step E C s s'"
| step_Delete: "mstore_Delete E C obj s = (s', err) \<Longrightarrow> store_step E C s s'"
| step_DeleteFromIndex: "mstore_DeleteFromIndex E C obj s = (s', err) \<Longrightarrow> store_step E C s s'"
| step_Replace: "mstore_Replace E C d objs s = (s', err) \<Longrightarrow> store_step E C s s'"
| step_Resync: "mstore_Resync E C d s = (s', err) \<Longrightarrow> store_step E C s s'"
| step_SyncByIndex: "mstore_SyncByIndex E C d n v s = (s', err) \<Longrightarrow> store_step E C s s'"

inductive store_reachable :: "store_env \<Rightarrow> ('d, 's) caches \<Rightarrow> 's object_store \<Rightarrow> bool" for E C where
  store_init: "caGet (snd C) i = Map.empty \<Longrightarrow> store_reachable E C \<lparr>osIndex = i, osDelta = []\<rparr>"
| store_next: "store_reachable E C s \<Longrightarrow> store_step E C s s' \<Longrightarrow> store_reachable E C s'"

definition store_ok where
  "store_ok E C s \<longleftrightarrow> keys_ok E C s \<and> queue_ok E C s"

lemma effect_ok: "s' = s \<or> store_effect E C s s' \<Longrightarrow> cache_laws C \<Longrightarrow> store_ok E C s \<Longrightarrow> store_ok E C s'"
  using effect_keys_ok effect_queue_ok by (auto simp: store_ok_def)

lemma mstore_Delete_ok:
  assumes "mstore_Delete E C obj s = (s', err)" "cache_laws (snd C)" "store_ok E (snd C) s"
  shows "store_ok E (snd C) s'"
  by (rule effect_ok [OF mstore_Delete_effect [OF assms(1)] assms(2,3)])
    (use assms(3) in \<open>auto simp: store_ok_def keys_ok_def\<close>)

lemma mstore_Replace_ok:
  "mstore_Replace E C d objs s = (s', err) \<Longrightarrow> cache_laws (snd C) \<Longrightarrow> store_ok E (snd C) s \<Longrightarrow> store_ok E (snd C) s'"
proof (induction objs arbitrary: s)
  case (Cons obj objs)
  obtain s1 e1 where s1: "mstore_Delete E C obj s = (s1, e1)" by fastforce
  obtain s2 e2 where s2: "mstore_Add E C d obj s1 = (s2, e2)" by fastforce
  have "store_ok E (snd C) s1" by (rule mstore_Delete_ok [OF s1 Cons.prems(2,3)])
  moreover from this have "store_ok E (snd C) s2"
    by (rule effect_ok [OF mstore_Add_effect [OF s2] Cons.prems(2)])
  ultimately show ?case
    using Cons.IH [of s2] Cons.prems s1 s2 by (auto split: option.splits)
qed simp

lemma rematch_step:
  assumes "rematch E C d (o' # objs) s = (s', err)"
  shows "s' = s \<and> err \<noteq> None \<or>
    (\<exists>m k. addObj E C d (ObjArg (enObject o')) = Inr m \<and> GVKNamespaceKeyFunc E (enObject m) = Inr k \<and>
       rematch E C d objs
         (s\<lparr>osDelta := osDelta s @ [(emit_type m, m)], osIndex := caAdd (snd C) k m (osIndex s)\<rparr>) = (s', err))"
proof (cases "addObj E C d (ObjArg (enObject o'))")
  case (Inr m)
  then obtain k where k: "GVKNamespaceKeyFunc E (enObject m) = Inr k" using addObj_key [OF Inr] by auto
  then show ?thesis using assms Inr by (auto simp: emit_and_index_ok [OF k])
qed (use assms in auto)

lemma rematch_ok:
  "rematch E C d objs s = (s', err) \<Longrightarrow> cache_laws (snd C) \<Longrightarrow> store_ok E (snd C) s \<Longrightarrow> store_ok E (snd C) s'"
proof (induction objs arbitrary: s)
  case (Cons ob objs)
  from rematch_step [OF Cons.prems(1)] show ?case
    using Cons.IH Cons.prems(2,3) effect_ok [OF disjI2 [OF announce] Cons.prems(2,3)] by blast
qed simp

lemma store_step_ok:
  "store_step E C s s' \<Longrightarrow> cache_laws (snd C) \<Longrightarrow> store_ok E (snd C) s \<Longrightarrow> store_ok E (snd C) s'"
proof (induction rule: store_step.induct)
  case (step_Add d obj s s' err)
  show ?case by (rule effect_ok [OF mstore_Add_effect [OF step_Add(1)] step_Add(2,3)])
next
  case (step_Update d obj s s' err)
  show ?case by (rule effect_ok [OF mstore_Update_effect [OF step_Update(1)] step_Update(2,3)])
next
  case (step_SyncByIndex d n v s s' err)
  then show ?case by (auto simp: mstore_SyncByIndex_def intro: rematch_ok split: option.splits)
qed (auto simp: mstore_DeleteFromIndex_def mstore_Resync_def intro: mstore_Delete_ok mstore_Replace_ok rematch_ok)

lemma store_reachable_ok:
  "store_reachable E C s \<Longrightarrow> cache_laws (snd C) \<Longrightarrow> store_ok E (snd C) s"
proof (induction rule: store_reachable.induct)
  case (store_init i)
  then show ?case by (simp add: store_ok_def keys_ok_def queue_ok_def last_delta_def)
qed (auto intro: store_step_ok)


section \<open>What rematching leaves\<close>

lemma rematch_result:
  "rematch E C d objs s = (s', None) \<Longrightarrow> cache_laws (snd C) \<Longrightarrow>
     \<exists>ms. list_all2 (\<lambda>ob m. addObj E C d (ObjArg (enObject ob)) = Inr m) objs ms \<and>
       osDelta s' = osDelta s @ map (\<lambda>m. (emit_type m, m)) ms \<and>
       caGet (snd C) (osIndex s') =
         caGet (snd C) (osIndex s) ++ (\<lambda>k. find (\<lambda>m. item_key E m = Some k) (rev ms))"
proof (induction objs arbitrary: s)
  case Nil
  then show ?case by (simp add: map_add_def)
next
  case (Cons ob objs)
  from rematch_step [OF Cons.prems(1)] obtain m k where m: "addObj E C d (ObjArg (enObject ob)) = Inr m"
    and k: "GVKNamespaceKeyFunc E (enObject m) = Inr k"
    and rest: "rematch E C d objs
      (s\<lparr>osDelta := osDelta s @ [(emit_type m, m)], osIndex := caAdd (snd C) k m (osIndex s)\<rparr>) = (s', None)"
    by auto
  have add: "caGet (snd C) (caAdd (snd C) k m (osIndex s)) = (caGet (snd C) (osIndex s))(k \<mapsto> m)"
    using Cons.prems(2) by (simp add: cache_laws_def)
  from Cons.IH [OF rest Cons.prems(2)] obtain ms where ms:
    "list_all2 (\<lambda>ob m. addObj E C d (ObjArg (enObject ob)) = Inr m) objs ms"
    "osDelta s' = osDelta s @ (emit_type m, m) # map (\<lambda>m. (emit_type m, m)) ms"
    "caGet (snd C) (osIndex s') =
       (caGet (snd C) (osIndex s))(k \<mapsto> m) ++ (\<lambda>k. find (\<lambda>m. item_key E m = Some k) (rev ms))"
    by (auto simp: add simp del: fun_upd_apply)
  have "caGet (snd C) (osIndex s') =
      caGet (snd C) (osIndex s) ++ (\<lambda>k. find (\<lambda>m. item_key E m = Some k) (rev (m # ms)))"
    by (rule ext) (simp add: ms(3) find_append item_key_def k map_add_def split: option.split)
  with ms(1,2) m show ?case by (intro exI [of _ "m # ms"]) simp
qed

text \<open>Items that are rematched get their current matches; the others stay.\<close>

lemma rematch_entries:
  assumes r: "rematch E C d objs s = (s', None)" and L: "cache_laws (snd C)" and K: "keys_ok E (snd C) s"
    and objs: "set objs \<subseteq> ran (caGet (snd C) (osIndex s))"
  shows "caGet (snd C) (osIndex s) k = None \<Longrightarrow> caGet (snd C) (osIndex s') k = None"
    and "caGet (snd C) (osIndex s) k = Some ob \<Longrightarrow> ob \<notin> set objs \<Longrightarrow> caGet (snd C) (osIndex s') k = Some ob"
    and "caGet (snd C) (osIndex s) k = Some ob \<Longrightarrow> ob \<in> set objs \<Longrightarrow>
      \<exists>m. addObj E C d (ObjArg (enObject ob)) = Inr m \<and> caGet (snd C) (osIndex s') k = Some m"
proof -
  obtain ms where ms: "list_all2 (\<lambda>ob m. addObj E C d (ObjArg (enObject ob)) = Inr m) objs ms"
    and get: "\<And>k. caGet (snd C) (osIndex s') k =
       (case find (\<lambda>m. item_key E m = Some k) (rev ms) of None \<Rightarrow> caGet (snd C) (osIndex s) k | Some m \<Rightarrow> Some m)"
    using rematch_result [OF r L] by (auto simp: map_add_def)
  have from_ms: "\<exists>ob\<in>set objs. addObj E C d (ObjArg (enObject ob)) = Inr m \<and> caGet (snd C) (osIndex s) k = Some ob"
    if m: "m \<in> set ms" and mk: "item_key E m = Some k" for m k
  proof -
    obtain ob where ob: "ob \<in> set objs" "addObj E C d (ObjArg (enObject ob)) = Inr m"
      using list_all2_right [OF ms m] by blast
    then obtain k' where "caGet (snd C) (osIndex s) k' = Some ob" using objs by (auto simp: ran_def)
    moreover have "enObject m = enObject ob" using ob(2) by (auto simp: addObj_ObjArg)
    ultimately have "k' = k" using K mk by (auto simp: keys_ok_def item_key_def split: sum.splits)
    with ob \<open>caGet (snd C) (osIndex s) k' = Some ob\<close> show ?thesis by blast
  qed
  have to_ms: "\<exists>m\<in>set ms. item_key E m = Some k"
    if at: "caGet (snd C) (osIndex s) k = Some ob" and ob: "ob \<in> set objs" for ob k
  proof -
    obtain m where m: "m \<in> set ms" "addObj E C d (ObjArg (enObject ob)) = Inr m"
      using list_all2_left [OF ms ob] by blast
    then have "item_key E m = Some k" using K at by (auto simp: addObj_ObjArg keys_ok_def item_key_def)
    then show ?thesis using m(1) by blast
  qed
  have found: "\<exists>ob\<in>set objs. addObj E C d (ObjArg (enObject ob)) = Inr m \<and> caGet (snd C) (osIndex s) k = Some ob"
    if "find (\<lambda>m. item_key E m = Some k) (rev ms) = Some m" for m k
    using find_Some_in_set [OF that] from_ms by simp
  have missed: "ob \<notin> set objs"
    if "find (\<lambda>m. item_key E m = Some k) (rev ms) = None" "caGet (snd C) (osIndex s) k = Some ob" for ob k
    using that(1) to_ms [OF that(2)] by (auto simp: find_None_iff)
  show "caGet (snd C) (osIndex s') k = None" if "caGet (snd C) (osIndex s) k = None"
    using that get [of k] found [of k]
    by (cases "find (\<lambda>m. item_key E m = Some k) (rev ms)") auto
  show "caGet (snd C) (osIndex s') k = Some ob" if "caGet (snd C) (osIndex s) k = Some ob" "ob \<notin> set objs"
    using that get [of k] found [of k]
    by (cases "find (\<lambda>m. item_key E m = Some k) (rev ms)") auto
  show "\<exists>m. addObj E C d (ObjArg (enObject ob)) = Inr m \<and> caGet (snd C) (osIndex s') k = Some m"
    if "caGet (snd C) (osIndex s) k = Some ob" "ob \<in> set objs"
    using that get [of k] found [of k] missed [of k ob]
    by (cases "find (\<lambda>m. item_key E m = Some k) (rev ms)") auto
qed

definition entry_matches ::
  "store_env \<Rightarrow> ('d, 's) caches \<Rightarrow> 'd \<Rightarrow> MeterDefinitionEnhancedObject \<Rightarrow> bool" where
  "entry_matches E C d m \<longleftrightarrow>
     (\<exists>fs. FindObjectMatches E (fst C) d (MetaObj (enObject m)) = Inr fs \<and>
        enMeterDefinitions m = map lfMeterDefinition fs)"

lemma addObj_entry_matches:
  "addObj E C d (ObjArg ob) = Inr m \<Longrightarrow> enObject m = ob \<and> entry_matches E C d m"
  by (auto simp: addObj_ObjArg entry_matches_def)

lemma find_loop_subset: "find_loop E obj ls = Inr fs \<Longrightarrow> set fs \<subseteq> set ls"
  by (induction ls arbitrary: fs) (fastforce split: sum.splits k8s_error.splits if_splits)+

section \<open>Replacing\<close>

lemma mstore_Add_other_key:
  assumes "mstore_Add E C d obj s = (s', err)" "cache_laws (snd C)" "EnhancedObjectKeyFunc E obj \<noteq> Inr k"
  shows "caGet (snd C) (osIndex s') k = caGet (snd C) (osIndex s) k"
proof -
  have "GVKNamespaceKeyFunc E (enObject m) \<noteq> Inr k" if "addObj E C d obj = Inr m" for m
    using that assms(3) by (cases obj) (auto simp: addObj_def EnhancedObjectKeyFunc_def split: sum.splits)
  then show ?thesis
    using assms(1,2)
    by (auto simp: mstore_Add_def delta_call_def index_Add_def cache_laws_def split: sum.splits if_splits)
qed

lemma mstore_Delete_other_key:
  assumes "mstore_Delete E C obj s = (s', err)" "cache_laws (snd C)" "keys_ok E (snd C) s"
    and "EnhancedObjectKeyFunc E obj \<noteq> Inr k"
  shows "caGet (snd C) (osIndex s') k = caGet (snd C) (osIndex s) k"
  using assms
  by (auto simp: mstore_Delete_def index_Get_def delete_found_def delta_call_def cache_laws_def keys_ok_def
      EnhancedObjectKeyFunc_def split: sum.splits option.splits)

text \<open>Replacing the contents leaves the items whose keys the new list does not have.\<close>

lemma Replace_keeps_unlisted:
  "mstore_Replace E C d objs s = (s', err) \<Longrightarrow> cache_laws (snd C) \<Longrightarrow> store_ok E (snd C) s \<Longrightarrow>
     \<forall>obj\<in>set objs. EnhancedObjectKeyFunc E obj \<noteq> Inr k \<Longrightarrow>
     caGet (snd C) (osIndex s') k = caGet (snd C) (osIndex s) k"
proof (induction objs arbitrary: s)
  case (Cons obj objs)
  obtain s1 e1 where s1: "mstore_Delete E C obj s = (s1, e1)" by fastforce
  obtain s2 e2 where s2: "mstore_Add E C d obj s1 = (s2, e2)" by fastforce
  have ok1: "store_ok E (snd C) s1" by (rule mstore_Delete_ok [OF s1 Cons.prems(2,3)])
  have ok2: "store_ok E (snd C) s2" by (rule effect_ok [OF mstore_Add_effect [OF s2] Cons.prems(2) ok1])
  have "caGet (snd C) (osIndex s1) k = caGet (snd C) (osIndex s) k"
    using mstore_Delete_other_key [OF s1 Cons.prems(2)] Cons.prems(3,4) by (simp add: store_ok_def)
  moreover have "caGet (snd C) (osIndex s2) k = caGet (snd C) (osIndex s1) k"
    using mstore_Add_other_key [OF s2 Cons.prems(2)] Cons.prems(4) by simp
  ultimately show ?case
    using Cons.IH [of s2] Cons.prems ok2 s1 s2 by (auto split: option.splits)
qed simp

section \<open>The dictionary\<close>

text \<open>Items are kept under the key of their definition, with the filter compiled from it.\<close>

definition dict_ok :: "store_env \<Rightarrow> ('d, MeterDefinitionExtended) cache_ops \<Rightarrow> 'd \<Rightarrow> bool" where
  "dict_ok E C d \<longleftrightarrow>
     (\<forall>k x. caGet C d k = Some x \<longrightarrow>
        def_key E (mxMeterDefinition x) = k \<and> lfMeterDefinition (mxFilter x) = mxMeterDefinition x)"

lemma newMeterDefinitionExtended_ok:
  "newMeterDefinitionExtended E obj = Inr x \<Longrightarrow> lfMeterDefinition (mxFilter x) = mxMeterDefinition x"
  by (auto simp: newMeterDefinitionExtended_def lookup_New_def split: dict_arg.splits sum.splits if_splits)

lemma matched_definitions_listed:
  assumes "cache_laws C" "dict_ok E C d" "FindObjectMatches E C d obj = Inr fs" "l \<in> set fs"
  shows "\<exists>x. caGet C d (def_key E (lfMeterDefinition l)) = Some x \<and> mxMeterDefinition x = lfMeterDefinition l"
proof -
  have "l \<in> mxFilter ` ran (caGet C d)"
    using assms find_loop_subset [of E obj "ListFilters C d" fs]
    by (auto simp: FindObjectMatches_def ListFilters_def cache_laws_def)
  then show ?thesis using assms(2) by (fastforce simp: dict_ok_def ran_def)
qed


section \<open>A cache\<close>

text \<open>An association list in which the first entry of a key counts satisfies the laws.\<close>

definition alist_cache :: "((string \<times> 'v) list, 'v) cache_ops" where
  "alist_cache = \<lparr>caGet = map_of, caAdd = \<lambda>k v s. (k, v) # s, caDelete = \<lambda>k. filter (\<lambda>(k', v). k' \<noteq> k),
     caReplace = \<lambda>kvs s. rev kvs, caList = \<lambda>s. map (\<lambda>k. the (map_of s k)) (remdups (map fst s)),
     caByIndex = \<lambda>f s x. filter (\<lambda>v. x \<in> set (f v)) (map (\<lambda>k. the (map_of s k)) (remdups (map fst s)))\<rparr>"

lemma alist_values: "(\<lambda>k. the (map_of s k)) ` fst ` set s = ran (map_of s)"
proof -
  have "ran (map_of s) = (\<lambda>k. the (map_of s k)) ` dom (map_of s)" by (force simp: ran_def)
  then show ?thesis by (simp add: dom_map_of_conv_image_fst)
qed

lemma map_of_filter_neq: "map_of (filter (\<lambda>(k', v). k' \<noteq> k) s) = (map_of s)(k := None)"
  by (rule ext) (induction s, auto)

lemma alist_cache_laws: "cache_laws alist_cache"
  unfolding cache_laws_def
proof (intro conjI allI)
  show "set (caByIndex alist_cache f s x) = {v \<in> ran (caGet alist_cache s). x \<in> set (f v)}"
    for f x and s :: "(string \<times> 'v) list"
    by (simp add: alist_cache_def alist_values)
qed (simp_all add: alist_cache_def map_of_filter_neq alist_values)

section \<open>A small store\<close>

definition demo_store_env :: store_env where
  "demo_store_env = \<lparr>seFilter = demo_env, seGVK = \<lambda>ob. Inr (''v1'', ''Pod''), seIsRuntime = \<lambda>ob. True,
     seMetaKey = \<lambda>ns n. ns @ ''/'' @ n\<rparr>"

abbreviation demo_caches ::
  "((string \<times> MeterDefinitionExtended) list, (string \<times> MeterDefinitionEnhancedObject) list) caches" where
  "demo_caches \<equiv> (alist_cache, alist_cache)"

definition demo_dict :: "(string \<times> MeterDefinitionExtended) list" where
  "demo_dict = [(''shop/dbs'', \<lparr>mxMeterDefinition = demo_mdef, mxFilter = demo_lookup\<rparr>)]"

definition demo_item :: MeterDefinitionEnhancedObject where
  "demo_item = \<lparr>enObject = demo_pod, enMeterDefinitions = [demo_mdef]\<rparr>"

definition demo_objects :: "(string \<times> MeterDefinitionEnhancedObject) list object_store" where
  "demo_objects = \<lparr>osIndex = [(''v1/Pod:shop/db-0'', demo_item)], osDelta = [(Added, demo_item)]\<rparr>"

lemma demo_key: "GVKNamespaceKeyFunc demo_store_env demo_pod = Inr ''v1/Pod:shop/db-0''"
  by (simp add: GVKNamespaceKeyFunc_def demo_store_env_def demo_pod_def)

lemma demo_seFilter: "seFilter demo_store_env = demo_env"
  by (simp add: demo_store_env_def)

lemma demo_find:
  "FindObjectMatches demo_store_env alist_cache demo_dict (MetaObj demo_pod) = Inr [demo_lookup]"
  "FindObjectMatches demo_store_env alist_cache [] (MetaObj demo_pod) = Inr []"
  by (simp_all add: FindObjectMatches_def ListFilters_def demo_dict_def alist_cache_def demo_store_env_def demo_Matches)

lemma demo_addObj:
  "addObj demo_store_env demo_caches demo_dict (ObjArg demo_pod) = Inr demo_item"
  "addObj demo_store_env demo_caches [] (ObjArg demo_pod) = Inr (demo_item\<lparr>enMeterDefinitions := []\<rparr>)"
  by (simp_all add: addObj_def EnhancedObjectKeyFunc_def demo_key demo_find demo_item_def demo_lookup_def)

lemma demo_store_Add:
  "mstore_Add demo_store_env demo_caches demo_dict (ObjArg demo_pod) \<lparr>osIndex = [], osDelta = []\<rparr> = (demo_objects, None)"
  by (simp add: mstore_Add_def demo_addObj delta_call_def index_Add_def demo_key demo_item_def demo_objects_def)
    (simp add: alist_cache_def)

lemma demo_objects_reachable: "store_reachable demo_store_env demo_caches demo_objects"
proof -
  have "store_reachable demo_store_env demo_caches \<lparr>osIndex = [], osDelta = []\<rparr>"
    by (rule store_init) (simp add: alist_cache_def)
  then show ?thesis using store_step.step_Add [OF demo_store_Add] by (rule store_next)
qed

lemma demo_keys_ok: "keys_ok demo_store_env (snd demo_caches) demo_objects"
  by (simp add: keys_ok_def demo_objects_def alist_cache_def demo_item_def demo_key)

lemma demo_laws: "cache_laws (fst demo_caches)" "cache_laws (snd demo_caches)"
  by (simp_all add: alist_cache_laws)

lemma demo_get: "caGet (snd demo_caches) (osIndex demo_objects) = [''v1/Pod:shop/db-0'' \<mapsto> demo_item]"
  by (simp add: demo_objects_def alist_cache_def)

text \<open>The store after the definition has gone and its item was matched again.\<close>

definition demo_rematched :: "(string \<times> MeterDefinitionEnhancedObject) list object_store" where
  "demo_rematched = \<lparr>osIndex = (''v1/Pod:shop/db-0'', demo_item\<lparr>enMeterDefinitions := []\<rparr>) # osIndex demo_objects,
     osDelta = osDelta demo_objects @ [(Deleted, demo_item\<lparr>enMeterDefinitions := []\<rparr>)]\<rparr>"

lemma demo_rematch: "rematch demo_store_env demo_caches [] [demo_item] demo_objects = (demo_rematched, None)"
proof -
  have "enObject demo_item = demo_pod" by (simp add: demo_item_def)
  then show ?thesis
    by (simp add: demo_addObj emit_and_index_ok demo_key emit_type_def demo_rematched_def demo_objects_def)
      (simp add: alist_cache_def)
qed

lemma demo_def_key: "def_key demo_store_env demo_mdef = ''shop/dbs''"
  by (simp add: def_key_def demo_store_env_def demo_mdef_def)

lemma demo_Resync: "mstore_Resync demo_store_env demo_caches [] demo_objects = (demo_rematched, None)"
  using demo_rematch by (simp add: mstore_Resync_def alist_cache_def demo_objects_def)

lemma demo_Sync:
  "mstore_SyncByIndex demo_store_env demo_caches [] IndexMeterDefinition ''shop/dbs'' demo_objects = (demo_rematched, None)"
  using demo_rematch
  by (simp add: mstore_SyncByIndex_def store_indexers_def alist_cache_def demo_objects_def MeterDefinitionIndexFunc_def
      demo_def_key demo_item_def)

section \<open>Properties\<close>

text \<open>
  C7: the queue tracks the index. In every state the operations of the store can reach,
  whatever happened to the dictionary meanwhile, an item is indexed under the key of its
  object; when it matches some definition the last delta queued for its key announces
  exactly this item, and when the key has no item the last delta for it, if any, announced
  a deletion.
\<close>

theorem queue_tracks_index:
  assumes "store_reachable E C s" "cache_laws (snd C)"
  shows "(\<forall>k m. caGet (snd C) (osIndex s) k = Some m \<longrightarrow> GVKNamespaceKeyFunc E (enObject m) = Inr k \<and>
      (enMeterDefinitions m \<noteq> [] \<longrightarrow> last_delta E k (osDelta s) = Some (Added, m))) \<and>
    (\<forall>k t m. caGet (snd C) (osIndex s) k = None \<longrightarrow> last_delta E k (osDelta s) = Some (t, m) \<longrightarrow> t = Deleted)"
  using store_reachable_ok [OF assms]
  by (fastforce simp: store_ok_def keys_ok_def queue_ok_def tracks_def split: option.splits)

theorem queue_tracks_index_witness:
  "last_delta demo_store_env ''v1/Pod:shop/db-0'' (osDelta demo_objects) = Some (Added, demo_item)"
  using queue_tracks_index [OF demo_objects_reachable demo_laws(2), unfolded demo_get]
  by (simp add: demo_item_def)

text \<open>
  A resync without error keeps the objects and gives each of them exactly the
  definitions of the dictionary that match it now, and queues each item once more,
  announced when it matches and deleted when it does not.
\<close>

theorem Resync_refreshes:
  assumes "cache_laws (snd C)" "keys_ok E (snd C) s" "mstore_Resync E C d s = (s', None)"
  shows "dom (caGet (snd C) (osIndex s')) = dom (caGet (snd C) (osIndex s)) \<and>
    (\<forall>k m. caGet (snd C) (osIndex s) k = Some m \<longrightarrow>
       (\<exists>m'. caGet (snd C) (osIndex s') k = Some m' \<and> enObject m' = enObject m \<and> entry_matches E C d m')) \<and>
    (\<exists>ms. osDelta s' = osDelta s @ map (\<lambda>m. (if enMeterDefinitions m \<noteq> [] then Added else Deleted, m)) ms \<and>
       map enObject ms = map enObject (caList (snd C) (osIndex s)) \<and> (\<forall>m\<in>set ms. entry_matches E C d m))"
proof -
  let ?get = "\<lambda>s. caGet (snd C) (osIndex s)"
  have r: "rematch E C d (caList (snd C) (osIndex s)) s = (s', None)" using assms(3) by (simp add: mstore_Resync_def)
  have all: "set (caList (snd C) (osIndex s)) = ran (?get s)" using assms(1) by (simp add: cache_laws_def)
  note entries = rematch_entries [OF r assms(1,2) equalityD1 [OF all]]
  have one: "\<exists>m'. ?get s' k = Some m' \<and> enObject m' = enObject m \<and> entry_matches E C d m'"
    if "?get s k = Some m" for k m
    using entries(3) [OF that] that all addObj_entry_matches by (metis ranI)
  moreover have "dom (?get s') = dom (?get s)" using entries(1) one by fastforce
  moreover obtain ms where ms:
    "list_all2 (\<lambda>ob m. addObj E C d (ObjArg (enObject ob)) = Inr m) (caList (snd C) (osIndex s)) ms"
    "osDelta s' = osDelta s @ map (\<lambda>m. (emit_type m, m)) ms"
    using rematch_result [OF r assms(1)] by blast
  moreover from ms(1) have "map enObject ms = map enObject (caList (snd C) (osIndex s))"
    by (induction rule: list_all2_induct) (auto dest: addObj_entry_matches)
  moreover have "\<forall>m\<in>set ms. entry_matches E C d m"
    using list_all2_right [OF ms(1)] addObj_entry_matches [of E C d] by blast
  ultimately show ?thesis by (auto simp: emit_type_def)
qed

theorem Resync_refreshes_witness:
  "dom (caGet (snd demo_caches) (osIndex demo_rematched)) = {''v1/Pod:shop/db-0''}"
  using Resync_refreshes [OF demo_laws(2) demo_keys_ok demo_Resync, unfolded demo_get] by simp

text \<open>
  A deleted definition is forgotten. After a definition was deleted from the dictionary
  and the items indexed under it were synchronized without error, no item of the store is
  attributed to a definition of that name any more.
\<close>

theorem deleted_definition_forgotten:
  assumes "cache_laws (fst C)" "cache_laws (snd C)" "keys_ok E (snd C) s" "dict_ok E (fst C) (diCache D)"
    and "dict_Delete E (fst C) (DefArg md) D = (D', None)"
    and "mstore_SyncByIndex E C (diCache D') IndexMeterDefinition (def_key E md) s = (s', None)"
    and "caGet (snd C) (osIndex s') k = Some m"
  shows "def_key E md \<notin> set (MeterDefinitionIndexFunc E m)"
proof -
  let ?objs = "caByIndex (snd C) (MeterDefinitionIndexFunc E) (osIndex s) (def_key E md)"
  have r: "rematch E C (diCache D') ?objs s = (s', None)"
    using assms(6) by (simp add: mstore_SyncByIndex_def store_indexers_def)
  have objs: "set ?objs = {v \<in> ran (caGet (snd C) (osIndex s)). def_key E md \<in> set (MeterDefinitionIndexFunc E v)}"
    using assms(2) by (simp add: cache_laws_def)
  note entries = rematch_entries [OF r assms(2,3), unfolded objs]
  have D': "caGet (fst C) (diCache D') = (caGet (fst C) (diCache D))(def_key E md := None)"
    using assms(1,5)
    by (auto simp: dict_Delete_def newMeterDefinitionExtended_def cache_laws_def split: sum.splits)
  then have gone: "caGet (fst C) (diCache D') (def_key E md) = None" and dict: "dict_ok E (fst C) (diCache D')"
    using assms(4) by (auto simp: dict_ok_def)
  obtain ob where ob: "caGet (snd C) (osIndex s) k = Some ob" using entries(1) [of k] assms(7) by fastforce
  show ?thesis
  proof (cases "def_key E md \<in> set (MeterDefinitionIndexFunc E ob)")
    case True
    with entries(3) [OF _ ob] ob assms(7) have "entry_matches E C (diCache D') m"
      using addObj_entry_matches by (fastforce simp: ran_def)
    then show ?thesis
      using matched_definitions_listed [OF assms(1) dict] gone
      by (fastforce simp: entry_matches_def MeterDefinitionIndexFunc_def)
  next
    case False
    then show ?thesis using entries(2) [OF _ ob] assms(7) by auto
  qed
qed


theorem deleted_definition_forgotten_witness:
  "def_key demo_store_env demo_mdef \<notin> set (MeterDefinitionIndexFunc demo_store_env (demo_item\<lparr>enMeterDefinitions := []\<rparr>))"
proof (rule deleted_definition_forgotten [OF demo_laws demo_keys_ok])
  let ?D = "\<lparr>diCache = demo_dict, diDelta = []\<rparr>"
  show "dict_ok demo_store_env (fst demo_caches) (diCache ?D)"
    by (simp add: dict_ok_def demo_dict_def alist_cache_def demo_def_key demo_lookup_def)
  show "dict_Delete demo_store_env (fst demo_caches) (DefArg demo_mdef) ?D =
      (\<lparr>diCache = [], diDelta = [(Deleted, [\<lparr>mxMeterDefinition = demo_mdef, mxFilter = demo_lookup\<rparr>])]\<rparr>, None)"
    by (simp add: dict_Delete_def newMeterDefinitionExtended_def demo_dict_def alist_cache_def demo_def_key)
      (simp add: demo_lookup_New demo_seFilter demo_def_key)
  show "mstore_SyncByIndex demo_store_env demo_caches
      (diCache \<lparr>diCache = [], diDelta = [(Deleted, [\<lparr>mxMeterDefinition = demo_mdef, mxFilter = demo_lookup\<rparr>])]\<rparr>)
      IndexMeterDefinition (def_key demo_store_env demo_mdef) demo_objects = (demo_rematched, None)"
    using demo_Sync by (simp add: demo_def_key)
  show "caGet (snd demo_caches) (osIndex demo_rematched) ''v1/Pod:shop/db-0'' = Some (demo_item\<lparr>enMeterDefinitions := []\<rparr>)"
    by (simp add: demo_rematched_def alist_cache_def)
qed

end
