(* ===== verification/MeterMetrics.thy ===== *)
theory MeterMetrics
  imports MeterStores
begin

text \<open>
  The metrics the metering service exposes (\<open>metering/v2/internal/metrics\<close>), the processors
  that keep them (\<open>metering/v2/pkg/processors/prometheus_processor.go\<close>) and the handler
  that serves them (\<open>metering/v2/pkg/server/serve.go\<close>).

  Fields of the typed objects that no other part reads are functions in an environment,
  as is kube-state-metrics' rendering of a metric family. The order in which Go visits a
  map is an argument, and so is the outcome of each write.
\<close>

section \<open>Metric families\<close>

text \<open>A metric; its value is always 1.\<close>

record Metric =
  mtLabelKeys :: "string list"
  mtLabelValues :: "string list"

record metric_env =
  meKey :: "string \<Rightarrow> string \<Rightarrow> string"
  mePriorityClass :: "k8s_object \<Rightarrow> string"
  meClusterIP :: "k8s_object \<Rightarrow> string"
  meExternalName :: "k8s_object \<Rightarrow> string"
  meLoadBalancerIP :: "k8s_object \<Rightarrow> string"
  mePhase :: "k8s_object \<Rightarrow> string"
  meByteSlice :: "string \<Rightarrow> Metric list \<Rightarrow> bytes"

definition GetMeterDefLabelsKeys :: "MeterDefinition \<Rightarrow> string list \<times> string list" where
  "GetMeterDefLabelsKeys mdef =
     ([''meter_def_name'', ''meter_def_namespace'', ''meter_def_group'', ''meter_kind''],
      [mdfName mdef, mdfNamespace mdef, mdfGroup mdef, mdfKind mdef])"

fun GetAllMeterLabelsKeys :: "MeterDefinition list \<Rightarrow> string list \<times> string list" where
  "GetAllMeterLabelsKeys [] = ([], [])"
| "GetAllMeterLabelsKeys (mdef # mdefs) =
     (let (ks, vs) = GetMeterDefLabelsKeys mdef; (ks', vs') = GetAllMeterLabelsKeys mdefs in (ks @ ks', vs @ vs'))"

definition MapMeterDefinitions :: "Metric list \<Rightarrow> MeterDefinition list \<Rightarrow> Metric list" where
  "MapMeterDefinitions metrics mdefs =
     (if length mdefs = 0 then metrics
      else
        concat (map (\<lambda>m. map (\<lambda>mdef.
          \<lparr>mtLabelKeys = mtLabelKeys m @ fst (GetMeterDefLabelsKeys mdef),
           mtLabelValues = mtLabelValues m @ snd (GetMeterDefLabelsKeys mdef)\<rparr>) mdefs) metrics))"

definition wrapObject ::
  "string list \<Rightarrow> (k8s_object \<Rightarrow> Metric list) \<Rightarrow> k8s_object \<Rightarrow> MeterDefinition list \<Rightarrow> Metric list" where
  "wrapObject labels f ob mdefs =
     MapMeterDefinitions
       (map (\<lambda>m. \<lparr>mtLabelKeys = labels @ mtLabelKeys m,
                  mtLabelValues = [obNamespace ob, obName ob] @ mtLabelValues m\<rparr>) (f ob)) mdefs"

record FamilyGenerator =
  fgName :: string
  fgType :: string
  fgHelp :: string
  fgGenerate :: "k8s_object \<Rightarrow> MeterDefinition list \<Rightarrow> Metric list"

definition podMetricsFamilies :: "metric_env \<Rightarrow> FamilyGenerator list" where
  "podMetricsFamilies E =
     [\<lparr>fgName = ''meterdef_pod_info'', fgType = ''gauge'', fgHelp = ''Metering info for pod'',
       fgGenerate = wrapObject [''namespace'', ''pod'']
         (\<lambda>pod. [\<lparr>mtLabelKeys = [''pod_uid'', ''priority_class''], mtLabelValues = [obUID pod, mePriorityClass E pod]\<rparr>])\<rparr>]"

definition serviceMetricsFamilies :: "metric_env \<Rightarrow> FamilyGenerator list" where
  "serviceMetricsFamilies E =
     [\<lparr>fgName = ''meterdef_service_info'', fgType = ''gauge'',
       fgHelp = ''Info about the service for servicemonitor'',
       fgGenerate = wrapObject [''namespace'', ''service'']
         (\<lambda>s. [\<lparr>mtLabelKeys = [''cluster_ip'', ''external_name'', ''load_balancer_ip''],
                mtLabelValues = [meClusterIP E s, meExternalName E s, meLoadBalancerIP E s]\<rparr>])\<rparr>]"

definition pvcMetricsFamilies :: "metric_env \<Rightarrow> FamilyGenerator list" where
  "pvcMetricsFamilies E =
     [\<lparr>fgName = ''meterdef_persistentvolumeclaim_info'', fgType = ''gauge'',
       fgHelp = ''Metering info for persistentvolumeclaim'',
       fgGenerate = wrapObject [''namespace'', ''persistentvolumeclaim'']
         (\<lambda>pvc. [\<lparr>mtLabelKeys = [''phase''], mtLabelValues = [mePhase E pvc]\<rparr>])\<rparr>]"

definition generateHeader :: "FamilyGenerator \<Rightarrow> string" where
  "generateHeader g =
     ''# HELP '' @ fgName g @ '' '' @ fgHelp g @ [CHR 0x0A] @ ''# TYPE '' @ fgName g @ '' '' @ fgType g"

definition ExtractMetricFamilyHeaders :: "FamilyGenerator list \<Rightarrow> string list" where
  "ExtractMetricFamilyHeaders families = map generateHeader families"

definition ComposeMetricGenFuncs ::
  "metric_env \<Rightarrow> FamilyGenerator list \<Rightarrow> k8s_object \<Rightarrow> MeterDefinition list \<Rightarrow> bytes list" where
  "ComposeMetricGenFuncs E gens ob mdefs = map (\<lambda>g. meByteSlice E (fgName g) (fgGenerate g ob mdefs)) gens"

section \<open>Data maps\<close>

record PrometheusDataMap =
  pmExpectedType :: go_type
  pmHeaders :: "string list"
  pmGenerate :: "k8s_object \<Rightarrow> MeterDefinition list \<Rightarrow> bytes list"
  pmMetrics :: "string \<rightharpoonup> bytes list"

definition provide_map :: "metric_env \<Rightarrow> go_type \<Rightarrow> FamilyGenerator list \<Rightarrow> PrometheusDataMap" where
  "provide_map E t gens = \<lparr>pmExpectedType = t, pmHeaders = ExtractMetricFamilyHeaders gens,
     pmGenerate = ComposeMetricGenFuncs E gens, pmMetrics = Map.empty\<rparr>"

definition ProvidePodPrometheusData :: "metric_env \<Rightarrow> PrometheusDataMap" where
  "ProvidePodPrometheusData E = provide_map E TPod (podMetricsFamilies E)"

definition ProvideServicePrometheusData :: "metric_env \<Rightarrow> PrometheusDataMap" where
  "ProvideServicePrometheusData E = provide_map E TService (serviceMetricsFamilies E)"

definition ProvidePersistentVolumeClaimPrometheusData :: "metric_env \<Rightarrow> PrometheusDataMap" where
  "ProvidePersistentVolumeClaimPrometheusData E = provide_map E TPersistentVolumeClaim (pvcMetricsFamilies E)"

definition IsExpectedType :: "k8s_object \<Rightarrow> PrometheusDataMap \<Rightarrow> bool" where
  "IsExpectedType ob dm \<longleftrightarrow> obType ob = pmExpectedType dm"

definition prom_key :: "metric_env \<Rightarrow> k8s_object \<Rightarrow> string" where
  "prom_key E ob = meKey E (obNamespace ob) (obName ob)"

definition map_Remove :: "metric_env \<Rightarrow> k8s_object \<Rightarrow> PrometheusDataMap \<Rightarrow> PrometheusDataMap" where
  "map_Remove E ob dm = dm\<lparr>pmMetrics := (pmMetrics dm)(prom_key E ob := None)\<rparr>"

definition map_Add ::
  "metric_env \<Rightarrow> k8s_object \<Rightarrow> MeterDefinition list \<Rightarrow> PrometheusDataMap \<Rightarrow> PrometheusDataMap \<times> go_error option" where
  "map_Add E ob meterdefs dm =
     (if \<not> IsExpectedType ob dm then (dm, Some (Err ''unexpected type''))
      else (dm\<lparr>pmMetrics := (pmMetrics dm)(prom_key E ob \<mapsto> pmGenerate dm ob meterdefs)\<rparr>, None))"

type_synonym data_maps = "string \<rightharpoonup> PrometheusDataMap"

text \<open>\<open>names\<close> is the order in which the data maps are visited.\<close>

fun prom_Add_loop ::
  "metric_env \<Rightarrow> k8s_object \<Rightarrow> MeterDefinition list \<Rightarrow> string list \<Rightarrow> bool \<Rightarrow> data_maps \<Rightarrow> data_maps \<times> go_error option" where
  "prom_Add_loop E ob mdefs [] foundOne ds =
     (ds, if foundOne then None else Some (Err ''expected type not found''))"
| "prom_Add_loop E ob mdefs (k # ks) foundOne ds =
     (case ds k of
        None \<Rightarrow> prom_Add_loop E ob mdefs ks foundOne ds
      | Some dm \<Rightarrow>
          (if IsExpectedType ob dm then
             (case map_Add E ob mdefs dm of
                (dm', Some err) \<Rightarrow> (ds(k \<mapsto> dm'), Some err)
              | (dm', None) \<Rightarrow> prom_Add_loop E ob mdefs ks True (ds(k \<mapsto> dm')))
           else prom_Add_loop E ob mdefs ks foundOne ds))"

definition prom_Add ::
  "metric_env \<Rightarrow> string list \<Rightarrow> k8s_object \<Rightarrow> MeterDefinition list \<Rightarrow> data_maps \<Rightarrow> data_maps \<times> go_error option" where
  "prom_Add E names ob mdefs ds = prom_Add_loop E ob mdefs names False ds"

fun prom_Remove :: "metric_env \<Rightarrow> string list \<Rightarrow> k8s_object \<Rightarrow> data_maps \<Rightarrow> data_maps" where
  "prom_Remove E [] ob ds = ds"
| "prom_Remove E (k # ks) ob ds =
     (case ds k of
        None \<Rightarrow> prom_Remove E ks ob ds
      | Some dm \<Rightarrow>
          (if IsExpectedType ob dm then prom_Remove E ks ob (ds(k \<mapsto> map_Remove E ob dm))
           else prom_Remove E ks ob ds))"

section \<open>The processor\<close>

text \<open>\<open>None\<close> is a nil object, \<open>Some (Inl t)\<close> one of another type than the store's items.\<close>

definition prom_Process ::
  "metric_env \<Rightarrow> string list \<Rightarrow> delta_type \<times> (go_type + MeterDefinitionEnhancedObject) option \<Rightarrow> data_maps \<Rightarrow>
     data_maps \<times> go_error option" where
  "prom_Process E names delta ds =
     (case snd delta of
        None \<Rightarrow> (ds, None)
      | Some (Inl t) \<Rightarrow> (ds, None)
      | Some (Inr obj) \<Rightarrow>
          (case fst delta of
             Deleted \<Rightarrow> (prom_Remove E names (enObject obj) ds, None)
           | _ \<Rightarrow> prom_Add E names (enObject obj) (enMeterDefinitions obj) ds))"

section \<open>Serving\<close>

text \<open>\<open>wr\<close> decides each write from what was written before it.\<close>

type_synonym writer = "bytes list \<Rightarrow> bytes \<Rightarrow> go_error option"

definition write_to :: "writer \<Rightarrow> bytes \<Rightarrow> bytes list \<Rightarrow> bytes list \<times> go_error option" where
  "write_to wr b out = (case wr out b of Some err \<Rightarrow> (out, Some err) | None \<Rightarrow> (out @ [b], None))"

fun write_all :: "writer \<Rightarrow> bytes list \<Rightarrow> bytes list \<Rightarrow> bytes list \<times> go_error option" where
  "write_all wr [] out = (out, None)"
| "write_all wr (b # bs) out =
     (case write_to wr b out of (out', Some err) \<Rightarrow> (out', Some err) | (out', None) \<Rightarrow> write_all wr bs out')"

text \<open>
  The chunks a data map writes: per header the header, a newline and the family of every
  object, in the visiting order \<open>mo i\<close> of the \<open>i\<close>-th pass over the objects.
\<close>

definition map_chunks :: "(nat \<Rightarrow> string list) \<Rightarrow> PrometheusDataMap \<Rightarrow> bytes list" where
  "map_chunks mo dm =
     concat (map (\<lambda>(i, help). [help, [CHR 0x0A]] @
         map (\<lambda>k. (case pmMetrics dm k of None \<Rightarrow> [] | Some fams \<Rightarrow> fams ! i)) (mo i))
       (enumerate 0 (pmHeaders dm)))"

definition map_WriteAll ::
  "writer \<Rightarrow> (nat \<Rightarrow> string list) \<Rightarrow> PrometheusDataMap \<Rightarrow> bytes list \<Rightarrow> bytes list \<times> go_error option" where
  "map_WriteAll wr mo dm out = write_all wr (map_chunks mo dm) out"

record PrometheusData =
  pdDataMap :: data_maps
  pdOrderedLabels :: "string list"

text \<open>The names are sorted once and kept; \<open>names\<close> is the visiting order of the data maps.\<close>

definition ordered_labels :: "string list \<Rightarrow> PrometheusData \<Rightarrow> string list" where
  "ordered_labels names p =
     (if length (pdOrderedLabels p) \<noteq> length names then sort names else pdOrderedLabels p)"

fun prom_WriteAll_loop ::
  "writer \<Rightarrow> (string \<Rightarrow> nat \<Rightarrow> string list) \<Rightarrow> data_maps \<Rightarrow> string list \<Rightarrow> bytes list \<Rightarrow> bytes list \<times> go_error option" where
  "prom_WriteAll_loop wr mo ds [] out = (out, None)"
| "prom_WriteAll_loop wr mo ds (k # ks) out =
     (case ds k of
        None \<Rightarrow> (out, Some (Panic ''nil data map''))
      | Some dm \<Rightarrow>
          (case map_WriteAll wr (mo k) dm out of
             (out', Some err) \<Rightarrow> (out', Some err)
           | (out', None) \<Rightarrow> prom_WriteAll_loop wr mo ds ks out'))"

definition prom_WriteAll ::
  "writer \<Rightarrow> string list \<Rightarrow> (string \<Rightarrow> nat \<Rightarrow> string list) \<Rightarrow> PrometheusData \<Rightarrow> bytes list \<Rightarrow>
     PrometheusData \<times> bytes list \<times> go_error option" where
  "prom_WriteAll wr names mo p out =
     (let labels = ordered_labels names p
      in (p\<lparr>pdOrderedLabels := labels\<rparr>, prom_WriteAll_loop wr mo (pdDataMap p) labels out))"

definition accepts_gzip :: "string \<Rightarrow> bool" where
  "accepts_gzip part \<longleftrightarrow> (let p = TrimSpace part in p = ''gzip'' \<or> take 5 p = ''gzip;'')"

text \<open>
  The reply: its content encoding and its body. The metrics go to the response itself; a
  gzip writer made around it is only closed, which makes it write \<open>closing n\<close> for \<open>n\<close>
  writers made around each other. An error of \<open>WriteAll\<close> is only logged.
\<close>

definition metrics_ServeHTTP ::
  "writer \<Rightarrow> string list \<Rightarrow> (string \<Rightarrow> nat \<Rightarrow> string list) \<Rightarrow> (nat \<Rightarrow> bytes) \<Rightarrow> bool \<Rightarrow> string \<Rightarrow> PrometheusData \<Rightarrow>
     PrometheusData \<times> string option \<times> bytes list" where
  "metrics_ServeHTTP wr names mo closing enableGZIPEncoding acceptEncoding p =
     (let n = (if enableGZIPEncoding then length (filter accepts_gzip (split_on (CHR '','') acceptEncoding)) else 0);
          (p', written, err) = prom_WriteAll wr names mo p []
      in (p', if n > 0 then Some ''gzip'' else None, written @ (if n > 0 then [closing n] else [])))"

section \<open>Series\<close>

lemma length_MapMeterDefinitions:
  "length (MapMeterDefinitions ms mdefs) = (if mdefs = [] then length ms else length ms * length mdefs)"
  by (auto simp: MapMeterDefinitions_def length_concat o_def sum_list_triv)

lemma MapMeterDefinitions_single:
  "MapMeterDefinitions [m] mdefs =
     (if mdefs = [] then [m]
      else map (\<lambda>mdef. \<lparr>mtLabelKeys = mtLabelKeys m @ fst (GetMeterDefLabelsKeys mdef),
                        mtLabelValues = mtLabelValues m @ snd (GetMeterDefLabelsKeys mdef)\<rparr>) mdefs)"
  by (simp add: MapMeterDefinitions_def)

definition workload_families :: "metric_env \<Rightarrow> FamilyGenerator list" where
  "workload_families E = podMetricsFamilies E @ serviceMetricsFamilies E @ pvcMetricsFamilies E"

lemmas workload_families_defs =
  workload_families_def podMetricsFamilies_def serviceMetricsFamilies_def pvcMetricsFamilies_def

text \<open>Every family has one base metric, which starts with the namespace and name of the object.\<close>

lemma workload_family_base:
  assumes "g \<in> set (workload_families E)"
  obtains kind ks vs where "fgGenerate g = wrapObject [''namespace'', kind] (\<lambda>ob. [\<lparr>mtLabelKeys = ks, mtLabelValues = vs ob\<rparr>])"
    and "\<And>ob. length (vs ob) = length ks"
proof -
  from assms consider "g = hd (podMetricsFamilies E)" | "g = hd (serviceMetricsFamilies E)" | "g = hd (pvcMetricsFamilies E)"
    by (auto simp: workload_families_defs)
  then show ?thesis
    by cases (rule that, simp add: workload_families_defs, simp)+
qed

lemma workload_series:
  assumes "g \<in> set (workload_families E)"
  shows "\<exists>ks vs. length ks = length vs \<and> take 2 vs = [obNamespace ob, obName ob] \<and>
    fgGenerate g ob mdefs = MapMeterDefinitions [\<lparr>mtLabelKeys = ks, mtLabelValues = vs\<rparr>] mdefs"
proof -
  obtain kind ks vs where "fgGenerate g = wrapObject [''namespace'', kind] (\<lambda>ob. [\<lparr>mtLabelKeys = ks, mtLabelValues = vs ob\<rparr>])"
    and "\<And>ob. length (vs ob) = length ks"
    using workload_family_base [OF assms] by blast
  then show ?thesis
    by (intro exI [of _ "[''namespace'', kind] @ ks"] exI [of _ "[obNamespace ob, obName ob] @ vs ob"])
      (simp add: wrapObject_def)
qed

section \<open>Data maps under deltas\<close>

text \<open>The effect of a delta on the data map of one type.\<close>

definition map_delta ::
  "metric_env \<Rightarrow> delta_type \<times> MeterDefinitionEnhancedObject \<Rightarrow> PrometheusDataMap \<Rightarrow> PrometheusDataMap" where
  "map_delta E = (\<lambda>(t, m) dm.
     if IsExpectedType (enObject m) dm then
       dm\<lparr>pmMetrics := (pmMetrics dm)(prom_key E (enObject m) :=
            (if t = Deleted then None else Some (pmGenerate dm (enObject m) (enMeterDefinitions m))))\<rparr>
     else dm)"

lemma prom_Add_loop_at:
  "distinct names \<Longrightarrow>
     fst (prom_Add_loop E ob mdefs names found ds) n =
       map_option (\<lambda>dm. if n \<in> set names \<and> IsExpectedType ob dm then fst (map_Add E ob mdefs dm) else dm) (ds n)"
proof (induction names arbitrary: found ds)
  case (Cons a names)
  then show ?case by (cases "n = a") (auto simp: map_Add_def split: option.splits)
qed (simp add: option.map_ident)

lemma prom_Remove_at:
  "distinct names \<Longrightarrow>
     prom_Remove E names ob ds n =
       map_option (\<lambda>dm. if n \<in> set names \<and> IsExpectedType ob dm then map_Remove E ob dm else dm) (ds n)"
proof (induction names arbitrary: ds)
  case (Cons a names)
  then show ?case by (cases "n = a") (auto split: option.splits)
qed (simp add: option.map_ident)

lemma prom_Process_at:
  assumes "distinct names" "n \<in> set names"
  shows "fst (prom_Process E names (t, Some (Inr m)) ds) n = map_option (map_delta E (t, m)) (ds n)"
  using assms
  by (cases "ds n"; cases t)
    (auto simp: prom_Process_def prom_Add_def prom_Add_loop_at prom_Remove_at map_delta_def map_Add_def map_Remove_def)

definition prom_run ::
  "metric_env \<Rightarrow> string list \<Rightarrow> (delta_type \<times> MeterDefinitionEnhancedObject) list \<Rightarrow> data_maps \<Rightarrow> data_maps" where
  "prom_run E names deltas ds = fold (\<lambda>(t, m) ds. fst (prom_Process E names (t, Some (Inr m)) ds)) deltas ds"

lemma prom_run_at:
  assumes "distinct names" "n \<in> set names"
  shows "prom_run E names deltas ds n = map_option (fold (map_delta E) deltas) (ds n)"
  unfolding prom_run_def
  by (induction deltas arbitrary: ds) (auto simp: prom_Process_at [OF assms] option.map_comp o_def option.map_ident id_def)

lemma map_delta_fixed [simp]:
  "pmExpectedType (map_delta E d dm) = pmExpectedType dm" "pmGenerate (map_delta E d dm) = pmGenerate dm"
  by (auto simp: map_delta_def split: prod.splits)

lemma map_deltas_fixed [simp]:
  "pmExpectedType (fold (map_delta E) ds dm) = pmExpectedType dm" "pmGenerate (fold (map_delta E) ds dm) = pmGenerate dm"
  by (induction ds arbitrary: dm) simp_all

text \<open>The metrics under a key are those of the last delta for it.\<close>

lemma map_deltas_metrics:
  assumes "pmMetrics dm = Map.empty"
  shows "pmMetrics (fold (map_delta E) deltas dm) key =
    (case find (\<lambda>(t, m). obType (enObject m) = pmExpectedType dm \<and> prom_key E (enObject m) = key) (rev deltas) of
       None \<Rightarrow> None
     | Some (t, m) \<Rightarrow>
         (if t = Deleted then None else Some (pmGenerate dm (enObject m) (enMeterDefinitions m))))"
proof (induction deltas rule: rev_induct)
  case (snoc d deltas)
  obtain t m where "d = (t, m)" by fastforce
  moreover have "pmMetrics (map_delta E (t, m) dm') =
      (if obType (enObject m) = pmExpectedType dm'
       then (pmMetrics dm')(prom_key E (enObject m) :=
              (if t = Deleted then None else Some (pmGenerate dm' (enObject m) (enMeterDefinitions m))))
       else pmMetrics dm')" for dm'
    by (simp add: map_delta_def IsExpectedType_def)
  ultimately show ?case using snoc by auto
qed (simp add: assms)

text \<open>Two objects of a set have the same key in the store exactly when they have the same type and name.\<close>

definition keys_agree :: "metric_env \<Rightarrow> store_env \<Rightarrow> k8s_object set \<Rightarrow> bool" where
  "keys_agree M E S \<longleftrightarrow>
     (\<forall>a\<in>S. \<forall>b\<in>S. \<forall>k. GVKNamespaceKeyFunc E a = Inr k \<longrightarrow>
        (GVKNamespaceKeyFunc E b = Inr k \<longleftrightarrow> obType b = obType a \<and> prom_key M b = prom_key M a))"

lemma find_cong_set: "(\<And>x. x \<in> set xs \<Longrightarrow> P x = Q x) \<Longrightarrow> find P xs = find Q xs"
  by (induction xs) auto

lemma same_last_delta:
  assumes "keys_agree M E (insert ob (enObject ` snd ` set deltas))" "GVKNamespaceKeyFunc E ob = Inr k"
  shows "find (\<lambda>(t, m). obType (enObject m) = obType ob \<and> prom_key M (enObject m) = prom_key M ob) (rev deltas) =
    last_delta E k deltas"
  unfolding last_delta_def
proof (rule find_cong_set, clarify)
  fix t m assume "(t, m) \<in> set (rev deltas)"
  then have "enObject m \<in> insert ob (enObject ` snd ` set deltas)" by force
  with assms have "(GVKNamespaceKeyFunc E (enObject m) = Inr k) \<longleftrightarrow>
      (obType (enObject m) = obType ob \<and> prom_key M (enObject m) = prom_key M ob)"
    unfolding keys_agree_def by blast
  then show "(obType (enObject m) = obType ob \<and> prom_key M (enObject m) = prom_key M ob) = (item_key E m = Some k)"
    by (auto simp: item_key_def split: sum.splits)
qed

section \<open>A small exposition\<close>

definition demo_metric_env :: metric_env where
  "demo_metric_env = \<lparr>meKey = \<lambda>ns n. ns @ ''/'' @ n, mePriorityClass = \<lambda>ob. [], meClusterIP = \<lambda>ob. [],
     meExternalName = \<lambda>ob. [], meLoadBalancerIP = \<lambda>ob. [], mePhase = \<lambda>ob. [],
     meByteSlice = \<lambda>name ms. name @ concat (concat (map mtLabelValues ms))\<rparr>"

lemma demo_keys_agree:
  "keys_agree demo_metric_env demo_store_env (insert demo_pod (enObject ` snd ` set (osDelta demo_objects)))"
  by (simp add: keys_agree_def demo_objects_def demo_item_def)

section \<open>Properties\<close>

text \<open>
  C30: The series of a workload object. Each workload family yields one series per matching
  definition, in their order, and a single series for an object without one; every series
  has as many label values as label keys, starts with the object's namespace and name, and
  ends with the name, namespace, group and kind of its definition.
\<close>

theorem series_per_definition:
  assumes "g \<in> set (workload_families E)"
  shows "length (fgGenerate g ob mdefs) = (if mdefs = [] then 1 else length mdefs) \<and>
    (\<forall>m \<in> set (fgGenerate g ob mdefs). length (mtLabelKeys m) = length (mtLabelValues m) \<and>
       take 2 (mtLabelValues m) = [obNamespace ob, obName ob]) \<and>
    (\<forall>i < length mdefs. \<exists>ks vs. length ks = length vs \<and>
       mtLabelKeys (fgGenerate g ob mdefs ! i) = ks @ [''meter_def_name'', ''meter_def_namespace'', ''meter_def_group'', ''meter_kind''] \<and>
       mtLabelValues (fgGenerate g ob mdefs ! i) =
         vs @ [mdfName (mdefs ! i), mdfNamespace (mdefs ! i), mdfGroup (mdefs ! i), mdfKind (mdefs ! i)])"
proof -
  obtain ks vs where len: "length ks = length vs" and vs: "take 2 vs = [obNamespace ob, obName ob]"
    and g: "fgGenerate g ob mdefs = MapMeterDefinitions [\<lparr>mtLabelKeys = ks, mtLabelValues = vs\<rparr>] mdefs"
    using workload_series [OF assms, of ob mdefs] by blast
  have "2 \<le> length vs" using arg_cong [OF vs, of length] by simp
  show ?thesis
  proof (cases "mdefs = []")
    case False
    have "\<exists>ks' vs'. length ks' = length vs' \<and>
        mtLabelKeys (fgGenerate g ob mdefs ! i) = ks' @ [''meter_def_name'', ''meter_def_namespace'', ''meter_def_group'', ''meter_kind''] \<and>
        mtLabelValues (fgGenerate g ob mdefs ! i) =
          vs' @ [mdfName (mdefs ! i), mdfNamespace (mdefs ! i), mdfGroup (mdefs ! i), mdfKind (mdefs ! i)]"
      if "i < length mdefs" for i
      using that len False
      by (intro exI [of _ ks] exI [of _ vs])
        (simp add: g MapMeterDefinitions_single GetMeterDefLabelsKeys_def)
    then show ?thesis
      using False len vs \<open>2 \<le> length vs\<close> by (auto simp: g MapMeterDefinitions_single GetMeterDefLabelsKeys_def)
  next
    case True
    then have "fgGenerate g ob mdefs = [\<lparr>mtLabelKeys = ks, mtLabelValues = vs\<rparr>]" using g
      by (simp add: MapMeterDefinitions_single)
    then show ?thesis using True len vs by simp
  qed
qed

theorem series_per_definition_witness:
  "length (fgGenerate (hd (podMetricsFamilies demo_metric_env)) demo_pod [demo_mdef, demo_mdef]) = 2"
  using series_per_definition [of "hd (podMetricsFamilies demo_metric_env)" demo_metric_env demo_pod "[demo_mdef, demo_mdef]"]
  by (simp add: workload_families_defs)

lemma metrics_of_object:
  assumes "keys_agree M E (insert ob (enObject ` snd ` set (osDelta s)))" "GVKNamespaceKeyFunc E ob = Inr k"
    and "distinct names" "n \<in> set names" "ds n = Some dm" "pmExpectedType dm = obType ob" "pmMetrics dm = Map.empty"
  shows "\<exists>dm'. prom_run M names (osDelta s) ds n = Some dm' \<and>
    pmMetrics dm' (prom_key M ob) =
      (case last_delta E k (osDelta s) of None \<Rightarrow> None
       | Some (t, m) \<Rightarrow> (if t = Deleted then None else Some (pmGenerate dm (enObject m) (enMeterDefinitions m))))"
  using prom_run_at [OF assms(3,4), of M "osDelta s" ds] assms(5,6)
    map_deltas_metrics [OF assms(7)] same_last_delta [OF assms(1,2)] by simp

text \<open>
  C6: the exposed metrics follow the store. For every reachable store, once the processor has
  worked off the deltas in order, the data map of a type holds for an object
  nothing when the store does not hold the object, and exactly the families generated
  from the definitions the store has for it when there are any. An object that the store
  holds without a definition has the families of the last item queued for it, unless that
  was its deletion: they are stale when the object was added again and no longer matched.
  The objects seen are taken to have the same key in the store exactly when they have the same
  type, namespace and name in the data map.
\<close>

theorem metrics_follow_index:
  assumes "store_reachable E C s" "cache_laws (snd C)"
    and "keys_agree M E (insert ob (enObject ` snd ` set (osDelta s)))" "GVKNamespaceKeyFunc E ob = Inr k"
    and "distinct names" "n \<in> set names" "ds n = Some dm" "pmExpectedType dm = obType ob" "pmMetrics dm = Map.empty"
  shows "\<exists>dm'. prom_run M names (osDelta s) ds n = Some dm' \<and>
    pmMetrics dm' (prom_key M ob) =
      (case caGet (snd C) (osIndex s) k of
         None \<Rightarrow> None
       | Some m \<Rightarrow>
           (if enMeterDefinitions m \<noteq> [] then Some (pmGenerate dm (enObject m) (enMeterDefinitions m))
            else
              (case last_delta E k (osDelta s) of
                 None \<Rightarrow> None
               | Some (t, m') \<Rightarrow>
                   (if t = Deleted then None else Some (pmGenerate dm (enObject m') (enMeterDefinitions m'))))))"
proof -
  have "tracks (last_delta E k (osDelta s)) (caGet (snd C) (osIndex s) k)"
    using store_reachable_ok [OF assms(1,2)] by (simp add: store_ok_def queue_ok_def)
  then show ?thesis
    using metrics_of_object [where n = n and ds = ds, OF assms(3-)] by (auto simp: tracks_def split: option.splits prod.splits)
qed

theorem metrics_follow_index_witness:
  "\<exists>dm'. prom_run demo_metric_env [''pod''] (osDelta demo_objects) [''pod'' \<mapsto> ProvidePodPrometheusData demo_metric_env] ''pod''
      = Some dm' \<and> pmMetrics dm' (prom_key demo_metric_env demo_pod) =
        Some (pmGenerate (ProvidePodPrometheusData demo_metric_env) demo_pod [demo_mdef])"
  using metrics_follow_index [OF demo_objects_reachable demo_laws(2) demo_keys_agree demo_key, of "[''pod'']" "''pod''"
      "[''pod'' \<mapsto> ProvidePodPrometheusData demo_metric_env]" "ProvidePodPrometheusData demo_metric_env", unfolded demo_get]
  by (auto simp: ProvidePodPrometheusData_def provide_map_def demo_pod_def demo_item_def)

text \<open>
  Adding an object that the store already has and that no definition matches any more queues
  nothing, unlike an update or a resync, which queue its deletion: the data maps keep the
  families of the definitions it matched before.
\<close>

theorem readded_object_keeps_families:
  assumes "store_reachable E C s" "cache_laws (snd C)"
    and "keys_agree M E (insert ob (enObject ` snd ` set (osDelta s)))" "GVKNamespaceKeyFunc E ob = Inr k"
    and "distinct names" "n \<in> set names" "ds n = Some dm" "pmExpectedType dm = obType ob" "pmMetrics dm = Map.empty"
    and "caGet (snd C) (osIndex s) k = Some m" "enMeterDefinitions m \<noteq> []"
    and "FindObjectMatches E (fst C) d (MetaObj ob) = Inr []"
  shows "\<exists>s' dm'. mstore_Add E C d (ObjArg ob) s = (s', None) \<and>
    caGet (snd C) (osIndex s') k = Some \<lparr>enObject = ob, enMeterDefinitions = []\<rparr> \<and>
    prom_run M names (osDelta s') ds n = Some dm' \<and>
    pmMetrics dm' (prom_key M ob) = Some (pmGenerate dm (enObject m) (enMeterDefinitions m))"
proof -
  let ?m = "\<lparr>enObject = ob, enMeterDefinitions = []\<rparr>" and ?s' = "s\<lparr>osIndex := caAdd (snd C) k \<lparr>enObject = ob, enMeterDefinitions = []\<rparr> (osIndex s)\<rparr>"
  have "addObj E C d (ObjArg ob) = Inr ?m" using assms(4,12) by (simp add: addObj_ObjArg)
  then have "mstore_Add E C d (ObjArg ob) s = (?s', None)"
    using assms(4) by (simp add: mstore_Add_def index_Add_def)
  moreover have "caGet (snd C) (osIndex ?s') k = Some ?m" using assms(2) by (simp add: cache_laws_def)
  moreover have "tracks (last_delta E k (osDelta s)) (Some m)"
    using store_reachable_ok [OF assms(1,2)] assms(10) unfolding store_ok_def queue_ok_def by metis
  then have "last_delta E k (osDelta s) = Some (Added, m)" using assms(11) by (simp add: tracks_def)
  ultimately show ?thesis using metrics_of_object [where n = n and ds = ds, OF assms(3-9)] by fastforce
qed

theorem readded_object_keeps_families_witness:
  "\<exists>s' dm'. mstore_Add demo_store_env demo_caches [] (ObjArg demo_pod) demo_objects = (s', None) \<and>
     caGet (snd demo_caches) (osIndex s') ''v1/Pod:shop/db-0'' = Some \<lparr>enObject = demo_pod, enMeterDefinitions = []\<rparr> \<and>
     prom_run demo_metric_env [''pod''] (osDelta s') [''pod'' \<mapsto> ProvidePodPrometheusData demo_metric_env] ''pod'' = Some dm' \<and>
     pmMetrics dm' (prom_key demo_metric_env demo_pod) =
       Some (pmGenerate (ProvidePodPrometheusData demo_metric_env) (enObject demo_item) (enMeterDefinitions demo_item))"
  by (rule readded_object_keeps_families [OF demo_objects_reachable demo_laws(2) demo_keys_agree demo_key])
    (simp_all add: ProvidePodPrometheusData_def provide_map_def demo_pod_def demo_item_def demo_objects_def alist_cache_def
        demo_find [unfolded demo_pod_def alist_cache_def])

text \<open>
  A reply marked as gzip is not compressed: whatever the client accepts, the metrics are
  written as they are, and with gzip enabled and accepted only the end of an empty gzip
  stream follows them.
\<close>

theorem gzip_reply_is_plain:
  "metrics_ServeHTTP wr names mo closing enable accept p =
     (case metrics_ServeHTTP wr names mo closing False accept p of
        (p', enc, body) \<Rightarrow>
          (let n = length (filter accepts_gzip (split_on (CHR '','') accept))
           in if enable \<and> n > 0 then (p', Some ''gzip'', body @ [closing n]) else (p', None, body)))"
  by (simp add: metrics_ServeHTTP_def Let_def split: prod.splits)

end
