(* ===== verification/NamespaceWatch.thy ===== *)
theory NamespaceWatch
  imports MeterFilters
begin

text \<open>
  Which namespaces and types the metering service watches
  (\<open>metering/v2/pkg/filter/namespace_watcher.go\<close>) and the list watchers it runs for them
  (\<open>metering/v2/pkg/engine/watcher.go\<close>).

  The slices built from a Go map come in the map's visiting order. A \<open>visit\<close> is one
  choice of these orders; every call of \<open>listNamespaces\<close> takes its own, so that two calls
  may return the same types in different orders. A nil slice and an empty one are not
  told apart. Channels are numbers and an alert returns the channels it sends to.
\<close>

section \<open>The watcher\<close>

type_synonym object_key = "string \<times> string"
type_synonym ns_types = "string \<rightharpoonup> go_type list"

record NamespaceWatcher =
  nwNamespaces :: "object_key \<rightharpoonup> ns_types"
  nwWatches :: "nat list"

record visit =
  viKeys :: "(object_key \<rightharpoonup> ns_types) \<Rightarrow> object_key list"
  viSlice :: "string \<Rightarrow> go_type set \<Rightarrow> go_type list"

definition RegisterWatch :: "nat \<Rightarrow> NamespaceWatcher \<Rightarrow> NamespaceWatcher" where
  "RegisterWatch c n = n\<lparr>nwWatches := nwWatches n @ [c]\<rparr>"

definition mergeTypeSlice :: "(go_type set \<Rightarrow> go_type list) \<Rightarrow> go_type list \<Rightarrow> go_type list \<Rightarrow> go_type list" where
  "mergeTypeSlice slice a b = slice (set a \<union> set b)"

definition filterTypeSlice :: "(go_type set \<Rightarrow> go_type list) \<Rightarrow> go_type list \<Rightarrow> go_type list \<Rightarrow> go_type list" where
  "filterTypeSlice slice a filters = slice {t \<in> set a. t \<notin> set filters}"

definition mergeMap :: "visit \<Rightarrow> ns_types \<Rightarrow> ns_types \<Rightarrow> ns_types" where
  "mergeMap v a b =
     (\<lambda>name. case b name of
        None \<Rightarrow> a name
      | Some bv \<Rightarrow>
          (case a name of
             Some av \<Rightarrow> Some (mergeTypeSlice (viSlice v name) av bv)
           | None \<Rightarrow> Some bv))"

definition merge_all :: "visit \<Rightarrow> (object_key \<rightharpoonup> ns_types) \<Rightarrow> ns_types" where
  "merge_all v m =
     fold (\<lambda>k nses. case m k of None \<Rightarrow> nses | Some nsToType \<Rightarrow> mergeMap v nses nsToType) (viKeys v m) Map.empty"

definition drop_covered :: "visit \<Rightarrow> go_type list \<Rightarrow> ns_types \<Rightarrow> ns_types" where
  "drop_covered v filterTypes nses =
     (\<lambda>ns. case nses ns of
        None \<Rightarrow> None
      | Some filters \<Rightarrow>
          (if ns = NamespaceAll then Some filters
           else
             (let r = filterTypeSlice (viSlice v ns) filters filterTypes
              in if length r \<noteq> 0 then Some r else None)))"

definition listNamespaces :: "visit \<Rightarrow> NamespaceWatcher \<Rightarrow> ns_types" where
  "listNamespaces v n =
     (let nses = merge_all v (nwNamespaces n) in
      case nses NamespaceAll of
        Some filterTypes \<Rightarrow> drop_covered v filterTypes nses
      | None \<Rightarrow> nses)"

text \<open>The visits of an operation: before the change, in the merge, after the change.\<close>

record visits =
  vsBefore :: visit
  vsMerge :: visit
  vsAfter :: visit

definition addNamespace ::
  "visits \<Rightarrow> object_key \<Rightarrow> ns_types \<Rightarrow> NamespaceWatcher \<Rightarrow> NamespaceWatcher \<times> bool" where
  "addNamespace V k nsTypes n =
     (let before = listNamespaces (vsBefore V) n in
      case nwNamespaces n k of
        None \<Rightarrow>
          (let n' = n\<lparr>nwNamespaces := (nwNamespaces n)(k \<mapsto> nsTypes)\<rparr>
           in (n', before \<noteq> listNamespaces (vsAfter V) n'))
      | Some stored \<Rightarrow>
          (if stored \<noteq> nsTypes then
             (let n' = n\<lparr>nwNamespaces := (nwNamespaces n)(k \<mapsto> mergeMap (vsMerge V) stored nsTypes)\<rparr>
              in (n', before \<noteq> listNamespaces (vsAfter V) n'))
           else (n, False)))"

definition removeNamespace :: "visits \<Rightarrow> object_key \<Rightarrow> NamespaceWatcher \<Rightarrow> NamespaceWatcher \<times> bool" where
  "removeNamespace V k n =
     (let before = listNamespaces (vsBefore V) n;
          n' = n\<lparr>nwNamespaces := (nwNamespaces n)(k := None)\<rparr>
      in (n', before \<noteq> listNamespaces (vsAfter V) n'))"

definition alert_channels :: "NamespaceWatcher \<times> bool \<Rightarrow> NamespaceWatcher \<times> nat list" where
  "alert_channels r = (fst r, if snd r then nwWatches (fst r) else [])"

definition AddNamespace :: "visits \<Rightarrow> object_key \<Rightarrow> ns_types \<Rightarrow> NamespaceWatcher \<Rightarrow> NamespaceWatcher \<times> nat list" where
  "AddNamespace V k nsTypes n = alert_channels (addNamespace V k nsTypes n)"

definition RemoveNamespace :: "visits \<Rightarrow> object_key \<Rightarrow> NamespaceWatcher \<Rightarrow> NamespaceWatcher \<times> nat list" where
  "RemoveNamespace V k n = alert_channels (removeNamespace V k n)"

section \<open>List watchers\<close>

fun type_String :: "go_type \<Rightarrow> string" where
  "type_String TPod = ''*v1.Pod''"
| "type_String TPersistentVolumeClaim = ''*v1.PersistentVolumeClaim''"
| "type_String TService = ''*v1.Service''"
| "type_String TServiceMonitor = ''*v1.ServiceMonitor''"
| "type_String TMeterDefinition = ''*v1beta1.MeterDefinition''"
| "type_String TEnhanced = ''*types.MeterDefinitionEnhancedObject''"
| "type_String (TOther s) = s"

definition cachedListerKey :: "string \<Rightarrow> go_type \<Rightarrow> string" where
  "cachedListerKey ns t = ns @ ''-'' @ type_String t"

text \<open>The types with a list watcher; calling the entry of another type is a nil call.\<close>

definition makeListers :: "go_type list" where
  "makeListers = [TPersistentVolumeClaim, TPod, TService, TServiceMonitor]"

type_synonym lister = "string \<times> go_type"

datatype lister_event = Started lister | Stopped lister

record lister_state =
  lsListers :: "string \<rightharpoonup> lister list"
  lsLog :: "lister_event list"

text \<open>\<open>start\<close> is the outcome of starting a list watcher.\<close>

fun start_loop ::
  "(lister \<Rightarrow> go_error option) \<Rightarrow> lister list \<Rightarrow> lister_state \<Rightarrow> lister_state \<times> go_error option" where
  "start_loop start [] s = (s, None)"
| "start_loop start ((ns, t) # ps) s =
     (let key = cachedListerKey ns t in
      if lsListers s key \<noteq> None then start_loop start ps s
      else
        (let s1 = s\<lparr>lsListers := (lsListers s)(key \<mapsto> [])\<rparr> in
         if t \<notin> set makeListers then (s1, Some (Panic ''nil list watcher''))
         else
           (case start (ns, t) of
              Some err \<Rightarrow> (s1, Some err)
            | None \<Rightarrow>
                start_loop start ps
                  (s1\<lparr>lsListers := (lsListers s1)(key \<mapsto>
                        (case lsListers s1 ns of None \<Rightarrow> [] | Some ls \<Rightarrow> ls) @ [(ns, t)]),
                      lsLog := lsLog s1 @ [Started (ns, t)]\<rparr>))))"

text \<open>The second loop: list watchers that are no longer wanted are stopped, then forgotten.\<close>

fun stop_loop :: "string set \<Rightarrow> string list \<Rightarrow> lister_state \<Rightarrow> lister_event list \<times> string list" where
  "stop_loop wanted [] s = ([], [])"
| "stop_loop wanted (k # ks) s =
     (let (evs, toDelete) = stop_loop wanted ks s in
      if k \<notin> wanted
      then (map Stopped (case lsListers s k of None \<Rightarrow> [] | Some ls \<Rightarrow> ls) @ evs, k # toDelete)
      else (evs, toDelete))"

text \<open>
  \<open>order\<close> is the visiting order of the namespaces, \<open>keys\<close> that of the running list
  watchers when the second loop starts.
\<close>

definition wanted_listers :: "string list \<Rightarrow> ns_types \<Rightarrow> lister list" where
  "wanted_listers order namespaces =
     concat (map (\<lambda>ns. map (Pair ns) (case namespaces ns of None \<Rightarrow> [] | Some ts \<Rightarrow> ts)) order)"

definition namespaceChange ::
  "(lister \<Rightarrow> go_error option) \<Rightarrow> ns_types \<Rightarrow> string list \<Rightarrow> ((string \<rightharpoonup> lister list) \<Rightarrow> string list) \<Rightarrow>
     lister_state \<Rightarrow> lister_state \<times> go_error option" where
  "namespaceChange start namespaces order keys s =
     (let ps = wanted_listers order namespaces in
      case start_loop start ps s of
        (s1, Some err) \<Rightarrow> (s1, Some err)
      | (s1, None) \<Rightarrow>
          (let (evs, toDelete) = stop_loop (set (map (\<lambda>(ns, t). cachedListerKey ns t) ps)) (keys (lsListers s1)) s1
           in (s1\<lparr>lsListers := (lsListers s1) |` (- set toDelete), lsLog := lsLog s1 @ evs\<rparr>, None)))"

section \<open>What is registered and what is listed\<close>

definition types_at :: "ns_types \<Rightarrow> string \<Rightarrow> go_type set" where
  "types_at m ns = (case m ns of None \<Rightarrow> {} | Some ts \<Rightarrow> set ts)"

definition registered :: "NamespaceWatcher \<Rightarrow> string \<Rightarrow> go_type set" where
  "registered n ns = {t. \<exists>k m. nwNamespaces n k = Some m \<and> t \<in> types_at m ns}"

definition valid_visit :: "visit \<Rightarrow> bool" where
  "valid_visit v \<longleftrightarrow> (\<forall>m. finite (dom m) \<longrightarrow> set (viKeys v m) = dom m) \<and>
     (\<forall>ns S. finite S \<longrightarrow> set (viSlice v ns S) = S)"

lemma types_at_mergeMap:
  "valid_visit v \<Longrightarrow> types_at (mergeMap v a b) ns = types_at a ns \<union> types_at b ns"
  by (auto simp: types_at_def mergeMap_def mergeTypeSlice_def valid_visit_def split: option.splits)

lemma types_at_merges:
  "valid_visit v \<Longrightarrow>
     types_at (fold (\<lambda>k nses. case m k of None \<Rightarrow> nses | Some nt \<Rightarrow> mergeMap v nses nt) ks acc) ns =
       types_at acc ns \<union> (\<Union>k\<in>set ks. case m k of None \<Rightarrow> {} | Some nt \<Rightarrow> types_at nt ns)"
  by (induction ks arbitrary: acc) (auto simp: types_at_mergeMap split: option.splits)

lemma types_at_merge_all:
  assumes "valid_visit v" "finite (dom (nwNamespaces n))"
  shows "types_at (merge_all v (nwNamespaces n)) ns = registered n ns"
proof -
  have "set (viKeys v (nwNamespaces n)) = dom (nwNamespaces n)" using assms by (simp add: valid_visit_def)
  moreover have "types_at Map.empty ns = {}" by (simp add: types_at_def)
  ultimately show ?thesis
    unfolding merge_all_def types_at_merges [OF assms(1)] registered_def
    by (fastforce split: option.splits)
qed

lemma types_at_drop_covered:
  assumes "valid_visit v"
  shows "types_at (drop_covered v ft nses) ns = (if ns = NamespaceAll then types_at nses ns else types_at nses ns - set ft)"
  using assms
  by (auto simp: drop_covered_def filterTypeSlice_def types_at_def valid_visit_def Let_def
      simp flip: set_empty split: option.splits)

lemma types_at_listing:
  assumes "valid_visit v" "finite (dom (nwNamespaces n))"
  shows "types_at (listNamespaces v n) ns =
    (if ns = NamespaceAll then registered n ns else registered n ns - registered n NamespaceAll)"
proof (cases "merge_all v (nwNamespaces n) NamespaceAll")
  case None
  then have "registered n NamespaceAll = {}"
    using types_at_merge_all [OF assms, of NamespaceAll] by (simp add: types_at_def)
  with None show ?thesis by (auto simp: listNamespaces_def types_at_merge_all [OF assms])
next
  case (Some ft)
  then have "registered n NamespaceAll = set ft"
    using types_at_merge_all [OF assms, of NamespaceAll] by (simp add: types_at_def)
  with Some show ?thesis
    by (simp add: listNamespaces_def types_at_drop_covered [OF assms(1)] types_at_merge_all [OF assms])
qed

definition valid_visits :: "visits \<Rightarrow> bool" where
  "valid_visits V \<longleftrightarrow> valid_visit (vsBefore V) \<and> valid_visit (vsMerge V) \<and> valid_visit (vsAfter V)"


lemma registered_upd:
  "registered (n\<lparr>nwNamespaces := (nwNamespaces n)(k \<mapsto> m)\<rparr>) ns =
     types_at m ns \<union> registered (n\<lparr>nwNamespaces := (nwNamespaces n)(k := None)\<rparr>) ns"
  unfolding registered_def by (fastforce split: if_splits)

lemma registered_del_le:
  "registered (n\<lparr>nwNamespaces := (nwNamespaces n)(k := None)\<rparr>) ns \<subseteq> registered n ns"
  by (fastforce simp: registered_def split: if_splits)

lemma registered_split:
  "registered n ns = (case nwNamespaces n k of None \<Rightarrow> {} | Some m \<Rightarrow> types_at m ns) \<union>
     registered (n\<lparr>nwNamespaces := (nwNamespaces n)(k := None)\<rparr>) ns"
proof (cases "nwNamespaces n k")
  case None
  then have "(nwNamespaces n)(k := None) = nwNamespaces n" by (simp add: fun_upd_idem_iff)
  then show ?thesis using None by simp
next
  case (Some m)
  then have "(nwNamespaces n)(k \<mapsto> m) = nwNamespaces n" by (simp add: fun_upd_idem_iff)
  then show ?thesis using registered_upd [of n k m ns] Some by simp
qed

lemma addNamespace_registers:
  assumes "valid_visits V" "addNamespace V k m n = (n', alert)"
  shows "registered n' ns = registered n ns \<union> types_at m ns"
proof (cases "nwNamespaces n k")
  case None
  then have "n' = n\<lparr>nwNamespaces := (nwNamespaces n)(k \<mapsto> m)\<rparr>" using assms by (auto simp: addNamespace_def Let_def)
  then show ?thesis using registered_upd [of n k m ns] registered_split [of n ns k] None by auto
next
  case (Some stored)
  show ?thesis
  proof (cases "stored = m")
    case True
    then show ?thesis
      using assms Some registered_split [of n ns k] by (auto simp: addNamespace_def)
  next
    case False
    then have "n' = n\<lparr>nwNamespaces := (nwNamespaces n)(k \<mapsto> mergeMap (vsMerge V) stored m)\<rparr>"
      using assms Some by (auto simp: addNamespace_def Let_def)
    then show ?thesis
      using registered_upd [of n k "mergeMap (vsMerge V) stored m" ns] registered_split [of n ns k] Some assms(1)
      by (auto simp: types_at_mergeMap valid_visits_def)
  qed
qed

lemma addNamespace_compares:
  assumes "addNamespace V k m n = (n', False)"
  shows "n' = n \<or> listNamespaces (vsBefore V) n = listNamespaces (vsAfter V) n'"
  using assms by (auto simp: addNamespace_def Let_def split: option.splits if_splits)

text \<open>When an operation raises no alert, what is to be watched has not changed.\<close>

lemma same_listing_same_types:
  assumes "valid_visits V" "finite (dom (nwNamespaces n))" "finite (dom (nwNamespaces n'))"
    and "n' = n \<or> listNamespaces (vsBefore V) n = listNamespaces (vsAfter V) n'"
    and "valid_visit v" "valid_visit v'"
  shows "types_at (listNamespaces v n) ns = types_at (listNamespaces v' n') ns"
  using assms(4)
proof
  assume "listNamespaces (vsBefore V) n = listNamespaces (vsAfter V) n'"
  then have "types_at (listNamespaces (vsBefore V) n) ns = types_at (listNamespaces (vsAfter V) n') ns" by simp
  then show ?thesis using assms by (simp add: types_at_listing valid_visits_def)
qed (use assms in \<open>simp add: types_at_listing\<close>)

lemma addNamespace_finite:
  "addNamespace V k m n = (n', a) \<Longrightarrow> finite (dom (nwNamespaces n)) \<Longrightarrow> finite (dom (nwNamespaces n'))"
  by (auto simp: addNamespace_def Let_def split: option.splits if_splits)

lemma addNamespace_watches: "addNamespace V k m n = (n', a) \<Longrightarrow> nwWatches n' = nwWatches n"
  by (auto simp: addNamespace_def Let_def split: option.splits if_splits)


lemma removeNamespace_watches: "removeNamespace V k n = (n', a) \<Longrightarrow> nwWatches n' = nwWatches n"
  by (auto simp: removeNamespace_def Let_def)

section \<open>Keys of list watchers\<close>

text \<open>Namespace names of the API server have no star; the watched types are the four with a list watcher.\<close>

definition valid_lister :: "lister \<Rightarrow> bool" where
  "valid_lister p \<longleftrightarrow> CHR ''*'' \<notin> set (fst p) \<and> snd p \<in> set makeListers"

lemma makeListers_iff:
  "t \<in> set makeListers \<longleftrightarrow> t \<in> {TPersistentVolumeClaim, TPod, TService, TServiceMonitor}"
  by (auto simp: makeListers_def)

lemma type_String_star: "t \<in> set makeListers \<Longrightarrow> \<exists>r. type_String t = CHR ''*'' # r"
  by (auto simp: makeListers_iff)

lemma type_String_inj: "t \<in> set makeListers \<Longrightarrow> t' \<in> set makeListers \<Longrightarrow> type_String t = type_String t' \<Longrightarrow> t = t'"
  by (auto simp: makeListers_iff)

lemma cachedListerKey_cut:
  assumes "valid_lister (ns, t)"
  shows "takeWhile (\<lambda>c. c \<noteq> CHR ''*'') (cachedListerKey ns t) = ns @ ''-''"
    and "dropWhile (\<lambda>c. c \<noteq> CHR ''*'') (cachedListerKey ns t) = type_String t"
proof -
  obtain r where r: "type_String t = CHR ''*'' # r"
    using assms type_String_star by (auto simp: valid_lister_def)
  have "c \<noteq> CHR ''*''" if "c \<in> set (ns @ ''-'')" for c
    using that assms by (auto simp: valid_lister_def)
  then show "takeWhile (\<lambda>c. c \<noteq> CHR ''*'') (cachedListerKey ns t) = ns @ ''-''"
    and "dropWhile (\<lambda>c. c \<noteq> CHR ''*'') (cachedListerKey ns t) = type_String t"
    using takeWhile_append2 [of "ns @ ''-''" "\<lambda>c. c \<noteq> CHR ''*''" "type_String t"]
      dropWhile_append2 [of "ns @ ''-''" "\<lambda>c. c \<noteq> CHR ''*''" "type_String t"]
    by (simp_all add: cachedListerKey_def r)
qed

lemma cachedListerKey_inj:
  assumes "valid_lister (ns, t)" "valid_lister (ns', t')" "cachedListerKey ns t = cachedListerKey ns' t'"
  shows "ns = ns' \<and> t = t'"
proof
  show "ns = ns'" using cachedListerKey_cut(1) [OF assms(1)] cachedListerKey_cut(1) [OF assms(2)] assms(3) by simp
  have "type_String t = type_String t'"
    using cachedListerKey_cut(2) [OF assms(1)] cachedListerKey_cut(2) [OF assms(2)] assms(3) by simp
  then show "t = t'" using assms type_String_inj by (auto simp: valid_lister_def)
qed

lemma cachedListerKey_not_ns:
  "valid_lister (ns, t) \<Longrightarrow> CHR ''*'' \<notin> set ns' \<Longrightarrow> cachedListerKey ns t \<noteq> ns'"
  by (auto simp: valid_lister_def makeListers_iff cachedListerKey_def)

section \<open>The running list watchers\<close>

definition lister_key :: "lister \<Rightarrow> string" where
  "lister_key p = cachedListerKey (fst p) (snd p)"

text \<open>The representation invariant: every entry holds the one list watcher its key names.\<close>

definition running :: "lister_state \<Rightarrow> lister set" where
  "running s = {p. valid_lister p \<and> lsListers s (lister_key p) = Some [p]}"

definition listers_ok :: "lister_state \<Rightarrow> bool" where
  "listers_ok s \<longleftrightarrow> (\<forall>k ls. lsListers s k = Some ls \<longrightarrow> (\<exists>p. valid_lister p \<and> k = lister_key p \<and> ls = [p]))"

lemma lister_key_inj: "valid_lister p \<Longrightarrow> valid_lister q \<Longrightarrow> lister_key p = lister_key q \<Longrightarrow> p = q"
  using cachedListerKey_inj [of "fst p" "snd p" "fst q" "snd q"] by (auto simp: lister_key_def prod_eq_iff)

lemma lister_key_image:
  "valid_lister p \<Longrightarrow> \<forall>q\<in>S. valid_lister q \<Longrightarrow> lister_key p \<in> lister_key ` S \<longleftrightarrow> p \<in> S"
  using lister_key_inj by blast

lemma listers_ok_at:
  assumes "listers_ok s" "valid_lister p"
  shows "lsListers s (lister_key p) = (if p \<in> running s then Some [p] else None)"
proof (cases "lsListers s (lister_key p)")
  case (Some ls)
  then obtain q where "valid_lister q" "lister_key p = lister_key q" "ls = [q]"
    using assms(1) unfolding listers_ok_def by blast
  then have "ls = [p]" using lister_key_inj assms(2) by blast
  then show ?thesis using Some assms(2) by (simp add: running_def)
qed (simp add: running_def)

lemma listers_ok_ns:
  assumes "listers_ok s" "CHR ''*'' \<notin> set ns"
  shows "lsListers s ns = None"
proof (rule ccontr)
  assume "lsListers s ns \<noteq> None"
  then obtain q where "valid_lister q" "ns = lister_key q" using assms(1) unfolding listers_ok_def by blast
  then show False using cachedListerKey_not_ns [of "fst q" "snd q" ns] assms(2) by (simp add: lister_key_def)
qed

lemma start_loop_step:
  assumes ok: "listers_ok s" and p: "valid_lister p" and start: "start p = None"
  shows "start_loop start (p # ps) s =
    start_loop start ps
      (if p \<in> running s then s
       else s\<lparr>lsListers := (lsListers s)(lister_key p \<mapsto> [p]), lsLog := lsLog s @ [Started p]\<rparr>)"
proof -
  obtain ns t where pt: "p = (ns, t)" by force
  have "lsListers s ns = None" using listers_ok_ns [OF ok] p pt by (simp add: valid_lister_def)
  moreover have "cachedListerKey ns t \<noteq> ns" using cachedListerKey_not_ns p pt by (simp add: valid_lister_def)
  ultimately show ?thesis
    using p start listers_ok_at [OF ok p] pt
    by (auto simp: lister_key_def valid_lister_def Let_def)
qed

lemma start_loop_ok:
  assumes "listers_ok s" "\<forall>p\<in>set ps. valid_lister p \<and> start p = None"
  shows "\<exists>s'. start_loop start ps s = (s', None) \<and> listers_ok s' \<and> running s' = running s \<union> set ps \<and>
    (\<exists>evs. lsLog s' = lsLog s @ map Started evs \<and> distinct evs \<and> set evs = set ps - running s)"
  using assms
proof (induction ps arbitrary: s)
  case (Cons p ps)
  show ?case
  proof (cases "p \<in> running s")
    case True
    obtain s' evs where s': "start_loop start ps s = (s', None)" "listers_ok s'" "running s' = running s \<union> set ps"
      "lsLog s' = lsLog s @ map Started evs" "distinct evs" "set evs = set ps - running s"
      using Cons.IH [OF Cons.prems(1)] Cons.prems(2) by auto
    then show ?thesis using True start_loop_step [OF Cons.prems(1), of p start ps] Cons.prems(2)
      by (intro exI [of _ s'] conjI exI [of _ evs]) auto
  next
    case False
    let ?s = "s\<lparr>lsListers := (lsListers s)(lister_key p \<mapsto> [p]), lsLog := lsLog s @ [Started p]\<rparr>"
    have p: "valid_lister p" "start p = None" using Cons.prems(2) by auto
    have ok: "listers_ok ?s" using Cons.prems(1) p by (cases p) (auto simp: listers_ok_def)
    have run: "running ?s = insert p (running s)"
      using p lister_key_inj [OF p(1)] by (auto simp: running_def)
    obtain s' evs where s': "start_loop start ps ?s = (s', None)" "listers_ok s'" "running s' = running ?s \<union> set ps"
      "lsLog s' = lsLog ?s @ map Started evs" "distinct evs" "set evs = set ps - running ?s"
      using Cons.IH [OF ok] Cons.prems(2) by auto
    have "start_loop start (p # ps) s = (s', None)"
      using start_loop_step [of s p start ps] Cons.prems(1) p False s'(1) by simp
    then show ?thesis
      using s'(2-) run False by (intro exI [of _ s'] conjI exI [of _ "p # evs"]) auto
  qed
qed simp


lemma stop_loop_spec:
  "snd (stop_loop W ks s) = filter (\<lambda>k. k \<notin> W) ks \<and>
   fst (stop_loop W ks s) =
     concat (map (\<lambda>k. map Stopped (case lsListers s k of None \<Rightarrow> [] | Some ls \<Rightarrow> ls)) (filter (\<lambda>k. k \<notin> W) ks))"
  by (induction ks) (auto simp: Let_def split: prod.splits)

lemma restrict_running:
  assumes "listers_ok s"
  shows "listers_ok (s\<lparr>lsListers := lsListers s |` A, lsLog := l\<rparr>)"
    and "running (s\<lparr>lsListers := lsListers s |` A, lsLog := l\<rparr>) = {p \<in> running s. lister_key p \<in> A}"
  using assms by (auto simp: listers_ok_def running_def restrict_map_def split: if_splits)

text \<open>The events of stopping the list watchers that are not wanted, when every key is visited once.\<close>

lemma stop_events:
  assumes ok: "listers_ok s" and ks: "set ks = dom (lsListers s)" "distinct ks" and W: "W = lister_key ` S"
    and S: "\<forall>p\<in>S. valid_lister p"
  shows "\<exists>evs. fst (stop_loop W ks s) = map Stopped evs \<and> distinct evs \<and> set evs = running s - S"
proof -
  let ?l = "\<lambda>k. hd (the (lsListers s k))"
  have at: "lsListers s k = Some [?l k] \<and> valid_lister (?l k) \<and> lister_key (?l k) = k" if "k \<in> set ks" for k
  proof -
    from that obtain ls where "lsListers s k = Some ls" using ks(1) by blast
    then show ?thesis using ok by (force simp: listers_ok_def)
  qed
  let ?gone = "filter (\<lambda>k. k \<notin> W) ks"
  have "fst (stop_loop W ks s) = concat (map (\<lambda>k. map Stopped (case lsListers s k of None \<Rightarrow> [] | Some ls \<Rightarrow> ls)) ?gone)"
    by (simp add: stop_loop_spec)
  also have "\<dots> = concat (map (\<lambda>k. [Stopped (?l k)]) ?gone)"
  proof (rule arg_cong [where f = concat], rule map_cong)
    fix k assume "k \<in> set ?gone"
    then have "lsListers s k = Some [?l k]" using at by simp
    then show "map Stopped (case lsListers s k of None \<Rightarrow> [] | Some ls \<Rightarrow> ls) = [Stopped (?l k)]"
      by (metis list.simps(8,9) option.simps(5))
  qed simp
  also have "\<dots> = map Stopped (map ?l ?gone)" by (simp add: concat_map_singleton)
  finally have evs: "fst (stop_loop W ks s) = map Stopped (map ?l ?gone)" .
  moreover have "distinct (map ?l ?gone)"
    using ks(2) at by (auto simp: distinct_map inj_on_def) metis
  moreover have "set (map ?l ?gone) = running s - S"
  proof -
    have "p \<in> ?l ` set ?gone \<longleftrightarrow> p \<in> running s - S" for p
    proof
      assume "p \<in> ?l ` set ?gone"
      then obtain k where "k \<in> set ks" "k \<notin> W" "p = ?l k" by auto
      moreover from this have "lister_key p = k" using at [of k] by simp
      then have "p \<notin> S" using \<open>k \<notin> W\<close> W by auto
      ultimately show "p \<in> running s - S" using at [of k] by (simp add: running_def)
    next
      assume p: "p \<in> running s - S"
      then have "lister_key p \<in> set ks" "?l (lister_key p) = p" using ks(1) by (auto simp: running_def)
      moreover have "lister_key p \<notin> W" using p lister_key_image [OF _ S] W by (simp add: running_def)
      ultimately show "p \<in> ?l ` set ?gone" by force
    qed
    then show ?thesis by auto
  qed
  ultimately show ?thesis by blast
qed

definition listed :: "ns_types \<Rightarrow> lister set" where
  "listed m = {(ns, t). t \<in> types_at m ns}"

lemma set_wanted_listers:
  assumes "dom m \<subseteq> set order"
  shows "set (wanted_listers order m) = listed m"
proof -
  have "(ns, t) \<in> set (wanted_listers order m) \<longleftrightarrow> ns \<in> set order \<and> t \<in> types_at m ns" for ns t
    unfolding wanted_listers_def types_at_def by (cases "m ns") force+
  moreover have "t \<in> types_at m ns \<Longrightarrow> ns \<in> set order" for ns t
    using assms by (auto simp: types_at_def split: option.splits)
  ultimately show ?thesis by (auto simp: listed_def)
qed

lemma dom_listers: "listers_ok s \<Longrightarrow> dom (lsListers s) = lister_key ` running s"
  unfolding listers_ok_def running_def by fastforce

lemma finite_running: "listers_ok s \<Longrightarrow> finite (dom (lsListers s)) \<Longrightarrow> finite (running s)"
  using dom_listers [of s] finite_imageD [of lister_key "running s"] lister_key_inj
  by (simp add: inj_on_def running_def)

section \<open>A small watcher\<close>

text \<open>Two definitions: one for the pods of a namespace, one for the pods of all namespaces.\<close>

definition demo_watcher :: NamespaceWatcher where
  "demo_watcher = \<lparr>nwNamespaces = [(''shop'', ''dbs'') \<mapsto> [''shop'' \<mapsto> [TPod, TService]]], nwWatches = [7]\<rparr>"

definition list_of :: "'a set \<Rightarrow> 'a list" where
  "list_of A = (SOME xs. set xs = A \<and> distinct xs)"

definition demo_visit :: visit where
  "demo_visit = \<lparr>viKeys = \<lambda>m. list_of (dom m), viSlice = \<lambda>ns A. list_of A\<rparr>"

definition demo_visits :: visits where
  "demo_visits = \<lparr>vsBefore = demo_visit, vsMerge = demo_visit, vsAfter = demo_visit\<rparr>"

lemma list_of_finite: "finite A \<Longrightarrow> set (list_of A) = A \<and> distinct (list_of A)"
  unfolding list_of_def by (rule someI_ex) (rule finite_distinct_list)

lemma demo_visit_valid: "valid_visit demo_visit" "valid_visits demo_visits"
  by (simp_all add: valid_visit_def valid_visits_def demo_visits_def demo_visit_def list_of_finite)

lemma demo_watcher_finite: "finite (dom (nwNamespaces demo_watcher))"
  by (simp add: demo_watcher_def)

section \<open>Properties\<close>

text \<open>
  What the watcher lists. Whatever the visiting orders, a type is listed for a namespace
  exactly when some definition registered it there and, for a namespace other than "all",
  no definition registered it for all namespaces; so every registered type is listed for
  its namespace or for all of them and none is listed twice over.
\<close>

lemma listing_exact:
  assumes "valid_visit v" "finite (dom (nwNamespaces n))"
  shows "t \<in> types_at (listNamespaces v n) ns \<longleftrightarrow>
    t \<in> registered n ns \<and> (ns = NamespaceAll \<or> t \<notin> registered n NamespaceAll)"
  using types_at_listing [OF assms, of ns] by auto


text \<open>
  Adding a definition only ever adds: its types are registered beside those it had
  registered before, which stay although the definition no longer names them. Whenever
  the listed types change, for any visiting orders, every registered watch is alerted;
  otherwise none or all are.
\<close>

theorem AddNamespace_alerts:
  assumes "valid_visits V" "finite (dom (nwNamespaces n))" "AddNamespace V k m n = (n', alerted)"
  shows "(\<forall>ns. registered n' ns = registered n ns \<union> types_at m ns) \<and>
    (alerted = [] \<or> alerted = nwWatches n) \<and>
    (\<forall>v v' ns. valid_visit v \<longrightarrow> valid_visit v' \<longrightarrow>
       types_at (listNamespaces v n) ns \<noteq> types_at (listNamespaces v' n') ns \<longrightarrow> alerted = nwWatches n)"
proof -
  obtain a where add: "addNamespace V k m n = (n', a)" and al: "alerted = (if a then nwWatches n' else [])"
    using assms(3) by (cases "addNamespace V k m n") (auto simp: AddNamespace_def alert_channels_def)
  have "types_at (listNamespaces v n) ns = types_at (listNamespaces v' n') ns"
    if "\<not> a" "valid_visit v" "valid_visit v'" for v v' ns
  proof (rule same_listing_same_types [OF assms(1,2) addNamespace_finite [OF add assms(2)] _ that(2,3)])
    from that(1) have "a = False" by simp
    then show "n' = n \<or> listNamespaces (vsBefore V) n = listNamespaces (vsAfter V) n'"
      using addNamespace_compares add by simp
  qed
  then show ?thesis
    using addNamespace_registers [OF assms(1) add] addNamespace_watches [OF add] al by auto
qed

theorem AddNamespace_alerts_witness:
  "TPod \<in> registered (fst (AddNamespace demo_visits (''ops'', ''all'') [NamespaceAll \<mapsto> [TPod]] demo_watcher)) NamespaceAll"
proof -
  obtain n' alerted where
    "AddNamespace demo_visits (''ops'', ''all'') [NamespaceAll \<mapsto> [TPod]] demo_watcher = (n', alerted)" by fastforce
  from AddNamespace_alerts [OF demo_visit_valid(2) demo_watcher_finite this] this show ?thesis
    by (simp add: types_at_def)
qed

text \<open>
  C40: the list watchers follow the listing. When no list watcher fails to start, a change
  handler run leaves exactly the listed pairs of namespace and type running; it starts
  those that were missing, each once, stops those no longer listed, each once, and leaves
  the others alone.
\<close>

theorem namespaceChange_follows_listing:
  assumes "listers_ok s" and "\<And>p. p \<in> listed m \<Longrightarrow> valid_lister p" and "\<And>p. start p = None"
    and "dom m \<subseteq> set order"
    and "\<And>l. finite (dom l) \<Longrightarrow> set (keys l) = dom l \<and> distinct (keys l)"
    and "finite (dom (lsListers s))"
    and "namespaceChange start m order keys s = (s', err)"
  shows "err = None \<and> listers_ok s' \<and> running s' = listed m \<and>
    (\<exists>up down. lsLog s' = lsLog s @ map Started up @ map Stopped down \<and>
       distinct up \<and> set up = listed m - running s \<and> distinct down \<and> set down = running s - listed m)"
proof -
  let ?ps = "wanted_listers order m"
  have ps: "set ?ps = listed m" by (rule set_wanted_listers [OF assms(4)])
  obtain s1 up where s1: "start_loop start ?ps s = (s1, None)" "listers_ok s1" "running s1 = running s \<union> listed m"
    "lsLog s1 = lsLog s @ map Started up" "distinct up" "set up = listed m - running s"
    using start_loop_ok [OF assms(1), of ?ps start] assms(2,3) ps by auto
  let ?ks = "keys (lsListers s1)"
  have "finite (dom (lsListers s1))"
    using finite_running [OF assms(1,6)] s1(3) finite_set [of ?ps] ps by (simp add: dom_listers [OF s1(2)])
  then have ks: "set ?ks = dom (lsListers s1)" "distinct ?ks" using assms(5) by auto
  have W: "set (map (\<lambda>(ns, t). cachedListerKey ns t) ?ps) = lister_key ` listed m"
    using ps by (force simp: lister_key_def image_iff)
  obtain down where down: "fst (stop_loop (lister_key ` listed m) ?ks s1) = map Stopped down" "distinct down"
    "set down = running s1 - listed m"
    using stop_events [OF s1(2) ks refl, of "listed m"] assms(2) by blast
  let ?A = "- {k \<in> set ?ks. k \<notin> lister_key ` listed m}"
  have s': "s' = s1\<lparr>lsListers := lsListers s1 |` ?A, lsLog := lsLog s1 @ map Stopped down\<rparr>" "err = None"
    using assms(7) s1(1) down(1) stop_loop_spec [of "lister_key ` listed m" ?ks s1]
    by (auto simp: namespaceChange_def W Let_def simp flip: W split: prod.splits)
  have "running s' = {p \<in> running s1. lister_key p \<in> ?A}" "listers_ok s'"
    unfolding s'(1) using restrict_running [OF s1(2)] by auto
  moreover have "lister_key p \<in> ?A \<longleftrightarrow> p \<in> listed m" if p: "p \<in> running s1" for p
  proof -
    have "lister_key p \<in> set ?ks" using p dom_listers [OF s1(2)] ks(1) by blast
    moreover have "lister_key p \<in> lister_key ` listed m \<longleftrightarrow> p \<in> listed m"
      using lister_key_image [of p "listed m"] assms(2) p by (simp add: running_def)
    ultimately show ?thesis by blast
  qed
  then have "{p \<in> running s1. lister_key p \<in> ?A} = listed m" using s1(3) by blast
  ultimately have "running s' = listed m" "listers_ok s'" by simp_all
  moreover have "lsLog s' = lsLog s @ map Started up @ map Stopped down" using s'(1) s1(4) by simp
  moreover have "set down = running s - listed m" using down(3) s1(3) by blast
  ultimately show ?thesis using s'(2) s1(5,6) down(2) by blast
qed


theorem namespaceChange_follows_listing_witness:
  "running (fst (namespaceChange (\<lambda>p. None) [''shop'' \<mapsto> [TPod]] [''shop''] (\<lambda>l. list_of (dom l))
     \<lparr>lsListers = Map.empty, lsLog = []\<rparr>)) = {(''shop'', TPod)}"
proof -
  let ?m = "[''shop'' \<mapsto> [TPod]]"
  have "listed ?m = {(''shop'', TPod)}"
    by (auto simp: listed_def types_at_def split: if_splits)
  moreover obtain s' err where
    "namespaceChange (\<lambda>p. None) ?m [''shop''] (\<lambda>l. list_of (dom l)) \<lparr>lsListers = Map.empty, lsLog = []\<rparr> = (s', err)"
    by fastforce
  ultimately show ?thesis
    using namespaceChange_follows_listing [of "\<lparr>lsListers = Map.empty, lsLog = []\<rparr>" ?m "\<lambda>p. None" "[''shop'']"
        "\<lambda>l. list_of (dom l)" s' err]
    by (simp add: listers_ok_def valid_lister_def makeListers_def list_of_finite)
qed

end
