(* ===== verification/MeterProcessors.thy ===== *)
theory MeterProcessors
  imports MeterMetrics NamespaceWatch
begin

text \<open>
  What happens to the deltas of the two stores: the mailbox and its producers
  (\<open>metering/v2/pkg/mailbox\<close>), the processor of meter definitions
  (\<open>metering/v2/pkg/processors/mdef_processor.go\<close>) and the processor that keeps the
  matched workloads in the status of the definitions (\<open>status_processor.go\<close>, with
  \<open>v2/api/marketplace/common/meterdefinition_status.go\<close>, \<open>name_namespace_ref.go\<close>).

  Channels are numbers; a send is recorded with its channel. The API server's answers are
  functions in an environment, and a conflict retry is represented by its last attempt.
\<close>

section \<open>Mailbox\<close>

definition ObjectChannel :: string where "ObjectChannel = ''ObjectChannel''"
definition MeterDefinitionChannel :: string where "MeterDefinitionChannel = ''MeterDefinitionChannel''"

definition RegisterListener :: "string \<Rightarrow> nat \<Rightarrow> (string \<rightharpoonup> nat list) \<Rightarrow> (string \<rightharpoonup> nat list)" where
  "RegisterListener channelName ch mb =
     mb(channelName \<mapsto> (case mb channelName of None \<Rightarrow> [] | Some listeners \<Rightarrow> listeners) @ [ch])"

definition Broadcast :: "(string \<rightharpoonup> nat list) \<Rightarrow> string \<Rightarrow> 'x \<Rightarrow> (nat \<times> 'x) list \<times> go_error option" where
  "Broadcast mb channelName obj =
     (case mb channelName of
        None \<Rightarrow> ([], Some (Err ''channel name doesn't exist''))
      | Some listeners \<Rightarrow> (map (\<lambda>l. (l, obj)) listeners, None))"

fun handlePop :: "(string \<rightharpoonup> nat list) \<Rightarrow> string \<Rightarrow> 'x list \<Rightarrow> (nat \<times> 'x) list \<times> go_error option" where
  "handlePop mb name [] = ([], None)"
| "handlePop mb name (d # ds) =
     (case Broadcast mb name d of
        (sent, Some err) \<Rightarrow> (sent, Some err)
      | (sent, None) \<Rightarrow> (let (rest, err) = handlePop mb name ds in (sent @ rest, err)))"

section \<open>Workload resources\<close>

record WorkloadResource =
  wrReferencedWorkloadName :: string
  wrNamespace :: string
  wrName :: string
  wrUID :: string
  wrAPIVersion :: string
  wrKind :: string

text \<open>\<open>strings.Compare\<close> orders byte strings lexicographically.\<close>

definition ByAlphabetical_Less :: "WorkloadResource \<Rightarrow> WorkloadResource \<Rightarrow> bool" where
  "ByAlphabetical_Less a b \<longleftrightarrow>
     (if wrReferencedWorkloadName a < wrReferencedWorkloadName b then True
      else if wrNamespace a < wrNamespace b then True
      else if wrName a < wrName b then True
      else False)"

fun gvkMap :: "go_type \<Rightarrow> (string \<times> string) option" where
  "gvkMap TPod = Some (''v1'', ''Pod'')"
| "gvkMap TService = Some (''v1'', ''Service'')"
| "gvkMap TPersistentVolumeClaim = Some (''v1'', ''PersistentVolumeClaim'')"
| "gvkMap TServiceMonitor = Some (''monitoring.coreos.com/v1'', ''ServiceMonitor'')"
| "gvkMap (TOther t) = (if t = ''*v1.PersistentVolume'' then Some (''v1'', ''PersistentVolume'') else None)"
| "gvkMap _ = None"

definition NewPredefinedGroupVersionKind :: "k8s_object \<Rightarrow> go_error + (string \<times> string)" where
  "NewPredefinedGroupVersionKind ob =
     (case gvkMap (obType ob) of
        None \<Rightarrow> Inl (Err ''failed to get workload resource'')
      | Some gvk \<Rightarrow> Inr gvk)"

definition NewWorkloadResource :: "k8s_object \<Rightarrow> go_error + WorkloadResource" where
  "NewWorkloadResource ob =
     (case NewPredefinedGroupVersionKind ob of
        Inl err \<Rightarrow> Inl err
      | Inr gvk \<Rightarrow>
          Inr \<lparr>wrReferencedWorkloadName = [], wrNamespace = obNamespace ob, wrName = obName ob, wrUID = obUID ob,
               wrAPIVersion = fst gvk, wrKind = snd gvk\<rparr>)"

section \<open>Status processor\<close>

record updateableStatus =
  usNeedsUpdate :: bool
  usResources :: "string \<rightharpoonup> WorkloadResource"

type_synonym status_map = "object_key \<rightharpoonup> updateableStatus"

definition newUpdateableStatus :: updateableStatus where
  "newUpdateableStatus = \<lparr>usNeedsUpdate = True, usResources = Map.empty\<rparr>"

definition mdef_key :: "MeterDefinition \<Rightarrow> object_key" where
  "mdef_key md = (mdfNamespace md, mdfName md)"

text \<open>The loop that enters every resource under its UID, in the visiting order \<open>uids\<close>.\<close>

definition reenter :: "((string \<rightharpoonup> WorkloadResource) \<Rightarrow> string list) \<Rightarrow> (string \<rightharpoonup> WorkloadResource) \<Rightarrow>
    (string \<rightharpoonup> WorkloadResource)" where
  "reenter uids res = fold (\<lambda>k r. case r k of None \<Rightarrow> r | Some w \<Rightarrow> r(wrUID w \<mapsto> w)) (uids res) res"

fun status_Process_loop ::
  "((string \<rightharpoonup> WorkloadResource) \<Rightarrow> string list) \<Rightarrow> delta_type \<Rightarrow> k8s_object \<Rightarrow> MeterDefinition list \<Rightarrow> status_map \<Rightarrow>
     status_map \<times> go_error option" where
  "status_Process_loop uids t ob [] u = (u, None)"
| "status_Process_loop uids t ob (md # mds) u =
     (let key = mdef_key md;
          status = (case u key of None \<Rightarrow> newUpdateableStatus | Some st \<Rightarrow> st);
          res = reenter uids (usResources status);
          u1 = u(key \<mapsto> status\<lparr>usResources := res\<rparr>)
      in case NewWorkloadResource ob of
           Inl err \<Rightarrow> (u1, Some err)
         | Inr workload \<Rightarrow>
             (let res' = (if t = Deleted then res(wrUID workload := None) else res(wrUID workload \<mapsto> workload))
              in status_Process_loop uids t ob mds
                   (u1(key \<mapsto> status\<lparr>usResources := res', usNeedsUpdate := True\<rparr>))))"

text \<open>\<open>Inl t\<close> is an object of another type than the store's items.\<close>

definition status_Process ::
  "((string \<rightharpoonup> WorkloadResource) \<Rightarrow> string list) \<Rightarrow> delta_type \<times> (go_type + MeterDefinitionEnhancedObject) \<Rightarrow> status_map \<Rightarrow>
     status_map \<times> go_error option" where
  "status_Process uids delta u =
     (case snd delta of
        Inl t \<Rightarrow> (u, Some (Err ''obj is unexpected type''))
      | Inr enhancedObj \<Rightarrow>
          status_Process_loop uids (fst delta) (enObject enhancedObj) (enMeterDefinitions enhancedObj) u)"

record flush_env =
  flGet :: "object_key \<Rightarrow> k8s_error + WorkloadResource list"
  flUpdate :: "object_key \<Rightarrow> WorkloadResource list \<Rightarrow> k8s_error option"
  flUids :: "(string \<rightharpoonup> WorkloadResource) \<Rightarrow> string list"
  flSort :: "WorkloadResource list \<Rightarrow> WorkloadResource list"

definition status_equal :: "WorkloadResource list \<Rightarrow> (string \<rightharpoonup> WorkloadResource) \<Rightarrow> bool" where
  "status_equal current res \<longleftrightarrow>
     length current = card (dom res) \<and> list_all (\<lambda>r. res (wrUID r) \<noteq> None) current"

definition workload_list :: "flush_env \<Rightarrow> (string \<rightharpoonup> WorkloadResource) \<Rightarrow> WorkloadResource list" where
  "workload_list F res = flSort F (List.map_filter res (flUids F res))"

text \<open>
  One definition: whether it was not found, the status written for it, the error. The
  update is attempted only when the listed workloads differ.
\<close>

definition flush_one ::
  "flush_env \<Rightarrow> object_key \<Rightarrow> updateableStatus \<Rightarrow> bool \<times> (object_key \<times> WorkloadResource list) list \<times> k8s_error option" where
  "flush_one F key status =
     (case flGet F key of
        Inl (NotFound m) \<Rightarrow> (True, [], None)
      | Inl err \<Rightarrow> (False, [], Some err)
      | Inr current \<Rightarrow>
          (if status_equal current (usResources status) then (False, [], None)
           else
             (let ws = workload_list F (usResources status)
              in case flUpdate F key ws of
                   Some err \<Rightarrow> (False, [], Some err)
                 | None \<Rightarrow> (False, [(key, ws)], None))))"

text \<open>\<open>keys\<close> is the visiting order of the tracked definitions; errors are only logged.\<close>

fun flush_loop ::
  "flush_env \<Rightarrow> object_key list \<Rightarrow> status_map \<Rightarrow>
     status_map \<times> object_key list \<times> (object_key \<times> WorkloadResource list) list" where
  "flush_loop F [] u = (u, [], [])"
| "flush_loop F (key # ks) u =
     (case u key of
        None \<Rightarrow> flush_loop F ks u
      | Some status \<Rightarrow>
          (if \<not> usNeedsUpdate status then flush_loop F ks u
           else
             (let (gone, writes, err) = flush_one F key status;
                  (u', deleted, writes') = flush_loop F ks (u(key \<mapsto> status\<lparr>usNeedsUpdate := False\<rparr>))
              in (u', if gone then key # deleted else deleted, writes @ writes'))))"

definition flush ::
  "flush_env \<Rightarrow> object_key list \<Rightarrow> status_map \<Rightarrow> status_map \<times> (object_key \<times> WorkloadResource list) list" where
  "flush F keys u =
     (let (u', deleted, writes) = flush_loop F keys u
      in (u' |` (- set deleted), writes))"

section \<open>Processor of meter definitions\<close>

record 's metering_state =
  mgWatcher :: NamespaceWatcher
  mgStore :: "'s object_store"

record ('d, 's) metering_env =
  mvStore :: store_env
  mvCaches :: "('d, 's) caches"
  mvVisits :: visits

definition onAdd ::
  "('d, 's) metering_env \<Rightarrow> 'd \<Rightarrow> MeterDefinitionExtended \<Rightarrow> 's metering_state \<Rightarrow>
     's metering_state \<times> nat list \<times> k8s_error option" where
  "onAdd V d x st =
     (let (w, alerted) = AddNamespace (mvVisits V) (mdef_key (mxMeterDefinition x)) (GetNamespaces (mxFilter x)) (mgWatcher st);
          (s, err) = mstore_SyncByIndex (mvStore V) (mvCaches V) d IndexNamespace (mdfNamespace (mxMeterDefinition x)) (mgStore st)
      in (st\<lparr>mgWatcher := w, mgStore := s\<rparr>, alerted, err))"

definition onDelete ::
  "('d, 's) metering_env \<Rightarrow> 'd \<Rightarrow> MeterDefinitionExtended \<Rightarrow> 's metering_state \<Rightarrow>
     's metering_state \<times> nat list \<times> k8s_error option" where
  "onDelete V d x st =
     (let (w, alerted) = RemoveNamespace (mvVisits V) (mdef_key (mxMeterDefinition x)) (mgWatcher st);
          (s, err) = mstore_SyncByIndex (mvStore V) (mvCaches V) d IndexMeterDefinition
                       (def_key (mvStore V) (mxMeterDefinition x)) (mgStore st)
      in (st\<lparr>mgWatcher := w, mgStore := s\<rparr>, alerted, err))"

text \<open>The handlers of updates and of synchronizations have the body of \<open>onAdd\<close>.\<close>

definition onUpdate ::
  "('d, 's) metering_env \<Rightarrow> 'd \<Rightarrow> MeterDefinitionExtended \<Rightarrow> 's metering_state \<Rightarrow>
     's metering_state \<times> nat list \<times> k8s_error option" where
  "onUpdate V d x st = onAdd V d x st"

definition onSync ::
  "('d, 's) metering_env \<Rightarrow> 'd \<Rightarrow> MeterDefinitionExtended \<Rightarrow> 's metering_state \<Rightarrow>
     's metering_state \<times> nat list \<times> k8s_error option" where
  "onSync V d x st = onAdd V d x st"

text \<open>\<open>None\<close> is an object that is not an item of the dictionary; replacements are ignored.\<close>

definition mdef_Process ::
  "('d, 's) metering_env \<Rightarrow> 'd \<Rightarrow> delta_type \<times> MeterDefinitionExtended option \<Rightarrow> 's metering_state \<Rightarrow>
     's metering_state \<times> nat list \<times> k8s_error option" where
  "mdef_Process V d delta st =
     (if fst delta = Replaced then (st, [], None)
      else
        (case snd delta of
           None \<Rightarrow> (st, [], Some (OtherError ''encountered unexpected type''))
         | Some x \<Rightarrow>
             (case fst delta of
                Deleted \<Rightarrow> onDelete V d x st
              | Added \<Rightarrow> onAdd V d x st
              | Updated \<Rightarrow> onUpdate V d x st
              | _ \<Rightarrow> onSync V d x st)))"


section \<open>Tracked workloads\<close>

text \<open>The representation invariant of the status processor: workloads are entered under their UID.\<close>

definition uid_keyed :: "(string \<rightharpoonup> WorkloadResource) \<Rightarrow> bool" where
  "uid_keyed res \<longleftrightarrow> (\<forall>uid w. res uid = Some w \<longrightarrow> wrUID w = uid)"

definition status_ok :: "status_map \<Rightarrow> bool" where
  "status_ok u \<longleftrightarrow> (\<forall>key st. u key = Some st \<longrightarrow> uid_keyed (usResources st))"

lemma reenter_id:
  assumes "uid_keyed res"
  shows "reenter uids res = res"
proof -
  have "fold (\<lambda>k r. case r k of None \<Rightarrow> r | Some w \<Rightarrow> r(wrUID w \<mapsto> w)) ks res = res" for ks
    using assms
  proof (induction ks)
    case (Cons k ks)
    have "(case res k of None \<Rightarrow> res | Some w \<Rightarrow> res(wrUID w \<mapsto> w)) = res"
      using Cons.prems by (auto simp: uid_keyed_def fun_upd_idem split: option.splits)
    then show ?case using Cons by simp
  qed simp
  then show ?thesis by (simp add: reenter_def)
qed

text \<open>What a delta does to the workloads of a definition it names.\<close>

definition apply_workload :: "delta_type \<Rightarrow> WorkloadResource \<Rightarrow> updateableStatus option \<Rightarrow> updateableStatus" where
  "apply_workload t w st =
     \<lparr>usNeedsUpdate = True,
      usResources = (case st of None \<Rightarrow> Map.empty | Some s \<Rightarrow> usResources s)(wrUID w := (if t = Deleted then None else Some w))\<rparr>"

lemma apply_workload_twice: "apply_workload t w (Some (apply_workload t w st)) = apply_workload t w st"
  by (simp add: apply_workload_def)

lemma status_ok_upd: "status_ok u \<Longrightarrow> status_ok (u(key \<mapsto> apply_workload t w (u key)))"
  by (auto simp: status_ok_def uid_keyed_def apply_workload_def split: option.splits if_splits)

lemma status_eq:
  "st\<lparr>usResources := r, usNeedsUpdate := b\<rparr> = \<lparr>usNeedsUpdate = b, usResources = r\<rparr>"
  for st :: updateableStatus
  by (cases st) simp

lemma status_Process_step:
  assumes "status_ok u" "NewWorkloadResource ob = Inr w"
  shows "status_Process_loop uids t ob (md # mds) u =
    status_Process_loop uids t ob mds (u(mdef_key md \<mapsto> apply_workload t w (u (mdef_key md))))"
proof -
  have "reenter uids (usResources (case u (mdef_key md) of None \<Rightarrow> newUpdateableStatus | Some st \<Rightarrow> st)) =
      usResources (case u (mdef_key md) of None \<Rightarrow> newUpdateableStatus | Some st \<Rightarrow> st)"
    by (rule reenter_id)
      (use assms(1) in \<open>auto simp: status_ok_def uid_keyed_def newUpdateableStatus_def mdef_key_def split: option.splits\<close>)
  then show ?thesis
    using assms(2)
    by (cases "u (mdef_key md)") (simp_all add: Let_def apply_workload_def newUpdateableStatus_def status_eq)
qed

lemma status_Process_loop_at:
  assumes "status_ok u" "NewWorkloadResource ob = Inr w"
  shows "\<exists>u'. status_Process_loop uids t ob mds u = (u', None) \<and> status_ok u' \<and>
    (\<forall>key. u' key = (if key \<in> mdef_key ` set mds then Some (apply_workload t w (u key)) else u key))"
  using assms(1)
proof (induction mds arbitrary: u)
  case (Cons md mds)
  let ?u = "u(mdef_key md \<mapsto> apply_workload t w (u (mdef_key md)))"
  obtain u' where u': "status_Process_loop uids t ob mds ?u = (u', None)" "status_ok u'"
    "\<And>key. u' key = (if key \<in> mdef_key ` set mds then Some (apply_workload t w (?u key)) else ?u key)"
    using Cons.IH [OF status_ok_upd [OF Cons.prems]] by blast
  have "u' key = (if key \<in> mdef_key ` set (md # mds) then Some (apply_workload t w (u key)) else u key)" for key
    using u'(3) [of key] by (auto simp: apply_workload_twice)
  then show ?case using u'(1,2) status_Process_step [OF Cons.prems assms(2)] by simp
qed simp

lemma rematch_deltas:
  "rematch E C d objs s = (s', err) \<Longrightarrow> \<exists>ms. osDelta s' = osDelta s @ map (\<lambda>m. (emit_type m, m)) ms"
proof (induction objs arbitrary: s)
  case (Cons ob objs)
  from rematch_step [OF Cons.prems] show ?case
  proof (elim disjE exE conjE)
    fix m k
    assume "rematch E C d objs
      (s\<lparr>osDelta := osDelta s @ [(emit_type m, m)], osIndex := caAdd (snd C) k m (osIndex s)\<rparr>) = (s', err)"
    from Cons.IH [OF this] obtain ms where "osDelta s' = (osDelta s @ [(emit_type m, m)]) @ map (\<lambda>m. (emit_type m, m)) ms"
      by auto
    then show ?thesis by (intro exI [of _ "m # ms"]) simp
  qed simp
qed simp

lemma SyncByIndex_deltas:
  "mstore_SyncByIndex E C d n v s = (s', err) \<Longrightarrow> \<exists>ms. osDelta s' = osDelta s @ map (\<lambda>m. (emit_type m, m)) ms"
  by (auto simp: mstore_SyncByIndex_def dest: rematch_deltas split: option.splits)

definition flushed :: "updateableStatus \<Rightarrow> updateableStatus" where
  "flushed st = st\<lparr>usNeedsUpdate := False\<rparr>"

lemma flushed_idem [simp]: "flushed (flushed st) = flushed st" "\<not> usNeedsUpdate st \<Longrightarrow> flushed st = st"
  "usNeedsUpdate (flushed st) = False"
  by (simp_all add: flushed_def)

lemma flush_loop_skip:
  "u key = None \<or> (\<exists>st. u key = Some st \<and> \<not> usNeedsUpdate st) \<Longrightarrow> flush_loop F (key # ks) u = flush_loop F ks u"
  by auto

lemma flush_loop_write:
  assumes "u key = Some st" "usNeedsUpdate st"
  shows "fst (flush_loop F (key # ks) u) = fst (flush_loop F ks (u(key \<mapsto> flushed st)))"
    and "set (fst (snd (flush_loop F (key # ks) u))) =
      (if fst (flush_one F key st) then {key} else {}) \<union> set (fst (snd (flush_loop F ks (u(key \<mapsto> flushed st)))))"
    and "set (snd (snd (flush_loop F (key # ks) u))) =
      set (fst (snd (flush_one F key st))) \<union> set (snd (snd (flush_loop F ks (u(key \<mapsto> flushed st)))))"
  using assms by (simp_all add: flushed_def Let_def split: prod.splits)

declare flush_loop.simps(2) [simp del]

lemma flush_loop_cases:
  assumes "u key = None \<or> (\<exists>st. u key = Some st \<and> \<not> usNeedsUpdate st) \<Longrightarrow> P"
    and "\<And>st. u key = Some st \<Longrightarrow> usNeedsUpdate st \<Longrightarrow> P"
  shows P
  using assms by (cases "u key") auto

lemma flush_loop_map:
  "fst (flush_loop F keys u) k = (if k \<in> set keys then map_option flushed (u k) else u k)"
proof (induction keys arbitrary: u)
  case (Cons key ks)
  show ?case
  proof (rule flush_loop_cases [of u key])
    assume skip: "u key = None \<or> (\<exists>st. u key = Some st \<and> \<not> usNeedsUpdate st)"
    then have "map_option flushed (u key) = u key" by auto
    then show ?thesis using Cons by (auto simp: flush_loop_skip [of u key, OF skip])
  qed (auto simp: flush_loop_write Cons)
qed simp

lemma flush_one_writes: "(key', ws) \<in> set (fst (snd (flush_one F key st))) \<Longrightarrow> key' = key"
  by (auto simp: flush_one_def Let_def split: sum.splits k8s_error.splits if_splits option.splits)

lemma flush_loop_deleted:
  "distinct keys \<Longrightarrow> k \<in> set (fst (snd (flush_loop F keys u))) \<longleftrightarrow>
     k \<in> set keys \<and> (\<exists>st. u k = Some st \<and> usNeedsUpdate st \<and> fst (flush_one F k st))"
proof (induction keys arbitrary: u)
  case (Cons key ks)
  show ?case
  proof (rule flush_loop_cases [of u key])
    assume skip: "u key = None \<or> (\<exists>st. u key = Some st \<and> \<not> usNeedsUpdate st)"
    then show ?thesis using Cons by (auto simp: flush_loop_skip [of u key, OF skip])
  qed (use Cons in \<open>auto simp: flush_loop_write\<close>)
qed simp

lemma flush_loop_writes:
  "distinct keys \<Longrightarrow> (k, ws) \<in> set (snd (snd (flush_loop F keys u))) \<longleftrightarrow>
     k \<in> set keys \<and> (\<exists>st. u k = Some st \<and> usNeedsUpdate st \<and> (k, ws) \<in> set (fst (snd (flush_one F k st))))"
proof (induction keys arbitrary: u)
  case (Cons key ks)
  show ?case
  proof (rule flush_loop_cases [of u key])
    assume skip: "u key = None \<or> (\<exists>st. u key = Some st \<and> \<not> usNeedsUpdate st)"
    then show ?thesis using Cons by (auto simp: flush_loop_skip [of u key, OF skip])
  qed (use Cons in \<open>auto simp: flush_loop_write dest: flush_one_writes\<close>)
qed simp

lemma workload_list_set:
  assumes "set (flUids F res) = dom res" "\<And>ws. set (flSort F ws) = set ws"
  shows "set (workload_list F res) = ran res"
  using assms by (force simp: workload_list_def List.map_filter_def ran_def)

text \<open>The order of the workloads is not one: each of two workloads can come before the other.\<close>

lemma ByAlphabetical_not_asym:
  "ByAlphabetical_Less (r\<lparr>wrNamespace := ''a'', wrName := ''z''\<rparr>) (r\<lparr>wrNamespace := ''b'', wrName := ''y''\<rparr>) \<and>
   ByAlphabetical_Less (r\<lparr>wrNamespace := ''b'', wrName := ''y''\<rparr>) (r\<lparr>wrNamespace := ''a'', wrName := ''z''\<rparr>)"
  by (simp add: ByAlphabetical_Less_def)

definition demo_flush :: flush_env where
  "demo_flush = \<lparr>flGet = \<lambda>k. Inl (NotFound []), flUpdate = \<lambda>k ws. None, flUids = \<lambda>r. list_of (dom r), flSort = \<lambda>ws. ws\<rparr>"

lemma demo_workload:
  "NewWorkloadResource (enObject demo_item) = Inr \<lparr>wrReferencedWorkloadName = [], wrNamespace = ''shop'', wrName = ''db-0'',
     wrUID = ''u1'', wrAPIVersion = ''v1'', wrKind = ''Pod''\<rparr>"
  by (simp add: NewWorkloadResource_def NewPredefinedGroupVersionKind_def demo_item_def demo_pod_def)

text \<open>
  A definition of all namespaces that is added while the store holds a pod of another
  namespace: the pod matches the definition.
\<close>

definition demo_all_mdef :: MeterDefinition where
  "demo_all_mdef = demo_mdef\<lparr>mdfNamespace := ''openshift-operators'', mdfName := ''all''\<rparr>"

definition demo_all_lookup :: MeterDefinitionLookupFilter where
  "demo_all_lookup = \<lparr>lfMeterDefinition = demo_all_mdef,
     lfFilters = [WorkloadNamespaceFilter [NamespaceAll] # tl (hd (lfFilters demo_lookup))]\<rparr>"

definition demo_metering :: "((string \<times> MeterDefinitionExtended) list, (string \<times> MeterDefinitionEnhancedObject) list) metering_env" where
  "demo_metering = \<lparr>mvStore = demo_store_env, mvCaches = demo_caches, mvVisits = demo_visits\<rparr>"

definition demo_unmatched :: "(string \<times> MeterDefinitionEnhancedObject) list object_store" where
  "demo_unmatched = \<lparr>osIndex = [(''v1/Pod:shop/db-0'', demo_item\<lparr>enMeterDefinitions := []\<rparr>)], osDelta = []\<rparr>"

lemma demo_all_matches:
  "lookup_New demo_env demo_all_mdef = Inr demo_all_lookup"
  "Matches demo_env demo_all_lookup (MetaObj demo_pod) = Inr True"
proof -
  show "lookup_New demo_env demo_all_mdef = Inr demo_all_lookup"
    by (simp add: demo_all_lookup_def demo_all_mdef_def demo_lookup_def demo_mdef_def demo_filter_def lookup_New_def
        createFilters_def createFilter_def findNamespacesForResource_def selector_filter_def WorkloadTypePod_def
        default_namespaces_def demo_selector)
  show "Matches demo_env demo_all_lookup (MetaObj demo_pod) = Inr True"
    using demo_owner_filter
    by (simp add: Matches_def demo_all_lookup_def demo_lookup_def Test_def NamespaceAll_def del: Filter_run.simps(3))
      (simp add: demo_pod_def)
qed

lemma demo_add_all:
  "\<exists>w alerted. mdef_Process demo_metering d (Added, Some \<lparr>mxMeterDefinition = demo_all_mdef, mxFilter = demo_all_lookup\<rparr>)
     \<lparr>mgWatcher = demo_watcher, mgStore = demo_unmatched\<rparr> = (\<lparr>mgWatcher = w, mgStore = demo_unmatched\<rparr>, alerted, None)"
  by (simp add: mdef_Process_def onAdd_def demo_metering_def Let_def mstore_SyncByIndex_def store_indexers_def
      IndexNamespace_def IndexMeterDefinition_def demo_unmatched_def alist_cache_def demo_item_def demo_pod_def
      demo_all_mdef_def split: prod.splits)

section \<open>Properties\<close>

text \<open>
  Processing a delta of the store changes exactly the definitions the delta names: each of
  them is marked for an update and has the workload entered under its UID, or removed for a
  deletion; every other definition keeps its workloads.
\<close>

theorem status_Process_spec:
  assumes "status_ok u" "NewWorkloadResource (enObject m) = Inr w"
  shows "\<exists>u'. status_Process uids (t, Inr m) u = (u', None) \<and> status_ok u' \<and>
    (\<forall>key. u' key =
       (if key \<in> mdef_key ` set (enMeterDefinitions m)
        then Some \<lparr>usNeedsUpdate = True,
          usResources = (case u key of None \<Rightarrow> Map.empty | Some st \<Rightarrow> usResources st)
            (wrUID w := (if t = Deleted then None else Some w))\<rparr>
        else u key))"
  using status_Process_loop_at [OF assms, of uids t "enMeterDefinitions m"]
  unfolding status_Process_def apply_workload_def by (simp only: fst_conv snd_conv sum.case)

theorem status_Process_spec_witness:
  "\<exists>u'. status_Process (\<lambda>r. []) (Added, Inr demo_item) Map.empty = (u', None) \<and>
     (\<exists>st. u' (''shop'', ''dbs'') = Some st \<and> dom (usResources st) = {''u1''})"
proof -
  have "status_ok Map.empty" by (simp add: status_ok_def)
  from status_Process_spec [OF this demo_workload, of "\<lambda>r. []" Added] show ?thesis
    by (force simp: demo_item_def mdef_key_def demo_mdef_def)
qed

text \<open>
  A workload that no definition matches any more stays in the status of the definitions
  it matched before. The deletions a synchronization of the store queues carry no
  definitions, and the status processor changes nothing on such a delta.
\<close>

theorem unmatched_workload_stays:
  assumes "mstore_SyncByIndex E C d n v s = (s', err)" "osDelta s' = osDelta s @ new" "(Deleted, m) \<in> set new"
  shows "status_Process uids (Deleted, Inr m) u = (u, None)"
  using SyncByIndex_deltas [OF assms(1)] assms(2,3)
  by (auto simp: emit_type_def status_Process_def split: if_splits)

theorem unmatched_workload_stays_witness:
  "status_Process (\<lambda>r. []) (Deleted, Inr (demo_item\<lparr>enMeterDefinitions := []\<rparr>)) Map.empty = (Map.empty, None)"
  using unmatched_workload_stays [OF demo_Sync, of "[(Deleted, demo_item\<lparr>enMeterDefinitions := []\<rparr>)]"]
  by (simp add: demo_rematched_def)

text \<open>
  A flush. Afterwards no tracked definition is marked: one that the API server does not
  know is no longer tracked, the others keep their workloads, also when their update
  failed. Exactly the marked definitions whose listed workloads differ in number or UIDs
  and whose update is accepted are written, each with all of its tracked workloads.
\<close>

theorem flush_spec:
  assumes "distinct keys" "set keys = dom u" "flush F keys u = (u', writes)"
    and "\<And>res. finite (dom res) \<Longrightarrow> set (flUids F res) = dom res" "\<And>ws. set (flSort F ws) = set ws"
    and "\<And>key st. u key = Some st \<Longrightarrow> finite (dom (usResources st))"
  shows "(\<forall>key. u' key =
      (case u key of
         None \<Rightarrow> None
       | Some st \<Rightarrow>
           (if usNeedsUpdate st \<and> (\<exists>e. flGet F key = Inl (NotFound e)) then None
            else Some (st\<lparr>usNeedsUpdate := False\<rparr>)))) \<and>
    (\<forall>key ws. (key, ws) \<in> set writes \<longrightarrow>
       (\<exists>st. u key = Some st \<and> usNeedsUpdate st \<and> set ws = ran (usResources st))) \<and>
    (\<forall>key st current. u key = Some st \<longrightarrow> usNeedsUpdate st \<longrightarrow> flGet F key = Inr current \<longrightarrow>
       flUpdate F key (workload_list F (usResources st)) = None \<longrightarrow>
       ((\<exists>ws. (key, ws) \<in> set writes) \<longleftrightarrow> \<not> status_equal current (usResources st)))"
proof -
  let ?r = "flush_loop F keys u"
  have u': "u' = fst ?r |` (- set (fst (snd ?r)))" and w: "writes = snd (snd ?r)"
    using assms(3) by (auto simp: flush_def Let_def split: prod.splits)
  have gone: "fst (flush_one F key st) \<longleftrightarrow> (\<exists>e. flGet F key = Inl (NotFound e))" for key st
    by (auto simp: flush_one_def Let_def split: sum.splits k8s_error.splits if_splits option.splits)
  have "u' key = (case u key of None \<Rightarrow> None
      | Some st \<Rightarrow> (if usNeedsUpdate st \<and> (\<exists>e. flGet F key = Inl (NotFound e)) then None
          else Some (st\<lparr>usNeedsUpdate := False\<rparr>)))" for key
    using flush_loop_map [of F keys u key] flush_loop_deleted [OF assms(1), of key F u] assms(2)
    by (auto simp: u' restrict_map_def gone flushed_def split: option.splits)
  moreover have "set ws = ran (usResources st)"
    if "u key = Some st" "(key, ws) \<in> set (fst (snd (flush_one F key st)))" for key st ws
    using that workload_list_set [OF assms(4) assms(5), OF assms(6)]
    by (auto simp: flush_one_def Let_def split: sum.splits k8s_error.splits if_splits option.splits)
  moreover have "(\<exists>ws. (key, ws) \<in> set writes) \<longleftrightarrow> \<not> status_equal current (usResources st)"
    if "u key = Some st" "usNeedsUpdate st" "flGet F key = Inr current"
      "flUpdate F key (workload_list F (usResources st)) = None" for key st current
    using flush_loop_writes [OF assms(1), of key _ F u] that assms(2)
    by (auto simp: w flush_one_def Let_def)
  ultimately show ?thesis
    using flush_loop_writes [OF assms(1)] by (auto simp: w)
qed


theorem flush_spec_witness:
  "fst (flush demo_flush [(''shop'', ''dbs'')] [(''shop'', ''dbs'') \<mapsto> newUpdateableStatus]) (''shop'', ''dbs'') = None"
proof -
  let ?u = "[(''shop'', ''dbs'') \<mapsto> newUpdateableStatus]"
  obtain u' writes where f: "flush demo_flush [(''shop'', ''dbs'')] ?u = (u', writes)" by fastforce
  have "finite (dom (usResources st))" if "?u key = Some st" for key st
    using that by (auto simp: newUpdateableStatus_def split: if_splits)
  from flush_spec [OF _ _ f _ _ this] have
    "u' (''shop'', ''dbs'') = (case ?u (''shop'', ''dbs'') of None \<Rightarrow> None
       | Some st \<Rightarrow> (if usNeedsUpdate st \<and> (\<exists>e. flGet demo_flush (''shop'', ''dbs'') = Inl (NotFound e)) then None
            else Some (st\<lparr>usNeedsUpdate := False\<rparr>)))"
    by (simp add: demo_flush_def list_of_finite)
  then show ?thesis unfolding f fst_conv by (simp add: demo_flush_def newUpdateableStatus_def)
qed

text \<open>
  Processing an added, updated or synchronized definition matches again only the objects
  in the definition's own namespace: an object the store holds in another namespace keeps
  the definitions it had, whether or not the definition covers it.
\<close>

theorem other_namespaces_not_rematched:
  assumes "cache_laws (snd (mvCaches V))" "keys_ok (mvStore V) (snd (mvCaches V)) (mgStore st)"
    and "t \<in> {Added, Updated, Sync}" "mdef_Process V d (t, Some x) st = (st', alerted, None)"
    and "caGet (snd (mvCaches V)) (osIndex (mgStore st)) k = Some m"
    and "obNamespace (enObject m) \<noteq> mdfNamespace (mxMeterDefinition x)"
  shows "caGet (snd (mvCaches V)) (osIndex (mgStore st')) k = Some m"
proof -
  let ?ns = "mdfNamespace (mxMeterDefinition x)"
  let ?objs = "caByIndex (snd (mvCaches V)) (\<lambda>m. [obNamespace (enObject m)]) (osIndex (mgStore st)) ?ns"
  have "mstore_SyncByIndex (mvStore V) (mvCaches V) d IndexNamespace ?ns (mgStore st) = (mgStore st', None)"
    using assms(3,4)
    by (auto simp: mdef_Process_def onAdd_def onUpdate_def onSync_def Let_def split: prod.splits)
  then have r: "rematch (mvStore V) (mvCaches V) d ?objs (mgStore st) = (mgStore st', None)"
    by (simp add: mstore_SyncByIndex_def store_indexers_def IndexNamespace_def IndexMeterDefinition_def)
  have objs: "set ?objs = {v \<in> ran (caGet (snd (mvCaches V)) (osIndex (mgStore st))). obNamespace (enObject v) = ?ns}"
    using assms(1) by (auto simp: cache_laws_def)
  show ?thesis
    by (rule rematch_entries(2) [OF r assms(1,2) _ assms(5)]) (use objs assms(6) in auto)
qed

theorem other_namespaces_not_rematched_witness:
  "\<exists>st' alerted. mdef_Process demo_metering [] (Added, Some \<lparr>mxMeterDefinition = demo_all_mdef, mxFilter = demo_all_lookup\<rparr>)
       \<lparr>mgWatcher = demo_watcher, mgStore = demo_unmatched\<rparr> = (st', alerted, None) \<and>
     caGet alist_cache (osIndex (mgStore st')) ''v1/Pod:shop/db-0'' = Some (demo_item\<lparr>enMeterDefinitions := []\<rparr>) \<and>
     Matches demo_env demo_all_lookup (MetaObj demo_pod) = Inr True"
proof -
  let ?V = demo_metering and ?st = "\<lparr>mgWatcher = demo_watcher, mgStore = demo_unmatched\<rparr>"
  let ?x = "\<lparr>mxMeterDefinition = demo_all_mdef, mxFilter = demo_all_lookup\<rparr>"
  obtain st' alerted where p: "mdef_Process ?V [] (Added, Some ?x) ?st = (st', alerted, None)"
    using demo_add_all by blast
  have C: "mvCaches ?V = demo_caches" "mvStore ?V = demo_store_env" by (simp_all add: demo_metering_def)
  have "caGet (snd (mvCaches ?V)) (osIndex (mgStore st')) ''v1/Pod:shop/db-0'' = Some (demo_item\<lparr>enMeterDefinitions := []\<rparr>)"
  proof (rule other_namespaces_not_rematched [OF _ _ _ p])
    show "cache_laws (snd (mvCaches ?V))" using demo_laws by (simp add: C)
    show "keys_ok (mvStore ?V) (snd (mvCaches ?V)) (mgStore ?st)"
      by (simp add: C keys_ok_def demo_unmatched_def alist_cache_def demo_item_def demo_key)
  qed (simp_all add: C demo_unmatched_def alist_cache_def demo_item_def demo_pod_def demo_all_mdef_def)
  then show ?thesis using p demo_all_matches by (simp add: C)
qed

end
