(* ===== verification/Retries.thy ===== *)
theory Retries
  imports Prelude
begin

text \<open>
  Attempts that are retried: \<open>retry.RetryOnConflict\<close> of the Kubernetes client is an
  argument of the definitions that use it, and this theory states what they rely on.
  An attempt changes a state and may return an error.
\<close>

type_synonym ('s, 'e) attempt = "'s \<Rightarrow> 's \<times> 'e option"

text \<open>When a controller wants to run again, without an error: not by itself, at once, or after some seconds.\<close>

datatype requeue = Stop | RequeueNow | RequeueAfter int

text \<open>How a run ends: with a result and an error, or in a panic.\<close>

datatype 'e reconcile_end = Returned requeue "'e option" | Panicked string

section \<open>Retried attempts\<close>

text \<open>
  What \<open>RetryOnConflict\<close> documents: the function is called until it returns something other
  than a conflict or the attempts, more than one, are used up.
\<close>

inductive retried :: "('e \<Rightarrow> bool) \<Rightarrow> ('s, 'e) attempt \<Rightarrow> 's \<Rightarrow> 's \<Rightarrow> 'e option \<Rightarrow> bool"
  for conflict f where
  once: "f s = (s', err) \<Longrightarrow> retried conflict f s s' err"
| again: "f s = (s1, Some e) \<Longrightarrow> conflict e \<Longrightarrow> retried conflict f s1 s' err \<Longrightarrow> retried conflict f s s' err"

definition retry_ok :: "('e \<Rightarrow> bool) \<Rightarrow> (('s, 'e) attempt \<Rightarrow> ('s, 'e) attempt) \<Rightarrow> bool" where
  "retry_ok conflict retry \<longleftrightarrow>
     (\<forall>f s s' err. retry f s = (s', err) \<longrightarrow>
        retried conflict f s s' err \<and>
        (\<forall>s1 e. f s = (s1, Some e) \<longrightarrow> conflict e \<longrightarrow> retried conflict f s1 s' err))"

lemma retried_settled:
  assumes "retried conflict f s s' err" "f s = (t, None)"
  shows "s' = t \<and> err = None"
  using assms by cases auto

lemma retried_invariant:
  assumes "retried conflict f s s' err" "P s" "\<And>t t' e. P t \<Longrightarrow> f t = (t', Some e) \<Longrightarrow> P t'"
  shows "\<exists>t. P t \<and> f t = (s', err)"
  using assms(1,2)
proof (induction rule: retried.induct)
  case (again s s1 e s' err)
  with assms(3) show ?case by blast
qed auto

lemma retry_okD: "retry_ok conflict retry \<Longrightarrow> retry f s = (s', err) \<Longrightarrow> retried conflict f s s' err"
  by (simp add: retry_ok_def)

lemma retry_again:
  "retry_ok conflict retry \<Longrightarrow> retry f s = (s', err) \<Longrightarrow> f s = (s1, Some e) \<Longrightarrow> conflict e \<Longrightarrow> retried conflict f s1 s' err"
  unfolding retry_ok_def by blast

section \<open>What attempts keep\<close>

definition keeps :: "('s \<Rightarrow> bool) \<Rightarrow> ('s, 'e) attempt \<Rightarrow> bool" where
  "keeps P f \<longleftrightarrow> (\<forall>s. P s \<longrightarrow> P (fst (f s)))"

lemma keepsI [intro?]: "(\<And>s s' err. P s \<Longrightarrow> f s = (s', err) \<Longrightarrow> P s') \<Longrightarrow> keeps P f"
  by (simp add: keeps_def) (metis prod.collapse)

lemma keepsD: "keeps P f \<Longrightarrow> P s \<Longrightarrow> f s = (s', err) \<Longrightarrow> P s'"
  by (metis fst_conv keeps_def)

lemma keeps_retried:
  assumes "retried conflict f s s' err" "keeps P f" "P s"
  shows "P s'"
  using assms(1,3) by (induction rule: retried.induct) (auto dest: keepsD [OF assms(2)])

lemma keeps_retry: "retry_ok conflict retry \<Longrightarrow> keeps P f \<Longrightarrow> keeps P (retry f)"
  by (rule keepsI) (blast dest: retry_okD intro: keeps_retried)

text \<open>The last attempt of a retry starts in a state that keeps what the attempts keep.\<close>

lemma retry_last:
  assumes "retry_ok conflict retry" "keeps P f" "P s" "retry f s = (s', err)"
  shows "\<exists>t. P t \<and> f t = (s', err)"
proof (rule retried_invariant)
  show "retried conflict f s s' err" using assms(1,4) by (rule retry_okD)
qed (use assms(2,3) keepsD in fast)+

section \<open>A concrete retry\<close>

fun demo_retry :: "nat \<Rightarrow> ('e \<Rightarrow> bool) \<Rightarrow> ('s, 'e) attempt \<Rightarrow> ('s, 'e) attempt" where
  "demo_retry 0 conflict f s = f s"
| "demo_retry (Suc n) conflict f s =
     (case f s of (s1, Some e) \<Rightarrow> if conflict e then demo_retry n conflict f s1 else (s1, Some e) | r \<Rightarrow> r)"

lemma demo_retry_retried: "demo_retry n conflict f s = (s', err) \<Longrightarrow> retried conflict f s s' err"
proof (induction n arbitrary: s)
  case (Suc n)
  then show ?case by (auto split: prod.splits option.splits if_splits intro: retried.intros)
qed (simp add: retried.once)

lemma demo_retry_ok: "retry_ok conflict (demo_retry (Suc n) conflict)"
  unfolding retry_ok_def using demo_retry_retried by (fastforce split: prod.splits option.splits if_splits)

end
