(* ===== verification/UsageRecords.thy ===== *)
theory UsageRecords
  imports MeterFilters "HOL-Library.Word"
begin

text \<open>
  The labels of a meter and the usage records made from them
  (\<open>v2/api/marketplace/common/prometheus.go\<close>, \<open>prometheus_templater.go\<close>, and
  \<open>ToPrometheusLabels\<close> of \<open>v2/api/marketplace/v1beta1/meterdefinition_types.go\<close>). Times
  and durations of this theory are milliseconds. The text/template engine with its sprig
  functions, the 64-bit hash, the date parser and the duration and list codecs of the
  JSON form are fields of an environment.
\<close>

section \<open>Labels\<close>

text \<open>An \<open>interface{}\<close> value of a label map: a string, a byte slice, nil, or a value of another type.\<close>

datatype any = AStr string | ABytes string | ANil | AOther string

type_synonym labels = "string \<rightharpoonup> any"

record MeterDefPrometheusLabels =
  plUID :: string
  plMeterDefName :: string
  plMeterDefNamespace :: string
  plExportedMeterDefNamespace :: string
  plWorkloadName :: string
  plWorkloadType :: string
  plMeterGroup :: string
  plMeterKind :: string
  plMetric :: string
  plMetricAggregation :: string
  plMetricPeriod :: "int option"
  plMetricQuery :: string
  plMetricWithout :: "string list option"
  plMetricGroupBy :: "string list option"
  plMetricType :: string
  plResourceName :: string
  plResourceNamespace :: string
  plLabel :: string
  plUnit :: string
  plDisplayName :: string
  plMeterDescription :: string
  plValueLabelOverride :: string
  plDateLabelOverride :: string

definition hour :: int where "hour = 3600000"

definition MetricTypeBillable :: string where "MetricTypeBillable = ''billable''"
definition MetricTypeLicense :: string where "MetricTypeLicense = ''license''"
definition MetricTypeAdoption :: string where "MetricTypeAdoption = ''adoption''"
definition MetricTypeEmpty :: string where "MetricTypeEmpty = []"
definition MetricTypeInfrastructure :: string where "MetricTypeInfrastructure = ''infrastructure''"

definition labels_Defaults :: "MeterDefPrometheusLabels \<Rightarrow> MeterDefPrometheusLabels" where
  "labels_Defaults m =
     (let m1 = (if plMetricPeriod m = None then m\<lparr>plMetricPeriod := Some hour\<rparr> else m) in
      if plMetricAggregation m1 = [] then m1\<lparr>plMetricAggregation := ''sum''\<rparr> else m1)"

definition labels_Namespace :: "MeterDefPrometheusLabels \<Rightarrow> string" where
  "labels_Namespace m =
     (if length (plExportedMeterDefNamespace m) \<noteq> 0 then plExportedMeterDefNamespace m else plMeterDefNamespace m)"

text \<open>The meters of a definition and its references.\<close>

record MeterWorkload =
  mwMetric :: string
  mwName :: string
  mwDescription :: string
  mwWorkloadType :: string
  mwMetricType :: string
  mwGroupBy :: "string list option"
  mwWithout :: "string list option"
  mwAggregation :: string
  mwPeriod :: "int option"
  mwQuery :: string
  mwLabel :: string
  mwUnit :: string
  mwDateLabelOverride :: string
  mwValueLabelOverride :: string

record MeterDefinitionSpec =
  mspGroup :: string
  mspKind :: string
  mspMeters :: "MeterWorkload list"

record MeterDefinitionReference =
  refName :: string
  refNamespace :: string
  refUID :: string
  refSpec :: "MeterDefinitionSpec option"

definition meter_labels :: "MeterDefinitionSpec \<Rightarrow> string \<Rightarrow> string \<Rightarrow> string \<Rightarrow> MeterWorkload \<Rightarrow> MeterDefPrometheusLabels" where
  "meter_labels spec uid name namespace meter =
     \<lparr>plUID = uid, plMeterDefName = name, plMeterDefNamespace = namespace, plExportedMeterDefNamespace = [],
      plWorkloadName = mwMetric meter, plWorkloadType = mwWorkloadType meter, plMeterGroup = mspGroup spec,
      plMeterKind = mspKind spec, plMetric = mwMetric meter, plMetricAggregation = mwAggregation meter,
      plMetricPeriod = mwPeriod meter, plMetricQuery = mwQuery meter, plMetricWithout = mwWithout meter,
      plMetricGroupBy = mwGroupBy meter, plMetricType = mwMetricType meter, plResourceName = [],
      plResourceNamespace = [], plLabel = mwLabel meter, plUnit = mwUnit meter, plDisplayName = mwName meter,
      plMeterDescription = mwDescription meter, plValueLabelOverride = mwValueLabelOverride meter,
      plDateLabelOverride = mwDateLabelOverride meter\<rparr>"

definition spec_ToPrometheusLabels ::
  "MeterDefinitionSpec \<Rightarrow> string \<Rightarrow> string \<Rightarrow> string \<Rightarrow> MeterDefPrometheusLabels list" where
  "spec_ToPrometheusLabels spec uid name namespace = map (meter_labels spec uid name namespace) (mspMeters spec)"

definition ref_ToPrometheusLabels :: "MeterDefinitionReference \<Rightarrow> MeterDefPrometheusLabels list result" where
  "ref_ToPrometheusLabels ref =
     (case refSpec ref of
        None \<Rightarrow> Inl (Err ''meter definition spec cannot be nil'')
      | Some spec \<Rightarrow> Inr (spec_ToPrometheusLabels spec (refUID ref) (refName ref) (refNamespace ref)))"

section \<open>The environment\<close>

text \<open>
  \<open>teParse\<close> parses a template and \<open>teExecute\<close> runs one on labels. \<open>teSum64\<close> is xxhash and
  \<open>teRFC3339\<close> the printed form of a time. \<open>teParseDate\<close> parses an RFC 3339 time and
  \<open>teParseDay\<close> a plain date; both return the day number of the date read. A JSON
  array keeps its elements in a text (\<open>teMarshalList\<close>, \<open>teUnmarshalList\<close>), a period its
  duration (\<open>teDurationString\<close>, \<open>teParseDuration\<close>).
\<close>

record template_env =
  teParse :: "string \<Rightarrow> go_error option"
  teExecute :: "string \<Rightarrow> labels \<Rightarrow> string result"
  teSum64 :: "string \<Rightarrow> 64 word"
  teRFC3339 :: "int \<Rightarrow> string"
  teParseDate :: "string \<Rightarrow> int option"
  teParseDay :: "string \<Rightarrow> int option"
  teMarshalList :: "string list \<Rightarrow> string"
  teUnmarshalList :: "string \<Rightarrow> string list result"
  teDurationString :: "int \<Rightarrow> string"
  teParseDuration :: "string \<Rightarrow> int result"

section \<open>Templates\<close>

text \<open>The fields with a \<open>template\<close> tag, in the order of the struct.\<close>

datatype template_field =
  FWorkloadName | FMeterGroup | FMeterKind | FMetric | FLabel | FUnit | FDisplayName | FMeterDescription |
  FValueLabelOverride | FDateLabelOverride

definition template_fields :: "template_field list" where
  "template_fields = [FWorkloadName, FMeterGroup, FMeterKind, FMetric, FLabel, FUnit, FDisplayName,
     FMeterDescription, FValueLabelOverride, FDateLabelOverride]"

fun get_field :: "template_field \<Rightarrow> MeterDefPrometheusLabels \<Rightarrow> string" where
  "get_field FWorkloadName m = plWorkloadName m"
| "get_field FMeterGroup m = plMeterGroup m"
| "get_field FMeterKind m = plMeterKind m"
| "get_field FMetric m = plMetric m"
| "get_field FLabel m = plLabel m"
| "get_field FUnit m = plUnit m"
| "get_field FDisplayName m = plDisplayName m"
| "get_field FMeterDescription m = plMeterDescription m"
| "get_field FValueLabelOverride m = plValueLabelOverride m"
| "get_field FDateLabelOverride m = plDateLabelOverride m"

fun set_field :: "template_field \<Rightarrow> string \<Rightarrow> MeterDefPrometheusLabels \<Rightarrow> MeterDefPrometheusLabels" where
  "set_field FWorkloadName v m = m\<lparr>plWorkloadName := v\<rparr>"
| "set_field FMeterGroup v m = m\<lparr>plMeterGroup := v\<rparr>"
| "set_field FMeterKind v m = m\<lparr>plMeterKind := v\<rparr>"
| "set_field FMetric v m = m\<lparr>plMetric := v\<rparr>"
| "set_field FLabel v m = m\<lparr>plLabel := v\<rparr>"
| "set_field FUnit v m = m\<lparr>plUnit := v\<rparr>"
| "set_field FDisplayName v m = m\<lparr>plDisplayName := v\<rparr>"
| "set_field FMeterDescription v m = m\<lparr>plMeterDescription := v\<rparr>"
| "set_field FValueLabelOverride v m = m\<lparr>plValueLabelOverride := v\<rparr>"
| "set_field FDateLabelOverride v m = m\<lparr>plDateLabelOverride := v\<rparr>"

type_synonym templater = "template_field \<rightharpoonup> string"

fun NewTemplate_loop ::
  "'e template_env_scheme \<Rightarrow> MeterDefPrometheusLabels \<Rightarrow> template_field list \<Rightarrow> templater \<Rightarrow> templater result" where
  "NewTemplate_loop E m [] acc = Inr acc"
| "NewTemplate_loop E m (f # fs) acc =
     (case teParse E (get_field f m) of
        Some err \<Rightarrow> Inl (wrap ''failed to parse template'' err)
      | None \<Rightarrow> NewTemplate_loop E m fs (acc(f \<mapsto> get_field f m)))"

definition NewTemplate :: "'e template_env_scheme \<Rightarrow> MeterDefPrometheusLabels \<Rightarrow> templater result" where
  "NewTemplate E m = NewTemplate_loop E m template_fields Map.empty"

text \<open>\<open>order\<close> is the order in which the range over the map of templates visits the fields.\<close>

fun templater_Execute ::
  "'e template_env_scheme \<Rightarrow> templater \<Rightarrow> labels \<Rightarrow> template_field list \<Rightarrow> MeterDefPrometheusLabels \<Rightarrow>
     MeterDefPrometheusLabels result" where
  "templater_Execute E tpl values [] m = Inr m"
| "templater_Execute E tpl values (f # order) m =
     (case tpl f of
        None \<Rightarrow> templater_Execute E tpl values order m
      | Some t \<Rightarrow>
          (case teExecute E t values of
             Inl err \<Rightarrow> Inl (wrap ''failed to execute buffer'' err)
           | Inr str \<Rightarrow> templater_Execute E tpl values order (set_field f str m)))"

section \<open>Usage records\<close>

record SamplePair =
  spTimestamp :: int
  spValue :: string

record MeterDefPrometheusLabelsTemplated =
  urLabels :: MeterDefPrometheusLabels
  urIntervalStart :: int
  urIntervalEnd :: int
  urValue :: string
  urLabelMap :: labels
  urNamespaceLabels :: "string \<rightharpoonup> smap"
  urK8sResources :: "any list"

text \<open>A label that names something: absent, or a string; any other value fails the type assertion.\<close>

definition string_label :: "labels \<Rightarrow> string \<Rightarrow> string \<Rightarrow> string result" where
  "string_label values key old =
     (case values key of
        None \<Rightarrow> Inr old
      | Some (AStr s) \<Rightarrow> Inr s
      | Some _ \<Rightarrow> Inl (Panic ''interface conversion''))"

definition resource_key :: "string \<Rightarrow> string option" where
  "resource_key wt =
     (if wt = WorkloadTypePVC then Some ''persistentvolumeclaim''
      else if wt = WorkloadTypePod then Some ''pod''
      else if wt = WorkloadTypeService then Some ''service'' else None)"

definition day_ms :: int where "day_ms = 86400000"

text \<open>
  \<open>time.Date\<close> of the date of an override and the clock of the sample: the whole seconds
  of the sample within its day, on the overriding day.
\<close>

definition on_day :: "int \<Rightarrow> int \<Rightarrow> int" where
  "on_day d start = d * day_ms + ((start mod day_ms) div 1000) * 1000"

definition override_start :: "'e template_env_scheme \<Rightarrow> string \<Rightarrow> int \<Rightarrow> int result" where
  "override_start E txt start =
     (case teParseDate E txt of
        Some d \<Rightarrow> Inr (on_day d start)
      | None \<Rightarrow>
          (case teParseDay E txt of
             Some d \<Rightarrow> Inr (on_day d start)
           | None \<Rightarrow> Inl (Err (''failed to parse overrideDate value '' @ txt))))"

definition record_interval ::
  "'e template_env_scheme \<Rightarrow> MeterDefPrometheusLabels \<Rightarrow> MeterDefPrometheusLabels \<Rightarrow> int \<Rightarrow> (int \<times> int) result" where
  "record_interval E m r timestamp =
     (case plMetricPeriod r of
        None \<Rightarrow> Inl (Panic ''nil pointer dereference'')
      | Some period \<Rightarrow>
          (if plDateLabelOverride m \<noteq> []
           then (case override_start E (plDateLabelOverride r) timestamp of
                   Inl err \<Rightarrow> Inl err
                 | Inr start \<Rightarrow> Inr (start, start + period))
           else Inr (timestamp, timestamp + period)))"

text \<open>The record of a sample from the executed templates \<open>r0\<close>.\<close>

definition templated_record ::
  "'e template_env_scheme \<Rightarrow> MeterDefPrometheusLabels \<Rightarrow> MeterDefPrometheusLabels \<Rightarrow> labels \<Rightarrow> SamplePair \<Rightarrow>
     MeterDefPrometheusLabelsTemplated result" where
  "templated_record E m r0 values pair =
     (case string_label values ''namespace'' (plResourceNamespace r0) of
        Inl err \<Rightarrow> Inl err
      | Inr ns \<Rightarrow>
          (case (case resource_key (plWorkloadType m) of
                   None \<Rightarrow> Inr (plResourceName r0)
                 | Some key \<Rightarrow> string_label values key (plResourceName r0)) of
             Inl err \<Rightarrow> Inl err
           | Inr name \<Rightarrow>
               (let r = r0\<lparr>plResourceNamespace := ns, plResourceName := name,
                           plLabel := (if plLabel r0 = [] then plMetric r0 else plLabel r0)\<rparr>;
                    value = (if plValueLabelOverride r \<noteq> [] then plValueLabelOverride r else spValue pair)
                in case record_interval E m r (spTimestamp pair) of
                     Inl err \<Rightarrow> Inl err
                   | Inr (start, stop) \<Rightarrow>
                       Inr \<lparr>urLabels = r, urIntervalStart = start, urIntervalEnd = stop, urValue = value,
                            urLabelMap = values, urNamespaceLabels = Map.empty, urK8sResources = []\<rparr>)))"

definition PrintTemplate ::
  "'e template_env_scheme \<Rightarrow> template_field list \<Rightarrow> MeterDefPrometheusLabels \<Rightarrow> labels \<Rightarrow> SamplePair \<Rightarrow>
     MeterDefPrometheusLabelsTemplated result" where
  "PrintTemplate E order m values pair =
     (case NewTemplate E m of
        Inl err \<Rightarrow> Inl err
      | Inr tpl \<Rightarrow>
          (case templater_Execute E tpl values order m of
             Inl err \<Rightarrow> Inl err
           | Inr r0 \<Rightarrow> templated_record E m r0 values pair))"

text \<open>The printed form (\<open>%x\<close>) of a 64-bit number.\<close>

definition hex_digit :: "nat \<Rightarrow> char" where
  "hex_digit d = (if d < 10 then char_of (48 + d) else char_of (87 + d))"

fun hex_nat :: "nat \<Rightarrow> string" where
  "hex_nat n = (if n < 16 then [hex_digit n] else hex_nat (n div 16) @ [hex_digit (n mod 16)])"

declare hex_nat.simps [simp del]

definition hash_text :: "'e template_env_scheme \<Rightarrow> MeterDefPrometheusLabelsTemplated \<Rightarrow> string" where
  "hash_text E r =
     teRFC3339 E (urIntervalStart r) @ teRFC3339 E (urIntervalEnd r) @ plMeterGroup (urLabels r) @
     plMeterKind (urLabels r) @ plMetric (urLabels r) @ plResourceNamespace (urLabels r) @
     plResourceName (urLabels r) @ plUnit (urLabels r)"

definition Hash :: "'e template_env_scheme \<Rightarrow> MeterDefPrometheusLabelsTemplated \<Rightarrow> string" where
  "Hash E r = hex_nat (unat (teSum64 E (hash_text E r)))"

section \<open>The label form\<close>

text \<open>
  \<open>ToLabels\<close> is the JSON object of the struct as a map of strings, \<open>FromLabels\<close> reads such
  a map. A string with \<open>omitempty\<close> is absent when it is empty. The keys that can fail
  are read in the order of their names, as the encoder of a map sorts them.
\<close>

definition omitempty :: "string \<Rightarrow> string option" where
  "omitempty v = (if v = [] then None else Some v)"

definition list_text :: "'e template_env_scheme \<Rightarrow> string list option \<Rightarrow> string" where
  "list_text E a = (case a of None \<Rightarrow> [] | Some xs \<Rightarrow> teMarshalList E xs)"

definition ToLabels :: "'e template_env_scheme \<Rightarrow> MeterDefPrometheusLabels \<Rightarrow> smap" where
  "ToLabels E m =
     [''meter_definition_uid'' \<mapsto> plUID m, ''name'' \<mapsto> plMeterDefName m, ''namespace'' \<mapsto> plMeterDefNamespace m,
      ''workload_name'' \<mapsto> plWorkloadName m, ''workload_type'' \<mapsto> plWorkloadType m,
      ''meter_group'' \<mapsto> plMeterGroup m, ''meter_kind'' \<mapsto> plMeterKind m, ''metric_label'' \<mapsto> plMetric m,
      ''metric_query'' \<mapsto> plMetricQuery m, ''metric_without'' \<mapsto> list_text E (plMetricWithout m)]
     (''exported_namespace'' := omitempty (plExportedMeterDefNamespace m),
      ''metric_aggregation'' := omitempty (plMetricAggregation m),
      ''metric_period'' := map_option (teDurationString E) (plMetricPeriod m),
      ''metric_group_by'' :=
        (case plMetricGroupBy m of None \<Rightarrow> None | Some xs \<Rightarrow> if xs = [] then None else Some (teMarshalList E xs)),
      ''metric_type'' := omitempty (plMetricType m),
      ''resource_name'' := omitempty (plResourceName m),
      ''resource_namespace'' := omitempty (plResourceNamespace m),
      ''label'' := omitempty (plLabel m), ''unit'' := omitempty (plUnit m),
      ''display_name'' := omitempty (plDisplayName m),
      ''meter_description'' := omitempty (plMeterDescription m),
      ''value_label_override'' := omitempty (plValueLabelOverride m),
      ''date_label_override'' := omitempty (plDateLabelOverride m))"

definition label_or_empty :: "smap \<Rightarrow> string \<Rightarrow> string" where
  "label_or_empty l k = (case l k of None \<Rightarrow> [] | Some v \<Rightarrow> v)"

definition JSONArray_UnmarshalText :: "'e template_env_scheme \<Rightarrow> string \<Rightarrow> string list result" where
  "JSONArray_UnmarshalText E str = (if length str = 0 then Inr [] else teUnmarshalList E str)"

definition read_list :: "'e template_env_scheme \<Rightarrow> string option \<Rightarrow> string list option result" where
  "read_list E v =
     (case v of
        None \<Rightarrow> Inr None
      | Some str \<Rightarrow> (case JSONArray_UnmarshalText E str of Inl err \<Rightarrow> Inl err | Inr xs \<Rightarrow> Inr (Some xs)))"

definition read_period :: "'e template_env_scheme \<Rightarrow> string option \<Rightarrow> int option result" where
  "read_period E v =
     (case v of
        None \<Rightarrow> Inr None
      | Some str \<Rightarrow> (case teParseDuration E str of Inl err \<Rightarrow> Inl err | Inr d \<Rightarrow> Inr (Some d)))"

definition FromLabels :: "'e template_env_scheme \<Rightarrow> smap \<Rightarrow> MeterDefPrometheusLabels result" where
  "FromLabels E l =
     (case read_list E (l ''metric_group_by'') of
        Inl err \<Rightarrow> Inl err
      | Inr groupBy \<Rightarrow>
          (case read_period E (l ''metric_period'') of
             Inl err \<Rightarrow> Inl err
           | Inr period \<Rightarrow>
               (case read_list E (l ''metric_without'') of
                  Inl err \<Rightarrow> Inl err
                | Inr without \<Rightarrow>
                    Inr (labels_Defaults
                      \<lparr>plUID = label_or_empty l ''meter_definition_uid'', plMeterDefName = label_or_empty l ''name'',
                       plMeterDefNamespace = label_or_empty l ''namespace'',
                       plExportedMeterDefNamespace = label_or_empty l ''exported_namespace'',
                       plWorkloadName = label_or_empty l ''workload_name'',
                       plWorkloadType = label_or_empty l ''workload_type'',
                       plMeterGroup = label_or_empty l ''meter_group'', plMeterKind = label_or_empty l ''meter_kind'',
                       plMetric = label_or_empty l ''metric_label'',
                       plMetricAggregation = label_or_empty l ''metric_aggregation'', plMetricPeriod = period,
                       plMetricQuery = label_or_empty l ''metric_query'', plMetricWithout = without,
                       plMetricGroupBy = groupBy, plMetricType = label_or_empty l ''metric_type'',
                       plResourceName = label_or_empty l ''resource_name'',
                       plResourceNamespace = label_or_empty l ''resource_namespace'',
                       plLabel = label_or_empty l ''label'', plUnit = label_or_empty l ''unit'',
                       plDisplayName = label_or_empty l ''display_name'',
                       plMeterDescription = label_or_empty l ''meter_description'',
                       plValueLabelOverride = label_or_empty l ''value_label_override'',
                       plDateLabelOverride = label_or_empty l ''date_label_override''\<rparr>))))"

section \<open>Properties\<close>

subsection \<open>The label form round trips\<close>

text \<open>What the codecs of lists and durations promise.\<close>

definition codecs_ok :: "'e template_env_scheme \<Rightarrow> bool" where
  "codecs_ok E \<longleftrightarrow>
     (\<forall>xs. teMarshalList E xs \<noteq> [] \<and> teUnmarshalList E (teMarshalList E xs) = Inr xs) \<and>
     (\<forall>d. teParseDuration E (teDurationString E d) = Inr d)"

text \<open>What the label form does not tell apart: a nil list from an empty one.\<close>

definition normal_lists :: "MeterDefPrometheusLabels \<Rightarrow> MeterDefPrometheusLabels" where
  "normal_lists m =
     m\<lparr>plMetricWithout := (case plMetricWithout m of None \<Rightarrow> Some [] | Some xs \<Rightarrow> Some xs),
       plMetricGroupBy := (case plMetricGroupBy m of None \<Rightarrow> None | Some xs \<Rightarrow> if xs = [] then None else Some xs)\<rparr>"

lemma label_or_empty_omitempty [simp]: "l k = omitempty v \<Longrightarrow> label_or_empty l k = v"
  by (auto simp: label_or_empty_def omitempty_def)

lemma read_list_text:
  assumes "codecs_ok E"
  shows "read_list E (Some (list_text E a)) = Inr (Some (case a of None \<Rightarrow> [] | Some xs \<Rightarrow> xs))"
  using assms by (cases a) (auto simp: read_list_def list_text_def JSONArray_UnmarshalText_def codecs_ok_def)

lemma read_group_by:
  assumes "codecs_ok E"
  shows "read_list E (case a of None \<Rightarrow> None | Some xs \<Rightarrow> if xs = [] then None else Some (teMarshalList E xs)) =
         Inr (case a of None \<Rightarrow> None | Some xs \<Rightarrow> if xs = [] then None else Some xs)"
  using assms by (cases a) (auto simp: read_list_def JSONArray_UnmarshalText_def codecs_ok_def)

lemma read_period_text:
  assumes "codecs_ok E"
  shows "read_period E (map_option (teDurationString E) p) = Inr p"
  using assms by (cases p) (auto simp: read_period_def codecs_ok_def)

lemma FromLabels_ToLabels:
  assumes "codecs_ok E"
  shows "FromLabels E (ToLabels E m) = Inr (labels_Defaults (normal_lists m))"
proof -
  have g: "read_list E (ToLabels E m ''metric_group_by'') =
      Inr (case plMetricGroupBy m of None \<Rightarrow> None | Some xs \<Rightarrow> if xs = [] then None else Some xs)"
    using read_group_by [OF assms] by (simp add: ToLabels_def)
  have p: "read_period E (ToLabels E m ''metric_period'') = Inr (plMetricPeriod m)"
    using read_period_text [OF assms] by (simp add: ToLabels_def)
  have w: "read_list E (ToLabels E m ''metric_without'') =
      Inr (Some (case plMetricWithout m of None \<Rightarrow> [] | Some xs \<Rightarrow> xs))"
    using read_list_text [OF assms] by (simp add: ToLabels_def)
  have some: "\<And>k v. ToLabels E m k = Some v \<Longrightarrow> label_or_empty (ToLabels E m) k = v"
    by (simp add: label_or_empty_def)
  note pres = some [of "''meter_definition_uid''"] some [of "''name''"] some [of "''namespace''"]
    some [of "''workload_name''"] some [of "''workload_type''"] some [of "''meter_group''"]
    some [of "''meter_kind''"] some [of "''metric_label''"] some [of "''metric_query''"]
  note om = label_or_empty_omitempty [of "ToLabels E m"]
  have l: "label_or_empty (ToLabels E m) ''meter_definition_uid'' = plUID m"
    "label_or_empty (ToLabels E m) ''name'' = plMeterDefName m"
    "label_or_empty (ToLabels E m) ''namespace'' = plMeterDefNamespace m"
    "label_or_empty (ToLabels E m) ''workload_name'' = plWorkloadName m"
    "label_or_empty (ToLabels E m) ''workload_type'' = plWorkloadType m"
    "label_or_empty (ToLabels E m) ''meter_group'' = plMeterGroup m"
    "label_or_empty (ToLabels E m) ''meter_kind'' = plMeterKind m"
    "label_or_empty (ToLabels E m) ''metric_label'' = plMetric m"
    "label_or_empty (ToLabels E m) ''metric_query'' = plMetricQuery m"
    by (rule pres, simp add: ToLabels_def)+
  have o: "label_or_empty (ToLabels E m) ''exported_namespace'' = plExportedMeterDefNamespace m"
    "label_or_empty (ToLabels E m) ''metric_aggregation'' = plMetricAggregation m"
    "label_or_empty (ToLabels E m) ''metric_type'' = plMetricType m"
    "label_or_empty (ToLabels E m) ''resource_name'' = plResourceName m"
    "label_or_empty (ToLabels E m) ''resource_namespace'' = plResourceNamespace m"
    "label_or_empty (ToLabels E m) ''label'' = plLabel m"
    "label_or_empty (ToLabels E m) ''unit'' = plUnit m"
    "label_or_empty (ToLabels E m) ''display_name'' = plDisplayName m"
    "label_or_empty (ToLabels E m) ''meter_description'' = plMeterDescription m"
    "label_or_empty (ToLabels E m) ''value_label_override'' = plValueLabelOverride m"
    "label_or_empty (ToLabels E m) ''date_label_override'' = plDateLabelOverride m"
    by (rule om, simp add: ToLabels_def)+
  show ?thesis
    by (simp add: FromLabels_def g p w l o normal_lists_def)
      (cases m, cases "plMetricWithout m"; simp)
qed

text \<open>
  C36: The label form of a meter round trips: reading back the labels written for a meter gives
  the meter with its defaults filled in (a period of one hour, aggregation by sum) and
  with nil and empty lists identified. The list and duration codecs have to read back
  what they print.
\<close>

theorem labels_round_trip:
  assumes "codecs_ok E"
  shows "FromLabels E (ToLabels E m) = Inr (labels_Defaults (normal_lists m))"
  using assms by (rule FromLabels_ToLabels)

subsection \<open>Templating does not depend on the map order\<close>

definition put_field :: "'e template_env_scheme \<Rightarrow> templater \<Rightarrow> labels \<Rightarrow> template_field \<Rightarrow>
    MeterDefPrometheusLabels \<Rightarrow> MeterDefPrometheusLabels" where
  "put_field E tpl values f m =
     (case tpl f of None \<Rightarrow> m | Some t \<Rightarrow> set_field f (projr (teExecute E t values)) m)"

lemma set_field_commute: "f \<noteq> g \<Longrightarrow> set_field f v (set_field g w m) = set_field g w (set_field f v m)"
  by (cases f; cases g; simp)

lemma put_field_commute: "put_field E tpl values f \<circ> put_field E tpl values g = put_field E tpl values g \<circ> put_field E tpl values f"
  by (cases "f = g") (auto simp: put_field_def fun_eq_iff set_field_commute split: option.splits)

lemma templater_Execute_fold:
  "templater_Execute E tpl values order m = Inr m' \<longleftrightarrow>
     (\<forall>f \<in> set order. \<forall>t. tpl f = Some t \<longrightarrow> \<not> is_err (teExecute E t values)) \<and>
     m' = fold (put_field E tpl values) order m"
proof (induction order arbitrary: m)
  case (Cons f order)
  show ?case
  proof (cases "tpl f")
    case None
    then show ?thesis using Cons.IH by (simp add: put_field_def)
  next
    case (Some t)
    then show ?thesis using Cons.IH by (cases "teExecute E t values") (auto simp: put_field_def)
  qed
qed auto

lemma templater_Execute_order:
  assumes "mset order = mset order'"
  shows "templater_Execute E tpl values order m = Inr m' \<longleftrightarrow> templater_Execute E tpl values order' m = Inr m'"
proof -
  have "fold (put_field E tpl values) order = fold (put_field E tpl values) order'"
    using assms by (intro fold_multiset_equiv) (auto intro: put_field_commute)
  moreover have "set order = set order'" using assms by (rule mset_eq_setD)
  ultimately show ?thesis by (simp add: templater_Execute_fold)
qed

text \<open>
  The record of a sample does not depend on the order in which the map of templates is
  visited: a record printed in one order is printed in every order.
\<close>

theorem PrintTemplate_order_irrelevant:
  assumes "mset order = mset order'"
  shows "PrintTemplate E order m values pair = Inr r \<longleftrightarrow> PrintTemplate E order' m values pair = Inr r"
proof (cases "NewTemplate E m")
  case (Inr tpl)
  have eq: "templater_Execute E tpl values order m = Inr r0 \<longleftrightarrow> templater_Execute E tpl values order' m = Inr r0" for r0
    using assms by (rule templater_Execute_order)
  have run: "PrintTemplate E ord m values pair = Inr r \<longleftrightarrow>
      (\<exists>r0. templater_Execute E tpl values ord m = Inr r0 \<and> templated_record E m r0 values pair = Inr r)" for ord
    using Inr by (cases "templater_Execute E tpl values ord m") (simp_all add: PrintTemplate_def)
  show ?thesis by (simp only: run eq)
qed (simp add: PrintTemplate_def)

subsection \<open>The record of a sample\<close>

lemma set_field_period [simp]:
  "plMetricPeriod (set_field f v m) = plMetricPeriod m"
  "plWorkloadType (set_field f v m) = plWorkloadType m"
  "plResourceName (set_field f v m) = plResourceName m"
  "plResourceNamespace (set_field f v m) = plResourceNamespace m"
  by (cases f; simp)+

lemma put_field_keeps [simp]:
  "plMetricPeriod (put_field E tpl values f m) = plMetricPeriod m"
  "plWorkloadType (put_field E tpl values f m) = plWorkloadType m"
  "plResourceName (put_field E tpl values f m) = plResourceName m"
  "plResourceNamespace (put_field E tpl values f m) = plResourceNamespace m"
  by (simp_all add: put_field_def split: option.split)

lemma fold_put_field_keeps [simp]:
  "plMetricPeriod (fold (put_field E tpl values) order m) = plMetricPeriod m"
  "plWorkloadType (fold (put_field E tpl values) order m) = plWorkloadType m"
  "plResourceName (fold (put_field E tpl values) order m) = plResourceName m"
  "plResourceNamespace (fold (put_field E tpl values) order m) = plResourceNamespace m"
  by (induction order arbitrary: m) auto

lemma on_day_split: "on_day d t div day_ms = d" "on_day d t mod day_ms = (t mod day_ms) div 1000 * 1000"
proof -
  have "0 \<le> (t mod day_ms) div 1000 * 1000 \<and> (t mod day_ms) div 1000 * 1000 < day_ms"
    using pos_mod_sign [of day_ms t] pos_mod_bound [of day_ms t]
    by (auto simp: day_ms_def)
  then show "on_day d t div day_ms = d" "on_day d t mod day_ms = (t mod day_ms) div 1000 * 1000"
    by (simp_all add: on_day_def)
qed

lemma record_interval_spec:
  assumes "record_interval E m r t = Inr (start, stop)"
  shows "(\<exists>period. plMetricPeriod r = Some period \<and> stop = start + period) \<and>
    (if plDateLabelOverride m = [] then start = t
     else start mod day_ms = (t mod day_ms) div 1000 * 1000 \<and>
       start div day_ms \<in>
         (set_option (teParseDate E (plDateLabelOverride r)) \<union> set_option (teParseDay E (plDateLabelOverride r))))"
  using assms
  by (auto simp: record_interval_def override_start_def on_day_split split: option.splits if_splits sum.splits)

lemma templated_record_Inr:
  "templated_record E m r0 values pair = Inr r \<longleftrightarrow>
     (\<exists>ns name start stop.
        string_label values ''namespace'' (plResourceNamespace r0) = Inr ns \<and>
        (case resource_key (plWorkloadType m) of None \<Rightarrow> Inr (plResourceName r0)
         | Some key \<Rightarrow> string_label values key (plResourceName r0)) = Inr name \<and>
        record_interval E m (urLabels r) (spTimestamp pair) = Inr (start, stop) \<and>
        r = \<lparr>urLabels = r0\<lparr>plResourceNamespace := ns, plResourceName := name,
                          plLabel := (if plLabel r0 = [] then plMetric r0 else plLabel r0)\<rparr>,
             urIntervalStart = start, urIntervalEnd = stop,
             urValue = (if plValueLabelOverride r0 \<noteq> [] then plValueLabelOverride r0 else spValue pair),
             urLabelMap = values, urNamespaceLabels = Map.empty, urK8sResources = []\<rparr>)"
  (is "?L \<longleftrightarrow> ?R")
proof
  assume L: ?L
  obtain ns where ns: "string_label values ''namespace'' (plResourceNamespace r0) = Inr ns"
    using L by (cases "string_label values ''namespace'' (plResourceNamespace r0)") (auto simp: templated_record_def)
  obtain name where name: "(case resource_key (plWorkloadType m) of None \<Rightarrow> Inr (plResourceName r0)
      | Some key \<Rightarrow> string_label values key (plResourceName r0)) = Inr name" (is "?N = _")
    using L ns by (cases ?N) (auto simp: templated_record_def)
  show ?R using L ns name by (simp add: templated_record_def Let_def split: sum.splits prod.splits) force
next
  assume ?R
  then show ?L by (elim exE conjE) (simp add: templated_record_def Let_def)
qed

text \<open>
  What a printed record holds. Its value is the overriding label when the executed override
  is not empty and the sample otherwise, its label the metric when the meter has none, its resource the
  labels of the sample that name one. Its interval has the length of the period and
  starts at the sample, or, with a date override, on the overriding day at the sample's
  time of day in whole seconds.
\<close>

theorem PrintTemplate_record:
  assumes "PrintTemplate E order m values pair = Inr r"
  shows "urLabelMap r = values \<and>
    (\<exists>period. plMetricPeriod m = Some period \<and> urIntervalEnd r = urIntervalStart r + period) \<and>
    urValue r = (if plValueLabelOverride (urLabels r) = [] then spValue pair else plValueLabelOverride (urLabels r)) \<and>
    (plLabel (urLabels r) = [] \<longrightarrow> plMetric (urLabels r) = []) \<and>
    (\<forall>ns. values ''namespace'' = Some (AStr ns) \<longrightarrow> plResourceNamespace (urLabels r) = ns) \<and>
    (if plDateLabelOverride m = [] then urIntervalStart r = spTimestamp pair
     else urIntervalStart r mod day_ms = (spTimestamp pair mod day_ms) div 1000 * 1000 \<and>
       urIntervalStart r div day_ms \<in>
         (set_option (teParseDate E (plDateLabelOverride (urLabels r))) \<union>
          set_option (teParseDay E (plDateLabelOverride (urLabels r)))))"
proof -
  from assms obtain tpl r0 where t: "NewTemplate E m = Inr tpl" and x: "templater_Execute E tpl values order m = Inr r0"
    and r: "templated_record E m r0 values pair = Inr r"
    by (auto simp: PrintTemplate_def split: sum.splits)
  have p: "plMetricPeriod r0 = plMetricPeriod m" using x by (simp add: templater_Execute_fold)
  from r have i: "record_interval E m (urLabels r) (spTimestamp pair) = Inr (urIntervalStart r, urIntervalEnd r)"
    and pl: "plMetricPeriod (urLabels r) = plMetricPeriod m"
    by (auto simp: templated_record_Inr p)
  have l: "urLabelMap r = values"
    "urValue r = (if plValueLabelOverride (urLabels r) = [] then spValue pair else plValueLabelOverride (urLabels r))"
    "plLabel (urLabels r) = [] \<longrightarrow> plMetric (urLabels r) = []"
    "\<forall>ns. values ''namespace'' = Some (AStr ns) \<longrightarrow> plResourceNamespace (urLabels r) = ns"
    using r by (auto simp: templated_record_Inr string_label_def split: if_splits)
  show ?thesis
    using l record_interval_spec [OF i] unfolding pl by blast
qed

subsection \<open>A concrete environment\<close>

text \<open>
  A list is written with every character marked and every element closed, a duration in
  unary; templates are plain text.
\<close>

definition demo_marshal :: "string list \<Rightarrow> string" where
  "demo_marshal xs = CHR ''['' # concat (map (\<lambda>x. concat (map (\<lambda>c. [CHR ''c'', c]) x) @ '';'') xs)"

fun demo_read :: "string \<Rightarrow> string \<Rightarrow> string list" where
  "demo_read (a # b # t) cur = (if a = CHR ''c'' then demo_read t (cur @ [b]) else cur # demo_read (b # t) [])"
| "demo_read [a] cur = [cur]"
| "demo_read [] cur = []"

definition demo_duration :: "int \<Rightarrow> string" where
  "demo_duration d = (if d < 0 then replicate (nat (- d)) CHR ''m'' else replicate (nat d) CHR ''p'')"

definition demo_parse_duration :: "string \<Rightarrow> int result" where
  "demo_parse_duration s = Inr (if s \<noteq> [] \<and> hd s = CHR ''m'' then - int (length s) else int (length s))"

definition demo_templates :: template_env where
  "demo_templates = \<lparr>teParse = (\<lambda>_. None), teExecute = (\<lambda>t _. Inr t), teSum64 = (\<lambda>s. of_nat (length s)),
     teRFC3339 = (\<lambda>t. if t < 0 then ''-'' else ''+''), teParseDate = (\<lambda>_. None),
     teParseDay = (\<lambda>s. if s = ''2024-01-02'' then Some 19724 else None),
     teMarshalList = demo_marshal, teUnmarshalList = (\<lambda>s. Inr (demo_read (tl s) [])),
     teDurationString = demo_duration, teParseDuration = demo_parse_duration\<rparr>"

definition demo_meter :: MeterDefPrometheusLabels where
  "demo_meter = \<lparr>plUID = ''u'', plMeterDefName = ''md'', plMeterDefNamespace = ''ns'',
     plExportedMeterDefNamespace = [], plWorkloadName = ''cpu'', plWorkloadType = WorkloadTypePod,
     plMeterGroup = ''g'', plMeterKind = ''k'', plMetric = ''cpu'', plMetricAggregation = [],
     plMetricPeriod = Some hour, plMetricQuery = ''q'', plMetricWithout = None, plMetricGroupBy = Some [''pod''],
     plMetricType = [], plResourceName = [], plResourceNamespace = [], plLabel = [], plUnit = ''core'',
     plDisplayName = [], plMeterDescription = [], plValueLabelOverride = [],
     plDateLabelOverride = ''2024-01-02''\<rparr>"

definition demo_labels :: labels where
  "demo_labels = [''namespace'' \<mapsto> AStr ''app'', ''pod'' \<mapsto> AStr ''web'']"

definition demo_pair :: SamplePair where
  "demo_pair = \<lparr>spTimestamp = 3600500, spValue = ''2''\<rparr>"

lemma demo_read_chars:
  "demo_read (concat (map (\<lambda>c. [CHR ''c'', c]) x) @ CHR '';'' # t) cur = (cur @ x) # demo_read t []"
proof (induction x arbitrary: cur)
  case Nil
  show ?case by (cases t) auto
qed auto

lemma demo_read_marshal: "demo_read (concat (map (\<lambda>x. concat (map (\<lambda>c. [CHR ''c'', c]) x) @ '';'') xs)) [] = xs"
  by (induction xs) (auto simp: demo_read_chars)

lemma demo_codecs: "codecs_ok demo_templates"
  by (auto simp: codecs_ok_def demo_templates_def demo_marshal_def demo_read_marshal demo_duration_def
      demo_parse_duration_def hd_replicate)

theorem labels_round_trip_witness:
  "codecs_ok demo_templates \<and>
   FromLabels demo_templates (ToLabels demo_templates demo_meter) =
     Inr (demo_meter\<lparr>plMetricWithout := Some [], plMetricAggregation := ''sum''\<rparr>)"
  using labels_round_trip [OF demo_codecs, of demo_meter] demo_codecs
  by (simp add: labels_Defaults_def normal_lists_def demo_meter_def)

theorem PrintTemplate_order_irrelevant_witness:
  "\<exists>r. PrintTemplate demo_templates (rev template_fields) demo_meter demo_labels demo_pair = Inr r \<and>
       PrintTemplate demo_templates template_fields demo_meter demo_labels demo_pair = Inr r"
proof -
  have "\<exists>r. PrintTemplate demo_templates template_fields demo_meter demo_labels demo_pair = Inr r"
    by (simp add: PrintTemplate_def NewTemplate_def template_fields_def demo_templates_def demo_meter_def
        templated_record_def string_label_def demo_labels_def resource_key_def WorkloadTypePod_def
        WorkloadTypePVC_def record_interval_def override_start_def Let_def)
  then obtain r where "PrintTemplate demo_templates template_fields demo_meter demo_labels demo_pair = Inr r" ..
  then show ?thesis
    using PrintTemplate_order_irrelevant [of "rev template_fields" template_fields demo_templates demo_meter
        demo_labels demo_pair r] by auto
qed

theorem PrintTemplate_record_witness:
  "\<exists>r. PrintTemplate demo_templates template_fields demo_meter demo_labels demo_pair = Inr r \<and>
       urIntervalStart r div day_ms = 19724 \<and> plResourceNamespace (urLabels r) = ''app''"
proof -
  have "\<exists>r. PrintTemplate demo_templates template_fields demo_meter demo_labels demo_pair = Inr r \<and>
      plDateLabelOverride (urLabels r) = ''2024-01-02''"
    by (simp add: PrintTemplate_def NewTemplate_def template_fields_def demo_templates_def demo_meter_def
        templated_record_def string_label_def demo_labels_def resource_key_def WorkloadTypePod_def
        WorkloadTypePVC_def record_interval_def override_start_def Let_def)
  then obtain r where r: "PrintTemplate demo_templates template_fields demo_meter demo_labels demo_pair = Inr r"
    and d: "plDateLabelOverride (urLabels r) = ''2024-01-02''" by blast
  have m: "plDateLabelOverride demo_meter \<noteq> []" by (simp add: demo_meter_def)
  have n: "demo_labels ''namespace'' = Some (AStr ''app'')" by (simp add: demo_labels_def)
  have p: "teParseDate demo_templates ''2024-01-02'' = None" "teParseDay demo_templates ''2024-01-02'' = Some 19724"
    by (simp_all add: demo_templates_def)
  show ?thesis
    using r n PrintTemplate_record [OF r] by (auto simp: m d p)
qed

end
