(* ===== verification/PromQueries.thy ===== *)
theory PromQueries
  imports UsageRecords
begin

text \<open>
  The Prometheus queries of the reporter (\<open>v2/pkg/prometheus/query.go\<close>): the arguments of
  a meter's query with their defaults, the printed query and the calls of the query
  interface. The sprig functions of the query template and the Prometheus client are
  fields of an environment; a query that is printed changes its own label lists, as in
  the source.
\<close>

section \<open>Query arguments\<close>

record PromQueryArgs =
  pqType :: string
  pqMeterDef :: "string \<times> string"
  pqMetric :: string
  pqQuery :: string
  pqStart :: int
  pqEnd :: int
  pqStep :: int
  pqAggregateFunc :: string
  pqLabelReplacePrefix :: string
  pqLabelReplaceSuffix :: string
  pqMetricType :: string
  pqGroupBy :: "string list"
  pqWithout :: "string list"
  pqdefaultWithout :: "string list"
  pqdefaultGroupBy :: "string list"

definition typeNotSupportedError :: "PromQueryArgs \<Rightarrow> go_error" where
  "typeNotSupportedError q = Panic ''type is not supported''"

fun dedupe_loop :: "string list \<Rightarrow> string list \<Rightarrow> string list" where
  "dedupe_loop keys [] = []"
| "dedupe_loop keys (entry # rest) =
     (if entry \<notin> set keys then entry # dedupe_loop (entry # keys) rest else dedupe_loop keys rest)"

definition dedupeStringSlice :: "string list \<Rightarrow> string list" where
  "dedupeStringSlice xs = dedupe_loop [] xs"

definition alwaysWithout :: "string list" where
  "alwaysWithout = [''instance'', ''container'', ''endpoint'', ''job'', ''cluster_ip'', ''exported_namespace'',
     ''prometheus'', ''priority_class'']"

definition type_without :: "string \<Rightarrow> string list option" where
  "type_without t =
     (if t = WorkloadTypePVC
      then Some [''instance'', ''container'', ''endpoint'', ''job'', ''service'', ''pod'', ''pod_uid'', ''pod_ip'',
                 ''exported_persistentvolumeclaim'']
      else if t = WorkloadTypePod
      then Some [''pod_uid'', ''pod_ip'', ''instance'', ''image_id'', ''host_ip'', ''node'', ''container'', ''job'',
                 ''service'', ''exported_pod'']
      else if t = WorkloadTypeService
      then Some [''pod_uid'', ''instance'', ''container'', ''endpoint'', ''job'', ''pod'', ''exported_service'']
      else None)"

definition setDefaultWithout :: "PromQueryArgs \<Rightarrow> PromQueryArgs result" where
  "setDefaultWithout q =
     (case type_without (pqType q) of
        None \<Rightarrow> Inl (typeNotSupportedError q)
      | Some w \<Rightarrow> Inr (q\<lparr>pqdefaultWithout := dedupeStringSlice (w @ alwaysWithout)\<rparr>))"

definition type_group_by :: "string \<Rightarrow> string list option" where
  "type_group_by t =
     (if t = WorkloadTypePVC then Some [''persistentvolumeclaim'', ''namespace'']
      else if t = WorkloadTypePod then Some [''pod'', ''namespace'']
      else if t = WorkloadTypeService then Some [''service'', ''namespace''] else None)"

definition setDefaultGroupBy :: "PromQueryArgs \<Rightarrow> PromQueryArgs result" where
  "setDefaultGroupBy q =
     (case type_group_by (pqType q) of
        None \<Rightarrow> Inl (typeNotSupportedError q)
      | Some g \<Rightarrow> Inr (q\<lparr>pqdefaultGroupBy := dedupeStringSlice g\<rparr>))"

definition setDefaultLabelReplacePrefix :: "PromQueryArgs \<Rightarrow> PromQueryArgs" where
  "setDefaultLabelReplacePrefix q = q\<lparr>pqLabelReplacePrefix := ''label_replace(label_replace(''\<rparr>"

text \<open>A double quote.\<close>

definition dq :: string where "dq = [CHR 0x22]"

definition quoted :: "string \<Rightarrow> string" where "quoted s = dq @ s @ dq"

text \<open>The tail of the two label replacements of a workload label.\<close>

definition replace_suffix :: "string \<Rightarrow> string" where
  "replace_suffix label =
     '','' @ quoted ''namespace'' @ '','' @ quoted ''$1'' @ '','' @ quoted ''exported_namespace'' @ '','' @
     quoted ''(.+)'' @ ''),'' @ quoted label @ '','' @ quoted ''$1'' @ '','' @ quoted (''exported_'' @ label) @
     '','' @ quoted ''(.+)'' @ '')''"

definition setDefaultLabelReplaceSuffix :: "PromQueryArgs \<Rightarrow> PromQueryArgs result" where
  "setDefaultLabelReplaceSuffix q =
     (if pqType q = WorkloadTypePVC then Inr (q\<lparr>pqLabelReplaceSuffix := replace_suffix ''persistentvolumeclaim''\<rparr>)
      else if pqType q = WorkloadTypePod then Inr (q\<lparr>pqLabelReplaceSuffix := replace_suffix ''pod''\<rparr>)
      else if pqType q = WorkloadTypeService then Inr (q\<lparr>pqLabelReplaceSuffix := replace_suffix ''service''\<rparr>)
      else Inl (typeNotSupportedError q))"

definition defaulter :: "PromQueryArgs \<Rightarrow> PromQueryArgs result" where
  "defaulter q =
     (case setDefaultWithout q of
        Inl err \<Rightarrow> Inl err
      | Inr q1 \<Rightarrow>
          (case setDefaultGroupBy q1 of
             Inl err \<Rightarrow> Inl err
           | Inr q2 \<Rightarrow> setDefaultLabelReplaceSuffix (setDefaultLabelReplacePrefix q2)))"

definition NewPromQuery :: "PromQueryArgs \<Rightarrow> PromQueryArgs result" where
  "NewPromQuery args = defaulter args"

definition slice_of :: "string list option \<Rightarrow> string list" where
  "slice_of a = (case a of None \<Rightarrow> [] | Some xs \<Rightarrow> xs)"

definition query_args :: "MeterDefPrometheusLabels \<Rightarrow> int \<Rightarrow> int \<Rightarrow> string \<Rightarrow> PromQueryArgs" where
  "query_args m start stop metricType =
     \<lparr>pqType = plWorkloadType m, pqMeterDef = (plMeterDefName m, labels_Namespace m), pqMetric = plMetric m,
      pqQuery = plMetricQuery m, pqStart = start, pqEnd = stop,
      pqStep = (case plMetricPeriod m of None \<Rightarrow> hour | Some d \<Rightarrow> d), pqAggregateFunc = plMetricAggregation m,
      pqLabelReplacePrefix = [], pqLabelReplaceSuffix = [], pqMetricType = metricType,
      pqGroupBy = slice_of (plMetricGroupBy m), pqWithout = slice_of (plMetricWithout m),
      pqdefaultWithout = [], pqdefaultGroupBy = []\<rparr>"

definition NewPromQueryFromLabels :: "MeterDefPrometheusLabels \<Rightarrow> int \<Rightarrow> int \<Rightarrow> PromQueryArgs result" where
  "NewPromQueryFromLabels m start stop = NewPromQuery (query_args m start stop (plMetricType m))"

text \<open>The older constructor leaves the metric type empty.\<close>

definition PromQueryFromLabels :: "MeterDefPrometheusLabels \<Rightarrow> int \<Rightarrow> int \<Rightarrow> PromQueryArgs result" where
  "PromQueryFromLabels m start stop = NewPromQuery (query_args m start stop [])"

section \<open>The printed query\<close>

record ResultQueryArgs =
  raMeterName :: string
  raQuery :: string
  raAggregateFunc :: string
  raLabelReplacePrefix :: string
  raLabelReplaceSuffix :: string
  raQueryFilters :: "string list"
  raGroupBy :: "string list"
  raWithout :: "string list"
  raDefaultWithout :: "string list"
  raDefaultGroupBy :: "string list"

definition makeLabel :: "string \<Rightarrow> string \<Rightarrow> string" where
  "makeLabel key value = key @ ''='' @ quoted value"

definition meter_name :: "string \<Rightarrow> (string \<times> string list) option" where
  "meter_name t =
     (if t = WorkloadTypePVC then Some (''meterdef_persistentvolumeclaim_info'', [makeLabel ''phase'' ''Bound''])
      else if t = WorkloadTypePod then Some (''meterdef_pod_info'', [])
      else if t = WorkloadTypeService then Some (''meterdef_service_info'', []) else None)"

text \<open>The labels of the default grouping that the grouping of the meter leaves out.\<close>

definition ungrouped :: "string list \<Rightarrow> string list \<Rightarrow> string list" where
  "ungrouped defaultGroupBy groupBy = filter (\<lambda>g. g \<notin> set groupBy) defaultGroupBy"

text \<open>The query as \<open>GetQueryArgs\<close> leaves it, and the arguments of the template.\<close>

definition GetQueryArgs :: "PromQueryArgs \<Rightarrow> (PromQueryArgs \<times> ResultQueryArgs) result" where
  "GetQueryArgs q =
     (case meter_name (pqType q) of
        None \<Rightarrow> Inl (typeNotSupportedError q)
      | Some (meterName, filters) \<Rightarrow>
          (let defaultWithout = dedupeStringSlice (pqdefaultWithout q @ alwaysWithout);
               without = (if length (pqWithout q) = 0 \<and> length (pqGroupBy q) > 0
                          then ungrouped (pqdefaultGroupBy q) (pqGroupBy q) else pqWithout q) @ alwaysWithout;
               q' = q\<lparr>pqdefaultWithout := defaultWithout, pqWithout := without\<rparr>
           in Inr (q',
                \<lparr>raMeterName = meterName, raQuery = pqQuery q, raAggregateFunc = pqAggregateFunc q,
                 raLabelReplacePrefix = pqLabelReplacePrefix q, raLabelReplaceSuffix = pqLabelReplaceSuffix q,
                 raQueryFilters = [makeLabel ''meter_def_name'' (fst (pqMeterDef q)),
                                   makeLabel ''meter_def_namespace'' (snd (pqMeterDef q))] @ filters,
                 raGroupBy = pqGroupBy q, raWithout = without, raDefaultWithout = defaultWithout,
                 raDefaultGroupBy = pqdefaultGroupBy q\<rparr>)))"

text \<open>
  The sprig functions, and the query call of the client, which may fail with an error of
  the interface (its type and message) or another error.
\<close>

datatype prom_error = APIError string string | OtherErr go_error

datatype query_error = ClientErrorUnauthorized prom_error | ClientError prom_error | ServerError prom_error
  | Plain prom_error | is_QueryPanic: QueryPanic go_error

record SampleStream =
  ssMetric :: smap
  ssValues :: "SamplePair list"

datatype model_value = ValMatrix "SampleStream list" | ValVector | ValScalar | ValString | ValNone

record prom_env = template_env +
  peDefault :: "string list \<Rightarrow> string list \<Rightarrow> string list"
  peSortAlpha :: "string list \<Rightarrow> string list"
  peJoin :: "string \<Rightarrow> string list \<Rightarrow> string"
  peQueryRange :: "nat \<Rightarrow> string \<Rightarrow> int \<Rightarrow> int \<Rightarrow> int \<Rightarrow> prom_error + model_value"
  peLabelValues :: "nat \<Rightarrow> string \<Rightarrow> string list \<Rightarrow> int \<Rightarrow> int \<Rightarrow> prom_error + string list"

definition result_query :: "'e prom_env_scheme \<Rightarrow> ResultQueryArgs \<Rightarrow> string" where
  "result_query E a =
     (let group = peJoin E '','' (peSortAlpha E (peDefault E (raDefaultGroupBy a) (raGroupBy a))) in
      raAggregateFunc a @ '' by ('' @ group @ '') (avg('' @ raLabelReplacePrefix a @ raMeterName a @ ''{'' @
      peJoin E '','' (raQueryFilters a) @ ''}'' @ raLabelReplaceSuffix a @ '') without('' @
      peJoin E '','' (peSortAlpha E (raDefaultWithout a)) @ '') * on('' @ peJoin E '','' (raDefaultGroupBy a) @
      '') group_right '' @ raQuery a @ '') * on('' @ group @ '') group_right group('' @ raQuery a @ '') without('' @
      peJoin E '','' (peSortAlpha E (peDefault E (raDefaultWithout a) (raWithout a))) @ '')'')"

definition query_Print :: "'e prom_env_scheme \<Rightarrow> PromQueryArgs \<Rightarrow> (PromQueryArgs \<times> string) result" where
  "query_Print E q =
     (case GetQueryArgs q of Inl err \<Rightarrow> Inl err | Inr (q', a) \<Rightarrow> Inr (q', result_query E a))"

section \<open>Query calls\<close>

fun starts_with :: "string \<Rightarrow> string \<Rightarrow> bool" where
  "starts_with [] s = True"
| "starts_with (c # cs) [] = False"
| "starts_with (c # cs) (d # ds) = (c = d \<and> starts_with cs ds)"

text \<open>\<open>strings.Contains\<close>.\<close>

fun contains :: "string \<Rightarrow> string \<Rightarrow> bool" where
  "contains [] sub = (sub = [])"
| "contains (c # cs) sub = (starts_with sub (c # cs) \<or> contains cs sub)"

definition ErrClient :: string where "ErrClient = ''client_error''"

definition toError :: "prom_error \<Rightarrow> query_error" where
  "toError err =
     (case err of
        APIError typ msg \<Rightarrow>
          (if typ = ErrClient
           then (if contains (map to_lower msg) ''unauthorized'' then ClientErrorUnauthorized err else ClientError err)
           else ServerError err)
      | OtherErr e \<Rightarrow> Plain err)"

definition answer :: "prom_error + 'a \<Rightarrow> query_error + 'a" where
  "answer r = (case r of Inl err \<Rightarrow> Inl (toError err) | Inr v \<Rightarrow> Inr v)"

text \<open>The first argument of a call is its tag, which tells calls with the same text apart.\<close>

definition ReportQuery :: "'e prom_env_scheme \<Rightarrow> nat \<Rightarrow> PromQueryArgs \<Rightarrow> PromQueryArgs \<times> (query_error + model_value)" where
  "ReportQuery E n q =
     (case query_Print E q of
        Inl err \<Rightarrow> (q, Inl (QueryPanic err))
      | Inr (q', txt) \<Rightarrow> (q', answer (peQueryRange E n txt (pqStart q) (pqEnd q - 1) (pqStep q))))"

definition meterDefinitionQueryText :: "'e prom_env_scheme \<Rightarrow> int \<Rightarrow> string" where
  "meterDefinitionQueryText E step =
     ''max_over_time(((max without (container, endpoint, instance, job, meter_definition_uid, pod, service) '' @
     ''(meterdef_metric_label_info{})) or on() vector(0))['' @ teDurationString E step @ '':'' @
     teDurationString E step @ ''])''"

definition QueryMeterDefinitions :: "'e prom_env_scheme \<Rightarrow> nat \<Rightarrow> int \<Rightarrow> int \<Rightarrow> int \<Rightarrow> query_error + model_value" where
  "QueryMeterDefinitions E n start stop step =
     answer (peQueryRange E n (meterDefinitionQueryText E step) start stop step)"

text \<open>\<open>strings.Join\<close>.\<close>

fun strings_Join :: "string \<Rightarrow> string list \<Rightarrow> string" where
  "strings_Join sep [] = []"
| "strings_Join sep [x] = x"
| "strings_Join sep (x # xs) = x @ sep @ strings_Join sep xs"

definition namespaceLabelsQueryText :: "string list \<Rightarrow> string" where
  "namespaceLabelsQueryText namespaces =
     ''kube_namespace_labels{namespace=~'' @ quoted (strings_Join ''|'' namespaces) @ ''}''"

definition QueryNamespaceLabels ::
  "'e prom_env_scheme \<Rightarrow> nat \<Rightarrow> string list \<Rightarrow> int \<Rightarrow> int \<Rightarrow> int \<Rightarrow> query_error + model_value" where
  "QueryNamespaceLabels E n namespaces start stop step =
     answer (peQueryRange E n (namespaceLabelsQueryText namespaces) start stop step)"

definition MeterDefLabelValues :: "'e prom_env_scheme \<Rightarrow> nat \<Rightarrow> int \<Rightarrow> string list \<Rightarrow> query_error + string list" where
  "MeterDefLabelValues E n now matches = answer (peLabelValues E n ''meter_def_name'' matches (now - hour) now)"

section \<open>Retries\<close>

text \<open>
  \<open>utils.Retry\<close> (\<open>v2/pkg/utils/concurrency.go\<close>): the first attempt and, while there is an
  error, the given number of further ones. The attempts pass a state on; the waiting times
  are not modelled.
\<close>

fun Retry_loop :: "(nat \<Rightarrow> 's \<Rightarrow> 's \<times> ('e + 'a)) \<Rightarrow> nat \<Rightarrow> nat \<Rightarrow> 'e \<Rightarrow> 's \<Rightarrow> 's \<times> ('e + 'a)" where
  "Retry_loop f 0 i err s = (s, Inl err)"
| "Retry_loop f (Suc n) i err s =
     (case f i s of (s', Inr v) \<Rightarrow> (s', Inr v) | (s', Inl err') \<Rightarrow> Retry_loop f n (Suc i) err' s')"

definition Retry :: "(nat \<Rightarrow> 's \<Rightarrow> 's \<times> ('e + 'a)) \<Rightarrow> int \<Rightarrow> 's \<Rightarrow> 's \<times> ('e + 'a)" where
  "Retry f retry s =
     (case f 0 s of (s', Inr v) \<Rightarrow> (s', Inr v) | (s', Inl err) \<Rightarrow> Retry_loop f (nat retry) 1 err s')"

section \<open>Properties\<close>

lemma dedupe_loop_set [simp]: "set (dedupe_loop keys xs) = set xs - set keys"
  by (induction keys xs rule: dedupe_loop.induct) auto

lemma dedupe_loop_distinct: "distinct (dedupe_loop keys xs)"
  by (induction keys xs rule: dedupe_loop.induct) auto

lemma dedupe_loop_id: "distinct xs \<Longrightarrow> set xs \<inter> set keys = {} \<Longrightarrow> dedupe_loop keys (xs @ ys) = xs @ dedupe_loop (rev xs @ keys) ys"
  by (induction xs arbitrary: keys) auto

lemma dedupe_loop_seen: "set ys \<subseteq> set keys \<Longrightarrow> dedupe_loop keys ys = []"
  by (induction ys arbitrary: keys) auto

lemma dedupe_set [simp]: "set (dedupeStringSlice xs) = set xs"
  by (simp add: dedupeStringSlice_def)

lemma dedupe_distinct: "distinct (dedupeStringSlice xs)"
  by (simp add: dedupeStringSlice_def dedupe_loop_distinct)

lemma dedupe_absorbs:
  "distinct xs \<Longrightarrow> set ys \<subseteq> set xs \<Longrightarrow> dedupeStringSlice (xs @ ys) = xs"
  by (simp add: dedupeStringSlice_def dedupe_loop_id dedupe_loop_seen)

definition supported :: "string \<Rightarrow> bool" where
  "supported t \<longleftrightarrow> t \<in> {WorkloadTypePVC, WorkloadTypePod, WorkloadTypeService}"

lemma NewPromQuery_Inr:
  "NewPromQuery q = Inr q' \<Longrightarrow>
     supported (pqType q') \<and> distinct (pqdefaultWithout q') \<and> set alwaysWithout \<subseteq> set (pqdefaultWithout q')"
  by (auto simp: NewPromQuery_def defaulter_def setDefaultWithout_def setDefaultGroupBy_def supported_def
      setDefaultLabelReplacePrefix_def setDefaultLabelReplaceSuffix_def type_without_def type_group_by_def dedupe_distinct
      simp del: dedupe_set split: if_splits option.splits sum.splits) (auto simp: alwaysWithout_def)

lemma NewPromQuery_total: "(\<exists>q'. NewPromQuery q = Inr q') \<longleftrightarrow> supported (pqType q)"
  by (auto simp: NewPromQuery_def defaulter_def setDefaultWithout_def setDefaultGroupBy_def supported_def
      setDefaultLabelReplacePrefix_def setDefaultLabelReplaceSuffix_def type_without_def type_group_by_def
      split: if_splits)

text \<open>The template arguments of the print number \<open>n\<close> (from 0) of a query: every print changes the query.\<close>

fun printed_args :: "nat \<Rightarrow> PromQueryArgs \<Rightarrow> ResultQueryArgs result" where
  "printed_args 0 q = (case GetQueryArgs q of Inl err \<Rightarrow> Inl err | Inr (q', a) \<Rightarrow> Inr a)"
| "printed_args (Suc n) q = (case GetQueryArgs q of Inl err \<Rightarrow> Inl err | Inr (q', a) \<Rightarrow> printed_args n q')"

text \<open>A query with settled defaults.\<close>

definition settled :: "PromQueryArgs \<Rightarrow> bool" where
  "settled q \<longleftrightarrow> supported (pqType q) \<and> distinct (pqdefaultWithout q) \<and> set alwaysWithout \<subseteq> set (pqdefaultWithout q)"

lemma alwaysWithout_nonempty [simp]: "alwaysWithout \<noteq> []"
  by (simp add: alwaysWithout_def)

text \<open>The arguments of a settled query whose excluded labels are \<open>w\<close>.\<close>

definition args_with :: "string \<Rightarrow> string list \<Rightarrow> PromQueryArgs \<Rightarrow> string list \<Rightarrow> ResultQueryArgs" where
  "args_with nm fs q w =
     \<lparr>raMeterName = nm, raQuery = pqQuery q, raAggregateFunc = pqAggregateFunc q,
      raLabelReplacePrefix = pqLabelReplacePrefix q, raLabelReplaceSuffix = pqLabelReplaceSuffix q,
      raQueryFilters = [makeLabel ''meter_def_name'' (fst (pqMeterDef q)),
                        makeLabel ''meter_def_namespace'' (snd (pqMeterDef q))] @ fs,
      raGroupBy = pqGroupBy q, raWithout = w, raDefaultWithout = pqdefaultWithout q,
      raDefaultGroupBy = pqdefaultGroupBy q\<rparr>"

definition own_without :: "PromQueryArgs \<Rightarrow> string list" where
  "own_without q = (if length (pqWithout q) = 0 \<and> length (pqGroupBy q) > 0
     then ungrouped (pqdefaultGroupBy q) (pqGroupBy q) else pqWithout q)"

lemma GetQueryArgs_settled:
  assumes "settled q" "meter_name (pqType q) = Some (nm, fs)"
  shows "GetQueryArgs q =
    Inr (q\<lparr>pqWithout := own_without q @ alwaysWithout\<rparr>, args_with nm fs q (own_without q @ alwaysWithout))"
proof -
  have "dedupeStringSlice (pqdefaultWithout q @ alwaysWithout) = pqdefaultWithout q"
    using assms by (simp add: settled_def dedupe_absorbs)
  then show ?thesis using assms(2) by (simp add: GetQueryArgs_def Let_def args_with_def own_without_def)
qed

lemma printed_args_settled:
  assumes "settled q" "meter_name (pqType q) = Some (nm, fs)"
  shows "printed_args n q = Inr (args_with nm fs q (own_without q @ concat (replicate (Suc n) alwaysWithout)))"
  using assms
proof (induction n arbitrary: q)
  case 0
  then show ?case by (simp add: GetQueryArgs_settled)
next
  case (Suc n)
  let ?q = "q\<lparr>pqWithout := own_without q @ alwaysWithout\<rparr>"
  have "printed_args n ?q = Inr (args_with nm fs ?q (own_without ?q @ concat (replicate (Suc n) alwaysWithout)))"
    using Suc.prems by (intro Suc.IH) (simp_all add: settled_def)
  moreover have "own_without ?q = own_without q @ alwaysWithout" by (simp add: own_without_def)
  moreover have "args_with nm fs ?q w = args_with nm fs q w" for w by (simp add: args_with_def)
  ultimately show ?case using GetQueryArgs_settled [OF Suc.prems] by simp
qed

text \<open>
  A query can be printed again and again, as the retries of a failed call do: a query of a
  supported workload type is built, every print succeeds, and the arguments of all
  prints agree except that each print appends the fixed labels to the excluded ones once
  more, which leaves the set of excluded labels the same. That set is never empty, so
  that the default the template has for it is not used.
\<close>

theorem reprint_same_labels:
  assumes "supported (pqType q0)"
  shows "\<exists>q a. NewPromQuery q0 = Inr q \<and> raWithout a \<noteq> [] \<and>
    (\<forall>n. \<exists>w. printed_args n q = Inr (a\<lparr>raWithout := w\<rparr>) \<and> set w = set (raWithout a))"
proof -
  obtain q where q: "NewPromQuery q0 = Inr q" using assms NewPromQuery_total by blast
  then have s: "settled q" by (simp add: settled_def NewPromQuery_Inr)
  obtain nm fs where nm: "meter_name (pqType q) = Some (nm, fs)"
    using s by (cases "meter_name (pqType q)") (auto simp: settled_def supported_def meter_name_def split: if_splits)
  let ?w = "\<lambda>n. own_without q @ concat (replicate (Suc n) alwaysWithout)"
  have "printed_args n q = Inr ((args_with nm fs q (?w 0))\<lparr>raWithout := ?w n\<rparr>)" for n
    using printed_args_settled [OF s nm, of n] by (simp add: args_with_def)
  moreover have "set (?w n) = set (raWithout (args_with nm fs q (?w 0)))" for n
    by (induction n) (auto simp: args_with_def)
  moreover have "raWithout (args_with nm fs q (?w 0)) \<noteq> []" by (simp add: args_with_def)
  ultimately show ?thesis using q by blast
qed

definition demo_query_args :: PromQueryArgs where
  "demo_query_args = query_args demo_meter 0 hour []"

theorem reprint_same_labels_witness:
  "supported (pqType demo_query_args) \<and>
   (\<exists>q a w. NewPromQuery demo_query_args = Inr q \<and> printed_args 3 q = Inr (a\<lparr>raWithout := w\<rparr>) \<and>
      set w = set (raWithout a))"
proof -
  have s: "supported (pqType demo_query_args)"
    by (simp add: demo_query_args_def query_args_def demo_meter_def supported_def)
  from reprint_same_labels [OF s] s show ?thesis by blast
qed

end
