(* ===== verification/ReportBuilders.thy ===== *)
theory ReportBuilders
  imports PromQueries
begin

text \<open>
  The report data of the three schemas (\<open>reporter/v2/pkg/reporter/schema/v1alpha1\<close>,
  \<open>v2alpha1\<close>, \<open>v3alpha1\<close>): a builder collects the usage records of one hash and builds one
  event of the report from them. A \<open>float64\<close> is its 64-bit pattern; the float parser, the
  decoder of label maps into structs, the encoder of namespace labels and the orders in
  which maps are ranged over are fields of an environment.
\<close>

section \<open>Builders\<close>

record MarketplaceReportDataBuilder =
  bdValues :: "MeterDefPrometheusLabelsTemplated list"
  bdReportStart :: int
  bdReportEnd :: int
  bdResourceNamespace :: string
  bdAccountID :: string
  bdClusterID :: string

definition builder_New :: MarketplaceReportDataBuilder where
  "builder_New = \<lparr>bdValues = [], bdReportStart = 0, bdReportEnd = 0, bdResourceNamespace = [],
     bdAccountID = [], bdClusterID = []\<rparr>"

definition SetClusterID :: "string \<Rightarrow> MarketplaceReportDataBuilder \<Rightarrow> MarketplaceReportDataBuilder" where
  "SetClusterID clusterID d = d\<lparr>bdClusterID := clusterID\<rparr>"

definition SetAccountID :: "string \<Rightarrow> MarketplaceReportDataBuilder \<Rightarrow> MarketplaceReportDataBuilder" where
  "SetAccountID accountID d = d\<lparr>bdAccountID := accountID\<rparr>"

definition SetReportInterval :: "int \<Rightarrow> int \<Rightarrow> MarketplaceReportDataBuilder \<Rightarrow> MarketplaceReportDataBuilder" where
  "SetReportInterval start stop d = d\<lparr>bdReportStart := start, bdReportEnd := stop\<rparr>"

definition AddMeterDefinitionLabels ::
  "MeterDefPrometheusLabelsTemplated \<Rightarrow> MarketplaceReportDataBuilder \<Rightarrow> MarketplaceReportDataBuilder" where
  "AddMeterDefinitionLabels meterDef d = d\<lparr>bdValues := bdValues d @ [meterDef]\<rparr>"

definition ErrNoValuesSet :: go_error where "ErrNoValuesSet = Err ''no values set''"
definition ErrValueHashAreDifferent :: go_error where "ErrValueHashAreDifferent = Err ''value hashes are different''"
definition ErrNotFloat64 :: go_error where "ErrNotFloat64 = Err ''meterdefinition value not float64''"

record build_env = prom_env +
  beParseFloat :: "string \<Rightarrow> 64 word result"
  beDecode :: "string list \<Rightarrow> labels \<Rightarrow> (string \<Rightarrow> string) result"
  beMarshalNamespaces :: "(string \<times> smap) list \<Rightarrow> string result"
  beLabelOrder :: "labels \<Rightarrow> string list"
  beNamespaceOrder :: "(string \<rightharpoonup> smap) \<Rightarrow> string list"

definition event_hash :: "'e template_env_scheme \<Rightarrow> string \<Rightarrow> MeterDefPrometheusLabelsTemplated \<Rightarrow> string" where
  "event_hash E clusterID meterDef = hex_nat (unat (teSum64 E (clusterID @ hash_text E meterDef)))"

section \<open>Merging labels\<close>

text \<open>
  The loop over the labels of a record: a label whose value differs from the one found
  before moves from the attributes of the event to the conflicting keys.
\<close>

fun merge_label :: "string \<Rightarrow> any \<Rightarrow> labels \<times> string list \<Rightarrow> labels \<times> string list" where
  "merge_label k value (attrs, dupeKeys) =
     (if k \<in> set dupeKeys then (attrs, dupeKeys)
      else
        (case attrs k of
           Some v \<Rightarrow> (if v \<noteq> value then (attrs(k := None), k # dupeKeys) else (attrs, dupeKeys))
         | None \<Rightarrow> (attrs(k \<mapsto> value), dupeKeys)))"

fun merge_labels :: "labels \<Rightarrow> string list \<Rightarrow> labels \<times> string list \<Rightarrow> labels \<times> string list" where
  "merge_labels m [] st = st"
| "merge_labels m (k # order) st =
     (case m k of None \<Rightarrow> merge_labels m order st | Some value \<Rightarrow> merge_labels m order (merge_label k value st))"

text \<open>The labels of a record under the conflicting keys; an absent label reads as nil.\<close>

definition nonUniqueLabels :: "string list \<Rightarrow> labels \<Rightarrow> labels" where
  "nonUniqueLabels dupeKeys m =
     (\<lambda>k. if k \<in> set dupeKeys then Some (case m k of None \<Rightarrow> ANil | Some v \<Rightarrow> v) else None)"

section \<open>Schema v1alpha1\<close>

record MarketplaceMetric =
  mmLabel :: string
  mmValue :: string
  mmLabels :: labels

record v1_data =
  d1MetricID :: string
  d1ReportPeriodStart :: int
  d1ReportPeriodEnd :: int
  d1IntervalStart :: int
  d1IntervalEnd :: int
  d1MeterDomain :: string
  d1MeterKind :: string
  d1Label :: string
  d1ResourceNamespace :: string
  d1ResourceName :: string
  d1Unit :: string
  d1AdditionalLabels :: labels
  d1Metrics :: smap
  d1MetricsExtended :: "MarketplaceMetric list"
  d1TotalMetricCount :: nat

text \<open>The loop over the values: the merged labels, the metrics by label and the list of metrics.\<close>

fun v1_values ::
  "'e build_env_scheme \<Rightarrow> string \<Rightarrow> MeterDefPrometheusLabelsTemplated list \<Rightarrow> labels \<times> string list \<Rightarrow> smap \<Rightarrow>
     MarketplaceMetric list \<Rightarrow> ((labels \<times> string list) \<times> smap \<times> MarketplaceMetric list) result" where
  "v1_values E ident [] st metrics ext = Inr (st, metrics, ext)"
| "v1_values E ident (meterDef # values) st metrics ext =
     (if Hash E meterDef \<noteq> ident then Inl ErrValueHashAreDifferent
      else
        (let label = plLabel (urLabels meterDef);
             metrics' = (case metrics label of None \<Rightarrow> metrics(label \<mapsto> urValue meterDef) | Some _ \<Rightarrow> metrics);
             ext' = ext @ [\<lparr>mmLabel = label, mmValue = urValue meterDef, mmLabels = Map.empty\<rparr>]
         in v1_values E ident values (merge_labels (urLabelMap meterDef) (beLabelOrder E (urLabelMap meterDef)) st)
              metrics' ext'))"

definition v1_fixed :: "MeterDefPrometheusLabelsTemplated \<Rightarrow> labels" where
  "v1_fixed meterDef =
     (let a = (if plMeterDescription (urLabels meterDef) \<noteq> []
               then [''display_description'' \<mapsto> AStr (plMeterDescription (urLabels meterDef))] else Map.empty)
      in if plDisplayName (urLabels meterDef) \<noteq> [] then a(''display_name'' \<mapsto> AStr (plDisplayName (urLabels meterDef))) else a)"

definition v1_Build :: "'e build_env_scheme \<Rightarrow> MarketplaceReportDataBuilder \<Rightarrow> v1_data result" where
  "v1_Build E d =
     (case bdValues d of
        [] \<Rightarrow> Inl ErrNoValuesSet
      | meterDef # _ \<Rightarrow>
          (case v1_values E (Hash E meterDef) (bdValues d) (v1_fixed meterDef, []) Map.empty [] of
             Inl err \<Rightarrow> Inl err
           | Inr ((attrs, dupeKeys), metrics, ext) \<Rightarrow>
               Inr \<lparr>d1MetricID = event_hash E (bdClusterID d) meterDef, d1ReportPeriodStart = bdReportStart d,
                    d1ReportPeriodEnd = bdReportEnd d, d1IntervalStart = urIntervalStart meterDef,
                    d1IntervalEnd = urIntervalEnd meterDef, d1MeterDomain = plMeterGroup (urLabels meterDef),
                    d1MeterKind = plMeterKind (urLabels meterDef), d1Label = plWorkloadName (urLabels meterDef),
                    d1ResourceNamespace = plResourceNamespace (urLabels meterDef),
                    d1ResourceName = plResourceName (urLabels meterDef), d1Unit = plUnit (urLabels meterDef),
                    d1AdditionalLabels = attrs, d1Metrics = metrics,
                    d1MetricsExtended =
                      (if length dupeKeys \<noteq> 0
                       then map2 (\<lambda>m meterDef. m\<lparr>mmLabels := nonUniqueLabels dupeKeys (urLabelMap meterDef)\<rparr>) ext (bdValues d)
                       else ext),
                    d1TotalMetricCount = length (bdValues d)\<rparr>))"

section \<open>Schema v2alpha1\<close>

record v2_usage =
  u2MetricID :: string
  u2Value :: "64 word"
  u2AdditionalAttributes :: labels

record v2_data =
  d2EventID :: string
  d2IntervalStart :: int
  d2IntervalEnd :: int
  d2AccountID :: string
  d2AdditionalAttributes :: labels
  d2MeasuredUsage :: "v2_usage list"

definition unknown_metricType :: "string \<Rightarrow> go_error" where
  "unknown_metricType t = Err (''metricType is an unknown type: '' @ t)"

definition known_metricTypes :: "string list" where
  "known_metricTypes = [MetricTypeBillable, MetricTypeAdoption, MetricTypeInfrastructure, MetricTypeLicense]"

definition v2_metricType :: "string \<Rightarrow> string result" where
  "v2_metricType t =
     (if t = MetricTypeEmpty then Inr MetricTypeLicense
      else if t \<in> set known_metricTypes then Inr t else Inl (unknown_metricType t))"

definition put_nonempty :: "string \<Rightarrow> string \<Rightarrow> labels \<Rightarrow> labels" where
  "put_nonempty k v m = (if v \<noteq> [] then m(k \<mapsto> AStr v) else m)"

definition v2_fixed :: "MarketplaceReportDataBuilder \<Rightarrow> MeterDefPrometheusLabelsTemplated \<Rightarrow> string \<Rightarrow> labels" where
  "v2_fixed d meterDef metricType =
     (put_nonempty ''namespace'' (bdResourceNamespace d)
        (put_nonempty ''kind'' (plMeterKind (urLabels meterDef))
           (put_nonempty ''group'' (plMeterGroup (urLabels meterDef))
              (put_nonempty ''clusterId'' (bdClusterID d) Map.empty))))(''metricType'' \<mapsto> AStr metricType)"

fun v2_values ::
  "'e build_env_scheme \<Rightarrow> string \<Rightarrow> MeterDefPrometheusLabelsTemplated list \<Rightarrow> labels \<times> string list \<Rightarrow> v2_usage list \<Rightarrow>
     ((labels \<times> string list) \<times> v2_usage list) result" where
  "v2_values E ident [] st usage = Inr (st, usage)"
| "v2_values E ident (meterDef # values) st usage =
     (if Hash E meterDef \<noteq> ident then Inl ErrValueHashAreDifferent
      else
        (case beParseFloat E (urValue meterDef) of
           Inl err \<Rightarrow> Inl ErrNotFloat64
         | Inr value \<Rightarrow>
             v2_values E ident values (merge_labels (urLabelMap meterDef) (beLabelOrder E (urLabelMap meterDef)) st)
               (usage @ [\<lparr>u2MetricID = plLabel (urLabels meterDef), u2Value = value,
                          u2AdditionalAttributes = Map.empty\<rparr>])))"

definition v2_Build :: "'e build_env_scheme \<Rightarrow> MarketplaceReportDataBuilder \<Rightarrow> v2_data result" where
  "v2_Build E d =
     (case bdValues d of
        [] \<Rightarrow> Inl ErrNoValuesSet
      | meterDef # _ \<Rightarrow>
          (case v2_metricType (plMetricType (urLabels meterDef)) of
             Inl err \<Rightarrow> Inl err
           | Inr metricType \<Rightarrow>
               (case v2_values E (Hash E meterDef) (bdValues d) (v2_fixed d meterDef metricType, []) [] of
                  Inl err \<Rightarrow> Inl err
                | Inr ((attrs, dupeKeys), usage) \<Rightarrow>
                    Inr \<lparr>d2EventID = event_hash E (bdClusterID d) meterDef, d2IntervalStart = urIntervalStart meterDef,
                         d2IntervalEnd = urIntervalEnd meterDef, d2AccountID = bdAccountID d,
                         d2AdditionalAttributes = attrs,
                         d2MeasuredUsage =
                           (if length dupeKeys \<noteq> 0
                            then map2 (\<lambda>u meterDef. u\<lparr>u2AdditionalAttributes := nonUniqueLabels dupeKeys (urLabelMap meterDef)\<rparr>)
                                   usage (bdValues d)
                            else usage)\<rparr>)))"

section \<open>Schema v3alpha1\<close>

text \<open>
  The string properties of an event and of a usage entry that labels fill in are functions of the tag;
  a property that is not set is the empty string.
\<close>

definition event_tags :: "string list" where
  "event_tags = [''subscriptionId'', ''source'', ''sourceSaas'', ''accountIdSaas'', ''subscriptionIdSaas'',
     ''productType'', ''licensePartNumber'', ''productId'', ''sapEntitlementLine'', ''productName'',
     ''parentProductId'', ''parentProductName'', ''parentMetricId'', ''topLevelProductId'',
     ''topLevelProductName'', ''topLevelProductMetricId'', ''dswOfferAccountingSystemCode'',
     ''dswSubscriptionAgreementNumber'', ''ssmSubscriptionId'', ''ICN'', ''group'', ''groupName'', ''kind'']"

definition usage_tags :: "string list" where
  "usage_tags = [''meter_def_namespace'', ''meter_def_name'', ''metricType'', ''metricAggregationType'',
     ''measuredMetricId'', ''productConversionRatio'', ''measuredValue'', ''clusterId'', ''hostname'', ''pod'',
     ''platformId'', ''crn'', ''isViewable'', ''calculateSummary'']"

record v3_usage =
  u3MetricID :: string
  u3Value :: "64 word"
  u3NamespacesLabels :: string
  u3Props :: "string \<Rightarrow> string"
  u3KubernetesResources :: "string list"

record v3_data =
  d3EventID :: string
  d3IntervalStart :: int
  d3IntervalEnd :: int
  d3AccountID :: string
  d3Props :: "string \<Rightarrow> string"
  d3MeasuredUsage :: "v3_usage list"

fun raw_messages :: "any list \<Rightarrow> string list" where
  "raw_messages [] = []"
| "raw_messages (ABytes b # rs) = b # raw_messages rs"
| "raw_messages (_ # rs) = raw_messages rs"

definition v3_namespaces :: "'e build_env_scheme \<Rightarrow> MeterDefPrometheusLabelsTemplated \<Rightarrow> string result" where
  "v3_namespaces E meterDef =
     (let ns = urNamespaceLabels meterDef in
      if ns = Map.empty then Inr []
      else beMarshalNamespaces E (map (\<lambda>n. (n, the (ns n))) (beNamespaceOrder E ns)))"

text \<open>The metric type of a usage entry and its Kubernetes resources.\<close>

definition v3_metricType :: "MeterDefPrometheusLabelsTemplated \<Rightarrow> (string \<times> string list) result" where
  "v3_metricType meterDef =
     (let t = plMetricType (urLabels meterDef) in
      if t = MetricTypeEmpty then Inr (MetricTypeLicense, [])
      else if t = MetricTypeBillable \<or> t = MetricTypeAdoption \<or> t = MetricTypeInfrastructure
      then Inr (t, raw_messages (urK8sResources meterDef))
      else if t = MetricTypeLicense then Inr (t, [])
      else Inl (unknown_metricType t))"

definition v3_measure :: "'e build_env_scheme \<Rightarrow> string \<Rightarrow> MeterDefPrometheusLabelsTemplated \<Rightarrow> v3_usage result" where
  "v3_measure E clusterID meterDef =
     (case beParseFloat E (urValue meterDef) of
        Inl err \<Rightarrow> Inl ErrNotFloat64
      | Inr value \<Rightarrow>
          (case beDecode E usage_tags (urLabelMap meterDef) of
             Inl err \<Rightarrow> Inl err
           | Inr props \<Rightarrow>
               (case v3_namespaces E meterDef of
                  Inl err \<Rightarrow> Inl err
                | Inr ns \<Rightarrow>
                    (case v3_metricType meterDef of
                       Inl err \<Rightarrow> Inl err
                     | Inr (metricType, resources) \<Rightarrow>
                         Inr \<lparr>u3MetricID = plLabel (urLabels meterDef), u3Value = value, u3NamespacesLabels = ns,
                              u3Props = props(''clusterId'' := clusterID, ''metricType'' := metricType),
                              u3KubernetesResources = resources\<rparr>))))"

fun v3_values ::
  "'e build_env_scheme \<Rightarrow> string \<Rightarrow> string \<Rightarrow> MeterDefPrometheusLabelsTemplated list \<Rightarrow> v3_usage list result" where
  "v3_values E clusterID ident [] = Inr []"
| "v3_values E clusterID ident (meterDef # values) =
     (if Hash E meterDef \<noteq> ident then Inl ErrValueHashAreDifferent
      else
        (case v3_measure E clusterID meterDef of
           Inl err \<Rightarrow> Inl err
         | Inr u \<Rightarrow> (case v3_values E clusterID ident values of Inl err \<Rightarrow> Inl err | Inr us \<Rightarrow> Inr (u # us))))"

definition v3_Build :: "'e build_env_scheme \<Rightarrow> MarketplaceReportDataBuilder \<Rightarrow> v3_data result" where
  "v3_Build E d =
     (case bdValues d of
        [] \<Rightarrow> Inl ErrNoValuesSet
      | meterDef # _ \<Rightarrow>
          (case beDecode E event_tags (urLabelMap meterDef) of
             Inl err \<Rightarrow> Inl err
           | Inr props \<Rightarrow>
               (case v3_values E (bdClusterID d) (Hash E meterDef) (bdValues d) of
                  Inl err \<Rightarrow> Inl err
                | Inr usage \<Rightarrow>
                    Inr \<lparr>d3EventID = event_hash E (bdClusterID d) meterDef, d3IntervalStart = urIntervalStart meterDef,
                         d3IntervalEnd = urIntervalEnd meterDef, d3AccountID = bdAccountID d,
                         d3Props = props(''group'' := plMeterGroup (urLabels meterDef),
                                         ''kind'' := plMeterKind (urLabels meterDef)),
                         d3MeasuredUsage = usage\<rparr>)))"

section \<open>What merging does to one key\<close>

text \<open>
  Seen from one key, merging is a small machine that reads the values the records have
  for the key: no value yet, one value so far, or a conflict.
\<close>

datatype key_state = Unset | Agreed any | Conflict

definition key_view :: "labels \<times> string list \<Rightarrow> string \<Rightarrow> key_state" where
  "key_view st k =
     (if k \<in> set (snd st) then Conflict else case fst st k of None \<Rightarrow> Unset | Some v \<Rightarrow> Agreed v)"

fun key_step :: "any option \<Rightarrow> key_state \<Rightarrow> key_state" where
  "key_step None s = s"
| "key_step (Some v) Unset = Agreed v"
| "key_step (Some v) (Agreed w) = (if w = v then Agreed w else Conflict)"
| "key_step (Some v) Conflict = Conflict"

definition merge_ok :: "labels \<times> string list \<Rightarrow> bool" where
  "merge_ok st \<longleftrightarrow> (\<forall>k \<in> set (snd st). fst st k = None)"

lemma merge_label_ok: "merge_ok st \<Longrightarrow> merge_ok (merge_label k v st)"
  by (cases st) (auto simp: merge_ok_def split: option.splits)

lemma merge_label_view:
  "key_view (merge_label k v st) j = (if j = k then key_step (Some v) (key_view st k) else key_view st j)"
  by (cases st) (auto simp: key_view_def split: option.splits)

lemma merge_labels_ok: "merge_ok st \<Longrightarrow> merge_ok (merge_labels m order st)"
  by (induction m order st rule: merge_labels.induct) (auto simp: merge_label_ok simp del: merge_label.simps split: option.splits)

lemma merge_labels_view:
  "distinct order \<Longrightarrow>
   key_view (merge_labels m order st) k = (if k \<in> set order then key_step (m k) (key_view st k) else key_view st k)"
  by (induction m order st rule: merge_labels.induct)
    (auto simp: merge_label_view simp del: merge_label.simps split: option.splits)

text \<open>The range over a map visits every key once.\<close>

definition label_order_ok :: "'e build_env_scheme \<Rightarrow> bool" where
  "label_order_ok E \<longleftrightarrow> (\<forall>m. finite (dom m) \<longrightarrow> distinct (beLabelOrder E m) \<and> set (beLabelOrder E m) = dom m)"

definition merge_record :: "'e build_env_scheme \<Rightarrow> MeterDefPrometheusLabelsTemplated \<Rightarrow> labels \<times> string list \<Rightarrow> labels \<times> string list" where
  "merge_record E r st = merge_labels (urLabelMap r) (beLabelOrder E (urLabelMap r)) st"

lemma merge_record_view:
  assumes "label_order_ok E" "finite (dom (urLabelMap r))"
  shows "key_view (merge_record E r st) k = key_step (urLabelMap r k) (key_view st k)"
proof -
  have o: "distinct (beLabelOrder E (urLabelMap r))" "set (beLabelOrder E (urLabelMap r)) = dom (urLabelMap r)"
    using assms by (auto simp: label_order_ok_def)
  show ?thesis
    using merge_labels_view [OF o(1)] by (auto simp: merge_record_def o(2) domIff)
qed

lemma fold_merge_view:
  assumes "label_order_ok E" "\<forall>r \<in> set rs. finite (dom (urLabelMap r))"
  shows "key_view (fold (merge_record E) rs st) k = fold key_step (map (\<lambda>r. urLabelMap r k) rs) (key_view st k)"
  using assms(2)
  by (induction rs arbitrary: st) (auto simp: merge_record_view [OF assms(1)])

lemma fold_merge_ok: "merge_ok st \<Longrightarrow> merge_ok (fold (merge_record E) rs st)"
  by (induction rs arbitrary: st) (auto simp: merge_record_def merge_labels_ok)

text \<open>The values of a list of optional ones, and the state they lead to.\<close>

fun present :: "any option list \<Rightarrow> any list" where
  "present [] = []"
| "present (None # xs) = present xs"
| "present (Some v # xs) = v # present xs"

lemma set_present: "set (present xs) = {v. Some v \<in> set xs}"
  by (induction xs rule: present.induct) auto

lemma fold_key_Conflict [simp]: "fold key_step xs Conflict = Conflict"
proof (induction xs)
  case (Cons x xs)
  then show ?case by (cases x) auto
qed simp

lemma fold_key_Agreed:
  "fold key_step xs (Agreed w) = (if \<forall>v \<in> set (present xs). v = w then Agreed w else Conflict)"
  by (induction xs rule: present.induct) auto

lemma fold_key_Unset:
  "fold key_step xs Unset =
     (case present xs of [] \<Rightarrow> Unset | w # ws \<Rightarrow> if \<forall>v \<in> set ws. v = w then Agreed w else Conflict)"
  by (induction xs rule: present.induct) (auto simp: fold_key_Agreed)

lemma merge_ok_attrs: "merge_ok st \<Longrightarrow> fst st k = (case key_view st k of Agreed v \<Rightarrow> Some v | _ \<Rightarrow> None)"
  by (cases st) (auto simp: merge_ok_def key_view_def split: option.splits)

lemma merge_dupes: "k \<in> set (snd st) \<longleftrightarrow> key_view st k = Conflict"
  by (auto simp: key_view_def split: option.splits)

section \<open>The builders agree on their records\<close>

text \<open>
  What the builder of a schema promises the collector and the writer: it builds an event exactly when it has
  records, all of the same hash, whose first one and each of which the schema accepts;
  the event then says what the schema has to say about the records.
\<close>

locale schema_builder =
  fixes hash :: "MeterDefPrometheusLabelsTemplated \<Rightarrow> string"
    and build :: "MarketplaceReportDataBuilder \<Rightarrow> 'd result"
    and event_of :: "MarketplaceReportDataBuilder \<Rightarrow> 'd \<Rightarrow> bool"
    and head_ok :: "MeterDefPrometheusLabelsTemplated \<Rightarrow> bool"
    and record_ok :: "MeterDefPrometheusLabelsTemplated \<Rightarrow> bool"
  assumes build_iff: "(\<exists>d. build b = Inr d) \<longleftrightarrow>
      bdValues b \<noteq> [] \<and> head_ok (hd (bdValues b)) \<and>
      (\<forall>r \<in> set (bdValues b). hash r = hash (hd (bdValues b)) \<and> record_ok r)"
    and build_event: "build b = Inr d \<Longrightarrow> event_of b d"
begin

text \<open>A builder stays buildable when a record of its hash is added.\<close>

lemma add_buildable:
  assumes "build b = Inr d" "hash r = hash (hd (bdValues b))" "record_ok r"
  shows "\<exists>d'. build (AddMeterDefinitionLabels r b) = Inr d' \<and> event_of (AddMeterDefinitionLabels r b) d'"
proof -
  have b: "bdValues b \<noteq> []" "head_ok (hd (bdValues b))"
    "\<forall>r \<in> set (bdValues b). hash r = hash (hd (bdValues b)) \<and> record_ok r"
    using assms(1) build_iff [of b] by blast+
  then have "bdValues (AddMeterDefinitionLabels r b) = bdValues b @ [r]"
    "hd (bdValues (AddMeterDefinitionLabels r b)) = hd (bdValues b)"
    by (simp_all add: AddMeterDefinitionLabels_def)
  then have "\<exists>d'. build (AddMeterDefinitionLabels r b) = Inr d'"
    unfolding build_iff using b assms(2,3) by (metis Un_iff append_is_Nil_conv empty_iff list.set(1) set_ConsD set_append)
  then show ?thesis using build_event by blast
qed

lemma single_buildable:
  assumes "head_ok r" "record_ok r" "bdValues b = []"
  shows "\<exists>d. build (AddMeterDefinitionLabels r b) = Inr d \<and> event_of (AddMeterDefinitionLabels r b) d"
proof -
  have v: "bdValues (AddMeterDefinitionLabels r b) = [r]" using assms(3) by (simp add: AddMeterDefinitionLabels_def)
  then obtain d where "build (AddMeterDefinitionLabels r b) = Inr d"
    using assms build_iff [of "AddMeterDefinitionLabels r b"] by auto
  then show ?thesis using build_event by blast
qed

end

definition put_metric :: "MeterDefPrometheusLabelsTemplated \<Rightarrow> smap \<Rightarrow> smap" where
  "put_metric r metrics =
     (case metrics (plLabel (urLabels r)) of None \<Rightarrow> metrics(plLabel (urLabels r) \<mapsto> urValue r) | Some _ \<Rightarrow> metrics)"

text \<open>The merged labels of the records of an event, starting from its fixed attributes.\<close>

definition merged :: "'e build_env_scheme \<Rightarrow> MeterDefPrometheusLabelsTemplated list \<Rightarrow> labels \<Rightarrow> labels \<times> string list" where
  "merged E rs fixed = fold (merge_record E) rs (fixed, [])"

lemma map2_map_same: "map2 h (map f xs) xs = map (\<lambda>x. h (f x) x) xs"
  by (induction xs) auto

lemma nonUniqueLabels_Nil [simp]: "nonUniqueLabels [] m = Map.empty"
  by (simp add: nonUniqueLabels_def)

lemma dom_nonUniqueLabels: "k \<in> dom (nonUniqueLabels dupeKeys m) \<longleftrightarrow> k \<in> set dupeKeys"
  by (simp add: nonUniqueLabels_def dom_def)

lemma v1_values_eq:
  "v1_values E ident rs st metrics ext =
     (if \<forall>r \<in> set rs. Hash E r = ident
      then Inr (fold (merge_record E) rs st, fold put_metric rs metrics,
             ext @ map (\<lambda>r. \<lparr>mmLabel = plLabel (urLabels r), mmValue = urValue r, mmLabels = Map.empty\<rparr>) rs)
      else Inl ErrValueHashAreDifferent)"
  by (induction rs arbitrary: st metrics ext) (simp_all add: merge_record_def put_metric_def Let_def)

lemma v1_Build_eq:
  assumes "bdValues b \<noteq> []" "\<forall>r \<in> set (bdValues b). Hash E r = Hash E (hd (bdValues b))"
    and m: "merged E (bdValues b) (v1_fixed (hd (bdValues b))) = (attrs, dupeKeys)"
  shows "\<exists>d. v1_Build E b = Inr d \<and> d1AdditionalLabels d = attrs \<and> d1Metrics d = fold put_metric (bdValues b) Map.empty \<and>
     d1MetricsExtended d = map (\<lambda>r. \<lparr>mmLabel = plLabel (urLabels r), mmValue = urValue r,
                                    mmLabels = nonUniqueLabels dupeKeys (urLabelMap r)\<rparr>) (bdValues b)"
proof -
  obtain r rs where b: "bdValues b = r # rs" using assms(1) by (cases "bdValues b") auto
  have "v1_values E (Hash E r) (bdValues b) (v1_fixed r, []) Map.empty [] =
      Inr ((attrs, dupeKeys), fold put_metric (bdValues b) Map.empty,
        map (\<lambda>r. \<lparr>mmLabel = plLabel (urLabels r), mmValue = urValue r, mmLabels = Map.empty\<rparr>) (bdValues b))"
    using assms m by (simp add: v1_values_eq merged_def b del: fold_simps)
  then show ?thesis
    by (cases dupeKeys) (simp_all add: v1_Build_def b map2_map_same del: v1_values.simps fold_simps)
qed

lemma v1_Build_Inr_iff:
  "(\<exists>d. v1_Build E b = Inr d) \<longleftrightarrow>
     bdValues b \<noteq> [] \<and> (\<forall>r \<in> set (bdValues b). Hash E r = Hash E (hd (bdValues b)))"
  by (cases "bdValues b") (auto simp: v1_Build_def v1_values_eq simp del: v1_values.simps split: prod.splits)

definition float_ok :: "'e build_env_scheme \<Rightarrow> MeterDefPrometheusLabelsTemplated \<Rightarrow> bool" where
  "float_ok E r \<longleftrightarrow> \<not> is_err (beParseFloat E (urValue r))"

definition float_value :: "'e build_env_scheme \<Rightarrow> MeterDefPrometheusLabelsTemplated \<Rightarrow> 64 word" where
  "float_value E r = projr (beParseFloat E (urValue r))"

lemma v2_values_Inr:
  "v2_values E ident rs st usage = Inr res \<longleftrightarrow>
     (\<forall>r \<in> set rs. Hash E r = ident \<and> float_ok E r) \<and>
     res = (fold (merge_record E) rs st,
            usage @ map (\<lambda>r. \<lparr>u2MetricID = plLabel (urLabels r), u2Value = float_value E r,
                             u2AdditionalAttributes = Map.empty\<rparr>) rs)"
proof (induction rs arbitrary: st usage)
  case (Cons r rs)
  then show ?case
    by (cases "beParseFloat E (urValue r)") (auto simp: merge_record_def float_ok_def float_value_def)
qed auto

lemma v2_Build_eq:
  assumes "v2_Build E b = Inr d"
  obtains metricType attrs dupeKeys where "bdValues b \<noteq> []"
    "v2_metricType (plMetricType (urLabels (hd (bdValues b)))) = Inr metricType"
    "merged E (bdValues b) (v2_fixed b (hd (bdValues b)) metricType) = (attrs, dupeKeys)"
    "d2AdditionalAttributes d = attrs"
    "d2MeasuredUsage d = map (\<lambda>r. \<lparr>u2MetricID = plLabel (urLabels r), u2Value = float_value E r,
                                  u2AdditionalAttributes = nonUniqueLabels dupeKeys (urLabelMap r)\<rparr>) (bdValues b)"
proof -
  obtain r rs where b: "bdValues b = r # rs" using assms by (cases "bdValues b") (auto simp: v2_Build_def)
  obtain t where t: "v2_metricType (plMetricType (urLabels r)) = Inr t"
    using assms b by (cases "v2_metricType (plMetricType (urLabels r))") (auto simp: v2_Build_def)
  obtain st us where v: "v2_values E (Hash E r) (bdValues b) (v2_fixed b r t, []) [] = Inr (st, us)"
    using assms t b
    by (cases "v2_values E (Hash E r) (bdValues b) (v2_fixed b r t, []) []") (auto simp: v2_Build_def simp del: v2_values.simps)
  then have st: "st = merged E (bdValues b) (v2_fixed b r t)"
    and us: "us = map (\<lambda>r. \<lparr>u2MetricID = plLabel (urLabels r), u2Value = float_value E r,
                             u2AdditionalAttributes = Map.empty\<rparr>) (bdValues b)"
    by (simp_all only: v2_values_Inr merged_def prod.inject append_Nil)
  obtain attrs dupeKeys where p: "st = (attrs, dupeKeys)" by fastforce
  have "d2AdditionalAttributes d = attrs" "d2MeasuredUsage d =
      map (\<lambda>r. \<lparr>u2MetricID = plLabel (urLabels r), u2Value = float_value E r,
               u2AdditionalAttributes = nonUniqueLabels dupeKeys (urLabelMap r)\<rparr>) (bdValues b)"
    using assms v t by (cases dupeKeys; force simp: v2_Build_def b p us map2_map_same simp del: v2_values.simps)+
  moreover have "merged E (bdValues b) (v2_fixed b (hd (bdValues b)) t) = (attrs, dupeKeys)" "hd (bdValues b) = r"
    using st p b by simp_all
  ultimately show ?thesis using that [of t attrs dupeKeys] t b by simp
qed

lemma v2_Build_Inr_iff:
  "(\<exists>d. v2_Build E b = Inr d) \<longleftrightarrow>
     bdValues b \<noteq> [] \<and> (\<exists>t. v2_metricType (plMetricType (urLabels (hd (bdValues b)))) = Inr t) \<and>
     (\<forall>r \<in> set (bdValues b). Hash E r = Hash E (hd (bdValues b)) \<and> float_ok E r)"
proof (cases "bdValues b")
  case (Cons r rs)
  show ?thesis
  proof (cases "v2_metricType (plMetricType (urLabels r))")
    case (Inr t)
    have "(\<exists>d. v2_Build E b = Inr d) \<longleftrightarrow> (\<exists>res. v2_values E (Hash E r) (bdValues b) (v2_fixed b r t, []) [] = Inr res)"
      using Cons Inr by (auto simp: v2_Build_def simp del: v2_values.simps split: sum.splits prod.splits)
    also have "\<dots> \<longleftrightarrow> (\<forall>x \<in> set (bdValues b). Hash E x = Hash E r \<and> float_ok E x)"
      by (simp only: v2_values_Inr) blast
    finally show ?thesis using Cons Inr by simp
  qed (simp add: v2_Build_def Cons)
qed (simp add: v2_Build_def)

definition v3_ok :: "'e build_env_scheme \<Rightarrow> MeterDefPrometheusLabelsTemplated \<Rightarrow> bool" where
  "v3_ok E r \<longleftrightarrow> \<not> is_err (v3_measure E [] r)"

lemma v3_measure_ok: "v3_ok E r \<longleftrightarrow> (\<exists>u. v3_measure E c r = Inr u)"
  by (auto simp: v3_ok_def v3_measure_def split: sum.splits prod.splits)

text \<open>
  What a v3alpha1 usage entry says about a record, field by field: the metric, the parsed
  value, the labels of its namespaces, the properties decoded from its labels except the
  cluster and the metric type (a missing type counts as a license), and the Kubernetes
  resources of a billable, adoption or infrastructure metric.
\<close>

definition v3_entry_of :: "'e build_env_scheme \<Rightarrow> string \<Rightarrow> MeterDefPrometheusLabelsTemplated \<Rightarrow> v3_usage \<Rightarrow> bool" where
  "v3_entry_of E clusterID r u \<longleftrightarrow>
     u3MetricID u = plLabel (urLabels r) \<and>
     beParseFloat E (urValue r) = Inr (u3Value u) \<and>
     (if dom (urNamespaceLabels r) = {} then u3NamespacesLabels u = []
      else beMarshalNamespaces E (map (\<lambda>n. (n, the (urNamespaceLabels r n))) (beNamespaceOrder E (urNamespaceLabels r))) =
           Inr (u3NamespacesLabels u)) \<and>
     (\<exists>props. beDecode E usage_tags (urLabelMap r) = Inr props \<and>
        (\<forall>tag. tag \<noteq> ''clusterId'' \<and> tag \<noteq> ''metricType'' \<longrightarrow> u3Props u tag = props tag)) \<and>
     u3Props u ''clusterId'' = clusterID \<and>
     u3Props u ''metricType'' =
       (if plMetricType (urLabels r) = [] then ''license'' else plMetricType (urLabels r)) \<and>
     u3KubernetesResources u =
       (if plMetricType (urLabels r) \<in> {''billable'', ''adoption'', ''infrastructure''}
        then [b. ABytes b \<leftarrow> urK8sResources r] else [])"

text \<open>The event of a builder: its identity and interval, its properties, and an entry for each record in order.\<close>

definition v3_event_of :: "'e build_env_scheme \<Rightarrow> MarketplaceReportDataBuilder \<Rightarrow> v3_data \<Rightarrow> bool" where
  "v3_event_of E b d \<longleftrightarrow>
     bdValues b \<noteq> [] \<and> d3EventID d = event_hash E (bdClusterID b) (hd (bdValues b)) \<and>
     d3IntervalStart d = urIntervalStart (hd (bdValues b)) \<and> d3IntervalEnd d = urIntervalEnd (hd (bdValues b)) \<and>
     d3AccountID d = bdAccountID b \<and>
     d3Props d ''group'' = plMeterGroup (urLabels (hd (bdValues b))) \<and>
     d3Props d ''kind'' = plMeterKind (urLabels (hd (bdValues b))) \<and>
     (\<exists>props. beDecode E event_tags (urLabelMap (hd (bdValues b))) = Inr props \<and>
        (\<forall>tag. tag \<noteq> ''group'' \<and> tag \<noteq> ''kind'' \<longrightarrow> d3Props d tag = props tag)) \<and>
     list_all2 (v3_entry_of E (bdClusterID b)) (bdValues b) (d3MeasuredUsage d)"

lemma raw_messages_bytes: "raw_messages rs = [b. ABytes b \<leftarrow> rs]"
  by (induction rs rule: raw_messages.induct) simp_all

lemmas metric_type_names = MetricTypeEmpty_def MetricTypeLicense_def MetricTypeBillable_def MetricTypeAdoption_def
  MetricTypeInfrastructure_def

lemma v3_measure_entry:
  assumes "v3_measure E c r = Inr u"
  shows "v3_entry_of E c r u"
proof -
  from assms obtain v props ns t res where
    m: "beParseFloat E (urValue r) = Inr v" "beDecode E usage_tags (urLabelMap r) = Inr props"
      "v3_namespaces E r = Inr ns" "v3_metricType r = Inr (t, res)" and
    u: "u = \<lparr>u3MetricID = plLabel (urLabels r), u3Value = v, u3NamespacesLabels = ns,
      u3Props = props(''clusterId'' := c, ''metricType'' := t), u3KubernetesResources = res\<rparr>"
    by (auto simp: v3_measure_def split: sum.splits prod.splits)
  have "if dom (urNamespaceLabels r) = {} then ns = []
      else beMarshalNamespaces E (map (\<lambda>n. (n, the (urNamespaceLabels r n))) (beNamespaceOrder E (urNamespaceLabels r))) = Inr ns"
    using m(3) by (auto simp: v3_namespaces_def Let_def split: if_splits)
  moreover have "t = (if plMetricType (urLabels r) = [] then ''license'' else plMetricType (urLabels r))"
    "res = (if plMetricType (urLabels r) \<in> {''billable'', ''adoption'', ''infrastructure''}
        then raw_messages (urK8sResources r) else [])"
    using m(4) by (auto simp: v3_metricType_def Let_def metric_type_names split: if_splits)
  ultimately show ?thesis using m(1,2) unfolding v3_entry_of_def u raw_messages_bytes by simp
qed

lemma v3_values_Inr:
  "v3_values E c ident rs = Inr us \<longleftrightarrow>
     (\<forall>r \<in> set rs. Hash E r = ident) \<and> list_all2 (\<lambda>r u. v3_measure E c r = Inr u) rs us"
proof (induction rs arbitrary: us)
  case (Cons r rs)
  have "v3_values E c ident (r # rs) = Inr us \<longleftrightarrow>
      Hash E r = ident \<and> (\<exists>u us'. v3_measure E c r = Inr u \<and> v3_values E c ident rs = Inr us' \<and> us = u # us')"
    by (cases "v3_measure E c r"; cases "v3_values E c ident rs") auto
  then show ?case by (auto simp: Cons.IH list_all2_Cons1)
qed auto

lemma v3_values_ok:
  "(\<exists>us. v3_values E c ident rs = Inr us) \<longleftrightarrow> (\<forall>r \<in> set rs. Hash E r = ident \<and> v3_ok E r)"
proof -
  have "(\<exists>us. list_all2 (\<lambda>r u. v3_measure E c r = Inr u) rs us) \<longleftrightarrow> (\<forall>r \<in> set rs. v3_ok E r)"
  proof (induction rs)
    case (Cons r rs)
    then show ?case by (auto simp: list_all2_Cons1 v3_measure_ok [of E r c])
  qed simp
  then show ?thesis by (auto simp: v3_values_Inr)
qed

lemma v3_Build_event:
  assumes "v3_Build E b = Inr d"
  shows "v3_event_of E b d"
proof -
  from assms obtain r rs props us where b: "bdValues b = r # rs" and
    p: "beDecode E event_tags (urLabelMap r) = Inr props" and
    us: "v3_values E (bdClusterID b) (Hash E r) (bdValues b) = Inr us" and
    d: "d = \<lparr>d3EventID = event_hash E (bdClusterID b) r, d3IntervalStart = urIntervalStart r,
      d3IntervalEnd = urIntervalEnd r, d3AccountID = bdAccountID b,
      d3Props = props(''group'' := plMeterGroup (urLabels r), ''kind'' := plMeterKind (urLabels r)), d3MeasuredUsage = us\<rparr>"
    by (auto simp: v3_Build_def simp del: v3_values.simps split: list.splits sum.splits)
  from us have "list_all2 (v3_entry_of E (bdClusterID b)) (bdValues b) us"
    unfolding v3_values_Inr by (auto elim: list_all2_mono intro: v3_measure_entry)
  with b p show ?thesis by (simp add: v3_event_of_def d)
qed

lemma v3_Build_Inr_iff:
  "(\<exists>d. v3_Build E b = Inr d) \<longleftrightarrow>
     bdValues b \<noteq> [] \<and> \<not> is_err (beDecode E event_tags (urLabelMap (hd (bdValues b)))) \<and>
     (\<forall>r \<in> set (bdValues b). Hash E r = Hash E (hd (bdValues b)) \<and> v3_ok E r)"
proof (cases "bdValues b")
  case (Cons r rs)
  have "(\<exists>d. v3_Build E b = Inr d) \<longleftrightarrow>
      \<not> is_err (beDecode E event_tags (urLabelMap r)) \<and> (\<exists>us. v3_values E (bdClusterID b) (Hash E r) (bdValues b) = Inr us)"
    using Cons by (cases "beDecode E event_tags (urLabelMap r)")
      (auto simp: v3_Build_def simp del: v3_values.simps split: sum.splits)
  then show ?thesis unfolding v3_values_ok using Cons by simp
qed (simp add: v3_Build_def)


section \<open>The schemas implement the interface\<close>

interpretation v1: schema_builder "Hash E" "v1_Build E"
  "\<lambda>b d. list_all2 (\<lambda>r m. mmLabel m = plLabel (urLabels r) \<and> mmValue m = urValue r) (bdValues b) (d1MetricsExtended d)"
  "\<lambda>_. True" "\<lambda>_. True"
  for E :: "'e build_env_scheme"
proof (unfold_locales, goal_cases)
  case (1 b)
  show ?case by (simp add: v1_Build_Inr_iff)
next
  case (2 b d)
  then have b: "bdValues b \<noteq> []" "\<forall>r \<in> set (bdValues b). Hash E r = Hash E (hd (bdValues b))"
    using v1_Build_Inr_iff [of E b] by blast+
  obtain attrs dupeKeys where "merged E (bdValues b) (v1_fixed (hd (bdValues b))) = (attrs, dupeKeys)" by fastforce
  from v1_Build_eq [OF b this] 2 show ?case by (auto simp: list_all2_map2 list_all2_same)
qed

interpretation v2: schema_builder "Hash E" "v2_Build E"
  "\<lambda>b d. list_all2 (\<lambda>r u. u2MetricID u = plLabel (urLabels r) \<and> u2Value u = float_value E r) (bdValues b) (d2MeasuredUsage d)"
  "\<lambda>r. \<exists>t. v2_metricType (plMetricType (urLabels r)) = Inr t" "float_ok E"
  for E :: "'e build_env_scheme"
proof (unfold_locales, goal_cases)
  case (1 b)
  show ?case by (rule v2_Build_Inr_iff)
next
  case (2 b d)
  then show ?case by (rule v2_Build_eq) (simp add: list_all2_map2 list_all2_same)
qed

interpretation v3: schema_builder "Hash E" "v3_Build E" "v3_event_of E"
  "\<lambda>r. \<not> is_err (beDecode E event_tags (urLabelMap r))" "v3_ok E"
  for E :: "'e build_env_scheme"
  by unfold_locales (simp_all add: v3_Build_Inr_iff v3_Build_event)

section \<open>Labels of an event\<close>

text \<open>The values records and fixed attributes have for a key, and what the report says about it.\<close>

definition key_values :: "MeterDefPrometheusLabelsTemplated list \<Rightarrow> labels \<Rightarrow> string \<Rightarrow> any list" where
  "key_values rs fixed k = present (fixed k # map (\<lambda>r. urLabelMap r k) rs)"

definition conflicting :: "MeterDefPrometheusLabelsTemplated list \<Rightarrow> labels \<Rightarrow> string \<Rightarrow> bool" where
  "conflicting rs fixed k \<longleftrightarrow> (\<exists>v w. v \<in> set (key_values rs fixed k) \<and> w \<in> set (key_values rs fixed k) \<and> v \<noteq> w)"

definition agreed :: "MeterDefPrometheusLabelsTemplated list \<Rightarrow> labels \<Rightarrow> string \<Rightarrow> any option" where
  "agreed rs fixed k =
     (if conflicting rs fixed k then None
      else case key_values rs fixed k of [] \<Rightarrow> None | v # _ \<Rightarrow> Some v)"

lemma merged_view:
  assumes "label_order_ok E" "\<forall>r \<in> set rs. finite (dom (urLabelMap r))"
  shows "key_view (merged E rs fixed) k = fold key_step (fixed k # map (\<lambda>r. urLabelMap r k) rs) Unset"
proof -
  have "key_view (fixed, []) k = key_step (fixed k) Unset" by (cases "fixed k") (auto simp: key_view_def)
  then show ?thesis by (simp add: merged_def fold_merge_view [OF assms])
qed

lemma merged_spec:
  assumes "label_order_ok E" "\<forall>r \<in> set rs. finite (dom (urLabelMap r))"
  shows "fst (merged E rs fixed) = agreed rs fixed"
    and "k \<in> set (snd (merged E rs fixed)) \<longleftrightarrow> conflicting rs fixed k"
proof -
  have ok: "merge_ok (merged E rs fixed)"
    unfolding merged_def by (rule fold_merge_ok) (simp add: merge_ok_def)
  have v: "key_view (merged E rs fixed) k =
      (case key_values rs fixed k of [] \<Rightarrow> Unset | w # ws \<Rightarrow> if \<forall>v \<in> set ws. v = w then Agreed w else Conflict)" for k
    unfolding merged_view [OF assms] fold_key_Unset key_values_def ..
  have c: "conflicting rs fixed k \<longleftrightarrow>
      (case key_values rs fixed k of [] \<Rightarrow> False | w # ws \<Rightarrow> \<not> (\<forall>v \<in> set ws. v = w))" for k
    by (cases "key_values rs fixed k") (auto simp: conflicting_def, metis+)
  show "fst (merged E rs fixed) = agreed rs fixed"
    by (rule ext) (auto simp: merge_ok_attrs [OF ok] v agreed_def c split: list.splits)
  show "k \<in> set (snd (merged E rs fixed)) \<longleftrightarrow> conflicting rs fixed k"
    unfolding merge_dupes v c by (auto split: list.splits)
qed

text \<open>A reader merges the attributes of the event with those of a usage entry, which win.\<close>

lemma merged_keeps_labels:
  assumes "label_order_ok E" "\<forall>r \<in> set rs. finite (dom (urLabelMap r))" "r \<in> set rs" "urLabelMap r k = Some v"
    "merged E rs fixed = (attrs, dupeKeys)"
  shows "(attrs ++ nonUniqueLabels dupeKeys (urLabelMap r)) k = Some v"
proof -
  have m: "attrs = agreed rs fixed" "\<And>k. k \<in> set dupeKeys \<longleftrightarrow> conflicting rs fixed k"
    using merged_spec [OF assms(1,2), where fixed = fixed] assms(5) by simp_all
  have v: "v \<in> set (key_values rs fixed k)"
    using assms(3,4) by (force simp: key_values_def set_present)
  show ?thesis
  proof (cases "conflicting rs fixed k")
    case True
    then show ?thesis using assms(4) m by (simp add: map_add_def nonUniqueLabels_def)
  next
    case False
    then obtain w ws where w: "key_values rs fixed k = w # ws" using v by (cases "key_values rs fixed k") auto
    then have "w = v" using False v by (auto simp: conflicting_def)
    then show ?thesis using False w m by (simp add: map_add_def nonUniqueLabels_def agreed_def)
  qed
qed

text \<open>
  C11: A v2alpha1 event keeps every label of every record, whatever the orders in which the
  label maps are visited. The attributes of the event are exactly those on which the records and the fixed
  attributes agree; each usage entry carries exactly the keys with different
  values, with its own record's value (nil when it has none). Merged, the event and the usage entry of
  a record therefore have each label of the record with its value.
\<close>

theorem v2_event_keeps_labels:
  assumes "label_order_ok E" "\<forall>r \<in> set (bdValues b). finite (dom (urLabelMap r))" "v2_Build E b = Inr d"
  shows "\<exists>t. v2_metricType (plMetricType (urLabels (hd (bdValues b)))) = Inr t \<and>
    d2AdditionalAttributes d = agreed (bdValues b) (v2_fixed b (hd (bdValues b)) t) \<and>
    list_all2 (\<lambda>r u.
      (\<forall>k. k \<in> dom (u2AdditionalAttributes u) \<longleftrightarrow> conflicting (bdValues b) (v2_fixed b (hd (bdValues b)) t) k) \<and>
      (\<forall>k v. urLabelMap r k = Some v \<longrightarrow> (d2AdditionalAttributes d ++ u2AdditionalAttributes u) k = Some v))
      (bdValues b) (d2MeasuredUsage d)"
proof -
  obtain t attrs dupeKeys where t: "v2_metricType (plMetricType (urLabels (hd (bdValues b)))) = Inr t"
    and m: "merged E (bdValues b) (v2_fixed b (hd (bdValues b)) t) = (attrs, dupeKeys)"
    and d: "d2AdditionalAttributes d = attrs"
    and u: "d2MeasuredUsage d = map (\<lambda>r. \<lparr>u2MetricID = plLabel (urLabels r), u2Value = float_value E r,
        u2AdditionalAttributes = nonUniqueLabels dupeKeys (urLabelMap r)\<rparr>) (bdValues b)"
    using assms(3) by (rule v2_Build_eq)
  have s: "attrs = agreed (bdValues b) (v2_fixed b (hd (bdValues b)) t)"
    "\<And>k. k \<in> set dupeKeys \<longleftrightarrow> conflicting (bdValues b) (v2_fixed b (hd (bdValues b)) t) k"
    using merged_spec [OF assms(1,2), where fixed = "v2_fixed b (hd (bdValues b)) t"] m by simp_all
  have keep: "\<forall>r \<in> set (bdValues b). \<forall>k v. urLabelMap r k = Some v \<longrightarrow>
      (attrs ++ nonUniqueLabels dupeKeys (urLabelMap r)) k = Some v"
    using merged_keeps_labels [OF assms(1,2) _ _ m] by blast
  have "list_all2 (\<lambda>r u.
      (\<forall>k. k \<in> dom (u2AdditionalAttributes u) \<longleftrightarrow> k \<in> set dupeKeys) \<and>
      (\<forall>k v. urLabelMap r k = Some v \<longrightarrow> (attrs ++ u2AdditionalAttributes u) k = Some v))
      (bdValues b) (d2MeasuredUsage d)"
    unfolding u list_all2_map2
    by (simp only: list_all2_same dom_nonUniqueLabels v2_usage.simps simp_thms) (rule keep)
  then have "list_all2 (\<lambda>r u.
      (\<forall>k. k \<in> dom (u2AdditionalAttributes u) \<longleftrightarrow> conflicting (bdValues b) (v2_fixed b (hd (bdValues b)) t) k) \<and>
      (\<forall>k v. urLabelMap r k = Some v \<longrightarrow> (d2AdditionalAttributes d ++ u2AdditionalAttributes u) k = Some v))
      (bdValues b) (d2MeasuredUsage d)"
    unfolding d s(2) .
  then show ?thesis using t trans [OF d s(1)] by blast
qed

text \<open>
  A v1alpha1 event keeps every label of every record in the same way; its map of metrics has
  for each metric label the value of the first record with that label, so that further
  values are only in the detailed list.
\<close>

theorem v1_event_keeps_labels:
  assumes "label_order_ok E" "\<forall>r \<in> set (bdValues b). finite (dom (urLabelMap r))" "v1_Build E b = Inr d"
  shows "d1AdditionalLabels d = agreed (bdValues b) (v1_fixed (hd (bdValues b))) \<and>
    list_all2 (\<lambda>r m. mmLabel m = plLabel (urLabels r) \<and> mmValue m = urValue r \<and>
      (\<forall>k v. urLabelMap r k = Some v \<longrightarrow> (d1AdditionalLabels d ++ mmLabels m) k = Some v))
      (bdValues b) (d1MetricsExtended d) \<and>
    (\<forall>l. d1Metrics d l = map_option urValue (find (\<lambda>r. plLabel (urLabels r) = l) (bdValues b)))"
proof -
  have b: "bdValues b \<noteq> []" "\<forall>r \<in> set (bdValues b). Hash E r = Hash E (hd (bdValues b))"
    using assms(3) v1_Build_Inr_iff [of E b] by blast+
  obtain attrs dupeKeys where m: "merged E (bdValues b) (v1_fixed (hd (bdValues b))) = (attrs, dupeKeys)" by fastforce
  from v1_Build_eq [OF b m] assms(3) have d: "d1AdditionalLabels d = attrs"
      "d1Metrics d = fold put_metric (bdValues b) Map.empty"
    and u: "d1MetricsExtended d = map (\<lambda>r. \<lparr>mmLabel = plLabel (urLabels r), mmValue = urValue r,
        mmLabels = nonUniqueLabels dupeKeys (urLabelMap r)\<rparr>) (bdValues b)" by auto
  have s: "attrs = agreed (bdValues b) (v1_fixed (hd (bdValues b)))"
    using merged_spec(1) [OF assms(1,2), of "v1_fixed (hd (bdValues b))"] m by simp
  have keep: "\<forall>r \<in> set (bdValues b). \<forall>k v. urLabelMap r k = Some v \<longrightarrow>
      (attrs ++ nonUniqueLabels dupeKeys (urLabelMap r)) k = Some v"
    using merged_keeps_labels [OF assms(1,2) _ _ m] by blast
  have "list_all2 (\<lambda>r m. mmLabel m = plLabel (urLabels r) \<and> mmValue m = urValue r \<and>
      (\<forall>k v. urLabelMap r k = Some v \<longrightarrow> (attrs ++ mmLabels m) k = Some v)) (bdValues b) (d1MetricsExtended d)"
    unfolding u list_all2_map2
    by (simp only: list_all2_same MarketplaceMetric.simps simp_thms) (rule keep)
  moreover have "fold put_metric rs ms l =
      (case ms l of Some v \<Rightarrow> Some v | None \<Rightarrow> map_option urValue (find (\<lambda>r. plLabel (urLabels r) = l) rs))" for rs ms l
    by (induction rs arbitrary: ms) (auto simp: put_metric_def split: option.splits)
  ultimately show ?thesis using d s by simp
qed

subsection \<open>Schema v3alpha1 reads event labels from the first record\<close>

lemma Hash_labels_irrelevant [simp]: "Hash E (r\<lparr>urLabelMap := m\<rparr>) = Hash E r"
  by (simp add: Hash_def hash_text_def)

lemma v3_measure_labels:
  assumes "y = x\<lparr>urLabelMap := m\<rparr>" "beDecode E usage_tags (urLabelMap x) = beDecode E usage_tags m"
  shows "v3_measure E c y = v3_measure E c x"
proof -
  have y: "v3_namespaces E y = v3_namespaces E x" "v3_metricType y = v3_metricType x" "urLabelMap y = m"
    "urValue y = urValue x" "urLabels y = urLabels x"
    using assms(1) by (simp_all add: v3_namespaces_def v3_metricType_def Let_def)
  show ?thesis unfolding v3_measure_def y assms(2) ..
qed

lemma v3_values_labels:
  assumes "list_all2 (\<lambda>x y. \<exists>m. y = x\<lparr>urLabelMap := m\<rparr> \<and>
      beDecode E usage_tags (urLabelMap x) = beDecode E usage_tags m) rs rs'"
  shows "v3_values E c ident rs' = v3_values E c ident rs"
  using assms
proof (induction rule: list_all2_induct)
  case (Cons x xs y ys)
  then obtain m where m: "y = x\<lparr>urLabelMap := m\<rparr>" "beDecode E usage_tags (urLabelMap x) = beDecode E usage_tags m"
    by blast
  have "Hash E y = Hash E x" using m(1) by simp
  then show ?case using v3_measure_labels [OF m, of c] Cons.IH by (cases "v3_measure E c x") simp_all
qed simp

text \<open>
  In a v3alpha1 event the product labels (every label that is not one of a usage entry) of
  all records but the first have no influence on the event: records that differ only in
  them give the same event, although their hash puts them into it.
\<close>

theorem v3_later_product_labels_dropped:
  assumes "bdValues b = r # rs"
    and "list_all2 (\<lambda>x y. \<exists>m. y = x\<lparr>urLabelMap := m\<rparr> \<and>
      beDecode E usage_tags (urLabelMap x) = beDecode E usage_tags m) rs rs'"
  shows "v3_Build E (b\<lparr>bdValues := r # rs'\<rparr>) = v3_Build E b"
proof -
  have "list_all2 (\<lambda>x y. \<exists>m. y = x\<lparr>urLabelMap := m\<rparr> \<and>
      beDecode E usage_tags (urLabelMap x) = beDecode E usage_tags m) (r # rs) (r # rs')"
    using assms(2) by (auto intro: exI [of _ "urLabelMap r"])
  from v3_values_labels [OF this] have v: "v3_values E c ident (r # rs') = v3_values E c ident (r # rs)" for c ident .
  have "bdValues (b\<lparr>bdValues := r # rs'\<rparr>) = r # rs'" "bdClusterID (b\<lparr>bdValues := r # rs'\<rparr>) = bdClusterID b"
    "bdAccountID (b\<lparr>bdValues := r # rs'\<rparr>) = bdAccountID b" by simp_all
  then show ?thesis unfolding v3_Build_def assms(1) list.case by (simp only: list.case v)
qed

section \<open>A concrete environment\<close>

definition demo_build :: build_env where
  "demo_build = \<lparr>teParse = teParse demo_templates, teExecute = teExecute demo_templates,
     teSum64 = teSum64 demo_templates, teRFC3339 = teRFC3339 demo_templates,
     teParseDate = teParseDate demo_templates, teParseDay = teParseDay demo_templates,
     teMarshalList = teMarshalList demo_templates, teUnmarshalList = teUnmarshalList demo_templates,
     teDurationString = teDurationString demo_templates, teParseDuration = teParseDuration demo_templates,
     peDefault = (\<lambda>d g. if g = [] then d else g), peSortAlpha = sort, peJoin = strings_Join,
     peQueryRange = (\<lambda>_ _ _ _ _. Inr ValNone), peLabelValues = (\<lambda>_ _ _ _ _. Inr []),
     beParseFloat = (\<lambda>s. if s = [] then Inl (Err ''invalid syntax'') else Inr (of_nat (length s))),
     beDecode = (\<lambda>tags l. Inr (\<lambda>k. if k \<in> set tags then (case l k of Some (AStr v) \<Rightarrow> v | _ \<Rightarrow> []) else [])),
     beMarshalNamespaces = (\<lambda>ns. Inr (strings_Join '','' (map fst ns))),
     beLabelOrder = (\<lambda>m. sorted_list_of_set (dom m)), beNamespaceOrder = (\<lambda>m. sorted_list_of_set (dom m))\<rparr>"

definition demo_usage :: "string \<Rightarrow> string \<Rightarrow> MeterDefPrometheusLabelsTemplated" where
  "demo_usage product val = \<lparr>urLabels = demo_meter\<lparr>plLabel := ''cpu''\<rparr>, urIntervalStart = 0, urIntervalEnd = hour,
     urValue = val, urLabelMap = [''productId'' \<mapsto> AStr product], urNamespaceLabels = Map.empty, urK8sResources = []\<rparr>"

definition demo_builder :: MarketplaceReportDataBuilder where
  "demo_builder = \<lparr>bdValues = [demo_usage ''a'' ''1'', demo_usage ''b'' ''2''], bdReportStart = 0, bdReportEnd = hour,
     bdResourceNamespace = [], bdAccountID = ''acct'', bdClusterID = ''cluster''\<rparr>"

lemma demo_label_order: "label_order_ok demo_build"
  by (simp add: label_order_ok_def demo_build_def)

lemma demo_Hash: "Hash E (demo_usage p v) = Hash E (demo_usage q w)"
  by (simp add: Hash_def hash_text_def demo_usage_def)

lemma demo_builder_finite: "\<forall>r \<in> set (bdValues demo_builder). finite (dom (urLabelMap r))"
  by (simp add: demo_builder_def demo_usage_def)

theorem v2_event_keeps_labels_witness:
  "\<exists>d u w. v2_Build demo_build demo_builder = Inr d \<and> d2MeasuredUsage d = [u, w] \<and>
     (d2AdditionalAttributes d ++ u2AdditionalAttributes u) ''productId'' = Some (AStr ''a'') \<and>
     (d2AdditionalAttributes d ++ u2AdditionalAttributes w) ''productId'' = Some (AStr ''b'')"
proof -
  have "v2_metricType (plMetricType (urLabels (hd (bdValues demo_builder)))) = Inr MetricTypeLicense"
    by (simp add: v2_metricType_def demo_builder_def demo_usage_def demo_meter_def MetricTypeEmpty_def)
  moreover have "\<forall>r \<in> set (bdValues demo_builder).
      Hash demo_build r = Hash demo_build (hd (bdValues demo_builder)) \<and> float_ok demo_build r"
    using demo_Hash by (auto simp: demo_builder_def float_ok_def demo_build_def demo_usage_def)
  moreover have "bdValues demo_builder \<noteq> []" by (simp add: demo_builder_def)
  ultimately obtain d where d: "v2_Build demo_build demo_builder = Inr d"
    using v2_Build_Inr_iff [of demo_build demo_builder] by blast
  from v2_event_keeps_labels [OF demo_label_order demo_builder_finite d]
  show ?thesis using d by (auto simp: demo_builder_def demo_usage_def list_all2_Cons1)
qed

theorem v1_event_keeps_labels_witness:
  "\<exists>d u w. v1_Build demo_build demo_builder = Inr d \<and> d1MetricsExtended d = [u, w] \<and>
     (d1AdditionalLabels d ++ mmLabels w) ''productId'' = Some (AStr ''b'') \<and> d1Metrics d ''cpu'' = Some ''1''"
proof -
  have "\<forall>r \<in> set (bdValues demo_builder). Hash demo_build r = Hash demo_build (hd (bdValues demo_builder))"
    using demo_Hash by (auto simp: demo_builder_def)
  moreover have "bdValues demo_builder \<noteq> []" by (simp add: demo_builder_def)
  ultimately obtain d where d: "v1_Build demo_build demo_builder = Inr d"
    using v1_Build_Inr_iff [of demo_build demo_builder] by blast
  from v1_event_keeps_labels [OF demo_label_order demo_builder_finite d]
  show ?thesis using d by (auto simp: demo_builder_def demo_usage_def list_all2_Cons1)
qed

theorem v3_later_product_labels_dropped_witness:
  "v3_Build demo_build (demo_builder\<lparr>bdValues := [demo_usage ''a'' ''1'', demo_usage ''c'' ''2'']\<rparr>) =
     v3_Build demo_build demo_builder"
proof -
  have "list_all2 (\<lambda>x y. \<exists>m. y = x\<lparr>urLabelMap := m\<rparr> \<and>
      beDecode demo_build usage_tags (urLabelMap x) = beDecode demo_build usage_tags m)
      [demo_usage ''b'' ''2''] [demo_usage ''c'' ''2'']"
    by (auto simp: demo_usage_def demo_build_def usage_tags_def fun_eq_iff
        intro!: exI [of _ "[''productId'' \<mapsto> AStr ''c'']"])
  moreover have "bdValues demo_builder = [demo_usage ''a'' ''1'', demo_usage ''b'' ''2'']"
    by (simp add: demo_builder_def)
  ultimately show ?thesis by (intro v3_later_product_labels_dropped)
qed

end
