(* ===== verification/ReportWriting.thy ===== *)
theory ReportWriting
  imports ReportBuilders
begin

text \<open>
  The report writers of the three schemas (\<open>reporter/v2/pkg/reporter/writer/v1\<close>, \<open>v2\<close>, \<open>v3\<close>)
  and the choice of a schema (\<open>writer.go\<close>). The partition library, the JSON encoder, the
  UUID source and the file system are fields of an environment; the files that are
  written are part of the result. Errors that are combined into one are kept as a list,
  which is empty for nil.
\<close>

section \<open>Metadata\<close>

record mkt_config =
  mkAnnotations :: smap
  mkRhmAccountID :: string
  mkClusterUUID :: string

record SourceMetadata =
  smClusterID :: string
  smAccountID :: string
  smEnvironment :: string
  smVersion :: string
  smReportVersion :: string

definition ReportProductionEnv :: string where "ReportProductionEnv = ''production''"
definition ReportSandboxEnv :: string where "ReportSandboxEnv = ''stage''"

definition report_environment :: "mkt_config \<Rightarrow> string" where
  "report_environment cfg =
     (case mkAnnotations cfg ''marketplace.redhat.com/environment'' of
        Some envAnnotation \<Rightarrow> (if envAnnotation = ReportSandboxEnv then ReportSandboxEnv else ReportProductionEnv)
      | None \<Rightarrow> ReportProductionEnv)"

definition source_metadata :: "mkt_config \<Rightarrow> string \<Rightarrow> string \<Rightarrow> SourceMetadata" where
  "source_metadata cfg version reportVersion =
     \<lparr>smClusterID = mkClusterUUID cfg, smAccountID = mkRhmAccountID cfg, smEnvironment = report_environment cfg,
      smVersion = version, smReportVersion = reportVersion\<rparr>"

record ReportManifest =
  mfVersion :: string
  mfType :: string

record 'd MarketplaceReportSlice =
  slMetadata :: SourceMetadata
  slMetrics :: "'d list"

section \<open>The environment\<close>

datatype mkdir_result = MkdirOk | MkdirExists | MkdirErr go_error

text \<open>\<open>weMarshal\<close> encodes a slice, \<open>weMarshalIndex\<close> the manifest or the metadata of the report.\<close>

record ('s, 'i) write_env =
  weMkdir :: "string \<Rightarrow> mkdir_result"
  weUUID :: "nat \<Rightarrow> string"
  weJoin :: "string \<Rightarrow> string \<Rightarrow> string"
  weMarshal :: "'s \<Rightarrow> string result"
  weMarshalIndex :: "'i \<Rightarrow> string result"
  weWriteFile :: "string \<Rightarrow> string \<Rightarrow> go_error option"
  wePartition :: "nat \<Rightarrow> int \<Rightarrow> (nat \<times> nat) list"

type_synonym written_files = "(string \<times> string) list"

definition slice_range :: "'a list \<Rightarrow> nat \<times> nat \<Rightarrow> 'a list result" where
  "slice_range xs r =
     (case r of (low, high) \<Rightarrow>
        if low \<le> high \<and> high \<le> length xs then Inr (take (high - low) (drop low xs))
        else Inl (Panic ''slice bounds out of range''))"

definition slice_name :: "('s, 'i) write_env \<Rightarrow> string \<Rightarrow> nat \<Rightarrow> string" where
  "slice_name E filedir i = weJoin E filedir (weUUID E i @ ''.json'')"

section \<open>The writers of v2alpha1 and v3alpha1\<close>

text \<open>
  The writers of the two schemas have the same text over their own types. A builder
  that fails is left out of the slice and its error remembered.
\<close>

fun build_slice :: "('b \<Rightarrow> 'd result) \<Rightarrow> 'b list \<Rightarrow> 'd list \<times> go_error list" where
  "build_slice build [] = ([], [])"
| "build_slice build (b # bs) =
     (let (ds, es) = build_slice build bs in
      case build b of Inl err \<Rightarrow> (ds, err # es) | Inr d \<Rightarrow> (d # ds, es))"

fun write_slices ::
  "('d MarketplaceReportSlice, 'i) write_env \<Rightarrow> ('b \<Rightarrow> 'd result) \<Rightarrow> SourceMetadata \<Rightarrow> string \<Rightarrow> 'b list \<Rightarrow>
     (nat \<times> nat) list \<Rightarrow> nat \<Rightarrow> written_files \<Rightarrow> go_error list \<Rightarrow> written_files \<times> (go_error + go_error list)" where
  "write_slices E build meta filedir arr [] i written errs = (written, Inr errs)"
| "write_slices E build meta filedir arr (r # rs) i written errs =
     (case slice_range arr r of
        Inl err \<Rightarrow> (written, Inl err)
      | Inr bs \<Rightarrow>
          (case build_slice build bs of (metrics, es) \<Rightarrow>
             (case weMarshal E \<lparr>slMetadata = meta, slMetrics = metrics\<rparr> of
                Inl err \<Rightarrow> (written, Inl err)
              | Inr bytes \<Rightarrow>
                  (case weWriteFile E (slice_name E filedir i) bytes of
                     Some err \<Rightarrow> (written, Inl (wrap ''failed to write file'' err))
                   | None \<Rightarrow>
                       write_slices E build meta filedir arr rs (Suc i)
                         (written @ [(slice_name E filedir i, bytes)]) (errs @ es)))))"

text \<open>
  The report: the files written, and the error of an early return or the names of the
  files with the errors of the builders. \<open>order\<close> is the order in which the map of
  builders is visited.
\<close>

definition WriteReport ::
  "('d MarketplaceReportSlice, ReportManifest) write_env \<Rightarrow> ('b \<Rightarrow> 'd result) \<Rightarrow> SourceMetadata \<Rightarrow> string \<Rightarrow>
     string \<Rightarrow> (string \<rightharpoonup> 'b) \<Rightarrow> string list \<Rightarrow> string \<Rightarrow> int \<Rightarrow>
     written_files \<times> (go_error + string list \<times> go_error list)" where
  "WriteReport E build meta manifestType source metrics order outputDirectory partitionSize =
     (let filedir = weJoin E outputDirectory source in
      case weMkdir E filedir of
        MkdirErr err \<Rightarrow> ([], Inl (wrap ''error creating directory'' err))
      | _ \<Rightarrow>
          (let arr = map (\<lambda>k. the (metrics k)) order in
           case write_slices E build meta filedir arr (wePartition E (length arr) partitionSize) 0 [] [] of
             (written, Inl err) \<Rightarrow> (written, Inl err)
           | (written, Inr errs) \<Rightarrow>
               (case weMarshalIndex E \<lparr>mfVersion = ''1'', mfType = manifestType\<rparr> of
                  Inl err \<Rightarrow> (written, Inl err)
                | Inr bytes \<Rightarrow>
                    (let filename = weJoin E filedir ''manifest.json'' in
                     case weWriteFile E filename bytes of
                       Some err \<Rightarrow> (written, Inl err)
                     | None \<Rightarrow>
                         (written @ [(filename, bytes)], Inr (map fst written @ [filename], errs))))))"

definition AccountMetrics :: string where "AccountMetrics = ''accountMetrics''"
definition SWCAccountMetrics :: string where "SWCAccountMetrics = ''swcAccountMetrics''"

definition v2_WriteReport where
  "v2_WriteReport B E cfg version =
     WriteReport E (v2_Build B) (source_metadata cfg version ''v2alpha1'') AccountMetrics"

definition v3_WriteReport where
  "v3_WriteReport B E cfg version =
     WriteReport E (v3_Build B) (source_metadata cfg version ''v3alpha1'') SWCAccountMetrics"

section \<open>The writer of v1alpha1\<close>

record 'd v1_slice =
  s1ReportSliceID :: string
  s1Metadata :: SourceMetadata
  s1Metrics :: "'d list"

record ReportMetadata =
  rmReportID :: string
  rmSource :: string
  rmSourceMetadata :: SourceMetadata
  rmReportSlices :: "string \<rightharpoonup> nat"

text \<open>The result of a failed builder is nil, whose type assertion panics.\<close>

fun build_slice_v1 :: "('b \<Rightarrow> 'd result) \<Rightarrow> 'b list \<Rightarrow> 'd list result" where
  "build_slice_v1 build [] = Inr []"
| "build_slice_v1 build (b # bs) =
     (case build b of
        Inl err \<Rightarrow> Inl (Panic ''interface conversion: interface is nil'')
      | Inr d \<Rightarrow> (case build_slice_v1 build bs of Inl err \<Rightarrow> Inl err | Inr ds \<Rightarrow> Inr (d # ds)))"

fun write_slices_v1 ::
  "('d v1_slice, 'i) write_env \<Rightarrow> ('b \<Rightarrow> 'd result) \<Rightarrow> SourceMetadata \<Rightarrow> string \<Rightarrow> 'b list \<Rightarrow>
     (nat \<times> nat) list \<Rightarrow> nat \<Rightarrow> written_files \<Rightarrow> (string \<rightharpoonup> nat) \<Rightarrow> written_files \<times> (string \<rightharpoonup> nat) result" where
  "write_slices_v1 E build meta filedir arr [] i written slices = (written, Inr slices)"
| "write_slices_v1 E build meta filedir arr (r # rs) i written slices =
     (case slice_range arr r of
        Inl err \<Rightarrow> (written, Inl err)
      | Inr bs \<Rightarrow>
          (case build_slice_v1 build bs of
             Inl err \<Rightarrow> (written, Inl err)
           | Inr metrics \<Rightarrow>
               (case weMarshal E \<lparr>s1ReportSliceID = weUUID E i, s1Metadata = meta, s1Metrics = metrics\<rparr> of
                  Inl err \<Rightarrow> (written, Inl err)
                | Inr bytes \<Rightarrow>
                    (case weWriteFile E (slice_name E filedir i) bytes of
                       Some err \<Rightarrow> (written, Inl (wrap ''failed to write file'' err))
                     | None \<Rightarrow>
                         write_slices_v1 E build meta filedir arr rs (Suc i)
                           (written @ [(slice_name E filedir i, bytes)]) (slices(weUUID E i \<mapsto> length metrics))))))"

definition v1_WriteReport ::
  "('d v1_slice, ReportMetadata) write_env \<Rightarrow> ('b \<Rightarrow> 'd result) \<Rightarrow> SourceMetadata \<Rightarrow>
     string \<Rightarrow> (string \<rightharpoonup> 'b) \<Rightarrow> string list \<Rightarrow> string \<Rightarrow> int \<Rightarrow> written_files \<times> string list result" where
  "v1_WriteReport E build meta source metrics order outputDirectory partitionSize =
     (let filedir = weJoin E outputDirectory source in
      case weMkdir E filedir of
        MkdirErr err \<Rightarrow> ([], Inl (wrap ''error creating directory'' err))
      | _ \<Rightarrow>
          (let arr = map (\<lambda>k. the (metrics k)) order in
           case write_slices_v1 E build meta filedir arr (wePartition E (length arr) partitionSize) 0 [] Map.empty of
             (written, Inl err) \<Rightarrow> (written, Inl err)
           | (written, Inr slices) \<Rightarrow>
               (case weMarshalIndex E \<lparr>rmReportID = source, rmSource = source, rmSourceMetadata = meta,
                                      rmReportSlices = slices\<rparr> of
                  Inl err \<Rightarrow> (written, Inl err)
                | Inr bytes \<Rightarrow>
                    (let filename = weJoin E filedir ''metadata.json'' in
                     case weWriteFile E filename bytes of
                       Some err \<Rightarrow> (written, Inl err)
                     | None \<Rightarrow> (written @ [(filename, bytes)], Inr (map fst written @ [filename]))))))"

section \<open>The choice of a schema\<close>

datatype schema = V1alpha1 | V2alpha1 | V3alpha1

definition unsupported_schema :: "string \<Rightarrow> go_error" where
  "unsupported_schema s = Err (''Unsupported reporterSchema: '' @ s)"

definition ProvideWriter :: "string \<Rightarrow> schema result" where
  "ProvideWriter s =
     (if s = ''v1alpha1'' then Inr V1alpha1 else if s = ''v2alpha1'' then Inr V2alpha1
      else if s = ''v3alpha1'' then Inr V3alpha1 else Inl (unsupported_schema s))"

definition ProvideDataBuilder :: "string \<Rightarrow> schema result" where
  "ProvideDataBuilder s =
     (if s = ''v1alpha1'' then Inr V1alpha1 else if s = ''v2alpha1'' then Inr V2alpha1
      else if s = ''v3alpha1'' then Inr V3alpha1 else Inl (unsupported_schema s))"

section \<open>Properties\<close>

text \<open>The events that are built and the errors of the builders that fail.\<close>

definition built :: "('b \<Rightarrow> 'd result) \<Rightarrow> 'b list \<Rightarrow> 'd list" where
  "built build bs = concat (map (\<lambda>b. case build b of Inl _ \<Rightarrow> [] | Inr d \<Rightarrow> [d]) bs)"

definition failed :: "('b \<Rightarrow> 'd result) \<Rightarrow> 'b list \<Rightarrow> go_error list" where
  "failed build bs = concat (map (\<lambda>b. case build b of Inl err \<Rightarrow> [err] | Inr _ \<Rightarrow> []) bs)"

lemma built_append [simp]: "built build (xs @ ys) = built build xs @ built build ys"
  and failed_append [simp]: "failed build (xs @ ys) = failed build xs @ failed build ys"
  and built_Nil [simp]: "built build [] = []"
  and failed_Nil [simp]: "failed build [] = []"
  by (simp_all add: built_def failed_def)

lemma build_slice_spec: "build_slice build bs = (built build bs, failed build bs)"
  by (induction bs) (auto simp: built_def failed_def split: sum.splits)

lemma length_built_le: "length (built build bs) \<le> length bs"
  by (induction bs) (auto simp: built_def split: sum.splits)

lemma failed_Nil_iff: "failed build bs = [] \<longleftrightarrow> list_all2 (\<lambda>b d. build b = Inr d) bs (built build bs)"
proof (induction bs)
  case (Cons b bs)
  have "failed build (b # bs) = failed build [b] @ failed build bs" "built build (b # bs) = built build [b] @ built build bs"
    by (simp_all add: failed_def built_def)
  moreover have "list_all2 (\<lambda>b d. build b = Inr d) (b # bs) ds \<Longrightarrow> length ds = Suc (length bs)" for ds
    by (auto dest: list_all2_lengthD)
  moreover have "length (built build bs) \<le> length bs" by (rule length_built_le)
  ultimately show ?case
    using Cons by (cases "build b") (auto simp: failed_def built_def)
qed simp

text \<open>What the partition library promises: consecutive ranges of at most the given length that cover the collection.\<close>

definition partition_ok :: "('s, 'i) write_env \<Rightarrow> bool" where
  "partition_ok E \<longleftrightarrow>
     (\<forall>n size. size > 0 \<longrightarrow>
        concat (map (\<lambda>(low, high). [low..<high]) (wePartition E n size)) = [0..<n] \<and>
        (\<forall>(low, high) \<in> set (wePartition E n size). low \<le> high \<and> high \<le> n \<and> int (high - low) \<le> size))"

lemma slice_range_nth:
  assumes "slice_range xs (low, high) = Inr ys"
  shows "ys = map (\<lambda>i. xs ! i) [low..<high]" "length ys = high - low"
proof -
  have "low \<le> high" "high \<le> length xs" "ys = take (high - low) (drop low xs)"
    using assms by (auto simp: slice_range_def split: if_splits)
  then show "ys = map (\<lambda>i. xs ! i) [low..<high]" "length ys = high - low"
    by (auto intro!: nth_equalityI)
qed

text \<open>The parts of a collection that a list of ranges cuts out.\<close>

definition part :: "'a list \<Rightarrow> nat \<times> nat \<Rightarrow> 'a list" where
  "part xs r = map (\<lambda>i. xs ! i) [fst r..<snd r]"

lemma concat_parts:
  assumes "concat (map (\<lambda>(low, high). [low..<high]) rs) = [0..<length xs]"
  shows "concat (map (part xs) rs) = xs"
proof -
  have "concat (map (part xs) rs) = map (\<lambda>i. xs ! i) (concat (map (\<lambda>(low, high). [low..<high]) rs))"
    by (induction rs) (auto simp: part_def)
  then show ?thesis by (simp add: assms map_nth)
qed

lemma concat_built: "concat (map (\<lambda>r. built build (part xs r)) rs) = built build (concat (map (part xs) rs))"
  by (induction rs) auto

lemma concat_failed: "concat (map (\<lambda>r. failed build (part xs r)) rs) = failed build (concat (map (part xs) rs))"
  by (induction rs) auto

lemma slice_range_part: "slice_range xs r = Inr ys \<Longrightarrow> ys = part xs r"
  by (cases r) (auto dest: slice_range_nth(1) simp: part_def)

lemma write_slices_step:
  assumes "write_slices E build meta filedir arr (r # rs) i written errs = (written', Inr errs')"
  obtains bytes where "weMarshal E \<lparr>slMetadata = meta, slMetrics = built build (part arr r)\<rparr> = Inr bytes"
    "write_slices E build meta filedir arr rs (Suc i) (written @ [(slice_name E filedir i, bytes)])
       (errs @ failed build (part arr r)) = (written', Inr errs')"
proof -
  obtain bs where bs: "slice_range arr r = Inr bs"
    using assms by (cases "slice_range arr r") auto
  obtain bytes where m: "weMarshal E \<lparr>slMetadata = meta, slMetrics = built build bs\<rparr> = Inr bytes"
    using assms bs by (cases "weMarshal E \<lparr>slMetadata = meta, slMetrics = built build bs\<rparr>") (auto simp: build_slice_spec)
  have "weWriteFile E (slice_name E filedir i) bytes = None"
    using assms bs m by (cases "weWriteFile E (slice_name E filedir i) bytes") (auto simp: build_slice_spec)
  then show ?thesis
    using assms bs m that [of bytes] slice_range_part [OF bs] by (simp add: build_slice_spec)
qed

lemma write_slices_Inr:
  assumes "write_slices E build meta filedir arr rs i written errs = (written', Inr errs')"
  shows "errs' = errs @ concat (map (\<lambda>r. failed build (part arr r)) rs) \<and>
    (\<exists>contents. list_all2 (\<lambda>r c. weMarshal E \<lparr>slMetadata = meta, slMetrics = built build (part arr r)\<rparr> = Inr c) rs contents \<and>
      written' = written @ zip (map (slice_name E filedir) [i..<i + length rs]) contents)"
  using assms
proof (induction rs arbitrary: i written errs)
  case (Cons r rs)
  obtain bytes where m: "weMarshal E \<lparr>slMetadata = meta, slMetrics = built build (part arr r)\<rparr> = Inr bytes"
    and w: "write_slices E build meta filedir arr rs (Suc i) (written @ [(slice_name E filedir i, bytes)])
       (errs @ failed build (part arr r)) = (written', Inr errs')"
    using Cons.prems by (rule write_slices_step)
  obtain contents where "errs' = (errs @ failed build (part arr r)) @ concat (map (\<lambda>r. failed build (part arr r)) rs)"
    "list_all2 (\<lambda>r c. weMarshal E \<lparr>slMetadata = meta, slMetrics = built build (part arr r)\<rparr> = Inr c) rs contents"
    "written' = (written @ [(slice_name E filedir i, bytes)]) @ zip (map (slice_name E filedir) [Suc i..<Suc i + length rs]) contents"
    using Cons.IH [OF w] by blast
  then show ?case
    using m by (intro conjI exI [of _ "bytes # contents"]) (simp_all add: upt_conv_Cons del: upt_Suc)
qed simp

lemma WriteReport_Inr:
  assumes "WriteReport E build meta mt source metrics order out psize = (written, Inr (files, errs))"
  obtains filedir slices bytes where
    "write_slices E build meta filedir (map (\<lambda>k. the (metrics k)) order) (wePartition E (length order) psize) 0 [] [] =
       (slices, Inr errs)"
    "weMarshalIndex E \<lparr>mfVersion = ''1'', mfType = mt\<rparr> = Inr bytes"
    "written = slices @ [(weJoin E filedir ''manifest.json'', bytes)]" "files = map fst written"
proof -
  let ?dir = "weJoin E out source" and ?arr = "map (\<lambda>k. the (metrics k)) order"
  obtain slices res where w: "write_slices E build meta ?dir ?arr (wePartition E (length order) psize) 0 [] [] = (slices, res)"
    by fastforce
  have d: "weMkdir E ?dir = MkdirOk \<or> weMkdir E ?dir = MkdirExists"
    using assms by (cases "weMkdir E ?dir") (auto simp: WriteReport_def Let_def)
  then have r: "\<exists>es. res = Inr es" using assms w by (cases res) (auto simp: WriteReport_def Let_def)
  show ?thesis
    using assms w d r that [of ?dir slices]
    by (cases "weMarshalIndex E \<lparr>mfVersion = ''1'', mfType = mt\<rparr>")
      (auto simp: WriteReport_def Let_def split: option.splits)
qed

lemma partition_okD:
  assumes "partition_ok E" "psize > 0"
  shows "concat (map (\<lambda>(low, high). [low..<high]) (wePartition E n psize)) = [0..<n]"
    "(low, high) \<in> set (wePartition E n psize) \<Longrightarrow> low \<le> high \<and> high \<le> n \<and> int (high - low) \<le> psize"
  using assms unfolding partition_ok_def by (blast, fast)

lemma WriteReport_slices:
  assumes "partition_ok E" "psize > 0"
    and "WriteReport E build meta mt source metrics order out psize = (written, Inr (files, errs))"
  shows "\<exists>slices contents index. list_all2 (\<lambda>s c. weMarshal E s = Inr c) slices contents \<and>
    map snd written = contents @ [index] \<and> files = map fst written \<and>
    (\<forall>s \<in> set slices. slMetadata s = meta \<and> int (length (slMetrics s)) \<le> psize) \<and>
    concat (map slMetrics slices) = built build (map (\<lambda>k. the (metrics k)) order) \<and>
    errs = failed build (map (\<lambda>k. the (metrics k)) order)"
proof -
  let ?arr = "map (\<lambda>k. the (metrics k)) order" and ?rs = "wePartition E (length order) psize"
  let ?slice = "\<lambda>r. \<lparr>slMetadata = meta, slMetrics = built build (part ?arr r)\<rparr>"
  from assms(3) obtain filedir slices bytes where
    w: "write_slices E build meta filedir ?arr ?rs 0 [] [] = (slices, Inr errs)"
    and f: "written = slices @ [(weJoin E filedir ''manifest.json'', bytes)]" "files = map fst written"
    by (rule WriteReport_Inr)
  from write_slices_Inr [OF w] obtain contents where e: "errs = concat (map (\<lambda>r. failed build (part ?arr r)) ?rs)"
    and c: "list_all2 (\<lambda>r c. weMarshal E (?slice r) = Inr c) ?rs contents"
    and s: "slices = zip (map (slice_name E filedir) [0..<length ?rs]) contents" by auto
  have "length contents = length ?rs" using c by (simp add: list_all2_lengthD)
  then have 1: "map snd written = contents @ [bytes]" using f(1) s by simp
  have parts: "concat (map (part ?arr) ?rs) = ?arr"
    using partition_okD(1) [OF assms(1,2), of "length order"] by (intro concat_parts) simp
  have 2: "concat (map slMetrics (map ?slice ?rs)) = built build ?arr"
    using concat_built [of build ?arr ?rs] by (simp add: o_def parts)
  have 3: "int (length (slMetrics (?slice r))) \<le> psize" if "r \<in> set ?rs" for r
  proof -
    have "length (slMetrics (?slice r)) \<le> snd r - fst r"
      using length_built_le [of build "part ?arr r"] by (simp add: part_def)
    then show ?thesis using partition_okD(2) [OF assms(1,2)] that by (cases r) fastforce
  qed
  have 4: "list_all2 (\<lambda>s c. weMarshal E s = Inr c) (map ?slice ?rs) contents" using c by (simp add: list_all2_map1)
  have 5: "errs = failed build ?arr" unfolding e concat_failed parts ..
  have 6: "\<forall>s \<in> set (map ?slice ?rs). slMetadata s = meta \<and> int (length (slMetrics s)) \<le> psize" using 3 by simp
  show ?thesis using 1 2 4 5 6 f(2) by blast
qed

text \<open>What the writer does with the builders of a schema.\<close>

context schema_builder
begin

lemma report_complete:
  assumes "partition_ok W" "psize > 0"
    and "WriteReport W build meta mt source metrics order out psize = (written, Inr (files, []))"
  shows "\<exists>slices contents index. list_all2 (\<lambda>s c. weMarshal W s = Inr c) slices contents \<and>
    map snd written = contents @ [index] \<and> files = map fst written \<and>
    (\<forall>s \<in> set slices. int (length (slMetrics s)) \<le> psize) \<and>
    list_all2 event_of (map (\<lambda>k. the (metrics k)) order) (concat (map slMetrics slices))"
proof -
  let ?arr = "map (\<lambda>k. the (metrics k)) order"
  obtain slices contents index where s: "list_all2 (\<lambda>s c. weMarshal W s = Inr c) slices contents"
      "map snd written = contents @ [index]" "files = map fst written"
      "\<forall>s \<in> set slices. slMetadata s = meta \<and> int (length (slMetrics s)) \<le> psize"
      "concat (map slMetrics slices) = built build ?arr" "[] = failed build ?arr"
    using WriteReport_slices [OF assms] by blast
  have "list_all2 (\<lambda>b d. build b = Inr d) ?arr (built build ?arr)" using s(6) failed_Nil_iff by metis
  then have "list_all2 event_of ?arr (concat (map slMetrics slices))"
    unfolding s(5) by (rule list_all2_mono) (rule build_event)
  then show ?thesis using s(1-4) by blast
qed

end

text \<open>
  C21: A v3alpha1 report that is written without an error is complete: its files are slices of at
  most the configured number of events, followed by the manifest. The events of all slices
  together are those of the builders, in their order: each has the identity, interval,
  account and properties of its builder, and one usage entry per record, in order, with the
  record's metric, its parsed value, its namespace labels, its decoded properties, its
  cluster and metric type and its Kubernetes resources.
\<close>

theorem v3_report_complete:
  assumes "partition_ok W" "psize > 0"
    and "v3_WriteReport B W cfg version source metrics order out psize = (written, Inr (files, []))"
  shows "\<exists>slices contents index. list_all2 (\<lambda>s c. weMarshal W s = Inr c) slices contents \<and>
    map snd written = contents @ [index] \<and> files = map fst written \<and>
    (\<forall>s \<in> set slices. int (length (slMetrics s)) \<le> psize) \<and>
    list_all2 (v3_event_of B) (map (\<lambda>k. the (metrics k)) order) (concat (map slMetrics slices))"
  using assms(3) unfolding v3_WriteReport_def by (rule v3.report_complete [OF assms(1,2)])

text \<open>
  C20: The v2alpha1 writer leaves out exactly the builders that fail: the events of its slices are those
  of the builders that succeed, in order, and the errors it returns are those of the others, so that it
  returns no error exactly when every builder is in the report.
\<close>

theorem v2_report_partial:
  assumes "partition_ok W" "psize > 0"
    and "v2_WriteReport B W cfg version source metrics order out psize = (written, Inr (files, errs))"
  shows "\<exists>slices contents index. list_all2 (\<lambda>s c. weMarshal W s = Inr c) slices contents \<and>
    map snd written = contents @ [index] \<and>
    concat (map slMetrics slices) = built (v2_Build B) (map (\<lambda>k. the (metrics k)) order) \<and>
    errs = failed (v2_Build B) (map (\<lambda>k. the (metrics k)) order) \<and>
    (errs = [] \<longleftrightarrow> length (concat (map slMetrics slices)) = length order)"
proof -
  have len: "failed build bs = [] \<longleftrightarrow> length (built build bs) = length bs" for build :: "'b \<Rightarrow> v2_data result" and bs
  proof (induction bs)
    case (Cons b bs)
    then show ?case
      using length_built_le [of build bs] by (cases "build b") (auto simp: built_def failed_def)
  qed simp
  show ?thesis
    using WriteReport_slices [OF assms(1,2) assms(3) [unfolded v2_WriteReport_def]] len
    by (metis (no_types, lifting) length_map)
qed

subsection \<open>A failed builder crashes the v1alpha1 writer\<close>

lemma build_slice_v1_Panic: "build_slice_v1 build bs = Inl e \<Longrightarrow> \<exists>m. e = Panic m"
  by (induction bs arbitrary: e) (auto split: sum.splits)

lemma build_slice_v1_ok: "build_slice_v1 build bs = Inr ds \<Longrightarrow> b \<in> set bs \<Longrightarrow> \<not> is_err (build b)"
  by (induction bs arbitrary: ds) (auto split: sum.splits)

lemma write_slices_v1_fails:
  assumes "\<forall>r \<in> set rs. fst r \<le> snd r \<and> snd r \<le> length arr" "\<exists>r \<in> set rs. \<exists>b \<in> set (part arr r). is_err (build b)"
    "\<forall>s. \<not> is_err (weMarshal E s)" "\<forall>f c. weWriteFile E f c = None"
  shows "\<exists>m. snd (write_slices_v1 E build meta filedir arr rs i written slices) = Inl (Panic m)"
  using assms(1,2)
proof (induction rs arbitrary: i written slices)
  case (Cons r rs)
  obtain low high where r: "r = (low, high)" by fastforce
  then have s: "slice_range arr r = Inr (part arr r)"
    using Cons.prems(1) slice_range_part [of arr r] by (auto simp: slice_range_def)
  show ?case
  proof (cases "build_slice_v1 build (part arr r)")
    case (Inl err)
    then show ?thesis using s build_slice_v1_Panic by fastforce
  next
    case (Inr ds)
    let ?slice = "\<lparr>s1ReportSliceID = weUUID E i, s1Metadata = meta, s1Metrics = ds\<rparr>"
    obtain bytes where b: "weMarshal E ?slice = Inr bytes" using assms(3) [rule_format, of ?slice] by (cases "weMarshal E ?slice") auto
    have "\<exists>r \<in> set rs. \<exists>b \<in> set (part arr r). is_err (build b)"
      using Cons.prems(2) build_slice_v1_ok [OF Inr] by auto
    then have "\<exists>m. snd (write_slices_v1 E build meta filedir arr rs (Suc i)
        (written @ [(slice_name E filedir i, bytes)]) (slices(weUUID E i \<mapsto> length ds))) = Inl (Panic m)"
      using Cons.prems(1) by (intro Cons.IH) auto
    then show ?thesis using s Inr b assms(4) by simp
  qed
qed simp

text \<open>
  The v1alpha1 writer crashes on a builder that fails: although it collects the errors of
  builders to return them, the failed builder's result is nil and its type assertion
  panics, also when nothing else goes wrong.
\<close>

theorem v1_writer_crashes:
  assumes "partition_ok W" "psize > 0" "weMkdir W (weJoin W out source) = MkdirOk"
    "\<forall>s. \<not> is_err (weMarshal W s)" "\<forall>f c. weWriteFile W f c = None"
    "k \<in> set order" "is_err (v1_Build B (the (metrics k)))"
  shows "\<exists>m. snd (v1_WriteReport W (v1_Build B) meta source metrics order out psize) = Inl (Panic m)"
proof -
  let ?arr = "map (\<lambda>k. the (metrics k)) order" and ?rs = "wePartition W (length order) psize"
  let ?run = "write_slices_v1 W (v1_Build B) meta (weJoin W out source) ?arr ?rs 0 [] Map.empty"
  have "concat (map (part ?arr) ?rs) = ?arr"
    using partition_okD(1) [OF assms(1,2), of "length order"] by (intro concat_parts) simp
  then have "the (metrics k) \<in> set (concat (map (part ?arr) ?rs))" using assms(6) by simp
  then have "\<exists>r \<in> set ?rs. \<exists>b \<in> set (part ?arr r). is_err (v1_Build B b)" using assms(7) by auto
  moreover have "\<forall>r \<in> set ?rs. fst r \<le> snd r \<and> snd r \<le> length ?arr"
    using partition_okD(2) [OF assms(1,2)] by fastforce
  ultimately have "\<exists>m. snd ?run = Inl (Panic m)" using assms(4,5) by (intro write_slices_v1_fails)
  then obtain w m where "?run = (w, Inl (Panic m))" by (cases ?run) auto
  then show ?thesis using assms(3) by (simp add: v1_WriteReport_def Let_def)
qed

section \<open>A concrete environment\<close>

function demo_partition :: "nat \<Rightarrow> nat \<Rightarrow> nat \<Rightarrow> (nat \<times> nat) list" where
  "demo_partition i n s = (if s = 0 \<or> n \<le> i then [] else (i, min n (i + s)) # demo_partition (i + s) n s)"
  by pat_completeness auto
termination by (relation "measure (\<lambda>(i, n, s). n - i)") auto

declare demo_partition.simps [simp del]

definition demo_write :: "('s, 'i) write_env" where
  "demo_write = \<lparr>weMkdir = (\<lambda>_. MkdirOk), weUUID = (\<lambda>i. replicate i CHR ''u''), weJoin = (\<lambda>a b. a @ ''/'' @ b),
     weMarshal = (\<lambda>_. Inr ''{}''), weMarshalIndex = (\<lambda>_. Inr ''{}''), weWriteFile = (\<lambda>_ _. None),
     wePartition = (\<lambda>n size. demo_partition 0 n (nat size))\<rparr>"

lemma demo_partition_covers:
  "s > 0 \<Longrightarrow> i \<le> n \<Longrightarrow> concat (map (\<lambda>(low, high). [low..<high]) (demo_partition i n s)) = [i..<n]"
proof (induction i n s rule: demo_partition.induct)
  case (1 i n s)
  show ?case
  proof (cases "n \<le> i")
    case False
    have "[i..<n] = [i..<min n (i + s)] @ [min n (i + s)..<n]"
      using False upt_add_eq_append [of i "min n (i + s)" "n - min n (i + s)"] by simp
    moreover have "concat (map (\<lambda>(low, high). [low..<high]) (demo_partition (i + s) n s)) = [min n (i + s)..<n]"
    proof (cases "i + s \<le> n")
      case True
      then show ?thesis using 1 False by simp
    next
      case False
      then show ?thesis by (simp add: demo_partition.simps [of "i + s"] min_def)
    qed
    ultimately show ?thesis using False 1 by (subst demo_partition.simps) simp
  qed (use 1 in \<open>simp add: demo_partition.simps\<close>)
qed

lemma demo_partition_bounds:
  "(low, high) \<in> set (demo_partition i n s) \<Longrightarrow> low \<le> high \<and> high \<le> n \<and> high - low \<le> s"
proof (induction i n s rule: demo_partition.induct)
  case (1 i n s)
  then show ?case by (subst (asm) (2) demo_partition.simps) (auto split: if_splits)
qed

lemma demo_partition_ok: "partition_ok demo_write"
proof -
  have "int (high - low) \<le> size" if "(low, high) \<in> set (demo_partition 0 n (nat size))" "size > 0" for low high n size
    using demo_partition_bounds [OF that(1)] that(2) by linarith
  then show ?thesis
    using demo_partition_bounds unfolding partition_ok_def
    by (auto simp: demo_write_def demo_partition_covers)
qed

lemma demo_write_sel [simp]:
  "weMkdir demo_write d = MkdirOk" "weMarshal demo_write s = Inr ''{}''" "weMarshalIndex demo_write i = Inr ''{}''"
  "weWriteFile demo_write f c = None" "wePartition demo_write n psize = demo_partition 0 n (nat psize)"
  by (simp_all add: demo_write_def)

lemma demo_write_slices:
  "\<forall>r \<in> set rs. fst r \<le> snd r \<and> snd r \<le> length arr \<Longrightarrow>
   \<exists>written. write_slices demo_write build meta filedir arr rs i w errs =
     (written, Inr (errs @ concat (map (\<lambda>r. failed build (part arr r)) rs)))"
proof (induction rs arbitrary: i w errs)
  case (Cons r rs)
  have "slice_range arr r = Inr (part arr r)"
    using Cons.prems slice_range_part [of arr r] by (cases r) (auto simp: slice_range_def)
  then show ?case
    using Cons.IH [of "Suc i" _ "errs @ failed build (part arr r)"] Cons.prems by (simp add: build_slice_spec)
qed simp

lemma demo_WriteReport_all:
  fixes build :: "'b \<Rightarrow> 'd result"
  shows "\<exists>written files. WriteReport demo_write build meta mt source metrics order out 10 =
     (written, Inr (files, failed build (map (\<lambda>k. the (metrics k)) order)))"
proof -
  let ?arr = "map (\<lambda>k. the (metrics k)) order" and ?rs = "demo_partition 0 (length order) 10"
  have "\<forall>r \<in> set ?rs. fst r \<le> snd r \<and> snd r \<le> length ?arr" using demo_partition_bounds by fastforce
  from demo_write_slices [OF this, where errs = "[]"]
  obtain w where w: "write_slices (demo_write :: ('d MarketplaceReportSlice, ReportManifest) write_env) build meta
      (weJoin (demo_write :: ('d MarketplaceReportSlice, ReportManifest) write_env) out source) ?arr ?rs 0 [] [] =
      (w, Inr (concat (map (\<lambda>r. failed build (part ?arr r)) ?rs)))" by (metis append_Nil)
  moreover have "concat (map (part ?arr) ?rs) = ?arr" by (intro concat_parts) (simp add: demo_partition_covers)
  ultimately show ?thesis
    unfolding concat_failed by (simp add: WriteReport_def Let_def)
qed

lemma demo_WriteReport:
  "\<exists>written files. WriteReport demo_write build meta mt source [''h'' \<mapsto> b] [''h''] out 10 =
     (written, Inr (files, failed build [b]))"
  using demo_WriteReport_all [of build meta mt source "[''h'' \<mapsto> b]" "[''h'']" out] by simp

lemma demo_same_hash:
  "\<forall>r \<in> set (bdValues demo_builder). Hash demo_build r = Hash demo_build (hd (bdValues demo_builder))"
  using demo_Hash by (auto simp: demo_builder_def)

lemma demo_v3_builds: "failed (v3_Build demo_build) [demo_builder] = []"
proof -
  have "\<forall>r \<in> set (bdValues demo_builder). v3_ok demo_build r"
    by (auto simp: demo_builder_def v3_ok_def v3_measure_def demo_build_def demo_usage_def v3_namespaces_def
        v3_metricType_def demo_meter_def MetricTypeEmpty_def)
  moreover have "\<not> is_err (beDecode demo_build event_tags (urLabelMap (hd (bdValues demo_builder))))"
    by (simp add: demo_build_def)
  moreover have "bdValues demo_builder \<noteq> []" by (simp add: demo_builder_def)
  ultimately obtain d where "v3_Build demo_build demo_builder = Inr d"
    using v3_Build_Inr_iff [of demo_build demo_builder] demo_same_hash by blast
  then show ?thesis by (simp add: failed_def)
qed

definition demo_mkt :: mkt_config where
  "demo_mkt = \<lparr>mkAnnotations = Map.empty, mkRhmAccountID = ''acct'', mkClusterUUID = ''cluster''\<rparr>"

theorem v3_report_complete_witness:
  "\<exists>written files (slices :: v3_data MarketplaceReportSlice list) d.
     v3_WriteReport demo_build demo_write demo_mkt ''2'' ''id'' [''h'' \<mapsto> demo_builder] [''h''] ''out'' 10 =
       (written, Inr (files, [])) \<and> length written = Suc (length slices) \<and>
     concat (map slMetrics slices) = [d] \<and> v3_event_of demo_build demo_builder d \<and> length (d3MeasuredUsage d) = 2"
proof -
  let ?W = "demo_write :: (v3_data MarketplaceReportSlice, ReportManifest) write_env"
  obtain written files where w:
    "v3_WriteReport demo_build ?W demo_mkt ''2'' ''id'' [''h'' \<mapsto> demo_builder] [''h''] ''out'' 10 = (written, Inr (files, []))"
    using demo_WriteReport [of "v3_Build demo_build" _ _ _ demo_builder] unfolding v3_WriteReport_def demo_v3_builds
    by blast
  from v3_report_complete [OF demo_partition_ok _ w]
  obtain slices contents index where s: "list_all2 (\<lambda>s c. weMarshal ?W s = Inr c) slices contents"
    "map snd written = contents @ [index]"
    "list_all2 (v3_event_of demo_build) [demo_builder] (concat (map slMetrics slices))" by auto
  from s(1,2) have "length written = Suc (length slices)"
    by (metis length_append_singleton length_map list_all2_lengthD)
  moreover from s(3) obtain d where d: "concat (map slMetrics slices) = [d]" "v3_event_of demo_build demo_builder d"
    by (auto simp: list_all2_Cons1)
  moreover have "length (bdValues demo_builder) = 2" by (simp add: demo_builder_def)
  then have "length (d3MeasuredUsage d) = 2" using d(2) list_all2_lengthD unfolding v3_event_of_def by metis
  ultimately show ?thesis using w by blast
qed

theorem v2_report_partial_witness:
  "\<exists>written files (slices :: v2_data MarketplaceReportSlice list).
     v2_WriteReport demo_build demo_write demo_mkt ''2'' ''id'' [''h'' \<mapsto> builder_New] [''h''] ''out'' 10 =
       (written, Inr (files, [ErrNoValuesSet])) \<and> length written = Suc (length slices) \<and> concat (map slMetrics slices) = []"
proof -
  let ?W = "demo_write :: (v2_data MarketplaceReportSlice, ReportManifest) write_env"
  have f: "failed (v2_Build demo_build) [builder_New] = [ErrNoValuesSet]" "built (v2_Build demo_build) [builder_New] = []"
    by (simp_all add: built_def failed_def v2_Build_def builder_New_def)
  obtain written files where w:
    "v2_WriteReport demo_build ?W demo_mkt ''2'' ''id'' [''h'' \<mapsto> builder_New] [''h''] ''out'' 10 =
       (written, Inr (files, [ErrNoValuesSet]))"
    using demo_WriteReport [of "v2_Build demo_build" _ _ _ builder_New] unfolding v2_WriteReport_def f by blast
  from v2_report_partial [OF demo_partition_ok _ w]
  obtain slices contents index where "list_all2 (\<lambda>s c. weMarshal ?W s = Inr c) slices contents"
    "map snd written = contents @ [index]" "concat (map slMetrics slices) = []"
    by (auto simp: f)
  moreover from this have "length written = Suc (length slices)"
    by (metis length_append_singleton length_map list_all2_lengthD)
  ultimately show ?thesis using w by blast
qed

theorem v1_writer_crashes_witness:
  "\<exists>m. snd (v1_WriteReport (demo_write :: (v1_data v1_slice, ReportMetadata) write_env) (v1_Build demo_build)
      (source_metadata \<lparr>mkAnnotations = Map.empty, mkRhmAccountID = ''acct'', mkClusterUUID = ''cluster''\<rparr> ''2'' ''v1alpha1'')
      ''id'' [''h'' \<mapsto> builder_New] [''h''] ''out'' 10) = Inl (Panic m)"
proof -
  let ?W = "demo_write :: (v1_data v1_slice, ReportMetadata) write_env"
  have "weMkdir ?W (weJoin ?W ''out'' ''id'') = MkdirOk" "\<forall>s. \<not> is_err (weMarshal ?W s)"
    "\<forall>f c. weWriteFile ?W f c = None" by (simp_all add: demo_write_def)
  moreover have "is_err (v1_Build demo_build (the ([''h'' \<mapsto> builder_New] ''h'')))"
    by (simp add: v1_Build_def builder_New_def)
  ultimately show ?thesis using demo_partition_ok
    by (intro v1_writer_crashes [where k = "''h''"]) simp_all
qed

end
