(* ===== verification/ReportCollection.thy ===== *)
theory ReportCollection
  imports ReportWriting
begin

text \<open>
  The collection of a report's metrics (\<open>reporter/v2/pkg/reporter/reporter.go\<close>,
  \<open>discover.go\<close>): the queries of the meter definitions, the samples Prometheus answers with, and
  the concurrent processing that groups their records into builders. The goroutines are a
  step relation: the query workers take meter definitions, the processing workers take samples
  of the answers, in any interleaving. The number of workers only restricts the
  interleavings and is not modelled.
\<close>

section \<open>Queries\<close>

record meterDefPromQuery =
  mqUid :: string
  mqQuery :: PromQueryArgs
  mqMeterDefLabel :: MeterDefPrometheusLabels
  mqMeterGroup :: string
  mqMeterKind :: string
  mqLabel :: string

definition buildPromQuery :: "'e prom_env_scheme \<Rightarrow> smap \<Rightarrow> int \<Rightarrow> int \<Rightarrow> meterDefPromQuery result" where
  "buildPromQuery E labels start stop =
     (case FromLabels E labels of
        Inl err \<Rightarrow> Inl err
      | Inr m \<Rightarrow>
          (case NewPromQueryFromLabels m start stop of
             Inl err \<Rightarrow> Inl err
           | Inr query \<Rightarrow>
               Inr \<lparr>mqUid = plUID m, mqQuery = query, mqMeterDefLabel = m, mqMeterGroup = plMeterGroup m,
                    mqMeterKind = plMeterKind m, mqLabel = plMetric m\<rparr>))"

fun transform_loop ::
  "'e prom_env_scheme \<Rightarrow> int \<Rightarrow> int \<Rightarrow> MeterDefPrometheusLabels list \<Rightarrow> meterDefPromQuery list result" where
  "transform_loop E start stop [] = Inr []"
| "transform_loop E start stop (l # ls) =
     (case buildPromQuery E (ToLabels E l) start stop of
        Inl err \<Rightarrow> Inl err
      | Inr q \<Rightarrow> (case transform_loop E start stop ls of Inl err \<Rightarrow> Inl err | Inr qs \<Rightarrow> Inr (q # qs)))"

definition transformMeterDefinitionReference ::
  "'e prom_env_scheme \<Rightarrow> MeterDefinitionReference \<Rightarrow> int \<Rightarrow> int \<Rightarrow> meterDefPromQuery list result" where
  "transformMeterDefinitionReference E ref start stop =
     (case ref_ToPrometheusLabels ref of
        Inl err \<Rightarrow> Inl err
      | Inr labels \<Rightarrow> transform_loop E start stop labels)"

section \<open>Saved definitions\<close>

definition getMatrixValue :: "smap \<Rightarrow> string \<Rightarrow> string \<times> bool" where
  "getMatrixValue m labelName = (case m labelName of Some v \<Rightarrow> (v, True) | None \<Rightarrow> ([], False))"

text \<open>The zero value of \<open>time.Time\<close>, the first of January of the year 1.\<close>

definition zero_time :: int where "zero_time = - 62135596800000"

fun span_loop :: "SamplePair list \<Rightarrow> int \<times> int \<Rightarrow> int \<times> int" where
  "span_loop [] mm = mm"
| "span_loop (v # vs) (mn, mx) =
     span_loop vs (if spTimestamp v < mn then spTimestamp v else mn,
                   if spTimestamp v + hour > mx then spTimestamp v + hour else mx)"

definition time_span :: "SamplePair list \<Rightarrow> int \<times> int" where
  "time_span vs =
     (case vs of
        [] \<Rightarrow> (zero_time, zero_time)
      | v # _ \<Rightarrow> span_loop vs (spTimestamp v, spTimestamp v + hour))"

type_synonym query_set = "(string \<times> string) \<rightharpoonup> meterDefPromQuery list"

definition add_query :: "meterDefPromQuery \<Rightarrow> query_set \<Rightarrow> query_set" where
  "add_query q results =
     (case results (pqMeterDef (mqQuery q)) of
        Some v \<Rightarrow> results(pqMeterDef (mqQuery q) \<mapsto> v @ [q])
      | None \<Rightarrow> results(pqMeterDef (mqQuery q) \<mapsto> [q]))"

text \<open>An error of one series is kept and the series left out; a panic ends the function.\<close>

fun getQueries_loop ::
  "'e prom_env_scheme \<Rightarrow> SampleStream list \<Rightarrow> query_set \<Rightarrow> go_error list \<Rightarrow> (query_set \<times> go_error list) result" where
  "getQueries_loop E [] results errs = Inr (results, errs)"
| "getQueries_loop E (matrix # ms) results errs =
     (if fst (getMatrixValue (ssMetric matrix) ''meter_group'') = [] \<and>
         fst (getMatrixValue (ssMetric matrix) ''meter_kind'') = []
      then getQueries_loop E ms results errs
      else
        (case time_span (ssValues matrix) of (mn, mx) \<Rightarrow>
           (case buildPromQuery E (ssMetric matrix) mn mx of
              Inl (Panic m) \<Rightarrow> Inl (Panic m)
            | Inl err \<Rightarrow> getQueries_loop E ms results (errs @ [wrap ''failed to build query'' err])
            | Inr promQuery \<Rightarrow> getQueries_loop E ms (add_query promQuery results) errs)))"

definition getQueries :: "'e prom_env_scheme \<Rightarrow> SampleStream list \<Rightarrow> (query_set \<times> go_error list) result" where
  "getQueries E ms = getQueries_loop E ms Map.empty []"

text \<open>
  The report and the environment of a collection: \<open>ceTag\<close> numbers the namespace calls of
  the samples, \<open>ceFieldOrder\<close> and \<open>ceMetricOrder\<close> are the orders of the ranges over the
  templates and over the labels of a metric.
\<close>

record sample =
  saQuery :: meterDefPromQuery
  saMetric :: smap
  saPair :: SamplePair

record collect_env = build_env +
  ceStartTime :: int
  ceEndTime :: int
  ceRetry :: int
  ceConfig :: mkt_config
  ceK8sResources :: "any list"
  ceTag :: "sample \<Rightarrow> nat"
  ceFieldOrder :: "sample \<Rightarrow> template_field list"
  ceMetricOrder :: "smap \<Rightarrow> string list"

definition query_error_text :: "query_error \<Rightarrow> go_error" where
  "query_error_text err = (case err of QueryPanic e \<Rightarrow> e | _ \<Rightarrow> Err ''error with query'')"

text \<open>\<open>errors.Combine\<close> of a non-empty list of errors.\<close>

definition combine :: "go_error list \<Rightarrow> go_error" where
  "combine errs = (case errs of [e] \<Rightarrow> e | _ \<Rightarrow> Err (strings_Join ''; '' (map error_string errs)))"

definition unprocessable :: go_error where "unprocessable = Err ''result type is unprocessable''"

definition getMeterDefinitions :: "'e collect_env_scheme \<Rightarrow> query_set result" where
  "getMeterDefinitions E =
     (case snd (Retry (\<lambda>i s. (s, QueryMeterDefinitions E i (ceStartTime E) (ceEndTime E - 1) hour)) (ceRetry E) ()) of
        Inl err \<Rightarrow> Inl (query_error_text err)
      | Inr (ValMatrix ms) \<Rightarrow>
          (case getQueries E ms of
             Inl err \<Rightarrow> Inl err
           | Inr (results, errs) \<Rightarrow> (if length errs \<noteq> 0 then Inl (combine errs) else Inr results))
      | Inr _ \<Rightarrow> Inl unprocessable)"

section \<open>Producing the queries\<close>

fun reference_set ::
  "'e collect_env_scheme \<Rightarrow> int \<Rightarrow> int \<Rightarrow> MeterDefinitionReference list \<Rightarrow> query_set \<Rightarrow> query_set result" where
  "reference_set E start stop [] definitionSet = Inr definitionSet"
| "reference_set E start stop (ref # refs) definitionSet =
     (case transformMeterDefinitionReference E ref start stop of
        Inl err \<Rightarrow> Inl err
      | Inr queries \<Rightarrow>
          reference_set E start stop refs
            (case definitionSet (refName ref, refNamespace ref) of
               None \<Rightarrow> definitionSet((refName ref, refNamespace ref) \<mapsto> queries)
             | Some _ \<Rightarrow> definitionSet))"

text \<open>The saved definitions are added where the references have none.\<close>

definition add_saved :: "query_set \<Rightarrow> query_set \<Rightarrow> query_set" where
  "add_saved definitionSet savedSet = savedSet ++ definitionSet"

text \<open>The queries that are sent, in the order of the range over the set, or the error.\<close>

definition ProduceMeterDefinitions ::
  "'e collect_env_scheme \<Rightarrow> (query_set \<Rightarrow> (string \<times> string) list) \<Rightarrow> MeterDefinitionReference list \<Rightarrow>
     meterDefPromQuery list result" where
  "ProduceMeterDefinitions E order refs =
     (case reference_set E (ceStartTime E) (ceEndTime E - 1000) refs Map.empty of
        Inl err \<Rightarrow> Inl err
      | Inr definitionSet \<Rightarrow>
          (case getMeterDefinitions E of
             Inl err \<Rightarrow> Inl err
           | Inr savedSet \<Rightarrow>
               (let all = add_saved definitionSet savedSet in
                Inr (concat (map (\<lambda>key. the (all key)) (order all))))))"

section \<open>Labels of a sample\<close>

definition getAllKeysFromMetric :: "smap \<Rightarrow> string list \<Rightarrow> any list" where
  "getAllKeysFromMetric metric order = concat (map (\<lambda>k. [AStr k, AStr (the (metric k))]) order)"

fun ChunkBy_loop :: "'a list \<Rightarrow> nat \<Rightarrow> nat \<Rightarrow> 'a list list" where
  "ChunkBy_loop items c 0 = []"
| "ChunkBy_loop items c (Suc n) = take c items # ChunkBy_loop (drop c items) c n"

text \<open>\<open>utils.ChunkBy\<close>: the items are cut into parts of the given length.\<close>

definition ChunkBy :: "'a list \<Rightarrow> nat \<Rightarrow> 'a list list result" where
  "ChunkBy items chunkSize =
     (if length items = 0 then Inr []
      else if length items mod chunkSize \<noteq> 0 then Inl (Panic ''items length is not chunkable by the size'')
      else Inr (ChunkBy_loop items chunkSize (length items div chunkSize)))"

fun kv_loop :: "any list list \<Rightarrow> labels \<Rightarrow> labels result" where
  "kv_loop [] metrics = Inr metrics"
| "kv_loop ([] # cs) metrics = kv_loop cs metrics"
| "kv_loop ((AStr k # v # r) # cs) metrics = kv_loop cs (metrics(k \<mapsto> v))"
| "kv_loop ((k # v # r) # cs) metrics = Inl (Err ''key type is not a string'')"
| "kv_loop ([k] # cs) metrics = Inl (Panic ''index out of range'')"

definition kvToMap :: "any list \<Rightarrow> labels result" where
  "kvToMap keysAndValues =
     (if length keysAndValues mod 2 \<noteq> 0 then Inl (Err ''keyAndValues must be a length of 2'')
      else (case ChunkBy keysAndValues 2 of Inl err \<Rightarrow> Inl err | Inr chunks \<Rightarrow> kv_loop chunks Map.empty))"

section \<open>Namespace labels\<close>

definition labelPrefix :: string where "labelPrefix = ''label_''"
definition swcLabelPrefix :: string where "swcLabelPrefix = ''label_swc_saas_ibm_com_''"

definition TrimPrefix :: "string \<Rightarrow> string \<Rightarrow> string" where
  "TrimPrefix s prefix = (if starts_with prefix s then drop (length prefix) s else s)"

text \<open>The labels with the prefix, without \<open>label_\<close>; a value that is not a string fails the type assertion.\<close>

fun swc_loop :: "labels \<Rightarrow> string list \<Rightarrow> smap \<Rightarrow> smap result" where
  "swc_loop kv [] acc = Inr acc"
| "swc_loop kv (k # ks) acc =
     (if starts_with swcLabelPrefix k
      then (case kv k of
              Some (AStr v) \<Rightarrow> swc_loop kv ks (acc(TrimPrefix k labelPrefix \<mapsto> v))
            | _ \<Rightarrow> Inl (Panic ''interface conversion''))
      else swc_loop kv ks acc)"

fun namespace_loop :: "'e collect_env_scheme \<Rightarrow> SampleStream list \<Rightarrow> (string \<rightharpoonup> smap) \<Rightarrow> (string \<rightharpoonup> smap) result" where
  "namespace_loop E [] nsLabels = Inr nsLabels"
| "namespace_loop E (matrix # ms) nsLabels =
     (case kvToMap (getAllKeysFromMetric (ssMetric matrix) (ceMetricOrder E (ssMetric matrix))) of
        Inl err \<Rightarrow> Inl err
      | Inr kvMap \<Rightarrow>
          (case kvMap ''namespace'' of
             None \<Rightarrow> namespace_loop E ms nsLabels
           | Some namespace \<Rightarrow>
               (case swc_loop kvMap (beLabelOrder E kvMap) Map.empty of
                  Inl err \<Rightarrow> Inl err
                | Inr k8sLabels \<Rightarrow>
                    (case namespace of
                       AStr ns \<Rightarrow> namespace_loop E ms (nsLabels(ns \<mapsto> k8sLabels))
                     | _ \<Rightarrow> Inl (Panic ''interface conversion'')))))"

definition getNamespaceLabels :: "'e collect_env_scheme \<Rightarrow> nat \<Rightarrow> string list \<Rightarrow> (string \<rightharpoonup> smap) result" where
  "getNamespaceLabels E tag namespaces =
     (case snd (Retry (\<lambda>i s. (s, QueryNamespaceLabels E (tag + i) namespaces (ceStartTime E) (ceEndTime E - 1) hour))
                  (ceRetry E) ()) of
        Inl err \<Rightarrow> Inl (query_error_text err)
      | Inr (ValMatrix ms) \<Rightarrow> namespace_loop E ms Map.empty
      | Inr _ \<Rightarrow> Inl unprocessable)"

section \<open>Processing one sample\<close>

text \<open>
  An error on the channel has a cause and a text. A sample gives a record, an error, or
  crashes the process.
\<close>

datatype chan_error = ChanError (chCause: string) (chText: string)

datatype outcome = Recorded MeterDefPrometheusLabelsTemplated | Reported chan_error | Crashed string

definition WarningDuplicateData :: string where "WarningDuplicateData = ''duplicate data''"
definition WarningPrintTemplate :: string where "WarningPrintTemplate = ''template error''"

definition chan_wrap :: "string \<Rightarrow> go_error \<Rightarrow> outcome" where
  "chan_wrap msg err = (case err of Err m \<Rightarrow> Reported (ChanError m (msg @ '': '' @ m)) | Panic m \<Rightarrow> Crashed m)"

definition label_namespace :: "MeterDefPrometheusLabels \<Rightarrow> string" where
  "label_namespace r =
     (if plResourceNamespace r \<noteq> [] then plResourceNamespace r
      else if plExportedMeterDefNamespace r \<noteq> [] then plExportedMeterDefNamespace r else [])"

definition add_namespaces :: "'e collect_env_scheme \<Rightarrow> sample \<Rightarrow> MeterDefPrometheusLabelsTemplated \<Rightarrow> outcome" where
  "add_namespaces E x r =
     (let ns = label_namespace (urLabels r) in
      if ns \<noteq> []
      then (case getNamespaceLabels E (ceTag E x) [ns] of
              Inl err \<Rightarrow> chan_wrap ''failed to get namespace labels'' err
            | Inr nsLabels \<Rightarrow> Recorded (r\<lparr>urNamespaceLabels := nsLabels, urK8sResources := ceK8sResources E\<rparr>))
      else Recorded (r\<lparr>urK8sResources := ceK8sResources E\<rparr>))"

definition process_pair :: "'e collect_env_scheme \<Rightarrow> sample \<Rightarrow> outcome" where
  "process_pair E x =
     (let (name, namespace) = pqMeterDef (mqQuery (saQuery x));
          known = (name \<noteq> [] \<and> namespace \<noteq> [])
      in case kvToMap (getAllKeysFromMetric (saMetric x) (ceMetricOrder E (saMetric x))) of
           Inl err \<Rightarrow> (if known then Crashed ''assignment to entry in nil map'' else chan_wrap ''failed to get kvmap'' err)
         | Inr kv \<Rightarrow>
             (let kvMap = (if known then kv(''meter_def_name'' \<mapsto> AStr name, ''meter_def_namespace'' \<mapsto> AStr namespace) else kv) in
              case PrintTemplate E (ceFieldOrder E x) (mqMeterDefLabel (saQuery x)) kvMap (saPair x) of
                Inl (Panic m) \<Rightarrow> Crashed m
              | Inl (Err m) \<Rightarrow>
                  Reported (ChanError WarningPrintTemplate
                    ((if known then namespace @ ''/'' @ name else ''/'') @ '' '' @ m @ '': '' @ WarningPrintTemplate))
              | Inr r \<Rightarrow> add_namespaces E x r))"

definition new_builder :: "'e collect_env_scheme \<Rightarrow> MarketplaceReportDataBuilder" where
  "new_builder E =
     SetReportInterval (ceStartTime E) (ceEndTime E)
       (SetAccountID (mkRhmAccountID (ceConfig E)) (SetClusterID (mkClusterUUID (ceConfig E)) builder_New))"

type_synonym results = "string \<rightharpoonup> MarketplaceReportDataBuilder"

definition add_record :: "'e collect_env_scheme \<Rightarrow> MeterDefPrometheusLabelsTemplated \<Rightarrow> results \<Rightarrow> results" where
  "add_record E r results =
     (let dataBuilder = (case results (Hash E r) of None \<Rightarrow> new_builder E | Some b \<Rightarrow> b)
      in results(Hash E r \<mapsto> AddMeterDefinitionLabels r dataBuilder))"

text \<open>The samples of an answer, or the error for an answer without a type; other answers that are not a matrix are dropped.\<close>

definition samples_of :: "meterDefPromQuery \<Rightarrow> SampleStream list \<Rightarrow> sample list" where
  "samples_of q ms = concat (map (\<lambda>m. map (\<lambda>p. \<lparr>saQuery = q, saMetric = ssMetric m, saPair = p\<rparr>) (ssValues m)) ms)"

fun model_work :: "meterDefPromQuery \<Rightarrow> model_value \<Rightarrow> sample list" where
  "model_work q (ValMatrix ms) = samples_of q ms"
| "model_work q _ = []"

fun model_errors :: "model_value \<Rightarrow> chan_error list" where
  "model_errors ValNone = [ChanError ''cannot process model type=none'' ''cannot process model type=none'']"
| "model_errors _ = []"

definition query_one :: "'e collect_env_scheme \<Rightarrow> meterDefPromQuery \<Rightarrow> query_error + model_value" where
  "query_one E q = snd (Retry (\<lambda>i. ReportQuery E i) (ceRetry E) (mqQuery q))"

section \<open>The concurrent collection\<close>

text \<open>
  \<open>csQueries\<close> holds the queries the workers have not taken, \<open>csModels\<close> the answers, \<open>csWork\<close>
  the remaining samples of the answers the workers process, \<open>csProducer\<close> the error of
  the producer until it is sent. \<open>csErrors\<close> is what the error channel has received.
\<close>

record collect_state =
  csQueries :: "meterDefPromQuery multiset"
  csModels :: "(meterDefPromQuery \<times> model_value) multiset"
  csWork :: "sample list multiset"
  csProducer :: "chan_error multiset"
  csResults :: results
  csErrors :: "chan_error list"
  csCrashed :: bool

definition query_chan_error :: "query_error \<Rightarrow> chan_error" where
  "query_chan_error err = ChanError (error_string (query_error_text err)) (''error with query: '' @ error_string (query_error_text err))"

inductive collect_step :: "'e collect_env_scheme \<Rightarrow> collect_state \<Rightarrow> collect_state \<Rightarrow> bool" for E where
  query_answered:
    "\<not> csCrashed s \<Longrightarrow> csQueries s = add_mset q Q \<Longrightarrow> query_one E q = Inr v \<Longrightarrow>
     collect_step E s (s\<lparr>csQueries := Q, csModels := add_mset (q, v) (csModels s)\<rparr>)"
| query_failed:
    "\<not> csCrashed s \<Longrightarrow> csQueries s = add_mset q Q \<Longrightarrow> query_one E q = Inl err \<Longrightarrow>
     \<not> is_QueryPanic err \<Longrightarrow>
     collect_step E s (s\<lparr>csQueries := Q, csErrors := csErrors s @ [query_chan_error err]\<rparr>)"
| query_crashed:
    "\<not> csCrashed s \<Longrightarrow> csQueries s = add_mset q Q \<Longrightarrow> query_one E q = Inl err \<Longrightarrow>
     is_QueryPanic err \<Longrightarrow> collect_step E s (s\<lparr>csCrashed := True\<rparr>)"
| model_taken:
    "\<not> csCrashed s \<Longrightarrow> csModels s = add_mset (q, v) M \<Longrightarrow>
     collect_step E s (s\<lparr>csModels := M, csWork := add_mset (model_work q v) (csWork s),
                         csErrors := csErrors s @ model_errors v\<rparr>)"
| sample_recorded:
    "\<not> csCrashed s \<Longrightarrow> csWork s = add_mset (x # xs) W \<Longrightarrow> process_pair E x = Recorded r \<Longrightarrow>
     collect_step E s (s\<lparr>csWork := add_mset xs W, csResults := add_record E r (csResults s)\<rparr>)"
| sample_reported:
    "\<not> csCrashed s \<Longrightarrow> csWork s = add_mset (x # xs) W \<Longrightarrow> process_pair E x = Reported err \<Longrightarrow>
     collect_step E s (s\<lparr>csWork := add_mset xs W, csErrors := csErrors s @ [err]\<rparr>)"
| sample_crashed:
    "\<not> csCrashed s \<Longrightarrow> csWork s = add_mset (x # xs) W \<Longrightarrow> process_pair E x = Crashed m \<Longrightarrow>
     collect_step E s (s\<lparr>csCrashed := True\<rparr>)"
| model_done:
    "\<not> csCrashed s \<Longrightarrow> csWork s = add_mset [] W \<Longrightarrow> collect_step E s (s\<lparr>csWork := W\<rparr>)"
| producer_error:
    "\<not> csCrashed s \<Longrightarrow> csProducer s = add_mset err P \<Longrightarrow>
     collect_step E s (s\<lparr>csProducer := P, csErrors := csErrors s @ [err]\<rparr>)"

inductive_cases collect_stepE: "collect_step E s s'"

abbreviation collect_steps :: "'e collect_env_scheme \<Rightarrow> collect_state \<Rightarrow> collect_state \<Rightarrow> bool" where
  "collect_steps E \<equiv> (collect_step E)\<^sup>*\<^sup>*"

definition finished :: "collect_state \<Rightarrow> bool" where
  "finished s \<longleftrightarrow> csQueries s = {#} \<and> csModels s = {#} \<and> csWork s = {#} \<and> csProducer s = {#}"

text \<open>A panic of the producer is one of the process.\<close>

definition collect_init :: "meterDefPromQuery list result \<Rightarrow> collect_state" where
  "collect_init produced =
     \<lparr>csQueries = (case produced of Inl _ \<Rightarrow> {#} | Inr qs \<Rightarrow> mset qs), csModels = {#}, csWork = {#},
      csProducer = (case produced of Inl err \<Rightarrow> {#ChanError (error_string err) (error_string err)#} | Inr _ \<Rightarrow> {#}),
      csResults = Map.empty, csErrors = [],
      csCrashed = (case produced of Inl (Panic m) \<Rightarrow> True | _ \<Rightarrow> False)\<rparr>"

text \<open>The goroutine that reads the error channel: warnings are not remembered, so that they are not deduplicated.\<close>

fun collect_errors :: "chan_error list \<Rightarrow> string set \<Rightarrow> chan_error list \<times> chan_error list" where
  "collect_errors [] occurred = ([], [])"
| "collect_errors (err # errs) occurred =
     (if chCause err \<in> {WarningDuplicateData, WarningPrintTemplate}
      then (let (es, ws) = collect_errors errs occurred in (es, if chText err \<notin> occurred then err # ws else ws))
      else if chText err \<notin> occurred
      then (let (es, ws) = collect_errors errs (insert (chText err) occurred) in (err # es, ws))
      else collect_errors errs occurred)"

text \<open>A collection: the results with the lists of errors and warnings of a complete run.\<close>

definition CollectMetrics ::
  "'e collect_env_scheme \<Rightarrow> (query_set \<Rightarrow> (string \<times> string) list) \<Rightarrow> MeterDefinitionReference list \<Rightarrow>
     results \<Rightarrow> chan_error list \<Rightarrow> chan_error list \<Rightarrow> bool" where
  "CollectMetrics E order refs results errorList warningsList \<longleftrightarrow>
     (\<exists>s. collect_steps E (collect_init (ProduceMeterDefinitions E order refs)) s \<and> finished s \<and> \<not> csCrashed s \<and>
          results = csResults s \<and> (errorList, warningsList) = collect_errors (csErrors s) {})"

section \<open>Every sample is recorded once\<close>

definition sample_records :: "'e collect_env_scheme \<Rightarrow> sample \<Rightarrow> MeterDefPrometheusLabelsTemplated multiset" where
  "sample_records E x = (case process_pair E x of Recorded r \<Rightarrow> {#r#} | _ \<Rightarrow> {#})"

definition work_records :: "'e collect_env_scheme \<Rightarrow> sample list \<Rightarrow> MeterDefPrometheusLabelsTemplated multiset" where
  "work_records E xs = sum_list (map (sample_records E) xs)"

definition model_records ::
  "'e collect_env_scheme \<Rightarrow> meterDefPromQuery \<times> model_value \<Rightarrow> MeterDefPrometheusLabelsTemplated multiset" where
  "model_records E m = work_records E (model_work (fst m) (snd m))"

definition query_records :: "'e collect_env_scheme \<Rightarrow> meterDefPromQuery \<Rightarrow> MeterDefPrometheusLabelsTemplated multiset" where
  "query_records E q = (case query_one E q of Inl _ \<Rightarrow> {#} | Inr v \<Rightarrow> model_records E (q, v))"

text \<open>The records the builders of a map hold.\<close>

definition held :: "results \<Rightarrow> MeterDefPrometheusLabelsTemplated multiset" where
  "held R = (\<Sum>k \<in> dom R. mset (bdValues (the (R k))))"

lemma held_empty [simp]: "held Map.empty = {#}"
  by (simp add: held_def)

lemma held_add_record:
  assumes "finite (dom R)"
  shows "held (add_record E r R) = add_mset r (held R)"
proof -
  let ?k = "Hash E r" and ?R = "add_record E r R"
  have d: "dom ?R = insert ?k (dom R)" by (auto simp: add_record_def Let_def)
  have same: "\<And>k. k \<in> dom R - {?k} \<Longrightarrow> ?R k = R k" by (simp add: add_record_def Let_def)
  have new: "mset (bdValues (the (?R ?k))) =
      add_mset r (case R ?k of None \<Rightarrow> {#} | Some b \<Rightarrow> mset (bdValues b))"
    by (cases "R ?k") (simp_all add: add_record_def Let_def AddMeterDefinitionLabels_def new_builder_def
        SetReportInterval_def SetAccountID_def SetClusterID_def builder_New_def)
  have "held ?R = mset (bdValues (the (?R ?k))) + (\<Sum>k \<in> dom R - {?k}. mset (bdValues (the (R k))))"
    unfolding held_def d using assms same by (simp add: sum.insert_remove)
  moreover have "held R = (case R ?k of None \<Rightarrow> {#} | Some b \<Rightarrow> mset (bdValues b)) +
      (\<Sum>k \<in> dom R - {?k}. mset (bdValues (the (R k))))"
  proof (cases "R ?k")
    case None
    then have "dom R - {?k} = dom R" by auto
    then show ?thesis using None by (simp add: held_def)
  next
    case (Some b)
    then have "?k \<in> dom R" by auto
    then show ?thesis using Some assms by (simp add: held_def sum.remove)
  qed
  ultimately show ?thesis unfolding new by simp
qed

text \<open>A map of results is grouped: every builder holds records, all of its own hash, for the configured account.\<close>

definition grouped :: "'e collect_env_scheme \<Rightarrow> results \<Rightarrow> bool" where
  "grouped E R \<longleftrightarrow> finite (dom R) \<and>
     (\<forall>k b. R k = Some b \<longrightarrow> bdValues b \<noteq> [] \<and> (\<forall>r \<in> set (bdValues b). Hash E r = k) \<and>
        bdClusterID b = mkClusterUUID (ceConfig E) \<and> bdAccountID b = mkRhmAccountID (ceConfig E))"

lemma grouped_empty [simp]: "grouped E Map.empty"
  by (simp add: grouped_def)

lemma grouped_add_record:
  assumes "grouped E R"
  shows "grouped E (add_record E r R)"
proof -
  have "finite (dom (add_record E r R))" using assms by (simp add: grouped_def add_record_def Let_def)
  moreover have "bdValues b \<noteq> [] \<and> (\<forall>x \<in> set (bdValues b). Hash E x = k) \<and>
      bdClusterID b = mkClusterUUID (ceConfig E) \<and> bdAccountID b = mkRhmAccountID (ceConfig E)"
    if "add_record E r R k = Some b" for k b
    using that assms by (cases "R (Hash E r)")
      (auto simp: grouped_def add_record_def Let_def AddMeterDefinitionLabels_def new_builder_def
        SetReportInterval_def SetAccountID_def SetClusterID_def builder_New_def split: if_splits)
  ultimately show ?thesis by (simp add: grouped_def)
qed

text \<open>The records a state has or will have.\<close>

definition pending_records :: "'e collect_env_scheme \<Rightarrow> collect_state \<Rightarrow> MeterDefPrometheusLabelsTemplated multiset" where
  "pending_records E s = (\<Sum>xs \<in># csWork s. work_records E xs) + (\<Sum>m \<in># csModels s. model_records E m) +
     (\<Sum>q \<in># csQueries s. query_records E q)"

lemma work_records_simps [simp]:
  "work_records E [] = {#}" "work_records E (x # xs) = sample_records E x + work_records E xs"
  by (simp_all add: work_records_def)

lemma collect_step_records:
  assumes "collect_step E s s'" "\<not> csCrashed s'" "grouped E (csResults s)"
  shows "held (csResults s') + pending_records E s' = held (csResults s) + pending_records E s"
  using assms
  by (cases rule: collect_step.cases)
    (auto simp: pending_records_def query_records_def model_records_def sample_records_def held_add_record grouped_def)

lemma collect_step_grouped: "collect_step E s s' \<Longrightarrow> grouped E (csResults s) \<Longrightarrow> grouped E (csResults s')"
  by (erule collect_step.cases) (auto simp: grouped_add_record)

lemma collect_step_crash: "collect_step E s s' \<Longrightarrow> \<not> csCrashed s"
  by (erule collect_step.cases) auto

lemma collect_steps_records:
  assumes "collect_steps E s s'" "grouped E (csResults s)"
  shows "grouped E (csResults s') \<and> (\<not> csCrashed s' \<longrightarrow>
    held (csResults s') + pending_records E s' = held (csResults s) + pending_records E s)"
  using assms
proof (induction rule: rtranclp_induct)
  case (step t u)
  then have "\<not> csCrashed t" by (auto dest: collect_step_crash)
  then show ?case using step collect_step_records [of E t u] collect_step_grouped [of E t u] by auto
qed simp

lemma pending_finished: "finished s \<Longrightarrow> pending_records E s = {#}"
  by (simp add: finished_def pending_records_def)

lemma CollectMetrics_held:
  assumes "ProduceMeterDefinitions E order refs = Inr qs" "CollectMetrics E order refs R errs warns"
  shows "grouped E R \<and> held R = (\<Sum>q \<in># mset qs. query_records E q)"
proof -
  obtain s where s: "collect_steps E (collect_init (Inr qs)) s" "finished s" "\<not> csCrashed s" "R = csResults s"
    using assms by (auto simp: CollectMetrics_def)
  have "grouped E (csResults (collect_init (Inr qs)))" by (simp add: collect_init_def)
  from collect_steps_records [OF s(1) this] s(2-4)
  show ?thesis by (simp add: pending_finished) (simp add: collect_init_def pending_records_def)
qed

text \<open>
  C2: A collection loses and duplicates nothing, whatever the interleaving of its workers: in the
  result every builder holds records of one hash, its key, and all builders together hold
  exactly one record for every sample that the queries answer with and that can be processed.
\<close>

theorem collection_lossless:
  assumes "ProduceMeterDefinitions E order refs = Inr qs" "CollectMetrics E order refs R errs warns"
  shows "grouped E R \<and> held R = (\<Sum>q \<in># mset qs. query_records E q)"
  using assms by (rule CollectMetrics_held)

section \<open>Collections end\<close>

text \<open>The steps a state has left.\<close>

definition model_rank :: "meterDefPromQuery \<times> model_value \<Rightarrow> nat" where
  "model_rank m = length (model_work (fst m) (snd m)) + 2"

definition query_rank :: "'e collect_env_scheme \<Rightarrow> meterDefPromQuery \<Rightarrow> nat" where
  "query_rank E q = (case query_one E q of Inl _ \<Rightarrow> 1 | Inr v \<Rightarrow> model_rank (q, v) + 1)"

definition collect_rank :: "'e collect_env_scheme \<Rightarrow> collect_state \<Rightarrow> nat" where
  "collect_rank E s = (\<Sum>xs \<in># csWork s. length xs + 1) + (\<Sum>m \<in># csModels s. model_rank m) +
     (\<Sum>q \<in># csQueries s. query_rank E q) + size (csProducer s) + (if csCrashed s then 0 else 1)"

lemma collect_step_rank: "collect_step E s s' \<Longrightarrow> collect_rank E s' < collect_rank E s"
  by (erule collect_step.cases) (auto simp: collect_rank_def query_rank_def model_rank_def)

lemma collect_progress:
  assumes "\<not> finished s" "\<not> csCrashed s"
  shows "\<exists>s'. collect_step E s s'"
proof -
  consider (q) q Q where "csQueries s = add_mset q Q" | (m) q v M where "csModels s = add_mset (q, v) M"
    | (w) xs W where "csWork s = add_mset xs W" | (p) err P where "csProducer s = add_mset err P"
    using assms(1) unfolding finished_def by (metis multiset_cases surj_pair)
  then show ?thesis
  proof cases
    case q
    then show ?thesis using query_answered [OF assms(2) q] query_failed [OF assms(2) q] query_crashed [OF assms(2) q]
      by (cases "query_one E q") blast+
  next
    case m
    then show ?thesis using model_taken [OF assms(2) m] by blast
  next
    case w
    show ?thesis
    proof (cases xs)
      case Nil
      then show ?thesis using w model_done [OF assms(2)] by blast
    next
      case (Cons x ys)
      then have "csWork s = add_mset (x # ys) W" using w by simp
      from sample_recorded [OF assms(2) this] sample_reported [OF assms(2) this] sample_crashed [OF assms(2) this]
      show ?thesis by (cases "process_pair E x") blast+
    qed
  next
    case p
    then show ?thesis using producer_error [OF assms(2) p] by blast
  qed
qed

text \<open>
  Every collection ends: no run of the workers is infinite, whatever the interleaving, and a run can
  go on as long as there is work, so that it ends with everything processed unless the process crashes.
\<close>

theorem collection_terminates:
  "wfP (\<lambda>s' s. collect_step E s s') \<and>
   (\<forall>s. (\<nexists>s'. collect_step E s s') \<longleftrightarrow> finished s \<or> csCrashed s)"
proof
  show "wfP (\<lambda>s' s. collect_step E s s')"
    by (rule wfp_if_convertible_to_nat [of _ "collect_rank E"]) (rule collect_step_rank)
  have "\<not> collect_step E s s'" if "finished s \<or> csCrashed s" for s s'
    using that by (auto simp: finished_def elim: collect_step.cases)
  then show "\<forall>s. (\<nexists>s'. collect_step E s s') \<longleftrightarrow> finished s \<or> csCrashed s"
    using collect_progress by blast
qed

section \<open>Collections do not crash\<close>

lemma ChunkBy_loop_pairs:
  "ChunkBy_loop (concat (map (\<lambda>k. [a k, b k]) ks)) 2 (length ks) = map (\<lambda>k. [a k, b k]) ks"
  by (induction ks) auto

lemma kv_loop_pairs:
  "kv_loop (map (\<lambda>k. [AStr k, AStr (the (m k))]) ks) acc =
     Inr (\<lambda>k. if k \<in> set ks then Some (AStr (the (m k))) else acc k)"
  by (induction ks arbitrary: acc) (auto simp: fun_eq_iff)

lemma kvToMap_metric:
  assumes "set order = dom m"
  shows "kvToMap (getAllKeysFromMetric m order) = Inr (\<lambda>k. map_option AStr (m k))"
proof -
  have l: "length (getAllKeysFromMetric m order) = 2 * length order"
    by (induction order) (auto simp: getAllKeysFromMetric_def)
  have "ChunkBy (getAllKeysFromMetric m order) 2 = Inr (map (\<lambda>k. [AStr k, AStr (the (m k))]) order)"
  proof (cases "order = []")
    case False
    then show ?thesis using l ChunkBy_loop_pairs [of AStr "\<lambda>k. AStr (the (m k))" order]
      by (simp add: ChunkBy_def getAllKeysFromMetric_def)
  qed (simp add: ChunkBy_def getAllKeysFromMetric_def)
  moreover have "(\<lambda>k. if k \<in> set order then Some (AStr (the (m k))) else None) = (\<lambda>k. map_option AStr (m k))"
    using assms by (auto simp: fun_eq_iff dom_def split: option.splits)
  ultimately show ?thesis using l by (simp add: kvToMap_def kv_loop_pairs)
qed

text \<open>
  What the collection relies on: ranges visit the keys of a map, the series of an answer
  have finitely many labels, and the template engine and the duration parser report errors
  instead of panicking.
\<close>

definition orders_ok :: "'e collect_env_scheme \<Rightarrow> bool" where
  "orders_ok E \<longleftrightarrow> label_order_ok E \<and> (\<forall>m. finite (dom m) \<longrightarrow> set (ceMetricOrder E m) = dom m)"

definition answers_finite :: "'e collect_env_scheme \<Rightarrow> bool" where
  "answers_finite E \<longleftrightarrow>
     (\<forall>n txt a b c ms. peQueryRange E n txt a b c = Inr (ValMatrix ms) \<longrightarrow> (\<forall>m \<in> set ms. finite (dom (ssMetric m))))"

definition no_panic :: "'a result \<Rightarrow> bool" where
  "no_panic r \<longleftrightarrow> (\<forall>m. r \<noteq> Inl (Panic m))"

definition engine_ok :: "'e collect_env_scheme \<Rightarrow> bool" where
  "engine_ok E \<longleftrightarrow> (\<forall>t m. teParse E t \<noteq> Some (Panic m)) \<and> (\<forall>t l. no_panic (teExecute E t l))"

lemma no_panic_simps [simp]: "no_panic (Inr x)" "no_panic (Inl (Err m))" "no_panic (Inl (Panic m)) \<longleftrightarrow> False"
  by (simp_all add: no_panic_def)

lemma no_panic_Inl: "no_panic (Inl e) \<longleftrightarrow> (\<forall>m. e \<noteq> Panic m)"
  by (simp add: no_panic_def)

lemma no_panic_wrap: "no_panic (Inl (wrap msg e)) \<longleftrightarrow> (\<forall>m. e \<noteq> Panic m)"
  by (cases e) simp_all

lemma NewTemplate_no_panic: "engine_ok E \<Longrightarrow> no_panic (NewTemplate E m)"
proof -
  assume e: "engine_ok E"
  have "no_panic (NewTemplate_loop E m fs acc)" for fs acc
  proof (induction fs arbitrary: acc)
    case (Cons f fs)
    show ?case
    proof (cases "teParse E (get_field f m)")
      case (Some err)
      then have "\<forall>m. err \<noteq> Panic m" using e by (auto simp: engine_ok_def)
      then show ?thesis using Some by (simp add: no_panic_wrap)
    qed (simp add: Cons.IH)
  qed simp
  then show ?thesis by (simp add: NewTemplate_def)
qed

lemma templater_Execute_no_panic: "engine_ok E \<Longrightarrow> no_panic (templater_Execute E tpl values order m)"
proof (induction order arbitrary: m)
  case (Cons f order)
  show ?case
  proof (cases "tpl f")
    case (Some t)
    have "\<forall>m. teExecute E t values \<noteq> Inl (Panic m)" using Cons.prems by (simp add: engine_ok_def no_panic_def)
    then show ?thesis using Some Cons by (cases "teExecute E t values") (auto simp: no_panic_wrap)
  qed (simp add: Cons)
qed simp

lemma string_label_no_panic:
  "(\<And>k v. values k = Some v \<Longrightarrow> \<exists>t. v = AStr t) \<Longrightarrow> no_panic (string_label values key old)"
  by (cases "values key") (force simp: string_label_def)+

lemma record_interval_no_panic: "plMetricPeriod r \<noteq> None \<Longrightarrow> no_panic (record_interval E m r t)"
  by (auto simp: record_interval_def override_start_def split: option.splits)

lemma PrintTemplate_no_panic:
  assumes "engine_ok E" "plMetricPeriod m \<noteq> None" "\<And>k v. values k = Some v \<Longrightarrow> \<exists>t. v = AStr t"
  shows "no_panic (PrintTemplate E order m values pair)"
proof -
  have n: "no_panic (NewTemplate E m)" and x: "\<And>tpl. no_panic (templater_Execute E tpl values order m)"
    using assms(1) NewTemplate_no_panic templater_Execute_no_panic by blast+
  have sl: "no_panic (string_label values key old)" for key old using assms(3) by (rule string_label_no_panic)
  have ri: "no_panic (record_interval E m r t)" if "plMetricPeriod r \<noteq> None" for r t
    using that by (rule record_interval_no_panic)
  have tr: "no_panic (templated_record E m r0 values pair)" if p: "plMetricPeriod r0 \<noteq> None" for r0
  proof -
    have res: "no_panic (case resource_key (plWorkloadType m) of None \<Rightarrow> Inr (plResourceName r0)
        | Some key \<Rightarrow> string_label values key (plResourceName r0))" (is "no_panic ?N")
      using sl by (cases "resource_key (plWorkloadType m)") auto
    show ?thesis
    proof (cases "string_label values ''namespace'' (plResourceNamespace r0)")
      case (Inl err)
      then show ?thesis using sl [of "''namespace''" "plResourceNamespace r0"]
        by (simp add: templated_record_def no_panic_Inl)
    next
      case (Inr ns)
      show ?thesis
      proof (cases ?N)
        case (Inl err)
        then show ?thesis using Inr res by (simp add: templated_record_def no_panic_Inl)
      next
        case N: (Inr name)
        let ?r = "r0\<lparr>plResourceNamespace := ns, plResourceName := name,
            plLabel := (if plLabel r0 = [] then plMetric r0 else plLabel r0)\<rparr>"
        have "no_panic (record_interval E m ?r (spTimestamp pair))" using p by (intro ri) simp
        then show ?thesis
          using Inr N by (cases "record_interval E m ?r (spTimestamp pair)")
            (auto simp: templated_record_def Let_def no_panic_Inl)
      qed
    qed
  qed
  show ?thesis
  proof (cases "NewTemplate E m")
    case (Inl err)
    then show ?thesis using n by (simp add: PrintTemplate_def no_panic_Inl)
  next
    case tpl: (Inr tpl)
    show ?thesis
    proof (cases "templater_Execute E tpl values order m")
      case (Inl err)
      then show ?thesis using tpl x [of tpl] by (simp add: PrintTemplate_def no_panic_Inl)
    next
      case (Inr r0)
      then have "plMetricPeriod r0 \<noteq> None" using assms(2) by (simp add: templater_Execute_fold)
      then show ?thesis using tpl Inr tr by (simp add: PrintTemplate_def)
    qed
  qed
qed

lemma swc_loop_no_panic:
  "(\<forall>k \<in> set ks. \<exists>t. kv k = Some (AStr t)) \<Longrightarrow> \<exists>m. swc_loop kv ks acc = Inr m"
proof (induction ks arbitrary: acc)
  case (Cons k ks)
  then obtain t where "kv k = Some (AStr t)" by auto
  then show ?case using Cons by auto
qed simp

lemma namespace_loop_no_panic:
  assumes "orders_ok E" "\<forall>m \<in> set ms. finite (dom (ssMetric m))"
  shows "\<exists>r. namespace_loop E ms acc = Inr r"
  using assms(2)
proof (induction ms arbitrary: acc)
  case (Cons m ms)
  let ?kv = "\<lambda>k. map_option AStr (ssMetric m k)"
  have fin: "finite (dom ?kv)" "dom ?kv = dom (ssMetric m)" using Cons.prems by (auto simp: dom_def)
  have kv: "kvToMap (getAllKeysFromMetric (ssMetric m) (ceMetricOrder E (ssMetric m))) = Inr ?kv"
    using assms(1) Cons.prems by (intro kvToMap_metric) (auto simp: orders_ok_def)
  have "set (beLabelOrder E ?kv) = dom ?kv" using assms(1) fin by (simp add: orders_ok_def label_order_ok_def)
  then have "\<exists>sw. swc_loop ?kv (beLabelOrder E ?kv) Map.empty = Inr sw"
    by (intro swc_loop_no_panic) (auto simp: dom_def)
  then obtain sw where sw: "swc_loop ?kv (beLabelOrder E ?kv) Map.empty = Inr sw" ..
  show ?case
    using Cons kv sw by (cases "ssMetric m ''namespace''") auto
qed simp

lemma Retry_loop_outcome:
  "snd (Retry_loop f n i err s) = r \<Longrightarrow> r = Inl err \<or> (\<exists>j t. snd (f j t) = r)"
proof (induction n arbitrary: i err s)
  case (Suc n)
  obtain s' o' where f: "f i s = (s', o')" by fastforce
  show ?case
  proof (cases o')
    case (Inl e)
    then have "snd (Retry_loop f n (Suc i) e s') = r" using Suc.prems f by simp
    then show ?thesis using Suc.IH f Inl by (metis snd_conv)
  next
    case (Inr v)
    then show ?thesis using Suc.prems f by (auto intro!: exI [of _ i] exI [of _ s])
  qed
qed simp

lemma Retry_outcome: "\<exists>j t. snd (Retry f n s) = snd (f j t)"
proof -
  obtain s' o' where f: "f 0 s = (s', o')" by fastforce
  show ?thesis
  proof (cases o')
    case (Inl e)
    then have "snd (Retry f n s) = snd (Retry_loop f (nat n) 1 e s')" using f by (simp add: Retry_def)
    then have "snd (Retry f n s) = Inl e \<or> (\<exists>j t. snd (f j t) = snd (Retry f n s))"
      using Retry_loop_outcome by metis
    then show ?thesis using f Inl by (metis snd_conv)
  next
    case (Inr v)
    then show ?thesis using f by (auto simp: Retry_def intro!: exI [of _ 0] exI [of _ s])
  qed
qed

lemma answer_Inr [simp]: "answer r = Inr v \<longleftrightarrow> r = Inr v"
  by (cases r) (auto simp: answer_def)

lemma answer_not_panic: "answer r \<noteq> Inl (QueryPanic e)"
  by (cases r) (auto simp: answer_def toError_def split: prom_error.splits)

lemma query_one_finite:
  assumes "answers_finite E" "query_one E q = Inr (ValMatrix ms)" "m \<in> set ms"
  shows "finite (dom (ssMetric m))"
proof -
  obtain j t where "snd (ReportQuery E j t) = Inr (ValMatrix ms)"
    using Retry_outcome [of "\<lambda>i. ReportQuery E i" "ceRetry E" "mqQuery q"] assms(2) by (auto simp: query_one_def)
  then show ?thesis
    using assms(1,3) by (auto simp: ReportQuery_def answers_finite_def split: sum.splits prod.splits)
qed

lemma getNamespaceLabels_no_panic:
  assumes "orders_ok E" "answers_finite E"
  shows "no_panic (getNamespaceLabels E tag ns)"
proof -
  let ?f = "\<lambda>i s. (s, QueryNamespaceLabels E (tag + i) ns (ceStartTime E) (ceEndTime E - 1) hour)"
  obtain j where j: "snd (Retry ?f (ceRetry E) ()) = QueryNamespaceLabels E (tag + j) ns (ceStartTime E) (ceEndTime E - 1) hour"
    using Retry_outcome [of ?f "ceRetry E" "()"] by auto
  show ?thesis
  proof (cases "snd (Retry ?f (ceRetry E) ())")
    case (Inl err)
    then have "answer (peQueryRange E (tag + j) (namespaceLabelsQueryText ns) (ceStartTime E) (ceEndTime E - 1) hour) = Inl err"
      using j by (simp add: QueryNamespaceLabels_def)
    then have "\<forall>e. err \<noteq> QueryPanic e" using answer_not_panic by metis
    then have "\<forall>m. query_error_text err \<noteq> Panic m" by (cases err) (auto simp: query_error_text_def)
    then show ?thesis using Inl by (simp add: getNamespaceLabels_def no_panic_Inl)
  next
    case (Inr v)
    have "\<exists>r. namespace_loop E ms Map.empty = Inr r" if "v = ValMatrix ms" for ms
      using j Inr that assms by (intro namespace_loop_no_panic) (auto simp: QueryNamespaceLabels_def answers_finite_def)
    then show ?thesis using Inr by (cases v) (auto simp: getNamespaceLabels_def unprocessable_def)
  qed
qed

text \<open>The queries and samples a collection works on.\<close>

definition query_ok :: "meterDefPromQuery \<Rightarrow> bool" where
  "query_ok q \<longleftrightarrow> plMetricPeriod (mqMeterDefLabel q) \<noteq> None \<and> supported (pqType (mqQuery q))"

definition sample_ok :: "sample \<Rightarrow> bool" where
  "sample_ok x \<longleftrightarrow> query_ok (saQuery x) \<and> finite (dom (saMetric x))"

lemma chan_wrap_Crashed: "chan_wrap msg err = Crashed m \<longleftrightarrow> err = Panic m"
  by (cases err) (auto simp: chan_wrap_def)

lemma process_pair_no_crash:
  assumes "orders_ok E" "answers_finite E" "engine_ok E" "sample_ok x"
  shows "process_pair E x \<noteq> Crashed m"
proof -
  obtain name namespace where md: "pqMeterDef (mqQuery (saQuery x)) = (name, namespace)" by fastforce
  have kv: "kvToMap (getAllKeysFromMetric (saMetric x) (ceMetricOrder E (saMetric x))) = Inr (\<lambda>k. map_option AStr (saMetric x k))"
    using assms(1,4) by (intro kvToMap_metric) (auto simp: orders_ok_def sample_ok_def)
  define kvMap where "kvMap = (if name \<noteq> [] \<and> namespace \<noteq> []
    then (\<lambda>k. map_option AStr (saMetric x k))(''meter_def_name'' \<mapsto> AStr name, ''meter_def_namespace'' \<mapsto> AStr namespace)
    else (\<lambda>k. map_option AStr (saMetric x k)))"
  have "no_panic (PrintTemplate E (ceFieldOrder E x) (mqMeterDefLabel (saQuery x)) kvMap (saPair x))"
    using assms(3,4) by (intro PrintTemplate_no_panic) (auto simp: sample_ok_def query_ok_def kvMap_def split: if_splits)
  moreover have "add_namespaces E x r \<noteq> Crashed m" for r
    using getNamespaceLabels_no_panic [OF assms(1,2), of "ceTag E x"]
    by (auto simp: add_namespaces_def Let_def chan_wrap_Crashed no_panic_def split: sum.splits)
  ultimately show ?thesis
    unfolding process_pair_def md kv
    by (simp add: kvMap_def [symmetric] Let_def no_panic_def split: sum.splits go_error.splits)
qed

lemma labels_Defaults_period: "plMetricPeriod (labels_Defaults m) \<noteq> None"
  by (simp add: labels_Defaults_def Let_def)

lemma FromLabels_period: "FromLabels E l = Inr m \<Longrightarrow> plMetricPeriod m \<noteq> None"
  unfolding FromLabels_def using labels_Defaults_period by (fastforce split: sum.splits)

lemma buildPromQuery_ok: "buildPromQuery E l a b = Inr q \<Longrightarrow> query_ok q"
  using FromLabels_period [of E l] NewPromQuery_Inr
  by (fastforce simp: buildPromQuery_def NewPromQueryFromLabels_def query_ok_def split: sum.splits)

definition set_ok :: "query_set \<Rightarrow> bool" where
  "set_ok Q \<longleftrightarrow> (\<forall>k qs. Q k = Some qs \<longrightarrow> list_all query_ok qs)"

lemma set_ok_update: "set_ok Q \<Longrightarrow> list_all query_ok qs \<Longrightarrow> set_ok (Q(k \<mapsto> qs))"
  by (simp add: set_ok_def)

lemma set_ok_add_query: "set_ok Q \<Longrightarrow> query_ok q \<Longrightarrow> set_ok (add_query q Q)"
  using set_ok_def [THEN iffD1, rule_format, of Q "pqMeterDef (mqQuery q)"]
  by (cases "Q (pqMeterDef (mqQuery q))") (auto simp: add_query_def intro!: set_ok_update)

lemma transform_loop_ok: "transform_loop E a b ls = Inr qs \<Longrightarrow> list_all query_ok qs"
  by (induction ls arbitrary: qs) (auto simp: buildPromQuery_ok split: sum.splits)

lemma transform_ok: "transformMeterDefinitionReference E ref a b = Inr qs \<Longrightarrow> list_all query_ok qs"
  by (auto simp: transformMeterDefinitionReference_def transform_loop_ok split: sum.splits)

lemma reference_set_ok: "reference_set E a b refs Q = Inr Q' \<Longrightarrow> set_ok Q \<Longrightarrow> set_ok Q'"
proof (induction refs arbitrary: Q)
  case (Cons ref refs)
  then obtain qs where t: "transformMeterDefinitionReference E ref a b = Inr qs"
    by (cases "transformMeterDefinitionReference E ref a b") auto
  show ?case
    using Cons.prems t transform_ok [OF t]
    by (cases "Q (refName ref, refNamespace ref)") (auto intro: Cons.IH set_ok_update)
qed simp

lemma getQueries_loop_ok: "getQueries_loop E ms R errs = Inr (R', errs') \<Longrightarrow> set_ok R \<Longrightarrow> set_ok R'"
proof (induction ms arbitrary: R errs)
  case (Cons m ms)
  obtain a b where ts: "time_span (ssValues m) = (a, b)" by fastforce
  have add: "set_ok (add_query q R)" if "query_ok q" for q
    using that Cons.prems(2) by (intro set_ok_add_query)
  show ?case
  proof (cases "buildPromQuery E (ssMetric m) a b")
    case (Inl err)
    then show ?thesis using Cons ts by (cases err) (auto split: if_splits)
  next
    case (Inr q)
    then show ?thesis using Cons ts add [OF buildPromQuery_ok [OF Inr]] by (auto split: if_splits)
  qed
qed simp

lemma getMeterDefinitions_ok: "getMeterDefinitions E = Inr Q \<Longrightarrow> set_ok Q"
  by (auto simp: getMeterDefinitions_def getQueries_def set_ok_def split: sum.splits model_value.splits if_splits
      dest!: getQueries_loop_ok [unfolded set_ok_def])

lemma ProduceMeterDefinitions_ok:
  assumes "ProduceMeterDefinitions E order refs = Inr qs" "\<And>Q. set (order Q) \<subseteq> dom Q"
  shows "list_all query_ok qs"
proof -
  obtain Q S where Q: "reference_set E (ceStartTime E) (ceEndTime E - 1000) refs Map.empty = Inr Q"
    and S: "getMeterDefinitions E = Inr S"
    and qs: "qs = concat (map (\<lambda>key. the (add_saved Q S key)) (order (add_saved Q S)))"
    using assms(1) by (auto simp: ProduceMeterDefinitions_def Let_def split: sum.splits)
  have "set_ok (add_saved Q S)"
    using reference_set_ok [OF Q] getMeterDefinitions_ok [OF S]
    by (auto simp: set_ok_def add_saved_def map_add_def split: option.splits)
  then show ?thesis using assms(2) [of "add_saved Q S"] unfolding qs
    by (force simp: list_all_iff set_ok_def)
qed

text \<open>What every state of a collection keeps.\<close>

definition collect_inv :: "collect_state \<Rightarrow> bool" where
  "collect_inv s \<longleftrightarrow> \<not> csCrashed s \<and> (\<forall>q \<in># csQueries s. query_ok q) \<and>
     (\<forall>xs \<in># csWork s. \<forall>x \<in> set xs. sample_ok x) \<and>
     (\<forall>(q, v) \<in># csModels s. \<forall>x \<in> set (model_work q v). sample_ok x)"

lemma model_work_ok:
  assumes "answers_finite E" "query_ok q" "query_one E q = Inr v" "x \<in> set (model_work q v)"
  shows "sample_ok x"
proof -
  obtain ms where "v = ValMatrix ms" using assms(4) by (cases v) auto
  then show ?thesis using assms query_one_finite [OF assms(1)]
    by (auto simp: samples_of_def sample_ok_def)
qed

text \<open>A query of a supported type can be printed, by every attempt.\<close>

lemma ReportQuery_no_panic:
  assumes "supported (pqType q)"
  shows "supported (pqType (fst (ReportQuery E n q)))" "snd (ReportQuery E n q) \<noteq> Inl (QueryPanic e)"
proof -
  obtain nm fs where nm: "meter_name (pqType q) = Some (nm, fs)"
    using assms by (cases "meter_name (pqType q)") (auto simp: supported_def meter_name_def split: if_splits)
  then obtain q' a where g: "GetQueryArgs q = Inr (q', a)" "pqType q' = pqType q"
    by (simp add: GetQueryArgs_def Let_def)
  then show "supported (pqType (fst (ReportQuery E n q)))" "snd (ReportQuery E n q) \<noteq> Inl (QueryPanic e)"
    using assms answer_not_panic by (simp_all add: ReportQuery_def query_Print_def)
qed

lemma Retry_loop_no_panic:
  "supported (pqType q) \<Longrightarrow> (\<forall>e. err \<noteq> QueryPanic e) \<Longrightarrow>
     snd (Retry_loop (\<lambda>i. ReportQuery E i) n i err q) \<noteq> Inl (QueryPanic e)"
proof (induction n arbitrary: i err q)
  case (Suc n)
  obtain q' r where r: "ReportQuery E i q = (q', r)" by fastforce
  note np = ReportQuery_no_panic [OF Suc.prems(1), of E i, unfolded r]
  show ?case using Suc.IH [of q'] np r by (cases r) auto
qed simp

lemma query_one_no_panic:
  assumes "query_ok q"
  shows "query_one E q \<noteq> Inl (QueryPanic e)"
proof -
  obtain q' r where r: "ReportQuery E 0 (mqQuery q) = (q', r)" by fastforce
  have "supported (pqType (mqQuery q))" using assms by (simp add: query_ok_def)
  note np = ReportQuery_no_panic [OF this, of E 0, unfolded r]
  show ?thesis
  proof (cases r)
    case (Inl err)
    then have "snd (Retry_loop (\<lambda>i. ReportQuery E i) (nat (ceRetry E)) 1 err q') \<noteq> Inl (QueryPanic e)"
      using np by (intro Retry_loop_no_panic) auto
    then show ?thesis using r Inl by (simp add: query_one_def Retry_def)
  qed (use r in \<open>simp add: query_one_def Retry_def\<close>)
qed

lemma collect_step_inv:
  assumes "orders_ok E" "answers_finite E" "engine_ok E" "collect_step E s s'" "collect_inv s"
  shows "collect_inv s'"
  using assms(4)
proof (cases rule: collect_step.cases)
  case (query_answered q Q v)
  then have "query_ok q" using assms(5) by (auto simp: collect_inv_def)
  then show ?thesis using query_answered assms(5) model_work_ok [OF assms(2) _ query_answered(4)]
    by (auto simp: collect_inv_def)
next
  case (query_crashed q Q err)
  then have "query_ok q" using assms(5) by (auto simp: collect_inv_def)
  then show ?thesis using query_crashed query_one_no_panic by (cases err) auto
next
  case (sample_crashed x xs W m)
  then have "sample_ok x" using assms(5) by (auto simp: collect_inv_def)
  then show ?thesis using process_pair_no_crash [OF assms(1-3)] sample_crashed by blast
qed (use assms(5) in \<open>auto simp: collect_inv_def\<close>)

lemma never_crashed:
  assumes "orders_ok E" "answers_finite E" "engine_ok E" "list_all query_ok qs" "collect_steps E (collect_init (Inr qs)) s"
  shows "\<not> csCrashed s"
proof -
  have "collect_inv (collect_init (Inr qs))"
    using assms(4) by (auto simp: collect_inv_def collect_init_def list_all_iff)
  with assms(5) have "collect_inv s"
    by (induction rule: rtranclp_induct) (auto intro: collect_step_inv [OF assms(1-3)])
  then show ?thesis by (simp add: collect_inv_def)
qed

text \<open>
  A collection does not crash, although its workers convert label values without checks: with
  complete ranges, finitely many labels per series and a template engine that reports its
  errors, no reachable state of the workers has crashed. Hence every complete run of a
  collection delivers results.
\<close>

theorem collection_never_crashes:
  assumes "orders_ok E" "answers_finite E" "engine_ok E" "\<And>Q. set (order Q) \<subseteq> dom Q"
    and "ProduceMeterDefinitions E order refs = Inr qs"
    and "collect_steps E (collect_init (Inr qs)) s"
  shows "\<not> csCrashed s"
  using never_crashed [OF assms(1-3) ProduceMeterDefinitions_ok [OF assms(5,4)] assms(6)] .

lemma complete_run:
  assumes "collect_steps E s0 s"
  shows "\<exists>t. collect_steps E s0 t \<and> (finished t \<or> csCrashed t)"
  using assms
proof (induction "collect_rank E s" arbitrary: s rule: less_induct)
  case less
  show ?case
  proof (cases "finished s \<or> csCrashed s")
    case False
    then obtain s' where s': "collect_step E s s'" using collect_progress by blast
    then have "collect_steps E s0 s'" using less.prems by simp
    then show ?thesis using less.hyps [OF collect_step_rank [OF s']] by blast
  qed (use less.prems in blast)
qed

lemma CollectMetrics_exists:
  assumes "\<And>s. collect_steps E (collect_init (ProduceMeterDefinitions E order refs)) s \<Longrightarrow> \<not> csCrashed s"
  shows "\<exists>R errs warns. CollectMetrics E order refs R errs warns"
proof -
  obtain t where t: "collect_steps E (collect_init (ProduceMeterDefinitions E order refs)) t" "finished t \<or> csCrashed t"
    using complete_run by blast
  then have "finished t" "\<not> csCrashed t" using assms by blast+
  moreover obtain errs warns where "(errs, warns) = collect_errors (csErrors t) {}" by (metis surj_pair)
  ultimately show ?thesis using t(1) unfolding CollectMetrics_def by blast
qed

section \<open>From samples to the report\<close>

lemma image_mset_sum_set: "(\<Sum>k \<in> A. image_mset f (g k)) = image_mset f (\<Sum>k \<in> A. g k)"
  by (induction A rule: infinite_finite_induct) auto

lemma mset_concat_values:
  assumes "distinct ks" "set ks = dom R"
  shows "mset (concat (map (\<lambda>k. map f (bdValues (the (R k)))) ks)) = image_mset f (held R)"
proof -
  have "mset (concat (map (\<lambda>k. map f (bdValues (the (R k)))) ks)) =
      (\<Sum>k \<in> set ks. image_mset f (mset (bdValues (the (R k)))))"
    using assms(1) by (induction ks) (auto simp: add.commute)
  also have "\<dots> = image_mset f (\<Sum>k \<in> set ks. mset (bdValues (the (R k))))" by (rule image_mset_sum_set)
  finally show ?thesis using assms(2) by (simp add: held_def)
qed

lemma events_entries:
  assumes "list_all2 (v3_event_of E) bs ds" "\<forall>b\<in>set bs. bdClusterID b = c"
  shows "list_all2 (v3_entry_of E c) (concat (map bdValues bs)) (concat (map d3MeasuredUsage ds))"
  using assms by (induction rule: list_all2_induct) (auto simp: v3_event_of_def intro: list_all2_appendI)

lemma written_covers_samples:
  assumes "ProduceMeterDefinitions E order refs = Inr qs" "CollectMetrics E order refs R errs warns"
    and "partition_ok W" "psize > 0" "distinct ks" "set ks = dom R"
    and "v3_WriteReport E W (ceConfig E) version source R ks out psize = (written, Inr (files, []))"
  shows "\<exists>slices contents index. list_all2 (\<lambda>s c. weMarshal W s = Inr c) slices contents \<and>
    map snd written = contents @ [index] \<and>
    rel_mset (v3_entry_of E (mkClusterUUID (ceConfig E))) (\<Sum>q \<in># mset qs. query_records E q)
      (mset (concat (map d3MeasuredUsage (concat (map slMetrics slices)))))"
proof -
  let ?bs = "map (\<lambda>k. the (R k)) ks"
  obtain slices contents index where s: "list_all2 (\<lambda>s c. weMarshal W s = Inr c) slices contents"
      "map snd written = contents @ [index]" "list_all2 (v3_event_of E) ?bs (concat (map slMetrics slices))"
    using v3.report_complete [OF assms(3,4) assms(7) [unfolded v3_WriteReport_def]] by blast
  note held = CollectMetrics_held [OF assms(1,2)]
  have "\<forall>b\<in>set ?bs. bdClusterID b = mkClusterUUID (ceConfig E)"
    using held assms(6) by (fastforce simp: grouped_def)
  note entries = events_entries [OF s(3) this]
  have "mset (concat (map bdValues ?bs)) = (\<Sum>q \<in># mset qs. query_records E q)"
    using mset_concat_values [OF assms(5,6), of id] held by (simp add: comp_def)
  with entries have "rel_mset (v3_entry_of E (mkClusterUUID (ceConfig E))) (\<Sum>q \<in># mset qs. query_records E q)
      (mset (concat (map d3MeasuredUsage (concat (map slMetrics slices)))))"
    unfolding rel_mset_def by blast
  with s(1,2) show ?thesis by blast
qed

text \<open>
  A v3alpha1 report covers the collection it is written from: when it is written without an
  error, the usage entries of its files match one to one the records of all samples that the
  queries were answered with and that could be processed, each entry with the fields of its
  record.
\<close>

theorem report_covers_samples:
  assumes "ProduceMeterDefinitions E order refs = Inr qs" "CollectMetrics E order refs R errs warns"
    and "partition_ok W" "psize > 0" "distinct ks" "set ks = dom R"
    and "v3_WriteReport E W (ceConfig E) version source R ks out psize = (written, Inr (files, []))"
  shows "\<exists>slices contents index. list_all2 (\<lambda>s c. weMarshal W s = Inr c) slices contents \<and>
    map snd written = contents @ [index] \<and>
    rel_mset (v3_entry_of E (mkClusterUUID (ceConfig E))) (\<Sum>q \<in># mset qs. query_records E q)
      (mset (concat (map d3MeasuredUsage (concat (map slMetrics slices)))))"
  using assms by (rule written_covers_samples)

section \<open>Namespace labels are those of the last series\<close>

text \<open>The Software Central labels of a series, without the prefix of the metric.\<close>

definition swc_labels :: "smap \<Rightarrow> smap" where
  "swc_labels m = (\<lambda>l. if starts_with swcLabelPrefix (labelPrefix @ l) then m (labelPrefix @ l) else None)"

lemma starts_with_iff: "starts_with p s \<longleftrightarrow> (\<exists>t. s = p @ t)"
  by (induction p s rule: starts_with.induct) auto

lemma swc_prefix: "starts_with swcLabelPrefix k \<Longrightarrow> k = labelPrefix @ TrimPrefix k labelPrefix"
  by (auto simp: starts_with_iff TrimPrefix_def swcLabelPrefix_def labelPrefix_def)

lemma TrimPrefix_label [simp]: "TrimPrefix (labelPrefix @ l) labelPrefix = l"
  by (simp add: TrimPrefix_def starts_with_iff)

lemma swc_loop_spec:
  assumes "\<forall>k \<in> set ks. k \<in> dom m"
  shows "swc_loop (\<lambda>k. map_option AStr (m k)) ks acc =
    Inr (\<lambda>l. if labelPrefix @ l \<in> set ks \<and> starts_with swcLabelPrefix (labelPrefix @ l) then m (labelPrefix @ l) else acc l)"
  using assms
proof (induction ks arbitrary: acc)
  case (Cons k ks)
  show ?case
  proof (cases "starts_with swcLabelPrefix k")
    case True
    then obtain l where k: "k = labelPrefix @ l" using swc_prefix by blast
    obtain v where "m k = Some v" using Cons.prems by auto
    then show ?thesis using True Cons by (auto simp: k fun_eq_iff)
  next
    case False
    then show ?thesis using Cons by (auto simp: fun_eq_iff)
  qed
qed (simp add: fun_eq_iff)

lemma namespace_loop_last:
  assumes "orders_ok E" "\<forall>m \<in> set ms. finite (dom (ssMetric m))"
  shows "\<exists>r. namespace_loop E ms acc = Inr r \<and>
    (\<forall>ns. r ns = (case find (\<lambda>m. ssMetric m ''namespace'' = Some ns) (rev ms) of
                   None \<Rightarrow> acc ns | Some m \<Rightarrow> Some (swc_labels (ssMetric m))))"
  using assms(2)
proof (induction ms arbitrary: acc)
  case (Cons m ms)
  let ?kv = "\<lambda>k. map_option AStr (ssMetric m k)"
  have fin: "finite (dom ?kv)" "dom ?kv = dom (ssMetric m)" using Cons.prems by (auto simp: dom_def)
  have kv: "kvToMap (getAllKeysFromMetric (ssMetric m) (ceMetricOrder E (ssMetric m))) = Inr ?kv"
    using assms(1) Cons.prems by (intro kvToMap_metric) (auto simp: orders_ok_def)
  have ord: "set (beLabelOrder E ?kv) = dom (ssMetric m)" using assms(1) fin by (simp add: orders_ok_def label_order_ok_def)
  have sw: "swc_loop ?kv (beLabelOrder E ?kv) Map.empty = Inr (swc_labels (ssMetric m))"
    by (subst swc_loop_spec) (auto simp: ord swc_labels_def fun_eq_iff domIff)
  have find_snoc: "find P (xs @ [x]) = (case find P xs of Some y \<Rightarrow> Some y | None \<Rightarrow> if P x then Some x else None)"
    for P and xs :: "SampleStream list" and x
    by (induction xs) auto
  show ?case
  proof (cases "ssMetric m ''namespace''")
    case None
    obtain r where r: "namespace_loop E ms acc = Inr r"
      "\<forall>ns. r ns = (case find (\<lambda>m. ssMetric m ''namespace'' = Some ns) (rev ms) of
          None \<Rightarrow> acc ns | Some m \<Rightarrow> Some (swc_labels (ssMetric m)))"
      using Cons.IH [of acc] Cons.prems by (metis list.set_intros(2))
    have "namespace_loop E (m # ms) acc = Inr r" using None kv r(1) by simp
    moreover have "find (\<lambda>m. ssMetric m ''namespace'' = Some ns) (rev (m # ms)) =
        find (\<lambda>m. ssMetric m ''namespace'' = Some ns) (rev ms)" for ns
      using None by (simp add: find_snoc split: option.splits)
    ultimately show ?thesis using r(2) by metis
  next
    case (Some n)
    obtain r where r: "namespace_loop E ms (acc(n \<mapsto> swc_labels (ssMetric m))) = Inr r"
      "\<forall>ns. r ns = (case find (\<lambda>m. ssMetric m ''namespace'' = Some ns) (rev ms) of
          None \<Rightarrow> (acc(n \<mapsto> swc_labels (ssMetric m))) ns | Some m \<Rightarrow> Some (swc_labels (ssMetric m)))"
      using Cons.IH [of "acc(n \<mapsto> swc_labels (ssMetric m))"] Cons.prems by (metis list.set_intros(2))
    have "namespace_loop E (m # ms) acc = Inr r" using Some kv sw r(1) by simp
    moreover have "r ns = (case find (\<lambda>m. ssMetric m ''namespace'' = Some ns) (rev (m # ms)) of
        None \<Rightarrow> acc ns | Some m \<Rightarrow> Some (swc_labels (ssMetric m)))" for ns
      using Some spec [OF r(2), of ns] by (auto simp: find_snoc split: option.splits if_splits)
    ultimately show ?thesis by blast
  qed
qed simp

text \<open>
  When Prometheus has several series for a namespace (its labels changed during the report),
  the labels reported for it are those of the last series alone; the labels of the earlier ones are
  not aggregated.
\<close>

theorem namespace_labels_last_series:
  assumes "orders_ok E" "\<forall>m \<in> set ms. finite (dom (ssMetric m))"
    and "snd (Retry (\<lambda>i s. (s, QueryNamespaceLabels E (tag + i) [ns] (ceStartTime E) (ceEndTime E - 1) hour))
           (ceRetry E) ()) = Inr (ValMatrix ms)"
  shows "\<exists>r. getNamespaceLabels E tag [ns] = Inr r \<and>
    (\<forall>n. r n = map_option (\<lambda>m. swc_labels (ssMetric m)) (find (\<lambda>m. ssMetric m ''namespace'' = Some n) (rev ms)))"
proof -
  obtain r where "namespace_loop E ms Map.empty = Inr r"
    "\<forall>n. r n = (case find (\<lambda>m. ssMetric m ''namespace'' = Some n) (rev ms) of
          None \<Rightarrow> None | Some m \<Rightarrow> Some (swc_labels (ssMetric m)))"
    using namespace_loop_last [OF assms(1,2), of Map.empty] by auto
  then show ?thesis using assms(3) by (auto simp: getNamespaceLabels_def split: option.splits)
qed

section \<open>Collected errors\<close>

definition is_warning :: "chan_error \<Rightarrow> bool" where
  "is_warning e \<longleftrightarrow> chCause e \<in> {WarningDuplicateData, WarningPrintTemplate}"

lemma collect_errors_spec:
  assumes "collect_errors l occ = (es, ws)"
  shows "distinct (map chText es) \<and> chText ` set es = chText ` {e \<in> set l. \<not> is_warning e} - occ \<and>
    list_all (\<lambda>e. \<not> is_warning e) es \<and>
    ((\<forall>w \<in> set l. is_warning w \<longrightarrow> chText w \<notin> occ \<union> chText ` {e \<in> set l. \<not> is_warning e}) \<longrightarrow> ws = filter is_warning l)"
  using assms
proof (induction l arbitrary: occ es ws)
  case (Cons e l)
  obtain es1 ws1 where c1: "collect_errors l occ = (es1, ws1)" by fastforce
  obtain es2 ws2 where c2: "collect_errors l (insert (chText e) occ) = (es2, ws2)" by fastforce
  note i1 = Cons.IH [OF c1] and i2 = Cons.IH [OF c2]
  show ?case
  proof (cases "is_warning e")
    case True
    then show ?thesis using Cons.prems c1 i1 by (auto simp: is_warning_def split: if_splits)
  next
    case False
    show ?thesis
    proof (cases "chText e \<in> occ")
      case True
      then show ?thesis using False Cons.prems c1 i1 by (auto simp: is_warning_def)
    next
      case new: False
      then have e: "es = e # es2" "ws = ws2" using False Cons.prems c2 by (auto simp: is_warning_def)
      then show ?thesis using new False i2 by (auto simp: image_iff)
    qed
  qed
qed simp

text \<open>
  The errors of a collection are reported once per text; its warnings are reported as
  often as they occur, since a warning is never remembered as having occurred.
\<close>

theorem errors_once_warnings_repeated:
  assumes "collect_errors l {} = (errorList, warningsList)"
    and "\<forall>w \<in> set l. is_warning w \<longrightarrow> chText w \<notin> chText ` {e \<in> set l. \<not> is_warning e}"
  shows "distinct (map chText errorList) \<and> chText ` set errorList = chText ` {e \<in> set l. \<not> is_warning e} \<and>
    warningsList = filter is_warning l"
  using collect_errors_spec [OF assms(1)] assms(2) by simp

section \<open>A concrete collection\<close>

definition demo_series :: "string \<Rightarrow> SampleStream" where
  "demo_series v = \<lparr>ssMetric = [''namespace'' \<mapsto> ''app'', swcLabelPrefix @ ''tier'' \<mapsto> v], ssValues = [demo_pair]\<rparr>"

definition demo_answers :: "nat \<Rightarrow> string \<Rightarrow> int \<Rightarrow> int \<Rightarrow> int \<Rightarrow> prom_error + model_value" where
  "demo_answers n txt a b c =
     Inr (ValMatrix (if starts_with ''max_over_time'' txt then [] else [demo_series ''gold'', demo_series ''silver'']))"

definition demo_resources :: "any list" where
  "demo_resources = replicate 3 (ABytes ''{}'')"

definition demo_collect :: collect_env where
  "demo_collect = (build_env.extend demo_build
     (collect_env.fields 0 hour 0 demo_mkt demo_resources (\<lambda>_. 0) (\<lambda>_. template_fields) (\<lambda>m. sorted_list_of_set (dom m))))
     \<lparr>peQueryRange := demo_answers\<rparr>"

lemmas demo_collect_simps = demo_collect_def build_env.defs collect_env.defs

lemma demo_collect_sel [simp]:
  "peQueryRange demo_collect = demo_answers" "ceRetry demo_collect = 0" "ceStartTime demo_collect = 0"
  "ceEndTime demo_collect = hour" "ceMetricOrder demo_collect = (\<lambda>m. sorted_list_of_set (dom m))"
  "beLabelOrder demo_collect = beLabelOrder demo_build" "ceConfig demo_collect = demo_mkt"
  "teParse demo_collect = teParse demo_templates" "teExecute demo_collect = teExecute demo_templates"
  by (simp_all add: demo_collect_simps demo_build_def)

lemma demo_collect_codecs: "codecs_ok demo_collect"
  using demo_codecs by (simp add: codecs_ok_def demo_collect_simps demo_build_def)

lemma demo_collect_ok: "orders_ok demo_collect" "answers_finite demo_collect" "engine_ok demo_collect"
proof -
  show "orders_ok demo_collect" using demo_label_order by (simp add: orders_ok_def label_order_ok_def)
  show "answers_finite demo_collect" by (auto simp: answers_finite_def demo_answers_def demo_series_def split: if_splits)
  show "engine_ok demo_collect" by (simp add: engine_ok_def demo_templates_def)
qed

definition demo_spec :: MeterDefinitionSpec where
  "demo_spec = \<lparr>mspGroup = ''g'', mspKind = ''k'', mspMeters = [\<lparr>mwMetric = ''cpu'', mwName = [], mwDescription = [],
     mwWorkloadType = WorkloadTypePod, mwMetricType = [], mwGroupBy = None, mwWithout = None, mwAggregation = ''sum'',
     mwPeriod = None, mwQuery = ''q'', mwLabel = [], mwUnit = [], mwDateLabelOverride = [], mwValueLabelOverride = []\<rparr>]\<rparr>"

definition demo_ref :: MeterDefinitionReference where
  "demo_ref = \<lparr>refName = ''md'', refNamespace = ''ns'', refUID = ''u'', refSpec = Some demo_spec\<rparr>"

definition demo_order :: "query_set \<Rightarrow> (string \<times> string) list" where
  "demo_order Q = (if Q (''md'', ''ns'') \<noteq> None then [(''md'', ''ns'')] else [])"

lemma demo_saved: "getMeterDefinitions demo_collect = Inr Map.empty"
proof -
  have "starts_with ''max_over_time'' (meterDefinitionQueryText demo_collect hour)"
    unfolding meterDefinitionQueryText_def by simp
  then have "QueryMeterDefinitions demo_collect n a b hour = Inr (ValMatrix [])" for n a b
    by (simp add: QueryMeterDefinitions_def demo_answers_def)
  then show ?thesis by (simp add: getMeterDefinitions_def Retry_def getQueries_def)
qed

lemma demo_produced_type:
  "\<exists>q. ProduceMeterDefinitions demo_collect demo_order [demo_ref] = Inr [q] \<and> plMetricType (mqMeterDefLabel q) = []"
proof -
  let ?l = "meter_labels demo_spec ''u'' ''md'' ''ns'' (hd (mspMeters demo_spec))"
  have f: "FromLabels demo_collect (ToLabels demo_collect ?l) = Inr (labels_Defaults (normal_lists ?l))"
    using demo_collect_codecs by (rule FromLabels_ToLabels)
  have "supported (plWorkloadType (labels_Defaults (normal_lists ?l)))"
    by (simp add: labels_Defaults_def normal_lists_def meter_labels_def demo_spec_def supported_def Let_def)
  then have "\<exists>pq. NewPromQuery (query_args (labels_Defaults (normal_lists ?l)) 0 (hour - 1000) t) = Inr pq" for t
    unfolding NewPromQuery_total by (simp add: query_args_def)
  then obtain pq where "NewPromQueryFromLabels (labels_Defaults (normal_lists ?l)) 0 (hour - 1000) = Inr pq"
    unfolding NewPromQueryFromLabels_def by blast
  then obtain q where q: "buildPromQuery demo_collect (ToLabels demo_collect ?l) 0 (hour - 1000) = Inr q"
    "mqMeterDefLabel q = labels_Defaults (normal_lists ?l)"
    by (simp add: buildPromQuery_def f)
  then have "plMetricType (mqMeterDefLabel q) = []"
    by (simp add: labels_Defaults_def normal_lists_def meter_labels_def demo_spec_def Let_def)
  moreover from q have "transformMeterDefinitionReference demo_collect demo_ref 0 (hour - 1000) = Inr [q]"
    by (simp add: transformMeterDefinitionReference_def ref_ToPrometheusLabels_def demo_ref_def
        spec_ToPrometheusLabels_def demo_spec_def)
  ultimately show ?thesis
    by (simp add: ProduceMeterDefinitions_def demo_saved add_saved_def demo_order_def demo_ref_def Let_def)
qed

lemma demo_produced: "\<exists>q. ProduceMeterDefinitions demo_collect demo_order [demo_ref] = Inr [q]"
  using demo_produced_type by blast

lemma demo_order_dom: "set (demo_order Q) \<subseteq> dom Q"
  by (auto simp: demo_order_def)

lemma demo_run: "\<exists>R errs warns. CollectMetrics demo_collect demo_order [demo_ref] R errs warns"
proof (rule CollectMetrics_exists)
  fix s
  assume s: "collect_steps demo_collect (collect_init (ProduceMeterDefinitions demo_collect demo_order [demo_ref])) s"
  obtain q where q: "ProduceMeterDefinitions demo_collect demo_order [demo_ref] = Inr [q]" using demo_produced ..
  have "list_all query_ok [q]" using ProduceMeterDefinitions_ok [OF q demo_order_dom] .
  then show "\<not> csCrashed s" using never_crashed [OF demo_collect_ok] s unfolding q by blast
qed

theorem collection_lossless_witness:
  "\<exists>q R errs warns. ProduceMeterDefinitions demo_collect demo_order [demo_ref] = Inr [q] \<and>
     CollectMetrics demo_collect demo_order [demo_ref] R errs warns \<and> held R = query_records demo_collect q"
proof -
  obtain q where q: "ProduceMeterDefinitions demo_collect demo_order [demo_ref] = Inr [q]" using demo_produced ..
  obtain R errs warns where c: "CollectMetrics demo_collect demo_order [demo_ref] R errs warns" using demo_run by blast
  show ?thesis using collection_lossless [OF q c] q c by auto
qed

theorem collection_never_crashes_witness:
  "\<exists>q s. ProduceMeterDefinitions demo_collect demo_order [demo_ref] = Inr [q] \<and>
     collect_step demo_collect (collect_init (Inr [q])) s \<and> \<not> csCrashed s"
proof -
  obtain q where q: "ProduceMeterDefinitions demo_collect demo_order [demo_ref] = Inr [q]" using demo_produced ..
  have "\<not> finished (collect_init (Inr [q]))" "\<not> csCrashed (collect_init (Inr [q]))"
    by (simp_all add: finished_def collect_init_def)
  then obtain s where s: "collect_step demo_collect (collect_init (Inr [q])) s" using collect_progress by blast
  then have "\<not> csCrashed s"
    using collection_never_crashes [OF demo_collect_ok demo_order_dom q] by blast
  then show ?thesis using q s by blast
qed

theorem namespace_labels_last_series_witness:
  "\<exists>r l. getNamespaceLabels demo_collect 0 [''app''] = Inr r \<and> r ''app'' = Some l \<and> l ''swc_saas_ibm_com_tier'' = Some ''silver''"
proof -
  have t: "\<not> starts_with ''max_over_time'' (namespaceLabelsQueryText [''app''])"
    by (simp add: namespaceLabelsQueryText_def)
  have fin: "\<forall>m \<in> set [demo_series ''gold'', demo_series ''silver'']. finite (dom (ssMetric m))"
    by (simp add: demo_series_def)
  have "snd (Retry (\<lambda>i s. (s, QueryNamespaceLabels demo_collect (0 + i) [''app''] (ceStartTime demo_collect)
      (ceEndTime demo_collect - 1) hour)) (ceRetry demo_collect) ()) =
      Inr (ValMatrix [demo_series ''gold'', demo_series ''silver''])"
    using t by (simp add: Retry_def QueryNamespaceLabels_def demo_answers_def answer_def)
  from namespace_labels_last_series [OF demo_collect_ok(1) fin this] show ?thesis
    by (auto simp: demo_series_def swc_labels_def swcLabelPrefix_def labelPrefix_def)
qed

theorem errors_once_warnings_repeated_witness:
  "collect_errors [ChanError ''x'' ''x'', ChanError WarningPrintTemplate ''w'', ChanError ''x'' ''x'',
      ChanError WarningPrintTemplate ''w''] {} =
     ([ChanError ''x'' ''x''], [ChanError WarningPrintTemplate ''w'', ChanError WarningPrintTemplate ''w''])"
proof -
  let ?l = "[ChanError ''x'' ''x'', ChanError WarningPrintTemplate ''w'', ChanError ''x'' ''x'',
      ChanError WarningPrintTemplate ''w'']"
  obtain es ws where c: "collect_errors ?l {} = (es, ws)" by fastforce
  have "\<forall>w \<in> set ?l. is_warning w \<longrightarrow> chText w \<notin> chText ` {e \<in> set ?l. \<not> is_warning e}"
    by (auto simp: is_warning_def)
  from errors_once_warnings_repeated [OF c this] c show ?thesis
    by (simp add: is_warning_def WarningPrintTemplate_def WarningDuplicateData_def)
qed

subsection \<open>The report of the concrete collection\<close>

lemma put_field_metricType [simp]: "plMetricType (put_field E tpl values f m) = plMetricType m"
  by (cases f) (simp_all add: put_field_def split: option.split)

lemma fold_put_field_metricType [simp]: "plMetricType (fold (put_field E tpl values) order m) = plMetricType m"
  by (induction order arbitrary: m) auto

lemma PrintTemplate_metricType:
  assumes "PrintTemplate E order m values pair = Inr r"
  shows "plMetricType (urLabels r) = plMetricType m \<and> (urValue r = spValue pair \<or> urValue r \<noteq> [])"
proof -
  obtain tpl r0 where "templater_Execute E tpl values order m = Inr r0" "templated_record E m r0 values pair = Inr r"
    using assms by (auto simp: PrintTemplate_def split: sum.splits)
  then show ?thesis by (auto simp: templated_record_Inr templater_Execute_fold split: if_splits)
qed

lemma Recorded_metricType:
  assumes "process_pair E x = Recorded r"
  shows "plMetricType (urLabels r) = plMetricType (mqMeterDefLabel (saQuery x)) \<and>
    (urValue r = spValue (saPair x) \<or> urValue r \<noteq> [])"
proof -
  obtain vals r0 where p: "PrintTemplate E (ceFieldOrder E x) (mqMeterDefLabel (saQuery x)) vals (saPair x) = Inr r0"
    and a: "add_namespaces E x r0 = Recorded r"
    using assms by (auto simp: process_pair_def Let_def chan_wrap_def split: sum.splits go_error.splits prod.splits if_splits)
  have "urLabels r = urLabels r0" "urValue r = urValue r0"
    using a by (auto simp: add_namespaces_def Let_def chan_wrap_def split: if_splits sum.splits go_error.splits)
  then show ?thesis using PrintTemplate_metricType [OF p] by simp
qed

lemma query_records_from:
  assumes "r \<in># query_records E q"
  obtains ms x where "query_one E q = Inr (ValMatrix ms)" "x \<in> set (samples_of q ms)" "process_pair E x = Recorded r"
proof -
  obtain v where v: "query_one E q = Inr v" "r \<in># work_records E (model_work q v)"
    using assms by (auto simp: query_records_def model_records_def split: sum.splits)
  then obtain ms where "v = ValMatrix ms" by (cases v) auto
  moreover have "\<exists>x \<in> set xs. process_pair E x = Recorded r" if "r \<in># work_records E xs" for xs
    using that by (induction xs) (auto simp: sample_records_def split: outcome.splits)
  ultimately show ?thesis using v that by fastforce
qed

lemma demo_record_ok:
  assumes "r \<in># query_records demo_collect q" "plMetricType (mqMeterDefLabel q) = []"
  shows "v3_ok demo_collect r"
proof -
  obtain ms x where q: "query_one demo_collect q = Inr (ValMatrix ms)" and x: "x \<in> set (samples_of q ms)"
    and p: "process_pair demo_collect x = Recorded r"
    using assms(1) by (rule query_records_from)
  obtain j t where "snd (ReportQuery demo_collect j t) = Inr (ValMatrix ms)"
    using Retry_outcome [of "\<lambda>i. ReportQuery demo_collect i" "ceRetry demo_collect" "mqQuery q"] q
    by (auto simp: query_one_def)
  then have "set ms \<subseteq> {demo_series ''gold'', demo_series ''silver''}"
    by (auto simp: ReportQuery_def demo_answers_def split: sum.splits prod.splits if_splits)
  then have "saQuery x = q" "saPair x = demo_pair" using x by (auto simp: samples_of_def demo_series_def)
  then have "plMetricType (urLabels r) = []" "urValue r \<noteq> []"
    using Recorded_metricType [OF p] assms(2) by (auto simp: demo_pair_def)
  then show ?thesis
    by (simp add: v3_ok_def v3_measure_def v3_namespaces_def v3_metricType_def MetricTypeEmpty_def demo_collect_simps
        demo_build_def Let_def)
qed

lemma demo_written:
  assumes q: "ProduceMeterDefinitions demo_collect demo_order [demo_ref] = Inr [q]"
    and c: "CollectMetrics demo_collect demo_order [demo_ref] R errs warns"
  shows "\<exists>written files. v3_WriteReport demo_collect (demo_write :: (v3_data MarketplaceReportSlice, ReportManifest) write_env)
     demo_mkt ''2'' source R (sorted_list_of_set (dom R)) ''out'' 10 = (written, Inr (files, []))"
proof -
  have t: "plMetricType (mqMeterDefLabel q) = []" using demo_produced_type q by auto
  have g: "grouped demo_collect R" "held R = query_records demo_collect q" using CollectMetrics_held [OF q c] by auto
  let ?ks = "sorted_list_of_set (dom R)"
  have "\<exists>d. v3_Build demo_collect b = Inr d" if b: "R k = Some b" for k b
  proof -
    have "r \<in># held R" if "r \<in> set (bdValues b)" for r
    proof -
      have "held R = mset (bdValues b) + (\<Sum>j \<in> dom R - {k}. mset (bdValues (the (R j))))"
        using b g(1) by (auto simp: held_def grouped_def sum.remove [of "dom R" k] domI)
      then show ?thesis using that by simp
    qed
    then have "\<forall>r \<in> set (bdValues b). v3_ok demo_collect r" using demo_record_ok [OF _ t] g(2) by simp
    moreover have "bdValues b \<noteq> []" "\<forall>r \<in> set (bdValues b). Hash demo_collect r = k" using g(1) b by (auto simp: grouped_def)
    moreover have "\<not> is_err (beDecode demo_collect event_tags l)" for l by (simp add: demo_collect_simps demo_build_def)
    ultimately show ?thesis using v3_Build_Inr_iff [of demo_collect b] by (metis list.set_sel(1))
  qed
  moreover have "set ?ks = dom R" using g(1) by (simp add: grouped_def)
  ultimately have f: "failed (v3_Build demo_collect) (map (\<lambda>k. the (R k)) ?ks) = []"
    by (fastforce simp: failed_def split: sum.splits)
  then show ?thesis using demo_WriteReport_all [of "v3_Build demo_collect"] unfolding v3_WriteReport_def by metis
qed

theorem report_covers_samples_witness:
  "\<exists>q R ks written files (slices :: v3_data MarketplaceReportSlice list).
     ProduceMeterDefinitions demo_collect demo_order [demo_ref] = Inr [q] \<and> set ks = dom R \<and>
     v3_WriteReport demo_collect demo_write demo_mkt ''2'' ''id'' R ks ''out'' 10 = (written, Inr (files, [])) \<and>
     rel_mset (v3_entry_of demo_collect (mkClusterUUID demo_mkt)) (query_records demo_collect q)
       (mset (concat (map d3MeasuredUsage (concat (map slMetrics slices)))))"
proof -
  let ?W = "demo_write :: (v3_data MarketplaceReportSlice, ReportManifest) write_env"
  obtain q where q: "ProduceMeterDefinitions demo_collect demo_order [demo_ref] = Inr [q]" using demo_produced by blast
  obtain R errs warns where c: "CollectMetrics demo_collect demo_order [demo_ref] R errs warns" using demo_run by blast
  let ?ks = "sorted_list_of_set (dom R)"
  have ks: "distinct ?ks" "set ?ks = dom R" using CollectMetrics_held [OF q c] by (simp_all add: grouped_def)
  obtain written files where
    w: "v3_WriteReport demo_collect ?W (ceConfig demo_collect) ''2'' ''id'' R ?ks ''out'' 10 = (written, Inr (files, []))"
    using demo_written [OF q c, of "''id''"] by auto
  show ?thesis
    using report_covers_samples [OF q c demo_partition_ok _ ks w] q ks w by auto
qed

end
