(* ===== verification/ReportInputs.thy ===== *)
theory ReportInputs
  imports Retries MeterReports ReportCollection
begin

text \<open>
  What a report task gathers before it collects
  (\<open>reporter/v2/pkg/reporter/report_task.go\<close>): the report with its unique id, the
  Prometheus service and port, the specifications of the referenced meter definitions and
  the description of the cluster's infrastructure.

  \<open>retry.RetryOnConflict\<close> and the API server are arguments. A task keeps its own copy of
  the report's specification beside the one that is stored.
\<close>

section \<open>The report\<close>

record MeterReportSpec =
  mpReportUUID :: string
  mpReferences :: "MeterDefinitionReference list"

record spec_state =
  ssStored :: MeterReportSpec
  ssLocal :: MeterReportSpec
  ssUpdates :: nat

text \<open>
  The answers of the API server: \<open>kaGet\<close> and \<open>kaUpdate\<close> are the errors of reading and of
  writing the report, by the number of writes tried before.
\<close>

record report_api =
  kaGet :: "nat \<Rightarrow> go_error option"
  kaUpdate :: "nat \<Rightarrow> go_error option"
  kaNewUUID :: "nat \<Rightarrow> string"
  kaDefinition :: "string \<Rightarrow> string \<Rightarrow> (string \<times> MeterDefinitionSpec) result"

definition client_Update :: "'e report_api_scheme \<Rightarrow> (spec_state, go_error) attempt" where
  "client_Update A s =
     (case kaUpdate A (ssUpdates s) of
        Some err \<Rightarrow> (s\<lparr>ssUpdates := ssUpdates s + 1\<rparr>, Some err)
      | None \<Rightarrow> (s\<lparr>ssStored := ssLocal s, ssUpdates := ssUpdates s + 1\<rparr>, None))"

definition uuid_attempt :: "'e report_api_scheme \<Rightarrow> (spec_state, go_error) attempt" where
  "uuid_attempt A s =
     (case kaGet A (ssUpdates s) of
        Some err \<Rightarrow> (s, Some err)
      | None \<Rightarrow>
          (let s1 = s\<lparr>ssLocal := ssStored s\<rparr> in
           if mpReportUUID (ssLocal s1) = []
           then client_Update A (s1\<lparr>ssLocal := (ssLocal s1)\<lparr>mpReportUUID := kaNewUUID A (ssUpdates s1)\<rparr>\<rparr>)
           else (s1, None)))"

definition getMarketplaceReport ::
  "((spec_state, go_error) attempt \<Rightarrow> (spec_state, go_error) attempt) \<Rightarrow> 'e report_api_scheme \<Rightarrow> (spec_state, go_error) attempt" where
  "getMarketplaceReport retry A s = retry (uuid_attempt A) s"

section \<open>The Prometheus service\<close>

record ServicePort =
  spName :: string
  spPort :: int

record Service =
  svName :: string
  svNamespace :: string
  svPorts :: "ServicePort list"

record task_config =
  tcLocal :: bool
  tcPrometheusService :: string
  tcPrometheusNamespace :: string
  tcPrometheusPort :: string
  tcCaFile :: string
  tcTokenFile :: string

definition getPrometheusService ::
  "task_config \<Rightarrow> (string \<Rightarrow> string \<Rightarrow> Service result) \<Rightarrow> Service option result" where
  "getPrometheusService cfg get =
     (if tcLocal cfg then Inr None
      else if tcPrometheusService cfg = [] \<or> tcPrometheusNamespace cfg = [] then Inl (Err ''no prometheus configured'')
      else
        (case get (tcPrometheusService cfg) (tcPrometheusNamespace cfg) of
           Inl err \<Rightarrow> Inl err
         | Inr service \<Rightarrow> Inr (Some service)))"

fun port_loop :: "string \<Rightarrow> ServicePort list \<Rightarrow> ServicePort option \<Rightarrow> ServicePort option" where
  "port_loop name [] port = port"
| "port_loop name (p # ps) port = port_loop name ps (if spName p = name then Some p else port)"

text \<open>A nil service has no ports to range over: reading them is a nil dereference.\<close>

definition getPrometheusPort :: "task_config \<Rightarrow> Service option \<Rightarrow> ServicePort option result" where
  "getPrometheusPort cfg service =
     (if tcLocal cfg then Inr None
      else
        (case service of
           None \<Rightarrow> Inl (Panic ''nil pointer dereference'')
         | Some svc \<Rightarrow>
             (case port_loop (tcPrometheusPort cfg) (svPorts svc) None of
                None \<Rightarrow> Inl (Err (''cannot find port: '' @ tcPrometheusPort cfg))
              | Some p \<Rightarrow> Inr (Some p))))"

record PrometheusAPISetup =
  paService :: "Service option"
  paPort :: "ServicePort option"
  paCertFilePath :: string
  paTokenFilePath :: string
  paRunLocal :: bool

definition providePrometheusSetup ::
  "task_config \<Rightarrow> Service option \<Rightarrow> ServicePort option \<Rightarrow> PrometheusAPISetup" where
  "providePrometheusSetup cfg service port =
     \<lparr>paService = service, paPort = port, paCertFilePath = tcCaFile cfg, paTokenFilePath = tcTokenFile cfg,
      paRunLocal = tcLocal cfg\<rparr>"

definition prometheus_setup ::
  "task_config \<Rightarrow> (string \<Rightarrow> string \<Rightarrow> Service result) \<Rightarrow> PrometheusAPISetup result" where
  "prometheus_setup cfg get =
     (case getPrometheusService cfg get of
        Inl err \<Rightarrow> Inl err
      | Inr service \<Rightarrow>
          (case getPrometheusPort cfg service of
             Inl err \<Rightarrow> Inl err
           | Inr port \<Rightarrow> Inr (providePrometheusSetup cfg service port)))"

section \<open>The referenced meter definitions\<close>

fun references_loop ::
  "'e report_api_scheme \<Rightarrow> MeterDefinitionReference list \<Rightarrow> MeterDefinitionReference list \<Rightarrow>
     MeterDefinitionReference list \<times> go_error option" where
  "references_loop A [] defs = (defs, None)"
| "references_loop A (ref # refs) defs =
     (case refSpec ref of
        Some _ \<Rightarrow> references_loop A refs (defs @ [ref])
      | None \<Rightarrow>
          (case kaDefinition A (refName ref) (refNamespace ref) of
             Inl err \<Rightarrow> (defs, Some err)
           | Inr (uid, spec) \<Rightarrow>
               references_loop A refs (defs @ [ref\<lparr>refUID := uid, refSpec := Some spec\<rparr>])))"

text \<open>One attempt to write the references: the report's own copy is changed before it is written.\<close>

definition references_attempt ::
  "'e report_api_scheme \<Rightarrow> MeterDefinitionReference list \<Rightarrow> (spec_state, go_error) attempt" where
  "references_attempt A defs s =
     (if mpReferences (ssLocal s) = defs then (s, None)
      else client_Update A (s\<lparr>ssLocal := (ssLocal s)\<lparr>mpReferences := defs\<rparr>\<rparr>))"

definition getMeterDefinitionReferences ::
  "((spec_state, go_error) attempt \<Rightarrow> (spec_state, go_error) attempt) \<Rightarrow> 'e report_api_scheme \<Rightarrow> spec_state \<Rightarrow>
     spec_state \<times> MeterDefinitionReference list \<times> go_error option" where
  "getMeterDefinitionReferences retry A s =
     (case references_loop A (mpReferences (ssLocal s)) [] of
        (defs, Some err) \<Rightarrow> (s, defs, Some err)
      | (defs, None) \<Rightarrow> (case retry (references_attempt A defs) s of (s', err) \<Rightarrow> (s', defs, err)))"

section \<open>The infrastructure of the cluster\<close>

text \<open>
  The parts of the API objects the code reads or copies have a field; everything else of an
  object is in its field for the rest.
\<close>

record UpdateHistory =
  uhCompletionTime :: "go_time option"
  uhVersion :: string

record ClusterVersion =
  cvName :: string
  cvCreationTimestamp :: go_time
  cvClusterID :: string
  cvHistory :: "UpdateHistory list"
  cvRest :: any

record Console =
  coName :: string
  coCreationTimestamp :: go_time
  coStatus :: any
  coRest :: any

record Infrastructure =
  ifName :: string
  ifCreationTimestamp :: go_time
  ifPlatformType :: "string option"
  ifControlPlaneTopology :: string
  ifInfrastructureTopology :: string
  ifRest :: any

record Node =
  ndName :: string
  ndCreationTimestamp :: go_time
  ndLabels :: smap
  ndCapacity :: smap
  ndArchitecture :: string
  ndOperatingSystem :: string
  ndRest :: any

datatype infra_object =
  ClusterVersionObject ClusterVersion | ConsoleObject Console | InfrastructureObject Infrastructure | NodeObject Node

record cluster_api =
  caClusterVersion :: "ClusterVersion result"
  caConsole :: "Console result"
  caInfrastructure :: "Infrastructure result"
  caNodes :: "Node list result"
  caSort :: "(UpdateHistory \<Rightarrow> UpdateHistory \<Rightarrow> bool) \<Rightarrow> UpdateHistory list \<Rightarrow> UpdateHistory list"
  caObjectKinds :: "infra_object \<Rightarrow> (string list \<times> bool) result"
  caEncode :: "string option \<Rightarrow> infra_object \<Rightarrow> string result"

text \<open>\<open>Time.Before\<close> on pointers: false when one of them is nil.\<close>

definition completed_before :: "UpdateHistory \<Rightarrow> UpdateHistory \<Rightarrow> bool" where
  "completed_before a b =
     (case (uhCompletionTime a, uhCompletionTime b) of (Some s, Some t) \<Rightarrow> s < t | _ \<Rightarrow> False)"

definition clusterVersionLite :: "'e cluster_api_scheme \<Rightarrow> ClusterVersion \<Rightarrow> ClusterVersion" where
  "clusterVersionLite C cv =
     \<lparr>cvName = cvName cv, cvCreationTimestamp = cvCreationTimestamp cv, cvClusterID = cvClusterID cv,
      cvHistory = (if length (cvHistory cv) > 0
                   then [last (caSort C completed_before (cvHistory cv))] else []),
      cvRest = ANil\<rparr>"

definition consoleLite :: "'e cluster_api_scheme \<Rightarrow> Console \<Rightarrow> Console" where
  "consoleLite C co = co\<lparr>coRest := ANil\<rparr>"

definition infrastructureLite :: "'e cluster_api_scheme \<Rightarrow> Infrastructure \<Rightarrow> Infrastructure" where
  "infrastructureLite C i = i\<lparr>ifRest := ANil\<rparr>"

definition nodeLite :: "'e cluster_api_scheme \<Rightarrow> Node \<Rightarrow> Node" where
  "nodeLite C n = n\<lparr>ndRest := ANil\<rparr>"

text \<open>The objects are encoded with their kind when the scheme knows exactly one.\<close>

definition encode_object :: "'e cluster_api_scheme \<Rightarrow> infra_object \<Rightarrow> string result" where
  "encode_object C obj =
     (case caObjectKinds C obj of
        Inl err \<Rightarrow> Inl err
      | Inr (gvks, isUnversioned) \<Rightarrow>
          caEncode C (if \<not> isUnversioned \<and> length gvks = 1 then Some (hd gvks) else None) obj)"

fun encode_loop :: "'e cluster_api_scheme \<Rightarrow> infra_object list \<Rightarrow> string list \<Rightarrow> string list \<times> go_error option" where
  "encode_loop C [] acc = (acc, None)"
| "encode_loop C (obj # objs) acc =
     (case encode_object C obj of
        Inl err \<Rightarrow> (acc, Some err)
      | Inr text \<Rightarrow> encode_loop C objs (acc @ [text]))"

definition getK8sInfrastructureResources :: "'e cluster_api_scheme \<Rightarrow> string list \<times> go_error option" where
  "getK8sInfrastructureResources C =
     (case caClusterVersion C of
        Inl err \<Rightarrow> ([], Some err)
      | Inr cv \<Rightarrow>
          (case caConsole C of
             Inl err \<Rightarrow> ([], Some err)
           | Inr co \<Rightarrow>
               (case caInfrastructure C of
                  Inl err \<Rightarrow> ([], Some err)
                | Inr i \<Rightarrow>
                    (case caNodes C of
                       Inl err \<Rightarrow> ([], Some err)
                     | Inr nodes \<Rightarrow>
                         encode_loop C
                           ([ClusterVersionObject (clusterVersionLite C cv), ConsoleObject (consoleLite C co),
                             InfrastructureObject (infrastructureLite C i)] @
                            map (\<lambda>n. NodeObject (nodeLite C n)) nodes) []))))"

section \<open>The stored id\<close>

lemma client_Update_result:
  "client_Update A s = (s', err) \<Longrightarrow>
     ssLocal s' = ssLocal s \<and> ssStored s' = (if err = None then ssLocal s else ssStored s)"
  by (auto simp: client_Update_def split: option.splits)

text \<open>
  A report task gets a stored id: when the report is retrieved without an error, the
  copy of the task is what is stored, it has an id, and an id that was there before is
  kept along with the references, whatever conflicts happened in between.
\<close>

theorem report_has_stored_uuid:
  assumes "retry_ok conflict retry" "getMarketplaceReport retry A s = (s', None)" "\<forall>n. kaNewUUID A n \<noteq> []"
  shows "ssLocal s' = ssStored s' \<and> mpReportUUID (ssStored s') \<noteq> [] \<and>
     mpReferences (ssStored s') = mpReferences (ssStored s) \<and>
     (mpReportUUID (ssStored s) \<noteq> [] \<longrightarrow> mpReportUUID (ssStored s') = mpReportUUID (ssStored s))"
proof -
  have r: "retried conflict (uuid_attempt A) s s' None"
    using assms(1,2) by (simp add: getMarketplaceReport_def retry_okD)
  have "\<exists>t. ssStored t = ssStored s \<and> uuid_attempt A t = (s', None)"
  proof (rule retried_invariant [OF r])
    fix t t' e
    assume t: "ssStored t = ssStored s" "uuid_attempt A t = (t', Some e)"
    then show "ssStored t' = ssStored s"
      by (auto simp: uuid_attempt_def Let_def dest: client_Update_result split: option.splits if_splits)
  qed simp
  then show ?thesis
    using assms(3) by (auto simp: uuid_attempt_def Let_def dest!: client_Update_result split: option.splits if_splits)
qed

section \<open>References\<close>

definition filled :: "'e report_api_scheme \<Rightarrow> MeterDefinitionReference \<Rightarrow> MeterDefinitionReference \<Rightarrow> bool" where
  "filled A ref d \<longleftrightarrow>
     (if refSpec ref = None
      then \<exists>uid spec. kaDefinition A (refName ref) (refNamespace ref) = Inr (uid, spec) \<and>
                      d = ref\<lparr>refUID := uid, refSpec := Some spec\<rparr>
      else d = ref)"

lemma references_loop_filled:
  "references_loop A refs acc = (defs, None) \<Longrightarrow> \<exists>ds. defs = acc @ ds \<and> list_all2 (filled A) refs ds"
proof (induction refs arbitrary: acc)
  case (Cons ref refs)
  obtain d where "references_loop A refs (acc @ [d]) = (defs, None)" "filled A ref d"
    using Cons.prems by (auto simp: filled_def split: option.splits sum.splits)
  with Cons.IH [of "acc @ [d]"] show ?case by fastforce
qed simp

text \<open>
  The definitions a collection runs on are the references of the report in their order, those
  without a specification completed from the definition they name, the others unchanged; no
  reference is left without a specification. Their transformation into queries then does not
  fail for want of one.
\<close>

theorem references_complete:
  assumes "getMeterDefinitionReferences retry A s = (s', defs, None)"
  shows "list_all2 (filled A) (mpReferences (ssLocal s)) defs \<and> (\<forall>d \<in> set defs. \<not> is_err (ref_ToPrometheusLabels d))"
proof -
  have "references_loop A (mpReferences (ssLocal s)) [] = (defs, None)"
    using assms by (auto simp: getMeterDefinitionReferences_def split: prod.splits option.splits)
  then have f: "list_all2 (filled A) (mpReferences (ssLocal s)) defs"
    using references_loop_filled by fastforce
  have "\<not> is_err (ref_ToPrometheusLabels d)" if "filled A ref d" for ref d
    using that by (cases "refSpec d") (auto simp: filled_def ref_ToPrometheusLabels_def split: if_splits)
  then have "\<not> is_err (ref_ToPrometheusLabels (defs ! i))" if "i < length defs" for i
    using list_all2_nthD2 [OF f that] by blast
  with f show ?thesis by (auto simp: in_set_conv_nth)
qed

text \<open>
  A conflict loses the completed references: the task's copy is changed before the first write,
  so that after a conflict the next attempt finds nothing to write and succeeds. The function
  reports no error, the stored report keeps its references without specifications.
\<close>

theorem references_conflict_lost:
  assumes "retry_ok conflict retry" "references_loop A (mpReferences (ssLocal s)) [] = (defs, None)"
    and "defs \<noteq> mpReferences (ssLocal s)" "kaUpdate A (ssUpdates s) = Some e" "conflict e"
  shows "\<exists>s'. getMeterDefinitionReferences retry A s = (s', defs, None) \<and>
     ssStored s' = ssStored s \<and> mpReferences (ssLocal s') = defs \<and> ssUpdates s' = ssUpdates s + 1"
proof -
  let ?s1 = "s\<lparr>ssLocal := (ssLocal s)\<lparr>mpReferences := defs\<rparr>, ssUpdates := ssUpdates s + 1\<rparr>"
  have first: "references_attempt A defs s = (?s1, Some e)"
    using assms(3,4) by (simp add: references_attempt_def client_Update_def)
  have second: "references_attempt A defs ?s1 = (?s1, None)" by (simp add: references_attempt_def)
  obtain s' err where r: "retry (references_attempt A defs) s = (s', err)" by fastforce
  then have "retried conflict (references_attempt A defs) ?s1 s' err"
    using assms(1,5) first by (simp add: retry_ok_def)
  from retried_settled [OF this second] r show ?thesis
    using assms(2) by (simp add: getMeterDefinitionReferences_def)
qed

section \<open>The service and its port\<close>

lemma port_loop_last:
  "port_loop name ps port = (case List.find (\<lambda>p. spName p = name) (rev ps) of None \<Rightarrow> port | Some p \<Rightarrow> Some p)"
proof (induction ps arbitrary: port)
  case (Cons p ps)
  have "List.find P (xs @ [y]) = (case List.find P xs of None \<Rightarrow> if P y then Some y else None | Some z \<Rightarrow> Some z)"
    for P :: "ServicePort \<Rightarrow> bool" and xs y by (induction xs) auto
  with Cons show ?case by (auto split: option.splits)
qed simp

text \<open>
  The connection to Prometheus: outside of local mode the set-up names the configured service
  and the last of its ports with the configured name; it exists exactly when both are configured and
  found, and the port is never looked up on a missing service.
\<close>

theorem prometheus_setup_iff:
  "prometheus_setup cfg get = Inr setup \<longleftrightarrow>
     (if tcLocal cfg then setup = providePrometheusSetup cfg None None
      else tcPrometheusService cfg \<noteq> [] \<and> tcPrometheusNamespace cfg \<noteq> [] \<and>
        (\<exists>svc p. get (tcPrometheusService cfg) (tcPrometheusNamespace cfg) = Inr svc \<and>
           List.find (\<lambda>p. spName p = tcPrometheusPort cfg) (rev (svPorts svc)) = Some p \<and>
           setup = providePrometheusSetup cfg (Some svc) (Some p)))"
  by (auto simp: prometheus_setup_def getPrometheusService_def getPrometheusPort_def port_loop_last
      split: sum.splits option.splits)

section \<open>What is reported of the cluster\<close>

text \<open>Two clusters that differ at most in what the report does not read.\<close>

definition same_reported :: "cluster_api \<Rightarrow> cluster_api \<Rightarrow> bool" where
  "same_reported C D \<longleftrightarrow>
     map_sum id (\<lambda>cv. cv\<lparr>cvRest := ANil\<rparr>) (caClusterVersion C) = map_sum id (\<lambda>cv. cv\<lparr>cvRest := ANil\<rparr>) (caClusterVersion D) \<and>
     map_sum id (\<lambda>co. co\<lparr>coRest := ANil\<rparr>) (caConsole C) = map_sum id (\<lambda>co. co\<lparr>coRest := ANil\<rparr>) (caConsole D) \<and>
     map_sum id (\<lambda>i. i\<lparr>ifRest := ANil\<rparr>) (caInfrastructure C) = map_sum id (\<lambda>i. i\<lparr>ifRest := ANil\<rparr>) (caInfrastructure D) \<and>
     map_sum id (map (\<lambda>n. n\<lparr>ndRest := ANil\<rparr>)) (caNodes C) = map_sum id (map (\<lambda>n. n\<lparr>ndRest := ANil\<rparr>)) (caNodes D) \<and>
     caSort C = caSort D \<and> caObjectKinds C = caObjectKinds D \<and> caEncode C = caEncode D"

lemma clusterVersionLite_rest:
  "clusterVersionLite C cv = clusterVersionLite C (cv\<lparr>cvRest := x\<rparr>)"
  by (simp add: clusterVersionLite_def)

lemma encode_loop_cong:
  "caObjectKinds C = caObjectKinds D \<Longrightarrow> caEncode C = caEncode D \<Longrightarrow> encode_loop C objs acc = encode_loop D objs acc"
  by (induction objs arbitrary: acc) (auto simp: encode_object_def split: sum.splits)

text \<open>
  Only the documented data leaves the cluster: the reported resources are the same for any two
  clusters that agree on names, creation times, cluster id, update history, console status,
  platform type, topologies and the labels, capacity and platform of the nodes, whatever else
  their objects hold.
\<close>

theorem infrastructure_data_minimal:
  assumes "same_reported C D"
  shows "getK8sInfrastructureResources C = getK8sInfrastructureResources D"
proof -
  have lite: "nodeLite C = nodeLite D" "consoleLite C = consoleLite D" "infrastructureLite C = infrastructureLite D"
    "clusterVersionLite C = clusterVersionLite D"
    using assms by (simp_all add: fun_eq_iff same_reported_def nodeLite_def consoleLite_def infrastructureLite_def
        clusterVersionLite_def)
  have cv: "clusterVersionLite D a = clusterVersionLite D b" if "a\<lparr>cvRest := x\<rparr> = b\<lparr>cvRest := x\<rparr>" for a b x
    using that by (metis clusterVersionLite_rest)
  have n: "map (\<lambda>n. NodeObject (nodeLite D n)) xs = map NodeObject (map (\<lambda>n. n\<lparr>ndRest := ANil\<rparr>) xs)" for xs
    by (simp add: nodeLite_def)
  have "encode_loop C = encode_loop D"
    using assms by (intro ext encode_loop_cong) (simp_all add: same_reported_def)
  with assms show ?thesis
    unfolding getK8sInfrastructureResources_def lite n
    by (cases "caClusterVersion C"; cases "caClusterVersion D"; cases "caConsole C"; cases "caConsole D";
        cases "caInfrastructure C"; cases "caInfrastructure D"; cases "caNodes C"; cases "caNodes D")
      (auto simp: same_reported_def consoleLite_def infrastructureLite_def dest!: cv)
qed

text \<open>What \<open>sort.Slice\<close> documents, for a comparison that is a strict weak order on the slice.\<close>

definition sort_ok :: "(('a \<Rightarrow> 'a \<Rightarrow> bool) \<Rightarrow> 'a list \<Rightarrow> 'a list) \<Rightarrow> bool" where
  "sort_ok sort_slice \<longleftrightarrow>
     (\<forall>less xs. mset (sort_slice less xs) = mset xs \<and>
        ((\<forall>x \<in> set xs. \<not> less x x) \<longrightarrow>
         (\<forall>x \<in> set xs. \<forall>y \<in> set xs. \<forall>z \<in> set xs. less x y \<longrightarrow> less x z \<or> less z y) \<longrightarrow>
         sorted_wrt (\<lambda>x y. \<not> less y x) (sort_slice less xs)))"

lemma sorted_wrt_last:
  assumes "sorted_wrt R ys" "y \<in> set ys" "R (last ys) (last ys)"
  shows "R y (last ys)"
  using assms by (induction ys) (auto split: if_splits)

text \<open>
  The version that is reported is a latest one: when every update of the history has been
  completed, the one entry kept of it has the greatest completion time.
\<close>

theorem latest_version_reported:
  assumes "sort_ok (caSort C)" "cvHistory cv \<noteq> []" "\<forall>h \<in> set (cvHistory cv). uhCompletionTime h \<noteq> None"
  shows "\<exists>h \<in> set (cvHistory cv). cvHistory (clusterVersionLite C cv) = [h] \<and>
     (\<forall>g \<in> set (cvHistory cv). the (uhCompletionTime g) \<le> the (uhCompletionTime h))"
proof -
  let ?ys = "caSort C completed_before (cvHistory cv)"
  have m: "mset ?ys = mset (cvHistory cv)" using assms(1) unfolding sort_ok_def by blast
  then have set: "set ?ys = set (cvHistory cv)" by (rule mset_eq_setD)
  have less: "completed_before a b \<longleftrightarrow> the (uhCompletionTime a) < the (uhCompletionTime b)"
    if "a \<in> set (cvHistory cv)" "b \<in> set (cvHistory cv)" for a b
    using that assms(3) by (auto simp: completed_before_def split: option.splits)
  have "sorted_wrt (\<lambda>x y. \<not> completed_before y x) ?ys"
    using assms(1) [unfolded sort_ok_def, rule_format, of completed_before "cvHistory cv"] by (auto simp: less)
  moreover have ne: "?ys \<noteq> []" using m assms(2) by auto
  moreover have "\<not> completed_before (last ?ys) (last ?ys)" by (auto simp: completed_before_def split: option.splits)
  ultimately have "\<not> completed_before (last ?ys) g" if "g \<in> set (cvHistory cv)" for g
    using sorted_wrt_last [of "\<lambda>x y. \<not> completed_before y x" ?ys g] that set by simp
  moreover have "last ?ys \<in> set (cvHistory cv)" using ne set last_in_set by blast
  ultimately show ?thesis using assms(2) less by (fastforce simp: clusterVersionLite_def not_less)
qed

section \<open>Concrete inputs\<close>

definition demo_api :: report_api where
  "demo_api = \<lparr>kaGet = (\<lambda>_. None), kaUpdate = (\<lambda>n. if n = 0 then Some (Err ''conflict'') else None),
     kaNewUUID = (\<lambda>_. ''id''), kaDefinition = (\<lambda>_ _. Inr (''u'', demo_spec))\<rparr>"

definition demo_state :: spec_state where
  "demo_state = (let sp = \<lparr>mpReportUUID = [], mpReferences = [demo_ref\<lparr>refSpec := None\<rparr>]\<rparr> in
     \<lparr>ssStored = sp, ssLocal = sp, ssUpdates = 0\<rparr>)"

abbreviation is_conflict :: "go_error \<Rightarrow> bool" where
  "is_conflict e \<equiv> e = Err ''conflict''"

theorem report_has_stored_uuid_witness:
  "\<exists>s'. getMarketplaceReport (demo_retry 4 is_conflict) demo_api demo_state = (s', None) \<and>
     mpReportUUID (ssStored s') \<noteq> [] \<and> ssUpdates s' = 2"
proof -
  obtain s' where r: "getMarketplaceReport (demo_retry 4 is_conflict) demo_api demo_state = (s', None)" "ssUpdates s' = 2"
    by (simp add: getMarketplaceReport_def numeral_eq_Suc uuid_attempt_def demo_api_def demo_state_def client_Update_def Let_def)
  have ok: "retry_ok is_conflict (demo_retry 4 is_conflict :: (spec_state, go_error) attempt \<Rightarrow> _)"
    using demo_retry_ok [of is_conflict 3] by simp
  from report_has_stored_uuid [OF ok r(1)] r show ?thesis by (auto simp: demo_api_def)
qed

theorem references_complete_witness:
  "\<exists>s' defs. getMeterDefinitionReferences (demo_retry 4 is_conflict) demo_api demo_state = (s', defs, None) \<and>
     length defs = 1 \<and> (\<forall>d \<in> set defs. \<not> is_err (ref_ToPrometheusLabels d))"
proof -
  obtain s' defs where r: "getMeterDefinitionReferences (demo_retry 4 is_conflict) demo_api demo_state = (s', defs, None)"
    "length defs = 1"
    by (simp add: getMeterDefinitionReferences_def numeral_eq_Suc references_attempt_def demo_api_def demo_state_def
        client_Update_def demo_ref_def Let_def)
  from references_complete [OF r(1)] r show ?thesis by blast
qed

theorem references_conflict_lost_witness:
  "\<exists>s' defs. getMeterDefinitionReferences (demo_retry 4 is_conflict) demo_api demo_state = (s', defs, None) \<and>
     ssStored s' = ssStored demo_state \<and> mpReferences (ssLocal s') \<noteq> mpReferences (ssStored s')"
proof -
  let ?defs = "[demo_ref\<lparr>refUID := ''u'', refSpec := Some demo_spec\<rparr>]"
  have ok: "retry_ok is_conflict (demo_retry 4 is_conflict :: (spec_state, go_error) attempt \<Rightarrow> _)"
    using demo_retry_ok [of is_conflict 3] by simp
  have l: "references_loop demo_api (mpReferences (ssLocal demo_state)) [] = (?defs, None)"
    "?defs \<noteq> mpReferences (ssLocal demo_state)" "kaUpdate demo_api (ssUpdates demo_state) = Some (Err ''conflict'')"
    by (simp_all add: demo_state_def demo_api_def demo_ref_def Let_def)
  from references_conflict_lost [OF ok l] show ?thesis by (auto simp: demo_state_def demo_ref_def Let_def)
qed

definition demo_cluster :: "any \<Rightarrow> cluster_api" where
  "demo_cluster x =
     \<lparr>caClusterVersion = Inr \<lparr>cvName = ''version'', cvCreationTimestamp = 0, cvClusterID = ''c'',
        cvHistory = [\<lparr>uhCompletionTime = Some 5, uhVersion = ''4.2''\<rparr>, \<lparr>uhCompletionTime = Some 3, uhVersion = ''4.1''\<rparr>], cvRest = x\<rparr>,
      caConsole = Inr \<lparr>coName = ''cluster'', coCreationTimestamp = 0, coStatus = AStr ''url'', coRest = x\<rparr>,
      caInfrastructure = Inr \<lparr>ifName = ''cluster'', ifCreationTimestamp = 0, ifPlatformType = Some ''AWS'',
        ifControlPlaneTopology = [], ifInfrastructureTopology = [], ifRest = x\<rparr>,
      caNodes = Inr [], caSort = (\<lambda>less xs. foldr (\<lambda>x ys. takeWhile (\<lambda>y. less y x) ys @ x # dropWhile (\<lambda>y. less y x) ys) xs []),
      caObjectKinds = (\<lambda>_. Inr ([''k''], False)), caEncode = (\<lambda>_ _. Inr ''{}'')\<rparr>"

theorem infrastructure_data_minimal_witness:
  "getK8sInfrastructureResources (demo_cluster (AStr ''secret'')) =
   getK8sInfrastructureResources (demo_cluster (AStr ''other''))"
  by (rule infrastructure_data_minimal) (simp add: same_reported_def demo_cluster_def)

end
