(* ===== verification/ReportTask.thy ===== *)
theory ReportTask
  imports ReportUpload ReportInputs
begin

text \<open>
  The report half of the reporter's job (\<open>reporter/v2/pkg/reporter/report_task.go\<close>,
  \<open>bundle.go\<close>, \<open>reconcile_task.go\<close> and the construction of a reporter in
  \<open>wire_gen.go\<close>): a report that is due is collected, written, archived, handed to an uploader
  (the data service, when the job runs it) and its outcome written to the meter report.

  The collection is the relation of its possible results, so that a task is a relation between
  the states before and after it as well.
\<close>

section \<open>Archives\<close>

record walk_entry =
  wkPath :: string
  wkError :: "go_error option"
  wkRegular :: bool
  wkHeader :: "go_error option"
  wkWriteHeader :: "go_error option"
  wkOpen :: "go_error option"
  wkContent :: "bytes result"

text \<open>\<open>strings.ReplaceAll\<close> with an empty replacement.\<close>

function remove_all :: "string \<Rightarrow> string \<Rightarrow> string" where
  "remove_all old s =
     (if old = [] \<or> s = [] then s
      else if starts_with old s then remove_all old (drop (length old) s)
      else hd s # remove_all old (tl s))"
  by pat_completeness auto
termination
  by (relation "measure (length \<circ> snd)") auto

declare remove_all.simps [simp del]

definition header_name :: "string \<Rightarrow> string \<Rightarrow> string" where
  "header_name src path = TrimPrefix (remove_all src path) ''/''"

definition tar_file :: "string \<Rightarrow> walk_entry \<Rightarrow> (string \<times> bytes) list result" where
  "tar_file src e =
     (case wkError e of
        Some err \<Rightarrow> Inl (wrap ''fail to tar files'' err)
      | None \<Rightarrow>
          (if \<not> wkRegular e then Inr []
           else
             (case wkHeader e of
                Some err \<Rightarrow> Inl (wrap ''failed to create new dir'' err)
              | None \<Rightarrow>
                  (case wkWriteHeader e of
                     Some err \<Rightarrow> Inl (wrap ''failed to write header'' err)
                   | None \<Rightarrow>
                       (case wkOpen e of
                          Some err \<Rightarrow> Inl (wrap ''fail to open file for taring'' err)
                        | None \<Rightarrow>
                            (case wkContent e of
                               Inl err \<Rightarrow> Inl (wrap ''failed to copy data'' err)
                             | Inr content \<Rightarrow> Inr [(header_name src (wkPath e), content)]))))))"

fun tar_walk :: "string \<Rightarrow> walk_entry list \<Rightarrow> (string \<times> bytes) list result" where
  "tar_walk src [] = Inr []"
| "tar_walk src (e # es) =
     (case tar_file src e of
        Inl err \<Rightarrow> Inl err
      | Inr fs \<Rightarrow> (case tar_walk src es of Inl err \<Rightarrow> Inl err | Inr rest \<Rightarrow> Inr (fs @ rest)))"

section \<open>The environment of a task\<close>

text \<open>
  \<open>tkDetails\<close> are the details attached to an error, formatted, as pairs of key and value;
  \<open>tkOrder\<close> is the order in which a writer visits the builders; \<open>tkWalk\<close> is what a walk over a
  directory finds once the given files have been written.
\<close>

record task_env =
  tkReportName :: string
  tkReportNamespace :: string
  tkUpload :: bool
  tkParseUUID :: "string \<Rightarrow> string option"
  tkV1 :: "(v1_data v1_slice, ReportMetadata) write_env"
  tkV2 :: "(v2_data MarketplaceReportSlice, ReportManifest) write_env"
  tkV3 :: "(v3_data MarketplaceReportSlice, ReportManifest) write_env"
  tkVersion :: string
  tkOutputDirectory :: string
  tkMetricsPerFile :: int
  tkOrder :: "results \<Rightarrow> string list"
  tkCreate :: "string \<Rightarrow> go_error option"
  tkStat :: "string \<Rightarrow> go_error option"
  tkWalk :: "written_files \<Rightarrow> string \<Rightarrow> walk_entry list"
  tkEncode :: "(string \<times> bytes) list \<Rightarrow> bytes"
  tkOpen :: "string \<Rightarrow> go_error option"
  tkUploaderName :: string
  tkUploadFile :: "upload_action list \<Rightarrow> string \<times> string \<Rightarrow> string \<Rightarrow> bytes \<Rightarrow> string \<times> go_error option"
  tkDetails :: "chan_error \<Rightarrow> (string \<times> string) list"

definition Tar :: "task_env \<Rightarrow> written_files \<Rightarrow> string \<Rightarrow> (string \<times> bytes) list result" where
  "Tar T written src =
     (case tkStat T src of
        Some err \<Rightarrow> Inl (Err (''unable to tar files - '' @ error_string err))
      | None \<Rightarrow> tar_walk src (tkWalk T written src))"

definition TargzFolder :: "task_env \<Rightarrow> written_files \<Rightarrow> string \<Rightarrow> string \<Rightarrow> (string \<times> bytes) list result" where
  "TargzFolder T written srcFolder destFileName =
     (case tkCreate T destFileName of
        Some err \<Rightarrow> Inl (wrap ''failed to create file'' err)
      | None \<Rightarrow> Tar T written srcFolder)"

text \<open>\<open>filepath.Dir\<close> of a clean path.\<close>

definition filepath_Dir :: "string \<Rightarrow> string" where
  "filepath_Dir p =
     (let d = rev (dropWhile (\<lambda>c. c \<noteq> CHR ''/'') (rev p)) in
      if d = [] then ''.'' else if d = ''/'' then ''/'' else butlast d)"

section \<open>The construction of a reporter\<close>

record reporter_inputs =
  niUUID :: string
  niReferences :: "MeterDefinitionReference list"
  niConfig :: mkt_config
  niResources :: "string list"
  niSchema :: schema

record new_env =
  neRetry :: "(spec_state, go_error) attempt \<Rightarrow> (spec_state, go_error) attempt"
  neApi :: report_api
  neConfig :: "mkt_config result"
  neTask :: task_config
  neService :: "string \<Rightarrow> string \<Rightarrow> Service result"
  nePrometheus :: "PrometheusAPISetup \<Rightarrow> go_error option"
  neCluster :: cluster_api
  neSchema :: string

definition NewReporter :: "new_env \<Rightarrow> spec_state \<Rightarrow> spec_state \<times> reporter_inputs result" where
  "NewReporter N s =
     (case getMarketplaceReport (neRetry N) (neApi N) s of
        (s1, Some err) \<Rightarrow> (s1, Inl err)
      | (s1, None) \<Rightarrow>
          (case neConfig N of
             Inl err \<Rightarrow> (s1, Inl err)
           | Inr config \<Rightarrow>
               (case prometheus_setup (neTask N) (neService N) of
                  Inl err \<Rightarrow> (s1, Inl err)
                | Inr setup \<Rightarrow>
                    (case nePrometheus N setup of
                       Some err \<Rightarrow> (s1, Inl err)
                     | None \<Rightarrow>
                         (case getMeterDefinitionReferences (neRetry N) (neApi N) s1 of
                            (s2, defs, Some err) \<Rightarrow> (s2, Inl err)
                          | (s2, defs, None) \<Rightarrow>
                              (case getK8sInfrastructureResources (neCluster N) of
                                 (resources, Some err) \<Rightarrow> (s2, Inl err)
                               | (resources, None) \<Rightarrow>
                                   (case ProvideDataBuilder (neSchema N) of
                                      Inl err \<Rightarrow> (s2, Inl err)
                                    | Inr builder \<Rightarrow>
                                        (case ProvideWriter (neSchema N) of
                                           Inl err \<Rightarrow> (s2, Inl err)
                                         | Inr schema \<Rightarrow>
                                             (s2, Inr \<lparr>niUUID = mpReportUUID (ssLocal s2), niReferences = defs,
                                                niConfig = config, niResources = resources,
                                                niSchema = schema\<rparr>)))))))))"

section \<open>Writing the report\<close>

text \<open>The errors of the builders are returned beside the names of the files.\<close>

definition with_errors ::
  "written_files \<times> (go_error + string list \<times> go_error list) \<Rightarrow> written_files \<times> string list result" where
  "with_errors r =
     (case r of
        (written, Inl err) \<Rightarrow> (written, Inl err)
      | (written, Inr (files, errs)) \<Rightarrow> (written, if errs = [] then Inr files else Inl (combine errs)))"

definition reporter_WriteReport ::
  "task_env \<Rightarrow> 'e collect_env_scheme \<Rightarrow> schema \<Rightarrow> string \<Rightarrow> results \<Rightarrow> written_files \<times> string list result" where
  "reporter_WriteReport T C schema reportID metrics =
     (case schema of
        V1alpha1 \<Rightarrow>
          v1_WriteReport (tkV1 T) (v1_Build C) (source_metadata (ceConfig C) (tkVersion T) ''v1alpha1'') reportID
            metrics (tkOrder T metrics) (tkOutputDirectory T) (tkMetricsPerFile T)
      | V2alpha1 \<Rightarrow>
          with_errors (v2_WriteReport C (tkV2 T) (ceConfig C) (tkVersion T) reportID metrics (tkOrder T metrics)
            (tkOutputDirectory T) (tkMetricsPerFile T))
      | V3alpha1 \<Rightarrow>
          with_errors (v3_WriteReport C (tkV3 T) (ceConfig C) (tkVersion T) reportID metrics (tkOrder T metrics)
            (tkOutputDirectory T) (tkMetricsPerFile T)))"

section \<open>The outcome of a task\<close>

definition FromError :: "task_env \<Rightarrow> chan_error \<Rightarrow> ErrorDetails" where
  "FromError T err =
     \<lparr>edReason = chCause err, edDetails = fold (\<lambda>(k, v) m. m(k \<mapsto> v)) (tkDetails T err) Map.empty\<rparr>"

definition set_errors :: "task_env \<Rightarrow> chan_error list \<Rightarrow> chan_error list \<Rightarrow> MeterReportStatus \<Rightarrow> MeterReportStatus" where
  "set_errors T errorList warningList m =
     m\<lparr>msErrors := map (FromError T) errorList, msWarnings := map (FromError T) warningList\<rparr>"

definition errored_mutation ::
  "task_env \<Rightarrow> go_time \<Rightarrow> chan_error list \<Rightarrow> chan_error list \<Rightarrow> MeterReportStatus \<Rightarrow> MeterReportStatus" where
  "errored_mutation T now errorList warningList m =
     set_errors T errorList warningList
       (m\<lparr>msConditions := fst (SetCondition now ReportConditionJobErrored (msConditions m))\<rparr>)"

definition upload_archive ::
  "task_env \<Rightarrow> string \<Rightarrow> (string \<times> bytes) list \<Rightarrow> upload_state \<Rightarrow> upload_state \<times> Condition \<times> UploadDetailConditions" where
  "upload_archive T fileName archive s =
     (if \<not> tkUpload T then (s, ReportConditionStorageStatusUnknown, [])
      else
        (case tkOpen T fileName of
           Some err \<Rightarrow>
             (s, ReportConditionStorageStatusErrored\<lparr>cMessage := error_string err\<rparr>,
              [\<lparr>udTarget = tkUploaderName T, udID = [], udStatus = UploadStatusFailure, udError = error_string err\<rparr>])
         | None \<Rightarrow>
             (case tkUploadFile T (usHistory s) (tkReportName T, tkReportNamespace T) fileName (tkEncode T archive) of
                (i, Some err) \<Rightarrow>
                  (record_action (ReportSendFailed (tkUploaderName T) fileName) s,
                   ReportConditionStorageStatusErrored\<lparr>cMessage := error_string err\<rparr>,
                   [\<lparr>udTarget = tkUploaderName T, udID = i, udStatus = UploadStatusFailure, udError = error_string err\<rparr>])
              | (i, None) \<Rightarrow>
                  (record_action (ReportSent (tkUploaderName T) fileName (tkEncode T archive) i) s,
                   ReportConditionStorageStatusFinished,
                   [\<lparr>udTarget = tkUploaderName T, udID = i, udStatus = UploadStatusSuccess, udError = []\<rparr>]))))"

definition stored_mutation ::
  "task_env \<Rightarrow> go_time \<Rightarrow> nat \<Rightarrow> Condition \<Rightarrow> UploadDetailConditions \<Rightarrow> chan_error list \<Rightarrow> chan_error list \<Rightarrow>
     MeterReportStatus \<Rightarrow> MeterReportStatus" where
  "stored_mutation T now n uploadCondition uploadStatuses errorList warningList m =
     (let m1 = set_errors T errorList warningList
            (m\<lparr>msUploadStatus := uploads_Append (msUploadStatus m) uploadStatuses,
               msMetricUploadCount := Some (int n)\<rparr>);
          m2 = m1\<lparr>msConditions := fst (SetCondition now uploadCondition (msConditions m1))\<rparr>
      in case uploads_Get uploadStatuses data_service_target of
           None \<Rightarrow> m2
         | Some d \<Rightarrow> m2\<lparr>msDataServiceStatus := Some d\<rparr>)"

text \<open>What a task does once it has collected.\<close>

definition report_collected ::
  "task_env \<Rightarrow> upload_env \<Rightarrow> 'e collect_env_scheme \<Rightarrow> bool \<Rightarrow> schema \<Rightarrow> string \<Rightarrow> results \<Rightarrow> chan_error list \<Rightarrow>
     chan_error list \<Rightarrow> upload_state \<Rightarrow> upload_state \<times> go_error option" where
  "report_collected T E C runLocal schema uuid metrics errorList warningList s =
     (if errorList \<noteq> [] \<and> card (dom metrics) = 0 then
        (case updateMeterReportStatus E (tkReportName T) (errored_mutation T (ueNow E) errorList warningList) s of
           (s', err) \<Rightarrow> (s', map_option (wrap ''failure to query metrics'') err))
      else
        (case tkParseUUID T uuid of
           None \<Rightarrow> (s, Some (Panic ''uuid: Parse''))
         | Some reportID \<Rightarrow>
             (case reporter_WriteReport T C schema reportID metrics of
                (written, Inl err) \<Rightarrow> (s, Some (wrap ''error writing report'' err))
              | (written, Inr []) \<Rightarrow> (s, Some (Panic ''index out of range''))
              | (written, Inr (file0 # _)) \<Rightarrow>
                  (let dirpath = filepath_Dir file0;
                       fileName = dirpath @ ''/../upload-'' @ reportID @ ''.tar.gz''
                   in case TargzFolder T written dirpath fileName of
                        Inl err \<Rightarrow> (s, Some (wrap ''error creating tar.gz'' err))
                      | Inr archive \<Rightarrow>
                          (let (s1, uploadCondition, uploadStatuses) = upload_archive T fileName archive s;
                               s2 = (if runLocal then s1
                                     else fst (updateMeterReportStatus E (tkReportName T)
                                       (stored_mutation T (ueNow E) (card (dom metrics)) uploadCondition uploadStatuses
                                         errorList warningList) s1))
                           in (s2, if errorList \<noteq> [] then Some (combine (map (\<lambda>e. Err (chText e)) errorList))
                                   else None))))))"

text \<open>The collection a reporter runs on what was gathered for it.\<close>

definition reporter_env :: "'e collect_env_scheme \<Rightarrow> reporter_inputs \<Rightarrow> 'e collect_env_scheme" where
  "reporter_env C inp = C\<lparr>ceConfig := niConfig inp, ceK8sResources := map ABytes (niResources inp)\<rparr>"

definition report ::
  "task_env \<Rightarrow> upload_env \<Rightarrow> new_env \<Rightarrow> collect_env \<Rightarrow> (query_set \<Rightarrow> (string \<times> string) list) \<Rightarrow> spec_state \<Rightarrow>
     upload_state \<Rightarrow> upload_state \<Rightarrow> go_error option \<Rightarrow> bool" where
  "report T E N C order sp s s' err \<longleftrightarrow>
     (case snd (NewReporter N sp) of
        Inl e \<Rightarrow> s' = s \<and> err = Some e
      | Inr inp \<Rightarrow>
          (\<exists>metrics errorList warningList.
             CollectMetrics (reporter_env C inp) order (niReferences inp) metrics errorList warningList \<and>
             (s', err) = report_collected T E (reporter_env C inp) (tcLocal (neTask N)) (niSchema inp) (niUUID inp)
               metrics errorList warningList s))"

section \<open>The job\<close>

text \<open>A panic in a task ends the job.\<close>

fun run_tasks ::
  "(string \<Rightarrow> upload_state \<Rightarrow> upload_state \<Rightarrow> go_error option \<Rightarrow> bool) \<Rightarrow> MeterReport list \<Rightarrow> upload_state \<Rightarrow>
     upload_state \<Rightarrow> go_error list \<Rightarrow> bool" where
  "run_tasks task [] s s' errs \<longleftrightarrow> s' = s \<and> errs = []"
| "run_tasks task (r # rs) s s' errs \<longleftrightarrow>
     (\<exists>s1 err. task (mrName r) s s1 err \<and>
        (case err of
           None \<Rightarrow> run_tasks task rs s1 s' errs
         | Some (Panic m) \<Rightarrow> s' = s1 \<and> errs = [Panic m]
         | Some (Err m) \<Rightarrow> (\<exists>errs'. run_tasks task rs s1 s' errs' \<and> errs = Err m # errs')))"

text \<open>\<open>newTask\<close> is the error of creating the task of a report.\<close>

definition ReportTask_run ::
  "(string \<Rightarrow> go_error option) \<Rightarrow> (string \<Rightarrow> upload_state \<Rightarrow> upload_state \<Rightarrow> go_error option \<Rightarrow> bool) \<Rightarrow> string \<Rightarrow>
     upload_state \<Rightarrow> upload_state \<Rightarrow> go_error option \<Rightarrow> bool" where
  "ReportTask_run newTask task name s s' err \<longleftrightarrow>
     (case newTask name of
        Some e \<Rightarrow> s' = s \<and> err = Some e
      | None \<Rightarrow> task name s s' err)"

definition reconcile_report ::
  "go_time \<Rightarrow> (string \<Rightarrow> go_error option) \<Rightarrow> (string \<Rightarrow> upload_state \<Rightarrow> upload_state \<Rightarrow> go_error option \<Rightarrow> bool) \<Rightarrow>
     MeterReport list result \<Rightarrow> upload_state \<Rightarrow> upload_state \<Rightarrow> go_error list \<Rightarrow> bool" where
  "reconcile_report now newTask task listing s s' errs \<longleftrightarrow>
     (case listing of
        Inl err \<Rightarrow> s' = s \<and> errs = [err]
      | Inr items \<Rightarrow> run_tasks (ReportTask_run newTask task) (filter (CanRunReportTask now) items) s s' errs)"

definition reconcile_Run ::
  "upload_env \<Rightarrow> nat \<Rightarrow> (string \<Rightarrow> go_error option) \<Rightarrow>
     (string \<Rightarrow> upload_state \<Rightarrow> upload_state \<Rightarrow> go_error option \<Rightarrow> bool) \<Rightarrow>
     (upload_state \<Rightarrow> MeterReport list result) \<Rightarrow> go_error option \<Rightarrow> upload_state \<Rightarrow> upload_state \<Rightarrow> go_error option \<Rightarrow> bool" where
  "reconcile_Run E k newTask task list_reports newUpload s s' err \<longleftrightarrow>
     (\<exists>s1 reportErrs. reconcile_report (ueNow E) newTask task (list_reports s) s s1 reportErrs \<and>
        (if \<exists>m. Panic m \<in> set reportErrs then s' = s1 \<and> err = Some (last reportErrs)
         else \<exists>uploadErrs. reconcile_upload E k (list_reports s1) newUpload s1 = (s', Some uploadErrs) \<and>
                err = (if reportErrs @ uploadErrs = [] then None else Some (combine (reportErrs @ uploadErrs)))))"

section \<open>A failed collection\<close>

lemma set_errors_simps [simp]:
  "msConditions (set_errors T es ws m) = msConditions m"
  "msUploadStatus (set_errors T es ws m) = msUploadStatus m"
  "msMetricUploadCount (set_errors T es ws m) = msMetricUploadCount m"
  "msRetryUpload (set_errors T es ws m) = msRetryUpload m"
  "msDataServiceStatus (set_errors T es ws m) = msDataServiceStatus m"
  "msErrors (set_errors T es ws m) = map (FromError T) es"
  "msWarnings (set_errors T es ws m) = map (FromError T) ws"
  by (simp_all add: set_errors_def)

lemma updateMeterReportStatus_ok:
  assumes "usReports s name = Some r" "ueUpdateStatus E (usHistory s) name = None"
  shows "updateMeterReportStatus E name f s =
     (record_action (StatusWritten name (f (mrStatus r)))
        (s\<lparr>usReports := (usReports s)(name \<mapsto> r\<lparr>mrStatus := f (mrStatus r)\<rparr>)\<rparr>), None)"
  using assms by (simp add: updateMeterReportStatus_def Let_def)

text \<open>
  A collection that fails altogether is reported as a success: when there are errors and
  nothing was collected, and the status of the report can be written, the task returns no
  error. The errors are in the status with the errored condition, nothing is sent, and the
  report may be run again exactly when it could before.
\<close>

theorem failed_collection_returns_nil:
  assumes "errorList \<noteq> []" "dom metrics = {}" "usReports s (tkReportName T) = Some r"
    and "ueUpdateStatus E (usHistory s) (tkReportName T) = None"
  shows "\<exists>s' r'. report_collected T E C runLocal schema uuid metrics errorList warningList s = (s', None) \<and>
     usReports s' (tkReportName T) = Some r' \<and> usHistory s' = usHistory s @ [StatusWritten (tkReportName T) (mrStatus r')] \<and>
     msErrors (mrStatus r') = map (FromError T) errorList \<and> msWarnings (mrStatus r') = map (FromError T) warningList \<and>
     map_option cReason (GetCondition (msConditions (mrStatus r')) ''JobRunning'') = Some ''Errored'' \<and>
     (\<forall>now. CanRunReportTask now r' = CanRunReportTask now r)"
proof -
  let ?st = "errored_mutation T (ueNow E) errorList warningList (mrStatus r)"
  have "map_option cReason (GetCondition (msConditions ?st) ''JobRunning'') = Some ''Errored''"
    by (simp add: errored_mutation_def SetCondition_def set_loop_get ReportConditionJobErrored_def
        split: option.split)
  moreover have "CanRunReportTask now (r\<lparr>mrStatus := ?st\<rparr>) = CanRunReportTask now r" for now
    by (simp add: CanRunReportTask_def errored_mutation_def Let_def)
  ultimately show ?thesis
    using updateMeterReportStatus_ok [OF assms(3,4)] assms(1,2)
    by (simp add: report_collected_def record_action_def errored_mutation_def)
qed

section \<open>A report that was stored\<close>

text \<open>What a task did when it sent something.\<close>

lemma upload_archive_sent:
  assumes "upload_archive T f archive s = (s1, cond, sts)"
  shows "usReports s1 = usReports s"
    and "ReportSent t g data i \<in> set (usHistory s1) \<Longrightarrow> ReportSent t g data i \<notin> set (usHistory s) \<Longrightarrow>
      t = tkUploaderName T \<and> g = f \<and> data = tkEncode T archive \<and>
      sts = [\<lparr>udTarget = t, udID = i, udStatus = UploadStatusSuccess, udError = []\<rparr>] \<and>
      cond = ReportConditionStorageStatusFinished"
  using assms by (auto simp: upload_archive_def record_action_def split: if_splits option.splits prod.splits)

lemma updateMeterReportStatus_history:
  "ReportSent t f data i \<in> set (usHistory (fst (updateMeterReportStatus E name g s))) \<longleftrightarrow>
     ReportSent t f data i \<in> set (usHistory s)"
  by (auto simp: updateMeterReportStatus_def record_action_def Let_def split: option.splits)

lemma report_collected_sent:
  assumes "report_collected T E C runLocal schema uuid metrics errs warns s = (s', err)"
    and "ReportSent t f data i \<in> set (usHistory s')" "ReportSent t f data i \<notin> set (usHistory s)"
  obtains reportID written files archive s1 where
    "tkParseUUID T uuid = Some reportID"
    "reporter_WriteReport T C schema reportID metrics = (written, Inr files)" "files \<noteq> []"
    "TargzFolder T written (filepath_Dir (hd files)) f = Inr archive"
    "t = tkUploaderName T" "data = tkEncode T archive" "usReports s1 = usReports s"
    "s' = (if runLocal then s1 else fst (updateMeterReportStatus E (tkReportName T)
       (stored_mutation T (ueNow E) (card (dom metrics)) ReportConditionStorageStatusFinished
         [\<lparr>udTarget = t, udID = i, udStatus = UploadStatusSuccess, udError = []\<rparr>] errs warns) s1))"
proof -
  have branch: "\<not> (errs \<noteq> [] \<and> card (dom metrics) = 0)"
  proof
    assume "errs \<noteq> [] \<and> card (dom metrics) = 0"
    then have "s' = fst (updateMeterReportStatus E (tkReportName T) (errored_mutation T (ueNow E) errs warns) s)"
      using assms(1) by (simp add: report_collected_def split: prod.splits)
    then show False using assms(2,3) by (simp add: updateMeterReportStatus_history)
  qed
  obtain reportID where id: "tkParseUUID T uuid = Some reportID"
    using assms branch by (cases "tkParseUUID T uuid") (auto simp: report_collected_def)
  obtain written file0 rest where w: "reporter_WriteReport T C schema reportID metrics = (written, Inr (file0 # rest))"
    using assms branch id by (auto simp: report_collected_def split: prod.splits sum.splits list.splits)
  let ?f = "filepath_Dir file0 @ ''/../upload-'' @ reportID @ ''.tar.gz''"
  obtain archive where a: "TargzFolder T written (filepath_Dir file0) ?f = Inr archive"
    using assms branch id w by (auto simp: report_collected_def Let_def split: sum.splits)
  obtain s1 cond sts where u: "upload_archive T ?f archive s = (s1, cond, sts)" using prod_cases3 by blast
  have s': "s' = (if runLocal then s1 else fst (updateMeterReportStatus E (tkReportName T)
       (stored_mutation T (ueNow E) (card (dom metrics)) cond sts errs warns) s1))"
    using assms(1) branch id w a u by (auto simp: report_collected_def Let_def split: if_splits)
  then have "ReportSent t f data i \<in> set (usHistory s1)"
    using assms(2) by (auto simp: updateMeterReportStatus_history split: if_splits)
  note sent = upload_archive_sent(2) [OF u this assms(3)]
  show ?thesis using that [OF id w _ _ _ _ upload_archive_sent(1) [OF u]] a s' sent by auto
qed

lemma stored_mutation_status:
  assumes "d = \<lparr>udTarget = data_service_target, udID = i, udStatus = UploadStatusSuccess, udError = []\<rparr>"
    and "m' = stored_mutation T now n cond [d] errs warns m"
  shows "msDataServiceStatus m' = Some d" "msMetricUploadCount m' = Some (int n)" "msRetryUpload m' = msRetryUpload m"
    "msUploadStatus m' = uploads_Set d (msUploadStatus m)"
  using assms by (simp_all add: stored_mutation_def Let_def)

text \<open>
  C22: A report that reached the data service is generated no more and goes on to the upload: when
  a task sent its report there and the status could be written, the report is marked stored
  under the id it was given, it is not selected for another task, and, if anything was
  collected, it is connected, due, has attempts left and was not uploaded before, the
  upload step selects it.
\<close>

theorem stored_report_moves_on:
  assumes "report_collected T E C False schema uuid metrics errs warns s = (s', err)"
    and "ReportSent t f data i \<in> set (usHistory s')" "ReportSent t f data i \<notin> set (usHistory s)"
    and "tkUploaderName T = data_service_target" "usReports s (tkReportName T) = Some r"
    and "\<forall>h. ueUpdateStatus E h (tkReportName T) = None"
  shows "\<exists>r'. usReports s' (tkReportName T) = Some r' \<and> IsStored (mrStatus r') \<and>
     map_option udID (msDataServiceStatus (mrStatus r')) = Some i \<and> (\<forall>now. \<not> CanRunReportTask now r') \<and>
     (finite (dom metrics) \<longrightarrow> dom metrics \<noteq> {} \<longrightarrow> i \<noteq> [] \<longrightarrow> \<not> ueIsDisconnected E \<longrightarrow> mrEndTime r \<le> ueNow E \<longrightarrow>
      msRetryUpload (mrStatus r) < ueMaxUploadAttempts E \<longrightarrow>
      \<not> OneSuccessOf (msUploadStatus (mrStatus r)) required_targets \<longrightarrow> snd (CanRunUploadReportTask E r'))"
proof -
  let ?d = "\<lparr>udTarget = data_service_target, udID = i, udStatus = UploadStatusSuccess, udError = []\<rparr>"
  let ?mut = "stored_mutation T (ueNow E) (card (dom metrics)) ReportConditionStorageStatusFinished [?d] errs warns"
  obtain s1 where s1: "usReports s1 = usReports s" and
    s': "s' = fst (updateMeterReportStatus E (tkReportName T) ?mut s1)"
    using report_collected_sent [OF assms(1-3)] assms(4) by metis
  note m = stored_mutation_status [OF refl refl, of T "ueNow E" "card (dom metrics)" ReportConditionStorageStatusFinished i errs warns "mrStatus r"]
  have st: "IsStored (?mut (mrStatus r))"
    by (simp add: IsStored_def stored_mutation_def Let_def SetCondition_def set_loop_get IsTrue_def
        ReportConditionStorageStatusFinished_def storage_condition_def split: option.split)
  have one: "OneSuccessOf (uploads_Set ?d u) required_targets = OneSuccessOf u required_targets" for u
    by (auto simp: OneSuccessOf_iff uploads_Get_Set required_targets_def data_service_target_def)
  have "usReports s' (tkReportName T) = Some (r\<lparr>mrStatus := ?mut (mrStatus r)\<rparr>)"
    using updateMeterReportStatus_ok [of s1 "tkReportName T" r E ?mut] s1 s' assms(5,6) by (simp add: record_action_def)
  moreover have "\<not> CanRunReportTask now (r\<lparr>mrStatus := ?mut (mrStatus r)\<rparr>)" for now
    using m by (simp add: CanRunReportTask_def Success_def Let_def)
  ultimately show ?thesis
    using m st one by (auto simp: CanRunUploadReportTask_def Success_def Let_def)
qed

section \<open>From the samples to what is sent\<close>

lemma tar_file_regular:
  "tar_file src e = Inr fs \<Longrightarrow>
     fs = (if wkRegular e then [(header_name src (wkPath e), projr (wkContent e))] else []) \<and>
     (wkRegular e \<longrightarrow> \<not> is_err (wkContent e))"
  by (auto simp: tar_file_def split: option.splits if_splits sum.splits)

lemma tar_walk_regular:
  "tar_walk src es = Inr archive \<Longrightarrow>
     archive = map (\<lambda>e. (header_name src (wkPath e), projr (wkContent e))) (filter wkRegular es)"
proof (induction es arbitrary: archive)
  case (Cons e es)
  obtain fs rest where "tar_file src e = Inr fs" "tar_walk src es = Inr rest" "archive = fs @ rest"
    using Cons.prems by (auto split: sum.splits)
  with Cons.IH tar_file_regular [of src e fs] show ?case by auto
qed simp

text \<open>The walk over the directory of a report finds exactly the files written to it.\<close>

definition walk_faithful :: "task_env \<Rightarrow> bool" where
  "walk_faithful T \<longleftrightarrow>
     (\<forall>written. written \<noteq> [] \<longrightarrow>
        image_mset (\<lambda>e. (wkPath e, wkContent e)) (mset (filter wkRegular (tkWalk T written (filepath_Dir (fst (hd written)))))) =
        image_mset (\<lambda>(f, c). (f, Inr c)) (mset written))"

lemma archive_of_written:
  assumes "TargzFolder T written (filepath_Dir (fst (hd written))) f = Inr archive" "walk_faithful T" "written \<noteq> []"
  shows "mset archive = image_mset (\<lambda>(g, c). (header_name (filepath_Dir (fst (hd written))) g, c)) (mset written)"
proof -
  let ?d = "filepath_Dir (fst (hd written))"
  let ?h = "\<lambda>(p, c :: bytes result). (header_name ?d p, projr c)"
  have "archive = map (\<lambda>e. (header_name ?d (wkPath e), projr (wkContent e))) (filter wkRegular (tkWalk T written ?d))"
    using assms(1) by (auto simp: TargzFolder_def Tar_def tar_walk_regular split: option.splits)
  then have "mset archive = image_mset ?h (image_mset (\<lambda>e. (wkPath e, wkContent e)) (mset (filter wkRegular (tkWalk T written ?d))))"
    by (simp add: multiset.map_comp comp_def)
  also have "\<dots> = image_mset ?h (image_mset (\<lambda>(f, c). (f, Inr c)) (mset written))"
    using assms(2) [unfolded walk_faithful_def, rule_format, OF assms(3)] by (rule arg_cong)
  finally show ?thesis by (simp add: multiset.map_comp comp_def case_prod_unfold)
qed

lemma WriteReport_files:
  assumes "WriteReport W build meta mtype source metrics order out psize = (written, Inr (files, errs))"
  shows "files = map fst written \<and> written \<noteq> []"
  using assms by (auto simp: WriteReport_def Let_def split: mkdir_result.splits prod.splits sum.splits option.splits)

text \<open>
  C4: What is sent is what was measured. When a task that writes the v3alpha1 schema sends a
  report, the archive it sends holds, besides one index, the encoded slices of the report, and
  whatever the interleaving of the collection the usage entries in them match one to one the
  records of the samples that the queries of the task were answered with and that could be
  processed: each entry has the metric, the parsed value, the namespace labels, the
  properties and the resources of its record, and the cluster of the configuration. A sample
  whose labels cannot be processed has no record and is an error of the collection.
\<close>

theorem sent_report_covers_samples:
  assumes "report T E N C order sp s s' err" "snd (NewReporter N sp) = Inr inp" "niSchema inp = V3alpha1"
    and "ReportSent t f data i \<in> set (usHistory s')" "ReportSent t f data i \<notin> set (usHistory s)"
    and "ProduceMeterDefinitions (reporter_env C inp) order (niReferences inp) = Inr qs"
    and "partition_ok (tkV3 T)" "tkMetricsPerFile T > 0"
    and "\<forall>R. finite (dom R) \<longrightarrow> distinct (tkOrder T R) \<and> set (tkOrder T R) = dom R" and "walk_faithful T"
  shows "\<exists>archive slices contents index. data = tkEncode T archive \<and>
     list_all2 (\<lambda>sl c. weMarshal (tkV3 T) sl = Inr c) slices contents \<and>
     mset (map snd archive) = mset (contents @ [index]) \<and>
     rel_mset (v3_entry_of (reporter_env C inp) (mkClusterUUID (ceConfig (reporter_env C inp))))
       (\<Sum>q \<in># mset qs. query_records (reporter_env C inp) q)
       (mset (concat (map d3MeasuredUsage (concat (map slMetrics slices)))))"
proof -
  let ?C = "reporter_env C inp"
  obtain R errs warns where c: "CollectMetrics ?C order (niReferences inp) R errs warns"
    and rc: "report_collected T E ?C (tcLocal (neTask N)) V3alpha1 (niUUID inp) R errs warns s = (s', err)"
    using assms(1-3) unfolding report_def by auto
  obtain reportID written files archive where
    w: "reporter_WriteReport T ?C V3alpha1 reportID R = (written, Inr files)" and
    a: "TargzFolder T written (filepath_Dir (hd files)) f = Inr archive" and d: "data = tkEncode T archive"
    using report_collected_sent [OF rc assms(4,5)] by metis
  have v3: "v3_WriteReport ?C (tkV3 T) (ceConfig ?C) (tkVersion T) reportID R (tkOrder T R) (tkOutputDirectory T)
      (tkMetricsPerFile T) = (written, Inr (files, []))"
    using w by (auto simp: reporter_WriteReport_def with_errors_def split: prod.splits sum.splits if_splits)
  have "finite (dom R)" using CollectMetrics_held [OF assms(6) c] by (simp add: grouped_def)
  with assms(9) have o: "distinct (tkOrder T R)" "set (tkOrder T R) = dom R" by blast+
  obtain slices contents index where sl: "list_all2 (\<lambda>sl c. weMarshal (tkV3 T) sl = Inr c) slices contents"
    "map snd written = contents @ [index]"
    "rel_mset (v3_entry_of ?C (mkClusterUUID (ceConfig ?C))) (\<Sum>q \<in># mset qs. query_records ?C q)
       (mset (concat (map d3MeasuredUsage (concat (map slMetrics slices)))))"
    using written_covers_samples [OF assms(6) c assms(7,8) o v3] by blast
  have fw: "files = map fst written" "written \<noteq> []" using v3 WriteReport_files unfolding v3_WriteReport_def by blast+
  then have "mset archive = image_mset (\<lambda>(g, c). (header_name (filepath_Dir (fst (hd written))) g, c)) (mset written)"
    using a assms(10) by (intro archive_of_written) (simp_all add: hd_map)
  then have "mset (map snd archive) = mset (map snd written)"
    by (simp add: multiset.map_comp comp_def case_prod_unfold)
  with sl d show ?thesis by metis
qed

section \<open>A collection whose queries are answered\<close>

text \<open>Every query to Prometheus is answered with a matrix.\<close>

definition always_matrix :: "'e collect_env_scheme \<Rightarrow> bool" where
  "always_matrix E \<longleftrightarrow> (\<forall>n str a b c. \<exists>ms. peQueryRange E n str a b c = Inr (ValMatrix ms))"

lemma kvToMap_pairs: "\<exists>kv. kvToMap (getAllKeysFromMetric m order) = Inr kv"
proof -
  have "getAllKeysFromMetric m order = getAllKeysFromMetric (\<lambda>k. if k \<in> set order then Some (the (m k)) else None) order"
    by (auto simp: getAllKeysFromMetric_def intro!: arg_cong [where f = concat])
  moreover have "set order = dom (\<lambda>k. if k \<in> set order then Some (the (m k)) else None)" by (auto simp: dom_def)
  ultimately show ?thesis using kvToMap_metric by metis
qed

lemma getNamespaceLabels_Inr:
  assumes "orders_ok E" "answers_finite E" "always_matrix E"
  shows "\<exists>l. getNamespaceLabels E tag ns = Inr l"
proof -
  obtain ms where ms: "peQueryRange E tag (namespaceLabelsQueryText ns) (ceStartTime E) (ceEndTime E - 1) hour = Inr (ValMatrix ms)"
    using assms(3) unfolding always_matrix_def by blast
  then have "\<forall>m \<in> set ms. finite (dom (ssMetric m))" using assms(2) unfolding answers_finite_def by blast
  with namespace_loop_no_panic [OF assms(1)] ms show ?thesis
    by (fastforce simp: getNamespaceLabels_def Retry_def QueryNamespaceLabels_def answer_def)
qed

lemma process_pair_warns:
  assumes "orders_ok E" "answers_finite E" "always_matrix E" "process_pair E x = Reported err"
  shows "chCause err = WarningPrintTemplate"
proof -
  obtain kv where "kvToMap (getAllKeysFromMetric (saMetric x) (ceMetricOrder E (saMetric x))) = Inr kv"
    using kvToMap_pairs by blast
  moreover have "add_namespaces E x r \<noteq> Reported err" for r
    using getNamespaceLabels_Inr [OF assms(1-3), of "ceTag E x" "[label_namespace (urLabels r)]"]
    by (auto simp: add_namespaces_def Let_def)
  ultimately show ?thesis
    using assms(4) by (auto simp: process_pair_def Let_def split: sum.splits go_error.splits prod.splits)
qed

lemma query_one_matrix:
  assumes "always_matrix E" "settled (mqQuery q)"
  shows "\<exists>ms. query_one E q = Inr (ValMatrix ms)"
proof -
  obtain nm fs where "meter_name (pqType (mqQuery q)) = Some (nm, fs)"
    using assms(2) by (cases "meter_name (pqType (mqQuery q))") (auto simp: settled_def supported_def meter_name_def split: if_splits)
  from GetQueryArgs_settled [OF assms(2) this] obtain q' str where p: "query_Print E (mqQuery q) = Inr (q', str)"
    by (simp add: query_Print_def)
  obtain ms where "peQueryRange E 0 str (pqStart (mqQuery q)) (pqEnd (mqQuery q) - 1) (pqStep (mqQuery q)) = Inr (ValMatrix ms)"
    using assms(1) unfolding always_matrix_def by blast
  with p show ?thesis by (simp add: query_one_def Retry_def ReportQuery_def answer_def)
qed

lemma collect_warnings_only:
  assumes "orders_ok E" "answers_finite E" "always_matrix E" "\<forall>q \<in> set qs. settled (mqQuery q)"
    and "collect_steps E (collect_init (Inr qs)) s"
  shows "(\<forall>q \<in># csQueries s. settled (mqQuery q)) \<and> (\<forall>m \<in># csModels s. \<exists>ms. snd m = ValMatrix ms) \<and>
     csProducer s = {#} \<and> (\<forall>e \<in> set (csErrors s). chCause e = WarningPrintTemplate)"
  using assms(5)
proof (induction rule: rtranclp_induct)
  case base
  then show ?case using assms(4) by (simp add: collect_init_def)
next
  case (step s t)
  from step.hyps(2) show ?case
  proof (cases rule: collect_step.cases)
    case (query_answered q Q v)
    then show ?thesis using step.IH query_one_matrix [OF assms(3), of q] by auto
  next
    case (query_failed q Q err)
    then show ?thesis using step.IH query_one_matrix [OF assms(3), of q] by auto
  next
    case (sample_reported x xs W err)
    then show ?thesis using step.IH process_pair_warns [OF assms(1-3)] by auto
  qed (use step.IH in auto)
qed

lemma collect_errors_warnings:
  "(\<forall>e \<in> set es. chCause e = WarningPrintTemplate) \<Longrightarrow> fst (collect_errors es occ) = []"
  by (induction es arbitrary: occ) (simp_all add: split_beta)

lemma CollectMetrics_no_errors:
  assumes "orders_ok E" "answers_finite E" "always_matrix E" "\<forall>q \<in> set qs. settled (mqQuery q)"
    and "ProduceMeterDefinitions E order refs = Inr qs" "CollectMetrics E order refs R errs warns"
  shows "errs = []"
proof -
  obtain s where "collect_steps E (collect_init (Inr qs)) s" "(errs, warns) = collect_errors (csErrors s) {}"
    using assms(5,6) by (auto simp: CollectMetrics_def)
  with collect_warnings_only [OF assms(1-4)] collect_errors_warnings [of "csErrors s" "{}"] show ?thesis
    by (metis fst_conv)
qed

section \<open>Concrete tasks\<close>

definition demo_task :: task_env where
  "demo_task =
     \<lparr>tkReportName = ''r'', tkReportNamespace = ''ns'', tkUpload = True, tkParseUUID = Some, tkV1 = demo_write,
      tkV2 = demo_write, tkV3 = demo_write, tkVersion = ''2'', tkOutputDirectory = ''out'', tkMetricsPerFile = 10,
      tkOrder = (\<lambda>R. sorted_list_of_set (dom R)), tkCreate = (\<lambda>_. None), tkStat = (\<lambda>_. None),
      tkWalk = (\<lambda>written d. map (\<lambda>(f, c). \<lparr>wkPath = f, wkError = None, wkRegular = True, wkHeader = None,
        wkWriteHeader = None, wkOpen = None, wkContent = Inr c\<rparr>) written),
      tkEncode = (\<lambda>archive. concat (map snd archive)), tkOpen = (\<lambda>_. None), tkUploaderName = ''data-service'',
      tkUploadFile = (\<lambda>_ _ _ _. (''7'', None)), tkDetails = (\<lambda>_. [])\<rparr>"

definition demo_new :: new_env where
  "demo_new =
     \<lparr>neRetry = demo_retry 4 is_conflict, neApi = demo_api, neConfig = Inr demo_mkt,
      neTask = \<lparr>tcLocal = False, tcPrometheusService = ''p'', tcPrometheusNamespace = ''m'', tcPrometheusPort = ''web'',
        tcCaFile = [], tcTokenFile = []\<rparr>,
      neService = (\<lambda>n m. Inr \<lparr>svName = n, svNamespace = m, svPorts = [\<lparr>spName = ''web'', spPort = 9090\<rparr>]\<rparr>),
      nePrometheus = (\<lambda>_. None), neCluster = demo_cluster ANil, neSchema = ''v3alpha1''\<rparr>"

definition demo_inputs :: reporter_inputs where
  "demo_inputs = \<lparr>niUUID = ''id'', niReferences = [demo_ref], niConfig = demo_mkt,
     niResources = replicate 3 ''{}'', niSchema = V3alpha1\<rparr>"

definition demo_due :: MeterReport where
  "demo_due = demo_report\<lparr>mrStatus := (mrStatus demo_report)\<lparr>msDataServiceStatus := None\<rparr>\<rparr>"

abbreviation demo_before :: upload_state where
  "demo_before \<equiv> \<lparr>usReports = [''r'' \<mapsto> demo_due], usHistory = []\<rparr>"

theorem failed_collection_returns_nil_witness:
  "\<exists>s'. report_collected demo_task demo_uploads demo_collect False V3alpha1 ''id'' Map.empty
     [ChanError ''x'' ''x''] [] demo_before = (s', None)"
proof -
  have "[ChanError ''x'' ''x''] \<noteq> []" "dom (Map.empty :: results) = {}"
    "usReports demo_before (tkReportName demo_task) = Some demo_due"
    "ueUpdateStatus demo_uploads (usHistory demo_before) (tkReportName demo_task) = None"
    by (simp_all add: demo_task_def demo_uploads_def)
  from failed_collection_returns_nil [OF this] show ?thesis by blast
qed

lemma demo_NewReporter: "snd (NewReporter demo_new demo_state) = Inr demo_inputs"
proof -
  have cluster: "getK8sInfrastructureResources (demo_cluster ANil) = (replicate 3 ''{}'', None)"
    by (simp add: getK8sInfrastructureResources_def demo_cluster_def encode_object_def numeral_eq_Suc)
  have ps: "\<exists>setup. prometheus_setup (neTask demo_new) (neService demo_new) = Inr setup"
    by (simp add: prometheus_setup_iff demo_new_def)
  obtain s1 where s1: "getMarketplaceReport (demo_retry 4 is_conflict) demo_api demo_state = (s1, None)"
    "mpReportUUID (ssLocal s1) = ''id''" "mpReferences (ssLocal s1) = [demo_ref\<lparr>refSpec := None\<rparr>]" "ssUpdates s1 = 2"
    by (simp add: getMarketplaceReport_def numeral_eq_Suc uuid_attempt_def demo_api_def demo_state_def client_Update_def Let_def)
  then obtain s2 where "getMeterDefinitionReferences (demo_retry 4 is_conflict) demo_api s1 = (s2, [demo_ref], None)"
    "mpReportUUID (ssLocal s2) = ''id''"
    by (auto simp: getMeterDefinitionReferences_def numeral_eq_Suc references_attempt_def demo_api_def
        client_Update_def demo_ref_def)
  with s1 ps cluster show ?thesis
    by (auto simp: NewReporter_def demo_new_def demo_inputs_def ProvideDataBuilder_def ProvideWriter_def)
qed

lemma demo_reporter_env: "reporter_env demo_collect demo_inputs = demo_collect"
  by (simp add: reporter_env_def demo_inputs_def demo_collect_simps demo_resources_def)

lemma demo_task_sel [simp]:
  "tkV3 demo_task = demo_write" "tkMetricsPerFile demo_task = 10" "tkOrder demo_task R = sorted_list_of_set (dom R)"
  "tkReportName demo_task = ''r''" "tkVersion demo_task = ''2''" "tkOutputDirectory demo_task = ''out''"
  "tkUploaderName demo_task = data_service_target"
  by (simp_all add: demo_task_def data_service_target_def)

lemma demo_walk_faithful: "walk_faithful demo_task"
  by (simp add: walk_faithful_def demo_task_def multiset.map_comp comp_def case_prod_unfold flip: mset_map)

lemma demo_always_matrix: "always_matrix demo_collect"
  by (simp add: always_matrix_def demo_answers_def)

lemma NewPromQueryFromLabels_settled: "NewPromQueryFromLabels m a b = Inr q \<Longrightarrow> settled q"
  by (auto simp: NewPromQueryFromLabels_def settled_def NewPromQuery_Inr split: if_splits)

lemma demo_query_settled:
  assumes "ProduceMeterDefinitions demo_collect demo_order [demo_ref] = Inr [q]"
  shows "settled (mqQuery q)"
proof -
  have b: "buildPromQuery E l a b = Inr r \<Longrightarrow> settled (mqQuery r)" for E :: "'e prom_env_scheme" and l a b r
    by (auto simp: buildPromQuery_def NewPromQueryFromLabels_settled split: sum.splits)
  show ?thesis using assms
    by (auto simp: ProduceMeterDefinitions_def demo_saved add_saved_def demo_order_def demo_ref_def Let_def
        transformMeterDefinitionReference_def ref_ToPrometheusLabels_def spec_ToPrometheusLabels_def demo_spec_def
        split: sum.splits dest!: b)
qed

lemma demo_archive: "\<exists>archive. TargzFolder demo_task written d f = Inr archive"
proof -
  have "\<exists>archive. tar_walk d (tkWalk demo_task written d) = Inr archive"
    by (induction written) (auto simp: demo_task_def tar_file_def)
  moreover have "tkCreate demo_task f = None" "tkStat demo_task d = None" by (simp_all add: demo_task_def)
  ultimately show ?thesis by (simp add: TargzFolder_def Tar_def)
qed

text \<open>The concrete task sends its report.\<close>

lemma demo_sent:
  assumes q: "ProduceMeterDefinitions demo_collect demo_order [demo_ref] = Inr [q]"
    and c: "CollectMetrics demo_collect demo_order [demo_ref] R errs warns"
  shows "\<exists>s' f data. report_collected demo_task demo_uploads demo_collect False V3alpha1 ''id'' R errs warns demo_before =
     (s', None) \<and> ReportSent data_service_target f data ''7'' \<in> set (usHistory s')"
proof -
  have e: "errs = []"
    using CollectMetrics_no_errors [OF demo_collect_ok(1,2) demo_always_matrix _ q c] demo_query_settled [OF q] by simp
  obtain written files where "v3_WriteReport demo_collect (demo_write :: (v3_data MarketplaceReportSlice, ReportManifest) write_env)
     demo_mkt ''2'' ''id'' R (sorted_list_of_set (dom R)) ''out'' 10 = (written, Inr (files, []))"
    using demo_written [OF q c] by blast
  moreover from this obtain f0 fs where "files = f0 # fs"
    using WriteReport_files unfolding v3_WriteReport_def by (metis list.exhaust map_is_Nil_conv)
  ultimately have w: "reporter_WriteReport demo_task demo_collect V3alpha1 ''id'' R = (written, Inr (f0 # fs))"
    by (simp add: reporter_WriteReport_def with_errors_def)
  let ?f = "filepath_Dir f0 @ ''/../upload-'' @ ''id'' @ ''.tar.gz''"
  obtain archive where a: "TargzFolder demo_task written (filepath_Dir f0) ?f = Inr archive" using demo_archive by blast
  have "tkParseUUID demo_task ''id'' = Some ''id''" by (simp add: demo_task_def)
  moreover have "upload_archive demo_task ?f archive demo_before =
      (record_action (ReportSent data_service_target ?f (tkEncode demo_task archive) ''7'') demo_before,
       ReportConditionStorageStatusFinished,
       [\<lparr>udTarget = data_service_target, udID = ''7'', udStatus = UploadStatusSuccess, udError = []\<rparr>])"
    by (simp add: upload_archive_def demo_task_def data_service_target_def)
  ultimately show ?thesis
    using e w a by (auto simp: report_collected_def Let_def updateMeterReportStatus_history record_action_def)
qed

theorem stored_report_moves_on_witness:
  "\<exists>R errs warns s' r'. CollectMetrics demo_collect demo_order [demo_ref] R errs warns \<and>
     report_collected demo_task demo_uploads demo_collect False V3alpha1 ''id'' R errs warns demo_before = (s', None) \<and>
     usReports s' ''r'' = Some r' \<and> IsStored (mrStatus r') \<and> \<not> CanRunReportTask 10 r'"
proof -
  obtain q where q: "ProduceMeterDefinitions demo_collect demo_order [demo_ref] = Inr [q]" using demo_produced by blast
  obtain R errs warns where c: "CollectMetrics demo_collect demo_order [demo_ref] R errs warns" using demo_run by blast
  obtain s' f data where r: "report_collected demo_task demo_uploads demo_collect False V3alpha1 ''id'' R errs warns demo_before = (s', None)"
    "ReportSent data_service_target f data ''7'' \<in> set (usHistory s')" using demo_sent [OF q c] by blast
  have "usReports demo_before (tkReportName demo_task) = Some demo_due"
    "\<forall>h. ueUpdateStatus demo_uploads h (tkReportName demo_task) = None" by (simp_all add: demo_uploads_def)
  moreover have "ReportSent data_service_target f data ''7'' \<notin> set (usHistory demo_before)" by simp
  ultimately have "\<exists>r'. usReports s' ''r'' = Some r' \<and> IsStored (mrStatus r') \<and> \<not> CanRunReportTask 10 r'"
    using stored_report_moves_on [OF r _ demo_task_sel(7)] by fastforce
  with c r(1) show ?thesis by blast
qed

theorem sent_report_covers_samples_witness:
  "\<exists>s' f data q archive (slices :: v3_data MarketplaceReportSlice list).
     report demo_task demo_uploads demo_new demo_collect demo_order demo_state demo_before s' None \<and>
     ReportSent data_service_target f data ''7'' \<in> set (usHistory s') \<and> data = tkEncode demo_task archive \<and>
     rel_mset (v3_entry_of demo_collect (mkClusterUUID (ceConfig demo_collect))) (query_records demo_collect q)
       (mset (concat (map d3MeasuredUsage (concat (map slMetrics slices)))))"
proof -
  obtain q where q: "ProduceMeterDefinitions demo_collect demo_order [demo_ref] = Inr [q]" using demo_produced by blast
  obtain R errs warns where c: "CollectMetrics demo_collect demo_order [demo_ref] R errs warns" using demo_run by blast
  obtain s' f data where r: "report_collected demo_task demo_uploads demo_collect False V3alpha1 ''id'' R errs warns demo_before = (s', None)"
    and sent: "ReportSent data_service_target f data ''7'' \<in> set (usHistory s')" using demo_sent [OF q c] by blast
  have i: "niSchema demo_inputs = V3alpha1" "niReferences demo_inputs = [demo_ref]" "niUUID demo_inputs = ''id''"
    "tcLocal (neTask demo_new) = False" by (simp_all add: demo_inputs_def demo_new_def)
  have rep: "report demo_task demo_uploads demo_new demo_collect demo_order demo_state demo_before s' None"
    unfolding report_def demo_NewReporter sum.case demo_reporter_env i using c r by metis
  have "ReportSent data_service_target f data ''7'' \<notin> set (usHistory demo_before)" by simp
  moreover have "ProduceMeterDefinitions (reporter_env demo_collect demo_inputs) demo_order (niReferences demo_inputs) = Inr [q]"
    using q by (simp add: demo_reporter_env i)
  ultimately obtain archive slices where "data = tkEncode demo_task archive"
    "rel_mset (v3_entry_of demo_collect (mkClusterUUID (ceConfig demo_collect))) (query_records demo_collect q)
       (mset (concat (map d3MeasuredUsage (concat (map slMetrics (slices :: v3_data MarketplaceReportSlice list))))))"
    using sent_report_covers_samples [OF rep demo_NewReporter i(1) sent] demo_partition_ok demo_walk_faithful
    by (auto simp: demo_reporter_env)
  with rep sent show ?thesis by blast
qed

end
