(* ===== verification/Cluster.thy ===== *)
theory Cluster
  imports Retries Conditions
begin

text \<open>
  The part of the cluster the operator's own configuration lives in: the
  \<open>MarketplaceConfig\<close> and \<open>MeterBase\<close> resources
  (\<open>v2/api/marketplace/v1alpha1/marketplaceconfig_types.go\<close>, \<open>meterbase_types.go\<close>), the
  pull secrets, the deployed namespace and the catalog sources, with the calls the
  controllers make to the API server.

  A call may fail: \<open>clFault\<close> says which of the calls, numbered in their order, do. A write
  carries the version of the object that was read and is refused as a conflict when the
  stored object has another one; a write to the status leaves the rest of the object
  alone and the other way round. Other writers show only as conflicts. \<open>clRetryShared\<close>
  retries attempts that share a copy of the configuration.
\<close>

section \<open>Resources\<close>

record Features =
  ftDeployment :: "bool option"
  ftRegistration :: "bool option"
  ftEnableMeterDefinitionCatalogServer :: "bool option"

record MarketplaceConfig =
  cfVersion :: nat
  cfDeleting :: bool
  cfFinalizers :: "string list"
  cfAnnotations :: smap
  cfController :: "string option"
  cfRhmAccountID :: string
  cfClusterUUID :: string
  cfClusterName :: string
  cfEnableMetering :: "bool option"
  cfIsDisconnected :: "bool option"
  cfInstallIBMCatalogSource :: "bool option"
  cfFeatures :: "Features option"
  cfLicenseAccept :: "bool option"
  cfStorageClassName :: "string option"
  cfDataService :: "string option"
  cfAuthorizeAccountCreation :: "bool option"
  cfConditions :: Conditions
  cfMeterBaseSubConditions :: "Conditions option"

record MeterDefinitionCatalogServerConfig =
  mcSyncCommunity :: bool
  mcSyncSystem :: bool
  mcDeploy :: bool

record MeterBase =
  mbVersion :: nat
  mbEnabled :: bool
  mbCatalogServerConfig :: "MeterDefinitionCatalogServerConfig option"
  mbStorageClassName :: "string option"
  mbDataService :: "string option"
  mbConditions :: "Conditions option"

record owner_ref =
  orName :: string
  orKind :: string
  orAPIVersion :: string

record Secret =
  scName :: string
  scData :: "string \<rightharpoonup> bytes"
  scDeleting :: bool
  scOwners :: "owner_ref list"
  scKind :: string
  scAPIVersion :: string

section \<open>The API server\<close>

datatype kube_error = KNotFound | KConflict | KNoMatch | KGo go_error

record cluster =
  clConfig :: "MarketplaceConfig option"
  clMeterBase :: "MeterBase option"
  clSecrets :: "string \<rightharpoonup> Secret"
  clNamespaceLabels :: smap
  clCatalogSources :: "string \<rightharpoonup> smap"
  clRazee :: bool
  clClusterID :: "string option"
  clDeployment :: "string option"
  clCalls :: nat

record cluster_env =
  clFault :: "nat \<Rightarrow> kube_error option"
  clRetry :: "(cluster, kube_error) attempt \<Rightarrow> (cluster, kube_error) attempt"
  clRetryShared :: "(MarketplaceConfig \<times> cluster, kube_error) attempt \<Rightarrow> (MarketplaceConfig \<times> cluster, kube_error) attempt"
  clNow :: go_time
  clUUID :: "nat \<Rightarrow> string"

definition tick :: "cluster \<Rightarrow> cluster" where
  "tick s = s\<lparr>clCalls := Suc (clCalls s)\<rparr>"

text \<open>Reading: a fault, or the object if it is there.\<close>

definition api_get :: "'e cluster_env_scheme \<Rightarrow> (cluster \<Rightarrow> 'a option) \<Rightarrow> cluster \<Rightarrow> cluster \<times> (kube_error + 'a)" where
  "api_get E obj s =
     (tick s,
      case clFault E (clCalls s) of
        Some e \<Rightarrow> Inl e
      | None \<Rightarrow> (case obj s of None \<Rightarrow> Inl KNotFound | Some x \<Rightarrow> Inr x))"

text \<open>Writing: a fault changes nothing.\<close>

definition api_write ::
  "'e cluster_env_scheme \<Rightarrow> (cluster \<Rightarrow> cluster \<times> kube_error option) \<Rightarrow> (cluster, kube_error) attempt" where
  "api_write E f s =
     (case clFault E (clCalls s) of
        Some e \<Rightarrow> (tick s, Some e)
      | None \<Rightarrow> f (tick s))"

text \<open>A deleted object is gone once its last finalizer is.\<close>

definition store_config :: "MarketplaceConfig \<Rightarrow> cluster \<Rightarrow> cluster" where
  "store_config c s = s\<lparr>clConfig := (if cfDeleting c \<and> cfFinalizers c = [] then None else Some c)\<rparr>"

definition Update_config :: "'e cluster_env_scheme \<Rightarrow> MarketplaceConfig \<Rightarrow> (cluster, kube_error) attempt" where
  "Update_config E c =
     api_write E (\<lambda>s. case clConfig s of
         None \<Rightarrow> (s, Some KNotFound)
       | Some stored \<Rightarrow>
           (if cfVersion c \<noteq> cfVersion stored then (s, Some KConflict)
            else (store_config (c\<lparr>cfVersion := Suc (cfVersion stored), cfConditions := cfConditions stored,
                    cfMeterBaseSubConditions := cfMeterBaseSubConditions stored\<rparr>) s, None)))"

definition StatusUpdate_config :: "'e cluster_env_scheme \<Rightarrow> MarketplaceConfig \<Rightarrow> (cluster, kube_error) attempt" where
  "StatusUpdate_config E c =
     api_write E (\<lambda>s. case clConfig s of
         None \<Rightarrow> (s, Some KNotFound)
       | Some stored \<Rightarrow>
           (if cfVersion c \<noteq> cfVersion stored then (s, Some KConflict)
            else (store_config (stored\<lparr>cfVersion := Suc (cfVersion stored), cfConditions := cfConditions c,
                    cfMeterBaseSubConditions := cfMeterBaseSubConditions c\<rparr>) s, None)))"

definition Create_config :: "'e cluster_env_scheme \<Rightarrow> MarketplaceConfig \<Rightarrow> (cluster, kube_error) attempt" where
  "Create_config E c =
     api_write E (\<lambda>s. case clConfig s of
         None \<Rightarrow> (s\<lparr>clConfig := Some (c\<lparr>cfVersion := 1, cfConditions := [], cfMeterBaseSubConditions := None\<rparr>)\<rparr>, None)
       | Some _ \<Rightarrow> (s, Some (KGo (Err ''already exists''))))"

definition Update_meterbase :: "'e cluster_env_scheme \<Rightarrow> MeterBase \<Rightarrow> (cluster, kube_error) attempt" where
  "Update_meterbase E m =
     api_write E (\<lambda>s. case clMeterBase s of
         None \<Rightarrow> (s, Some KNotFound)
       | Some stored \<Rightarrow>
           (if mbVersion m \<noteq> mbVersion stored then (s, Some KConflict)
            else (s\<lparr>clMeterBase := Some (m\<lparr>mbVersion := Suc (mbVersion stored), mbConditions := mbConditions stored\<rparr>)\<rparr>,
                  None)))"

definition Create_meterbase :: "'e cluster_env_scheme \<Rightarrow> MeterBase \<Rightarrow> (cluster, kube_error) attempt" where
  "Create_meterbase E m =
     api_write E (\<lambda>s. case clMeterBase s of
         None \<Rightarrow> (s\<lparr>clMeterBase := Some (m\<lparr>mbVersion := 1, mbConditions := None\<rparr>)\<rparr>, None)
       | Some _ \<Rightarrow> (s, Some (KGo (Err ''already exists''))))"

section \<open>Reading, changing and writing the configuration\<close>

text \<open>
  The attempt most of the controllers retry: read the configuration, change it and write it
  when something changed, to the object or to its status.
\<close>

definition config_attempt ::
  "'e cluster_env_scheme \<Rightarrow> (MarketplaceConfig \<Rightarrow> MarketplaceConfig \<times> bool) \<Rightarrow> (cluster, kube_error) attempt" where
  "config_attempt E f s =
     (case api_get E clConfig s of
        (s1, Inl e) \<Rightarrow> (s1, Some e)
      | (s1, Inr c) \<Rightarrow> (case f c of (c', updated) \<Rightarrow> if updated then Update_config E c' s1 else (s1, None)))"

definition status_attempt ::
  "'e cluster_env_scheme \<Rightarrow> (MarketplaceConfig \<Rightarrow> MarketplaceConfig \<times> bool) \<Rightarrow> (cluster, kube_error) attempt" where
  "status_attempt E f s =
     (case api_get E clConfig s of
        (s1, Inl e) \<Rightarrow> (s1, Some e)
      | (s1, Inr c) \<Rightarrow> (case f c of (c', updated) \<Rightarrow> if updated then StatusUpdate_config E c' s1 else (s1, None)))"

definition set_condition ::
  "go_time \<Rightarrow> string \<Rightarrow> string \<Rightarrow> string \<Rightarrow> string \<Rightarrow> MarketplaceConfig \<Rightarrow> MarketplaceConfig \<times> bool" where
  "set_condition now ctype st reason msg c =
     (let (conds, changed) = SetCondition now \<lparr>cType = ctype, cStatus = st, cReason = reason, cMessage = msg,
            cLastTransitionTime = 0\<rparr> (cfConditions c)
      in (c\<lparr>cfConditions := conds\<rparr>, changed))"

definition remove_condition :: "string \<Rightarrow> MarketplaceConfig \<Rightarrow> MarketplaceConfig \<times> bool" where
  "remove_condition ctype c =
     (let (conds, changed) = RemoveCondition ctype (cfConditions c) in (c\<lparr>cfConditions := conds\<rparr>, changed))"

text \<open>\<open>updated = updated || f()\<close>: once \<open>updated\<close> is true the right-hand side is not evaluated.\<close>

definition or_else ::
  "('a \<Rightarrow> 'a \<times> bool) \<Rightarrow> 'a \<times> bool \<Rightarrow> 'a \<times> bool" where
  "or_else f cu = (if snd cu then cu else f (fst cu))"

text \<open>Steps of a reconciler run until one returns an error.\<close>

fun run_steps :: "('s, 'e) attempt list \<Rightarrow> ('s, 'e) attempt" where
  "run_steps [] s = (s, None)"
| "run_steps (f # fs) s = (case f s of (s1, Some e) \<Rightarrow> (s1, Some e) | (s1, None) \<Rightarrow> run_steps fs s1)"

section \<open>Lemmas\<close>

lemma keeps_run_steps: "(\<And>f. f \<in> set fs \<Longrightarrow> keeps P f) \<Longrightarrow> keeps P (run_steps fs)"
proof (induction fs)
  case (Cons f fs)
  show ?case
  proof (rule keepsI)
    fix s s' err
    assume P: "P s" and run: "run_steps (f # fs) s = (s', err)"
    obtain s1 e where f: "f s = (s1, e)" by fastforce
    have P1: "P s1" using keepsD [of P f s s1 e] P f Cons.prems by simp
    show "P s'"
    proof (cases e)
      case None
      then have "run_steps fs s1 = (s', err)" using run f by simp
      then show ?thesis using keepsD [of P "run_steps fs" s1 s' err] P1 Cons by simp
    qed (use run f P1 in simp)
  qed
qed (simp add: keeps_def)

lemma tick_simps [simp]:
  "clConfig (tick s) = clConfig s" "clMeterBase (tick s) = clMeterBase s" "clSecrets (tick s) = clSecrets s"
  "clNamespaceLabels (tick s) = clNamespaceLabels s" "clCatalogSources (tick s) = clCatalogSources s"
  "clRazee (tick s) = clRazee s" "clClusterID (tick s) = clClusterID s" "clDeployment (tick s) = clDeployment s"
  "clCalls (tick s) = Suc (clCalls s)"
  by (simp_all add: tick_def)

text \<open>
  The rest of the cluster and of the configuration, without its status: what a write to
  the status leaves as it is.
\<close>

definition rest_of :: "cluster \<Rightarrow> cluster" where
  "rest_of s = s\<lparr>clConfig := None, clCalls := 0\<rparr>"

definition spec_of :: "MarketplaceConfig \<Rightarrow> MarketplaceConfig" where
  "spec_of c = c\<lparr>cfVersion := 0, cfConditions := [], cfMeterBaseSubConditions := None\<rparr>"

lemma rest_of_simps [simp]:
  "rest_of (tick s) = rest_of s" "rest_of (s\<lparr>clConfig := c\<rparr>) = rest_of s" "rest_of (store_config d s) = rest_of s"
  by (simp_all add: rest_of_def tick_def store_config_def)

lemma rest_of_fields:
  "rest_of s = rest_of t \<Longrightarrow> clMeterBase s = clMeterBase t \<and> clSecrets s = clSecrets t \<and>
     clCatalogSources s = clCatalogSources t \<and> clNamespaceLabels s = clNamespaceLabels t"
  unfolding rest_of_def by (metis cluster.select_convs cluster.surjective cluster.update_convs)

definition only_status :: "cluster \<Rightarrow> MarketplaceConfig \<Rightarrow> cluster \<Rightarrow> bool" where
  "only_status s0 c0 s \<longleftrightarrow> rest_of s = rest_of s0 \<and>
     (\<exists>c. clConfig s = Some c \<and> \<not> cfDeleting c \<and> spec_of c = spec_of c0)"

lemma keeps_only_status: "keeps (only_status s0 c0) (status_attempt E f)"
  by (rule keepsI)
     (auto simp: only_status_def status_attempt_def api_get_def StatusUpdate_config_def api_write_def store_config_def
       spec_of_def split: option.splits if_splits prod.splits sum.splits)

text \<open>Without faults: what is stored, and that a configuration with a finalizer stays.\<close>

definition no_faults :: "'e cluster_env_scheme \<Rightarrow> bool" where
  "no_faults E \<longleftrightarrow> (\<forall>n. clFault E n = None)"

lemma config_attempt_ok:
  assumes "no_faults E" "clConfig s = Some c" "\<not> cfDeleting c"
    "f c = (c', updated)" "cfVersion c' = cfVersion c" "\<not> cfDeleting c'"
  shows "\<exists>s'. config_attempt E f s = (s', None) \<and> clConfig s' = Some (if updated
       then c'\<lparr>cfVersion := Suc (cfVersion c), cfConditions := cfConditions c,
               cfMeterBaseSubConditions := cfMeterBaseSubConditions c\<rparr> else c) \<and>
     s' = s\<lparr>clConfig := clConfig s', clCalls := clCalls s'\<rparr>"
  using assms by (auto simp: config_attempt_def api_get_def Update_config_def api_write_def no_faults_def
      store_config_def tick_def)

lemma status_attempt_ok:
  assumes "no_faults E" "clConfig s = Some c" "\<not> cfDeleting c" "f c = (c', updated)" "cfVersion c' = cfVersion c"
  shows "\<exists>s'. status_attempt E f s = (s', None) \<and> clConfig s' = Some (if updated
       then c\<lparr>cfVersion := Suc (cfVersion c), cfConditions := cfConditions c',
              cfMeterBaseSubConditions := cfMeterBaseSubConditions c'\<rparr> else c) \<and>
     s' = s\<lparr>clConfig := clConfig s', clCalls := clCalls s'\<rparr>"
  using assms by (auto simp: status_attempt_def api_get_def StatusUpdate_config_def api_write_def no_faults_def
      store_config_def tick_def)

lemma set_loop_changed_iff:
  "snd (SetCondition_loop nc cs) \<longleftrightarrow> map_option says (GetCondition cs (cType nc)) \<noteq> Some (says nc)"
  by (induction cs) (auto simp: Let_def says_def split: prod.splits if_splits)

lemma set_condition_result:
  assumes "set_condition now t st r m c = (c', updated)"
  shows "c' = c\<lparr>cfConditions := cfConditions c'\<rparr>"
    "map_option says (GetCondition (cfConditions c') t) = Some (st, r, m)"
    "t' \<noteq> t \<Longrightarrow> GetCondition (cfConditions c') t' = GetCondition (cfConditions c) t'"
    "updated \<longleftrightarrow> map_option says (GetCondition (cfConditions c) t) \<noteq> Some (st, r, m)"
proof -
  let ?nc = "\<lparr>cType = t, cStatus = st, cReason = r, cMessage = m, cLastTransitionTime = now\<rparr>"
  have c': "c' = c\<lparr>cfConditions := fst (SetCondition_loop ?nc (cfConditions c))\<rparr>"
    and u: "updated = snd (SetCondition_loop ?nc (cfConditions c))"
    using assms by (auto simp: set_condition_def SetCondition_def split: prod.splits)
  show "c' = c\<lparr>cfConditions := cfConditions c'\<rparr>" "t' \<noteq> t \<Longrightarrow> GetCondition (cfConditions c') t' = GetCondition (cfConditions c) t'"
    by (simp_all add: c' set_loop_get)
  show "map_option says (GetCondition (cfConditions c') t) = Some (st, r, m)"
    by (simp add: c' set_loop_get says_def split: option.split)
  show "updated \<longleftrightarrow> map_option says (GetCondition (cfConditions c) t) \<noteq> Some (st, r, m)"
    by (simp add: u set_loop_changed_iff says_def)
qed

lemma status_attempt_condition:
  assumes "status_attempt E (set_condition now t st r m) s = (s', None)" "only_status s0 c0 s"
  shows "\<exists>c'. clConfig s' = Some c' \<and> map_option says (GetCondition (cfConditions c') t) = Some (st, r, m)"
proof -
  obtain c where c: "clConfig s = Some c" "\<not> cfDeleting c" using assms(2) by (auto simp: only_status_def)
  obtain c1 u where f: "set_condition now t st r m c = (c1, u)" by fastforce
  show ?thesis
  proof (cases u)
    case True
    then show ?thesis using assms(1) c f set_condition_result(2) [OF f]
      by (auto simp: status_attempt_def api_get_def StatusUpdate_config_def api_write_def store_config_def
          split: option.splits if_splits)
  next
    case False
    then show ?thesis using assms(1) c f set_condition_result(4) [OF f]
      by (auto simp: status_attempt_def api_get_def split: option.splits)
  qed
qed

text \<open>An attempt that succeeds is not repeated.\<close>

lemma retry_ok_first:
  assumes "retry_ok conflict retry" "f s = (s', None)"
  shows "retry f s = (s', None)"
  using assms retried_settled [of conflict f s _ _ s'] by (metis retry_okD surj_pair)

end
