(* ===== verification/Registration.thy ===== *)
theory Registration
  imports Cluster
begin

text \<open>
  The registration of a cluster: the pull secrets (\<open>v2/pkg/utils/secretutils.go\<close>), the
  marketplace client (\<open>v2/pkg/marketplace/marketplace_client.go\<close>) and the reconciler that
  keeps account, environment and finalizer of the configuration
  (\<open>v2/internal/controller/marketplace/clusterregistration_controller.go\<close>).

  The token parser, the decoders, owner references and the HTTP exchange are arguments.
\<close>

section \<open>Secrets\<close>

definition RHMPullSecretName :: string where "RHMPullSecretName = ''redhat-marketplace-pull-secret''"
definition IBMEntitlementKeySecretName :: string where "IBMEntitlementKeySecretName = ''ibm-entitlement-key''"
definition IBMEntitlementDataKey :: string where "IBMEntitlementDataKey = ''.dockerconfigjson''"
definition IBMEntitlementProdKey :: string where "IBMEntitlementProdKey = ''cp.icr.io''"
definition IBMEntitlementStageKey :: string where "IBMEntitlementStageKey = ''stg.icr.io''"
definition RHMPullSecretKey :: string where "RHMPullSecretKey = ''PULL_SECRET''"
definition ProdEnv :: string where "ProdEnv = ''production''"
definition StageEnv :: string where "StageEnv = ''stage''"

record MarketplaceClaims =
  clAccountID :: string
  clEnv :: string

record SecretInfo =
  siType :: string
  siSecret :: Secret
  siEnv :: string
  siToken :: string
  siClaims :: "MarketplaceClaims option"

text \<open>
  \<open>reAuths\<close> reads the passwords by registry of a docker configuration, \<open>reDecodeSegment\<close>
  decodes a segment of a token and \<open>reParseUnverified\<close> reads its claims;
  \<open>reSetOwner\<close> adds the configuration to the owners of a secret.
\<close>

record registration_env = cluster_env +
  reAuths :: "bytes \<Rightarrow> (string \<rightharpoonup> string) result"
  reDecodeSegment :: "string \<Rightarrow> go_error option"
  reParseUnverified :: "string \<Rightarrow> MarketplaceClaims result"
  reSetOwner :: "MarketplaceConfig \<Rightarrow> Secret \<Rightarrow> Secret result"
  reGet :: "string \<Rightarrow> string \<Rightarrow> (int \<times> bytes) result"
  reAccounts :: "bytes \<Rightarrow> string list result"
  reIsDisconnected :: bool
  reURL :: string

definition validateDecode :: "'e registration_env_scheme \<Rightarrow> string \<Rightarrow> go_error option" where
  "validateDecode E token =
     (let parts = split_on (CHR ''.'') token in
      if length parts \<noteq> 3 then Some (Err ''token contains an invalid number of segments'')
      else
        (case reDecodeSegment E (parts ! 0) of
           Some err \<Rightarrow> Some (wrap ''could not base64 decode header'' err)
         | None \<Rightarrow>
             (case reDecodeSegment E (parts ! 1) of
                Some err \<Rightarrow> Some (wrap ''could not base64 decode claim'' err)
              | None \<Rightarrow>
                  (case reDecodeSegment E (parts ! 2) of
                     Some err \<Rightarrow> Some (wrap ''could not base64 decode signature'' err)
                   | None \<Rightarrow> None))))"

definition TokenFieldMissingOrEmpty :: go_error where
  "TokenFieldMissingOrEmpty = Err ''token field not found on secret''"

text \<open>One registry of an entitlement key: a present registry needs a password, an absent one keeps the rest.\<close>

definition use_auth ::
  "(string \<rightharpoonup> string) \<Rightarrow> string \<Rightarrow> string \<Rightarrow> SecretInfo \<Rightarrow> SecretInfo result" where
  "use_auth auths registry env si =
     (case auths registry of
        None \<Rightarrow> Inr si
      | Some password \<Rightarrow>
          (if password = [] then Inl TokenFieldMissingOrEmpty
           else Inr (si\<lparr>siToken := password, siEnv := env\<rparr>)))"

definition Parse_entitlement :: "'e registration_env_scheme \<Rightarrow> bytes \<Rightarrow> SecretInfo \<Rightarrow> SecretInfo result" where
  "Parse_entitlement E key si =
     (case reAuths E key of
        Inl err \<Rightarrow> Inl (wrap ''error unmarshalling'' err)
      | Inr auths \<Rightarrow>
          (case use_auth auths IBMEntitlementStageKey StageEnv si of
             Inl err \<Rightarrow> Inl err
           | Inr si1 \<Rightarrow>
               (case use_auth auths IBMEntitlementProdKey ProdEnv si1 of
                  Inl err \<Rightarrow> Inl err
                | Inr si2 \<Rightarrow> Inr (si2\<lparr>siType := IBMEntitlementKeySecretName\<rparr>))))"

definition Parse_pull :: "'e registration_env_scheme \<Rightarrow> bytes \<Rightarrow> SecretInfo \<Rightarrow> SecretInfo result" where
  "Parse_pull E key si =
     (case validateDecode E key of
        Some err \<Rightarrow> Inl (wrap ''unable to decode jwt'' err)
      | None \<Rightarrow>
          (case reParseUnverified E key of
             Inl err \<Rightarrow> Inl err
           | Inr claims \<Rightarrow>
               (let si1 = si\<lparr>siToken := key, siClaims := Some claims\<rparr> in
                if clAccountID claims = []
                then Inr (si1\<lparr>siType := IBMEntitlementKeySecretName, siEnv := ProdEnv\<rparr>)
                else Inr (si1\<lparr>siType := RHMPullSecretName,
                              siEnv := (if map to_lower (clEnv claims) = StageEnv then StageEnv else ProdEnv)\<rparr>))))"

definition Parse :: "'e registration_env_scheme \<Rightarrow> Secret \<Rightarrow> SecretInfo result" where
  "Parse E secret =
     (let si = \<lparr>siType = [], siSecret = secret, siEnv = [], siToken = [], siClaims = None\<rparr> in
      case scData secret IBMEntitlementDataKey of
        Some key \<Rightarrow> Parse_entitlement E key si
      | None \<Rightarrow>
          (case scData secret RHMPullSecretKey of
             Some key \<Rightarrow> Parse_pull E key si
           | None \<Rightarrow> Inl (wrap ''no jwt found'' (Err ''invalid secret''))))"

datatype secret_error = NoSecretsFound | SecretErr kube_error

definition get_secret :: "'e cluster_env_scheme \<Rightarrow> string \<Rightarrow> cluster \<Rightarrow> cluster \<times> (kube_error + Secret)" where
  "get_secret E name s = api_get E (\<lambda>s. clSecrets s name) s"

definition parse_result :: "'e registration_env_scheme \<Rightarrow> Secret \<Rightarrow> secret_error + SecretInfo" where
  "parse_result E secret = (case Parse E secret of Inl err \<Rightarrow> Inl (SecretErr (KGo err)) | Inr si \<Rightarrow> Inr si)"

definition ReturnSecret ::
  "'e registration_env_scheme \<Rightarrow> cluster \<Rightarrow> cluster \<times> (secret_error + SecretInfo)" where
  "ReturnSecret E s =
     (case get_secret E RHMPullSecretName s of
        (s1, Inr secret) \<Rightarrow> (s1, parse_result E secret)
      | (s1, Inl e) \<Rightarrow>
          (if e \<noteq> KNotFound then (s1, Inl (SecretErr e))
           else
             (case get_secret E IBMEntitlementKeySecretName s1 of
                (s2, Inr secret) \<Rightarrow> (s2, parse_result E secret)
              | (s2, Inl e) \<Rightarrow> (s2, Inl (if e \<noteq> KNotFound then SecretErr e else NoSecretsFound)))))"

definition delete_secret :: "'e cluster_env_scheme \<Rightarrow> string \<Rightarrow> (cluster, kube_error) attempt" where
  "delete_secret E name =
     api_write E (\<lambda>s. case clSecrets s name of
         None \<Rightarrow> (s, Some KNotFound)
       | Some _ \<Rightarrow> (s\<lparr>clSecrets := (clSecrets s)(name := None)\<rparr>, None))"

definition DeleteSecret :: "'e cluster_env_scheme \<Rightarrow> (cluster, kube_error) attempt" where
  "DeleteSecret E s =
     (case delete_secret E RHMPullSecretName s of
        (s1, err) \<Rightarrow>
          (if err \<noteq> None \<and> err \<noteq> Some KNotFound then (s1, err)
           else
             (case delete_secret E IBMEntitlementKeySecretName s1 of
                (s2, err) \<Rightarrow> (s2, if err \<noteq> None \<and> err \<noteq> Some KNotFound then err else None))))"

text \<open>
  The owner that is looked for is the secret itself. The result of the update is not read.
\<close>

definition addOwnerRef :: "'e registration_env_scheme \<Rightarrow> MarketplaceConfig \<Rightarrow> Secret \<Rightarrow> (cluster, kube_error) attempt" where
  "addOwnerRef E c secret s =
     (let ownerFound = (\<exists>owner \<in> set (scOwners secret).
            orName owner = scName secret \<and> orKind owner = scKind secret \<and> orAPIVersion owner = scAPIVersion secret)
      in case reSetOwner E c secret of
           Inr secret' \<Rightarrow>
             (if \<not> ownerFound
              then (fst (api_write E (\<lambda>s. (s\<lparr>clSecrets := (clSecrets s)(scName secret \<mapsto> secret')\<rparr>, None)) s), None)
              else (s, None))
         | Inl err \<Rightarrow> (s, None))"

definition own_secret :: "'e registration_env_scheme \<Rightarrow> MarketplaceConfig \<Rightarrow> string \<Rightarrow> (cluster, kube_error) attempt" where
  "own_secret E c name s =
     (case get_secret E name s of
        (s1, Inl _) \<Rightarrow> (s1, None)
      | (s1, Inr secret) \<Rightarrow> addOwnerRef E c secret s1)"

definition AddOwnerRefToAll :: "'e registration_env_scheme \<Rightarrow> MarketplaceConfig \<Rightarrow> (cluster, kube_error) attempt" where
  "AddOwnerRefToAll E c = run_steps [own_secret E c RHMPullSecretName, own_secret E c IBMEntitlementKeySecretName]"

section \<open>The marketplace client\<close>

definition ProductionURL :: string where "ProductionURL = ''https://swc.saas.ibm.com''"
definition StageURL :: string where "StageURL = ''https://sandbox.swc.saas.ibm.com''"
definition AccountsEndpoint :: string where "AccountsEndpoint = ''account/api/v2/accounts''"

definition NewMarketplaceClientBuilder :: "'e registration_env_scheme \<Rightarrow> string" where
  "NewMarketplaceClientBuilder E = (if reURL E \<noteq> [] then reURL E else ProductionURL)"

text \<open>The address and the authorization header of a client; the pool of certificates and the parsing of the address succeed.\<close>

definition NewMarketplaceClient :: "string \<Rightarrow> string \<Rightarrow> MarketplaceClaims option \<Rightarrow> (string \<times> string) result" where
  "NewMarketplaceClient url token claims =
     (let marketplaceURL = (case claims of
            Some c \<Rightarrow> if url = ProductionURL \<and> map to_lower (clEnv c) = ''stage'' then StageURL else url
          | None \<Rightarrow> url)
      in if token = [] then Inl (Err ''transport is empty for production'')
         else Inr (marketplaceURL, ''Bearer '' @ token))"

definition RhmAccountExists :: "'e registration_env_scheme \<Rightarrow> string \<times> string \<Rightarrow> bool result" where
  "RhmAccountExists E client =
     (case reGet E (fst client @ ''/'' @ AccountsEndpoint) (snd client) of
        Inl err \<Rightarrow> Inl err
      | Inr (statusCode, body) \<Rightarrow>
          (if \<not> is_2xx statusCode then Inl (Err ''request not successful'')
           else
             (case reAccounts E body of
                Inl err \<Rightarrow> Inl (wrap ''failed to unmarshal accountsResults'' err)
              | Inr accounts \<Rightarrow> Inr (length accounts > 0))))"

section \<open>The reconciler\<close>

definition CONTROLLER_FINALIZER :: string where "CONTROLLER_FINALIZER = ''finalizer.marketplace.redhat.com''"
definition environment_annotation :: string where "environment_annotation = ''marketplace.redhat.com/environment''"
definition ConditionRHMAccountExists :: string where "ConditionRHMAccountExists = ''RHMAccountExists''"

definition AddFinalizer :: "MarketplaceConfig \<Rightarrow> MarketplaceConfig \<times> bool" where
  "AddFinalizer c =
     (if CONTROLLER_FINALIZER \<in> set (cfFinalizers c) then (c, False)
      else (c\<lparr>cfFinalizers := cfFinalizers c @ [CONTROLLER_FINALIZER]\<rparr>, True))"

definition RemoveFinalizer :: "MarketplaceConfig \<Rightarrow> MarketplaceConfig \<times> bool" where
  "RemoveFinalizer c =
     (c\<lparr>cfFinalizers := removeAll CONTROLLER_FINALIZER (cfFinalizers c)\<rparr>,
      CONTROLLER_FINALIZER \<in> set (cfFinalizers c))"

definition removeMarketplaceConfigFinalizer :: "'e cluster_env_scheme \<Rightarrow> (cluster, kube_error) attempt" where
  "removeMarketplaceConfigFinalizer E s =
     clRetry E (\<lambda>s. case api_get E clConfig s of
         (s1, Inl KNotFound) \<Rightarrow> (s1, None)
       | (s1, Inl e) \<Rightarrow> (s1, Some e)
       | (s1, Inr c) \<Rightarrow>
           (case RemoveFinalizer c of (c', updated) \<Rightarrow> if updated then Update_config E c' s1 else (s1, None))) s"

text \<open>The configuration before anything is read into it.\<close>

definition empty_config :: MarketplaceConfig where
  "empty_config = \<lparr>cfVersion = 0, cfDeleting = False, cfFinalizers = [], cfAnnotations = Map.empty, cfController = None,
     cfRhmAccountID = [], cfClusterUUID = [], cfClusterName = [], cfEnableMetering = None, cfIsDisconnected = None,
     cfInstallIBMCatalogSource = None, cfFeatures = None, cfLicenseAccept = None, cfStorageClassName = None,
     cfDataService = None, cfAuthorizeAccountCreation = None, cfConditions = [], cfMeterBaseSubConditions = None\<rparr>"

definition create_default ::
  "'e registration_env_scheme \<Rightarrow> cluster \<Rightarrow> cluster \<times> (kube_error + MarketplaceConfig)" where
  "create_default E s =
     (case api_get E clClusterID s of
        (s1, version) \<Rightarrow>
          (case (case version of
                   Inr i \<Rightarrow> Inr i
                 | Inl e \<Rightarrow> if e \<noteq> KNotFound \<and> e \<noteq> KNoMatch then Inl e else Inr (clUUID E (clCalls s1))) of
             Inl e \<Rightarrow> (s1, Inl e)
           | Inr clusterID \<Rightarrow>
               (case api_get E clDeployment s1 of
                  (s2, Inl e) \<Rightarrow> (s2, Inl e)
                | (s2, Inr dep) \<Rightarrow>
                    (let c = empty_config\<lparr>cfIsDisconnected := Some (reIsDisconnected E), cfClusterUUID := clusterID,
                               cfController := Some dep\<rparr>
                     in case Create_config E c s2 of
                          (s3, Some e) \<Rightarrow> (s3, Inl e)
                        | (s3, None) \<Rightarrow> (s3, Inr (c\<lparr>cfVersion := 1\<rparr>))))))"

text \<open>The account id, the environment and the finalizer; other annotations are replaced.\<close>

definition registration_spec :: "SecretInfo \<Rightarrow> MarketplaceConfig \<Rightarrow> MarketplaceConfig \<times> bool" where
  "registration_spec si c =
     (let (c1, updated1) = AddFinalizer c;
          (c2, updated2) =
            (case siClaims si of
               Some claims \<Rightarrow>
                 (if siType si = RHMPullSecretName \<and> cfRhmAccountID c1 \<noteq> clAccountID claims
                  then (c1\<lparr>cfRhmAccountID := clAccountID claims\<rparr>, True) else (c1, updated1))
             | None \<Rightarrow> (c1, updated1))
      in if cfAnnotations c2 environment_annotation = Some (siEnv si) then (c2, updated2)
         else (c2\<lparr>cfAnnotations := [environment_annotation \<mapsto> siEnv si]\<rparr>, True))"

definition account_condition :: "go_time \<Rightarrow> bool option \<Rightarrow> MarketplaceConfig \<Rightarrow> MarketplaceConfig \<times> bool" where
  "account_condition now rhmAccountExists c =
     (case rhmAccountExists of
        None \<Rightarrow> (c, False)
      | Some True \<Rightarrow>
          set_condition now ConditionRHMAccountExists ConditionTrue ''RHMAccountExists''
            ''RHM/Software Central account exists'' c
      | Some False \<Rightarrow>
          set_condition now ConditionRHMAccountExists ConditionFalse ''RHMAccountNotExist''
            ''RHM/Software Central account does not exist'' c)"

text \<open>Whether an account exists: unknown, or what the secret, the status or the marketplace says.\<close>

definition account_exists ::
  "'e registration_env_scheme \<Rightarrow> SecretInfo \<Rightarrow> string \<times> string \<Rightarrow> MarketplaceConfig \<Rightarrow> bool option" where
  "account_exists E si client c =
     (let known = (if siType si = RHMPullSecretName then Some True else None) in
      if \<not> ToBool (cfIsDisconnected c) \<and> siType si = IBMEntitlementKeySecretName
      then (let cond = GetCondition (cfConditions c) ConditionRHMAccountExists in
            if cond = None \<or> (\<exists>x. cond = Some x \<and> IsFalse x)
            then (case RhmAccountExists E client of Inl err \<Rightarrow> known | Inr ex \<Rightarrow> Some ex)
            else if \<exists>x. cond = Some x \<and> IsTrue x then Some True else known)
      else known)"

text \<open>The result of a run: the error and whether the request is queued again in an hour.\<close>

definition register ::
  "'e registration_env_scheme \<Rightarrow> SecretInfo \<Rightarrow> string \<times> string \<Rightarrow> MarketplaceConfig \<Rightarrow> cluster \<Rightarrow>
     cluster \<times> kube_error option \<times> bool" where
  "register E si client c s =
     (case clRetry E (\<lambda>s. AddOwnerRefToAll E c (fst (get_secret E RHMPullSecretName s))) s of
        (s1, Some e) \<Rightarrow> (s1, Some e, False)
      | (s1, None) \<Rightarrow>
          (if \<not> ToBool (cfIsDisconnected c) \<and> \<not> ToBool (cfLicenseAccept c) then (s1, None, False)
           else
             (case clRetry E (config_attempt E (registration_spec si)) s1 of
                (s2, Some e) \<Rightarrow> (s2, Some e, False)
              | (s2, None) \<Rightarrow>
                  (case clRetry E (status_attempt E (account_condition (clNow E) (account_exists E si client c))) s2 of
                     (s3, Some e) \<Rightarrow> (s3, Some e, False)
                   | (s3, None) \<Rightarrow> (s3, None, True)))))"

definition reg_Reconcile :: "'e registration_env_scheme \<Rightarrow> cluster \<Rightarrow> cluster \<times> kube_error option \<times> bool" where
  "reg_Reconcile E s =
     (case ReturnSecret E s of
        (s1, Inl NoSecretsFound) \<Rightarrow> (case removeMarketplaceConfigFinalizer E s1 of (s2, err) \<Rightarrow> (s2, err, False))
      | (s1, Inl (SecretErr e)) \<Rightarrow> (s1, Some e, False)
      | (s1, Inr si) \<Rightarrow>
          (case NewMarketplaceClient (NewMarketplaceClientBuilder E) (siToken si) (siClaims si) of
             Inl err \<Rightarrow> (s1, None, False)
           | Inr client \<Rightarrow>
               (case api_get E clConfig s1 of
                  (s2, Inr c) \<Rightarrow>
                    (if cfDeleting c
                     then (case removeMarketplaceConfigFinalizer E s2 of
                             (s3, Some e) \<Rightarrow> (s3, Some e, False)
                           | (s3, None) \<Rightarrow> (fst (DeleteSecret E s3), None, False))
                     else if scDeleting (siSecret si) then (s2, None, False)
                     else register E si client c s2)
                | (s2, Inl e) \<Rightarrow>
                    (if scDeleting (siSecret si) then (s2, Some e, False)
                     else if e = KNotFound
                     then (case create_default E s2 of
                             (s3, Inl e) \<Rightarrow> (s3, Some e, False)
                           | (s3, Inr c) \<Rightarrow> register E si client c s3)
                     else register E si client empty_config s2))))"

section \<open>Owners never fail\<close>

lemma own_secret_none: "\<exists>s'. own_secret E c name s = (s', None) \<and> clConfig s' = clConfig s"
  by (cases "get_secret E name s")
     (auto simp: own_secret_def get_secret_def api_get_def addOwnerRef_def api_write_def Let_def split: sum.splits option.splits)

lemma AddOwnerRefToAll_none: "\<exists>s'. AddOwnerRefToAll E c s = (s', None) \<and> clConfig s' = clConfig s"
proof -
  obtain s1 where 1: "own_secret E c RHMPullSecretName s = (s1, None)" "clConfig s1 = clConfig s"
    using own_secret_none by blast
  obtain s2 where 2: "own_secret E c IBMEntitlementKeySecretName s1 = (s2, None)" "clConfig s2 = clConfig s1"
    using own_secret_none by blast
  show ?thesis using 1 2 by (simp add: AddOwnerRefToAll_def)
qed

lemma owners_step:
  assumes "retry_ok conflict (clRetry E)"
  shows "\<exists>s'. clRetry E (\<lambda>s. AddOwnerRefToAll E c (fst (get_secret E RHMPullSecretName s))) s = (s', None) \<and>
     clConfig s' = clConfig s"
proof -
  obtain s' where s': "AddOwnerRefToAll E c (fst (get_secret E RHMPullSecretName s)) = (s', None)"
    "clConfig s' = clConfig (fst (get_secret E RHMPullSecretName s))"
    using AddOwnerRefToAll_none by blast
  then show ?thesis using retry_ok_first [OF assms, where f = "\<lambda>s. AddOwnerRefToAll E c (fst (get_secret E RHMPullSecretName s))"]
    by (simp add: get_secret_def api_get_def)
qed

lemma ReturnSecret_config: "clConfig (fst (ReturnSecret E s)) = clConfig s"
  by (auto simp: ReturnSecret_def get_secret_def api_get_def split: sum.splits option.splits)

text \<open>
  An error of the API server is taken for an unconfigured cluster: when the configuration cannot be
  read for a reason other than that it is not there, the reconciler goes on with an empty one, finds its
  license not accepted and returns no error, so that the registration is not tried again.
\<close>

theorem config_read_error_swallowed:
  assumes "retry_ok conflict (clRetry E)" "ReturnSecret E s = (s1, Inr si)" "siToken si \<noteq> []"
    and "\<not> scDeleting (siSecret si)" "clFault E (clCalls s1) = Some e" "e \<noteq> KNotFound"
  shows "\<exists>s'. reg_Reconcile E s = (s', None, False) \<and> clConfig s' = clConfig s"
proof -
  obtain client where c: "NewMarketplaceClient (NewMarketplaceClientBuilder E) (siToken si) (siClaims si) = Inr client"
    using assms(3) by (simp add: NewMarketplaceClient_def Let_def)
  have "clConfig s1 = clConfig s" using ReturnSecret_config [of E s] assms(2) by simp
  moreover obtain s' where "clRetry E (\<lambda>s. AddOwnerRefToAll E empty_config (fst (get_secret E RHMPullSecretName s))) (tick s1) = (s', None)"
    "clConfig s' = clConfig (tick s1)" using owners_step [OF assms(1)] by blast
  ultimately show ?thesis
    using assms(2-6) c by (simp add: reg_Reconcile_def api_get_def register_def empty_config_def ToBool_def)
qed

section \<open>What a registration leaves behind\<close>




section \<open>Deletion\<close>

lemma delete_secret_gone:
  assumes "no_faults E" "delete_secret E name s = (s', err)"
  shows "err = None \<or> err = Some KNotFound" "clConfig s' = clConfig s" "clSecrets s' = (clSecrets s)(name := None)"
  using assms by (auto simp: delete_secret_def api_write_def no_faults_def split: option.splits)

lemma DeleteSecret_gone:
  assumes "no_faults E"
  shows "\<exists>s'. DeleteSecret E s = (s', None) \<and> clConfig s' = clConfig s \<and>
     clSecrets s' RHMPullSecretName = None \<and> clSecrets s' IBMEntitlementKeySecretName = None"
proof -
  obtain s1 e1 where 1: "delete_secret E RHMPullSecretName s = (s1, e1)" by fastforce
  obtain s2 e2 where 2: "delete_secret E IBMEntitlementKeySecretName s1 = (s2, e2)" by fastforce
  show ?thesis using 1 2 delete_secret_gone [OF assms 1] delete_secret_gone [OF assms 2]
    by (auto simp: DeleteSecret_def)
qed

text \<open>
  Deleting the configuration cleans up: without faults, when the configuration is being
  deleted and only the operator's finalizer holds it, a run removes it and both secrets.
\<close>

theorem deletion_cleans_up:
  assumes "no_faults E" "retry_ok conflict (clRetry E)" "ReturnSecret E s = (s1, Inr si)" "siToken si \<noteq> []"
    and "clConfig s = Some c" "cfDeleting c" "set (cfFinalizers c) = {CONTROLLER_FINALIZER}"
  shows "\<exists>s'. reg_Reconcile E s = (s', None, False) \<and> clConfig s' = None \<and>
     clSecrets s' RHMPullSecretName = None \<and> clSecrets s' IBMEntitlementKeySecretName = None"
proof -
  obtain client where cl: "NewMarketplaceClient (NewMarketplaceClientBuilder E) (siToken si) (siClaims si) = Inr client"
    using assms(4) by (simp add: NewMarketplaceClient_def Let_def)
  have c1: "clConfig (tick s1) = Some c" using ReturnSecret_config [of E s] assms(3,5) by simp
  let ?f = "\<lambda>s. case api_get E clConfig s of
         (s1, Inl KNotFound) \<Rightarrow> (s1, None)
       | (s1, Inl e) \<Rightarrow> (s1, Some e)
       | (s1, Inr c) \<Rightarrow> (case RemoveFinalizer c of (c', updated) \<Rightarrow> if updated then Update_config E c' s1 else (s1, None))"
  have "removeAll CONTROLLER_FINALIZER (cfFinalizers c) = []" using assms(7) by (auto simp: removeAll_filter_not_eq filter_empty_conv)
  then obtain s2 where s2: "?f (tick s1) = (s2, None)" "clConfig s2 = None"
    using c1 assms(1,6,7) by (auto simp: api_get_def no_faults_def RemoveFinalizer_def Update_config_def api_write_def store_config_def)
  obtain s3 where s3: "DeleteSecret E s2 = (s3, None)" "clConfig s3 = None"
    "clSecrets s3 RHMPullSecretName = None" "clSecrets s3 IBMEntitlementKeySecretName = None"
    using s2(2) DeleteSecret_gone [OF assms(1), of s2] by auto
  have "removeMarketplaceConfigFinalizer E (tick s1) = (s2, None)"
    unfolding removeMarketplaceConfigFinalizer_def using retry_ok_first [where f = ?f, OF assms(2) s2(1)] .
  then show ?thesis using assms(1,3,6) cl c1 s3 by (simp add: reg_Reconcile_def api_get_def no_faults_def)
qed

section \<open>Concrete registrations\<close>

definition demo_secret :: Secret where
  "demo_secret = \<lparr>scName = RHMPullSecretName, scData = [RHMPullSecretKey \<mapsto> ''h.c.s''], scDeleting = False, scOwners = [],
     scKind = ''Secret'', scAPIVersion = ''v1''\<rparr>"

definition demo_registration :: "(nat \<Rightarrow> kube_error option) \<Rightarrow> registration_env" where
  "demo_registration faults =
     \<lparr>clFault = faults, clRetry = demo_retry 4 (\<lambda>e. e = KConflict), clRetryShared = demo_retry 4 (\<lambda>e. e = KConflict),
      clNow = 10, clUUID = (\<lambda>_. ''uuid''), reAuths = (\<lambda>_. Inr Map.empty), reDecodeSegment = (\<lambda>_. None),
      reParseUnverified = (\<lambda>_. Inr \<lparr>clAccountID = ''acct'', clEnv = ''Stage''\<rparr>), reSetOwner = (\<lambda>c x. Inr x),
      reGet = (\<lambda>_ _. Inr (200, ''[]'')), reAccounts = (\<lambda>_. Inr []), reIsDisconnected = False, reURL = []\<rparr>"

definition demo_config :: MarketplaceConfig where
  "demo_config = empty_config\<lparr>cfVersion := 3, cfLicenseAccept := Some True, cfAnnotations := [''team'' \<mapsto> ''a'']\<rparr>"

definition demo_cluster_state :: "MarketplaceConfig option \<Rightarrow> cluster" where
  "demo_cluster_state c = \<lparr>clConfig = c, clMeterBase = None, clSecrets = [RHMPullSecretName \<mapsto> demo_secret],
     clNamespaceLabels = Map.empty, clCatalogSources = Map.empty, clRazee = False, clClusterID = Some ''id'',
     clDeployment = Some ''dep'', clCalls = 0\<rparr>"

lemma demo_registration_retry: "retry_ok (\<lambda>e. e = KConflict) (clRetry (demo_registration f))"
  using demo_retry_ok [of "\<lambda>e. e = KConflict" 3] by (simp add: demo_registration_def)

definition demo_pull_info :: SecretInfo where
  "demo_pull_info = \<lparr>siType = RHMPullSecretName, siSecret = demo_secret, siEnv = StageEnv, siToken = ''h.c.s'',
     siClaims = Some \<lparr>clAccountID = ''acct'', clEnv = ''Stage''\<rparr>\<rparr>"

lemma demo_Parse: "Parse (demo_registration f) demo_secret = Inr demo_pull_info"
proof -
  have "split_on (CHR ''.'') ''h.c.s'' = [''h'', ''c'', ''s'']" by (simp add: split_on.simps)
  moreover have "map to_lower ''Stage'' = StageEnv" by code_simp
  ultimately show ?thesis
    by (simp add: Parse_def demo_secret_def IBMEntitlementDataKey_def RHMPullSecretKey_def Parse_pull_def validateDecode_def
        demo_registration_def demo_pull_info_def Let_def)
qed


theorem config_read_error_swallowed_witness:
  "\<exists>s'. reg_Reconcile (demo_registration (\<lambda>n. if n = 1 then Some (KGo (Err ''timeout'')) else None))
     (demo_cluster_state (Some demo_config)) = (s', None, False)"
proof -
  let ?E = "demo_registration (\<lambda>n. if n = 1 then Some (KGo (Err ''timeout'')) else None)"
  let ?s = "demo_cluster_state (Some demo_config)"
  have rs: "ReturnSecret ?E ?s = (tick ?s, Inr demo_pull_info)"
    using demo_Parse by (simp add: ReturnSecret_def get_secret_def api_get_def parse_result_def demo_cluster_state_def)
      (simp add: demo_registration_def)
  have "siToken demo_pull_info \<noteq> []" "\<not> scDeleting (siSecret demo_pull_info)" "clFault ?E (clCalls (tick ?s)) = Some (KGo (Err ''timeout''))"
    by (simp_all add: demo_pull_info_def demo_secret_def demo_registration_def demo_cluster_state_def)
  from config_read_error_swallowed [OF demo_registration_retry rs this] show ?thesis by blast
qed

theorem deletion_cleans_up_witness:
  "\<exists>s'. reg_Reconcile (demo_registration (\<lambda>_. None))
     (demo_cluster_state (Some (demo_config\<lparr>cfDeleting := True, cfFinalizers := [CONTROLLER_FINALIZER]\<rparr>))) = (s', None, False) \<and>
     clConfig s' = None"
proof -
  let ?E = "demo_registration (\<lambda>_. None)"
  let ?c = "demo_config\<lparr>cfDeleting := True, cfFinalizers := [CONTROLLER_FINALIZER]\<rparr>"
  let ?s = "demo_cluster_state (Some ?c)"
  have rs: "ReturnSecret ?E ?s = (tick ?s, Inr demo_pull_info)"
    using demo_Parse by (simp add: ReturnSecret_def get_secret_def api_get_def parse_result_def demo_cluster_state_def)
      (simp add: demo_registration_def)
  have nf: "no_faults ?E" by (simp add: no_faults_def demo_registration_def)
  have "siToken demo_pull_info \<noteq> []" "clConfig ?s = Some ?c" "cfDeleting ?c" "set (cfFinalizers ?c) = {CONTROLLER_FINALIZER}"
    by (simp_all add: demo_pull_info_def demo_cluster_state_def)
  from deletion_cleans_up [OF nf demo_registration_retry rs this] show ?thesis by blast
qed

end
