(* ===== verification/MarketplaceConfigs.thy ===== *)
theory MarketplaceConfigs
  imports Registration
begin

text \<open>
  The reconciler of the operator's configuration
  (\<open>v2/internal/controller/marketplace/marketplaceconfig_controller.go\<close>): the license, the
  labels of the deployed namespace, the values derived for the specification, the
  \<open>MeterBase\<close> it creates and keeps up to date, the catalog sources and the conditions of
  the status. The requested object is the configuration of the deployed namespace.
\<close>

section \<open>Conditions\<close>

definition ConditionInstalling :: string where "ConditionInstalling = ''Installing''"
definition ConditionComplete :: string where "ConditionComplete = ''Complete''"
definition ConditionNoLicense :: string where "ConditionNoLicense = ''NoLicense''"
definition ConditionIsDisconnected :: string where "ConditionIsDisconnected = ''IsDisconnected''"
definition ConditionSecretError :: string where "ConditionSecretError = ''SecretError''"

definition LicenseServerTag :: string where "LicenseServerTag = ''marketplace.redhat.com/operator''"
definition OperatorTag :: string where "OperatorTag = ''marketplace.redhat.com/operator''"
definition IBM_CATALOGSRC_NAME :: string where "IBM_CATALOGSRC_NAME = ''ibm-operator-catalog''"
definition OPENCLOUD_CATALOGSRC_NAME :: string where "OPENCLOUD_CATALOGSRC_NAME = ''opencloud-operators''"
definition ClusterDisplayNameKey :: string where "ClusterDisplayNameKey = ''CLUSTER_DISPLAY_NAME''"

record config_env = registration_env +
  ceIBMCatalog :: bool
  ceRuneCount :: "bytes \<Rightarrow> nat"

section \<open>The license\<close>

datatype license_outcome = LicenseStop "kube_error option" | LicenseGo MarketplaceConfig

text \<open>Attempts that share the copy of the configuration with the rest of the run.\<close>

definition write_shared ::
  "(MarketplaceConfig \<Rightarrow> (cluster, kube_error) attempt) \<Rightarrow> MarketplaceConfig \<times> cluster \<Rightarrow>
     (MarketplaceConfig \<times> cluster) \<times> kube_error option" where
  "write_shared put ms =
     (case put (fst ms) (snd ms) of
        (s', Some e) \<Rightarrow> ((fst ms, s'), Some e)
      | (s', None) \<Rightarrow> (((case clConfig s' of Some c \<Rightarrow> c | None \<Rightarrow> fst ms), s'), None))"

definition accept_attempt :: "'e config_env_scheme \<Rightarrow> (MarketplaceConfig \<times> cluster, kube_error) attempt" where
  "accept_attempt E ms =
     (case api_get E clConfig (snd ms) of
        (s1, Inl e) \<Rightarrow> ((fst ms, s1), Some e)
      | (s1, Inr c) \<Rightarrow> write_shared (Update_config E) (c\<lparr>cfLicenseAccept := Some True\<rparr>, s1))"

text \<open>The copy is changed, not read again, so that a repeated attempt finds nothing to change.\<close>

definition clear_attempt :: "'e config_env_scheme \<Rightarrow> (MarketplaceConfig \<times> cluster, kube_error) attempt" where
  "clear_attempt E ms =
     (case remove_condition ConditionNoLicense (fst ms) of
        (c, True) \<Rightarrow> write_shared (StatusUpdate_config E) (c, snd ms)
      | (c, False) \<Rightarrow> ((c, snd ms), None))"

definition no_license :: "go_time \<Rightarrow> MarketplaceConfig \<Rightarrow> MarketplaceConfig \<times> bool" where
  "no_license now = set_condition now ConditionNoLicense ConditionTrue ''LicenseNotAccepted''
     ''License has not been accepted in marketplaceconfig''"

definition check_license :: "'e config_env_scheme \<Rightarrow> cluster \<Rightarrow> cluster \<times> license_outcome" where
  "check_license E s =
     (case api_get E clConfig s of
        (s1, Inl e) \<Rightarrow> (s1, LicenseStop (if e = KNotFound then None else Some e))
      | (s1, Inr c) \<Rightarrow>
          (if \<not> ToBool (cfLicenseAccept c) then
             (if GetCondition (cfConditions c) ConditionComplete \<noteq> None then
                (case clRetryShared E (accept_attempt E) (c, s1) of
                   ((c', s2), Some e) \<Rightarrow> (s2, LicenseStop (Some e))
                 | ((c', s2), None) \<Rightarrow> (s2, LicenseGo c'))
              else
                (case clRetry E (status_attempt E (no_license (clNow E))) s1 of (s2, err) \<Rightarrow> (s2, LicenseStop err)))
           else
             (case clRetryShared E (clear_attempt E) (c, s1) of
                ((c', s2), Some e) \<Rightarrow> (s2, LicenseStop (Some e))
              | ((c', s2), None) \<Rightarrow> (s2, LicenseGo c'))))"

section \<open>The specification\<close>

definition updateDeployedNamespaceLabels :: "'e config_env_scheme \<Rightarrow> (cluster, kube_error) attempt" where
  "updateDeployedNamespaceLabels E =
     clRetry E (\<lambda>s. case api_get E (\<lambda>s. Some (clNamespaceLabels s)) s of
         (s1, Inl e) \<Rightarrow> (s1, Some e)
       | (s1, Inr labels) \<Rightarrow>
           (if labels LicenseServerTag \<noteq> Some ''true''
            then api_write E (\<lambda>s. (s\<lparr>clNamespaceLabels := labels(LicenseServerTag \<mapsto> ''true'')\<rparr>, None)) s1
            else (s1, None)))"

definition trim_newlines :: "bytes \<Rightarrow> string" where
  "trim_newlines s = rev (dropWhile (\<lambda>c. c = CHR 0x0A) (rev (dropWhile (\<lambda>c. c = CHR 0x0A) s)))"

definition derived_values :: "'e config_env_scheme \<Rightarrow> MarketplaceConfig \<Rightarrow> MarketplaceConfig" where
  "derived_values E c =
     (let features = (case cfFeatures c of
            None \<Rightarrow> \<lparr>ftDeployment = None, ftRegistration = None, ftEnableMeterDefinitionCatalogServer = None\<rparr>
          | Some f \<Rightarrow> f)
      in c\<lparr>cfIsDisconnected := (if reIsDisconnected E then Some True
                                else if cfIsDisconnected c = None then Some False else cfIsDisconnected c),
           cfFeatures := Some (features\<lparr>ftRegistration := (if ftRegistration features = None then Some True
                                                           else ftRegistration features),
                                        ftDeployment := Some False,
                                        ftEnableMeterDefinitionCatalogServer := Some False\<rparr>),
           cfInstallIBMCatalogSource := (if cfInstallIBMCatalogSource c = None then Some (ceIBMCatalog E)
                                         else cfInstallIBMCatalogSource c),
           cfEnableMetering := None\<rparr>)"

definition with_cluster_name :: "'e config_env_scheme \<Rightarrow> secret_error + SecretInfo \<Rightarrow> MarketplaceConfig \<Rightarrow> MarketplaceConfig" where
  "with_cluster_name E r c =
     (case r of
        Inl _ \<Rightarrow> c
      | Inr si \<Rightarrow>
          (case scData (siSecret si) ClusterDisplayNameKey of
             None \<Rightarrow> c
           | Some name \<Rightarrow> (if ceRuneCount E name \<le> 256 then c\<lparr>cfClusterName := trim_newlines name\<rparr> else c)))"

definition spec_attempt :: "'e config_env_scheme \<Rightarrow> (cluster, kube_error) attempt" where
  "spec_attempt E s =
     (case api_get E clConfig s of
        (s1, Inl e) \<Rightarrow> (s1, Some e)
      | (s1, Inr c) \<Rightarrow>
          (let c1 = derived_values E c;
               (s2, c2) = (if \<not> ToBool (cfIsDisconnected c1)
                           then (case ReturnSecret E s1 of (s2, r) \<Rightarrow> (s2, with_cluster_name E r c1))
                           else (s1, c1))
           in case api_get E clClusterID s2 of
                (s3, version) \<Rightarrow>
                  (case (case version of
                           Inr i \<Rightarrow> Inr i
                         | Inl e \<Rightarrow>
                             (if e \<noteq> KNotFound \<and> e \<noteq> KNoMatch then Inl e
                              else Inr (if cfClusterUUID c2 = [] then clUUID E (clCalls s3) else cfClusterUUID c2))) of
                     Inl e \<Rightarrow> (s3, Some e)
                   | Inr uuid \<Rightarrow>
                       (case api_get E clDeployment s3 of
                          (s4, Inl e) \<Rightarrow> (s4, Some e)
                        | (s4, Inr dep) \<Rightarrow>
                            (let c3 = c2\<lparr>cfClusterUUID := uuid, cfController := Some dep\<rparr> in
                             if c3 \<noteq> c then Update_config E c3 s4 else (s4, None))))))"

definition missing_secret :: go_error where
  "missing_secret = Err (''no redhat-marketplace-pull-secret or ibm-entitlement-key secret found, '' @
     ''secret is required in a connected environment'')"

definition secret_status :: "'e config_env_scheme \<Rightarrow> (cluster, kube_error) attempt" where
  "secret_status E s =
     (case api_get E clConfig s of
        (s1, Inl e) \<Rightarrow> (s1, Some e)
      | (s1, Inr c) \<Rightarrow>
          (if ToBool (cfIsDisconnected c)
           then (case or_else (set_condition (clNow E) ConditionIsDisconnected ConditionTrue ''InternetNotAvailable''
                                 ''Detected disconnected environment'')
                        (remove_condition ConditionSecretError c) of
                   (c1, updated) \<Rightarrow> if updated then StatusUpdate_config E c1 s1 else (s1, None))
           else
             (case ReturnSecret E s1 of
                (s2, Inl _) \<Rightarrow>
                  (case or_else (set_condition (clNow E) ConditionSecretError ConditionTrue ''NoSecret''
                                   (error_string missing_secret))
                          (remove_condition ConditionIsDisconnected c) of
                     (c1, updated) \<Rightarrow>
                       (case (if updated then StatusUpdate_config E c1 s2 else (s2, None)) of
                          (s3, Some e) \<Rightarrow> (s3, Some e)
                        | (s3, None) \<Rightarrow> (s3, Some (KGo missing_secret))))
              | (s2, Inr si) \<Rightarrow>
                  (case or_else (remove_condition ConditionSecretError) (remove_condition ConditionIsDisconnected c) of
                     (c1, updated) \<Rightarrow> if updated then StatusUpdate_config E c1 s2 else (s2, None)))))"

definition initializeMarketplaceConfigSpec :: "'e config_env_scheme \<Rightarrow> (cluster, kube_error) attempt" where
  "initializeMarketplaceConfigSpec E s =
     (case api_get E clConfig s of
        (s1, Inl e) \<Rightarrow> (s1, Some e)
      | (s1, Inr _) \<Rightarrow> run_steps [clRetry E (spec_attempt E), clRetry E (secret_status E)] s1)"

section \<open>The status of the installation\<close>

definition starting :: "go_time \<Rightarrow> MarketplaceConfig \<Rightarrow> MarketplaceConfig \<times> bool" where
  "starting now c =
     (if IsUnknownFor (cfConditions c) ConditionInstalling
      then set_condition now ConditionInstalling ConditionTrue ''StartInstall'' ''Installing starting'' c
      else (c, False))"

definition updateMarketplaceConfigStatusStarting :: "'e config_env_scheme \<Rightarrow> (cluster, kube_error) attempt" where
  "updateMarketplaceConfigStatusStarting E = clRetry E (status_attempt E (starting (clNow E)))"

text \<open>The second condition is set only when the first one did not change.\<close>

definition finished_install :: "go_time \<Rightarrow> MarketplaceConfig \<Rightarrow> MarketplaceConfig \<times> bool" where
  "finished_install now c =
     or_else (set_condition now ConditionComplete ConditionTrue ''FinishedInstall''
                ''Finished Installing necessary components'')
       (set_condition now ConditionInstalling ConditionFalse ''FinishedInstall''
          ''Finished Installing necessary components'' c)"

definition updateMarketplaceConfigStatusFinished :: "'e config_env_scheme \<Rightarrow> (cluster, kube_error) attempt" where
  "updateMarketplaceConfigStatusFinished E = clRetry E (status_attempt E (finished_install (clNow E)))"

section \<open>The meter base\<close>

definition NewMeterDefinitionCatalogConfig :: "bool \<Rightarrow> MeterDefinitionCatalogServerConfig" where
  "NewMeterDefinitionCatalogConfig enabled = \<lparr>mcSyncCommunity = enabled, mcSyncSystem = False, mcDeploy = enabled\<rparr>"

definition BuildMeterBaseCr :: "bool \<Rightarrow> string option \<Rightarrow> MeterBase" where
  "BuildMeterBaseCr deployMdefCatalogServer storageClassName =
     \<lparr>mbVersion = 0, mbEnabled = True, mbCatalogServerConfig = Some (NewMeterDefinitionCatalogConfig deployMdefCatalogServer),
      mbStorageClassName = storageClassName, mbDataService = None, mbConditions = None\<rparr>"

text \<open>Reading a feature when there are no features is a nil dereference.\<close>

definition catalog_feature :: "MarketplaceConfig \<Rightarrow> bool result" where
  "catalog_feature c =
     (case cfFeatures c of
        None \<Rightarrow> Inl (Panic ''nil pointer dereference'')
      | Some f \<Rightarrow> Inr (ToBool (ftEnableMeterDefinitionCatalogServer f)))"

definition deploy_catalog :: "MarketplaceConfig \<Rightarrow> bool result" where
  "deploy_catalog c = (if ToBool (cfIsDisconnected c) then Inr False else catalog_feature c)"

fun ConditionsEqual :: "Conditions \<Rightarrow> Conditions \<Rightarrow> bool" where
  "ConditionsEqual [] [] = True"
| "ConditionsEqual (a # as) (b # bs) = (a = b \<and> ConditionsEqual as bs)"
| "ConditionsEqual _ _ = False"

definition sub_conditions :: "MeterBase \<Rightarrow> MarketplaceConfig \<Rightarrow> MarketplaceConfig \<times> bool" where
  "sub_conditions m c =
     (let (c1, updated) = (if cfMeterBaseSubConditions c = None then (c\<lparr>cfMeterBaseSubConditions := Some []\<rparr>, True)
                           else (c, False))
      in case mbConditions m of
           None \<Rightarrow> (c1, updated)
         | Some conds \<Rightarrow>
             (if \<not> ConditionsEqual conds (the (cfMeterBaseSubConditions c1))
              then (c1\<lparr>cfMeterBaseSubConditions := Some conds\<rparr>, True) else (c1, updated)))"

definition copy_sub_conditions :: "'e config_env_scheme \<Rightarrow> (cluster, kube_error) attempt" where
  "copy_sub_conditions E s =
     (case api_get E clMeterBase s of
        (s1, Inl e) \<Rightarrow> (s1, Some e)
      | (s1, Inr m) \<Rightarrow> status_attempt E (sub_conditions m) s1)"

definition meterbase_installed :: "go_time \<Rightarrow> MarketplaceConfig \<Rightarrow> MarketplaceConfig \<times> bool" where
  "meterbase_installed now =
     set_condition now ConditionInstalling ConditionTrue ''MeterBaseInstalled'' ''Meter base installed.''"

definition createOrUpdateMeterBase :: "'e config_env_scheme \<Rightarrow> (cluster, kube_error) attempt" where
  "createOrUpdateMeterBase E s =
     (case api_get E clConfig s of
        (s1, Inl e) \<Rightarrow> (s1, Some e)
      | (s1, Inr c) \<Rightarrow>
          (case api_get E clMeterBase s1 of
             (s2, Inl KNotFound) \<Rightarrow>
               (case deploy_catalog c of
                  Inl err \<Rightarrow> (s2, Some (KGo err))
                | Inr deploy \<Rightarrow>
                    run_steps [Create_meterbase E (BuildMeterBaseCr deploy (cfStorageClassName c)),
                      clRetry E (status_attempt E (meterbase_installed (clNow E))), clRetry E (copy_sub_conditions E)] s2)
           | (s2, Inl e) \<Rightarrow> (s2, Some e)
           | (s2, Inr _) \<Rightarrow> clRetry E (copy_sub_conditions E) s2))"

definition catalog_server_config :: "bool \<Rightarrow> bool \<Rightarrow> MeterDefinitionCatalogServerConfig option \<Rightarrow>
    MeterDefinitionCatalogServerConfig option" where
  "catalog_server_config enabled deploy old =
     (if enabled
      then (case old of
              None \<Rightarrow> Some \<lparr>mcSyncCommunity = True, mcSyncSystem = False, mcDeploy = deploy\<rparr>
            | Some m \<Rightarrow> (if \<not> mcDeploy m then Some (m\<lparr>mcDeploy := deploy\<rparr>) else Some m))
      else (case old of
              None \<Rightarrow> None
            | Some m \<Rightarrow> Some \<lparr>mcSyncCommunity = False, mcSyncSystem = False, mcDeploy = False\<rparr>))"

definition catalog_attempt :: "'e config_env_scheme \<Rightarrow> (cluster, kube_error) attempt" where
  "catalog_attempt E s =
     (case api_get E clMeterBase s of
        (s1, Inl e) \<Rightarrow> (s1, Some e)
      | (s1, Inr m) \<Rightarrow>
          (case api_get E clConfig s1 of
             (s2, Inl e) \<Rightarrow> (s2, Some e)
           | (s2, Inr c) \<Rightarrow>
               (case catalog_feature c of
                  Inl err \<Rightarrow> (s2, Some (KGo err))
                | Inr enabled \<Rightarrow>
                    (let m' = m\<lparr>mbCatalogServerConfig := catalog_server_config enabled
                                  (\<not> ToBool (cfIsDisconnected c) \<and> enabled) (mbCatalogServerConfig m),
                                mbStorageClassName := (if mbStorageClassName m = None then cfStorageClassName c
                                                       else mbStorageClassName m),
                                mbDataService := cfDataService c\<rparr>
                     in if m' \<noteq> m then Update_meterbase E m' s2 else (s2, None)))))"

definition handleMeterDefinitionCatalogServerConfigs :: "'e config_env_scheme \<Rightarrow> (cluster, kube_error) attempt" where
  "handleMeterDefinitionCatalogServerConfigs E = clRetry E (catalog_attempt E)"

section \<open>Catalog sources and the rest\<close>

definition removeRazeeDeployment :: "'e config_env_scheme \<Rightarrow> (cluster, kube_error) attempt" where
  "removeRazeeDeployment E s =
     (case api_write E (\<lambda>s. if clRazee s then (s\<lparr>clRazee := False\<rparr>, None) else (s, Some KNotFound)) s of
        (s1, err) \<Rightarrow> (s1, if err = Some KNotFound \<or> err = Some KNoMatch then None else err))"

definition catalog_condition :: "'e config_env_scheme \<Rightarrow> string \<Rightarrow> string \<Rightarrow> (MarketplaceConfig \<times> cluster, kube_error) attempt" where
  "catalog_condition E reason msg ms =
     (case set_condition (clNow E) ConditionInstalling ConditionTrue reason msg (fst ms) of
        (c, True) \<Rightarrow> write_shared (StatusUpdate_config E) (c, snd ms)
      | (c, False) \<Rightarrow> ((c, snd ms), None))"

text \<open>The configuration is the copy read at the start of the run.\<close>

definition catalog_source_attempt ::
  "'e config_env_scheme \<Rightarrow> string \<Rightarrow> (MarketplaceConfig \<times> cluster, kube_error) attempt" where
  "catalog_source_attempt E name ms =
     (case api_get E (\<lambda>s. clCatalogSources s name) (snd ms) of
        (s1, r) \<Rightarrow>
          (if ToBool (cfInstallIBMCatalogSource (fst ms)) then
             (case r of
                Inr _ \<Rightarrow> ((fst ms, s1), None)
              | Inl e \<Rightarrow>
                  (if e = KNotFound
                   then (case api_write E (\<lambda>s. (s\<lparr>clCatalogSources :=
                                (clCatalogSources s)(name \<mapsto> [OperatorTag \<mapsto> ''true''])\<rparr>, None)) s1 of
                           (s2, Some e) \<Rightarrow> ((fst ms, s2), Some e)
                         | (s2, None) \<Rightarrow>
                             catalog_condition E ''CatalogSourceInstalled'' (name @ '' catalog source installed.'') (fst ms, s2))
                   else ((fst ms, s1), Some e)))
           else
             (case r of
                Inl e \<Rightarrow> ((fst ms, s1), if e = KNotFound then None else Some e)
              | Inr labels \<Rightarrow>
                  (if labels OperatorTag = Some ''true''
                   then (case api_write E (\<lambda>s. (s\<lparr>clCatalogSources := (clCatalogSources s)(name := None)\<rparr>, None)) s1 of
                           (s2, Some e) \<Rightarrow> ((fst ms, s2), Some e)
                         | (s2, None) \<Rightarrow>
                             catalog_condition E ''CatalogSourceDeleted'' (name @ '' catalog source deleted.'') (fst ms, s2))
                   else ((fst ms, s1), None)))))"

definition createCatalogSource ::
  "'e config_env_scheme \<Rightarrow> string \<Rightarrow> (MarketplaceConfig \<times> cluster, kube_error) attempt" where
  "createCatalogSource E name = clRetryShared E (catalog_source_attempt E name)"

text \<open>A step that does not use the copy of the configuration.\<close>

definition lift_step :: "(cluster, kube_error) attempt \<Rightarrow> (MarketplaceConfig \<times> cluster, kube_error) attempt" where
  "lift_step f ms = (case f (snd ms) of (s', err) \<Rightarrow> ((fst ms, s'), err))"

definition config_steps :: "'e config_env_scheme \<Rightarrow> (MarketplaceConfig \<times> cluster, kube_error) attempt list" where
  "config_steps E =
     map lift_step [updateDeployedNamespaceLabels E, initializeMarketplaceConfigSpec E,
       updateMarketplaceConfigStatusStarting E, createOrUpdateMeterBase E, handleMeterDefinitionCatalogServerConfigs E,
       removeRazeeDeployment E] @
     [createCatalogSource E IBM_CATALOGSRC_NAME, createCatalogSource E OPENCLOUD_CATALOGSRC_NAME] @
     [lift_step (updateMarketplaceConfigStatusFinished E)]"

definition config_Reconcile :: "'e config_env_scheme \<Rightarrow> (cluster, kube_error) attempt" where
  "config_Reconcile E s =
     (case check_license E s of
        (s1, LicenseStop err) \<Rightarrow> (s1, err)
      | (s1, LicenseGo c) \<Rightarrow> (case run_steps (config_steps E) (c, s1) of ((c', s2), err) \<Rightarrow> (s2, err)))"

section \<open>Nothing is installed without a license\<close>

text \<open>
  C38: The license gates the installation: as long as it is not accepted and the operator was not
  installed before, a run changes nothing of the cluster but the status of the configuration, whatever
  calls fail; when it ends without an error and the configuration could be read, the
  missing license is in the status.
\<close>

theorem license_gates_installation:
  assumes "retry_ok conflict (clRetry E)" "clConfig s = Some c" "\<not> cfDeleting c"
    and "\<not> ToBool (cfLicenseAccept c)" "GetCondition (cfConditions c) ConditionComplete = None"
    and "config_Reconcile E s = (s', err)"
  shows "rest_of s' = rest_of s \<and> (\<exists>c'. clConfig s' = Some c' \<and> spec_of c' = spec_of c \<and>
     (clFault E (clCalls s) = None \<longrightarrow> err = None \<longrightarrow>
      map_option cStatus (GetCondition (cfConditions c') ConditionNoLicense) = Some ConditionTrue))"
proof (cases "clFault E (clCalls s)")
  case None
  let ?f = "status_attempt E (no_license (clNow E))"
  have run: "clRetry E ?f (tick s) = (s', err)"
    using assms(2,4-6) None by (auto simp: config_Reconcile_def check_license_def api_get_def split: prod.splits)
  have P: "only_status s c (tick s)" using assms(2,3) by (simp add: only_status_def)
  have "only_status s c s'" using keepsD [OF keeps_retry [OF assms(1) keeps_only_status] P run] .
  moreover have "\<exists>c'. clConfig s' = Some c' \<and> map_option says (GetCondition (cfConditions c') ConditionNoLicense) =
      Some (ConditionTrue, ''LicenseNotAccepted'', ''License has not been accepted in marketplaceconfig'')" if "err = None"
    using retry_last [OF assms(1) keeps_only_status P run] status_attempt_condition that unfolding no_license_def by blast
  ultimately show ?thesis by (fastforce simp: only_status_def says_def)
next
  case (Some e)
  then show ?thesis using assms(2,6) by (auto simp: config_Reconcile_def check_license_def api_get_def)
qed

section \<open>The end of an installation\<close>

lemma finished_install_first:
  assumes "map_option says (GetCondition (cfConditions c) ConditionInstalling) \<noteq>
      Some (ConditionFalse, ''FinishedInstall'', ''Finished Installing necessary components'')"
    and "finished_install now c = (c', updated)"
  shows "updated \<and> GetCondition (cfConditions c') ConditionComplete = GetCondition (cfConditions c) ConditionComplete \<and>
    map_option says (GetCondition (cfConditions c') ConditionInstalling) =
      Some (ConditionFalse, ''FinishedInstall'', ''Finished Installing necessary components'') \<and> cfVersion c' = cfVersion c"
proof -
  obtain c1 u where s: "set_condition now ConditionInstalling ConditionFalse ''FinishedInstall''
      ''Finished Installing necessary components'' c = (c1, u)" by fastforce
  note r = set_condition_result [OF s]
  have u: "u" using r(4) assms(1) by blast
  then have c': "c' = c1" "updated" using assms(2) s by (simp_all add: finished_install_def or_else_def)
  moreover have "cfVersion c1 = cfVersion c" by (subst r(1)) simp
  moreover have "GetCondition (cfConditions c1) ConditionComplete = GetCondition (cfConditions c) ConditionComplete"
    by (rule r(3)) (simp add: ConditionComplete_def ConditionInstalling_def)
  ultimately show ?thesis using r(2) by simp
qed

lemma finished_install_second:
  assumes "map_option says (GetCondition (cfConditions c) ConditionInstalling) =
      Some (ConditionFalse, ''FinishedInstall'', ''Finished Installing necessary components'')"
    and "finished_install now c = (c', updated)"
  shows "map_option cStatus (GetCondition (cfConditions (if updated then c' else c)) ConditionComplete) = Some ConditionTrue \<and>
    cfVersion c' = cfVersion c"
proof -
  obtain c1 u where s: "set_condition now ConditionInstalling ConditionFalse ''FinishedInstall''
      ''Finished Installing necessary components'' c = (c1, u)" by fastforce
  note r = set_condition_result [OF s]
  have "\<not> u" using r(4) assms(1) by blast
  then have t: "set_condition now ConditionComplete ConditionTrue ''FinishedInstall''
      ''Finished Installing necessary components'' c1 = (c', updated)"
    using assms(2) s by (simp add: finished_install_def or_else_def)
  note q = set_condition_result [OF t]
  have "GetCondition (cfConditions c1) ConditionComplete = GetCondition (cfConditions c) ConditionComplete"
    by (rule r(3)) (simp add: ConditionComplete_def ConditionInstalling_def)
  moreover have "cfVersion c' = cfVersion c" by (subst q(1), subst r(1)) simp
  ultimately show ?thesis using q(2,4) by (cases updated) (auto simp: says_def)
qed

text \<open>
  An installation is complete only after a second run: the step that ends an installation marks it
  as no longer running, but, since the change flag is already set then, it does not mark it as
  complete; only when the step is run again on the result the configuration is complete.
\<close>

theorem completion_needs_second_run:
  assumes "no_faults E" "retry_ok conflict (clRetry E)" "clConfig s = Some c" "\<not> cfDeleting c"
    and "map_option says (GetCondition (cfConditions c) ConditionInstalling) \<noteq>
      Some (ConditionFalse, ''FinishedInstall'', ''Finished Installing necessary components'')"
  shows "\<exists>s1 c1 s2 c2. updateMarketplaceConfigStatusFinished E s = (s1, None) \<and> clConfig s1 = Some c1 \<and>
     GetCondition (cfConditions c1) ConditionComplete = GetCondition (cfConditions c) ConditionComplete \<and>
     map_option cStatus (GetCondition (cfConditions c1) ConditionInstalling) = Some ConditionFalse \<and>
     updateMarketplaceConfigStatusFinished E s1 = (s2, None) \<and> clConfig s2 = Some c2 \<and>
     map_option cStatus (GetCondition (cfConditions c2) ConditionComplete) = Some ConditionTrue"
proof -
  let ?f = "finished_install (clNow E)"
  obtain d1 u1 where f1: "?f c = (d1, u1)" by fastforce
  note r1 = finished_install_first [OF assms(5) f1]
  obtain s1 where s1: "status_attempt E ?f s = (s1, None)"
    "clConfig s1 = Some (c\<lparr>cfVersion := Suc (cfVersion c), cfConditions := cfConditions d1,
       cfMeterBaseSubConditions := cfMeterBaseSubConditions d1\<rparr>)"
    using status_attempt_ok [where f = ?f, OF assms(1,3,4) f1] r1 by auto
  let ?c1 = "c\<lparr>cfVersion := Suc (cfVersion c), cfConditions := cfConditions d1,
       cfMeterBaseSubConditions := cfMeterBaseSubConditions d1\<rparr>"
  obtain d2 u2 where f2: "?f ?c1 = (d2, u2)" by fastforce
  have "map_option says (GetCondition (cfConditions ?c1) ConditionInstalling) =
      Some (ConditionFalse, ''FinishedInstall'', ''Finished Installing necessary components'')" using r1 by simp
  note r2 = finished_install_second [OF this f2]
  obtain s2 where s2: "status_attempt E ?f s1 = (s2, None)"
    "clConfig s2 = Some (if u2 then ?c1\<lparr>cfVersion := Suc (cfVersion ?c1), cfConditions := cfConditions d2,
       cfMeterBaseSubConditions := cfMeterBaseSubConditions d2\<rparr> else ?c1)"
    using status_attempt_ok [where f = ?f, OF assms(1) s1(2) _ f2] r2 assms(4) by auto
  have run: "updateMarketplaceConfigStatusFinished E s = (s1, None)" "updateMarketplaceConfigStatusFinished E s1 = (s2, None)"
    unfolding updateMarketplaceConfigStatusFinished_def
    using retry_ok_first [where f = "status_attempt E ?f", OF assms(2) s1(1)]
      retry_ok_first [where f = "status_attempt E ?f", OF assms(2) s2(1)] by blast+
  show ?thesis using run s1(2) s2(2) r1 r2 by (cases u2) (auto simp: says_def)
qed

section \<open>A conflict keeps the missing license\<close>

text \<open>
  Clearing the missing license is lost on a conflict: the copy of the configuration is changed before
  it is written and not read again, so that after a conflict the next attempt has nothing to write and
  succeeds while the stored status still reports the missing license.
\<close>

theorem license_clear_conflict_lost:
  assumes "retry_ok (\<lambda>e. e = KConflict) (clRetryShared E)" "clConfig s = Some c" "ToBool (cfLicenseAccept c)"
    and "types_distinct (cfConditions c)" "GetCondition (cfConditions c) ConditionNoLicense \<noteq> None"
    and "clFault E (clCalls s) = None" "clFault E (Suc (clCalls s)) = Some KConflict"
  shows "\<exists>s' c'. check_license E s = (s', LicenseGo c') \<and> clConfig s' = Some c \<and>
     GetCondition (cfConditions c') ConditionNoLicense = None"
proof -
  define d where "d = fst (remove_condition ConditionNoLicense c)"
  have d: "remove_condition ConditionNoLicense c = (d, True)" "GetCondition (cfConditions d) ConditionNoLicense = None"
    using assms(4,5) remove_flag [of ConditionNoLicense "cfConditions c"] remove_get [OF assms(4), of ConditionNoLicense ConditionNoLicense]
    by (auto simp: d_def remove_condition_def split: prod.splits)
  define d2 where "d2 = fst (remove_condition ConditionNoLicense d)"
  have d2: "remove_condition ConditionNoLicense d = (d2, False)" "GetCondition (cfConditions d2) ConditionNoLicense = None"
  proof -
    have "types_distinct (cfConditions d)"
      using remove_distinct [OF assms(4), of ConditionNoLicense] by (auto simp: d_def remove_condition_def split: prod.splits)
    then show "remove_condition ConditionNoLicense d = (d2, False)" "GetCondition (cfConditions d2) ConditionNoLicense = None"
      using d(2) remove_flag [of ConditionNoLicense "cfConditions d"] remove_get [of "cfConditions d" ConditionNoLicense ConditionNoLicense]
      by (auto simp: d2_def remove_condition_def split: prod.splits)
  qed
  have first: "clear_attempt E (c, tick s) = ((d, tick (tick s)), Some KConflict)"
    using assms(7) d(1) by (simp add: clear_attempt_def write_shared_def StatusUpdate_config_def api_write_def)
  have second: "clear_attempt E (d, tick (tick s)) = ((d2, tick (tick s)), None)"
    using d2(1) by (simp add: clear_attempt_def)
  obtain ms err where r: "clRetryShared E (clear_attempt E) (c, tick s) = (ms, err)" by fastforce
  have "retried (\<lambda>e. e = KConflict) (clear_attempt E) (d, tick (tick s)) ms err"
    by (rule retry_again [OF assms(1) r first]) simp
  then have "ms = (d2, tick (tick s)) \<and> err = None" using second by (rule retried_settled)
  then show ?thesis using r assms(2,3,6) d2(2) by (simp add: check_license_def api_get_def)
qed

section \<open>The storage class is set once\<close>

definition storage_is :: "string \<Rightarrow> cluster \<Rightarrow> bool" where
  "storage_is x s \<longleftrightarrow> (\<exists>m. clMeterBase s = Some m \<and> mbStorageClassName m = Some x)"

lemma storage_is_cong: "clMeterBase s' = clMeterBase s \<Longrightarrow> storage_is x s' = storage_is x s"
  by (simp add: storage_is_def)

text \<open>The steps that leave the meter base alone.\<close>

definition leaves_meterbase :: "(cluster, kube_error) attempt \<Rightarrow> bool" where
  "leaves_meterbase f \<longleftrightarrow> (\<forall>s s' err. f s = (s', err) \<longrightarrow> clMeterBase s' = clMeterBase s)"

lemma leaves_meterbaseD: "leaves_meterbase f \<Longrightarrow> f s = (s', err) \<Longrightarrow> clMeterBase s' = clMeterBase s"
  by (simp add: leaves_meterbase_def)

lemma leaves_keeps: "leaves_meterbase f \<Longrightarrow> keeps (storage_is x) f"
  by (rule keepsI) (simp add: storage_is_def leaves_meterbaseD)

lemma api_get_meterbase: "api_get E obj s = (s', r) \<Longrightarrow> clMeterBase s' = clMeterBase s"
  by (auto simp: api_get_def)

lemma ReturnSecret_meterbase: "ReturnSecret E s = (s', r) \<Longrightarrow> clMeterBase s' = clMeterBase s"
  by (auto simp: ReturnSecret_def get_secret_def dest!: api_get_meterbase split: sum.splits prod.splits if_splits)

lemma Update_config_meterbase: "Update_config E c s = (s', err) \<Longrightarrow> clMeterBase s' = clMeterBase s"
  by (auto simp: Update_config_def api_write_def store_config_def split: option.splits if_splits)

lemma StatusUpdate_config_meterbase: "StatusUpdate_config E c s = (s', err) \<Longrightarrow> clMeterBase s' = clMeterBase s"
  by (auto simp: StatusUpdate_config_def api_write_def store_config_def split: option.splits if_splits)

lemmas meterbase_same = api_get_meterbase ReturnSecret_meterbase Update_config_meterbase StatusUpdate_config_meterbase

lemma status_attempt_leaves: "leaves_meterbase (status_attempt E f)"
  by (auto simp: leaves_meterbase_def status_attempt_def dest!: meterbase_same split: prod.splits sum.splits if_splits)

lemma copy_sub_conditions_leaves: "leaves_meterbase (copy_sub_conditions E)"
  by (auto simp: leaves_meterbase_def copy_sub_conditions_def
      dest!: meterbase_same leaves_meterbaseD [OF status_attempt_leaves] split: prod.splits sum.splits)

lemma secret_status_leaves: "leaves_meterbase (secret_status E)"
  by (auto simp: leaves_meterbase_def secret_status_def dest!: meterbase_same
      split: prod.splits sum.splits option.splits if_splits)

lemma spec_attempt_leaves: "leaves_meterbase (spec_attempt E)"
  unfolding leaves_meterbase_def
proof (intro allI impI)
  fix s s' err
  assume run: "spec_attempt E s = (s', err)"
  obtain s1 r where g: "api_get E clConfig s = (s1, r)" by fastforce
  show "clMeterBase s' = clMeterBase s"
  proof (cases r)
    case (Inr c)
    obtain s2 c2 where 2: "(if \<not> ToBool (cfIsDisconnected (derived_values E c))
        then (case ReturnSecret E s1 of (s2, r) \<Rightarrow> (s2, with_cluster_name E r (derived_values E c)))
        else (s1, derived_values E c)) = (s2, c2)" by fastforce
    obtain s3 v where 3: "api_get E clClusterID s2 = (s3, v)" by fastforce
    obtain s4 w where 4: "api_get E clDeployment s3 = (s4, w)" by fastforce
    have "clMeterBase s2 = clMeterBase s1" using 2 by (auto dest!: meterbase_same split: if_splits prod.splits)
    then have "clMeterBase s3 = clMeterBase s" "clMeterBase s4 = clMeterBase s"
      using meterbase_same(1) [OF g] meterbase_same(1) [OF 3] meterbase_same(1) [OF 4] by simp_all
    then show ?thesis
      using run g Inr 2 3 4 by (auto simp: spec_attempt_def Let_def dest!: meterbase_same(3) split: sum.splits if_splits)
  qed (use run g meterbase_same(1) [OF g] in \<open>simp add: spec_attempt_def\<close>)
qed

lemma namespace_leaves:
  "leaves_meterbase (\<lambda>s. case api_get E (\<lambda>s. Some (clNamespaceLabels s)) s of
         (s1, Inl e) \<Rightarrow> (s1, Some e)
       | (s1, Inr labels) \<Rightarrow>
           (if labels LicenseServerTag \<noteq> Some ''true''
            then api_write E (\<lambda>s. (s\<lparr>clNamespaceLabels := labels(LicenseServerTag \<mapsto> ''true'')\<rparr>, None)) s1
            else (s1, None)))"
  by (auto simp: leaves_meterbase_def api_write_def dest!: meterbase_same
      split: prod.splits sum.splits option.splits if_splits)

text \<open>Creating fails when there is a meter base, and the update starts from the stored one.\<close>

lemma Create_meterbase_keeps: "keeps (storage_is x) (Create_meterbase E m)"
  by (rule keepsI) (auto simp: Create_meterbase_def api_write_def storage_is_def split: option.splits)

lemma catalog_attempt_keeps: "keeps (storage_is x) (catalog_attempt E)"
  by (rule keepsI)
     (auto simp: catalog_attempt_def storage_is_def api_get_def Update_meterbase_def api_write_def Let_def
       split: prod.splits sum.splits option.splits if_splits)

lemma createOrUpdateMeterBase_keeps:
  assumes "retry_ok conflict (clRetry E)"
  shows "keeps (storage_is x) (createOrUpdateMeterBase E)"
proof (rule keepsI)
  fix s s' err
  assume P: "storage_is x s" and run: "createOrUpdateMeterBase E s = (s', err)"
  obtain s1 r where g: "api_get E clConfig s = (s1, r)" by fastforce
  obtain s2 q where h: "api_get E clMeterBase s1 = (s2, q)" by fastforce
  have P1: "storage_is x s1" "storage_is x s2"
    using P meterbase_same(1) [OF g] meterbase_same(1) [OF h] by (simp_all add: storage_is_def)
  have copy: "keeps (storage_is x) (clRetry E (copy_sub_conditions E))"
    by (intro keeps_retry [OF assms] leaves_keeps copy_sub_conditions_leaves)
  have steps: "keeps (storage_is x) (run_steps [Create_meterbase E m, clRetry E (status_attempt E f), clRetry E (copy_sub_conditions E)])"
    for m f
    by (rule keeps_run_steps)
       (auto intro: copy Create_meterbase_keeps keeps_retry [OF assms] leaves_keeps status_attempt_leaves)
  show "storage_is x s'"
    using run g h P1 keepsD [OF copy P1(2)] keepsD [OF steps P1(2)]
    by (auto simp: createOrUpdateMeterBase_def simp del: run_steps.simps split: sum.splits kube_error.splits)
qed

lemma keeps_lift: "keeps P f \<Longrightarrow> keeps (P \<circ> snd) (lift_step f)"
  by (auto simp: keeps_def lift_step_def split: prod.splits)

lemma write_shared_meterbase:
  assumes "write_shared put ms = (ms', err)" "\<And>c s s' e. put c s = (s', e) \<Longrightarrow> clMeterBase s' = clMeterBase s"
  shows "clMeterBase (snd ms') = clMeterBase (snd ms)"
  using assms by (auto simp: write_shared_def split: prod.splits option.splits)

lemma catalog_condition_meterbase:
  "catalog_condition E reason msg ms = (ms', err) \<Longrightarrow> clMeterBase (snd ms') = clMeterBase (snd ms)"
  by (auto simp: catalog_condition_def dest!: write_shared_meterbase [OF _ StatusUpdate_config_meterbase]
      split: prod.splits bool.splits)

lemma api_write_meterbase:
  assumes "api_write E f s = (s', err)" "\<And>s. clMeterBase (fst (f s)) = clMeterBase s"
  shows "clMeterBase s' = clMeterBase s"
  using assms by (auto simp: api_write_def split: option.splits) (metis fst_conv tick_simps(2))

lemma catalog_source_keeps: "keeps (storage_is x \<circ> snd) (catalog_source_attempt E name)"
proof (rule keepsI)
  fix ms ms' err
  assume P: "(storage_is x \<circ> snd) ms" and run: "catalog_source_attempt E name ms = (ms', err)"
  have "clMeterBase (snd ms') = clMeterBase (snd ms)"
    using run
    by (auto simp: catalog_source_attempt_def dest!: meterbase_same(1) catalog_condition_meterbase api_write_meterbase
        split: prod.splits sum.splits option.splits if_splits)
  then show "(storage_is x \<circ> snd) ms'" using P by (simp add: storage_is_def)
qed

lemma removeRazee_leaves: "leaves_meterbase (removeRazeeDeployment E)"
  by (auto simp: leaves_meterbase_def removeRazeeDeployment_def api_write_def split: prod.splits option.splits if_splits)

lemma initialize_keeps:
  assumes "retry_ok conflict (clRetry E)"
  shows "keeps (storage_is x) (initializeMarketplaceConfigSpec E)"
proof (rule keepsI)
  fix s s' err
  assume P: "storage_is x s" and run: "initializeMarketplaceConfigSpec E s = (s', err)"
  obtain s1 r where g: "api_get E clConfig s = (s1, r)" by fastforce
  have P1: "storage_is x s1" using P meterbase_same(1) [OF g] by (simp add: storage_is_def)
  have "keeps (storage_is x) (run_steps [clRetry E (spec_attempt E), clRetry E (secret_status E)])"
    by (rule keeps_run_steps)
       (auto intro: keeps_retry [OF assms] leaves_keeps spec_attempt_leaves secret_status_leaves)
  from keepsD [OF this P1] show "storage_is x s'"
    using run g P1 by (auto simp: initializeMarketplaceConfigSpec_def simp del: run_steps.simps split: sum.splits)
qed

lemma config_steps_keep:
  assumes ok: "retry_ok conflict (clRetry E)" "retry_ok conflict (clRetryShared E)" and f: "f \<in> set (config_steps E)"
  shows "keeps (storage_is x \<circ> snd) f"
proof -
  note retry = keeps_retry [OF ok(1)]
  have "keeps (storage_is x) (updateDeployedNamespaceLabels E)"
    unfolding updateDeployedNamespaceLabels_def by (intro retry leaves_keeps namespace_leaves)
  moreover have "keeps (storage_is x) (updateMarketplaceConfigStatusStarting E)"
    "keeps (storage_is x) (updateMarketplaceConfigStatusFinished E)"
    unfolding updateMarketplaceConfigStatusStarting_def updateMarketplaceConfigStatusFinished_def
    by (intro retry leaves_keeps status_attempt_leaves)+
  moreover have "keeps (storage_is x) (handleMeterDefinitionCatalogServerConfigs E)"
    unfolding handleMeterDefinitionCatalogServerConfigs_def by (intro retry catalog_attempt_keeps)
  moreover have "keeps (storage_is x) (removeRazeeDeployment E)" by (intro leaves_keeps removeRazee_leaves)
  moreover have "keeps (storage_is x \<circ> snd) (createCatalogSource E name)" for name
    unfolding createCatalogSource_def by (intro keeps_retry [OF ok(2)] catalog_source_keeps)
  ultimately show ?thesis
    using f initialize_keeps [OF ok(1)] createOrUpdateMeterBase_keeps [OF ok(1)]
    by (auto simp: config_steps_def keeps_lift)
qed

lemma check_license_keeps:
  assumes ok: "retry_ok conflict (clRetry E)" "retry_ok conflict (clRetryShared E)"
    and P: "storage_is x s" and run: "check_license E s = (s', out)"
  shows "storage_is x s'"
proof -
  obtain s1 r where g: "api_get E clConfig s = (s1, r)" by fastforce
  have P1: "storage_is x s1" using P meterbase_same(1) [OF g] by (simp add: storage_is_def)
  have shared: "keeps (storage_is x \<circ> snd) (accept_attempt E)"
    by (rule keepsI) (auto simp: accept_attempt_def storage_is_def
        dest!: meterbase_same(1) write_shared_meterbase [OF _ Update_config_meterbase] split: prod.splits sum.splits)
  have clear: "keeps (storage_is x \<circ> snd) (clear_attempt E)"
    by (rule keepsI) (auto simp: clear_attempt_def storage_is_def
        dest!: write_shared_meterbase [OF _ StatusUpdate_config_meterbase] split: prod.splits bool.splits)
  have "keeps (storage_is x) (clRetry E (status_attempt E f))" for f
    by (intro keeps_retry [OF ok(1)] leaves_keeps status_attempt_leaves)
  note k = keepsD [OF this P1]
  have a: "storage_is x t" if "clRetryShared E (accept_attempt E) (c, s1) = ((c', t), e)" for c c' t e
    using keepsD [OF keeps_retry [OF ok(2) shared] _ that] P1 by simp
  have b: "storage_is x t" if "clRetryShared E (clear_attempt E) (c, s1) = ((c', t), e)" for c c' t e
    using keepsD [OF keeps_retry [OF ok(2) clear] _ that] P1 by simp
  show ?thesis
    using run g P1 by (auto simp: check_license_def dest: k a b split: sum.splits prod.splits option.splits if_splits)
qed

text \<open>
  The storage class of the meter base is set once: whatever calls fail, a run of the reconciler
  leaves a storage class that is set as it is, also when the configuration names another one.
\<close>

theorem storage_class_set_once:
  assumes "retry_ok conflict (clRetry E)" "retry_ok conflict (clRetryShared E)"
    and "clMeterBase s = Some m" "mbStorageClassName m = Some x" "config_Reconcile E s = (s', err)"
  shows "\<exists>m'. clMeterBase s' = Some m' \<and> mbStorageClassName m' = Some x"
proof -
  have P: "storage_is x s" using assms(3,4) by (simp add: storage_is_def)
  obtain s1 out where l: "check_license E s = (s1, out)" by fastforce
  have P1: "storage_is x s1" using check_license_keeps [OF assms(1,2) P l] .
  have steps: "keeps (storage_is x \<circ> snd) (run_steps (config_steps E))"
    by (rule keeps_run_steps) (rule config_steps_keep [OF assms(1,2)])
  have "storage_is x s'"
    using assms(5) l P1 keepsD [OF steps]
    by (fastforce simp: config_Reconcile_def split: license_outcome.splits prod.splits)
  then show ?thesis by (simp add: storage_is_def)
qed

section \<open>Concrete runs\<close>

definition demo_operator :: "(nat \<Rightarrow> kube_error option) \<Rightarrow> config_env" where
  "demo_operator faults = registration_env.extend (demo_registration faults) (config_env.fields True length)"

lemma demo_operator_sel [simp]:
  "clFault (demo_operator f) = f" "clRetry (demo_operator f) = demo_retry 4 (\<lambda>e. e = KConflict)"
  "clRetryShared (demo_operator f) = demo_retry 4 (\<lambda>e. e = KConflict)" "clNow (demo_operator f) = 10"
  by (simp_all add: demo_operator_def registration_env.defs config_env.defs demo_registration_def)

lemma demo_operator_retry:
  "retry_ok (\<lambda>e. e = KConflict) (clRetry (demo_operator f))" "retry_ok (\<lambda>e. e = KConflict) (clRetryShared (demo_operator f))"
  using demo_retry_ok [of "\<lambda>e. e = KConflict" 3] by simp_all

theorem license_gates_installation_witness:
  "\<exists>s' err. config_Reconcile (demo_operator (\<lambda>_. None)) (demo_cluster_state (Some (demo_config\<lparr>cfLicenseAccept := None\<rparr>))) = (s', err) \<and>
     clMeterBase s' = None"
proof -
  let ?E = "demo_operator (\<lambda>_. None)" and ?c = "demo_config\<lparr>cfLicenseAccept := None\<rparr>"
  let ?s = "demo_cluster_state (Some ?c)"
  obtain s' err where r: "config_Reconcile ?E ?s = (s', err)" by fastforce
  have "clConfig ?s = Some ?c" "\<not> cfDeleting ?c" "\<not> ToBool (cfLicenseAccept ?c)"
    "GetCondition (cfConditions ?c) ConditionComplete = None"
    by (simp_all add: demo_cluster_state_def demo_config_def empty_config_def ToBool_def)
  from license_gates_installation [OF demo_operator_retry(1) this r] have "clMeterBase s' = clMeterBase ?s"
    using rest_of_fields by blast
  then show ?thesis using r by (auto simp: demo_cluster_state_def)
qed

theorem completion_needs_second_run_witness:
  "\<exists>s1 c1. updateMarketplaceConfigStatusFinished (demo_operator (\<lambda>_. None)) (demo_cluster_state (Some demo_config)) = (s1, None) \<and>
     clConfig s1 = Some c1 \<and> GetCondition (cfConditions c1) ConditionComplete = None"
proof -
  let ?E = "demo_operator (\<lambda>_. None)" and ?s = "demo_cluster_state (Some demo_config)"
  have "no_faults ?E" by (simp add: no_faults_def)
  moreover have "clConfig ?s = Some demo_config" "\<not> cfDeleting demo_config" "cfConditions demo_config = []"
    by (simp_all add: demo_cluster_state_def demo_config_def empty_config_def)
  ultimately show ?thesis using completion_needs_second_run [OF _ demo_operator_retry(1), of "\<lambda>_. None" ?s demo_config] by fastforce
qed

theorem license_clear_conflict_lost_witness:
  "\<exists>s' c'. check_license (demo_operator (\<lambda>n. if n = 1 then Some KConflict else None))
     (demo_cluster_state (Some (fst (no_license 1 demo_config)))) = (s', LicenseGo c') \<and>
     clConfig s' = Some (fst (no_license 1 demo_config))"
proof -
  let ?E = "demo_operator (\<lambda>n. if n = 1 then Some KConflict else None)" and ?c = "fst (no_license 1 demo_config)"
  let ?s = "demo_cluster_state (Some ?c)"
  have "clConfig ?s = Some ?c" "ToBool (cfLicenseAccept ?c)" "types_distinct (cfConditions ?c)"
    "GetCondition (cfConditions ?c) ConditionNoLicense \<noteq> None" "clFault ?E (clCalls ?s) = None"
    "clFault ?E (Suc (clCalls ?s)) = Some KConflict"
    by (simp_all add: demo_cluster_state_def demo_config_def empty_config_def no_license_def set_condition_def SetCondition_def
        ToBool_def types_distinct_def ConditionNoLicense_def)
  from license_clear_conflict_lost [OF demo_operator_retry(2) this] show ?thesis by blast
qed

theorem storage_class_set_once_witness:
  "\<exists>s' err m'. config_Reconcile (demo_operator (\<lambda>_. None))
     ((demo_cluster_state (Some (demo_config\<lparr>cfStorageClassName := Some ''fast''\<rparr>)))
        \<lparr>clMeterBase := Some (BuildMeterBaseCr False (Some ''slow''))\<rparr>) = (s', err) \<and>
     clMeterBase s' = Some m' \<and> mbStorageClassName m' = Some ''slow''"
proof -
  let ?E = "demo_operator (\<lambda>_. None)" and ?m = "BuildMeterBaseCr False (Some ''slow'')"
  let ?s = "(demo_cluster_state (Some (demo_config\<lparr>cfStorageClassName := Some ''fast''\<rparr>)))\<lparr>clMeterBase := Some ?m\<rparr>"
  obtain s' err where r: "config_Reconcile ?E ?s = (s', err)" by fastforce
  have "clMeterBase ?s = Some ?m" "mbStorageClassName ?m = Some ''slow''" by (simp_all add: BuildMeterBaseCr_def)
  from storage_class_set_once [OF demo_operator_retry this r] r show ?thesis by blast
qed

end
