(* ===== verification/MeterConversions.thy ===== *)
theory MeterConversions
  imports MeterProcessors UsageRecords Conditions
begin

text \<open>
  The two versions of the meter definition resource
  (\<open>v2/api/marketplace/v1alpha1/meterdefinition_types.go\<close> and
  \<open>v1beta1/meterdefinition_types.go\<close>) and the conversion between them
  (\<open>meterdefinition_conversion.go\<close>): the older version lists workloads with their metric
  labels, the newer one resource filters and meters. The theorems say what a round trip
  keeps in either direction and that both versions yield the same queries.
\<close>

section \<open>Resources\<close>

record object_meta =
  omName :: string
  omNamespace :: string
  omUID :: string
  omVersion :: nat
  omAnnotations :: smap
  omOwners :: "OwnerReference list"

definition owner_reference :: "string \<Rightarrow> string \<Rightarrow> string \<Rightarrow> OwnerReference" where
  "owner_reference apiVersion kind name = \<lparr>orAPIVersion = apiVersion, orKind = kind, orName = name\<rparr>"

record ResultValues =
  rvTimestamp :: int
  rvValue :: string

record Result =
  rsMetricName :: string
  rsQuery :: string
  rsValues :: "ResultValues list"

record MeterDefinitionStatus =
  mdsConditions :: Conditions
  mdsWorkloadResources :: "WorkloadResource list"
  mdsResults :: "Result list"

record v1beta1_MeterDefinition =
  bdMeta :: object_meta
  bdGroup :: string
  bdKind :: string
  bdResourceFilters :: "ResourceFilter list"
  bdMeters :: "MeterWorkload list"
  bdInstalledBy :: "(string \<times> string) option"
  bdStatus :: MeterDefinitionStatus

record MeterLabelQuery =
  mlLabel :: string
  mlQuery :: string
  mlAggregation :: string

record Workload =
  wlName :: string
  wlWorkloadType :: string
  wlOwnerCRD :: "OwnerCRDFilter option"
  wlLabelSelector :: "LabelSelector option"
  wlAnnotationSelector :: "LabelSelector option"
  wlMetricLabels :: "MeterLabelQuery list"

record v1alpha1_MeterDefinition =
  adMeta :: object_meta
  adGroup :: string
  adKind :: string
  adInstalledBy :: "(string \<times> string) option"
  adWorkloadVertexType :: string
  adVertexLabelSelector :: "LabelSelector option"
  adWorkloads :: "Workload list"
  adVersion :: "string option"
  adServiceMeterLabels :: "string list"
  adPodMeterLabels :: "string list"
  adStatus :: MeterDefinitionStatus

definition WorkloadVertexOperatorGroup :: string where "WorkloadVertexOperatorGroup = ''OperatorGroup''"
definition WorkloadVertexNamespace :: string where "WorkloadVertexNamespace = ''Namespace''"
definition WorkloadTypeServiceMonitor :: string where "WorkloadTypeServiceMonitor = ''ServiceMonitor''"

section \<open>Workload types\<close>

text \<open>The argument of the type conversions is an \<open>interface{}\<close>; its dynamic type decides.\<close>

datatype type_arg = AlphaType string | CommonType string | StringType string | OtherType

definition ConvertWorkloadTypeAlpha :: "type_arg \<Rightarrow> string \<times> go_error option" where
  "ConvertWorkloadTypeAlpha typeIn =
     (let convert = (\<lambda>t. if t = WorkloadTypePod then (WorkloadTypePod, None)
                         else if t = WorkloadTypePVC then (WorkloadTypePVC, None)
                         else if t = WorkloadTypeService then (WorkloadTypeService, None)
                         else (WorkloadTypePod, Some (Err ''workload type cannot be generated from workload type'')))
      in case typeIn of
           AlphaType v \<Rightarrow> (v, None)
         | CommonType v \<Rightarrow> convert v
         | StringType v \<Rightarrow> convert v
         | OtherType \<Rightarrow> convert WorkloadTypePod)"

definition ConvertWorkloadTypeBeta :: "type_arg \<Rightarrow> string \<times> go_error option" where
  "ConvertWorkloadTypeBeta typeIn =
     (let convert = (\<lambda>t. if t = WorkloadTypePod then (WorkloadTypePod, None)
                         else if t = WorkloadTypePVC then (WorkloadTypePVC, None)
                         else if t = WorkloadTypeService then (WorkloadTypeService, None)
                         else if t = WorkloadTypeServiceMonitor then (WorkloadTypeService, None)
                         else (WorkloadTypePod, Some (Err ''workload type cannot be generated from workload type'')))
      in case typeIn of
           CommonType v \<Rightarrow> (v, None)
         | AlphaType v \<Rightarrow> convert v
         | StringType v \<Rightarrow> convert v
         | OtherType \<Rightarrow> convert WorkloadTypePod)"

section \<open>To the newer version\<close>

definition namespace_filters :: "v1alpha1_MeterDefinition \<Rightarrow> NamespaceFilter option" where
  "namespace_filters src =
     (if adWorkloadVertexType src = WorkloadVertexOperatorGroup
      then Some \<lparr>nfUseOperatorGroup = True, nfLabelSelector = None\<rparr>
      else if adWorkloadVertexType src = WorkloadVertexNamespace
      then Some \<lparr>nfUseOperatorGroup = False, nfLabelSelector = adVertexLabelSelector src\<rparr>
      else None)"

definition workload_filter :: "NamespaceFilter option \<Rightarrow> string \<Rightarrow> Workload \<Rightarrow> ResourceFilter" where
  "workload_filter nf t w =
     \<lparr>rfNamespace = nf, rfOwnerCRD = wlOwnerCRD w, rfLabel = map_option Some (wlLabelSelector w),
      rfAnnotation = map_option Some (wlAnnotationSelector w), rfWorkloadType = t\<rparr>"

definition workload_meter :: "string \<Rightarrow> Workload \<Rightarrow> MeterLabelQuery \<Rightarrow> MeterWorkload" where
  "workload_meter t w l =
     \<lparr>mwMetric = mlLabel l, mwName = wlName w, mwDescription = [], mwWorkloadType = t, mwMetricType = [],
      mwGroupBy = Some [], mwWithout = None, mwAggregation = mlAggregation l, mwPeriod = Some hour,
      mwQuery = mlQuery l, mwLabel = [], mwUnit = [], mwDateLabelOverride = [], mwValueLabelOverride = []\<rparr>"

fun ConvertTo_loop ::
  "NamespaceFilter option \<Rightarrow> Workload list \<Rightarrow> ResourceFilter list \<times> MeterWorkload list \<Rightarrow>
     (ResourceFilter list \<times> MeterWorkload list) result" where
  "ConvertTo_loop nf [] acc = Inr acc"
| "ConvertTo_loop nf (w # ws) (filters, meters) =
     (case ConvertWorkloadTypeBeta (AlphaType (wlWorkloadType w)) of
        (t, Some err) \<Rightarrow> Inl err
      | (t, None) \<Rightarrow>
          ConvertTo_loop nf ws (filters @ [workload_filter nf t w], meters @ map (workload_meter t w) (wlMetricLabels w)))"

text \<open>Every field of the destination is written; an error leaves it as it was.\<close>

definition ConvertTo :: "v1alpha1_MeterDefinition \<Rightarrow> v1beta1_MeterDefinition result" where
  "ConvertTo src =
     (case ConvertTo_loop (namespace_filters src) (adWorkloads src) ([], []) of
        Inl err \<Rightarrow> Inl err
      | Inr (resourceFilters, meters) \<Rightarrow>
          Inr \<lparr>bdMeta = adMeta src, bdGroup = adGroup src, bdKind = adKind src, bdResourceFilters = resourceFilters,
               bdMeters = meters, bdInstalledBy = adInstalledBy src, bdStatus = adStatus src\<rparr>)"

section \<open>From the newer version\<close>

definition empty_filter :: ResourceFilter where
  "empty_filter = \<lparr>rfNamespace = None, rfOwnerCRD = None, rfLabel = None, rfAnnotation = None, rfWorkloadType = []\<rparr>"

fun resource_map :: "ResourceFilter list \<Rightarrow> (string \<rightharpoonup> ResourceFilter) \<Rightarrow> string \<rightharpoonup> ResourceFilter" where
  "resource_map [] m = m"
| "resource_map (f # fs) m =
     (let t = fst (ConvertWorkloadTypeAlpha (CommonType (rfWorkloadType f)))
      in resource_map fs (if m t = None then m(t \<mapsto> f) else m))"

text \<open>A type without a filter reads the zero filter.\<close>

definition meter_workload :: "(string \<rightharpoonup> ResourceFilter) \<Rightarrow> MeterWorkload \<Rightarrow> Workload" where
  "meter_workload m meter =
     (let t = fst (ConvertWorkloadTypeAlpha (CommonType (mwWorkloadType meter)));
          f = (case m t of None \<Rightarrow> empty_filter | Some f \<Rightarrow> f)
      in \<lparr>wlName = mwName meter, wlWorkloadType = t, wlOwnerCRD = rfOwnerCRD f,
          wlLabelSelector = (case rfLabel f of None \<Rightarrow> None | Some s \<Rightarrow> s),
          wlAnnotationSelector = (case rfAnnotation f of None \<Rightarrow> None | Some s \<Rightarrow> s),
          wlMetricLabels = [\<lparr>mlLabel = mwMetric meter, mlQuery = mwQuery meter, mlAggregation = mwAggregation meter\<rparr>]\<rparr>)"

definition set_vertex :: "NamespaceFilter option \<Rightarrow> v1alpha1_MeterDefinition \<Rightarrow> v1alpha1_MeterDefinition" where
  "set_vertex nf dst =
     (case nf of
        None \<Rightarrow> dst
      | Some n \<Rightarrow>
          (if nfUseOperatorGroup n then dst\<lparr>adWorkloadVertexType := WorkloadVertexOperatorGroup\<rparr>
           else dst\<lparr>adWorkloadVertexType := WorkloadVertexNamespace, adVertexLabelSelector := nfLabelSelector n\<rparr>))"

definition ConvertFrom :: "v1beta1_MeterDefinition \<Rightarrow> v1alpha1_MeterDefinition \<Rightarrow> v1alpha1_MeterDefinition result" where
  "ConvertFrom src dst =
     (case bdResourceFilters src of
        [] \<Rightarrow> Inl (Err ''failed to convert to v1alpha1'')
      | f # _ \<Rightarrow>
          (let m = resource_map (bdResourceFilters src) Map.empty
           in Inr ((set_vertex (rfNamespace f) dst)
                \<lparr>adMeta := bdMeta src, adGroup := bdGroup src, adKind := bdKind src,
                 adWorkloads := map (meter_workload m) (bdMeters src), adInstalledBy := bdInstalledBy src,
                 adStatus := bdStatus src\<rparr>)))"

section \<open>Labels\<close>

definition beta_spec :: "v1beta1_MeterDefinition \<Rightarrow> MeterDefinitionSpec" where
  "beta_spec b = \<lparr>mspGroup = bdGroup b, mspKind = bdKind b, mspMeters = bdMeters b\<rparr>"

definition beta_ToPrometheusLabels :: "v1beta1_MeterDefinition \<Rightarrow> MeterDefPrometheusLabels list" where
  "beta_ToPrometheusLabels b =
     spec_ToPrometheusLabels (beta_spec b) (omUID (bdMeta b)) (omName (bdMeta b)) (omNamespace (bdMeta b))"

definition alpha_labels :: "v1alpha1_MeterDefinition \<Rightarrow> Workload \<Rightarrow> MeterLabelQuery \<Rightarrow> smap" where
  "alpha_labels a w l =
     [''meter_definition_uid'' \<mapsto> omUID (adMeta a), ''workload_vertex_type'' \<mapsto> adWorkloadVertexType a,
      ''workload_name'' \<mapsto> wlName w, ''workload_type'' \<mapsto> wlWorkloadType w, ''metric_label'' \<mapsto> mlLabel l,
      ''metric_aggregation'' \<mapsto> mlAggregation l, ''metric_query'' \<mapsto> mlQuery l, ''meter_group'' \<mapsto> adGroup a,
      ''meter_kind'' \<mapsto> adKind a, ''metric_period'' \<mapsto> ''1h'']"

definition alpha_ToPrometheusLabels :: "v1alpha1_MeterDefinition \<Rightarrow> smap list" where
  "alpha_ToPrometheusLabels a =
     concat (map (\<lambda>w. map (alpha_labels a w) (wlMetricLabels w)) (adWorkloads a))"

text \<open>
  \<open>Decode\<close> reads the YAML or JSON text into the object; it is an argument, and after an
  error the object has what was read so far.
\<close>

definition named_by :: "string \<Rightarrow> string \<Rightarrow> string \<Rightarrow> string \<Rightarrow> object_meta \<Rightarrow> object_meta" where
  "named_by name namespace nameLabel namespaceLabel m =
     m\<lparr>omAnnotations := [nameLabel \<mapsto> name, namespaceLabel \<mapsto> namespace], omNamespace := namespace\<rparr>"

definition BuildMeterDefinitionFromString ::
  "(string \<Rightarrow> v1beta1_MeterDefinition \<times> go_error option) \<Rightarrow> string \<Rightarrow> string \<Rightarrow> string \<Rightarrow> string \<Rightarrow> string \<Rightarrow>
     v1beta1_MeterDefinition \<times> go_error option" where
  "BuildMeterDefinitionFromString Decode meterdefString name namespace nameLabel namespaceLabel =
     (case Decode meterdefString of
        (md, Some err) \<Rightarrow> (md, Some err)
      | (md, None) \<Rightarrow>
          (md\<lparr>bdMeta := named_by name namespace nameLabel namespaceLabel (bdMeta md),
              bdInstalledBy := Some (name, namespace)\<rparr>, None))"

definition alpha_BuildMeterDefinitionFromString ::
  "(string \<Rightarrow> v1alpha1_MeterDefinition \<times> go_error option) \<Rightarrow> string \<Rightarrow> string \<Rightarrow> string \<Rightarrow> string \<Rightarrow> string \<Rightarrow>
     v1alpha1_MeterDefinition \<times> go_error option" where
  "alpha_BuildMeterDefinitionFromString Decode meterdefString name namespace nameLabel namespaceLabel =
     (case Decode meterdefString of
        (md, Some err) \<Rightarrow> (md, Some err)
      | (md, None) \<Rightarrow>
          (md\<lparr>adMeta := named_by name namespace nameLabel namespaceLabel (adMeta md),
              adInstalledBy := Some (name, namespace)\<rparr>, None))"

definition annotation_of :: "v1beta1_MeterDefinition \<Rightarrow> string \<Rightarrow> string" where
  "annotation_of md k = (case omAnnotations (bdMeta md) k of None \<Rightarrow> [] | Some v \<Rightarrow> v)"

definition IsSigned :: "v1beta1_MeterDefinition \<Rightarrow> bool" where
  "IsSigned md \<longleftrightarrow>
     length (annotation_of md ''marketplace.redhat.com/publickey'') \<noteq> 0 \<and>
     length (annotation_of md ''marketplace.redhat.com/signature'') \<noteq> 0"

section \<open>The loops of the conversions\<close>

definition beta_type :: "Workload \<Rightarrow> string" where
  "beta_type w = fst (ConvertWorkloadTypeBeta (AlphaType (wlWorkloadType w)))"

definition alpha_type :: "string \<Rightarrow> string" where
  "alpha_type t = fst (ConvertWorkloadTypeAlpha (CommonType t))"

definition plain_type :: "string \<Rightarrow> bool" where
  "plain_type t \<longleftrightarrow> t = WorkloadTypePod \<or> t = WorkloadTypePVC \<or> t = WorkloadTypeService"

lemmas workload_type_defs = WorkloadTypePod_def WorkloadTypePVC_def WorkloadTypeService_def WorkloadTypeServiceMonitor_def

lemma beta_type_ok_iff:
  "snd (ConvertWorkloadTypeBeta (AlphaType t)) = None \<longleftrightarrow> plain_type t \<or> t = WorkloadTypeServiceMonitor"
  by (simp add: ConvertWorkloadTypeBeta_def plain_type_def Let_def)

lemma beta_type_plain: "plain_type (wlWorkloadType w) \<Longrightarrow> beta_type w = wlWorkloadType w"
  by (auto simp: beta_type_def ConvertWorkloadTypeBeta_def plain_type_def Let_def)

lemma beta_type_is_plain: "plain_type (beta_type w)"
  by (simp add: beta_type_def ConvertWorkloadTypeBeta_def plain_type_def Let_def)

lemma alpha_type_plain: "plain_type t \<Longrightarrow> alpha_type t = t"
  by (auto simp: alpha_type_def ConvertWorkloadTypeAlpha_def plain_type_def Let_def)

lemma alpha_type_is_plain: "plain_type (alpha_type t)"
  by (simp add: alpha_type_def ConvertWorkloadTypeAlpha_def plain_type_def Let_def)

definition converted_filters :: "NamespaceFilter option \<Rightarrow> Workload list \<Rightarrow> ResourceFilter list" where
  "converted_filters nf ws = map (\<lambda>w. workload_filter nf (beta_type w) w) ws"

definition converted_meters :: "Workload list \<Rightarrow> MeterWorkload list" where
  "converted_meters ws = concat (map (\<lambda>w. map (workload_meter (beta_type w) w) (wlMetricLabels w)) ws)"

lemma ConvertTo_loop_Inr:
  "ConvertTo_loop nf ws (fs, ms) = Inr r \<longleftrightarrow>
     (\<forall>w \<in> set ws. snd (ConvertWorkloadTypeBeta (AlphaType (wlWorkloadType w))) = None) \<and>
     r = (fs @ converted_filters nf ws, ms @ converted_meters ws)"
  by (induction ws arbitrary: fs ms)
     (auto simp: converted_filters_def converted_meters_def beta_type_def split: prod.splits option.splits)

lemma ConvertTo_Inr:
  "ConvertTo a = Inr b \<longleftrightarrow>
     (\<forall>w \<in> set (adWorkloads a). plain_type (wlWorkloadType w) \<or> wlWorkloadType w = WorkloadTypeServiceMonitor) \<and>
     b = \<lparr>bdMeta = adMeta a, bdGroup = adGroup a, bdKind = adKind a,
          bdResourceFilters = converted_filters (namespace_filters a) (adWorkloads a),
          bdMeters = converted_meters (adWorkloads a), bdInstalledBy = adInstalledBy a, bdStatus = adStatus a\<rparr>"
proof (cases "ConvertTo_loop (namespace_filters a) (adWorkloads a) ([], [])")
  case (Inl err)
  then have "\<not> (\<forall>w \<in> set (adWorkloads a). snd (ConvertWorkloadTypeBeta (AlphaType (wlWorkloadType w))) = None)"
    by (metis ConvertTo_loop_Inr sum.distinct(1))
  then show ?thesis using Inl by (auto simp: ConvertTo_def beta_type_ok_iff)
next
  case (Inr r)
  then show ?thesis using ConvertTo_loop_Inr [of "namespace_filters a" "adWorkloads a" "[]" "[]" r]
    by (auto simp: ConvertTo_def beta_type_ok_iff)
qed

lemma resource_map_lookup:
  "resource_map fs m t =
     (case m t of Some f \<Rightarrow> Some f | None \<Rightarrow> List.find (\<lambda>f. alpha_type (rfWorkloadType f) = t) fs)"
  by (induction fs arbitrary: m) (auto simp: alpha_type_def Let_def split: option.splits)

section \<open>Round trips\<close>

definition zero_meta :: object_meta where
  "zero_meta = \<lparr>omName = [], omNamespace = [], omUID = [], omVersion = 0, omAnnotations = Map.empty,
     omOwners = []\<rparr>"

definition zero_alpha :: v1alpha1_MeterDefinition where
  "zero_alpha = \<lparr>adMeta = zero_meta, adGroup = [], adKind = [], adInstalledBy = None, adWorkloadVertexType = [],
     adVertexLabelSelector = None, adWorkloads = [], adVersion = None, adServiceMeterLabels = [], adPodMeterLabels = [],
     adStatus = \<lparr>mdsConditions = [], mdsWorkloadResources = [], mdsResults = []\<rparr>\<rparr>"

text \<open>One workload for every metric label.\<close>

definition split_labels :: "Workload list \<Rightarrow> Workload list" where
  "split_labels ws = concat (map (\<lambda>w. map (\<lambda>l. w\<lparr>wlMetricLabels := [l]\<rparr>) (wlMetricLabels w)) ws)"

definition selectors :: "Workload \<Rightarrow> OwnerCRDFilter option \<times> LabelSelector option \<times> LabelSelector option" where
  "selectors w = (wlOwnerCRD w, wlLabelSelector w, wlAnnotationSelector w)"

text \<open>
  What a definition is after the way to the newer version and back: a workload that
  monitors services is one of services, there is a workload for every metric label with the
  selectors of the first workload of its type, only a namespace vertex keeps its selector,
  an unknown vertex is empty, and the fields the newer version has no place for are empty.
\<close>

definition normal_type :: "string \<Rightarrow> string" where
  "normal_type t = (if t = WorkloadTypeServiceMonitor then WorkloadTypeService else t)"

definition first_of_type :: "Workload list \<Rightarrow> string \<Rightarrow> Workload option" where
  "first_of_type ws t = List.find (\<lambda>v. normal_type (wlWorkloadType v) = normal_type t) ws"

definition normal_workload :: "Workload list \<Rightarrow> Workload \<Rightarrow> Workload list" where
  "normal_workload ws w =
     (case first_of_type ws (wlWorkloadType w) of
        None \<Rightarrow> []
      | Some v \<Rightarrow>
          map (\<lambda>l. \<lparr>wlName = wlName w, wlWorkloadType = normal_type (wlWorkloadType w), wlOwnerCRD = wlOwnerCRD v,
                    wlLabelSelector = wlLabelSelector v, wlAnnotationSelector = wlAnnotationSelector v,
                    wlMetricLabels = [l]\<rparr>) (wlMetricLabels w))"

definition alpha_normal :: "v1alpha1_MeterDefinition \<Rightarrow> v1alpha1_MeterDefinition" where
  "alpha_normal a =
     a\<lparr>adWorkloadVertexType :=
         (if adWorkloadVertexType a \<in> {WorkloadVertexNamespace, WorkloadVertexOperatorGroup} then adWorkloadVertexType a else []),
       adVertexLabelSelector := (if adWorkloadVertexType a = WorkloadVertexNamespace then adVertexLabelSelector a else None),
       adWorkloads := concat (map (normal_workload (adWorkloads a)) (adWorkloads a)),
       adVersion := None, adServiceMeterLabels := [], adPodMeterLabels := []\<rparr>"

definition known_type :: "string \<Rightarrow> bool" where
  "known_type t \<longleftrightarrow> plain_type t \<or> t = WorkloadTypeServiceMonitor"

lemma beta_type_known: "known_type (wlWorkloadType w) \<Longrightarrow> beta_type w = normal_type (wlWorkloadType w)"
  by (auto simp: known_type_def normal_type_def beta_type_def ConvertWorkloadTypeBeta_def plain_type_def Let_def
      workload_type_defs)

lemma find_map_image: "List.find P (map f xs) = map_option f (List.find (\<lambda>x. P (f x)) xs)"
  by (induction xs) simp_all

lemma find_cong_list: "(\<And>x. x \<in> set xs \<Longrightarrow> P x = Q x) \<Longrightarrow> List.find P xs = List.find Q xs"
  by (induction xs) auto

lemma resource_map_converted:
  assumes "\<forall>w \<in> set ws. known_type (wlWorkloadType w)" "w \<in> set ws"
  shows "resource_map (converted_filters nf ws) Map.empty (beta_type w) =
    map_option (\<lambda>v. workload_filter nf (beta_type v) v) (first_of_type ws (wlWorkloadType w))"
proof -
  have "List.find (\<lambda>v. alpha_type (rfWorkloadType (workload_filter nf (beta_type v) v)) = beta_type w) ws =
      List.find (\<lambda>v. normal_type (wlWorkloadType v) = normal_type (wlWorkloadType w)) ws"
  proof (rule find_cong_list)
    fix v assume "v \<in> set ws"
    have "alpha_type (rfWorkloadType (workload_filter nf (beta_type v) v)) = beta_type v"
      by (simp add: workload_filter_def alpha_type_plain beta_type_is_plain)
    then show "(alpha_type (rfWorkloadType (workload_filter nf (beta_type v) v)) = beta_type w) =
        (normal_type (wlWorkloadType v) = normal_type (wlWorkloadType w))"
      using assms \<open>v \<in> set ws\<close> by (simp add: beta_type_known)
  qed
  then show ?thesis
    by (simp add: resource_map_lookup converted_filters_def find_map_image first_of_type_def)
qed

lemma meter_workload_converted:
  assumes "\<forall>w \<in> set ws. known_type (wlWorkloadType w)" "w \<in> set ws"
  shows "map (meter_workload (resource_map (converted_filters nf ws) Map.empty))
      (map (workload_meter (beta_type w) w) (wlMetricLabels w)) = normal_workload ws w"
proof -
  have "first_of_type ws (wlWorkloadType w) \<noteq> None"
    using assms(2) by (auto simp: first_of_type_def find_None_iff)
  then obtain v where v: "first_of_type ws (wlWorkloadType w) = Some v" by blast
  have t: "fst (ConvertWorkloadTypeAlpha (CommonType (beta_type w))) = beta_type w"
    using beta_type_is_plain by (simp add: alpha_type_def [symmetric] alpha_type_plain)
  have "beta_type w = normal_type (wlWorkloadType w)" using assms by (simp add: beta_type_known)
  with v resource_map_converted [OF assms, of nf] t show ?thesis
    by (simp add: normal_workload_def meter_workload_def workload_meter_def workload_filter_def split: option.split)
qed

text \<open>A normal definition: nothing of it gets lost, apart from the division by metric labels.\<close>

definition convertible :: "v1alpha1_MeterDefinition \<Rightarrow> bool" where
  "convertible a \<longleftrightarrow>
     (\<forall>w \<in> set (adWorkloads a). plain_type (wlWorkloadType w)) \<and>
     (\<forall>w \<in> set (adWorkloads a). \<forall>v \<in> set (adWorkloads a).
        wlWorkloadType v = wlWorkloadType w \<longrightarrow> selectors v = selectors w) \<and>
     (adWorkloadVertexType a = WorkloadVertexNamespace \<or>
      adWorkloadVertexType a = WorkloadVertexOperatorGroup \<and> adVertexLabelSelector a = None) \<and>
     adVersion a = None \<and> adServiceMeterLabels a = [] \<and> adPodMeterLabels a = []"

lemma alpha_normal_convertible:
  assumes "convertible a"
  shows "alpha_normal a = a\<lparr>adWorkloads := split_labels (adWorkloads a)\<rparr>"
proof -
  have "normal_workload (adWorkloads a) w = map (\<lambda>l. w\<lparr>wlMetricLabels := [l]\<rparr>) (wlMetricLabels w)" if w: "w \<in> set (adWorkloads a)" for w
  proof -
    have "first_of_type (adWorkloads a) (wlWorkloadType w) \<noteq> None"
      using w by (auto simp: first_of_type_def find_None_iff)
    then obtain v where v: "first_of_type (adWorkloads a) (wlWorkloadType w) = Some v" by blast
    then have vs: "v \<in> set (adWorkloads a)" "normal_type (wlWorkloadType v) = normal_type (wlWorkloadType w)"
      unfolding first_of_type_def find_Some_iff by auto
    have plain: "normal_type (wlWorkloadType u) = wlWorkloadType u" if "u \<in> set (adWorkloads a)" for u
      using assms that by (auto simp: convertible_def plain_type_def normal_type_def workload_type_defs)
    have "wlWorkloadType v = wlWorkloadType w" using vs(2) plain [OF vs(1)] plain [OF w] by simp
    then have "selectors v = selectors w" using assms vs(1) w unfolding convertible_def by blast
    then show ?thesis using v plain [OF w] by (simp add: normal_workload_def selectors_def)
  qed
  then have "concat (map (normal_workload (adWorkloads a)) (adWorkloads a)) = split_labels (adWorkloads a)"
    unfolding split_labels_def by (intro arg_cong [where f = concat] map_cong) simp_all
  then show ?thesis using assms
    by (cases a) (auto simp: alpha_normal_def convertible_def WorkloadVertexNamespace_def WorkloadVertexOperatorGroup_def)
qed

text \<open>
  C29: The way of a definition of the older version to the newer one and back, for every
  definition. The way there fails exactly when a workload has an unknown type. The way back
  fails when there is no workload, and otherwise gives the normal form of the definition:
  a service monitor comes back as a service, workloads of one type with the selectors of the
  first of them, a vertex other than a namespace without its selector, and version and the two lists of labels empty.
  A definition without any of these is itself afterwards, with one workload for every
  metric label.
\<close>

theorem alpha_round_trip:
  "(case ConvertTo a of
      Inl err \<Rightarrow> \<not> (\<forall>w \<in> set (adWorkloads a). known_type (wlWorkloadType w))
    | Inr b \<Rightarrow> (\<forall>w \<in> set (adWorkloads a). known_type (wlWorkloadType w)) \<and>
        (if adWorkloads a = [] then \<exists>err. ConvertFrom b zero_alpha = Inl err
         else ConvertFrom b zero_alpha = Inr (alpha_normal a))) \<and>
   (convertible a \<longrightarrow> alpha_normal a = a\<lparr>adWorkloads := split_labels (adWorkloads a)\<rparr>)"
proof (intro conjI impI alpha_normal_convertible)
  show "case ConvertTo a of
      Inl err \<Rightarrow> \<not> (\<forall>w \<in> set (adWorkloads a). known_type (wlWorkloadType w))
    | Inr b \<Rightarrow> (\<forall>w \<in> set (adWorkloads a). known_type (wlWorkloadType w)) \<and>
        (if adWorkloads a = [] then \<exists>err. ConvertFrom b zero_alpha = Inl err
         else ConvertFrom b zero_alpha = Inr (alpha_normal a))"
  proof (cases "ConvertTo a")
    case (Inl err)
    then have "\<not> (\<forall>w \<in> set (adWorkloads a). known_type (wlWorkloadType w))"
      using ConvertTo_Inr [of a] unfolding known_type_def by (metis sum.distinct(1))
    then show ?thesis using Inl by simp
  next
    case (Inr b)
    then have known: "\<forall>w \<in> set (adWorkloads a). known_type (wlWorkloadType w)"
      and fields: "b = \<lparr>bdMeta = adMeta a, bdGroup = adGroup a, bdKind = adKind a,
        bdResourceFilters = converted_filters (namespace_filters a) (adWorkloads a),
        bdMeters = converted_meters (adWorkloads a), bdInstalledBy = adInstalledBy a, bdStatus = adStatus a\<rparr>"
      by (simp_all add: ConvertTo_Inr known_type_def)
    show ?thesis
    proof (cases "adWorkloads a")
      case Nil
      then show ?thesis using Inr by (simp add: fields converted_filters_def ConvertFrom_def)
    next
      case (Cons w ws)
      let ?m = "resource_map (converted_filters (namespace_filters a) (adWorkloads a)) Map.empty"
      have "map (meter_workload ?m) (converted_meters (adWorkloads a)) =
          concat (map (normal_workload (adWorkloads a)) (adWorkloads a))"
        unfolding converted_meters_def map_concat map_map comp_def
        by (intro arg_cong [where f = concat] map_cong refl)
          (use meter_workload_converted [OF known] in \<open>simp add: comp_def\<close>)
      moreover have "set_vertex (namespace_filters a) zero_alpha = zero_alpha\<lparr>
          adWorkloadVertexType := adWorkloadVertexType (alpha_normal a), adVertexLabelSelector := adVertexLabelSelector (alpha_normal a)\<rparr>"
        by (auto simp: set_vertex_def namespace_filters_def zero_alpha_def alpha_normal_def WorkloadVertexNamespace_def
            WorkloadVertexOperatorGroup_def)
      moreover obtain fs where "converted_filters (namespace_filters a) (adWorkloads a) =
          workload_filter (namespace_filters a) (beta_type w) w # fs" by (simp add: Cons converted_filters_def)
      moreover have "rfNamespace (workload_filter (namespace_filters a) (beta_type w) w) = namespace_filters a"
        by (simp add: workload_filter_def)
      ultimately have "ConvertFrom b zero_alpha = Inr (alpha_normal a)"
        by (simp add: ConvertFrom_def fields zero_alpha_def alpha_normal_def)
      then show ?thesis using Inr known Cons by simp
    qed
  qed
qed

text \<open>What a meter of the newer version keeps on the way through the older one.\<close>

definition meter_core :: "MeterWorkload \<Rightarrow> string \<times> string \<times> string \<times> string \<times> string" where
  "meter_core m = (mwMetric m, mwName m, alpha_type (mwWorkloadType m), mwAggregation m, mwQuery m)"

text \<open>
  A definition of the newer version that is converted to the older one and back keeps
  every meter's metric, name, query and aggregation, and its type if that is a
  known one; the period becomes an hour, the grouping empty, and the other fields are lost.
\<close>

theorem beta_round_trip:
  assumes "ConvertFrom b dst = Inr a"
  shows "\<exists>b'. ConvertTo a = Inr b' \<and> map meter_core (bdMeters b') = map meter_core (bdMeters b) \<and>
    (\<forall>m \<in> set (bdMeters b'). mwPeriod m = Some hour \<and> mwGroupBy m = Some [] \<and> mwWithout m = None \<and>
       mwMetricType m = [] \<and> mwLabel m = [] \<and> mwUnit m = [] \<and> plain_type (mwWorkloadType m)) \<and>
    length (bdResourceFilters b') = length (bdMeters b)"
proof -
  define m where "m = resource_map (bdResourceFilters b) Map.empty"
  have ws: "adWorkloads a = map (meter_workload m) (bdMeters b)"
    using assms by (auto simp: ConvertFrom_def m_def Let_def split: list.splits)
  have type: "wlWorkloadType (meter_workload m x) = alpha_type (mwWorkloadType x)" for x
    by (simp add: meter_workload_def alpha_type_def Let_def)
  then have plain: "\<forall>w \<in> set (adWorkloads a). plain_type (wlWorkloadType w)"
    by (auto simp: ws alpha_type_is_plain)
  then obtain b' where b': "ConvertTo a = Inr b'" using ConvertTo_Inr by blast
  have meters: "bdMeters b' = converted_meters (adWorkloads a)"
    and filters: "bdResourceFilters b' = converted_filters (namespace_filters a) (adWorkloads a)"
    using b' by (simp_all add: ConvertTo_Inr)
  have one: "map (workload_meter (beta_type (meter_workload m x)) (meter_workload m x)) (wlMetricLabels (meter_workload m x)) =
      [workload_meter (alpha_type (mwWorkloadType x)) (meter_workload m x)
        \<lparr>mlLabel = mwMetric x, mlQuery = mwQuery x, mlAggregation = mwAggregation x\<rparr>]" for x
    by (simp add: beta_type_plain type alpha_type_is_plain) (simp add: meter_workload_def Let_def)
  have "meter_core (workload_meter (alpha_type (mwWorkloadType x)) (meter_workload m x)
        \<lparr>mlLabel = mwMetric x, mlQuery = mwQuery x, mlAggregation = mwAggregation x\<rparr>) = meter_core x" for x
    by (simp add: meter_core_def workload_meter_def meter_workload_def alpha_type_plain alpha_type_is_plain Let_def)
  then have "map meter_core (bdMeters b') = map meter_core (bdMeters b)"
    by (simp add: meters ws converted_meters_def comp_def one map_concat concat_map_singleton)
  moreover have "\<forall>x \<in> set (bdMeters b'). mwPeriod x = Some hour \<and> mwGroupBy x = Some [] \<and> mwWithout x = None \<and>
       mwMetricType x = [] \<and> mwLabel x = [] \<and> mwUnit x = [] \<and> plain_type (mwWorkloadType x)"
    by (auto simp: meters converted_meters_def workload_meter_def beta_type_is_plain)
  ultimately show ?thesis using b' by (auto simp: filters ws converted_filters_def)
qed

section \<open>Labels and built definitions\<close>

text \<open>What the labels of either version say of a meter.\<close>

definition alpha_view :: "smap \<Rightarrow> string option list" where
  "alpha_view m = map m [''meter_definition_uid'', ''metric_label'', ''metric_aggregation'', ''metric_query'',
     ''meter_group'', ''meter_kind'']"

definition beta_view :: "MeterDefPrometheusLabels \<Rightarrow> string option list" where
  "beta_view l = map Some [plUID l, plMetric l, plMetricAggregation l, plMetricQuery l, plMeterGroup l, plMeterKind l]"

text \<open>
  Both versions of a definition yield the same meters for Prometheus, in the same order:
  the same metric, aggregation, query, group, kind and definition. The workload's name
  differs: the newer version gives the metric.
\<close>

theorem converted_labels_agree:
  assumes "ConvertTo a = Inr b"
  shows "map beta_view (beta_ToPrometheusLabels b) = map alpha_view (alpha_ToPrometheusLabels a) \<and>
    (\<forall>l \<in> set (beta_ToPrometheusLabels b). plMetricPeriod l = Some hour \<and> plWorkloadName l = plMetric l)"
proof -
  have b: "beta_ToPrometheusLabels b = map (meter_labels (beta_spec b) (omUID (bdMeta b)) (omName (bdMeta b)) (omNamespace (bdMeta b)))
      (converted_meters (adWorkloads a))" "bdMeta b = adMeta a" "beta_spec b =
      \<lparr>mspGroup = adGroup a, mspKind = adKind a, mspMeters = converted_meters (adWorkloads a)\<rparr>"
    using assms by (simp_all add: ConvertTo_Inr beta_ToPrometheusLabels_def spec_ToPrometheusLabels_def beta_spec_def)
  show ?thesis
    by (auto simp: b alpha_ToPrometheusLabels_def converted_meters_def map_concat comp_def beta_view_def alpha_view_def
        meter_labels_def alpha_labels_def workload_meter_def)
qed

text \<open>
  A definition built from text has only the two annotations that name its operator: a
  signature the text carried is dropped.
\<close>

theorem built_definition_unsigned:
  assumes "BuildMeterDefinitionFromString Decode txt_in name namespace nameLabel namespaceLabel = (md, None)"
    and "''marketplace.redhat.com/signature'' \<notin> {nameLabel, namespaceLabel}"
  shows "\<not> IsSigned md \<and> bdInstalledBy md = Some (name, namespace) \<and> omNamespace (bdMeta md) = namespace"
  using assms by (auto simp: BuildMeterDefinitionFromString_def named_by_def IsSigned_def annotation_of_def
      split: prod.splits option.splits)

section \<open>Witnesses\<close>

definition demo_selector :: LabelSelector where
  "demo_selector = \<lparr>lsMatchLabels = [(''app'', ''db'')], lsMatchExpressions = []\<rparr>"

definition demo_query :: "string \<Rightarrow> MeterLabelQuery" where
  "demo_query l = \<lparr>mlLabel = l, mlQuery = ''up'', mlAggregation = ''sum''\<rparr>"

definition demo_pods :: Workload where
  "demo_pods = \<lparr>wlName = ''pods'', wlWorkloadType = WorkloadTypePod, wlOwnerCRD = None,
     wlLabelSelector = Some demo_selector, wlAnnotationSelector = None,
     wlMetricLabels = [demo_query ''cores'', demo_query ''memory'']\<rparr>"

definition demo_volumes :: Workload where
  "demo_volumes = \<lparr>wlName = ''volumes'', wlWorkloadType = WorkloadTypePVC,
     wlOwnerCRD = Some \<lparr>ocAPIVersion = ''db/v1'', ocKind = ''Db''\<rparr>,
     wlLabelSelector = None, wlAnnotationSelector = None, wlMetricLabels = [demo_query ''disk'']\<rparr>"

definition demo_alpha :: v1alpha1_MeterDefinition where
  "demo_alpha = zero_alpha\<lparr>adGroup := ''db'', adKind := ''Db'', adWorkloadVertexType := WorkloadVertexOperatorGroup,
     adWorkloads := [demo_pods, demo_volumes]\<rparr>"

lemmas demo_alpha_defs = demo_alpha_def demo_pods_def demo_volumes_def zero_alpha_def

theorem alpha_round_trip_witness:
  "\<exists>b a. ConvertTo demo_alpha = Inr b \<and> ConvertFrom b zero_alpha = Inr a \<and> convertible demo_alpha \<and>
     a = demo_alpha\<lparr>adWorkloads := split_labels [demo_pods, demo_volumes]\<rparr> \<and>
     map wlName (adWorkloads a) = [''pods'', ''pods'', ''volumes'']"
proof -
  have c: "convertible demo_alpha"
    by (simp add: convertible_def demo_alpha_defs plain_type_def selectors_def workload_type_defs)
  have k: "\<forall>w \<in> set (adWorkloads demo_alpha). known_type (wlWorkloadType w)" "adWorkloads demo_alpha = [demo_pods, demo_volumes]"
    by (simp_all add: demo_alpha_defs known_type_def plain_type_def)
  note rt = alpha_round_trip [of demo_alpha]
  obtain b where b: "ConvertTo demo_alpha = Inr b" "ConvertFrom b zero_alpha = Inr (alpha_normal demo_alpha)"
    using rt k by (cases "ConvertTo demo_alpha") auto
  have n: "alpha_normal demo_alpha = demo_alpha\<lparr>adWorkloads := split_labels [demo_pods, demo_volumes]\<rparr>"
    using rt c k(2) by simp
  show ?thesis using b c n by (intro exI [of _ b] exI [of _ "alpha_normal demo_alpha"])
    (simp add: split_labels_def demo_pods_def demo_volumes_def)
qed

definition demo_beta :: v1beta1_MeterDefinition where
  "demo_beta = \<lparr>bdMeta = zero_meta\<lparr>omName := ''md'', omUID := ''u1''\<rparr>, bdGroup = ''db'', bdKind = ''Db'',
     bdResourceFilters = [workload_filter None WorkloadTypePod demo_pods],
     bdMeters = [(workload_meter WorkloadTypePod demo_pods (demo_query ''cores''))\<lparr>mwPeriod := Some (24 * hour)\<rparr>],
     bdInstalledBy = None, bdStatus = \<lparr>mdsConditions = [], mdsWorkloadResources = [], mdsResults = []\<rparr>\<rparr>"

theorem beta_round_trip_witness:
  "\<exists>a b' m. ConvertFrom demo_beta zero_alpha = Inr a \<and> ConvertTo a = Inr b' \<and> bdMeters b' = [m] \<and>
     mwMetric m = ''cores'' \<and> mwPeriod m = Some hour"
proof -
  obtain a where a: "ConvertFrom demo_beta zero_alpha = Inr a"
    by (simp add: ConvertFrom_def demo_beta_def Let_def)
  obtain b' where b': "ConvertTo a = Inr b'" "map meter_core (bdMeters b') = map meter_core (bdMeters demo_beta)"
    "\<forall>m \<in> set (bdMeters b'). mwPeriod m = Some hour"
    using beta_round_trip [OF a] by blast
  have "map meter_core (bdMeters demo_beta) = [meter_core (hd (bdMeters demo_beta))]" by (simp add: demo_beta_def)
  then obtain m where "bdMeters b' = [m]" "meter_core m = meter_core (hd (bdMeters demo_beta))" using b'(2) by auto
  then show ?thesis using a b' by (auto simp: meter_core_def demo_beta_def workload_meter_def demo_query_def)
qed

lemma alpha_view_label: "alpha_view (alpha_labels a w l) ! Suc 0 = Some (mlLabel l)"
  by (simp add: alpha_view_def alpha_labels_def)

theorem converted_labels_agree_witness:
  "\<exists>b. ConvertTo demo_alpha = Inr b \<and> map plMetric (beta_ToPrometheusLabels b) = [''cores'', ''memory'', ''disk'']"
proof -
  obtain b where b: "ConvertTo demo_alpha = Inr b"
    using ConvertTo_Inr by (simp add: demo_alpha_defs plain_type_def)
  have views: "map beta_view (beta_ToPrometheusLabels b) = map alpha_view (alpha_ToPrometheusLabels demo_alpha)"
    using converted_labels_agree [OF b] by simp
  have "plMetric l = the (beta_view l ! 1)" for l by (simp add: beta_view_def)
  then have "map plMetric (beta_ToPrometheusLabels b) = map (\<lambda>v. the (v ! 1)) (map beta_view (beta_ToPrometheusLabels b))"
    by simp
  also have "\<dots> = map (\<lambda>m. the (alpha_view m ! 1)) (alpha_ToPrometheusLabels demo_alpha)"
    by (simp add: views comp_def)
  also have "\<dots> = map mlLabel (concat (map wlMetricLabels (adWorkloads demo_alpha)))"
    by (simp add: alpha_ToPrometheusLabels_def map_concat comp_def alpha_view_label)
  also have "\<dots> = [''cores'', ''memory'', ''disk'']" by (simp add: demo_alpha_defs demo_query_def)
  finally show ?thesis by (intro exI [of _ b] conjI b)
qed

definition demo_signed :: v1beta1_MeterDefinition where
  "demo_signed = demo_beta\<lparr>bdMeta := zero_meta\<lparr>omAnnotations :=
     [''marketplace.redhat.com/publickey'' \<mapsto> ''key'', ''marketplace.redhat.com/signature'' \<mapsto> ''sig'']\<rparr>\<rparr>"

theorem built_definition_unsigned_witness:
  "IsSigned demo_signed \<and>
   (\<exists>md. BuildMeterDefinitionFromString (\<lambda>s. (demo_signed, None)) [] ''op.v1'' ''ns'' ''csvName'' ''csvNamespace'' = (md, None) \<and>
     \<not> IsSigned md)"
proof -
  obtain md where md: "BuildMeterDefinitionFromString (\<lambda>s. (demo_signed, None)) [] ''op.v1'' ''ns'' ''csvName'' ''csvNamespace'' = (md, None)"
    by (simp add: BuildMeterDefinitionFromString_def)
  show ?thesis using md built_definition_unsigned [OF md]
    by (auto simp: demo_signed_def IsSigned_def annotation_of_def)
qed

end
