(* ===== verification/Signatures.thy ===== *)
theory Signatures
  imports MeterConversions
begin

text \<open>
  Signatures of meter definitions (\<open>v2/pkg/utils/signer/signer.go\<close>, and \<open>ValidateSignature\<close> of
  \<open>v2/api/marketplace/v1beta1/meterdefinition_types.go\<close>). A signed object carries a
  certificate and a signature of its kind and specification in two annotations.

  PEM, certificates, RSA and SHA-256 are fields of an environment: \<open>sgVerify root signed\<close>
  is the chain check of two certificates, \<open>sgVerifyPSS\<close> the check of a signature. Hexadecimal
  text is decoded by a definition of this theory.
\<close>

section \<open>Objects\<close>

text \<open>An unstructured object is a single one, with its kind, annotations and specification, or a list.\<close>

datatype unstructured =
    UObject (uoKind: "string \<times> string") (uoAnnotations: smap) (uoSpec: string)
  | UList "unstructured list"

record ('cert, 'key) sign_env =
  sgPemDecode :: "bytes \<Rightarrow> bytes option"
  sgParseCertificate :: "bytes \<Rightarrow> 'cert result"
  sgPublicKey :: "'cert \<Rightarrow> 'key option"
  sgVerify :: "'cert \<Rightarrow> 'cert \<Rightarrow> go_error option"
  sgMarshalJSON :: "(string \<times> string) \<times> string \<Rightarrow> bytes result"
  sgSum256 :: "bytes \<Rightarrow> bytes"
  sgVerifyPSS :: "'key \<Rightarrow> bytes \<Rightarrow> bytes \<Rightarrow> go_error option"
  sgAsset :: bytes

section \<open>Hexadecimal text\<close>

definition hex_digit :: "char \<Rightarrow> nat option" where
  "hex_digit c =
     (let n = of_char c :: nat in
      if 48 \<le> n \<and> n \<le> 57 then Some (n - 48)
      else if 97 \<le> n \<and> n \<le> 102 then Some (n - 87)
      else if 65 \<le> n \<and> n \<le> 70 then Some (n - 55) else None)"

fun hex_DecodeString :: "string \<Rightarrow> bytes result" where
  "hex_DecodeString [] = Inr []"
| "hex_DecodeString [c] = Inl (Err ''encoding/hex: odd length hex string'')"
| "hex_DecodeString (a # b # rest) =
     (case (hex_digit a, hex_digit b) of
        (Some h, Some l) \<Rightarrow>
          (case hex_DecodeString rest of
             Inl err \<Rightarrow> Inl err
           | Inr bs \<Rightarrow> Inr (char_of (16 * h + l) # bs))
      | _ \<Rightarrow> Inl (Err ''encoding/hex: invalid byte''))"

section \<open>Operations\<close>

definition CertificateFromPemBytes :: "('cert, 'key) sign_env \<Rightarrow> bytes \<Rightarrow> 'cert result" where
  "CertificateFromPemBytes E pemData =
     (case sgPemDecode E pemData of
        None \<Rightarrow> Inl (Err ''failed to decode certificate PEM'')
      | Some block \<Rightarrow>
          (case sgParseCertificate E block of
             Inl err \<Rightarrow> Inl (wrap ''failed to parse certificate block'' err)
           | Inr cert \<Rightarrow>
               (case sgPublicKey E cert of
                  None \<Rightarrow> Inl (Err ''Certificate PublicKey is not RSA. Only RSA is supported.'')
                | Some k \<Rightarrow> Inr cert)))"

definition CertificateFromAssets :: "('cert, 'key) sign_env \<Rightarrow> 'cert result" where
  "CertificateFromAssets E = CertificateFromPemBytes E (sgAsset E)"

definition UnstructuredToGVKSpecBytes :: "('cert, 'key) sign_env \<Rightarrow> string \<times> string \<Rightarrow> string \<Rightarrow> bytes result" where
  "UnstructuredToGVKSpecBytes E gvk spec = sgMarshalJSON E (gvk, spec)"

definition VerifyCert :: "('cert, 'key) sign_env \<Rightarrow> 'cert \<Rightarrow> 'cert \<Rightarrow> go_error option" where
  "VerifyCert E root leaf = sgVerify E root leaf"

definition annotation :: "smap \<Rightarrow> string \<Rightarrow> string" where
  "annotation m k = (case m k of None \<Rightarrow> [] | Some v \<Rightarrow> v)"

text \<open>
  The check of a single object. The outcome of \<open>VerifyCert\<close> is not assigned, so that the
  test after it looks at the error of the certificate's decoding, which is nil there.
\<close>

definition verify_object ::
  "('cert, 'key) sign_env \<Rightarrow> string \<times> string \<Rightarrow> smap \<Rightarrow> string \<Rightarrow> 'cert \<Rightarrow> go_error option" where
  "verify_object E gvk annotations spec caCert =
     (case CertificateFromPemBytes E (annotation annotations ''marketplace.redhat.com/publickey'') of
        Inl err \<Rightarrow> Some (wrap ''public key annotation is malformed'' err)
      | Inr pubCert \<Rightarrow>
          (let err = None; _ = VerifyCert E caCert pubCert in
           case err of
             Some e \<Rightarrow> Some (wrap ''failed to verify public certificate against ca certificate'' e)
           | None \<Rightarrow>
               (case UnstructuredToGVKSpecBytes E gvk spec of
                  Inl e \<Rightarrow> Some (wrap ''could not MarshalJSON'' e)
                | Inr bs \<Rightarrow>
                    (case hex_DecodeString (annotation annotations ''marketplace.redhat.com/signature'') of
                       Inl e \<Rightarrow> Some (wrap ''signature is malformed, can not hex decode'' e)
                     | Inr signaturehex \<Rightarrow>
                         (case sgPublicKey E pubCert of
                            None \<Rightarrow> None
                          | Some key \<Rightarrow>
                              (case sgVerifyPSS E key (sgSum256 E bs) signaturehex of
                                 Some e \<Rightarrow> Some (wrap ''failed to VerifyPSS'' e)
                               | None \<Rightarrow> None))))))"

text \<open>The loop over a list returns in its first round.\<close>

fun VerifySignature :: "('cert, 'key) sign_env \<Rightarrow> unstructured \<Rightarrow> 'cert \<Rightarrow> go_error option"
and VerifySignatureArray :: "('cert, 'key) sign_env \<Rightarrow> unstructured list \<Rightarrow> 'cert \<Rightarrow> go_error option" where
  "VerifySignature E (UList items) caCert = VerifySignatureArray E items caCert"
| "VerifySignature E (UObject gvk annotations spec) caCert = verify_object E gvk annotations spec caCert"
| "VerifySignatureArray E [] caCert = None"
| "VerifySignatureArray E (uobj # uobjs) caCert = VerifySignature E uobj caCert"

text \<open>\<open>ToUnstructured\<close> converts the typed definition; it is an argument.\<close>

definition ValidateSignature ::
  "('cert, 'key) sign_env \<Rightarrow> (v1beta1_MeterDefinition \<Rightarrow> unstructured result) \<Rightarrow> v1beta1_MeterDefinition \<Rightarrow>
     go_error option" where
  "ValidateSignature E ToUnstructured r =
     (case ToUnstructured r of
        Inl err \<Rightarrow> Some err
      | Inr u \<Rightarrow>
          (case CertificateFromAssets E of
             Inl err \<Rightarrow> Some err
           | Inr caCert \<Rightarrow> VerifySignature E u caCert))"

section \<open>Keys\<close>

text \<open>
  The private key of a signing tool. \<open>errors.Wrap\<close> of a nil error is nil, so that a file
  without a key block, or with another kind of key, gives neither a key nor an error. A
  parsed key may be an RSA key or another one (\<open>Inr None\<close>).
\<close>

record 'priv key_env =
  kyReadFile :: "string \<Rightarrow> bytes result"
  kyPemDecode :: "bytes \<Rightarrow> (string \<times> bytes) option"
  kyDecrypt :: "bytes \<Rightarrow> string \<Rightarrow> bytes result"
  kyParsePKCS1 :: "bytes \<Rightarrow> 'priv option result"
  kyParsePKCS8 :: "bytes \<Rightarrow> 'priv option result"

definition PrivateKeyFromPemFile :: "'priv key_env \<Rightarrow> string \<Rightarrow> string \<Rightarrow> 'priv option result" where
  "PrivateKeyFromPemFile K privateKeyFile privateKeyPassword =
     (case kyReadFile K privateKeyFile of
        Inl err \<Rightarrow> Inl (wrap ''Unable to read private key file'' err)
      | Inr dat \<Rightarrow>
          (case kyPemDecode K dat of
             None \<Rightarrow> Inr None
           | Some (typ, block) \<Rightarrow>
               (if typ \<noteq> ''RSA PRIVATE KEY'' then Inr None
                else
                  (case (if privateKeyPassword \<noteq> [] then kyDecrypt K block privateKeyPassword else Inr block) of
                     Inl err \<Rightarrow> Inl err
                   | Inr bs \<Rightarrow>
                       (case kyParsePKCS1 K bs of
                          Inr key \<Rightarrow> Inr key
                        | Inl _ \<Rightarrow>
                            (case kyParsePKCS8 K bs of
                               Inl err \<Rightarrow> Inl (wrap ''Unable to parse private key'' err)
                             | Inr key \<Rightarrow> Inr key))))))"

section \<open>The decoder of the signing tool\<close>

text \<open>
  One call of the decoder ends the input, fails or reads an object, which may be empty.
  The loop goes on after a failure. Its answers are numbered; the loop may never end.
\<close>

datatype decoded = DEOF | DError go_error | DRead bool unstructured

partial_function (option) Decode_loop ::
  "(nat \<Rightarrow> decoded) \<Rightarrow> nat \<Rightarrow> unstructured list \<Rightarrow> unstructured list option" where
  "Decode_loop nxt i objs =
     (case nxt i of
        DEOF \<Rightarrow> Some objs
      | DError err \<Rightarrow> Decode_loop nxt (Suc i) objs
      | DRead nonempty out \<Rightarrow> Decode_loop nxt (Suc i) (if nonempty then objs @ [out] else objs))"

definition signer_Decode :: "(nat \<Rightarrow> decoded) \<Rightarrow> unstructured list option" where
  "signer_Decode nxt = Decode_loop nxt 0 []"

section \<open>What is checked\<close>

lemma verify_object_None:
  "verify_object E gvk ann spec ca = None \<longleftrightarrow>
     (\<exists>cert key bs sig.
        CertificateFromPemBytes E (annotation ann ''marketplace.redhat.com/publickey'') = Inr cert \<and>
        sgPublicKey E cert = Some key \<and> UnstructuredToGVKSpecBytes E gvk spec = Inr bs \<and>
        hex_DecodeString (annotation ann ''marketplace.redhat.com/signature'') = Inr sig \<and>
        sgVerifyPSS E key (sgSum256 E bs) sig = None)"
  by (auto simp: verify_object_def CertificateFromPemBytes_def split: sum.splits option.splits)

text \<open>
  A definition whose signature is accepted has a signature of its kind and specification
  that fits the certificate it carries.
\<close>

theorem valid_signature_covers_spec:
  assumes "ValidateSignature E ToUnstructured md = None" "ToUnstructured md = Inr (UObject gvk ann spec)"
  shows "\<exists>cert key bs sig.
    CertificateFromPemBytes E (annotation ann ''marketplace.redhat.com/publickey'') = Inr cert \<and>
    sgPublicKey E cert = Some key \<and> sgMarshalJSON E (gvk, spec) = Inr bs \<and>
    hex_DecodeString (annotation ann ''marketplace.redhat.com/signature'') = Inr sig \<and>
    sgVerifyPSS E key (sgSum256 E bs) sig = None"
  using assms by (auto simp: ValidateSignature_def verify_object_None UnstructuredToGVKSpecBytes_def split: sum.splits)

lemma verify_object_authority:
  "verify_object (E\<lparr>sgVerify := chain\<rparr>) gvk ann spec ca = verify_object E gvk ann spec ca'"
proof -
  have cert: "CertificateFromPemBytes (E\<lparr>sgVerify := chain\<rparr>) b = CertificateFromPemBytes E b" for b
    by (simp add: CertificateFromPemBytes_def split: sum.split option.split)
  show ?thesis by (simp add: verify_object_def cert UnstructuredToGVKSpecBytes_def split: sum.split option.split)
qed

lemma VerifySignature_authority:
  "VerifySignature (E\<lparr>sgVerify := chain\<rparr>) u ca = VerifySignature E u ca'"
proof -
  have "VerifySignature (E\<lparr>sgVerify := chain\<rparr>) u ca = VerifySignature E u ca'" and
    "VerifySignatureArray (E\<lparr>sgVerify := chain\<rparr>) us ca = VerifySignatureArray E us ca'" for us
    by (induction E u ca and E us ca rule: VerifySignature_VerifySignatureArray.induct)
       (auto intro: verify_object_authority)
  then show ?thesis by blast
qed

text \<open>What a signer writes: the signature in hexadecimal, which is read back.\<close>

definition hex_char :: "nat \<Rightarrow> char" where
  "hex_char n = (if n < 10 then char_of (48 + n) else char_of (87 + n))"

definition hex_EncodeToString :: "bytes \<Rightarrow> string" where
  "hex_EncodeToString bs = concat (map (\<lambda>c. [hex_char (of_char c div 16), hex_char (of_char c mod 16)]) bs)"

lemma hex_digit_char: "n < 16 \<Longrightarrow> hex_digit (hex_char n) = Some n"
  by (auto simp: hex_digit_def hex_char_def Let_def)

lemma hex_round_trip: "hex_DecodeString (hex_EncodeToString bs) = Inr bs"
proof (induction bs)
  case (Cons c bs)
  have "(of_char c :: nat) div 16 < 16" using nat_of_char_less_256 [of c] by linarith
  then have "hex_digit (hex_char (of_char c div 16)) = Some (of_char c div 16)"
    "hex_digit (hex_char (of_char c mod 16)) = Some (of_char c mod 16)" by (simp_all add: hex_digit_char)
  moreover have "char_of (16 * (of_char c div 16) + of_char c mod 16 :: nat) = c" by simp
  ultimately show ?case using Cons by (simp add: hex_EncodeToString_def)
qed (simp add: hex_EncodeToString_def)

text \<open>
  C27: The certificate authority plays no part. An object that carries any RSA certificate at
  all, such as one of the signer's own making, and a signature of its kind and specification
  that fits this certificate is accepted, whatever certificate is taken for the authority
  and even when the chain check of the certificate against it fails; and of no object does the
  verdict depend on the authority or on the chain check.
\<close>

theorem authority_not_checked:
  assumes "CertificateFromPemBytes E pem = Inr cert" "sgPublicKey E cert = Some key"
    and "sgMarshalJSON E (gvk, spec) = Inr bs" "sgVerifyPSS E key (sgSum256 E bs) sig = None"
  shows "VerifySignature (E\<lparr>sgVerify := chain\<rparr>)
       (UObject gvk (ann(''marketplace.redhat.com/publickey'' \<mapsto> pem,
                         ''marketplace.redhat.com/signature'' \<mapsto> hex_EncodeToString sig)) spec) ca = None \<and>
     (\<forall>u ca'. VerifySignature (E\<lparr>sgVerify := chain\<rparr>) u ca = VerifySignature E u ca')"
proof -
  let ?ann = "ann(''marketplace.redhat.com/publickey'' \<mapsto> pem, ''marketplace.redhat.com/signature'' \<mapsto> hex_EncodeToString sig)"
  have "verify_object E gvk ?ann spec ca = None"
    unfolding verify_object_None using assms
    by (intro exI [of _ cert] exI [of _ key] exI [of _ bs] exI [of _ sig])
      (simp add: annotation_def hex_round_trip UnstructuredToGVKSpecBytes_def)
  then have "VerifySignature (E\<lparr>sgVerify := chain\<rparr>) (UObject gvk ?ann spec) ca = None"
    unfolding VerifySignature_authority [where ca' = ca] by simp
  moreover have "\<forall>u ca'. VerifySignature (E\<lparr>sgVerify := chain\<rparr>) u ca = VerifySignature E u ca'"
    by (intro allI) (rule VerifySignature_authority)
  ultimately show ?thesis ..
qed

text \<open>Of a list only the first object is verified.\<close>

theorem only_first_verified: "VerifySignature E (UList (u # us)) ca = VerifySignature E u ca"
  by simp

text \<open>A key file that has no RSA key block gives neither a key nor an error.\<close>

theorem missing_key_no_error:
  assumes "kyReadFile K f = Inr dat" "kyPemDecode K dat = None \<or> kyPemDecode K dat = Some (typ, block) \<and> typ \<noteq> ''RSA PRIVATE KEY''"
  shows "PrivateKeyFromPemFile K f pw = Inr None"
  using assms by (auto simp: PrivateKeyFromPemFile_def)

text \<open>Once the input ends the decoder has the objects read before, in order.\<close>

lemma Decode_loop_ends:
  assumes "\<forall>j < n. nxt (i + j) \<noteq> DEOF" "nxt (i + n) = DEOF"
  shows "Decode_loop nxt i objs =
    Some (objs @ concat (map (\<lambda>j. case nxt (i + j) of DRead True out \<Rightarrow> [out] | _ \<Rightarrow> []) [0..<n]))"
  using assms
proof (induction n arbitrary: i objs)
  case 0
  then show ?case by (simp add: Decode_loop.simps)
next
  case (Suc n)
  have rest: "\<forall>j < n. nxt (Suc i + j) \<noteq> DEOF" "nxt (Suc i + n) = DEOF" using Suc.prems by auto
  have "nxt i \<noteq> DEOF" using Suc.prems(1) by (metis Nat.add_0_right zero_less_Suc)
  moreover have "[0..<Suc n] = 0 # map Suc [0..<n]" by (simp add: upt_conv_Cons map_Suc_upt del: upt_Suc)
  ultimately show ?case using Suc.IH [OF rest]
    by (subst Decode_loop.simps) (simp add: comp_def split: decoded.split bool.split)
qed

lemma Decode_loop_Some:
  assumes "Decode_loop nxt i objs = Some r"
  shows "\<exists>n. nxt (i + n) = DEOF"
proof (rule Decode_loop.raw_induct [where P = "\<lambda>nxt i objs r. \<exists>n. nxt (i + n) = DEOF", OF _ assms])
  fix loop :: "(nat \<Rightarrow> decoded) \<Rightarrow> nat \<Rightarrow> unstructured list \<Rightarrow> unstructured list option" and nxt i objs r
  assume IH: "\<And>nxt i objs r. loop nxt i objs = Some r \<Longrightarrow> \<exists>n. nxt (i + n) = DEOF"
    and step: "(case nxt i of DEOF \<Rightarrow> Some objs | DError err \<Rightarrow> loop nxt (Suc i) objs
      | DRead nonempty out \<Rightarrow> loop nxt (Suc i) (if nonempty then objs @ [out] else objs)) = Some r"
  have later: "\<exists>n. nxt (i + n) = DEOF" if later: "\<exists>n. nxt (Suc i + n) = DEOF"
  proof -
    obtain n where "nxt (Suc i + n) = DEOF" using later by blast
    then show ?thesis by (intro exI [of _ "Suc n"]) simp
  qed
  show "\<exists>n. nxt (i + n) = DEOF"
  proof (cases "nxt i")
    case DEOF
    then show ?thesis by (intro exI [of _ 0]) simp
  next
    case (DError err)
    then show ?thesis using step by (intro later IH [of nxt "Suc i" objs r]) simp
  next
    case (DRead nonempty out)
    then show ?thesis
      using step by (intro later IH [of nxt "Suc i" "if nonempty then objs @ [out] else objs" r]) simp
  qed
qed

text \<open>
  The decoder of the signing tool ends exactly when its input does: after a text that
  keeps failing without an end of input it loops for ever.
\<close>

theorem decoder_ends_iff: "(\<exists>r. signer_Decode nxt = Some r) \<longleftrightarrow> (\<exists>n. nxt n = DEOF)"
proof
  assume "\<exists>n. nxt n = DEOF"
  define n where "n = (LEAST n. nxt n = DEOF)"
  have "nxt (0 + n) = DEOF" using \<open>\<exists>n. nxt n = DEOF\<close> unfolding n_def by (auto intro: LeastI)
  moreover have "\<forall>j < n. nxt (0 + j) \<noteq> DEOF" unfolding n_def using not_less_Least by auto
  ultimately show "\<exists>r. signer_Decode nxt = Some r"
    unfolding signer_Decode_def using Decode_loop_ends [of n nxt 0 "[]"] by blast
next
  assume "\<exists>r. signer_Decode nxt = Some r"
  then obtain n where "nxt (0 + n) = DEOF" unfolding signer_Decode_def using Decode_loop_Some by blast
  then show "\<exists>n. nxt n = DEOF" by auto
qed

section \<open>Witnesses\<close>

text \<open>A toy scheme: certificates and keys are texts, and a signature is the hashed text under the key.\<close>

definition demo_sign_env :: "(string, string) sign_env" where
  "demo_sign_env = \<lparr>sgPemDecode = Some, sgParseCertificate = Inr, sgPublicKey = Some,
     sgVerify = (\<lambda>root leaf. Some (Err ''unknown authority'')), sgMarshalJSON = (\<lambda>(gvk, spec). Inr spec),
     sgSum256 = (\<lambda>b. b), sgVerifyPSS = (\<lambda>key h sig. if sig = key @ h then None else Some (Err ''verification error'')),
     sgAsset = ''ca''\<rparr>"

definition demo_annotations :: smap where
  "demo_annotations = [''marketplace.redhat.com/publickey'' \<mapsto> ''k'', ''marketplace.redhat.com/signature'' \<mapsto> ''6b73'']"

lemma demo_hex: "hex_DecodeString ''6b73'' = Inr ''ks''"
  by code_simp

lemma demo_signature_valid:
  "ValidateSignature demo_sign_env (\<lambda>md. Inr (UObject (''g'', ''k'') demo_annotations ''s'')) demo_beta = None"
  by (simp add: ValidateSignature_def CertificateFromAssets_def CertificateFromPemBytes_def verify_object_def
      UnstructuredToGVKSpecBytes_def demo_sign_env_def demo_annotations_def annotation_def demo_hex del: hex_DecodeString.simps)

theorem valid_signature_covers_spec_witness:
  "\<exists>sig. hex_DecodeString (annotation demo_annotations ''marketplace.redhat.com/signature'') = Inr sig \<and>
     sgVerifyPSS demo_sign_env ''k'' ''s'' sig = None"
proof -
  have "annotation demo_annotations ''marketplace.redhat.com/publickey'' = ''k''"
    by (simp add: annotation_def demo_annotations_def)
  then show ?thesis using valid_signature_covers_spec [OF demo_signature_valid refl]
    by (auto simp: demo_sign_env_def CertificateFromPemBytes_def)
qed

theorem authority_not_checked_witness:
  "sgVerify demo_sign_env ''ca'' ''k'' \<noteq> None \<and>
   VerifySignature demo_sign_env (UObject (''g'', ''k'')
     [''marketplace.redhat.com/publickey'' \<mapsto> ''k'', ''marketplace.redhat.com/signature'' \<mapsto> hex_EncodeToString ''ks''] ''s'') ''ca'' = None"
proof -
  have E: "demo_sign_env\<lparr>sgVerify := sgVerify demo_sign_env\<rparr> = demo_sign_env" by simp
  have "VerifySignature (demo_sign_env\<lparr>sgVerify := sgVerify demo_sign_env\<rparr>) (UObject (''g'', ''k'')
     [''marketplace.redhat.com/publickey'' \<mapsto> ''k'', ''marketplace.redhat.com/signature'' \<mapsto> hex_EncodeToString ''ks''] ''s'') ''ca'' = None"
    by (rule authority_not_checked [THEN conjunct1, of _ _ "''k''" "''k''" _ _ "''s''"])
      (simp_all add: demo_sign_env_def CertificateFromPemBytes_def)
  then show ?thesis unfolding E by (simp add: demo_sign_env_def)
qed

definition demo_key_env :: "string key_env" where
  "demo_key_env = \<lparr>kyReadFile = Inr, kyPemDecode = (\<lambda>b. None), kyDecrypt = (\<lambda>b p. Inr b),
     kyParsePKCS1 = (\<lambda>b. Inr (Some b)), kyParsePKCS8 = (\<lambda>b. Inr (Some b))\<rparr>"

theorem missing_key_no_error_witness: "PrivateKeyFromPemFile demo_key_env ''key.pem'' [] = Inr None"
  using missing_key_no_error [of demo_key_env "''key.pem''" "''key.pem''" "[]" "[]" "[]"] by (simp add: demo_key_env_def)

end
