(* ===== verification/PromClients.thy ===== *)
theory PromClients
  imports ReportInputs Decimal
begin

text \<open>
  The Prometheus clients of the operator and of the reporter
  (\<open>v2/pkg/prometheus/api.go\<close>, \<open>prometheus_api.go\<close>, \<open>prometheus_client.go\<close>,
  \<open>thanos_client.go\<close>, \<open>service_account_client.go\<close>): which service and port they call, the
  certificates they trust, the header every request carries, the interface the builder
  keeps and probes, and the cache of service account tokens.

  Certificate pools, files, the API server and the client library are fields of an
  environment; what changes between calls takes the number of the call. A client is its
  address and its chain of transports.
\<close>

section \<open>Transports\<close>

type_synonym header = "string \<rightharpoonup> string list"

record 'pool tls_setup =
  tlRootCAs :: 'pool
  tlClientCAs :: "'pool option"
  tlCipherSuites :: "string list"
  tlMinVersion :: string

datatype 'pool round_tripper = Transport "'pool tls_setup" | withHeader header "'pool round_tripper"

record UserAuth =
  uaUsername :: string
  uaPassword :: string

record PrometheusSecureClientConfig =
  pscAddress :: string
  pscToken :: string
  pscUserAuth :: "UserAuth option"
  pscServerCertFile :: string
  pscCaCert :: "bytes option"

record 'pool prom_client =
  pcAddress :: string
  pcRoundTripper :: "'pool round_tripper option"

record 'pool client_env =
  ceSystemCertPool :: "'pool result"
  ceAppendCertsFromPEM :: "bytes \<Rightarrow> 'pool \<Rightarrow> 'pool"
  ceNewClient :: "string \<Rightarrow> go_error option"
  ceReadFile :: "nat \<Rightarrow> string \<Rightarrow> bytes result"
  ceGetService :: "nat \<Rightarrow> string \<Rightarrow> string \<Rightarrow> Service result"
  ceGetConfigMap :: "nat \<Rightarrow> string \<Rightarrow> string \<Rightarrow> smap result"
  ceBuildinfo :: "nat \<Rightarrow> 'pool prom_client \<Rightarrow> go_error option"

text \<open>\<open>base64.StdEncoding\<close>: six bits a character, padded to whole groups.\<close>

definition base64_char :: "nat \<Rightarrow> char" where
  "base64_char i = ''ABCDEFGHIJKLMNOPQRSTUVWXYZabcdefghijklmnopqrstuvwxyz0123456789+/'' ! i"

fun EncodeToString :: "bytes \<Rightarrow> string" where
  "EncodeToString [] = []"
| "EncodeToString [a] =
     (let n = of_char a * 16 in [base64_char (n div 64), base64_char (n mod 64), CHR ''='', CHR ''=''])"
| "EncodeToString [a, b] =
     (let n = (of_char a * 256 + of_char b) * 4
      in [base64_char (n div 4096), base64_char (n div 64 mod 64), base64_char (n mod 64), CHR ''=''])"
| "EncodeToString (a # b # c # rest) =
     (let n = (of_char a * 256 + of_char b) * 256 + of_char c
      in base64_char (n div 262144) # base64_char (n div 4096 mod 64) # base64_char (n div 64 mod 64) #
         base64_char (n mod 64) # EncodeToString rest)"

definition basicAuth :: "string \<Rightarrow> string \<Rightarrow> string" where
  "basicAuth username password = EncodeToString (username @ '':'' @ password)"

definition WithHeader :: "'pool round_tripper \<Rightarrow> 'pool round_tripper" where
  "WithHeader rt = withHeader Map.empty rt"

fun set_header :: "string \<Rightarrow> string \<Rightarrow> 'pool round_tripper \<Rightarrow> 'pool round_tripper" where
  "set_header k v (withHeader h rt) = withHeader (h(k \<mapsto> [v])) rt"
| "set_header k v (Transport t) = Transport t"

definition WithBasicAuth :: "'pool round_tripper \<Rightarrow> string \<Rightarrow> string \<Rightarrow> 'pool round_tripper" where
  "WithBasicAuth rt username password =
     set_header ''Authorization'' (''Basic '' @ basicAuth username password) (WithHeader rt)"

definition WithBearerAuth :: "'pool round_tripper \<Rightarrow> string \<Rightarrow> 'pool round_tripper" where
  "WithBearerAuth rt token = set_header ''Authorization'' (''Bearer '' @ token) (WithHeader rt)"

text \<open>The header a request has when it reaches the transport.\<close>

fun RoundTrip :: "'pool round_tripper \<Rightarrow> header \<Rightarrow> header" where
  "RoundTrip (withHeader h rt) req = RoundTrip rt (req ++ h)"
| "RoundTrip (Transport t) req = req"

section \<open>Certificates and clients\<close>

definition cipherSuites :: "string list" where
  "cipherSuites = [''TLS_AES_128_GCM_SHA256'', ''TLS_AES_256_GCM_SHA384'', ''TLS_ECDHE_RSA_WITH_AES_128_GCM_SHA256'',
     ''TLS_ECDHE_ECDSA_WITH_AES_128_GCM_SHA256'', ''TLS_ECDHE_RSA_WITH_AES_256_GCM_SHA384'',
     ''TLS_ECDHE_ECDSA_WITH_AES_256_GCM_SHA384'']"

definition generateCACertPoolFromCert :: "'pool client_env \<Rightarrow> bytes \<Rightarrow> 'pool tls_setup result" where
  "generateCACertPoolFromCert E caCert =
     (case ceSystemCertPool E of
        Inl err \<Rightarrow> Inl (wrap ''failed to get system cert pool'' err)
      | Inr pool \<Rightarrow>
          Inr \<lparr>tlRootCAs = ceAppendCertsFromPEM E caCert pool, tlClientCAs = None, tlCipherSuites = cipherSuites,
               tlMinVersion = ''VersionTLS12''\<rparr>)"

fun append_files :: "'pool client_env \<Rightarrow> nat \<Rightarrow> string list \<Rightarrow> 'pool \<Rightarrow> 'pool result" where
  "append_files E n [] pool = Inr pool"
| "append_files E n (f # fs) pool =
     (case ceReadFile E n f of
        Inl err \<Rightarrow> Inl (wrap ''failed to load cert file'' err)
      | Inr caCert \<Rightarrow> append_files E n fs (ceAppendCertsFromPEM E caCert pool))"

definition GenerateCACertPool :: "'pool client_env \<Rightarrow> nat \<Rightarrow> string list \<Rightarrow> 'pool tls_setup result" where
  "GenerateCACertPool E n fs =
     (case ceSystemCertPool E of
        Inl err \<Rightarrow> Inl (wrap ''failed to get system cert pool'' err)
      | Inr pool \<Rightarrow>
          (case append_files E n fs pool of
             Inl err \<Rightarrow> Inl err
           | Inr pool' \<Rightarrow>
               Inr \<lparr>tlRootCAs = pool', tlClientCAs = Some pool', tlCipherSuites = cipherSuites,
                    tlMinVersion = ''VersionTLS12''\<rparr>))"

text \<open>What both constructors do once they have the transport's settings.\<close>

definition secure_client ::
  "'pool client_env \<Rightarrow> PrometheusSecureClientConfig \<Rightarrow> 'pool tls_setup \<Rightarrow> 'pool prom_client result" where
  "secure_client E config tlsConfig =
     (let transport = Transport tlsConfig;
          transport1 = (case pscUserAuth config of
              None \<Rightarrow> transport
            | Some auth \<Rightarrow> WithBasicAuth transport (uaUsername auth) (uaPassword auth));
          transport2 = (if pscToken config \<noteq> [] then WithBearerAuth transport1 (pscToken config) else transport1)
      in case ceNewClient E (pscAddress config) of
           Some err \<Rightarrow> Inl err
         | None \<Rightarrow> Inr \<lparr>pcAddress = pscAddress config, pcRoundTripper = Some transport2\<rparr>)"

definition NewSecureClient ::
  "'pool client_env \<Rightarrow> nat \<Rightarrow> PrometheusSecureClientConfig \<Rightarrow> 'pool prom_client result" where
  "NewSecureClient E n config =
     (case GenerateCACertPool E n [pscServerCertFile config] of
        Inl err \<Rightarrow> Inl (wrap ''failed to get tlsConfig'' err)
      | Inr tlsConfig \<Rightarrow> secure_client E config tlsConfig)"

definition NewSecureClientFromCert ::
  "'pool client_env \<Rightarrow> PrometheusSecureClientConfig \<Rightarrow> 'pool prom_client result" where
  "NewSecureClientFromCert E config =
     (case pscCaCert config of
        None \<Rightarrow> Inl (Panic ''nil pointer dereference'')
      | Some caCert \<Rightarrow>
          (case generateCACertPoolFromCert E caCert of
             Inl err \<Rightarrow> Inl (wrap ''failed to get tlsConfig'' err)
           | Inr tlsConfig \<Rightarrow> secure_client E config tlsConfig))"

section \<open>Interfaces for a service\<close>

definition providePrometheusAPI ::
  "'pool client_env \<Rightarrow> Service option \<Rightarrow> ServicePort option \<Rightarrow> bytes option \<Rightarrow> string \<Rightarrow> 'pool prom_client result" where
  "providePrometheusAPI E promService targetPort caCert token =
     (case (promService, targetPort) of
        (Some svc, Some p) \<Rightarrow>
          NewSecureClientFromCert E
            \<lparr>pscAddress = ''https://'' @ svName svc @ ''.'' @ svNamespace svc @ ''.svc.cluster.local:'' @ Itoa (spPort p),
             pscToken = token, pscUserAuth = None, pscServerCertFile = [], pscCaCert = caCert\<rparr>
      | _ \<Rightarrow> Inl (Err ''Prometheus service not defined''))"

definition provideThanosAPI ::
  "'pool client_env \<Rightarrow> Service option \<Rightarrow> bytes option \<Rightarrow> string \<Rightarrow> 'pool prom_client result" where
  "provideThanosAPI E promService caCert token =
     (case promService of
        None \<Rightarrow> Inl (Err ''Prometheus service not defined'')
      | Some svc \<Rightarrow>
          (let port = (case port_loop ''web'' (svPorts svc) None of None \<Rightarrow> 0 | Some p \<Rightarrow> spPort p) in
           NewSecureClientFromCert E
             \<lparr>pscAddress = ''https://'' @ svName svc @ ''.'' @ svNamespace svc @ ''.svc:'' @ Itoa port,
              pscToken = token, pscUserAuth = None, pscServerCertFile = [], pscCaCert = caCert\<rparr>))"

definition providePrometheusAPIForReporter ::
  "'pool client_env \<Rightarrow> nat \<Rightarrow> PrometheusAPISetup \<Rightarrow> 'pool prom_client result" where
  "providePrometheusAPIForReporter E n setup =
     (if paRunLocal setup
      then (case ceNewClient E ''http://127.0.0.1:9090'' of
              Some err \<Rightarrow> Inl err
            | None \<Rightarrow> Inr \<lparr>pcAddress = ''http://127.0.0.1:9090'', pcRoundTripper = None\<rparr>)
      else
        (case paService setup of
           None \<Rightarrow> Inl (Err ''prom service is not provided'')
         | Some svc \<Rightarrow>
             (case paPort setup of
                None \<Rightarrow> Inl (Err ''prom port is not provided'')
              | Some p \<Rightarrow>
                  (case (if paTokenFilePath setup \<noteq> [] then ceReadFile E n (paTokenFilePath setup) else Inr []) of
                     Inl err \<Rightarrow> Inl err
                   | Inr auth \<Rightarrow>
                       (if auth = [] then Inl (Err ''failed to read a token, no TokenFilePath provided'')
                        else NewSecureClient E n
                          \<lparr>pscAddress = ''https://'' @ svName svc @ ''.'' @ svNamespace svc @ ''.svc:'' @ Itoa (spPort p),
                           pscToken = auth, pscUserAuth = None, pscServerCertFile = paCertFilePath setup,
                           pscCaCert = None\<rparr>)))))"

section \<open>The builder\<close>

datatype PrometheusAPIType = UserWorkload | RHMWorkload

definition queryForPrometheusService ::
  "'pool client_env \<Rightarrow> nat \<Rightarrow> string \<Rightarrow> PrometheusAPIType \<Rightarrow> (Service \<times> ServicePort option) result" where
  "queryForPrometheusService E n deployedNamespace apiType =
     (let (name, namespace, portName) =
            (if apiType = UserWorkload then (''thanos-querier'', ''openshift-monitoring'', ''web'')
             else (''rhm-prometheus-meterbase'', deployedNamespace, ''rbac''))
      in case ceGetService E n name namespace of
           Inl err \<Rightarrow> Inl (wrap ''failed to get prometheus service'' err)
         | Inr service \<Rightarrow> Inr (service, port_loop portName (svPorts service) None))"

definition getCertConfigMap :: "'pool client_env \<Rightarrow> nat \<Rightarrow> string \<Rightarrow> smap result" where
  "getCertConfigMap E n deployedNamespace =
     (case ceGetConfigMap E n ''ibm-metrics-operator-serving-certs-ca-bundle'' deployedNamespace of
        Inl err \<Rightarrow> Inl (wrap ''Failed to retrieve serving-certs-ca-bundle.'' err)
      | Inr cm \<Rightarrow> Inr cm)"

definition parseCertificateFromConfigMap :: "smap \<Rightarrow> bytes result" where
  "parseCertificateFromConfigMap data =
     (case data ''service-ca.crt'' of
        None \<Rightarrow> Inl (Err ''Error retrieving cert from config map'')
      | Some out \<Rightarrow> Inr out)"

definition ProvidePrometheusAPI ::
  "'pool client_env \<Rightarrow> nat \<Rightarrow> string \<Rightarrow> PrometheusAPIType \<Rightarrow> 'pool prom_client result" where
  "ProvidePrometheusAPI E n deployedNamespace apiType =
     (case queryForPrometheusService E n deployedNamespace apiType of
        Inl err \<Rightarrow> Inl err
      | Inr (service, port) \<Rightarrow>
          (case getCertConfigMap E n deployedNamespace of
             Inl err \<Rightarrow> Inl err
           | Inr certConfigMap \<Rightarrow>
               (case ceReadFile E n ''/var/run/secrets/kubernetes.io/serviceaccount/token'' of
                  Inl err \<Rightarrow> Inl err
                | Inr authToken \<Rightarrow>
                    (case parseCertificateFromConfigMap certConfigMap of
                       Inl err \<Rightarrow> Inl err
                     | Inr cert \<Rightarrow> providePrometheusAPI E (Some service) port (Some cert) authToken))))"

text \<open>The interfaces the builder keeps; nothing stores a nil one.\<close>

type_synonym 'pool prometheusAPIs = "PrometheusAPIType \<rightharpoonup> 'pool prom_client"

definition builder_set ::
  "'pool client_env \<Rightarrow> nat \<Rightarrow> string \<Rightarrow> PrometheusAPIType \<Rightarrow> 'pool prometheusAPIs \<Rightarrow>
     'pool prometheusAPIs \<times> go_error option" where
  "builder_set E n deployedNamespace apiType apis =
     (case ProvidePrometheusAPI E n deployedNamespace apiType of
        Inl err \<Rightarrow> (apis, Some err)
      | Inr pApi \<Rightarrow> (apis(apiType \<mapsto> pApi), None))"

definition builder_Get ::
  "'pool client_env \<Rightarrow> nat \<Rightarrow> string \<Rightarrow> PrometheusAPIType \<Rightarrow> 'pool prometheusAPIs \<Rightarrow>
     'pool prometheusAPIs \<times> 'pool prom_client result" where
  "builder_Get E n deployedNamespace apiType apis =
     (case apis apiType of
        Some promApi \<Rightarrow>
          (case ceBuildinfo E n promApi of
             Some err \<Rightarrow> (apis(apiType := None), Inl err)
           | None \<Rightarrow> (apis, Inr promApi))
      | None \<Rightarrow>
          (case builder_set E n deployedNamespace apiType apis of
             (apis', Some err) \<Rightarrow> (apis', Inl err)
           | (apis', None) \<Rightarrow>
               (case apis' apiType of
                  None \<Rightarrow> (apis', Inl (Err ''api type not found ''))
                | Some api \<Rightarrow> (apis', Inr api))))"

definition GetAPITypeFromFlag :: "bool \<Rightarrow> PrometheusAPIType" where
  "GetAPITypeFromFlag userWorkloadMonitoringEnabled =
     (if userWorkloadMonitoringEnabled then UserWorkload else RHMWorkload)"

section \<open>Service account tokens\<close>

record Token =
  tkAuthToken :: string
  tkExpirationTimestamp :: go_time

text \<open>The cache of a client is a nil map unless something makes it; writing to a nil map panics.\<close>

record ServiceAccountClient =
  sacTokens :: "(string \<rightharpoonup> Token) option"

definition NewServiceAccountClient :: ServiceAccountClient where
  "NewServiceAccountClient = \<lparr>sacTokens = None\<rparr>"

definition token_key :: "string \<Rightarrow> string \<Rightarrow> string" where
  "token_key targetServiceAccount audience = targetServiceAccount @ '':'' @ audience"

definition newTokenRequest :: "string \<Rightarrow> int \<Rightarrow> string list \<times> int" where
  "newTokenRequest audience expireSeconds =
     (if length audience \<noteq> 0 then ([audience], expireSeconds) else ([], expireSeconds))"

definition getToken ::
  "(string \<Rightarrow> string list \<times> int \<Rightarrow> Token result) \<Rightarrow> string \<Rightarrow> string \<Rightarrow> int \<Rightarrow> ServiceAccountClient \<Rightarrow>
     ServiceAccountClient \<times> string result" where
  "getToken CreateToken targetServiceAccount audience expireSecs s =
     (case CreateToken targetServiceAccount (newTokenRequest audience expireSecs) of
        Inl err \<Rightarrow> (s, Inl err)
      | Inr token \<Rightarrow>
          (case sacTokens s of
             None \<Rightarrow> (s, Inl (Panic ''assignment to entry in nil map''))
           | Some tokens \<Rightarrow>
               (s\<lparr>sacTokens := Some (tokens(token_key targetServiceAccount audience \<mapsto> token))\<rparr>,
                Inr (tkAuthToken token))))"

definition GetToken ::
  "(string \<Rightarrow> string list \<times> int \<Rightarrow> Token result) \<Rightarrow> go_time \<Rightarrow> string \<Rightarrow> string \<Rightarrow> int \<Rightarrow> ServiceAccountClient \<Rightarrow>
     ServiceAccountClient \<times> string result" where
  "GetToken CreateToken now targetServiceAccountName audience expireSecs s =
     (case Option.bind (sacTokens s) (\<lambda>m. m (token_key targetServiceAccountName audience)) of
        None \<Rightarrow> getToken CreateToken targetServiceAccountName audience expireSecs s
      | Some token \<Rightarrow>
          (if now > tkExpirationTimestamp token
           then getToken CreateToken targetServiceAccountName audience expireSecs s
           else (s, Inr (tkAuthToken token))))"

section \<open>Properties\<close>

lemma port_loop_Some: "port_loop name ps port = Some p \<Longrightarrow> port = Some p \<or> p \<in> set ps \<and> spName p = name"
  by (induction ps arbitrary: port) (force split: if_splits)+

text \<open>The credentials a request carries: the inner transport sets its header last.\<close>

lemma secure_client_header:
  assumes "secure_client E config tls = Inr c" "pcRoundTripper c = Some rt"
  shows "RoundTrip rt req ''Authorization'' =
    (case pscUserAuth config of
       Some auth \<Rightarrow> Some [''Basic '' @ basicAuth (uaUsername auth) (uaPassword auth)]
     | None \<Rightarrow> if pscToken config \<noteq> [] then Some [''Bearer '' @ pscToken config] else req ''Authorization'')"
  using assms by (auto simp: secure_client_def WithBasicAuth_def WithBearerAuth_def WithHeader_def Let_def
      split: option.splits if_splits)

fun tls_of :: "'pool round_tripper \<Rightarrow> 'pool tls_setup" where
  "tls_of (Transport t) = t"
| "tls_of (withHeader h rt) = tls_of rt"

lemma secure_client_tls:
  assumes "secure_client E config tls = Inr c"
  shows "pcAddress c = pscAddress config \<and> map_option tls_of (pcRoundTripper c) = Some tls"
  using assms by (auto simp: secure_client_def WithBasicAuth_def WithBearerAuth_def WithHeader_def Let_def
      split: option.splits if_splits)

text \<open>
  The operator's interface for user workload monitoring calls the Thanos querier over TLS,
  trusts the certificate of the cluster's CA bundle and sends the service account's token.
\<close>

theorem operator_client_secured:
  assumes "ProvidePrometheusAPI E n ns UserWorkload = Inr c"
    and "ceReadFile E n ''/var/run/secrets/kubernetes.io/serviceaccount/token'' = Inr token" "token \<noteq> []"
  shows "\<exists>svc p cm cert pool rt.
    ceGetService E n ''thanos-querier'' ''openshift-monitoring'' = Inr svc \<and>
    p \<in> set (svPorts svc) \<and> spName p = ''web'' \<and>
    pcAddress c = ''https://'' @ svName svc @ ''.'' @ svNamespace svc @ ''.svc.cluster.local:'' @ Itoa (spPort p) \<and>
    ceGetConfigMap E n ''ibm-metrics-operator-serving-certs-ca-bundle'' ns = Inr cm \<and>
    cm ''service-ca.crt'' = Some cert \<and> ceSystemCertPool E = Inr pool \<and> pcRoundTripper c = Some rt \<and>
    tlRootCAs (tls_of rt) = ceAppendCertsFromPEM E cert pool \<and>
    (\<forall>req. RoundTrip rt req ''Authorization'' = Some [''Bearer '' @ token])"
proof -
  obtain svc port where q: "queryForPrometheusService E n ns UserWorkload = Inr (svc, port)"
    using assms(1) by (auto simp: ProvidePrometheusAPI_def split: sum.splits)
  then have svc: "ceGetService E n ''thanos-querier'' ''openshift-monitoring'' = Inr svc"
    and port: "port = port_loop ''web'' (svPorts svc) None"
    by (auto simp: queryForPrometheusService_def split: sum.splits)
  obtain cm cert where cm: "ceGetConfigMap E n ''ibm-metrics-operator-serving-certs-ca-bundle'' ns = Inr cm"
    and cert: "cm ''service-ca.crt'' = Some cert"
    and api: "providePrometheusAPI E (Some svc) port (Some cert) token = Inr c"
    using assms(1,2) q by (auto simp: ProvidePrometheusAPI_def getCertConfigMap_def parseCertificateFromConfigMap_def
        split: sum.splits option.splits)
  obtain p where p: "port = Some p" using api by (auto simp: providePrometheusAPI_def split: option.splits)
  have in_ports: "p \<in> set (svPorts svc) \<and> spName p = ''web''"
    using port_loop_Some [of "''web''" "svPorts svc" None p] port p by simp
  let ?cfg = "\<lparr>pscAddress = ''https://'' @ svName svc @ ''.'' @ svNamespace svc @ ''.svc.cluster.local:'' @ Itoa (spPort p),
    pscToken = token, pscUserAuth = None, pscServerCertFile = [], pscCaCert = Some cert\<rparr>"
  obtain pool where pool: "ceSystemCertPool E = Inr pool"
    and sec: "secure_client E ?cfg \<lparr>tlRootCAs = ceAppendCertsFromPEM E cert pool, tlClientCAs = None,
      tlCipherSuites = cipherSuites, tlMinVersion = ''VersionTLS12''\<rparr> = Inr c"
    using api p by (auto simp: providePrometheusAPI_def NewSecureClientFromCert_def generateCACertPoolFromCert_def
        split: sum.splits)
  obtain rt where rt: "pcRoundTripper c = Some rt" "tlRootCAs (tls_of rt) = ceAppendCertsFromPEM E cert pool"
    using secure_client_tls [OF sec] by auto
  have "\<forall>req. RoundTrip rt req ''Authorization'' = Some [''Bearer '' @ token]"
    using secure_client_header [OF sec rt(1)] assms(3) by simp
  then show ?thesis using svc in_ports secure_client_tls [OF sec] cm cert pool rt by auto
qed

text \<open>An interface that is handed out was probed in this call or built in this call, and it is kept.\<close>

lemma builder_Get_current:
  assumes "builder_Get E n ns t apis = (apis', Inr api)"
  shows "apis' = apis(t \<mapsto> api) \<and>
    (apis t = Some api \<and> ceBuildinfo E n api = None \<or> apis t = None \<and> ProvidePrometheusAPI E n ns t = Inr api)"
  using assms by (auto simp: builder_Get_def builder_set_def map_upd_triv split: option.splits sum.splits prod.splits)

text \<open>
  A kept interface that no longer answers is dropped with an error, and the next call
  builds a new one from the service, the certificates and the token of that moment.
\<close>

theorem stale_api_replaced:
  assumes "apis t = Some api" "ceBuildinfo E n api = Some err" "ProvidePrometheusAPI E m ns t = Inr api'"
  shows "builder_Get E n ns t apis = (apis(t := None), Inl err) \<and>
    builder_Get E m ns t (apis(t := None)) = (apis(t \<mapsto> api'), Inr api')"
  using assms by (simp add: builder_Get_def builder_set_def)

text \<open>A client made by the constructor never hands out a token: storing one in its nil cache panics.\<close>

theorem new_token_client_panics:
  "GetToken CreateToken now account audience secs NewServiceAccountClient =
     (NewServiceAccountClient,
      Inl (case CreateToken account (newTokenRequest audience secs) of
             Inl err \<Rightarrow> err | Inr token \<Rightarrow> Panic ''assignment to entry in nil map''))"
  by (simp add: GetToken_def getToken_def NewServiceAccountClient_def split: sum.split)

text \<open>With a cache, a token is asked for once and reused until it expires.\<close>

theorem token_reused:
  assumes "GetToken C1 now1 account audience secs \<lparr>sacTokens = Some m\<rparr> = (s, Inr token)"
  shows "\<exists>tokens tk. s = \<lparr>sacTokens = Some tokens\<rparr> \<and> tokens (token_key account audience) = Some tk \<and>
    tkAuthToken tk = token \<and>
    (\<forall>C2 now2. now2 \<le> tkExpirationTimestamp tk \<longrightarrow> GetToken C2 now2 account audience secs s = (s, Inr token))"
  using assms by (auto simp: GetToken_def getToken_def split: option.splits sum.splits if_splits)

section \<open>Witnesses\<close>

definition demo_client_env :: "string list client_env" where
  "demo_client_env =
     \<lparr>ceSystemCertPool = Inr [''system''], ceAppendCertsFromPEM = (\<lambda>c pool. c # pool), ceNewClient = (\<lambda>a. None),
      ceReadFile = (\<lambda>n f. Inr ''token''),
      ceGetService = (\<lambda>n name ns. Inr \<lparr>svName = name, svNamespace = ns, svPorts =
         [\<lparr>spName = ''tenancy'', spPort = 9092\<rparr>, \<lparr>spName = ''web'', spPort = 9091\<rparr>]\<rparr>),
      ceGetConfigMap = (\<lambda>n name ns. Inr [''service-ca.crt'' \<mapsto> ''cert'']),
      ceBuildinfo = (\<lambda>n c. if n = 0 then Some (Err ''gone'') else None)\<rparr>"

definition demo_client :: "string list prom_client" where
  "demo_client = \<lparr>pcAddress = ''https://thanos-querier.openshift-monitoring.svc.cluster.local:'' @ Itoa 9091,
     pcRoundTripper = Some (withHeader [''Authorization'' \<mapsto> [''Bearer token'']] (Transport
       \<lparr>tlRootCAs = [''cert'', ''system''], tlClientCAs = None, tlCipherSuites = cipherSuites,
        tlMinVersion = ''VersionTLS12''\<rparr>))\<rparr>"

lemmas demo_client_simps = demo_client_env_def ProvidePrometheusAPI_def queryForPrometheusService_def
  getCertConfigMap_def parseCertificateFromConfigMap_def providePrometheusAPI_def NewSecureClientFromCert_def
  generateCACertPoolFromCert_def secure_client_def WithBearerAuth_def WithHeader_def

lemma demo_client_built: "ProvidePrometheusAPI demo_client_env n ''ns'' UserWorkload = Inr demo_client"
  by (simp add: demo_client_simps demo_client_def)

theorem operator_client_secured_witness:
  "\<exists>rt. pcRoundTripper demo_client = Some rt \<and> RoundTrip rt Map.empty ''Authorization'' = Some [''Bearer token'']"
  using operator_client_secured [OF demo_client_built, of 0 "''token''"] by (auto simp: demo_client_env_def)

theorem stale_api_replaced_witness:
  "builder_Get demo_client_env 1 ''ns'' UserWorkload
     (fst (builder_Get demo_client_env 0 ''ns'' UserWorkload [UserWorkload \<mapsto> demo_client])) =
     ([UserWorkload \<mapsto> demo_client], Inr demo_client)"
  using stale_api_replaced [of "[UserWorkload \<mapsto> demo_client]" UserWorkload demo_client demo_client_env 0
      "Err ''gone''" 1 "''ns''" demo_client, OF _ _ demo_client_built]
  by (simp add: demo_client_env_def)

definition demo_token :: Token where "demo_token = \<lparr>tkAuthToken = ''tok'', tkExpirationTimestamp = 100\<rparr>"

theorem token_reused_witness:
  "GetToken (\<lambda>a r. Inl (Err ''down'')) 90 ''sa'' ''aud'' 60
     \<lparr>sacTokens = Some [''sa:aud'' \<mapsto> demo_token]\<rparr> =
     (\<lparr>sacTokens = Some [''sa:aud'' \<mapsto> demo_token]\<rparr>, Inr ''tok'')"
proof -
  have "GetToken (\<lambda>a r. Inr demo_token) 0 ''sa'' ''aud'' 60 \<lparr>sacTokens = Some Map.empty\<rparr> =
      (\<lparr>sacTokens = Some [''sa:aud'' \<mapsto> demo_token]\<rparr>, Inr ''tok'')"
    by (simp add: GetToken_def getToken_def token_key_def demo_token_def)
  from token_reused [OF this] show ?thesis by (auto simp: token_key_def demo_token_def)
qed

end
