(* ===== verification/ServiceVersions.thy ===== *)
theory ServiceVersions
  imports MeterConversions Cluster
begin

text \<open>
  The controller that installs the meter definition an operator carries in an annotation
  of its cluster service version
  (\<open>v2/internal/controller/marketplace/clusterserviceversion_controller.go\<close>).

  The decoders of the annotation are fields of an environment, as are the failures of the
  API server, numbered by call. The server's merge patch, creation and deletion are
  definitions of this theory: objects are sent and stored as JSON, a patch replaces what the
  sent object has, creation asks for a name and drops the status. An empty list of a
  selector stands for an absent one, as in \<open>MeterFilters\<close>; the lists of a meter, which the
  conversion sets to an empty list, are kept apart from absent ones.
\<close>

section \<open>State and API server\<close>

record ClusterServiceVersion =
  csvName :: string
  csvNamespace :: string
  csvAnnotations :: smap
  csvLabels :: smap

record csv_env =
  veFault :: "nat \<Rightarrow> kube_error option"
  veKindVersion :: "string \<Rightarrow> string option"
  veDecodeUnstructured :: "string \<Rightarrow> go_error option"
  veDecodeBeta :: "string \<Rightarrow> v1beta1_MeterDefinition \<times> go_error option"
  veDecodeAlpha :: "string \<Rightarrow> v1alpha1_MeterDefinition \<times> go_error option"
  veUID :: "nat \<Rightarrow> string"

record csv_cluster =
  vcCSVs :: "string \<times> string \<rightharpoonup> ClusterServiceVersion"
  vcDefs :: "v1beta1_MeterDefinition list"
  vcCalls :: nat

definition definition_key :: "v1beta1_MeterDefinition \<Rightarrow> string \<times> string" where
  "definition_key d = (omNamespace (bdMeta d), omName (bdMeta d))"

text \<open>A call of the server: its fault, or what it does.\<close>

definition csv_call ::
  "csv_env \<Rightarrow> (csv_cluster \<Rightarrow> csv_cluster \<times> (kube_error + 'a)) \<Rightarrow> csv_cluster \<Rightarrow> csv_cluster \<times> (kube_error + 'a)" where
  "csv_call E f s =
     (let s1 = s\<lparr>vcCalls := Suc (vcCalls s)\<rparr>
      in case veFault E (vcCalls s) of Some e \<Rightarrow> (s1, Inl e) | None \<Rightarrow> f s1)"

definition Get_csv :: "csv_env \<Rightarrow> string \<times> string \<Rightarrow> csv_cluster \<Rightarrow> csv_cluster \<times> (kube_error + ClusterServiceVersion)" where
  "Get_csv E key = csv_call E (\<lambda>s. (s, case vcCSVs s key of None \<Rightarrow> Inl KNotFound | Some c \<Rightarrow> Inr c))"

text \<open>An empty namespace lists every namespace.\<close>

definition List_defs :: "csv_env \<Rightarrow> string \<Rightarrow> csv_cluster \<Rightarrow> csv_cluster \<times> (kube_error + v1beta1_MeterDefinition list)" where
  "List_defs E ns = csv_call E (\<lambda>s. (s, Inr (filter (\<lambda>d. ns = [] \<or> omNamespace (bdMeta d) = ns) (vcDefs s))))"

definition Delete_def :: "csv_env \<Rightarrow> v1beta1_MeterDefinition \<Rightarrow> csv_cluster \<Rightarrow> csv_cluster \<times> (kube_error + unit)" where
  "Delete_def E d = csv_call E (\<lambda>s.
     if definition_key d \<in> definition_key ` set (vcDefs s)
     then (s\<lparr>vcDefs := filter (\<lambda>x. definition_key x \<noteq> definition_key d) (vcDefs s)\<rparr>, Inr ()) else (s, Inl KNotFound))"

text \<open>
  What a definition reads back as: the lists \<open>groupBy\<close> and \<open>without\<close> of a meter are left out
  of its JSON when they are empty, and are then nil.
\<close>

definition omit_empty :: "'a list option \<Rightarrow> 'a list option" where
  "omit_empty l = (if l = Some [] then None else l)"

definition json_meter :: "MeterWorkload \<Rightarrow> MeterWorkload" where
  "json_meter m = m\<lparr>mwGroupBy := omit_empty (mwGroupBy m), mwWithout := omit_empty (mwWithout m)\<rparr>"

definition read_back :: "v1beta1_MeterDefinition \<Rightarrow> v1beta1_MeterDefinition" where
  "read_back d = d\<lparr>bdMeters := map json_meter (bdMeters d)\<rparr>"

text \<open>A patch that changes nothing writes nothing and keeps the version.\<close>

definition merge_patch :: "v1beta1_MeterDefinition \<Rightarrow> v1beta1_MeterDefinition \<Rightarrow> v1beta1_MeterDefinition" where
  "merge_patch new stored =
     (let patched =
        stored\<lparr>bdMeta := (bdMeta stored)\<lparr>omAnnotations := omAnnotations (bdMeta stored) ++ omAnnotations (bdMeta new)\<rparr>,
               bdGroup := bdGroup new, bdKind := bdKind new, bdResourceFilters := bdResourceFilters new,
               bdMeters := bdMeters (read_back new),
               bdInstalledBy := (case bdInstalledBy new of None \<Rightarrow> bdInstalledBy stored | Some i \<Rightarrow> Some i)\<rparr>
      in if patched = stored then stored
         else patched\<lparr>bdMeta := (bdMeta patched)\<lparr>omVersion := Suc (omVersion (bdMeta patched))\<rparr>\<rparr>)"

definition Patch_def :: "csv_env \<Rightarrow> v1beta1_MeterDefinition \<Rightarrow> csv_cluster \<Rightarrow> csv_cluster \<times> (kube_error + unit)" where
  "Patch_def E d = csv_call E (\<lambda>s.
     if definition_key d \<in> definition_key ` set (vcDefs s)
     then (s\<lparr>vcDefs := map (\<lambda>x. if definition_key x = definition_key d then merge_patch d x else x) (vcDefs s)\<rparr>, Inr ())
     else (s, Inl KNotFound))"

definition created_def :: "string \<Rightarrow> v1beta1_MeterDefinition \<Rightarrow> v1beta1_MeterDefinition" where
  "created_def uid d =
     (read_back d)\<lparr>bdMeta := (bdMeta d)\<lparr>omUID := uid, omVersion := 1\<rparr>,
       bdStatus := \<lparr>mdsConditions = [], mdsWorkloadResources = [], mdsResults = []\<rparr>\<rparr>"

definition Create_def :: "csv_env \<Rightarrow> v1beta1_MeterDefinition \<Rightarrow> csv_cluster \<Rightarrow> csv_cluster \<times> (kube_error + unit)" where
  "Create_def E d = csv_call E (\<lambda>s.
     if omName (bdMeta d) = [] then (s, Inl (KGo (Err ''name or generateName is required'')))
     else if definition_key d \<in> definition_key ` set (vcDefs s) then (s, Inl (KGo (Err ''already exists'')))
     else (s\<lparr>vcDefs := vcDefs s @ [created_def (veUID E (vcCalls s)) d]\<rparr>, Inr ()))"

section \<open>The controller\<close>

definition CSV_METERDEFINITION_ANNOTATION :: string where
  "CSV_METERDEFINITION_ANNOTATION = ''marketplace.redhat.com/meterDefinition''"

definition olmNamespace :: string where "olmNamespace = ''olm.operatorNamespace''"
definition olmCopiedFromTag :: string where "olmCopiedFromTag = ''olm.copiedFrom''"

definition zero_beta :: v1beta1_MeterDefinition where
  "zero_beta = \<lparr>bdMeta = zero_meta, bdGroup = [], bdKind = [], bdResourceFilters = [], bdMeters = [],
     bdInstalledBy = None, bdStatus = \<lparr>mdsConditions = [], mdsWorkloadResources = [], mdsResults = []\<rparr>\<rparr>"

text \<open>
  The local copy of the definition. Errors are logged only; the zero value, or what was
  read before the error, goes on. A text of no kind is a nil dereference.
\<close>

definition local_definition ::
  "csv_env \<Rightarrow> ClusterServiceVersion \<Rightarrow> string \<Rightarrow> v1beta1_MeterDefinition result" where
  "local_definition E csv meterDefinitionString =
     (if veDecodeUnstructured E meterDefinitionString \<noteq> None then Inr zero_beta
      else
        (case veKindVersion E meterDefinitionString of
           None \<Rightarrow> Inl (Panic ''nil pointer dereference'')
         | Some version \<Rightarrow>
             (if version = ''v1beta1''
              then Inr (fst (BuildMeterDefinitionFromString (veDecodeBeta E) meterDefinitionString
                     (csvName csv) (csvNamespace csv) ''csvName'' ''csvNamespace''))
              else if version = ''v1alpha1''
              then (case alpha_BuildMeterDefinitionFromString (veDecodeAlpha E) meterDefinitionString
                      (csvName csv) (csvNamespace csv) ''csvName'' ''csvNamespace'' of
                      (a, Some err) \<Rightarrow> Inr zero_beta
                    | (a, None) \<Rightarrow> (case ConvertTo a of Inl err \<Rightarrow> Inr zero_beta | Inr b \<Rightarrow> Inr b))
              else Inr zero_beta)))"

definition installed_by :: "ClusterServiceVersion \<Rightarrow> v1beta1_MeterDefinition \<Rightarrow> bool" where
  "installed_by csv d \<longleftrightarrow> bdInstalledBy d = Some (csvName csv, csvNamespace csv)"

definition spec_part ::
  "v1beta1_MeterDefinition \<Rightarrow> string \<times> string \<times> ResourceFilter list \<times> MeterWorkload list \<times> (string \<times> string) option" where
  "spec_part d = (bdGroup d, bdKind d, bdResourceFilters d, bdMeters d, bdInstalledBy d)"

type_synonym csv_end = "kube_error reconcile_end"

definition create_step ::
  "csv_env \<Rightarrow> ClusterServiceVersion \<Rightarrow> v1beta1_MeterDefinition \<Rightarrow> csv_cluster \<Rightarrow> csv_cluster \<times> csv_end" where
  "create_step E csv md s =
     (let owner = owner_reference ''operators.coreos.com/v1alpha1'' ''ClusterServiceVersion'' (csvName csv);
          md' = md\<lparr>bdMeta := (bdMeta md)\<lparr>omOwners := omOwners (bdMeta md) @ [owner], omNamespace := csvNamespace csv\<rparr>\<rparr>
      in case Create_def E md' s of
           (s1, Inl e) \<Rightarrow> (s1, Returned Stop (Some e))
         | (s1, Inr _) \<Rightarrow> (s1, Returned Stop None))"

definition update_step ::
  "csv_env \<Rightarrow> v1beta1_MeterDefinition \<Rightarrow> v1beta1_MeterDefinition \<Rightarrow> csv_cluster \<Rightarrow> csv_cluster \<times> csv_end" where
  "update_step E md actual s =
     (if spec_part md \<noteq> spec_part actual \<and> bdMeta md \<noteq> bdMeta actual
      then (case Patch_def E md s of
              (s1, Inl e) \<Rightarrow> (s1, Returned RequeueNow (Some e))
            | (s1, Inr _) \<Rightarrow> (s1, Returned RequeueNow None))
      else (s, Returned Stop None))"

definition install_definition ::
  "csv_env \<Rightarrow> ClusterServiceVersion \<Rightarrow> v1beta1_MeterDefinition \<Rightarrow> csv_cluster \<Rightarrow> csv_cluster \<times> csv_end" where
  "install_definition E csv md s =
     (case List_defs E (omNamespace (bdMeta md)) s of
        (s1, Inl e) \<Rightarrow> (s1, Returned Stop (Some e))
      | (s1, Inr items) \<Rightarrow>
          (case List.find (installed_by csv) items of
             None \<Rightarrow> create_step E csv md s1
           | Some actual \<Rightarrow>
               (if omName (bdMeta actual) \<noteq> omName (bdMeta md)
                then (case Delete_def E actual s1 of
                        (s2, Inl e) \<Rightarrow> (s2, Returned Stop (Some e))
                      | (s2, Inr _) \<Rightarrow> create_step E csv md s2)
                else update_step E md actual s1)))"

definition csv_Reconcile :: "csv_env \<Rightarrow> string \<times> string \<Rightarrow> csv_cluster \<Rightarrow> csv_cluster \<times> csv_end" where
  "csv_Reconcile E key s =
     (case Get_csv E key s of
        (s1, Inl e) \<Rightarrow> (s1, Returned Stop (if e = KNotFound then None else Some e))
      | (s1, Inr csv) \<Rightarrow>
          (case csvAnnotations csv CSV_METERDEFINITION_ANNOTATION of
             None \<Rightarrow> (s1, Returned Stop None)
           | Some str \<Rightarrow>
               (if length str = 0 then (s1, Returned Stop None)
                else
                  (case csvAnnotations csv olmNamespace of
                     None \<Rightarrow> (s1, Returned (RequeueAfter 5) None)
                   | Some ns \<Rightarrow>
                       (if ns \<noteq> csvNamespace csv then (s1, Returned Stop None)
                        else
                          (case local_definition E csv str of
                             Inl err \<Rightarrow> (s1, Panicked (error_string err))
                           | Inr md \<Rightarrow> install_definition E csv md s1))))))"

section \<open>Predicates\<close>

definition csvFilter :: "ClusterServiceVersion \<Rightarrow> bool" where
  "csvFilter c \<longleftrightarrow>
     csvAnnotations c olmNamespace \<noteq> None \<and> csvAnnotations c CSV_METERDEFINITION_ANNOTATION \<noteq> None \<and>
     csvLabels c olmCopiedFromTag = None"

definition read_key :: "smap \<Rightarrow> string \<Rightarrow> string" where
  "read_key m k = (case m k of None \<Rightarrow> [] | Some v \<Rightarrow> v)"

definition checkForUpdateToMdef :: "ClusterServiceVersion \<Rightarrow> ClusterServiceVersion \<Rightarrow> bool" where
  "checkForUpdateToMdef old new \<longleftrightarrow>
     csvAnnotations new CSV_METERDEFINITION_ANNOTATION \<noteq> None \<and> csvLabels new olmCopiedFromTag = None \<and>
     csvAnnotations new olmNamespace \<noteq> None \<and>
     (read_key (csvAnnotations old) CSV_METERDEFINITION_ANNOTATION \<noteq>
        read_key (csvAnnotations new) CSV_METERDEFINITION_ANNOTATION \<or>
      read_key (csvLabels old) olmCopiedFromTag \<noteq> read_key (csvLabels new) olmCopiedFromTag \<or>
      read_key (csvAnnotations old) olmNamespace \<noteq> read_key (csvAnnotations new) olmNamespace)"

section \<open>Calls without faults\<close>

definition csv_no_faults :: "csv_env \<Rightarrow> bool" where
  "csv_no_faults E \<longleftrightarrow> (\<forall>n. veFault E n = None)"

definition called :: "csv_cluster \<Rightarrow> csv_cluster" where
  "called s = s\<lparr>vcCalls := Suc (vcCalls s)\<rparr>"

lemma called_simps [simp]: "vcDefs (called s) = vcDefs s" "vcCSVs (called s) = vcCSVs s"
  by (simp_all add: called_def)

lemma csv_call_ok: "csv_no_faults E \<Longrightarrow> csv_call E f s = f (called s)"
  by (simp add: csv_call_def csv_no_faults_def called_def)

lemma csv_call_cases:
  "csv_call E f s = (s', r) \<Longrightarrow> f (called s) = (s', r) \<or> s' = called s \<and> (\<exists>e. r = Inl e)"
  by (auto simp: csv_call_def called_def Let_def split: option.splits)

text \<open>Keys are unique; stored definitions have a namespace and a version.\<close>

definition defs_ok :: "v1beta1_MeterDefinition list \<Rightarrow> bool" where
  "defs_ok ds \<longleftrightarrow> distinct (map definition_key ds) \<and> (\<forall>d \<in> set ds. omNamespace (bdMeta d) \<noteq> [] \<and> 0 < omVersion (bdMeta d))"

lemma defs_ok_same: "defs_ok ds \<Longrightarrow> d \<in> set ds \<Longrightarrow> d' \<in> set ds \<Longrightarrow> definition_key d = definition_key d' \<Longrightarrow> d = d'"
  by (auto simp: defs_ok_def distinct_map inj_on_def)

lemma defs_ok_filter: "defs_ok ds \<Longrightarrow> defs_ok (filter P ds)"
  by (auto simp: defs_ok_def distinct_map_filter)

lemma read_back_simps [simp]:
  "bdMeta (read_back d) = bdMeta d" "bdInstalledBy (read_back d) = bdInstalledBy d" "bdGroup (read_back d) = bdGroup d"
  "bdKind (read_back d) = bdKind d" "bdResourceFilters (read_back d) = bdResourceFilters d" "bdStatus (read_back d) = bdStatus d"
  by (simp_all add: read_back_def)

lemma merge_patch_meta [simp]:
  "omNamespace (bdMeta (merge_patch d x)) = omNamespace (bdMeta x)" "omName (bdMeta (merge_patch d x)) = omName (bdMeta x)"
  "0 < omVersion (bdMeta x) \<Longrightarrow> 0 < omVersion (bdMeta (merge_patch d x))"
  by (simp_all add: merge_patch_def Let_def)

lemma merge_patch_spec:
  assumes "bdInstalledBy d \<noteq> None"
  shows "spec_part (merge_patch d x) = spec_part (read_back d)"
  using assms by (auto simp: merge_patch_def Let_def spec_part_def dest!: arg_cong [where f = spec_part])

lemma merge_patch_key [simp]: "definition_key (merge_patch d x) = definition_key x"
  by (simp add: definition_key_def)

lemma patched_keys:
  "map definition_key (map (\<lambda>x. if definition_key x = k then merge_patch d x else x) ds) = map definition_key ds"
  by simp

lemma defs_ok_patched: "defs_ok ds \<Longrightarrow> defs_ok (map (\<lambda>x. if definition_key x = k then merge_patch d x else x) ds)"
  unfolding defs_ok_def patched_keys by auto

lemma find_SomeD: "List.find P xs = Some x \<Longrightarrow> P x \<and> x \<in> set xs"
  by (metis find_Some_iff nth_mem)

section \<open>Only the operator's own definition is touched\<close>

lemma create_step_defs:
  assumes "create_step E csv md s = (s', r)" "defs_ok (vcDefs s)" "csvNamespace csv \<noteq> []"
  shows "set (vcDefs s) \<subseteq> set (vcDefs s') \<and> defs_ok (vcDefs s')"
  using assms
  by (auto simp: create_step_def Create_def_def created_def_def defs_ok_def definition_key_def Let_def
      split: prod.splits sum.splits if_splits dest!: csv_call_cases)

lemma update_step_defs:
  assumes "update_step E md actual s = (s', r)" "defs_ok (vcDefs s)" "actual \<in> set (vcDefs s)"
    "omNamespace (bdMeta md) = [] \<or> definition_key md = definition_key actual"
  shows "set (vcDefs s) - {actual} \<subseteq> set (vcDefs s') \<and> defs_ok (vcDefs s')"
proof -
  have key: "x = actual" if "x \<in> set (vcDefs s)" "definition_key x = definition_key md" for x
    using that assms(2-4) defs_ok_same [OF assms(2), of x actual] by (force simp: defs_ok_def definition_key_def)
  show ?thesis using assms(1,2) key
    by (auto simp: update_step_def Patch_def_def defs_ok_patched split: prod.splits sum.splits if_splits
        dest!: csv_call_cases)
qed

lemma install_definition_defs:
  assumes "install_definition E csv md s = (s', r)" "defs_ok (vcDefs s)" "csvNamespace csv \<noteq> []"
  shows "{d \<in> set (vcDefs s). \<not> installed_by csv d} \<subseteq> set (vcDefs s') \<and> defs_ok (vcDefs s')"
proof -
  obtain s1 items where l: "List_defs E (omNamespace (bdMeta md)) s = (s1, items)" by fastforce
  have s1: "vcDefs s1 = vcDefs s" and items: "items = Inr xs \<Longrightarrow> xs =
      filter (\<lambda>d. omNamespace (bdMeta md) = [] \<or> omNamespace (bdMeta d) = omNamespace (bdMeta md)) (vcDefs s)" for xs
    using l by (auto simp: List_defs_def dest!: csv_call_cases)
  show ?thesis
  proof (cases items)
    case (Inl e)
    then show ?thesis using assms(1,2) l s1 by (auto simp: install_definition_def)
  next
    case (Inr xs)
    show ?thesis
    proof (cases "List.find (installed_by csv) xs")
      case None
      then have "create_step E csv md s1 = (s', r)" using assms(1) l Inr by (simp add: install_definition_def)
      then show ?thesis using create_step_defs assms(2,3) s1 by fastforce
    next
      case (Some actual)
      have actual: "installed_by csv actual" "actual \<in> set (vcDefs s)"
        "omNamespace (bdMeta md) = [] \<or> omNamespace (bdMeta actual) = omNamespace (bdMeta md)"
        using find_SomeD [OF Some] items [OF Inr] by auto
      show ?thesis
      proof (cases "omName (bdMeta actual) = omName (bdMeta md)")
        case True
        then have "update_step E md actual s1 = (s', r)" using assms(1) l Inr Some by (simp add: install_definition_def)
        then show ?thesis using update_step_defs [of E md actual s1 s' r] assms(2) s1 actual True
          by (auto simp: definition_key_def)
      next
        case False
        obtain s2 e where d: "Delete_def E actual s1 = (s2, e)" by fastforce
        have s2: "vcDefs s2 = vcDefs s \<or> vcDefs s2 = filter (\<lambda>x. definition_key x \<noteq> definition_key actual) (vcDefs s)"
          using d s1 by (auto simp: Delete_def_def split: if_splits dest!: csv_call_cases)
        have kept: "{d \<in> set (vcDefs s). \<not> installed_by csv d} \<subseteq> set (vcDefs s2)" "defs_ok (vcDefs s2)"
          using s2 actual(1) assms(2) by (auto simp: defs_ok_filter dest: defs_ok_same [OF assms(2) _ actual(2)])
        show ?thesis
        proof (cases e)
          case (Inr u)
          then have "create_step E csv md s2 = (s', r)"
            using assms(1) l \<open>items = Inr xs\<close> Some False d by (simp add: install_definition_def)
          then show ?thesis using create_step_defs [of E csv md s2 s' r] kept assms(3) by blast
        qed (use assms(1) l \<open>items = Inr xs\<close> Some False d kept in \<open>simp add: install_definition_def\<close>)
      qed
    qed
  qed
qed

text \<open>
  C25: Whatever fails, a run changes or deletes no definition that the cluster service version
  did not install, and keys stay unique.
\<close>

theorem other_definitions_kept:
  assumes "csv_Reconcile E key s = (s', r)" "defs_ok (vcDefs s)" "vcCSVs s key = Some csv" "csvNamespace csv \<noteq> []"
  shows "{d \<in> set (vcDefs s). \<not> installed_by csv d} \<subseteq> set (vcDefs s') \<and> defs_ok (vcDefs s')"
proof -
  obtain s1 c where g: "Get_csv E key s = (s1, c)" by fastforce
  have s1: "vcDefs s1 = vcDefs s" and c: "c = Inr x \<Longrightarrow> x = csv" for x
    using g assms(3) by (auto simp: Get_csv_def split: option.splits dest!: csv_call_cases)
  consider "vcDefs s' = vcDefs s" | md where "install_definition E csv md s1 = (s', r)"
    using assms(1) g c s1
    by (auto simp: csv_Reconcile_def split: sum.splits option.splits if_splits)
  then show ?thesis
  proof cases
    case 1
    then show ?thesis using assms(2) by auto
  next
    case 2
    then show ?thesis using install_definition_defs [OF 2] assms(2,4) s1 by simp
  qed
qed

section \<open>The definition that ends up installed\<close>

text \<open>The cluster service version is the head one and its definition can be read.\<close>

definition carries :: "csv_env \<Rightarrow> ClusterServiceVersion \<Rightarrow> v1beta1_MeterDefinition \<Rightarrow> bool" where
  "carries E csv md \<longleftrightarrow>
     (\<exists>str. csvAnnotations csv CSV_METERDEFINITION_ANNOTATION = Some str \<and> str \<noteq> [] \<and>
        csvAnnotations csv olmNamespace = Some (csvNamespace csv) \<and> local_definition E csv str = Inr md)"

lemma csv_Reconcile_carries:
  assumes "csv_no_faults E" "vcCSVs s key = Some csv" "carries E csv md"
  shows "csv_Reconcile E key s = install_definition E csv md (called s)"
  using assms by (auto simp: carries_def csv_Reconcile_def Get_csv_def csv_call_ok)

definition in_namespace :: "string \<Rightarrow> v1beta1_MeterDefinition list \<Rightarrow> v1beta1_MeterDefinition list" where
  "in_namespace ns ds = filter (\<lambda>d. omNamespace (bdMeta d) = ns) ds"

lemma install_no_faults:
  assumes "csv_no_faults E" "omNamespace (bdMeta md) = ns" "ns \<noteq> []"
  shows "install_definition E csv md s =
    (case List.find (installed_by csv) (in_namespace ns (vcDefs s)) of
       None \<Rightarrow> create_step E csv md (called s)
     | Some actual \<Rightarrow>
         (if omName (bdMeta actual) \<noteq> omName (bdMeta md)
          then create_step E csv md ((called (called s))\<lparr>vcDefs := filter (\<lambda>x. definition_key x \<noteq> definition_key actual) (vcDefs s)\<rparr>)
          else update_step E md actual (called s)))"
proof (cases "List.find (installed_by csv) (in_namespace ns (vcDefs s))")
  case (Some actual)
  then have "definition_key actual \<in> definition_key ` set (vcDefs s)" by (auto simp: in_namespace_def dest: find_SomeD)
  then show ?thesis using assms Some
    by (simp add: install_definition_def List_defs_def csv_call_ok Delete_def_def in_namespace_def)
qed (use assms in \<open>simp add: install_definition_def List_defs_def csv_call_ok in_namespace_def\<close>)

definition owned :: "ClusterServiceVersion \<Rightarrow> v1beta1_MeterDefinition \<Rightarrow> v1beta1_MeterDefinition" where
  "owned csv md = md\<lparr>bdMeta := (bdMeta md)\<lparr>omOwners := omOwners (bdMeta md) @
     [owner_reference ''operators.coreos.com/v1alpha1'' ''ClusterServiceVersion'' (csvName csv)],
     omNamespace := csvNamespace csv\<rparr>\<rparr>"

lemma create_step_ok:
  assumes "csv_no_faults E" "omName (bdMeta md) \<noteq> []"
    "(csvNamespace csv, omName (bdMeta md)) \<notin> definition_key ` set (vcDefs s)"
  shows "create_step E csv md s =
    ((called s)\<lparr>vcDefs := vcDefs s @ [created_def (veUID E (vcCalls (called s))) (owned csv md)]\<rparr>, Returned Stop None)"
  using assms by (simp add: create_step_def Create_def_def csv_call_ok definition_key_def owned_def Let_def)

text \<open>The state a run reaches: the definition is there, with its specification as it reads back, under its name.\<close>

definition installed_as :: "ClusterServiceVersion \<Rightarrow> v1beta1_MeterDefinition \<Rightarrow> v1beta1_MeterDefinition list \<Rightarrow> bool" where
  "installed_as csv md ds \<longleftrightarrow>
     (\<exists>d. List.find (installed_by csv) (in_namespace (csvNamespace csv) ds) = Some d \<and>
        omName (bdMeta d) = omName (bdMeta md) \<and> spec_part d = spec_part (read_back md))"

text \<open>
  The cluster service version has installed at most one definition in its namespace, and no
  other definition has the name of the one it carries.
\<close>

definition sole :: "ClusterServiceVersion \<Rightarrow> v1beta1_MeterDefinition \<Rightarrow> v1beta1_MeterDefinition list \<Rightarrow> bool" where
  "sole csv md ds \<longleftrightarrow>
     (\<forall>d \<in> set (in_namespace (csvNamespace csv) ds). \<forall>e \<in> set (in_namespace (csvNamespace csv) ds).
        installed_by csv d \<longrightarrow> installed_by csv e \<longrightarrow> d = e) \<and>
     (\<forall>d \<in> set ds. definition_key d = definition_key md \<longrightarrow> installed_by csv d)"

text \<open>A definition that a cluster service version carries and that the server accepts.\<close>

definition installable :: "ClusterServiceVersion \<Rightarrow> v1beta1_MeterDefinition \<Rightarrow> bool" where
  "installable csv md \<longleftrightarrow> omNamespace (bdMeta md) = csvNamespace csv \<and> csvNamespace csv \<noteq> [] \<and>
     omName (bdMeta md) \<noteq> [] \<and> omVersion (bdMeta md) = 0 \<and> installed_by csv md"

lemma installed_by_patched: "installed_by csv md \<Longrightarrow> installed_by csv (merge_patch md x)"
  using merge_patch_spec [of md x] by (auto simp: installed_by_def spec_part_def)

text \<open>Patching the definition that is found: it is found again, in its new form.\<close>

lemma patched_find:
  assumes "List.find (installed_by csv) (in_namespace ns ds) = Some actual" "installed_by csv md"
    "\<And>x. x \<in> set (in_namespace ns ds) \<Longrightarrow> definition_key x = k \<longleftrightarrow> installed_by csv x"
  shows "List.find (installed_by csv) (in_namespace ns (map (\<lambda>x. if definition_key x = k then merge_patch md x else x) ds)) =
    Some (merge_patch md actual)"
  using assms
proof (induction ds)
  case (Cons x ds)
  note inst = installed_by_patched [OF Cons.prems(2)]
  show ?case
  proof (cases "omNamespace (bdMeta x) = ns \<and> installed_by csv x")
    case True
    then show ?thesis using Cons.prems(1,3) inst by (simp add: in_namespace_def)
  next
    case False
    then show ?thesis using Cons inst by (auto simp: in_namespace_def split: if_splits)
  qed
qed (simp add: in_namespace_def)

text \<open>The three ways the list of definitions changes keep the operator's definition the only one.\<close>

lemma sole_append:
  assumes "sole csv md ds" "\<forall>d \<in> set (in_namespace (csvNamespace csv) ds). \<not> installed_by csv d" "installed_by csv d"
  shows "sole csv md (ds @ [d])"
  using assms by (auto simp: sole_def in_namespace_def)

lemma sole_filter: "sole csv md ds \<Longrightarrow> sole csv md (filter P ds)"
  by (auto simp: sole_def in_namespace_def)

lemma sole_patched:
  assumes "sole csv md ds" "defs_ok ds" "installed_by csv md" "actual \<in> set (in_namespace (csvNamespace csv) ds)"
    "installed_by csv actual" "definition_key actual = definition_key md"
  shows "sole csv md (map (\<lambda>x. if definition_key x = definition_key md then merge_patch md x else x) ds)"
proof -
  let ?ds = "map (\<lambda>x. if definition_key x = definition_key md then merge_patch md x else x) ds"
  have act: "actual \<in> set ds" using assms(4) by (simp add: in_namespace_def)
  have own: "d = merge_patch md actual" if d: "d \<in> set (in_namespace (csvNamespace csv) ?ds)" "installed_by csv d" for d
  proof -
    obtain x where x: "x \<in> set ds" "d = (if definition_key x = definition_key md then merge_patch md x else x)"
      using d(1) by (auto simp: in_namespace_def)
    show ?thesis
    proof (cases "definition_key x = definition_key md")
      case True
      then show ?thesis using x defs_ok_same [OF assms(2) x(1) act] assms(6) by simp
    next
      case False
      then have "x \<in> set (in_namespace (csvNamespace csv) ds)" "installed_by csv x"
        using x d by (simp_all add: in_namespace_def)
      then have "x = actual" using assms(1,4,5) unfolding sole_def by blast
      then show ?thesis using False assms(6) by simp
    qed
  qed
  have "installed_by csv d" if "d \<in> set ?ds" "definition_key d = definition_key md" for d
    using that assms(3) by (auto simp: installed_by_patched split: if_splits)
  moreover have "d = e" if "d \<in> set (in_namespace (csvNamespace csv) ?ds)" "e \<in> set (in_namespace (csvNamespace csv) ?ds)"
      "installed_by csv d" "installed_by csv e" for d e
    using own [OF that(1,3)] own [OF that(2,4)] by simp
  ultimately show ?thesis unfolding sole_def by blast
qed

text \<open>What a run without faults does to a definition that is found under its name.\<close>

lemma install_found:
  assumes nf: "csv_no_faults E" and ok: "defs_ok (vcDefs s)" and md: "installable csv md" and sole: "sole csv md (vcDefs s)"
    and found: "List.find (installed_by csv) (in_namespace (csvNamespace csv) (vcDefs s)) = Some actual"
      "omName (bdMeta actual) = omName (bdMeta md)"
  shows "\<exists>s'. install_definition E csv md s =
      (s', Returned (if spec_part md = spec_part actual then Stop else RequeueNow) None) \<and>
    (spec_part md = spec_part actual \<longrightarrow> vcDefs s' = vcDefs s) \<and>
    (spec_part md \<noteq> spec_part actual \<longrightarrow> installed_as csv md (vcDefs s')) \<and>
    sole csv md (vcDefs s') \<and> vcCSVs s' = vcCSVs s"
proof -
  have actual: "installed_by csv actual" "actual \<in> set (in_namespace (csvNamespace csv) (vcDefs s))" "actual \<in> set (vcDefs s)"
    "omNamespace (bdMeta actual) = csvNamespace csv"
    using find_SomeD [OF found(1)] by (auto simp: in_namespace_def)
  have m: "omNamespace (bdMeta md) = csvNamespace csv" "csvNamespace csv \<noteq> []" "omVersion (bdMeta md) = 0" "installed_by csv md"
    using md by (simp_all add: installable_def)
  have key: "definition_key actual = definition_key md" using actual(4) m(1) found(2) by (simp add: definition_key_def)
  have run: "install_definition E csv md s = update_step E md actual (called s)"
    using install_no_faults [OF nf m(1,2), of csv s] found by simp
  show ?thesis
  proof (cases "spec_part md = spec_part actual")
    case True
    then show ?thesis using run sole by (simp add: update_step_def)
  next
    case False
    let ?ds = "map (\<lambda>x. if definition_key x = definition_key md then merge_patch md x else x) (vcDefs s)"
    have "bdMeta md \<noteq> bdMeta actual" using m(3) ok actual(3) by (auto simp: defs_ok_def)
    then have upd: "install_definition E csv md s = ((called (called s))\<lparr>vcDefs := ?ds\<rparr>, Returned RequeueNow None)"
      using False key [symmetric] actual(3) nf run by (simp add: update_step_def Patch_def_def csv_call_ok)
    have only: "definition_key x = definition_key md \<longleftrightarrow> installed_by csv x"
      if "x \<in> set (in_namespace (csvNamespace csv) (vcDefs s))" for x
      using that sole actual(1,2) key unfolding sole_def in_namespace_def by (metis (lifting) filter_is_subset subsetD)
    have "List.find (installed_by csv) (in_namespace (csvNamespace csv) ?ds) = Some (merge_patch md actual)"
      by (rule patched_find [OF found(1) m(4) only])
    then have "installed_as csv md ?ds"
      using found(2) merge_patch_spec [of md actual] m(4) by (simp add: installed_as_def installed_by_def)
    then show ?thesis using upd False sole_patched [OF sole ok m(4) actual(2,1) key] by simp
  qed
qed

lemma install_created:
  assumes nf: "csv_no_faults E" and md: "installable csv md" and sole: "sole csv md ds" and ds: "vcDefs s = ds"
    and none: "\<forall>d \<in> set (in_namespace (csvNamespace csv) ds). \<not> installed_by csv d"
  shows "\<exists>s'. create_step E csv md s = (s', Returned Stop None) \<and> installed_as csv md (vcDefs s') \<and>
    sole csv md (vcDefs s') \<and> vcCSVs s' = vcCSVs s"
proof -
  have m: "omNamespace (bdMeta md) = csvNamespace csv" "omName (bdMeta md) \<noteq> []" "installed_by csv md"
    using md by (simp_all add: installable_def)
  let ?d = "created_def (veUID E (vcCalls (called s))) (owned csv md)"
  have d: "installed_by csv ?d" "omNamespace (bdMeta ?d) = csvNamespace csv" "omName (bdMeta ?d) = omName (bdMeta md)"
    "spec_part ?d = spec_part (read_back md)"
    using m(3) by (simp_all add: created_def_def owned_def installed_by_def spec_part_def read_back_def)
  have "(csvNamespace csv, omName (bdMeta md)) \<notin> definition_key ` set (vcDefs s)"
    using none sole m(1) ds by (auto simp: sole_def definition_key_def in_namespace_def)
  from create_step_ok [OF nf m(2) this] have run: "create_step E csv md s = ((called s)\<lparr>vcDefs := ds @ [?d]\<rparr>, Returned Stop None)"
    by (simp add: ds)
  have "List.find (installed_by csv) (in_namespace (csvNamespace csv) ds) = None" using none by (auto simp: find_None_iff)
  then have "installed_as csv md (ds @ [?d])"
    using d by (simp add: installed_as_def in_namespace_def find_append)
  then show ?thesis using run sole_append [OF sole none d(1)] by simp
qed

lemma install_reaches:
  assumes nf: "csv_no_faults E" and ok: "defs_ok (vcDefs s)" and md: "installable csv md" and sole: "sole csv md (vcDefs s)"
    and json: "\<forall>d \<in> set (vcDefs s). read_back d = d"
  shows "\<exists>s' q. install_definition E csv md s = (s', Returned q None) \<and> installed_as csv md (vcDefs s') \<and>
    sole csv md (vcDefs s') \<and> vcCSVs s' = vcCSVs s"
proof (cases "List.find (installed_by csv) (in_namespace (csvNamespace csv) (vcDefs s))")
  case None
  have "omNamespace (bdMeta md) = csvNamespace csv" "csvNamespace csv \<noteq> []" using md by (simp_all add: installable_def)
  note run = install_no_faults [OF nf this, of csv s, unfolded None, simplified]
  have "\<forall>d \<in> set (in_namespace (csvNamespace csv) (vcDefs s)). \<not> installed_by csv d" using None by (simp add: find_None_iff)
  from install_created [OF nf md sole _ this, of "called s"] show ?thesis unfolding run by (metis called_simps)
next
  case (Some actual)
  have m: "omNamespace (bdMeta md) = csvNamespace csv" "csvNamespace csv \<noteq> []" using md by (simp_all add: installable_def)
  have actual: "installed_by csv actual" "actual \<in> set (in_namespace (csvNamespace csv) (vcDefs s))"
    using find_SomeD [OF Some] by auto
  show ?thesis
  proof (cases "omName (bdMeta actual) = omName (bdMeta md)")
    case True
    show ?thesis
    proof (cases "spec_part md = spec_part actual")
      case eq: True
      have "read_back actual = actual" using json actual(2) by (simp add: in_namespace_def)
      then have "bdMeters (read_back actual) = bdMeters actual" by simp
      with eq have "spec_part actual = spec_part (read_back md)" by (simp add: spec_part_def read_back_def)
      then have "installed_as csv md (vcDefs s)" using Some True by (simp add: installed_as_def)
      then show ?thesis using install_found [OF nf ok md sole Some True] eq by auto
    next
      case False
      then show ?thesis using install_found [OF nf ok md sole Some True] by auto
    qed
  next
    case False
    let ?ds = "filter (\<lambda>x. definition_key x \<noteq> definition_key actual) (vcDefs s)"
    have run: "install_definition E csv md s = create_step E csv md ((called (called s))\<lparr>vcDefs := ?ds\<rparr>)"
      using install_no_faults [OF nf m, of csv s] Some False by simp
    have "\<forall>d \<in> set (in_namespace (csvNamespace csv) ?ds). \<not> installed_by csv d"
      using sole actual unfolding sole_def in_namespace_def by auto
    from install_created [OF nf md sole_filter [OF sole] _ this, of "(called (called s))\<lparr>vcDefs := ?ds\<rparr>"]
    show ?thesis unfolding run by (auto simp: called_def)
  qed
qed

text \<open>Later runs: the definition that is there is left alone exactly when it reads back as it was carried.\<close>

lemma spec_part_read_back: "spec_part md = spec_part (read_back md) \<longleftrightarrow> read_back md = md"
  by (cases md) (auto simp: spec_part_def read_back_def)

lemma install_again:
  assumes "csv_no_faults E" "defs_ok (vcDefs s)" "installable csv md" "sole csv md (vcDefs s)" "installed_as csv md (vcDefs s)"
  shows "\<exists>s'. install_definition E csv md s = (s', Returned (if read_back md = md then Stop else RequeueNow) None) \<and>
    (read_back md = md \<longrightarrow> vcDefs s' = vcDefs s) \<and> installed_as csv md (vcDefs s') \<and> sole csv md (vcDefs s') \<and> vcCSVs s' = vcCSVs s"
proof -
  from assms(5) obtain actual where a: "List.find (installed_by csv) (in_namespace (csvNamespace csv) (vcDefs s)) = Some actual"
    "omName (bdMeta actual) = omName (bdMeta md)" "spec_part actual = spec_part (read_back md)"
    by (auto simp: installed_as_def)
  from install_found [OF assms(1-4) a(1,2)] show ?thesis
    unfolding a(3) spec_part_read_back using assms(5) by (auto split: if_splits)
qed

text \<open>
  C23: A head cluster service version whose definition can be read gets it installed in one
  run, from nothing, another version of it or one under another name. What is installed is
  the definition as it reads back from JSON, which leaves out the empty grouping lists of
  meters. A definition that reads back as itself is left alone by the next run, which
  asks for no other; any other definition is patched by the next run, which asks to be run
  again. It is assumed that no call fails, that the carried definition has a name and no
  version, that the operator has installed at most one definition in its namespace and that
  no other definition there has the name of the carried one, and that a list a selector does
  not have is absent and not empty.
\<close>

theorem definition_installed:
  assumes "csv_no_faults E" "defs_ok (vcDefs s)" "vcCSVs s key = Some csv" "carries E csv md" "installable csv md"
    and "\<forall>d \<in> set (vcDefs s). read_back d = d" and "sole csv md (vcDefs s)"
  shows "\<exists>s1 s2 q. csv_Reconcile E key s = (s1, Returned q None) \<and> installed_as csv md (vcDefs s1) \<and>
    csv_Reconcile E key s1 = (s2, Returned (if read_back md = md then Stop else RequeueNow) None) \<and>
    installed_as csv md (vcDefs s2) \<and> (read_back md = md \<longrightarrow> vcDefs s2 = vcDefs s1)"
proof -
  have first: "csv_Reconcile E key s = install_definition E csv md (called s)"
    by (rule csv_Reconcile_carries) (use assms in auto)
  obtain s1 q where s1: "install_definition E csv md (called s) = (s1, Returned q None)"
    "installed_as csv md (vcDefs s1)" "sole csv md (vcDefs s1)" "vcCSVs s1 = vcCSVs s"
    using install_reaches [of E "called s" csv md] assms by auto
  have ok: "defs_ok (vcDefs (called s1))"
    using install_definition_defs [OF s1(1)] assms(2,5) by (simp add: installable_def)
  have second: "csv_Reconcile E key s1 = install_definition E csv md (called s1)"
    by (rule csv_Reconcile_carries) (use assms s1 in auto)
  show ?thesis using first second s1 install_again [OF assms(1) ok assms(5)] by auto
qed

text \<open>
  The conversion of a v1alpha1 definition sets the grouping of every meter to an empty list,
  so a converted definition with a meter never settles: every run over it patches what is
  installed and asks for the next run.
\<close>

lemma converted_group_by: "ConvertTo a = Inr md \<Longrightarrow> m \<in> set (bdMeters md) \<Longrightarrow> mwGroupBy m = Some []"
  by (auto simp: ConvertTo_def ConvertTo_loop_Inr converted_meters_def workload_meter_def split: sum.splits prod.splits)

theorem converted_definition_patched_for_ever:
  assumes "csv_no_faults E" "defs_ok (vcDefs s)" "vcCSVs s key = Some csv" "carries E csv md" "installable csv md"
    and "sole csv md (vcDefs s)" "installed_as csv md (vcDefs s)"
    and "ConvertTo a = Inr md" "bdMeters md \<noteq> []"
  shows "\<exists>s'. csv_Reconcile E key s = (s', Returned RequeueNow None) \<and>
    vcCSVs s' = vcCSVs s \<and> defs_ok (vcDefs s') \<and> sole csv md (vcDefs s') \<and> installed_as csv md (vcDefs s')"
proof -
  have "mwGroupBy (json_meter m) \<noteq> Some []" for m by (simp add: json_meter_def omit_empty_def)
  with converted_group_by [OF assms(8)] assms(9) have "map json_meter (bdMeters md) \<noteq> bdMeters md"
    by (metis list.set_intros(1) list.map(2) list.exhaust list.inject)
  then have "read_back md \<noteq> md" by (metis read_back_def v1beta1_MeterDefinition.select_convs(5) v1beta1_MeterDefinition.surjective
        v1beta1_MeterDefinition.update_convs(5))
  moreover have run: "csv_Reconcile E key s = install_definition E csv md (called s)"
    by (rule csv_Reconcile_carries) (use assms in auto)
  moreover have "defs_ok (vcDefs (called s))" using assms(2) by simp
  ultimately obtain s' where s': "install_definition E csv md (called s) = (s', Returned RequeueNow None)"
    "installed_as csv md (vcDefs s')" "sole csv md (vcDefs s')" "vcCSVs s' = vcCSVs s"
    using install_again [of E "called s" csv md] assms(1,5,6,7) by auto
  moreover have "defs_ok (vcDefs s')" using install_definition_defs [OF s'(1)] assms(2,5) by (simp add: installable_def)
  ultimately show ?thesis using run by auto
qed

text \<open>
  C28: A definition that cannot be decoded is only logged: the run goes on with an empty
  definition, takes its empty name for a new name, deletes the installed definition and
  fails to create one without a name.
\<close>

theorem unreadable_annotation_deletes:
  assumes "csv_no_faults E" "defs_ok (vcDefs s)" "vcCSVs s key = Some csv"
    and "csvAnnotations csv CSV_METERDEFINITION_ANNOTATION = Some str" "str \<noteq> []"
      "csvAnnotations csv olmNamespace = Some (csvNamespace csv)"
    and "veDecodeUnstructured E str = Some err"
    and "List.find (installed_by csv) (vcDefs s) = Some d" "omName (bdMeta d) \<noteq> []"
  shows "\<exists>s'. csv_Reconcile E key s = (s', Returned Stop (Some (KGo (Err ''name or generateName is required'')))) \<and>
    set (vcDefs s') = set (vcDefs s) - {d}"
proof -
  have d: "d \<in> set (vcDefs s)" using find_SomeD [OF assms(8)] by simp
  have "carries E csv zero_beta" using assms(4-7) by (auto simp: carries_def local_definition_def)
  then have run: "csv_Reconcile E key s = install_definition E csv zero_beta (called s)"
    using assms(1,3) by (intro csv_Reconcile_carries)
  have "set (filter (\<lambda>x. definition_key x \<noteq> definition_key d) (vcDefs s)) = set (vcDefs s) - {d}"
    using defs_ok_same [OF assms(2) _ d] by auto
  moreover have "definition_key d \<in> definition_key ` set (vcDefs s)" using d by simp
  ultimately show ?thesis using assms(1,8,9) run
    by (simp add: install_definition_def List_defs_def csv_call_ok Delete_def_def create_step_def Create_def_def
        zero_beta_def zero_meta_def Let_def)
qed

text \<open>A cluster service version that passes the update predicate passes the one for creation.\<close>

lemma update_predicate_head: "checkForUpdateToMdef old new \<Longrightarrow> csvFilter new"
  by (simp add: checkForUpdateToMdef_def csvFilter_def)

section \<open>Witnesses\<close>

definition demo_csv :: "string \<Rightarrow> ClusterServiceVersion" where
  "demo_csv str = \<lparr>csvName = ''op.v1'', csvNamespace = ''ns'',
     csvAnnotations = [CSV_METERDEFINITION_ANNOTATION \<mapsto> str, olmNamespace \<mapsto> ''ns''], csvLabels = Map.empty\<rparr>"

definition demo_csv_env :: csv_env where
  "demo_csv_env = \<lparr>veFault = (\<lambda>n. None), veKindVersion = (\<lambda>s. Some ''v1beta1''),
     veDecodeUnstructured = (\<lambda>s. if s = ''bad'' then Some (Err ''bad'') else None),
     veDecodeBeta = (\<lambda>s. (zero_beta\<lparr>bdMeta := zero_meta\<lparr>omName := ''md''\<rparr>, bdGroup := s\<rparr>, None)),
     veDecodeAlpha = (\<lambda>s. (zero_alpha, None)), veUID = (\<lambda>n. ''u'')\<rparr>"

definition demo_csv_md :: "string \<Rightarrow> v1beta1_MeterDefinition" where
  "demo_csv_md g = zero_beta\<lparr>bdMeta := zero_meta\<lparr>omName := ''md'', omNamespace := ''ns'',
       omAnnotations := [''csvName'' \<mapsto> ''op.v1'', ''csvNamespace'' \<mapsto> ''ns'']\<rparr>, bdGroup := g,
     bdInstalledBy := Some (''op.v1'', ''ns'')\<rparr>"

definition demo_stored_md :: v1beta1_MeterDefinition where
  "demo_stored_md = created_def ''u'' (demo_csv_md ''g1'')"

definition demo_foreign_md :: v1beta1_MeterDefinition where
  "demo_foreign_md = created_def ''v'' (zero_beta\<lparr>bdMeta := zero_meta\<lparr>omName := ''other'', omNamespace := ''ns''\<rparr>\<rparr>)"

definition demo_csv_cluster :: "string \<Rightarrow> csv_cluster" where
  "demo_csv_cluster str = \<lparr>vcCSVs = [(''ns'', ''op.v1'') \<mapsto> demo_csv str],
     vcDefs = [demo_foreign_md, demo_stored_md], vcCalls = 0\<rparr>"

lemmas demo_csv_defs = demo_csv_def demo_csv_env_def demo_csv_md_def demo_stored_md_def demo_foreign_md_def
  demo_csv_cluster_def zero_beta_def zero_meta_def created_def_def definition_key_def installed_by_def

lemma demo_csv_ok: "csv_no_faults demo_csv_env" "defs_ok (vcDefs (demo_csv_cluster str))"
  by (simp_all add: csv_no_faults_def defs_ok_def demo_csv_defs)

lemma demo_csv_carries: "carries demo_csv_env (demo_csv ''g2'') (demo_csv_md ''g2'')"
  by (simp add: carries_def demo_csv_defs local_definition_def BuildMeterDefinitionFromString_def named_by_def
      CSV_METERDEFINITION_ANNOTATION_def olmNamespace_def)

theorem other_definitions_kept_witness:
  "demo_foreign_md \<in> set (vcDefs (fst (csv_Reconcile demo_csv_env (''ns'', ''op.v1'') (demo_csv_cluster ''bad''))))"
proof -
  obtain s' r where run: "csv_Reconcile demo_csv_env (''ns'', ''op.v1'') (demo_csv_cluster ''bad'') = (s', r)" by fastforce
  have "demo_foreign_md \<in> {d \<in> set (vcDefs (demo_csv_cluster ''bad'')). \<not> installed_by (demo_csv ''bad'') d}"
    by (simp add: demo_csv_defs)
  then show ?thesis
    using other_definitions_kept [OF run demo_csv_ok(2), of "demo_csv ''bad''"] run
    by (auto simp: demo_csv_cluster_def demo_csv_def)
qed

theorem definition_installed_witness:
  "\<exists>s1 s2 q. csv_Reconcile demo_csv_env (''ns'', ''op.v1'') (demo_csv_cluster ''g2'') = (s1, Returned q None) \<and>
     installed_as (demo_csv ''g2'') (demo_csv_md ''g2'') (vcDefs s1) \<and>
     csv_Reconcile demo_csv_env (''ns'', ''op.v1'') s1 = (s2, Returned Stop None) \<and> vcDefs s2 = vcDefs s1"
proof -
  have rb: "read_back (demo_csv_md ''g2'') = demo_csv_md ''g2''" by (simp add: read_back_def demo_csv_defs)
  have "\<exists>s1 s2 q. csv_Reconcile demo_csv_env (''ns'', ''op.v1'') (demo_csv_cluster ''g2'') = (s1, Returned q None) \<and>
    installed_as (demo_csv ''g2'') (demo_csv_md ''g2'') (vcDefs s1) \<and>
    csv_Reconcile demo_csv_env (''ns'', ''op.v1'') s1 =
      (s2, Returned (if read_back (demo_csv_md ''g2'') = demo_csv_md ''g2'' then Stop else RequeueNow) None) \<and>
    installed_as (demo_csv ''g2'') (demo_csv_md ''g2'') (vcDefs s2) \<and>
    (read_back (demo_csv_md ''g2'') = demo_csv_md ''g2'' \<longrightarrow> vcDefs s2 = vcDefs s1)"
    by (rule definition_installed [OF demo_csv_ok _ demo_csv_carries])
      (simp_all add: demo_csv_defs installable_def sole_def in_namespace_def read_back_def)
  then show ?thesis using rb by auto
qed

theorem unreadable_annotation_deletes_witness:
  "\<exists>s'. csv_Reconcile demo_csv_env (''ns'', ''op.v1'') (demo_csv_cluster ''bad'') =
       (s', Returned Stop (Some (KGo (Err ''name or generateName is required'')))) \<and>
     demo_stored_md \<in> set (vcDefs (demo_csv_cluster ''bad'')) \<and> demo_stored_md \<notin> set (vcDefs s')"
proof -
  have "\<exists>s'. csv_Reconcile demo_csv_env (''ns'', ''op.v1'') (demo_csv_cluster ''bad'') =
       (s', Returned Stop (Some (KGo (Err ''name or generateName is required'')))) \<and>
     set (vcDefs s') = set (vcDefs (demo_csv_cluster ''bad'')) - {demo_stored_md}"
    by (rule unreadable_annotation_deletes [OF demo_csv_ok, of _ _ "demo_csv ''bad''" "''bad''" "Err ''bad''"])
       (simp_all add: demo_csv_defs CSV_METERDEFINITION_ANNOTATION_def olmNamespace_def)
  then show ?thesis by (force simp: demo_csv_cluster_def)
qed

end
