(* ===== verification/MeterDefinitions.thy ===== *)
theory MeterDefinitions
  imports Signatures PromClients ServiceVersions
begin

text \<open>
  The controller of meter definitions
  (\<open>v2/internal/controller/marketplace/meterdefinition_controller.go\<close>, with the conditions of
  \<open>v2/api/marketplace/common/meterdefinition_status.go\<close>): it keeps the conditions of a
  definition's status and the preview of its queries.

  A run shares one copy of the definition (the instance) among its three retried
  attempts. The state is the stored definition, the meter base, the interfaces the
  Prometheus builder keeps and the number of calls made; failures of the API server are
  numbered by call. Writing the status is refused as a conflict when the version read is not the
  stored one; a write that succeeds brings the instance up to date.
\<close>

section \<open>State and API server\<close>

record 'pool mdef_state =
  dsDef :: "v1beta1_MeterDefinition option"
  dsMeterBase :: "MeterBase option"
  dsApis :: "'pool prometheusAPIs"
  dsCalls :: nat

type_synonym 'pool mdef_run = "v1beta1_MeterDefinition \<times> 'pool mdef_state"

record 'pool mdef_env =
  deFault :: "nat \<Rightarrow> kube_error option"
  deRetry :: "('pool mdef_run, kube_error) attempt \<Rightarrow> ('pool mdef_run, kube_error) attempt"
  deNow :: go_time
  deNowMillis :: int
  deValidate :: "v1beta1_MeterDefinition \<Rightarrow> go_error option"
  deClient :: "'pool client_env"
  deProm :: prom_env
  deQueryErrorText :: "query_error \<Rightarrow> string"
  deNamespace :: string
  deRequeueRate :: int

definition mdef_call :: "'pool mdef_state \<Rightarrow> 'pool mdef_state" where
  "mdef_call s = s\<lparr>dsCalls := Suc (dsCalls s)\<rparr>"

definition mdef_get :: "'pool mdef_env \<Rightarrow> ('pool mdef_run, kube_error) attempt" where
  "mdef_get E ms =
     (let (md, s) = ms; s1 = mdef_call s in
      case deFault E (dsCalls s) of
        Some e \<Rightarrow> ((md, s1), Some e)
      | None \<Rightarrow> (case dsDef s of None \<Rightarrow> ((md, s1), Some KNotFound) | Some d \<Rightarrow> ((d, s1), None)))"

definition mdef_status_update :: "'pool mdef_env \<Rightarrow> ('pool mdef_run, kube_error) attempt" where
  "mdef_status_update E ms =
     (let (md, s) = ms; s1 = mdef_call s in
      case deFault E (dsCalls s) of
        Some e \<Rightarrow> ((md, s1), Some e)
      | None \<Rightarrow>
          (case dsDef s of
             None \<Rightarrow> ((md, s1), Some KNotFound)
           | Some d \<Rightarrow>
               (if omVersion (bdMeta md) \<noteq> omVersion (bdMeta d) then ((md, s1), Some KConflict)
                else
                  (let d' = d\<lparr>bdStatus := bdStatus md, bdMeta := (bdMeta d)\<lparr>omVersion := Suc (omVersion (bdMeta d))\<rparr>\<rparr>
                   in ((d', s1\<lparr>dsDef := Some d'\<rparr>), None)))))"

section \<open>Conditions\<close>

definition mdef_condition :: "string \<Rightarrow> string \<Rightarrow> string \<Rightarrow> string \<Rightarrow> Condition" where
  "mdef_condition t st reason msg = \<lparr>cType = t, cStatus = st, cReason = reason, cMessage = msg, cLastTransitionTime = 0\<rparr>"

definition MeterDefConditionTypeHasResult :: string where "MeterDefConditionTypeHasResult = ''FoundMatches''"
definition MeterDefConditionTypeReporting :: string where "MeterDefConditionTypeReporting = ''Reporting''"
definition MeterDefConditionTypeSignatureVerified :: string where
  "MeterDefConditionTypeSignatureVerified = ''SignatureVerified''"
definition MeterDefQueryPreviewSetupError :: string where "MeterDefQueryPreviewSetupError = ''QueryPreviewSetupError''"
definition MeterDefVerifyReportingSetupError :: string where
  "MeterDefVerifyReportingSetupError = ''VerifyReportingSetupError''"
definition ConditionUserWorkloadMonitoringEnabled :: string where
  "ConditionUserWorkloadMonitoringEnabled = ''UserWorkloadMonitoringEnabled''"

definition MeterDefConditionNoResults :: Condition where
  "MeterDefConditionNoResults = mdef_condition MeterDefConditionTypeHasResult ConditionFalse ''No results in status''
     ''Meter definition has no results yet.''"
definition MeterDefConditionHasResults :: Condition where
  "MeterDefConditionHasResults = mdef_condition MeterDefConditionTypeHasResult ConditionTrue ''Results in status''
     ''Meter definition has results.''"
definition MeterDefConditionNotReporting :: Condition where
  "MeterDefConditionNotReporting = mdef_condition MeterDefConditionTypeReporting ConditionFalse ''Not Reporting''
     ''Prometheus is not reporting on MeterDefinition. Label name is not present.''"
definition MeterDefConditionReporting :: Condition where
  "MeterDefConditionReporting = mdef_condition MeterDefConditionTypeReporting ConditionTrue ''Is Reporting''
     ''Prometheus is reporting on MeterDefinition. Label name is present.''"
definition MeterDefConditionSignatureUnverified :: Condition where
  "MeterDefConditionSignatureUnverified = mdef_condition MeterDefConditionTypeSignatureVerified ConditionFalse
     ''Signature unverified'' ''Meter definition unsigned and unverified''"
definition MeterDefConditionSignatureVerified :: Condition where
  "MeterDefConditionSignatureVerified = mdef_condition MeterDefConditionTypeSignatureVerified ConditionTrue
     ''Signature verified'' ''Meter definition signature verified.''"
definition MeterDefConditionSignatureVerificationFailed :: Condition where
  "MeterDefConditionSignatureVerificationFailed = mdef_condition MeterDefConditionTypeSignatureVerified ConditionFalse
     ''Signature verification failed'' ''Meter definition signature verification failed.''"
definition VerifyReportingErrorCondition :: Condition where
  "VerifyReportingErrorCondition = mdef_condition MeterDefVerifyReportingSetupError ConditionTrue ''VerifyReportingError'' []"
definition PreviewErrorCondition :: Condition where
  "PreviewErrorCondition = mdef_condition MeterDefQueryPreviewSetupError ConditionTrue ''PreviewError'' []"

definition with_conditions :: "Conditions \<Rightarrow> v1beta1_MeterDefinition \<Rightarrow> v1beta1_MeterDefinition" where
  "with_conditions cs md = md\<lparr>bdStatus := (bdStatus md)\<lparr>mdsConditions := cs\<rparr>\<rparr>"

definition set_mdef :: "go_time \<Rightarrow> Condition \<Rightarrow> v1beta1_MeterDefinition \<Rightarrow> v1beta1_MeterDefinition \<times> bool" where
  "set_mdef now c md =
     (let (cs, changed) = SetCondition now c (mdsConditions (bdStatus md)) in (with_conditions cs md, changed))"

definition remove_mdef :: "string \<Rightarrow> v1beta1_MeterDefinition \<Rightarrow> v1beta1_MeterDefinition \<times> bool" where
  "remove_mdef t md =
     (let (cs, changed) = RemoveCondition t (mdsConditions (bdStatus md)) in (with_conditions cs md, changed))"

text \<open>The attempt that reads the definition, changes its status and writes it if something changed.\<close>

definition mdef_attempt ::
  "'pool mdef_env \<Rightarrow> (v1beta1_MeterDefinition \<Rightarrow> v1beta1_MeterDefinition \<times> bool) \<Rightarrow> ('pool mdef_run, kube_error) attempt" where
  "mdef_attempt E f ms =
     (case mdef_get E ms of
        (ms1, Some e) \<Rightarrow> (ms1, Some e)
      | ((md, s), None) \<Rightarrow>
          (case f md of (md', update) \<Rightarrow> if update then mdef_status_update E (md', s) else ((md', s), None)))"

definition signature_condition :: "'pool mdef_env \<Rightarrow> v1beta1_MeterDefinition \<Rightarrow> Condition" where
  "signature_condition E md =
     (if IsSigned md
      then (if deValidate E md \<noteq> None then MeterDefConditionSignatureVerificationFailed
            else MeterDefConditionSignatureVerified)
      else MeterDefConditionSignatureUnverified)"

definition results_condition :: "v1beta1_MeterDefinition \<Rightarrow> Condition" where
  "results_condition md =
     (if IsUnknownFor (mdsConditions (bdStatus md)) MeterDefConditionTypeHasResult then MeterDefConditionNoResults
      else if length (mdsWorkloadResources (bdStatus md)) = 0 then MeterDefConditionNoResults
      else MeterDefConditionHasResults)"

definition first_change :: "'pool mdef_env \<Rightarrow> v1beta1_MeterDefinition \<Rightarrow> v1beta1_MeterDefinition \<times> bool" where
  "first_change E md =
     (let r1 = or_else (set_mdef (deNow E) (signature_condition E md)) (md, False)
      in or_else (\<lambda>m. set_mdef (deNow E) (results_condition m) m) r1)"

definition reporting_change ::
  "'pool mdef_env \<Rightarrow> bool \<Rightarrow> string option \<Rightarrow> v1beta1_MeterDefinition \<Rightarrow> v1beta1_MeterDefinition \<times> bool" where
  "reporting_change E isReporting err md =
     (let r1 = or_else (set_mdef (deNow E) (if isReporting then MeterDefConditionReporting else MeterDefConditionNotReporting))
                 (md, False)
      in case err of
           Some msg \<Rightarrow> or_else (set_mdef (deNow E) (VerifyReportingErrorCondition\<lparr>cMessage := msg\<rparr>)) r1
         | None \<Rightarrow> or_else (remove_mdef MeterDefVerifyReportingSetupError) r1)"

definition preview_change ::
  "'pool mdef_env \<Rightarrow> string + Result list \<Rightarrow> v1beta1_MeterDefinition \<Rightarrow> v1beta1_MeterDefinition \<times> bool" where
  "preview_change E preview md =
     (case preview of
        Inl msg \<Rightarrow> or_else (set_mdef (deNow E) (PreviewErrorCondition\<lparr>cMessage := msg\<rparr>)) (md, False)
      | Inr results \<Rightarrow>
          (if length results \<noteq> 0
           then
             (let (md1, update) = or_else (remove_mdef MeterDefQueryPreviewSetupError) (md, False)
              in if results \<noteq> mdsResults (bdStatus md1)
                 then (md1\<lparr>bdStatus := (bdStatus md1)\<lparr>mdsResults := results\<rparr>\<rparr>, True) else (md1, update))
           else (md, False)))"

text \<open>The attempt for the preview works on the instance it finds, without reading it again.\<close>

definition preview_attempt :: "'pool mdef_env \<Rightarrow> string + Result list \<Rightarrow> ('pool mdef_run, kube_error) attempt" where
  "preview_attempt E preview ms =
     (let (md, s) = ms in
      case preview_change E preview md of
        (md', update) \<Rightarrow> if update then mdef_status_update E (md', s) else ((md', s), None))"

section \<open>Prometheus\<close>

fun reports_name :: "string \<Rightarrow> string list \<Rightarrow> bool" where
  "reports_name name [] = False"
| "reports_name name (v # vs) = (if v = name then True else reports_name name vs)"

definition verifyReporting :: "'pool mdef_env \<Rightarrow> v1beta1_MeterDefinition \<Rightarrow> 'pool mdef_state \<Rightarrow>
    'pool mdef_state \<times> bool \<times> string option" where
  "verifyReporting E md s =
     (case builder_Get (deClient E) (dsCalls s) (deNamespace E) (GetAPITypeFromFlag True) (dsApis s) of
        (apis, Inl err) \<Rightarrow> ((mdef_call s)\<lparr>dsApis := apis\<rparr>, False, Some (error_string err))
      | (apis, Inr _) \<Rightarrow>
          ((mdef_call s)\<lparr>dsApis := apis\<rparr>,
           (case MeterDefLabelValues (deProm E) (dsCalls s) (deNowMillis E) [] of
              Inl err \<Rightarrow> (False, Some (''error with query: '' @ deQueryErrorText E err))
            | Inr labelValues \<Rightarrow> (reports_name (omName (bdMeta md)) labelValues, None))))"

definition returnQueryRange :: "int \<Rightarrow> int \<Rightarrow> int \<times> int" where
  "returnQueryRange now duration = (let endTime = now - now mod hour in (endTime - duration, endTime))"

definition unix_seconds :: "int \<Rightarrow> int" where
  "unix_seconds t = (if t < 0 then - ((- t) div 1000) else t div 1000)"

definition preview_values :: "model_value \<Rightarrow> ResultValues list" where
  "preview_values val =
     (case val of
        ValMatrix matrix \<Rightarrow>
          concat (map (\<lambda>m. map (\<lambda>p. \<lparr>rvTimestamp = unix_seconds (spTimestamp p), rvValue = spValue p\<rparr>) (ssValues m)) matrix)
      | _ \<Rightarrow> [])"

text \<open>The preview of one meter. A meter without a period is a nil dereference.\<close>

definition preview_one :: "'pool mdef_env \<Rightarrow> nat \<Rightarrow> MeterDefPrometheusLabels \<Rightarrow> (string + Result) result" where
  "preview_one E n meterWorkload =
     (case plMetricPeriod meterWorkload of
        None \<Rightarrow> Inl (Panic ''nil pointer dereference'')
      | Some duration \<Rightarrow>
          (let (startTime, endTime) = returnQueryRange (deNowMillis E) duration in
           case PromQueryFromLabels meterWorkload startTime endTime of
             Inl err \<Rightarrow> Inl err
           | Inr query \<Rightarrow>
               (case query_Print (deProm E) query of
                  Inl (Panic m) \<Rightarrow> Inl (Panic m)
                | Inl (Err m) \<Rightarrow> Inr (Inl m)
                | Inr (query1, q) \<Rightarrow>
                    (case snd (Retry (\<lambda>i. ReportQuery (deProm E) (n + i)) 2 query1) of
                       Inl (QueryPanic err) \<Rightarrow> Inl err
                     | Inl err \<Rightarrow> Inr (Inl (''error with query: error with query: '' @ deQueryErrorText E err))
                     | Inr val \<Rightarrow>
                         Inr (Inr \<lparr>rsMetricName = plMetric meterWorkload, rsQuery = q, rsValues = preview_values val\<rparr>)))))"

fun preview_loop :: "'pool mdef_env \<Rightarrow> nat \<Rightarrow> MeterDefPrometheusLabels list \<Rightarrow> Result list \<Rightarrow> (string + Result list) result" where
  "preview_loop E n [] results = Inr (Inr results)"
| "preview_loop E n (l # ls) results =
     (case preview_one E n l of
        Inl err \<Rightarrow> Inl err
      | Inr (Inl msg) \<Rightarrow> Inr (Inl msg)
      | Inr (Inr r) \<Rightarrow> preview_loop E n ls (results @ [r]))"

definition generateQueryPreview :: "'pool mdef_env \<Rightarrow> nat \<Rightarrow> v1beta1_MeterDefinition \<Rightarrow> (string + Result list) result" where
  "generateQueryPreview E n md = preview_loop E n (beta_ToPrometheusLabels md) []"

definition queryPreview :: "'pool mdef_env \<Rightarrow> v1beta1_MeterDefinition \<Rightarrow> 'pool mdef_state \<Rightarrow>
    'pool mdef_state \<times> (string + Result list) result" where
  "queryPreview E md s =
     (case builder_Get (deClient E) (dsCalls s) (deNamespace E) (GetAPITypeFromFlag True) (dsApis s) of
        (apis, Inl err) \<Rightarrow> ((mdef_call s)\<lparr>dsApis := apis\<rparr>, Inr (Inl (error_string err)))
      | (apis, Inr _) \<Rightarrow> ((mdef_call s)\<lparr>dsApis := apis\<rparr>, generateQueryPreview E (dsCalls s) md))"

section \<open>The run\<close>

definition get_meterbase :: "'pool mdef_env \<Rightarrow> 'pool mdef_state \<Rightarrow> 'pool mdef_state \<times> (kube_error + MeterBase)" where
  "get_meterbase E s =
     (mdef_call s,
      case deFault E (dsCalls s) of
        Some e \<Rightarrow> Inl e
      | None \<Rightarrow> (case dsMeterBase s of None \<Rightarrow> Inl KNotFound | Some m \<Rightarrow> Inr m))"

definition monitoring_enabled :: "MeterBase \<Rightarrow> bool" where
  "monitoring_enabled m =
     IsTrueFor (case mbConditions m of None \<Rightarrow> [] | Some cs \<Rightarrow> cs) ConditionUserWorkloadMonitoringEnabled"

definition preview_step :: "'pool mdef_env \<Rightarrow> 'pool mdef_run \<Rightarrow> 'pool mdef_state \<times> kube_error reconcile_end" where
  "preview_step E ms =
     (let (md, s) = ms in
      case queryPreview E md s of
        (s1, Inl err) \<Rightarrow> (s1, Panicked (error_string err))
      | (s1, Inr preview) \<Rightarrow>
          (case deRetry E (preview_attempt E preview) (md, s1) of
             ((md2, s2), Some e) \<Rightarrow> (s2, Returned Stop (Some e))
           | ((md2, s2), None) \<Rightarrow>
               (s2, Returned (RequeueAfter (case preview of Inl _ \<Rightarrow> 300 | Inr _ \<Rightarrow> deRequeueRate E)) None)))"

definition reporting_step :: "'pool mdef_env \<Rightarrow> 'pool mdef_run \<Rightarrow> 'pool mdef_state \<times> kube_error reconcile_end" where
  "reporting_step E ms =
     (let (md, s) = ms in
      case verifyReporting E md s of
        (s1, isReporting, err) \<Rightarrow>
          (case deRetry E (mdef_attempt E (reporting_change E isReporting err)) (md, s1) of
             ((md2, s2), Some e) \<Rightarrow> (s2, Returned Stop (Some e))
           | ((md2, s2), None) \<Rightarrow>
               (if err \<noteq> None then (s2, Returned (RequeueAfter (deRequeueRate E)) None)
                else preview_step E (md2, s2))))"

definition mdef_Reconcile :: "'pool mdef_env \<Rightarrow> 'pool mdef_state \<Rightarrow> 'pool mdef_state \<times> kube_error reconcile_end" where
  "mdef_Reconcile E s =
     (case mdef_get E (zero_beta, s) of
        ((md, s1), Some e) \<Rightarrow> (s1, Returned Stop (if e = KNotFound then None else Some e))
      | ((md, s1), None) \<Rightarrow>
          (case deRetry E (mdef_attempt E (first_change E)) (md, s1) of
             ((md2, s2), Some e) \<Rightarrow> (s2, Returned Stop (Some e))
           | ((md2, s2), None) \<Rightarrow>
               (case get_meterbase E s2 of
                  (s3, Inl e) \<Rightarrow>
                    (if e = KNotFound then (s3, Returned (RequeueAfter (deRequeueRate E)) None)
                     else (s3, Returned Stop (Some e)))
                | (s3, Inr meterbase) \<Rightarrow>
                    (if \<not> monitoring_enabled meterbase then (s3, Returned (RequeueAfter (deRequeueRate E)) None)
                     else reporting_step E (md2, s3)))))"

section \<open>Changes of the status\<close>

text \<open>A change of the status leaves the rest alone, and leaves everything alone when it reports no change.\<close>

definition status_only :: "(v1beta1_MeterDefinition \<Rightarrow> v1beta1_MeterDefinition \<times> bool) \<Rightarrow> bool" where
  "status_only f \<longleftrightarrow>
     (\<forall>d d' u. f d = (d', u) \<longrightarrow> d' = d\<lparr>bdStatus := bdStatus d'\<rparr> \<and> (\<not> u \<longrightarrow> d' = d))"

lemma set_loop_unchanged: "SetCondition_loop nc cs = (cs', False) \<Longrightarrow> cs' = cs"
  by (induction cs arbitrary: cs') (auto simp: Let_def split: if_splits prod.splits)

lemma remove_unchanged: "RemoveCondition t cs = (cs', False) \<Longrightarrow> cs' = cs"
  by (induction cs arbitrary: cs') (auto split: if_splits prod.splits)

lemma status_only_set: "status_only (set_mdef now c)"
  unfolding status_only_def
  by (auto simp: set_mdef_def SetCondition_def with_conditions_def dest!: set_loop_unchanged split: prod.splits)

lemma status_only_remove: "status_only (remove_mdef t)"
  unfolding status_only_def
  by (auto simp: remove_mdef_def with_conditions_def dest!: remove_unchanged split: prod.splits)

lemma status_onlyD: "status_only f \<Longrightarrow> f d = (d', u) \<Longrightarrow> d' = d\<lparr>bdStatus := bdStatus d'\<rparr>"
  "status_only f \<Longrightarrow> f d = (d', False) \<Longrightarrow> d' = d"
  unfolding status_only_def by blast+

text \<open>Two changes, the second one only if the first one changed nothing.\<close>

lemma status_only_or_else:
  assumes "status_only f" "\<And>m. status_only (g m)"
  shows "status_only (\<lambda>md. or_else (\<lambda>m. g m m) (or_else f (md, False)))"
  unfolding status_only_def
proof (intro allI impI)
  fix d d' u
  assume run: "or_else (\<lambda>m. g m m) (or_else f (d, False)) = (d', u)"
  obtain d1 u1 where f: "f d = (d1, u1)" by fastforce
  note d1 = status_onlyD [OF assms(1)]
  show "d' = d\<lparr>bdStatus := bdStatus d'\<rparr> \<and> (\<not> u \<longrightarrow> d' = d)"
  proof (cases u1)
    case True
    then show ?thesis using run f d1(1) [OF f] by (simp add: or_else_def)
  next
    case False
    then have "d1 = d" using d1(2) [of d d1] f by simp
    then have "g d d = (d', u)" using run f False by (simp add: or_else_def)
    then show ?thesis using assms(2) [of d] unfolding status_only_def by blast
  qed
qed

lemma status_only_first: "status_only (first_change E)"
proof -
  have "first_change E md = or_else (\<lambda>m. set_mdef (deNow E) (results_condition m) m)
      (or_else (\<lambda>m. set_mdef (deNow E) (signature_condition E m) m) (md, False))" for md
    by (simp add: first_change_def or_else_def Let_def)
  moreover have "status_only (\<lambda>m. set_mdef (deNow E) (signature_condition E m) m)"
    using status_only_set [of "deNow E"] unfolding status_only_def by blast
  ultimately show ?thesis
    using status_only_or_else [of "\<lambda>m. set_mdef (deNow E) (signature_condition E m) m"
        "\<lambda>m. set_mdef (deNow E) (results_condition m)"] status_only_set by presburger
qed

lemma status_only_reporting: "status_only (reporting_change E rep err)"
proof (cases err)
  case None
  then show ?thesis unfolding reporting_change_def Let_def
    using status_only_or_else [of "set_mdef (deNow E) (if rep then MeterDefConditionReporting else MeterDefConditionNotReporting)"
        "\<lambda>m. remove_mdef MeterDefVerifyReportingSetupError"] status_only_set status_only_remove by simp
next
  case (Some msg)
  then show ?thesis unfolding reporting_change_def Let_def
    using status_only_or_else [of "set_mdef (deNow E) (if rep then MeterDefConditionReporting else MeterDefConditionNotReporting)"
        "\<lambda>m. set_mdef (deNow E) (VerifyReportingErrorCondition\<lparr>cMessage := msg\<rparr>)"] status_only_set by simp
qed

lemma status_only_preview: "status_only (preview_change E preview)"
  unfolding status_only_def
proof (intro allI impI)
  fix d d' u
  assume run: "preview_change E preview d = (d', u)"
  show "d' = d\<lparr>bdStatus := bdStatus d'\<rparr> \<and> (\<not> u \<longrightarrow> d' = d)"
  proof (cases preview)
    case (Inl msg)
    then show ?thesis using run status_only_set [of "deNow E"] unfolding status_only_def
      by (simp add: preview_change_def or_else_def)
  next
    case (Inr results)
    obtain d1 u1 where r: "remove_mdef MeterDefQueryPreviewSetupError d = (d1, u1)" by fastforce
    then have d1: "d1 = d\<lparr>bdStatus := bdStatus d1\<rparr>" "\<not> u1 \<Longrightarrow> d1 = d"
      using status_only_remove [of MeterDefQueryPreviewSetupError] unfolding status_only_def by blast+
    show ?thesis
    proof (cases "results = []")
      case False
      have d1_upd: "d1\<lparr>bdStatus := x\<rparr> = d\<lparr>bdStatus := x\<rparr>" for x by (subst d1(1)) simp
      show ?thesis
      proof (cases "results = mdsResults (bdStatus d1)")
        case True
        then show ?thesis using run Inr r d1 \<open>results \<noteq> []\<close> by (simp add: preview_change_def or_else_def)
      next
        case False
        then show ?thesis using run Inr r d1_upd \<open>results \<noteq> []\<close> by (auto simp: preview_change_def or_else_def)
      qed
    qed (use run Inr in \<open>simp add: preview_change_def\<close>)
  qed
qed

section \<open>Nothing but the status is written\<close>

text \<open>A definition without its version and status, and the parts of the state a run never changes.\<close>

definition strip :: "v1beta1_MeterDefinition \<Rightarrow> v1beta1_MeterDefinition" where
  "strip d = d\<lparr>bdMeta := (bdMeta d)\<lparr>omVersion := 0\<rparr>, bdStatus := \<lparr>mdsConditions = [], mdsWorkloadResources = [], mdsResults = []\<rparr>\<rparr>"

definition spec_kept :: "'pool mdef_state \<Rightarrow> 'pool mdef_run \<Rightarrow> bool" where
  "spec_kept s0 ms \<longleftrightarrow> map_option strip (dsDef (snd ms)) = map_option strip (dsDef s0) \<and>
     dsMeterBase (snd ms) = dsMeterBase s0"

lemma mdef_call_simps [simp]:
  "dsDef (mdef_call s) = dsDef s" "dsMeterBase (mdef_call s) = dsMeterBase s" "dsApis (mdef_call s) = dsApis s"
  by (simp_all add: mdef_call_def)

lemma spec_kept_update: "mdef_status_update E ms = (ms', err) \<Longrightarrow> spec_kept s0 ms \<Longrightarrow> spec_kept s0 ms'"
  by (auto simp: mdef_status_update_def spec_kept_def strip_def Let_def split: option.splits if_splits prod.splits)

lemma keeps_attempt: "keeps (spec_kept s0) (mdef_attempt E f)"
proof (rule keepsI)
  fix ms ms' err
  assume kept: "spec_kept s0 ms" and run: "mdef_attempt E f ms = (ms', err)"
  obtain ms1 e where g: "mdef_get E ms = (ms1, e)" by fastforce
  have k1: "spec_kept s0 (x, snd ms1)" for x
    using g kept by (auto simp: mdef_get_def spec_kept_def Let_def split: option.splits prod.splits)
  show "spec_kept s0 ms'"
  proof (cases e)
    case None
    obtain md s where ms1: "ms1 = (md, s)" by fastforce
    obtain md' u where f: "f md = (md', u)" by fastforce
    show ?thesis using run g None ms1 f k1 [of md'] spec_kept_update [of E "(md', s)" ms' err s0]
      by (cases u) (auto simp: mdef_attempt_def)
  next
    case (Some x)
    then show ?thesis using run g k1 [of "fst ms1"] by (simp add: mdef_attempt_def)
  qed
qed

lemma keeps_preview: "keeps (spec_kept s0) (preview_attempt E preview)"
proof (rule keepsI)
  fix ms ms' err
  assume kept: "spec_kept s0 ms" and run: "preview_attempt E preview ms = (ms', err)"
  obtain md s where ms: "ms = (md, s)" by fastforce
  obtain md' u where f: "preview_change E preview md = (md', u)" by fastforce
  have "spec_kept s0 (md', s)" using kept ms by (simp add: spec_kept_def)
  then show "spec_kept s0 ms'" using run ms f spec_kept_update [of E "(md', s)" ms' err s0]
    by (cases u) (auto simp: preview_attempt_def)
qed

lemma spec_kept_state: "spec_kept s0 (md, s) \<longleftrightarrow> spec_kept s0 (md', s)"
  by (simp add: spec_kept_def)

lemma spec_kept_apis [simp]: "spec_kept s0 (md, s\<lparr>dsApis := a\<rparr>) = spec_kept s0 (md, s)"
  "spec_kept s0 (md, mdef_call s) = spec_kept s0 (md, s)"
  by (simp_all add: spec_kept_def)

lemma preview_step_kept:
  assumes "retry_ok ((=) KConflict) (deRetry E)" "spec_kept s0 (md, s)" "preview_step E (md, s) = (s', r)"
  shows "spec_kept s0 (md', s')"
proof -
  obtain s1 p where q: "queryPreview E md s = (s1, p)" by fastforce
  have k1: "spec_kept s0 (md, s1)" using q assms(2)
    by (auto simp: queryPreview_def split: prod.splits sum.splits)
  show ?thesis
  proof (cases p)
    case (Inl err)
    then show ?thesis using assms(3) q k1 by (simp add: preview_step_def spec_kept_def)
  next
    case (Inr preview)
    obtain md2 s2 e where a: "deRetry E (preview_attempt E preview) (md, s1) = ((md2, s2), e)" by (metis surj_pair)
    have "spec_kept s0 (md2, s2)"
      using keepsD [OF keeps_retry [OF assms(1) keeps_preview] k1 a] .
    then show ?thesis using assms(3) q Inr a by (auto simp: preview_step_def spec_kept_def split: option.splits)
  qed
qed

lemma reporting_step_kept:
  assumes "retry_ok ((=) KConflict) (deRetry E)" "spec_kept s0 (md, s)" "reporting_step E (md, s) = (s', r)"
  shows "spec_kept s0 (md', s')"
proof -
  obtain s1 rep err where v: "verifyReporting E md s = (s1, rep, err)" by (metis prod_cases3)
  have k1: "spec_kept s0 (md, s1)" using v assms(2)
    by (auto simp: verifyReporting_def split: prod.splits sum.splits)
  obtain md2 s2 e where a: "deRetry E (mdef_attempt E (reporting_change E rep err)) (md, s1) = ((md2, s2), e)"
    by (metis surj_pair)
  have k2: "spec_kept s0 (md2, s2)" using keepsD [OF keeps_retry [OF assms(1) keeps_attempt] k1 a] .
  show ?thesis
  proof (cases "e = None \<and> err = None")
    case True
    then have "preview_step E (md2, s2) = (s', r)" using assms(3) v a by (simp add: reporting_step_def)
    then show ?thesis using preview_step_kept [OF assms(1) k2] by blast
  next
    case False
    then show ?thesis using assms(3) v a k2
      by (auto simp: reporting_step_def spec_kept_def split: option.splits if_splits)
  qed
qed

text \<open>
  Whatever calls fail and whatever Prometheus answers, a run of the controller leaves the
  stored definition's metadata and specification as they are, creates and deletes
  nothing, and does not touch the meter base.
\<close>

theorem only_status_written:
  assumes "retry_ok ((=) KConflict) (deRetry E)" "mdef_Reconcile E s = (s', r)"
  shows "map_option strip (dsDef s') = map_option strip (dsDef s) \<and> dsMeterBase s' = dsMeterBase s"
proof -
  obtain md s1 e where g: "mdef_get E (zero_beta, s) = ((md, s1), e)" by (metis surj_pair)
  have k1: "spec_kept s (md, s1)"
    using g by (auto simp: mdef_get_def spec_kept_def Let_def split: option.splits)
  obtain md2 s2 e2 where a: "deRetry E (mdef_attempt E (first_change E)) (md, s1) = ((md2, s2), e2)" by (metis surj_pair)
  have k2: "spec_kept s (md2, s2)" using keepsD [OF keeps_retry [OF assms(1) keeps_attempt] k1 a] .
  obtain s3 m where b: "get_meterbase E s2 = (s3, m)" by fastforce
  have k3: "spec_kept s (md2, s3)" using b k2 by (auto simp: get_meterbase_def)
  have "spec_kept s (md2, s')"
  proof (cases "e = None \<and> e2 = None \<and> (\<exists>mb. m = Inr mb \<and> monitoring_enabled mb)")
    case True
    then have "reporting_step E (md2, s3) = (s', r)" using assms(2) g a b by (auto simp: mdef_Reconcile_def)
    then show ?thesis using reporting_step_kept [OF assms(1) k3] by blast
  next
    case False
    then show ?thesis using assms(2) g a b k1 k2 k3
      by (auto simp: mdef_Reconcile_def spec_kept_def split: option.splits sum.splits if_splits)
  qed
  then show ?thesis by (simp add: spec_kept_def)
qed

section \<open>Runs without failing calls\<close>

definition mdef_no_faults :: "'pool mdef_env \<Rightarrow> bool" where
  "mdef_no_faults E \<longleftrightarrow> (\<forall>n. deFault E n = None)"

definition stamp :: "v1beta1_MeterDefinition \<Rightarrow> v1beta1_MeterDefinition" where
  "stamp d = d\<lparr>bdMeta := (bdMeta d)\<lparr>omVersion := Suc (omVersion (bdMeta d))\<rparr>\<rparr>"

definition stored_after :: "v1beta1_MeterDefinition \<times> bool \<Rightarrow> v1beta1_MeterDefinition" where
  "stored_after r = (if snd r then stamp (fst r) else fst r)"

text \<open>An attempt on the stored definition succeeds at once and leaves the instance up to date.\<close>

lemma update_ok:
  assumes "mdef_no_faults E" "dsDef s = Some d" "d' = d\<lparr>bdStatus := bdStatus d'\<rparr>"
  shows "\<exists>s'. mdef_status_update E (d', s) = ((stamp d', s'), None) \<and> dsDef s' = Some (stamp d') \<and>
    dsMeterBase s' = dsMeterBase s \<and> dsApis s' = dsApis s"
proof -
  have d': "bdMeta d' = bdMeta d" by (subst assms(3)) simp
  have "d\<lparr>bdStatus := bdStatus d', bdMeta := x\<rparr> = d'\<lparr>bdMeta := x\<rparr>" for x by (subst (2) assms(3)) simp
  then show ?thesis using assms(1,2) d' by (simp add: mdef_status_update_def mdef_no_faults_def stamp_def Let_def)
qed

lemma attempt_ok:
  assumes "retry_ok ((=) KConflict) (deRetry E)" "mdef_no_faults E" "dsDef s = Some d" "status_only f"
  shows "\<exists>s'. deRetry E (mdef_attempt E f) (md, s) = ((stored_after (f d), s'), None) \<and>
    dsDef s' = Some (stored_after (f d)) \<and> dsMeterBase s' = dsMeterBase s \<and> dsApis s' = dsApis s"
proof -
  obtain d' u where f: "f d = (d', u)" by fastforce
  have g: "mdef_get E (md, s) = ((d, mdef_call s), None)" using assms(2,3) by (simp add: mdef_get_def mdef_no_faults_def)
  obtain s' where s': "mdef_attempt E f (md, s) = ((stored_after (f d), s'), None)" "dsDef s' = Some (stored_after (f d))"
    "dsMeterBase s' = dsMeterBase s" "dsApis s' = dsApis s"
  proof (cases u)
    case True
    then show thesis
      using that update_ok [of E "mdef_call s" d d'] assms(2,3) status_onlyD(1) [OF assms(4) f] f g
      by (auto simp: mdef_attempt_def stored_after_def)
  next
    case False
    then have "d' = d" using status_onlyD(2) [OF assms(4), of d d'] f by simp
    then show thesis using that [of "mdef_call s"] f g False assms(3) by (simp add: mdef_attempt_def stored_after_def)
  qed
  then show ?thesis using retry_ok_first [where f = "mdef_attempt E f", OF assms(1) s'(1)] by blast
qed

text \<open>What the first attempt is about: the identity, the workloads and two of the conditions.\<close>

definition found_view where
  "found_view d = (strip d, mdsWorkloadResources (bdStatus d),
     GetCondition (mdsConditions (bdStatus d)) MeterDefConditionTypeHasResult,
     GetCondition (mdsConditions (bdStatus d)) MeterDefConditionTypeSignatureVerified)"

lemma found_view_stamp [simp]: "found_view (stamp d) = found_view d"
  by (simp add: found_view_def stamp_def strip_def)

lemma found_view_stored: "found_view (stored_after r) = found_view (fst r)"
  by (simp add: stored_after_def)

lemma remove_get_other: "u \<noteq> t \<Longrightarrow> GetCondition (fst (RemoveCondition t cs)) u = GetCondition cs u"
  by (induction cs) (auto split: prod.splits)

lemmas mdef_types = MeterDefConditionTypeHasResult_def MeterDefConditionTypeReporting_def
  MeterDefConditionTypeSignatureVerified_def MeterDefQueryPreviewSetupError_def MeterDefVerifyReportingSetupError_def

lemma set_mdef_fst: "fst (set_mdef now c md) = with_conditions (fst (SetCondition now c (mdsConditions (bdStatus md)))) md"
  by (simp add: set_mdef_def split: prod.split)

lemma found_view_set:
  assumes "cType c \<noteq> MeterDefConditionTypeHasResult" "cType c \<noteq> MeterDefConditionTypeSignatureVerified"
  shows "found_view (fst (set_mdef now c d)) = found_view d"
  using assms by (simp add: set_mdef_fst found_view_def strip_def with_conditions_def SetCondition_def set_loop_get)

lemma found_view_remove:
  assumes "t \<noteq> MeterDefConditionTypeHasResult" "t \<noteq> MeterDefConditionTypeSignatureVerified"
  shows "found_view (fst (remove_mdef t d)) = found_view d"
  using assms remove_get_other [of MeterDefConditionTypeHasResult t "mdsConditions (bdStatus d)"]
    remove_get_other [of MeterDefConditionTypeSignatureVerified t "mdsConditions (bdStatus d)"]
  by (auto simp: remove_mdef_def found_view_def strip_def with_conditions_def split: prod.splits)

lemma found_view_reporting: "found_view (fst (reporting_change E rep err d)) = found_view d"
  by (cases err)
     (simp_all add: reporting_change_def or_else_def Let_def found_view_set found_view_remove mdef_types
       MeterDefConditionReporting_def MeterDefConditionNotReporting_def VerifyReportingErrorCondition_def mdef_condition_def)

lemma found_view_preview: "found_view (fst (preview_change E preview d)) = found_view d"
proof (cases preview)
  case (Inl msg)
  then show ?thesis by (simp add: preview_change_def or_else_def found_view_set mdef_types PreviewErrorCondition_def mdef_condition_def)
next
  case (Inr results)
  have res: "found_view (x\<lparr>bdStatus := (bdStatus x)\<lparr>mdsResults := rs\<rparr>\<rparr>) = found_view x" for x rs
    by (simp add: found_view_def strip_def)
  have "found_view (fst (remove_mdef MeterDefQueryPreviewSetupError d)) = found_view d"
    by (rule found_view_remove) (simp_all add: mdef_types)
  then show ?thesis using Inr res by (auto simp: preview_change_def or_else_def split: prod.splits)
qed

lemma preview_step_view:
  assumes "retry_ok ((=) KConflict) (deRetry E)" "mdef_no_faults E" "dsDef s = Some d" "preview_step E (d, s) = (s', r)"
  shows "\<exists>d'. dsDef s' = Some d' \<and> found_view d' = found_view d"
proof -
  obtain s1 p where q: "queryPreview E d s = (s1, p)" by fastforce
  have s1: "dsDef s1 = Some d" using q assms(3) by (auto simp: queryPreview_def split: prod.splits sum.splits)
  show ?thesis
  proof (cases p)
    case (Inl err)
    then show ?thesis using assms(4) q s1 by (simp add: preview_step_def)
  next
    case (Inr preview)
    obtain d' u where f: "preview_change E preview d = (d', u)" by fastforce
    obtain s2 where s2: "preview_attempt E preview (d, s1) = ((stored_after (d', u), s2), None)"
      "dsDef s2 = Some (stored_after (d', u))"
    proof (cases u)
      case True
      then show thesis using that update_ok [OF assms(2) s1, of d'] status_onlyD(1) [OF status_only_preview f] f
        by (auto simp: preview_attempt_def stored_after_def)
    next
      case False
      then have "d' = d" using status_onlyD(2) [OF status_only_preview, of E preview d d'] f by simp
      then show thesis using that [of s1] f False s1 by (simp add: preview_attempt_def stored_after_def)
    qed
    have "s' = s2" using assms(4) q Inr retry_ok_first [where f = "preview_attempt E preview", OF assms(1) s2(1)] by (simp add: preview_step_def split: sum.splits)
    then show ?thesis using s2(2) found_view_preview [of E preview d] f by (simp add: found_view_stored)
  qed
qed

lemma reporting_step_view:
  assumes "retry_ok ((=) KConflict) (deRetry E)" "mdef_no_faults E" "dsDef s = Some d" "reporting_step E (d, s) = (s', r)"
  shows "\<exists>d'. dsDef s' = Some d' \<and> found_view d' = found_view d"
proof -
  obtain s1 rep err where v: "verifyReporting E d s = (s1, rep, err)" by (metis prod_cases3)
  have s1: "dsDef s1 = Some d" using v assms(3) by (auto simp: verifyReporting_def split: prod.splits sum.splits)
  obtain s2 where s2: "deRetry E (mdef_attempt E (reporting_change E rep err)) (d, s1) =
      ((stored_after (reporting_change E rep err d), s2), None)" "dsDef s2 = Some (stored_after (reporting_change E rep err d))"
    using attempt_ok [OF assms(1,2) s1 status_only_reporting] by blast
  have view: "found_view (stored_after (reporting_change E rep err d)) = found_view d"
    by (simp add: found_view_stored found_view_reporting)
  show ?thesis
  proof (cases "err = None")
    case True
    then have "preview_step E (stored_after (reporting_change E rep err d), s2) = (s', r)"
      using assms(4) v s2 by (simp add: reporting_step_def)
    then show ?thesis using preview_step_view [OF assms(1,2) s2(2)] view by simp
  qed (use assms(4) v s2 view in \<open>auto simp: reporting_step_def\<close>)
qed

lemma run_view:
  assumes "retry_ok ((=) KConflict) (deRetry E)" "mdef_no_faults E" "dsDef s = Some d"
  shows "\<exists>d'. dsDef (fst (mdef_Reconcile E s)) = Some d' \<and> found_view d' = found_view (fst (first_change E d))"
proof -
  have g: "mdef_get E (zero_beta, s) = ((d, mdef_call s), None)" using assms(2,3) by (simp add: mdef_get_def mdef_no_faults_def)
  let ?d = "stored_after (first_change E d)"
  obtain s2 where s2: "deRetry E (mdef_attempt E (first_change E)) (d, mdef_call s) = ((?d, s2), None)" "dsDef s2 = Some ?d"
    using attempt_ok [OF assms(1,2), of "mdef_call s" d "first_change E" d] status_only_first assms(3) by auto
  obtain s3 m where b: "get_meterbase E s2 = (s3, m)" by fastforce
  have s3: "dsDef s3 = Some ?d" using b s2(2) by (auto simp: get_meterbase_def)
  obtain s' r where run: "mdef_Reconcile E s = (s', r)" by fastforce
  show ?thesis
  proof (cases "\<exists>mb. m = Inr mb \<and> monitoring_enabled mb")
    case True
    then have "reporting_step E (?d, s3) = (s', r)" using run g s2 b by (auto simp: mdef_Reconcile_def)
    then show ?thesis using reporting_step_view [OF assms(1,2) s3] run by (auto simp: found_view_stored)
  next
    case False
    then have "dsDef s' = Some ?d" using run g s2 b s3
      by (auto simp: mdef_Reconcile_def split: sum.splits if_splits)
    then show ?thesis using run by (simp add: found_view_stored)
  qed
qed

section \<open>The conditions that are reached\<close>

definition signature_settled :: "'pool mdef_env \<Rightarrow> v1beta1_MeterDefinition \<Rightarrow> bool" where
  "signature_settled E d \<longleftrightarrow>
     map_option says (GetCondition (mdsConditions (bdStatus d)) MeterDefConditionTypeSignatureVerified) =
       Some (says (signature_condition E d))"

definition found_says :: "v1beta1_MeterDefinition \<Rightarrow> (string \<times> string \<times> string) option" where
  "found_says d = map_option says (GetCondition (mdsConditions (bdStatus d)) MeterDefConditionTypeHasResult)"

lemma set_mdef_flag:
  "snd (set_mdef now c d) \<longleftrightarrow> map_option says (GetCondition (mdsConditions (bdStatus d)) (cType c)) \<noteq> Some (says c)"
proof -
  have "snd (set_mdef now c d) = snd (SetCondition_loop (c\<lparr>cLastTransitionTime := now\<rparr>) (mdsConditions (bdStatus d)))"
    by (simp add: set_mdef_def SetCondition_def split: prod.split)
  then show ?thesis by (simp add: set_loop_changed_iff says_def)
qed

lemma set_mdef_get:
  "map_option says (GetCondition (mdsConditions (bdStatus (fst (set_mdef now c d)))) t) =
     (if t = cType c then Some (says c) else map_option says (GetCondition (mdsConditions (bdStatus d)) t))"
  by (simp add: set_mdef_fst with_conditions_def SetCondition_def set_loop_get says_def split: option.split)

lemma signature_type: "cType (signature_condition E d) = MeterDefConditionTypeSignatureVerified"
  by (simp add: signature_condition_def MeterDefConditionSignatureVerificationFailed_def
      MeterDefConditionSignatureVerified_def MeterDefConditionSignatureUnverified_def mdef_condition_def)

lemma results_type: "cType (results_condition d) = MeterDefConditionTypeHasResult"
  by (simp add: results_condition_def MeterDefConditionNoResults_def MeterDefConditionHasResults_def mdef_condition_def)

text \<open>The signature's condition is dealt with first; the matches only once it does not change any more.\<close>

lemma first_change_unsettled:
  assumes "\<not> signature_settled E d"
  shows "first_change E d = (fst (set_mdef (deNow E) (signature_condition E d) d), True)"
proof -
  have "snd (set_mdef (deNow E) (signature_condition E d) d)"
    using assms by (simp add: signature_settled_def set_mdef_flag signature_type)
  then show ?thesis by (cases "set_mdef (deNow E) (signature_condition E d) d") (simp add: first_change_def or_else_def)
qed

lemma first_change_settled:
  assumes "signature_settled E d"
  shows "first_change E d = set_mdef (deNow E) (results_condition d) d"
proof -
  have unchanged: "\<not> snd (set_mdef (deNow E) (signature_condition E d) d)"
    using assms by (simp add: signature_settled_def set_mdef_flag signature_type)
  then have "fst (set_mdef (deNow E) (signature_condition E d) d) = d"
    using status_onlyD(2) [OF status_only_set] by (metis prod.collapse)
  then show ?thesis using unchanged by (simp add: first_change_def or_else_def Let_def)
qed

text \<open>The verdict on a signature does not depend on version and status.\<close>

definition validates_spec :: "'pool mdef_env \<Rightarrow> bool" where
  "validates_spec E \<longleftrightarrow> (\<forall>a b. strip a = strip b \<longrightarrow> deValidate E a = deValidate E b)"

lemma strip_IsSigned: "strip a = strip b \<Longrightarrow> IsSigned a = IsSigned b"
proof -
  assume "strip a = strip b"
  then have "omAnnotations (bdMeta (strip a)) = omAnnotations (bdMeta (strip b))" by simp
  then show ?thesis by (simp add: strip_def IsSigned_def annotation_of_def)
qed

lemma signature_condition_strip:
  assumes "validates_spec E" "strip a = strip b"
  shows "signature_condition E a = signature_condition E b"
proof -
  have "deValidate E a = deValidate E b" using assms unfolding validates_spec_def by blast
  then show ?thesis using strip_IsSigned [OF assms(2)] by (simp add: signature_condition_def)
qed

lemma found_view_eq:
  assumes "found_view a = found_view b" "validates_spec E"
  shows "strip a = strip b \<and> mdsWorkloadResources (bdStatus a) = mdsWorkloadResources (bdStatus b) \<and>
    found_says a = found_says b \<and> (signature_settled E a \<longleftrightarrow> signature_settled E b)"
  using assms signature_condition_strip [OF assms(2), of a b]
  by (auto simp: found_view_def found_says_def signature_settled_def)

lemma first_change_keeps:
  "strip (fst (first_change E d)) = strip d \<and>
   mdsWorkloadResources (bdStatus (fst (first_change E d))) = mdsWorkloadResources (bdStatus d)"
  by (cases "signature_settled E d")
     (simp_all add: first_change_settled first_change_unsettled set_mdef_fst with_conditions_def strip_def)

text \<open>One run, as far as the two conditions go.\<close>

lemma run_settles:
  assumes "retry_ok ((=) KConflict) (deRetry E)" "mdef_no_faults E" "validates_spec E" "dsDef s = Some d"
  shows "\<exists>d'. dsDef (fst (mdef_Reconcile E s)) = Some d' \<and> strip d' = strip d \<and>
    mdsWorkloadResources (bdStatus d') = mdsWorkloadResources (bdStatus d) \<and> signature_settled E d' \<and>
    found_says d' = (if signature_settled E d then Some (says (results_condition d)) else found_says d)"
proof -
  obtain d' where d': "dsDef (fst (mdef_Reconcile E s)) = Some d'" "found_view d' = found_view (fst (first_change E d))"
    using run_view [OF assms(1,2,4)] by blast
  note view = found_view_eq [OF d'(2) assms(3)]
  have sig: "signature_condition E (fst (first_change E d)) = signature_condition E d"
    by (rule signature_condition_strip [OF assms(3)]) (simp add: first_change_keeps)
  have types: "MeterDefConditionTypeHasResult \<noteq> MeterDefConditionTypeSignatureVerified" by (simp add: mdef_types)
  have after: "signature_settled E (fst (first_change E d)) \<and> found_says (fst (first_change E d)) =
      (if signature_settled E d then Some (says (results_condition d)) else found_says d)"
  proof (cases "signature_settled E d")
    case True
    then show ?thesis using sig types
      by (auto simp: first_change_settled [OF True] set_mdef_get results_type found_says_def signature_settled_def)
  next
    case False
    then show ?thesis using sig types
      by (auto simp: first_change_unsettled [OF False] set_mdef_get signature_type found_says_def signature_settled_def)
  qed
  show ?thesis using d'(1) view after first_change_keeps [of E d] by auto
qed

lemma IsTrueFor_get: "IsTrueFor cs t \<longleftrightarrow> (\<exists>c. GetCondition cs t = Some c \<and> IsTrue c)"
  by (induction cs) auto

lemma IsUnknownFor_get: "IsUnknownFor cs t \<longleftrightarrow> (\<forall>c. GetCondition cs t = Some c \<longrightarrow> IsUnknown c)"
  by (induction cs) auto

lemma results_known:
  assumes "found_says d = Some (says (results_condition x))"
  shows "results_condition d = (if mdsWorkloadResources (bdStatus d) = [] then MeterDefConditionNoResults else MeterDefConditionHasResults)"
proof -
  have "\<not> IsUnknownFor (mdsConditions (bdStatus d)) MeterDefConditionTypeHasResult"
    using assms by (auto simp: IsUnknownFor_get found_says_def says_def IsUnknown_def results_condition_def
        MeterDefConditionNoResults_def MeterDefConditionHasResults_def mdef_condition_def ConditionUnknown_def
        ConditionTrue_def ConditionFalse_def split: if_splits)
  then show ?thesis by (simp add: results_condition_def)
qed

text \<open>
  C24: After three runs without failing calls the stored conditions tell the truth: the matches
  are reported exactly when workloads were found, and the signature as verified exactly
  when the definition is signed and the verification accepts it.
\<close>

theorem conditions_converge:
  assumes "retry_ok ((=) KConflict) (deRetry E)" "mdef_no_faults E" "validates_spec E" "dsDef s = Some d"
  shows "\<exists>d'. dsDef (fst (mdef_Reconcile E (fst (mdef_Reconcile E (fst (mdef_Reconcile E s)))))) = Some d' \<and>
    strip d' = strip d \<and>
    (IsTrueFor (mdsConditions (bdStatus d')) MeterDefConditionTypeHasResult \<longleftrightarrow> mdsWorkloadResources (bdStatus d) \<noteq> []) \<and>
    (IsTrueFor (mdsConditions (bdStatus d')) MeterDefConditionTypeSignatureVerified \<longleftrightarrow>
       IsSigned d \<and> deValidate E d = None)"
proof -
  obtain d1 where d1: "dsDef (fst (mdef_Reconcile E s)) = Some d1" "strip d1 = strip d"
    "mdsWorkloadResources (bdStatus d1) = mdsWorkloadResources (bdStatus d)" "signature_settled E d1"
    using run_settles [OF assms] by blast
  obtain d2 where d2: "dsDef (fst (mdef_Reconcile E (fst (mdef_Reconcile E s)))) = Some d2" "strip d2 = strip d1"
    "mdsWorkloadResources (bdStatus d2) = mdsWorkloadResources (bdStatus d1)" "signature_settled E d2"
    "found_says d2 = Some (says (results_condition d1))"
    using run_settles [OF assms(1-3) d1(1)] d1(4) by auto
  obtain d3 where d3: "dsDef (fst (mdef_Reconcile E (fst (mdef_Reconcile E (fst (mdef_Reconcile E s)))))) = Some d3"
    "strip d3 = strip d2" "signature_settled E d3" "found_says d3 = Some (says (results_condition d2))"
    using run_settles [OF assms(1-3) d2(1)] d2(4) by auto
  have found: "IsTrueFor (mdsConditions (bdStatus d3)) MeterDefConditionTypeHasResult \<longleftrightarrow> mdsWorkloadResources (bdStatus d) \<noteq> []"
    using d3(4) results_known [OF d2(5)] d2(3) d1(3)
    by (auto simp: IsTrueFor_get found_says_def says_def IsTrue_def MeterDefConditionNoResults_def
        MeterDefConditionHasResults_def mdef_condition_def ConditionTrue_def ConditionFalse_def split: if_splits)
  have strip: "strip d3 = strip d" using d3(2) d2(2) d1(2) by simp
  have "signature_condition E d3 = signature_condition E d" by (rule signature_condition_strip [OF assms(3) strip])
  then have "IsTrueFor (mdsConditions (bdStatus d3)) MeterDefConditionTypeSignatureVerified \<longleftrightarrow> IsSigned d \<and> deValidate E d = None"
    using d3(3) by (auto simp: IsTrueFor_get signature_settled_def says_def IsTrue_def signature_condition_def
        MeterDefConditionSignatureVerificationFailed_def MeterDefConditionSignatureVerified_def
        MeterDefConditionSignatureUnverified_def mdef_condition_def ConditionTrue_def ConditionFalse_def split: if_splits)
  then show ?thesis using d3(1) strip found by blast
qed

text \<open>
  A new definition needs the three runs: after the first one it has no condition about its
  matches at all, and after the second one the condition denies them, whatever workloads were found.
\<close>

theorem found_matches_delayed:
  assumes "retry_ok ((=) KConflict) (deRetry E)" "mdef_no_faults E" "validates_spec E" "dsDef s = Some d"
    and "mdsConditions (bdStatus d) = []"
  shows "\<exists>d1 d2. dsDef (fst (mdef_Reconcile E s)) = Some d1 \<and>
    GetCondition (mdsConditions (bdStatus d1)) MeterDefConditionTypeHasResult = None \<and>
    dsDef (fst (mdef_Reconcile E (fst (mdef_Reconcile E s)))) = Some d2 \<and>
    found_says d2 = Some (says MeterDefConditionNoResults)"
proof -
  have none: "\<not> signature_settled E d" "found_says d = None"
    using assms(5) by (simp_all add: signature_settled_def found_says_def)
  then obtain d1 where d1: "dsDef (fst (mdef_Reconcile E s)) = Some d1" "signature_settled E d1" "found_says d1 = None"
    using run_settles [OF assms(1-4)] by auto
  obtain d2 where d2: "dsDef (fst (mdef_Reconcile E (fst (mdef_Reconcile E s)))) = Some d2"
    "found_says d2 = Some (says (results_condition d1))"
    using run_settles [OF assms(1-3) d1(1)] d1(2) by auto
  have "results_condition d1 = MeterDefConditionNoResults"
    using d1(3) by (simp add: results_condition_def IsUnknownFor_get found_says_def)
  then show ?thesis using d1 d2 by (auto simp: found_says_def)
qed

section \<open>Previews\<close>

text \<open>
  The period of a meter is optional, but the preview dereferences it: a run that gets to
  the preview of a definition whose first meter has none panics.
\<close>

theorem missing_period_panics:
  assumes "bdMeters d = m # ms" "mwPeriod m = None"
    and "builder_Get (deClient E) (dsCalls s) (deNamespace E) UserWorkload (dsApis s) = (apis, Inr api)"
  shows "\<exists>s'. preview_step E (d, s) = (s', Panicked ''nil pointer dereference'')"
  using assms by (simp add: preview_step_def queryPreview_def GetAPITypeFromFlag_def generateQueryPreview_def
      beta_ToPrometheusLabels_def spec_ToPrometheusLabels_def beta_spec_def meter_labels_def preview_one_def)

lemma reports_name_iff: "reports_name name vs \<longleftrightarrow> name \<in> set vs"
  by (induction vs) auto

text \<open>The verdict on reporting: the name is among the values of the label, and there is no error.\<close>

lemma verifyReporting_iff:
  assumes "verifyReporting E d s = (s', rep, None)"
  shows "\<exists>vs. MeterDefLabelValues (deProm E) (dsCalls s) (deNowMillis E) [] = Inr vs \<and>
    (rep \<longleftrightarrow> omName (bdMeta d) \<in> set vs)"
  using assms by (auto simp: verifyReporting_def reports_name_iff split: prod.splits sum.splits)

section \<open>Witnesses\<close>

definition demo_mdef_env :: "string list mdef_env" where
  "demo_mdef_env = \<lparr>deFault = (\<lambda>n. None), deRetry = demo_retry (Suc 0) ((=) KConflict), deNow = 7, deNowMillis = 0,
     deValidate = (\<lambda>d. None), deClient = demo_client_env, deProm = prom_env.truncate demo_build, deQueryErrorText = (\<lambda>e. []),
     deNamespace = ''ns'', deRequeueRate = 3600\<rparr>"

definition demo_workload :: WorkloadResource where
  "demo_workload = \<lparr>wrReferencedWorkloadName = [], wrNamespace = ''ns'', wrName = ''pod'', wrUID = ''u'',
     wrAPIVersion = ''v1'', wrKind = ''Pod''\<rparr>"

definition demo_mdef :: v1beta1_MeterDefinition where
  "demo_mdef = demo_beta\<lparr>bdMeters := map (\<lambda>m. m\<lparr>mwPeriod := None\<rparr>) (bdMeters demo_beta),
     bdStatus := \<lparr>mdsConditions = [], mdsWorkloadResources = [demo_workload], mdsResults = []\<rparr>\<rparr>"

definition demo_mdef_state :: "string list mdef_state" where
  "demo_mdef_state = \<lparr>dsDef = Some demo_mdef, dsMeterBase = None, dsApis = Map.empty, dsCalls = 1\<rparr>"

lemma demo_mdef_env_ok:
  "retry_ok ((=) KConflict) (deRetry demo_mdef_env)" "mdef_no_faults demo_mdef_env" "validates_spec demo_mdef_env"
  using demo_retry_ok [of "(=) KConflict" 0] by (simp_all add: demo_mdef_env_def mdef_no_faults_def validates_spec_def)

lemma demo_mdef_stored: "dsDef demo_mdef_state = Some demo_mdef"
  by (simp add: demo_mdef_state_def)

theorem only_status_written_witness:
  "map_option strip (dsDef (fst (mdef_Reconcile demo_mdef_env demo_mdef_state))) = Some (strip demo_mdef)"
proof -
  obtain s' r where run: "mdef_Reconcile demo_mdef_env demo_mdef_state = (s', r)" by fastforce
  show ?thesis using only_status_written [OF demo_mdef_env_ok(1) run] run demo_mdef_stored by simp
qed

theorem conditions_converge_witness:
  "\<exists>d'. dsDef (fst (mdef_Reconcile demo_mdef_env (fst (mdef_Reconcile demo_mdef_env
       (fst (mdef_Reconcile demo_mdef_env demo_mdef_state)))))) = Some d' \<and>
     IsTrueFor (mdsConditions (bdStatus d')) MeterDefConditionTypeHasResult"
  using conditions_converge [OF demo_mdef_env_ok demo_mdef_stored] by (auto simp: demo_mdef_def)

theorem found_matches_delayed_witness:
  "\<exists>d2. dsDef (fst (mdef_Reconcile demo_mdef_env (fst (mdef_Reconcile demo_mdef_env demo_mdef_state)))) = Some d2 \<and>
     found_says d2 = Some (says MeterDefConditionNoResults)"
  using found_matches_delayed [OF demo_mdef_env_ok demo_mdef_stored] by (auto simp: demo_mdef_def)

theorem missing_period_panics_witness:
  "\<exists>s'. preview_step demo_mdef_env (demo_mdef, demo_mdef_state) = (s', Panicked ''nil pointer dereference'')"
proof -
  obtain m where m: "bdMeters demo_mdef = m # []" "mwPeriod m = None" by (simp add: demo_mdef_def demo_beta_def)
  have "builder_Get (deClient demo_mdef_env) (dsCalls demo_mdef_state) (deNamespace demo_mdef_env) UserWorkload
      (dsApis demo_mdef_state) = ([UserWorkload \<mapsto> demo_client], Inr demo_client)"
    by (simp add: demo_mdef_env_def demo_mdef_state_def builder_Get_def builder_set_def demo_client_built)
  then show ?thesis using missing_period_panics [OF m] by blast
qed

end
