(* ===== verification/MeterBases.thy ===== *)
theory MeterBases
  imports MeterDefinitions
begin

text \<open>
  The controller of the meter base
  (\<open>v2/internal/controller/marketplace/meterbase_controller.go\<close>, with
  \<open>v2/api/marketplace/v1alpha1/meterbase_types.go\<close>, \<open>GetDefaultStorageClass\<close> of
  \<open>v2/pkg/utils/k8s.go\<close> and \<open>CreateOrUpdate\<close> of \<open>v2/pkg/manifests/factory.go\<close>): it checks the
  user workload monitoring of the cluster, installs the metering objects and keeps the
  conditions of the meter base.

  The objects the manifest factory builds are fields of an environment, as are the parser
  of the monitoring configuration and \<open>controllerutil.CreateOrUpdate\<close>. A run shares its
  instance of the meter base among its attempts; failures of the API server are numbered by call.
\<close>

section \<open>State\<close>

record meter_base =
  meVersion :: nat
  meFinalizers :: "string list"
  meEnabled :: bool
  meUserWorkloadMonitoringEnabled :: "bool option"
  meDataServiceEnabled :: "bool option"
  meStorageClassName :: "string option"
  meRouteSpec :: "string option"
  meRouteDisabled :: "bool option"
  meConditions :: Conditions
  meReplicas :: "(int \<times> int \<times> int \<times> int) option"

definition IsDataServiceEnabled :: "meter_base \<Rightarrow> bool" where
  "IsDataServiceEnabled m = (case meDataServiceEnabled m of None \<Rightarrow> True | Some b \<Rightarrow> b)"

record StatefulSetStatus =
  stReplicas :: int
  stUpdatedReplicas :: int
  stReadyReplicas :: int
  stCurrentReplicas :: int

record cron_job =
  cjOwned :: bool
  cjJobTemplate :: string
  cjConcurrencyPolicy :: string
  cjFailedJobsHistoryLimit :: "int option"
  cjSuccessfulJobsHistoryLimit :: "int option"

record 'obj base_cluster =
  bcMeterBase :: "meter_base option"
  bcConfig :: "MarketplaceConfig option"
  bcConfigMaps :: "string \<times> string \<rightharpoonup> smap"
  bcStorageClasses :: "(string \<times> smap) list"
  bcObjects :: "string \<rightharpoonup> 'obj"
  bcCronJob :: "cron_job option"
  bcStatefulSet :: "StatefulSetStatus option"
  bcEvents :: "string list"
  bcCalls :: nat

type_synonym 'obj base_run = "meter_base \<times> 'obj base_cluster"

text \<open>The Prometheus part of the user workload configuration: its retention and the storage it requests.\<close>

record uwm_prometheus =
  upRetention :: string
  upStorage :: "int option"

record 'obj base_env =
  beFault :: "nat \<Rightarrow> kube_error option"
  beRetry :: "('obj base_run, kube_error) attempt \<Rightarrow> ('obj base_run, kube_error) attempt"
  beRetryPlain :: "('obj base_cluster, kube_error) attempt \<Rightarrow> ('obj base_cluster, kube_error) attempt"
  beNow :: go_time
  beHasOpenshift :: bool
  beOpenshift46 :: bool
  beParseCluster :: "string \<Rightarrow> bool option result"
  beParseUserWorkload :: "string \<Rightarrow> uwm_prometheus option result"
  beParseDuration :: "string \<Rightarrow> int result"
  beManifest :: "string \<Rightarrow> 'obj result"
  beSetControllerReference :: "'obj \<Rightarrow> 'obj"
  beMerge :: "'obj \<Rightarrow> 'obj \<Rightarrow> 'obj result"
  beCreateOrUpdate :: "string \<Rightarrow> 'obj \<Rightarrow> ('obj \<Rightarrow> 'obj result) \<Rightarrow> ('obj base_cluster, kube_error) attempt"
  beCronJob :: "bool \<Rightarrow> bool \<Rightarrow> cron_job result"
  beCreateOrUpdateCron :: "cron_job \<Rightarrow> (cron_job \<Rightarrow> cron_job result) \<Rightarrow> ('obj base_cluster, kube_error) attempt"

section \<open>API server\<close>

definition base_call :: "'obj base_cluster \<Rightarrow> 'obj base_cluster" where
  "base_call s = s\<lparr>bcCalls := Suc (bcCalls s)\<rparr>"

definition base_read :: "'obj base_env \<Rightarrow> ('obj base_cluster \<Rightarrow> 'a option) \<Rightarrow> 'obj base_cluster \<Rightarrow>
    'obj base_cluster \<times> (kube_error + 'a)" where
  "base_read E sel s =
     (base_call s,
      case beFault E (bcCalls s) of
        Some e \<Rightarrow> Inl e
      | None \<Rightarrow> (case sel s of None \<Rightarrow> Inl KNotFound | Some x \<Rightarrow> Inr x))"

definition base_get :: "'obj base_env \<Rightarrow> ('obj base_run, kube_error) attempt" where
  "base_get E ms =
     (let (m, s) = ms in
      case base_read E bcMeterBase s of
        (s1, Inl e) \<Rightarrow> ((m, s1), Some e)
      | (s1, Inr stored) \<Rightarrow> ((stored, s1), None))"

text \<open>A write of the object keeps the stored status, a write of the status the rest.\<close>

definition base_write :: "'obj base_env \<Rightarrow> (meter_base \<Rightarrow> meter_base \<Rightarrow> meter_base) \<Rightarrow> ('obj base_run, kube_error) attempt" where
  "base_write E f ms =
     (let (m, s) = ms; s1 = base_call s in
      case beFault E (bcCalls s) of
        Some e \<Rightarrow> ((m, s1), Some e)
      | None \<Rightarrow>
          (case bcMeterBase s of
             None \<Rightarrow> ((m, s1), Some KNotFound)
           | Some stored \<Rightarrow>
               (if meVersion m \<noteq> meVersion stored then ((m, s1), Some KConflict)
                else (let m' = (f m stored)\<lparr>meVersion := Suc (meVersion stored)\<rparr>
                      in ((m', s1\<lparr>bcMeterBase := Some m'\<rparr>), None)))))"

definition base_update :: "'obj base_env \<Rightarrow> ('obj base_run, kube_error) attempt" where
  "base_update E = base_write E (\<lambda>m stored. m\<lparr>meConditions := meConditions stored, meReplicas := meReplicas stored\<rparr>)"

definition base_status_update :: "'obj base_env \<Rightarrow> ('obj base_run, kube_error) attempt" where
  "base_status_update E = base_write E (\<lambda>m stored. stored\<lparr>meConditions := meConditions m, meReplicas := meReplicas m\<rparr>)"

text \<open>Read, change and write the meter base or its status.\<close>

definition base_attempt ::
  "'obj base_env \<Rightarrow> ('obj base_run, kube_error) attempt \<Rightarrow> (meter_base \<Rightarrow> meter_base \<times> bool) \<Rightarrow>
     ('obj base_run, kube_error) attempt" where
  "base_attempt E wr f ms =
     (case base_get E ms of
        (ms1, Some e) \<Rightarrow> (ms1, Some e)
      | ((m, s), None) \<Rightarrow> (case f m of (m', update) \<Rightarrow> if update then wr (m', s) else ((m', s), None)))"

definition set_base :: "go_time \<Rightarrow> Condition \<Rightarrow> meter_base \<Rightarrow> meter_base \<times> bool" where
  "set_base now c m =
     (let (cs, changed) = SetCondition now c (meConditions m) in (m\<lparr>meConditions := cs\<rparr>, changed))"

section \<open>User workload monitoring\<close>

datatype uwm_error =
    ErrRetentionTime | ErrInsufficientStorageConfiguration | ErrParseUserWorkloadConfiguration string
  | ErrUserWorkloadMonitoringConfigNotFound | UwmOther kube_error

definition isEnableUserWorkloadConfigMap :: "'obj base_env \<Rightarrow> smap \<Rightarrow> bool result" where
  "isEnableUserWorkloadConfigMap E data =
     (case data ''config.yaml'' of
        None \<Rightarrow> Inr False
      | Some config \<Rightarrow>
          (case beParseCluster E config of
             Inl err \<Rightarrow> Inl err
           | Inr enabled \<Rightarrow> Inr (case enabled of None \<Rightarrow> False | Some b \<Rightarrow> b)))"

text \<open>An error is only logged by the caller, who goes on with \<open>False\<close>.\<close>

definition isUserWorkloadMonitoringEnabledOnCluster :: "'obj base_env \<Rightarrow> 'obj base_cluster \<Rightarrow> 'obj base_cluster \<times> bool" where
  "isUserWorkloadMonitoringEnabledOnCluster E s =
     (if \<not> beHasOpenshift E \<or> \<not> beOpenshift46 E then (s, False)
      else
        (case base_read E (\<lambda>s. bcConfigMaps s (''openshift-monitoring'', ''cluster-monitoring-config'')) s of
           (s1, Inl e) \<Rightarrow> (s1, False)
         | (s1, Inr cm) \<Rightarrow> (s1, (case isEnableUserWorkloadConfigMap E cm of Inl err \<Rightarrow> False | Inr b \<Rightarrow> b))))"

definition GiB :: int where "GiB = 2 ^ 30"

text \<open>Durations are nanoseconds.\<close>

definition week_ns :: int where "week_ns = 168 * 3600 * 1000000000"

definition isUserWorkLoadMonitoringConfigValid :: "'obj base_env \<Rightarrow> smap \<Rightarrow> bool \<times> uwm_error option" where
  "isUserWorkLoadMonitoringConfigValid E data =
     (case data ''config.yaml'' of
        None \<Rightarrow> (False, Some (ErrParseUserWorkloadConfiguration []))
      | Some config \<Rightarrow>
          (case beParseUserWorkload E config of
             Inl err \<Rightarrow> (False, Some (ErrParseUserWorkloadConfiguration (error_string err)))
           | Inr None \<Rightarrow>
               (False, Some (ErrParseUserWorkloadConfiguration ''could not find prometheus spec in user workload config''))
           | Inr (Some prom) \<Rightarrow>
               (case beParseDuration E (upRetention prom) of
                  Inl err \<Rightarrow> (False, Some (ErrParseUserWorkloadConfiguration (error_string err)))
                | Inr foundRetention \<Rightarrow>
                    (if foundRetention < week_ns then (False, Some ErrRetentionTime)
                     else
                       (case upStorage prom of
                          None \<Rightarrow>
                            (False, Some (ErrParseUserWorkloadConfiguration
                               ''could not find Prometheus.VolumeClaimTemplate in user workload config''))
                        | Some foundStorage \<Rightarrow>
                            (if foundStorage < 40 * GiB then (False, Some ErrInsufficientStorageConfiguration)
                             else (True, None)))))))"

definition validateUserWorkLoadMonitoringConfig :: "'obj base_env \<Rightarrow> 'obj base_cluster \<Rightarrow>
    'obj base_cluster \<times> bool \<times> uwm_error option" where
  "validateUserWorkLoadMonitoringConfig E s =
     (case base_read E (\<lambda>s. bcConfigMaps s (''openshift-user-workload-monitoring'', ''user-workload-monitoring-config'')) s of
        (s1, Inl e) \<Rightarrow>
          (s1, False, Some (if e = KNotFound then ErrUserWorkloadMonitoringConfigNotFound else UwmOther e))
      | (s1, Inr cm) \<Rightarrow> (s1, isUserWorkLoadMonitoringConfigValid E cm))"

definition zero_condition :: Condition where
  "zero_condition = \<lparr>cType = [], cStatus = [], cReason = [], cMessage = [], cLastTransitionTime = 0\<rparr>"

definition UserWorkloadMonitoringEnabled :: Condition where
  "UserWorkloadMonitoringEnabled = mdef_condition ConditionUserWorkloadMonitoringEnabled ConditionTrue
     ''UserWorkloadMonitoringEnabled''
     ''UserWorkloadMonitoring is enabled in the Meterbase Spec, is enabled on the Cluster, and user-workload-monitoring configmap is configured correctly''"

definition UserWorkloadMonitoringDisabledSpec :: Condition where
  "UserWorkloadMonitoringDisabledSpec = mdef_condition ConditionUserWorkloadMonitoringEnabled ConditionFalse
     ''UserWorkloadMonitoringSpecDisabled'' ''UserWorkloadMonitoring is disabled in the Meterbase Spec''"

definition UserWorkloadMonitoringDisabledOnCluster :: Condition where
  "UserWorkloadMonitoringDisabledOnCluster = mdef_condition ConditionUserWorkloadMonitoringEnabled ConditionFalse
     ''UserWorkloadMonitoringClusterDisabled'' ''UserWorkloadMonitoring is unavailable or disabled on the Cluster''"

text \<open>
  The conditions for errors of the configuration are declared in inner blocks with \<open>:=\<close> and
  are gone at the end of these blocks; the condition that is returned does not change there.
\<close>

definition getUserWorkloadMonitoringCondition :: "bool \<Rightarrow> bool \<Rightarrow> bool \<Rightarrow> uwm_error option \<Rightarrow> Condition" where
  "getUserWorkloadMonitoringCondition enabledSpec enabledOnCluster configurationSet configurationErr =
     (let condition = zero_condition;
          condition1 = (if enabledSpec \<and> enabledOnCluster \<and> configurationSet then UserWorkloadMonitoringEnabled else condition);
          condition2 = (if \<not> enabledSpec then UserWorkloadMonitoringDisabledSpec else condition1);
          condition3 = (if \<not> enabledOnCluster then UserWorkloadMonitoringDisabledOnCluster else condition2)
      in condition3)"

section \<open>Installed objects\<close>

text \<open>\<open>Factory.CreateOrUpdate\<close>: the object is built once more inside, without looking at the error.\<close>

definition Factory_CreateOrUpdate ::
  "'obj base_env \<Rightarrow> bool \<Rightarrow> string \<Rightarrow> ('obj base_cluster, kube_error) attempt" where
  "Factory_CreateOrUpdate E owner name s =
     (case beManifest E name of
        Inl err \<Rightarrow> (s, Some (KGo err))
      | Inr obj \<Rightarrow>
          beRetryPlain E (beCreateOrUpdate E name obj
            (\<lambda>current. case beManifest E name of
                Inl err \<Rightarrow> Inl (Panic ''nil pointer dereference'')
              | Inr updateObj \<Rightarrow>
                  beMerge E current (if owner then beSetControllerReference E updateObj else updateObj))) s)"

definition delete_object :: "'obj base_env \<Rightarrow> string \<Rightarrow> ('obj base_cluster, kube_error) attempt" where
  "delete_object E name s =
     (case beManifest E name of
        Inl err \<Rightarrow> (s, Some (KGo err))
      | Inr _ \<Rightarrow>
          (case beFault E (bcCalls s) of
             Some e \<Rightarrow> (base_call s, if e = KNotFound then None else Some e)
           | None \<Rightarrow> ((base_call s)\<lparr>bcObjects := (bcObjects s)(name := None)\<rparr>, None)))"

definition installMetricStateDeployment :: "'obj base_env \<Rightarrow> ('obj base_cluster, kube_error) attempt" where
  "installMetricStateDeployment E =
     run_steps (map (Factory_CreateOrUpdate E True)
       [''MetricStateDeployment'', ''MetricStateService'', ''MetricStateServiceMonitor'', ''KubeStateMetricsService''])"

definition is_default_class :: "smap \<Rightarrow> bool" where
  "is_default_class ann \<longleftrightarrow>
     ann ''storageclass.kubernetes.io/is-default-class'' = Some ''true'' \<or>
     ann ''storageclass.beta.kubernetes.io/is-default-class'' = Some ''true''"

datatype storage_error = DefaultStorageClassNotFound | MultipleDefaultStorageClassFound | StorageOther kube_error

definition GetDefaultStorageClass :: "'obj base_env \<Rightarrow> 'obj base_cluster \<Rightarrow> 'obj base_cluster \<times> (storage_error + string)" where
  "GetDefaultStorageClass E s =
     (base_call s,
      case beFault E (bcCalls s) of
        Some e \<Rightarrow> Inl (StorageOther e)
      | None \<Rightarrow>
          (case map fst (filter (\<lambda>c. is_default_class (snd c)) (bcStorageClasses s)) of
             [] \<Rightarrow> Inl DefaultStorageClassNotFound
           | [name] \<Rightarrow> Inr name
           | _ \<Rightarrow> Inl MultipleDefaultStorageClassFound))"

definition checkUWMDefaultStorageClassPrereq :: "'obj base_env \<Rightarrow> ('obj base_cluster, kube_error) attempt" where
  "checkUWMDefaultStorageClassPrereq E s =
     (case GetDefaultStorageClass E s of
        (s1, Inr _) \<Rightarrow> (s1, None)
      | (s1, Inl DefaultStorageClassNotFound) \<Rightarrow> (s1\<lparr>bcEvents := bcEvents s1 @ [''DefaultClassNotFound'']\<rparr>, None)
      | (s1, Inl MultipleDefaultStorageClassFound) \<Rightarrow> (s1, Some (KGo (Err ''multiple default storage classes found'')))
      | (s1, Inl (StorageOther e)) \<Rightarrow> (s1, Some e))"

definition installMeterDefinitions :: "'obj base_env \<Rightarrow> MarketplaceConfig \<Rightarrow> ('obj base_cluster, kube_error) attempt" where
  "installMeterDefinitions E config =
     run_steps ([delete_object E ''UserWorkloadMonitoringMeterDefinition'', delete_object E ''ReporterMeterDefinition''] @
       (case GetCondition (cfConditions config) ''RHMAccountExists'' of
          None \<Rightarrow> [delete_object E ''MetricStateMeterDefinition'']
        | Some cond \<Rightarrow>
            (if IsFalse cond then [delete_object E ''MetricStateMeterDefinition'']
             else if IsTrue cond then [Factory_CreateOrUpdate E True ''MetricStateMeterDefinition''] else [])))"

definition cron_mutation :: "cron_job \<Rightarrow> cron_job \<Rightarrow> cron_job" where
  "cron_mutation orig current =
     current\<lparr>cjOwned := True, cjJobTemplate := cjJobTemplate orig, cjConcurrencyPolicy := cjConcurrencyPolicy orig,
             cjFailedJobsHistoryLimit := cjFailedJobsHistoryLimit orig,
             cjSuccessfulJobsHistoryLimit := cjSuccessfulJobsHistoryLimit orig\<rparr>"

definition createReporterCronJob :: "'obj base_env \<Rightarrow> bool \<Rightarrow> bool \<Rightarrow> ('obj base_cluster, kube_error) attempt" where
  "createReporterCronJob E userWorkloadEnabled isDisconnected s =
     (case beCronJob E userWorkloadEnabled isDisconnected of
        Inl err \<Rightarrow> (s, Some (KGo err))
      | Inr cronJob \<Rightarrow>
          beRetryPlain E (beCreateOrUpdateCron E cronJob
            (\<lambda>current. case beCronJob E userWorkloadEnabled isDisconnected of
                Inl err \<Rightarrow> Inl err
              | Inr orig \<Rightarrow> Inr (cron_mutation orig current))) s)"

definition deleteReporterCronJob :: "'obj base_env \<Rightarrow> bool \<Rightarrow> ('obj base_cluster, kube_error) attempt" where
  "deleteReporterCronJob E isDisconnected s =
     (case beCronJob E False isDisconnected of
        Inl err \<Rightarrow> (s, Some (KGo err))
      | Inr _ \<Rightarrow>
          (case beFault E (bcCalls s) of
             Some e \<Rightarrow> (base_call s, if e = KNotFound then None else Some e)
           | None \<Rightarrow> ((base_call s)\<lparr>bcCronJob := None\<rparr>, None)))"

section \<open>The run\<close>

definition remove_finalizer :: "meter_base \<Rightarrow> meter_base \<times> bool" where
  "remove_finalizer m =
     (if ''finalizer.marketplace.redhat.com'' \<in> set (meFinalizers m)
      then (m\<lparr>meFinalizers := filter (\<lambda>f. f \<noteq> ''finalizer.marketplace.redhat.com'') (meFinalizers m)\<rparr>, True)
      else (m, False))"

definition MeterBaseStartInstall :: Condition where
  "MeterBaseStartInstall = mdef_condition ''Installing'' ConditionTrue ''StartMeterBaseInstall'' ''MeterBase install started''"

definition MeterBaseFinishInstall :: Condition where
  "MeterBaseFinishInstall = mdef_condition ''Installing'' ConditionFalse ''FinishedMeterBaseInstall'' ''MeterBase install complete''"

text \<open>
  The comparison of the status with its copy compares a struct with a pointer, which are
  never equal: the status is always written. The difference of the replicas is one of 32 bits.
\<close>

definition replica_change :: "StatefulSetStatus \<Rightarrow> meter_base \<Rightarrow> meter_base \<times> bool" where
  "replica_change st m =
     (m\<lparr>meReplicas := Some (stReplicas st, stUpdatedReplicas st, stReadyReplicas st,
                          (stCurrentReplicas st - stReadyReplicas st + 2 ^ 31) mod 2 ^ 32 - 2 ^ 31)\<rparr>, True)"

text \<open>What installs the objects, up to the first error.\<close>

definition install_steps :: "'obj base_env \<Rightarrow> meter_base \<Rightarrow> MarketplaceConfig \<Rightarrow> ('obj base_cluster, kube_error) attempt" where
  "install_steps E m config =
     run_steps [checkUWMDefaultStorageClassPrereq E, installMetricStateDeployment E, installMeterDefinitions E config,
       (if IsDataServiceEnabled m then createReporterCronJob E True (ToBool (cfIsDisconnected config))
        else deleteReporterCronJob E (ToBool (cfIsDisconnected config)))]"

definition status_steps :: "'obj base_env \<Rightarrow> 'obj base_run \<Rightarrow> 'obj base_cluster \<times> kube_error reconcile_end" where
  "status_steps E ms =
     (let (m, s) = ms in
      case base_read E bcStatefulSet s of
        (s1, Inl e) \<Rightarrow> (s1, if e = KNotFound then Returned (RequeueAfter 60) None else Returned Stop (Some e))
      | (s1, Inr st) \<Rightarrow>
          (case beRetry E (base_attempt E (base_status_update E) (replica_change st)) (m, s1) of
             ((m2, s2), Some e) \<Rightarrow> (s2, Returned Stop (Some e))
           | (ms2, None) \<Rightarrow>
               (case beRetry E (base_attempt E (base_status_update E) (set_base (beNow E) MeterBaseFinishInstall)) ms2 of
                  ((m3, s3), Some e) \<Rightarrow> (s3, Returned Stop (Some e))
                | ((m3, s3), None) \<Rightarrow> (s3, Returned (RequeueAfter 3600) None))))"

definition install_phase :: "'obj base_env \<Rightarrow> 'obj base_run \<Rightarrow> 'obj base_cluster \<times> kube_error reconcile_end" where
  "install_phase E ms =
     (let (m, s) = ms in
      case base_read E bcConfig s of
        (s1, Inl e) \<Rightarrow> (s1, Returned Stop (if e = KNotFound then None else Some e))
      | (s1, Inr config) \<Rightarrow>
          (if cfDeleting config then (s1, Returned Stop None)
           else
             (case install_steps E m config s1 of
                (s2, Some e) \<Rightarrow> (s2, Returned Stop (Some e))
              | (s2, None) \<Rightarrow> status_steps E (m, s2))))"

definition start_phase :: "'obj base_env \<Rightarrow> 'obj base_run \<Rightarrow> 'obj base_cluster \<times> kube_error reconcile_end" where
  "start_phase E ms =
     (if IsUnknownFor (meConditions (fst ms)) ''Installing''
      then (case beRetry E (base_attempt E (base_status_update E) (set_base (beNow E) MeterBaseStartInstall)) ms of
              ((m1, s1), Some e) \<Rightarrow> (s1, Returned Stop (Some e))
            | (ms1, None) \<Rightarrow> install_phase E ms1)
      else install_phase E ms)"

definition condition_phase :: "'obj base_env \<Rightarrow> bool \<Rightarrow> 'obj base_run \<Rightarrow> 'obj base_cluster \<times> kube_error reconcile_end" where
  "condition_phase E onCluster ms =
     (let (m, s) = ms in
      case validateUserWorkLoadMonitoringConfig E s of
        (s1, valid, err) \<Rightarrow>
          (case beRetry E (base_attempt E (base_status_update E)
                  (set_base (beNow E) (getUserWorkloadMonitoringCondition True onCluster valid err))) (m, s1) of
             ((m2, s2), Some e) \<Rightarrow> (s2, Returned Stop (Some e))
           | (ms2, None) \<Rightarrow> start_phase E ms2))"

definition base_Reconcile :: "'obj base_env \<Rightarrow> meter_base \<Rightarrow> 'obj base_cluster \<Rightarrow> 'obj base_cluster \<times> kube_error reconcile_end" where
  "base_Reconcile E zero s =
     (case base_get E (zero, s) of
        ((m, s1), Some e) \<Rightarrow> (s1, Returned Stop (if e = KNotFound then None else Some e))
      | (ms1, None) \<Rightarrow>
          (case beRetry E (base_attempt E (base_update E) remove_finalizer) ms1 of
             ((m2, s2), Some e) \<Rightarrow> (s2, Returned Stop (Some e))
           | ((m2, s2), None) \<Rightarrow>
               (if \<not> meEnabled m2 then (s2, Returned Stop None)
                else
                  (case isUserWorkloadMonitoringEnabledOnCluster E s2 of
                     (s3, onCluster) \<Rightarrow>
                       (if \<not> ToBool (meUserWorkloadMonitoringEnabled m2)
                        then (case beRetry E (base_attempt E (base_update E)
                                     (\<lambda>m. (m\<lparr>meUserWorkloadMonitoringEnabled := Some True\<rparr>, True))) (m2, s3) of
                                ((m4, s4), Some e) \<Rightarrow> (s4, Returned Stop (Some e))
                              | (ms4, None) \<Rightarrow> condition_phase E onCluster ms4)
                        else condition_phase E onCluster (m2, s3))))))"

section \<open>Which events concern the meter base\<close>

definition reconcileForMeterDef :: "string \<Rightarrow> string \<Rightarrow> string \<Rightarrow> bool" where
  "reconcileForMeterDef deployedNamespace meterdefNamespace meterdefName \<longleftrightarrow>
     meterdefNamespace = ''openshift-user-workload-monitoring'' \<and> meterdefName = ''prometheus-user-workload-uptime'' \<or>
     meterdefNamespace = deployedNamespace \<and>
       meterdefName \<in> set [''rhm-prometheus-meterbase-uptime'', ''rhm-metric-state-uptime'', ''rhm-meter-report-job-failed'']"

definition isOpenshiftMonitoringObj :: "string \<Rightarrow> string \<Rightarrow> bool" where
  "isOpenshiftMonitoringObj name namespace \<longleftrightarrow>
     name = ''cluster-monitoring-config'' \<and> namespace = ''openshift-monitoring'' \<or>
     name = ''user-workload-monitoring-config'' \<and> namespace = ''openshift-user-workload-monitoring'' \<or>
     name = ''kubelet-serving-ca-bundle'' \<and> namespace = ''openshift-monitoring''"

fun getCategoriesFromMeterDefinitions :: "smap list \<Rightarrow> string list \<Rightarrow> string list" where
  "getCategoriesFromMeterDefinitions [] categoryList = categoryList"
| "getCategoriesFromMeterDefinitions (labels # rest) categoryList =
     (let v = (case labels ''marketplace.redhat.com/category'' of None \<Rightarrow> [] | Some v \<Rightarrow> v)
      in getCategoriesFromMeterDefinitions rest (if v \<in> set categoryList then categoryList else categoryList @ [v]))"

section \<open>The configuration of the monitoring\<close>

text \<open>
  The configuration is valid exactly when it can be read, keeps data for at least 168
  hours and requests at least 40 GiB.
\<close>

theorem configuration_valid_iff:
  "fst (isUserWorkLoadMonitoringConfigValid E data) \<longleftrightarrow>
     (\<exists>config prom retention storage. data ''config.yaml'' = Some config \<and>
        beParseUserWorkload E config = Inr (Some prom) \<and> beParseDuration E (upRetention prom) = Inr retention \<and>
        168 * 3600 * 1000000000 \<le> retention \<and> upStorage prom = Some storage \<and> 42949672960 \<le> storage)"
  by (auto simp: isUserWorkLoadMonitoringConfigValid_def week_ns_def GiB_def split: option.splits sum.splits)

lemma valid_no_error: "isUserWorkLoadMonitoringConfigValid E data = (v, err) \<Longrightarrow> v \<longleftrightarrow> err = None"
  by (auto simp: isUserWorkLoadMonitoringConfigValid_def split: option.splits sum.splits if_splits)

section \<open>Runs without failing calls\<close>

definition base_no_faults :: "'obj base_env \<Rightarrow> bool" where
  "base_no_faults E \<longleftrightarrow> (\<forall>n. beFault E n = None)"

text \<open>What the calls that create or update objects leave alone: the meter base and the configuration maps.\<close>

definition base_kept :: "'obj base_cluster \<Rightarrow> 'obj base_cluster \<Rightarrow> bool" where
  "base_kept s0 s \<longleftrightarrow> bcMeterBase s = bcMeterBase s0 \<and> bcConfigMaps s = bcConfigMaps s0"

definition objects_only :: "'obj base_env \<Rightarrow> bool" where
  "objects_only E \<longleftrightarrow>
     (\<forall>name obj f s0. keeps (base_kept s0) (beCreateOrUpdate E name obj f)) \<and>
     (\<forall>job f s0. keeps (base_kept s0) (beCreateOrUpdateCron E job f)) \<and>
     retry_ok ((=) KConflict) (beRetryPlain E) \<and> retry_ok ((=) KConflict) (beRetry E)"

lemma base_call_simps [simp]:
  "bcMeterBase (base_call s) = bcMeterBase s" "bcConfigMaps (base_call s) = bcConfigMaps s"
  by (simp_all add: base_call_def)

lemma base_readD: "base_read E sel s = (s', r) \<Longrightarrow> s' = base_call s"
  by (simp add: base_read_def)

lemma keeps_Factory: "objects_only E \<Longrightarrow> keeps (base_kept s0) (Factory_CreateOrUpdate E owner name)"
proof (rule keepsI)
  fix s s' err
  assume E: "objects_only E" and kept: "base_kept s0 s" and run: "Factory_CreateOrUpdate E owner name s = (s', err)"
  show "base_kept s0 s'"
  proof (cases "beManifest E name")
    case (Inr obj)
    have "keeps (base_kept s0) (beRetryPlain E (beCreateOrUpdate E name obj f))" for f
      by (rule keeps_retry [where conflict = "(=) KConflict"]) (use E in \<open>simp_all add: objects_only_def\<close>)
    then show ?thesis using run Inr kept unfolding Factory_CreateOrUpdate_def
      by (auto dest: keepsD [where P = "base_kept s0"])
  qed (use run kept in \<open>simp add: Factory_CreateOrUpdate_def\<close>)
qed

lemma keeps_delete: "keeps (base_kept s0) (delete_object E name)"
  by (rule keepsI) (auto simp: delete_object_def base_kept_def split: sum.splits option.splits)

lemma keeps_prereq: "keeps (base_kept s0) (checkUWMDefaultStorageClassPrereq E)"
  by (rule keepsI)
     (auto simp: checkUWMDefaultStorageClassPrereq_def GetDefaultStorageClass_def base_kept_def
       split: sum.splits option.splits list.splits storage_error.splits)

lemma keeps_cron: "objects_only E \<Longrightarrow> keeps (base_kept s0) (createReporterCronJob E uwm dis)"
proof (rule keepsI)
  fix s s' err
  assume E: "objects_only E" and kept: "base_kept s0 s" and run: "createReporterCronJob E uwm dis s = (s', err)"
  show "base_kept s0 s'"
  proof (cases "beCronJob E uwm dis")
    case (Inr job)
    have "keeps (base_kept s0) (beRetryPlain E (beCreateOrUpdateCron E job f))" for f
      by (rule keeps_retry [where conflict = "(=) KConflict"]) (use E in \<open>simp_all add: objects_only_def\<close>)
    then show ?thesis using run Inr kept unfolding createReporterCronJob_def
      by (auto dest: keepsD [where P = "base_kept s0"])
  qed (use run kept in \<open>simp add: createReporterCronJob_def\<close>)
qed

lemma keeps_cron_deletion: "keeps (base_kept s0) (deleteReporterCronJob E dis)"
  by (rule keepsI) (auto simp: deleteReporterCronJob_def base_kept_def split: sum.splits option.splits)

lemma keeps_install: "objects_only E \<Longrightarrow> keeps (base_kept s0) (install_steps E m config)"
  unfolding install_steps_def installMetricStateDeployment_def installMeterDefinitions_def
  by (intro keeps_run_steps)
     (auto intro!: keeps_run_steps keeps_Factory keeps_delete keeps_prereq keeps_cron keeps_cron_deletion
       split: option.splits if_splits)

text \<open>An attempt on the stored meter base succeeds at once and leaves the instance up to date.\<close>

lemma base_attempt_ok:
  assumes "objects_only E" "base_no_faults E" "bcMeterBase s = Some d" "f d = (d', u)"
    "meVersion d' = meVersion d" "\<not> u \<longrightarrow> d' = d"
  shows "\<exists>m s'. beRetry E (base_attempt E (base_write E g) f) (x, s) = ((m, s'), None) \<and>
    bcMeterBase s' = Some m \<and> bcConfigMaps s' = bcConfigMaps s \<and>
    m = (if u then (g d' d)\<lparr>meVersion := Suc (meVersion d)\<rparr> else d)"
proof -
  have "\<exists>m s'. base_attempt E (base_write E g) f (x, s) = ((m, s'), None) \<and> bcMeterBase s' = Some m \<and>
      bcConfigMaps s' = bcConfigMaps s \<and> m = (if u then (g d' d)\<lparr>meVersion := Suc (meVersion d)\<rparr> else d)"
    using assms(2-6) by (cases u) (simp_all add: base_attempt_def base_get_def base_read_def base_no_faults_def base_write_def Let_def)
  then obtain m s' where run: "base_attempt E (base_write E g) f (x, s) = ((m, s'), None)" and rest: "bcMeterBase s' = Some m \<and>
      bcConfigMaps s' = bcConfigMaps s \<and> m = (if u then (g d' d)\<lparr>meVersion := Suc (meVersion d)\<rparr> else d)"
    by blast
  have "retry_ok ((=) KConflict) (beRetry E)" using assms(1) by (simp add: objects_only_def)
  then show ?thesis using retry_ok_first [where f = "base_attempt E (base_write E g) f", OF _ run] rest by blast
qed

definition uwm_view :: "meter_base \<Rightarrow> (string \<times> string \<times> string) option" where
  "uwm_view m = map_option says (GetCondition (meConditions m) ConditionUserWorkloadMonitoringEnabled)"

lemma set_base_result:
  assumes "set_base now c d = (d', u)"
  shows "d' = d\<lparr>meConditions := fst (SetCondition now c (meConditions d))\<rparr>" "\<not> u \<longrightarrow> d' = d"
    "uwm_view d' = (if cType c = ConditionUserWorkloadMonitoringEnabled then Some (says c) else uwm_view d)"
proof -
  show d': "d' = d\<lparr>meConditions := fst (SetCondition now c (meConditions d))\<rparr>"
    using assms by (auto simp: set_base_def split: prod.splits)
  show "\<not> u \<longrightarrow> d' = d"
    using assms by (auto simp: set_base_def SetCondition_def dest!: set_loop_unchanged split: prod.splits)
  show "uwm_view d' = (if cType c = ConditionUserWorkloadMonitoringEnabled then Some (says c) else uwm_view d)"
    by (auto simp: d' uwm_view_def SetCondition_def set_loop_get says_def split: option.splits)
qed

text \<open>Setting a condition, and writing the replicas.\<close>

lemma set_base_ok:
  assumes "objects_only E" "base_no_faults E" "bcMeterBase s = Some d"
  shows "\<exists>m s'. beRetry E (base_attempt E (base_status_update E) (set_base now c)) (x, s) = ((m, s'), None) \<and>
    bcMeterBase s' = Some m \<and> bcConfigMaps s' = bcConfigMaps s \<and>
    uwm_view m = (if cType c = ConditionUserWorkloadMonitoringEnabled then Some (says c) else uwm_view d)"
proof -
  obtain d' u where f: "set_base now c d = (d', u)" by fastforce
  note r = set_base_result [OF f]
  have v: "meVersion d' = meVersion d" by (simp add: r(1))
  obtain m s' where run: "beRetry E (base_attempt E (base_status_update E) (set_base now c)) (x, s) = ((m, s'), None)"
      "bcMeterBase s' = Some m" "bcConfigMaps s' = bcConfigMaps s"
    and m: "m = (if u then (d\<lparr>meConditions := meConditions d', meReplicas := meReplicas d'\<rparr>)\<lparr>meVersion := Suc (meVersion d)\<rparr> else d)"
    using base_attempt_ok [where f = "set_base now c", OF assms f v r(2), of "\<lambda>m stored. stored\<lparr>meConditions := meConditions m, meReplicas := meReplicas m\<rparr>" x]
    unfolding base_status_update_def by blast
  have "uwm_view m = uwm_view d'" using m r(2) by (simp add: uwm_view_def)
  then show ?thesis using run r(3) by auto
qed

lemma replica_ok:
  assumes "objects_only E" "base_no_faults E" "bcMeterBase s = Some d"
  shows "\<exists>m s'. beRetry E (base_attempt E (base_status_update E) (replica_change st)) (x, s) = ((m, s'), None) \<and>
    bcMeterBase s' = Some m \<and> bcConfigMaps s' = bcConfigMaps s \<and> uwm_view m = uwm_view d \<and> meVersion m = Suc (meVersion d)"
proof -
  obtain d' where f: "replica_change st d = (d', True)" "meVersion d' = meVersion d" "meConditions d' = meConditions d"
    by (simp add: replica_change_def)
  then show ?thesis
    using base_attempt_ok [where f = "replica_change st", OF assms f(1,2), of "\<lambda>m stored. stored\<lparr>meConditions := meConditions m, meReplicas := meReplicas m\<rparr>" x]
    unfolding base_status_update_def by (auto simp: uwm_view_def)
qed

section \<open>The condition of the monitoring\<close>

lemma install_conditions: "cType MeterBaseFinishInstall \<noteq> ConditionUserWorkloadMonitoringEnabled"
  "cType MeterBaseStartInstall \<noteq> ConditionUserWorkloadMonitoringEnabled"
  by (simp_all add: MeterBaseFinishInstall_def MeterBaseStartInstall_def mdef_condition_def
      ConditionUserWorkloadMonitoringEnabled_def)

text \<open>The phases after the condition is set leave it as it is.\<close>

lemma status_steps_view:
  assumes "objects_only E" "base_no_faults E" "bcMeterBase s = Some d"
  shows "\<exists>m. bcMeterBase (fst (status_steps E (d, s))) = Some m \<and> uwm_view m = uwm_view d"
proof (cases "bcStatefulSet s")
  case None
  then show ?thesis using assms(2,3) by (simp add: status_steps_def base_read_def base_no_faults_def)
next
  case (Some st)
  have d: "bcMeterBase (base_call s) = Some d" using assms(3) by simp
  obtain m s2 where r: "beRetry E (base_attempt E (base_status_update E) (replica_change st)) (d, base_call s) = ((m, s2), None)"
    "bcMeterBase s2 = Some m" "uwm_view m = uwm_view d"
    using replica_ok [OF assms(1,2) d] by blast
  obtain m3 s3 where f: "beRetry E (base_attempt E (base_status_update E) (set_base (beNow E) MeterBaseFinishInstall)) (m, s2) =
      ((m3, s3), None)" "bcMeterBase s3 = Some m3" "uwm_view m3 = uwm_view m"
    using set_base_ok [OF assms(1,2) r(2), of "beNow E" MeterBaseFinishInstall m] install_conditions(1) by auto
  show ?thesis using assms(2) Some r f by (simp add: status_steps_def base_read_def base_no_faults_def)
qed

lemma install_phase_view:
  assumes "objects_only E" "base_no_faults E" "bcMeterBase s = Some d"
  shows "\<exists>m. bcMeterBase (fst (install_phase E (d, s))) = Some m \<and> uwm_view m = uwm_view d"
proof (cases "bcConfig s")
  case None
  then show ?thesis using assms(2,3) by (simp add: install_phase_def base_read_def base_no_faults_def)
next
  case (Some config)
  obtain s2 e where i: "install_steps E d config (base_call s) = (s2, e)" by fastforce
  have "base_kept s s2"
    using keepsD [where f = "install_steps E d config", OF keeps_install [OF assms(1), of s] _ i] by (simp add: base_kept_def)
  then have s2: "bcMeterBase s2 = Some d" using assms(3) by (simp add: base_kept_def)
  show ?thesis using Some i assms(2,3) s2 status_steps_view [OF assms(1,2) s2]
    by (cases e) (auto simp: install_phase_def base_read_def base_no_faults_def)
qed

lemma start_phase_view:
  assumes "objects_only E" "base_no_faults E" "bcMeterBase s = Some d"
  shows "\<exists>m. bcMeterBase (fst (start_phase E (d, s))) = Some m \<and> uwm_view m = uwm_view d"
proof (cases "IsUnknownFor (meConditions d) ''Installing''")
  case True
  obtain m s' where r: "beRetry E (base_attempt E (base_status_update E) (set_base (beNow E) MeterBaseStartInstall)) (d, s) =
      ((m, s'), None)" "bcMeterBase s' = Some m" "uwm_view m = uwm_view d"
    using set_base_ok [OF assms, of "beNow E" MeterBaseStartInstall d] install_conditions(2) by auto
  show ?thesis using True r install_phase_view [OF assms(1,2) r(2)] by (simp add: start_phase_def)
next
  case False
  then show ?thesis using install_phase_view [OF assms] by (simp add: start_phase_def)
qed

text \<open>What the cluster's configuration maps say: whether monitoring is enabled, and whether it is set up as needed.\<close>

definition enabled_on_cluster :: "'obj base_env \<Rightarrow> 'obj base_cluster \<Rightarrow> bool" where
  "enabled_on_cluster E s \<longleftrightarrow> beHasOpenshift E \<and> beOpenshift46 E \<and>
     (\<exists>cm. bcConfigMaps s (''openshift-monitoring'', ''cluster-monitoring-config'') = Some cm \<and>
        isEnableUserWorkloadConfigMap E cm = Inr True)"

definition configuration_valid :: "'obj base_env \<Rightarrow> 'obj base_cluster \<Rightarrow> bool" where
  "configuration_valid E s \<longleftrightarrow>
     (\<exists>cm. bcConfigMaps s (''openshift-user-workload-monitoring'', ''user-workload-monitoring-config'') = Some cm \<and>
        fst (isUserWorkLoadMonitoringConfigValid E cm))"

lemma on_cluster_ok:
  assumes "base_no_faults E" "isUserWorkloadMonitoringEnabledOnCluster E s = (s', b)"
  shows "b = enabled_on_cluster E s \<and> bcMeterBase s' = bcMeterBase s \<and> bcConfigMaps s' = bcConfigMaps s"
  using assms by (auto simp: isUserWorkloadMonitoringEnabledOnCluster_def enabled_on_cluster_def base_read_def base_no_faults_def
      split: if_splits option.splits sum.splits)

lemma validate_ok:
  assumes "base_no_faults E" "validateUserWorkLoadMonitoringConfig E s = (s', v, err)"
  shows "v = configuration_valid E s \<and> bcMeterBase s' = bcMeterBase s \<and> bcConfigMaps s' = bcConfigMaps s"
  using assms by (auto simp: validateUserWorkLoadMonitoringConfig_def configuration_valid_def base_read_def base_no_faults_def
      split: option.splits)

definition monitoring_result :: "bool \<Rightarrow> bool \<Rightarrow> meter_base \<Rightarrow> (string \<times> string \<times> string) option" where
  "monitoring_result onCluster valid m =
     (if \<not> onCluster then Some (says UserWorkloadMonitoringDisabledOnCluster)
      else if valid then Some (says UserWorkloadMonitoringEnabled) else uwm_view m)"

lemma condition_phase_view:
  assumes "objects_only E" "base_no_faults E" "bcMeterBase s = Some d"
  shows "\<exists>m. bcMeterBase (fst (condition_phase E onCluster (d, s))) = Some m \<and>
    uwm_view m = monitoring_result onCluster (configuration_valid E s) d"
proof -
  obtain s1 v err where val: "validateUserWorkLoadMonitoringConfig E s = (s1, v, err)" by (metis prod_cases3)
  have v: "v = configuration_valid E s" and s1: "bcMeterBase s1 = Some d"
    using validate_ok [OF assms(2) val] assms(3) by simp_all
  let ?c = "getUserWorkloadMonitoringCondition True onCluster v err"
  obtain m s2 where r: "beRetry E (base_attempt E (base_status_update E) (set_base (beNow E) ?c)) (d, s1) = ((m, s2), None)"
    "bcMeterBase s2 = Some m"
    "uwm_view m = (if cType ?c = ConditionUserWorkloadMonitoringEnabled then Some (says ?c) else uwm_view d)"
    using set_base_ok [OF assms(1,2) s1, of "beNow E" ?c d] by blast
  have "uwm_view m = monitoring_result onCluster v d"
    using r(3) by (auto simp: getUserWorkloadMonitoringCondition_def monitoring_result_def zero_condition_def
        UserWorkloadMonitoringEnabled_def UserWorkloadMonitoringDisabledOnCluster_def mdef_condition_def
        ConditionUserWorkloadMonitoringEnabled_def says_def split: if_splits)
  then show ?thesis using val r v start_phase_view [OF assms(1,2) r(2)] by (simp add: condition_phase_def)
qed

lemma spec_attempt_ok:
  assumes "objects_only E" "base_no_faults E" "bcMeterBase s = Some d" "f d = (d', u)" "meVersion d' = meVersion d"
    "\<not> u \<longrightarrow> d' = d" "meEnabled d' = meEnabled d"
  shows "\<exists>m s'. beRetry E (base_attempt E (base_update E) f) (x, s) = ((m, s'), None) \<and> bcMeterBase s' = Some m \<and>
    bcConfigMaps s' = bcConfigMaps s \<and> uwm_view m = uwm_view d \<and> meEnabled m = meEnabled d \<and>
    meUserWorkloadMonitoringEnabled m = meUserWorkloadMonitoringEnabled d'"
  using base_attempt_ok [where f = f, OF assms(1-6),
      of "\<lambda>m stored. m\<lparr>meConditions := meConditions stored, meReplicas := meReplicas stored\<rparr>" x] assms(6,7)
  unfolding base_update_def by (auto simp: uwm_view_def split: if_splits)

text \<open>
  C26: What an undisturbed run says about user workload monitoring: disabled when the cluster
  has not enabled it, enabled when the cluster has and its configuration is valid, and
  otherwise, with monitoring enabled but a configuration that is missing or invalid, what
  it said before the run, also when that is that monitoring is enabled.
\<close>

theorem monitoring_condition_result:
  assumes "objects_only E" "base_no_faults E" "bcMeterBase s = Some d" "meEnabled d"
  shows "\<exists>m. bcMeterBase (fst (base_Reconcile E zero s)) = Some m \<and>
    uwm_view m = monitoring_result (enabled_on_cluster E s) (configuration_valid E s) d"
proof -
  have g: "base_get E (zero, s) = ((d, base_call s), None)"
    using assms(2,3) by (simp add: base_get_def base_read_def base_no_faults_def)
  obtain d' u where f: "remove_finalizer d = (d', u)" by fastforce
  have rf: "meVersion d' = meVersion d" "\<not> u \<longrightarrow> d' = d" "meEnabled d' = meEnabled d"
    using f by (auto simp: remove_finalizer_def split: if_splits)
  obtain m2 s2 where r2: "beRetry E (base_attempt E (base_update E) remove_finalizer) (d, base_call s) = ((m2, s2), None)"
    "bcMeterBase s2 = Some m2" "bcConfigMaps s2 = bcConfigMaps s" "uwm_view m2 = uwm_view d" "meEnabled m2"
    using spec_attempt_ok [where f = remove_finalizer, OF assms(1,2) _ f rf, of "base_call s" d] assms(3,4) by auto
  obtain s3 b where oc: "isUserWorkloadMonitoringEnabledOnCluster E s2 = (s3, b)" by fastforce
  have b: "b = enabled_on_cluster E s" and s3: "bcMeterBase s3 = Some m2" "bcConfigMaps s3 = bcConfigMaps s"
    using on_cluster_ok [OF assms(2) oc] r2(2,3) by (simp_all add: enabled_on_cluster_def)
  have valid: "configuration_valid E t = configuration_valid E s" if "bcConfigMaps t = bcConfigMaps s" for t
    using that by (simp add: configuration_valid_def)
  have res: "monitoring_result oc v x = monitoring_result oc v d" if "uwm_view x = uwm_view d" for x oc v
    using that by (simp add: monitoring_result_def)
  show ?thesis
  proof (cases "ToBool (meUserWorkloadMonitoringEnabled m2)")
    case True
    then have run: "base_Reconcile E zero s = condition_phase E b (m2, s3)" using g r2(1,5) oc by (simp add: base_Reconcile_def)
    show ?thesis using condition_phase_view [OF assms(1,2) s3(1), of b] unfolding run valid [OF s3(2)] b res [OF r2(4)] .
  next
    case False
    let ?f = "\<lambda>m. (m\<lparr>meUserWorkloadMonitoringEnabled := Some True\<rparr>, True)"
    obtain m4 s4 where r4: "beRetry E (base_attempt E (base_update E) ?f) (m2, s3) = ((m4, s4), None)"
      "bcMeterBase s4 = Some m4" "bcConfigMaps s4 = bcConfigMaps s3" "uwm_view m4 = uwm_view m2"
      using spec_attempt_ok [where f = ?f, OF assms(1,2) s3(1) refl, of m2] by auto
    have run: "base_Reconcile E zero s = condition_phase E b (m4, s4)"
      using False g r2(1,5) oc r4(1) by (simp add: base_Reconcile_def)
    have "uwm_view m4 = uwm_view d" "bcConfigMaps s4 = bcConfigMaps s" using r4 r2(4) s3(2) by simp_all
    note same = this
    show ?thesis using condition_phase_view [OF assms(1,2) r4(2), of b]
      unfolding run valid [OF same(2)] b res [OF same(1)] .
  qed
qed

text \<open>
  The number of replicas is written in every run that gets there, changed or not: the
  version of the stored meter base always grows.
\<close>

theorem replica_status_always_written:
  assumes "objects_only E" "base_no_faults E" "bcMeterBase s = Some d" "bcStatefulSet s = Some st"
    and "meReplicas d = Some (stReplicas st, stUpdatedReplicas st, stReadyReplicas st, stCurrentReplicas st - stReadyReplicas st)"
  shows "\<exists>m s'. beRetry E (base_attempt E (base_status_update E) (replica_change st)) (d, s) = ((m, s'), None) \<and>
    bcMeterBase s' = Some m \<and> meVersion m = Suc (meVersion d)"
  using replica_ok [OF assms(1-3)] by blast

section \<open>Witnesses\<close>

definition demo_base_env :: "string base_env" where
  "demo_base_env = \<lparr>beFault = (\<lambda>n. None), beRetry = demo_retry (Suc 0) ((=) KConflict),
     beRetryPlain = demo_retry (Suc 0) ((=) KConflict), beNow = 1, beHasOpenshift = True, beOpenshift46 = True,
     beParseCluster = (\<lambda>s. Inr (Some True)),
     beParseUserWorkload = (\<lambda>s. Inr (Some \<lparr>upRetention = s, upStorage = Some (50 * GiB)\<rparr>)),
     beParseDuration = (\<lambda>s. Inr (if s = ''week'' then week_ns else 0)),
     beManifest = Inr, beSetControllerReference = (\<lambda>x. x), beMerge = (\<lambda>a b. Inr b),
     beCreateOrUpdate = (\<lambda>name obj f s. (s\<lparr>bcObjects := (bcObjects s)(name \<mapsto> obj)\<rparr>, None)),
     beCronJob = (\<lambda>u d. Inl (Err ''none'')), beCreateOrUpdateCron = (\<lambda>job f s. (s\<lparr>bcCronJob := Some job\<rparr>, None))\<rparr>"

definition demo_base :: meter_base where
  "demo_base = \<lparr>meVersion = 1, meFinalizers = [], meEnabled = True, meUserWorkloadMonitoringEnabled = Some True,
     meDataServiceEnabled = None, meStorageClassName = None,
     meRouteSpec = None, meRouteDisabled = None, meConditions = [UserWorkloadMonitoringEnabled], meReplicas = Some (2, 2, 2, 0)\<rparr>"

definition demo_base_cluster :: "string \<Rightarrow> string base_cluster" where
  "demo_base_cluster config = \<lparr>bcMeterBase = Some demo_base, bcConfig = None,
     bcConfigMaps = [(''openshift-monitoring'', ''cluster-monitoring-config'') \<mapsto> [''config.yaml'' \<mapsto> ''on''],
       (''openshift-user-workload-monitoring'', ''user-workload-monitoring-config'') \<mapsto> [''config.yaml'' \<mapsto> config]],
     bcStorageClasses = [], bcObjects = Map.empty, bcCronJob = None,
     bcStatefulSet = Some \<lparr>stReplicas = 2, stUpdatedReplicas = 2, stReadyReplicas = 2, stCurrentReplicas = 2\<rparr>,
     bcEvents = [], bcCalls = 0\<rparr>"

lemma demo_base_ok: "objects_only demo_base_env" "base_no_faults demo_base_env"
  "bcMeterBase (demo_base_cluster c) = Some demo_base" "meEnabled demo_base"
  by (simp_all add: demo_retry_ok demo_base_env_def objects_only_def base_no_faults_def demo_base_cluster_def demo_base_def keeps_def
      base_kept_def)

lemma demo_base_monitoring:
  "enabled_on_cluster demo_base_env (demo_base_cluster c)"
  "configuration_valid demo_base_env (demo_base_cluster c) \<longleftrightarrow> c = ''week''"
  by (simp_all add: enabled_on_cluster_def configuration_valid_def demo_base_env_def demo_base_cluster_def
      isEnableUserWorkloadConfigMap_def isUserWorkLoadMonitoringConfigValid_def GiB_def week_ns_def)

theorem monitoring_condition_result_witness:
  "\<exists>m. bcMeterBase (fst (base_Reconcile demo_base_env demo_base (demo_base_cluster ''day''))) = Some m \<and>
     \<not> configuration_valid demo_base_env (demo_base_cluster ''day'') \<and> uwm_view m = Some (says UserWorkloadMonitoringEnabled)"
proof -
  have "uwm_view demo_base = Some (says UserWorkloadMonitoringEnabled)"
    by (simp add: uwm_view_def demo_base_def UserWorkloadMonitoringEnabled_def mdef_condition_def)
  then show ?thesis using monitoring_condition_result [OF demo_base_ok, of demo_base "''day''"]
    by (simp add: demo_base_monitoring monitoring_result_def)
qed

theorem replica_status_always_written_witness:
  "\<exists>m s'. beRetry demo_base_env (base_attempt demo_base_env (base_status_update demo_base_env)
       (replica_change \<lparr>stReplicas = 2, stUpdatedReplicas = 2, stReadyReplicas = 2, stCurrentReplicas = 2\<rparr>))
       (demo_base, demo_base_cluster ''day'') = ((m, s'), None) \<and> meVersion m = 2"
proof -
  have "\<exists>m s'. beRetry demo_base_env (base_attempt demo_base_env (base_status_update demo_base_env)
       (replica_change \<lparr>stReplicas = 2, stUpdatedReplicas = 2, stReadyReplicas = 2, stCurrentReplicas = 2\<rparr>))
       (demo_base, demo_base_cluster ''day'') = ((m, s'), None) \<and> bcMeterBase s' = Some m \<and>
       meVersion m = Suc (meVersion demo_base)"
    by (rule replica_status_always_written [OF demo_base_ok(1-3)]) (simp_all add: demo_base_cluster_def demo_base_def)
  then show ?thesis by (auto simp: demo_base_def)
qed

end
