(* ===== verification/DataServices.thy ===== *)
theory DataServices
  imports MeterBases
begin

text \<open>
  The controllers of the data service and of the operator's own deployment
  (\<open>v2/internal/controller/marketplace/dataservice_controller.go\<close>,
  \<open>deployment_controller.go\<close>): the objects of the data service are installed or removed as the
  meter base says, its storage class is chosen, pods that cannot be scheduled are deleted.

  The state is the cluster of the meter base with the pods and the volume claim of the data
  service. The stateful set is an object of the cluster that is read through fields of the
  environment. Failures of the API server, conflicts with other writers among them, are
  numbered by call.
\<close>

section \<open>State\<close>

text \<open>
  The terms of \<open>Affinity.PodAntiAffinity.RequiredDuringSchedulingIgnoredDuringExecution\<close>, behind
  two pointers.
\<close>

type_synonym affinity = "string list option option"

definition required_terms :: "affinity \<Rightarrow> string list" where
  "required_terms a = (case a of Some (Some terms) \<Rightarrow> terms | _ \<Rightarrow> [])"

record pod_condition =
  pnType :: string
  pnReason :: string
  pnStatus :: string

record ds_pod =
  dpNamespace :: string
  dpName :: string
  dpLabels :: smap
  dpAffinity :: affinity
  dpPhase :: string
  dpConditions :: "pod_condition list"

text \<open>Pods are listed in all namespaces; a pod is named by its namespace and name.\<close>

definition pod_key :: "ds_pod \<Rightarrow> string \<times> string" where
  "pod_key p = (dpNamespace p, dpName p)"

record 'obj ds_state =
  dsBase :: "'obj base_cluster"
  dsPods :: "ds_pod list"
  dsClaim :: "string option option"
  dsDeployment :: "unit option"

record 'obj ds_env =
  deBase :: "'obj base_env"
  deStatefulSet :: "string option \<Rightarrow> 'obj result"
  deSetController :: "'obj \<Rightarrow> 'obj result"
  deRouteSpec :: "string \<Rightarrow> 'obj \<Rightarrow> 'obj"
  deAffinity :: "'obj \<Rightarrow> affinity"
  deSetRequired :: "string list \<Rightarrow> 'obj \<Rightarrow> 'obj"
  deVolumeClaimClasses :: "'obj \<Rightarrow> string option list"
  dsRetry :: "('obj ds_state, kube_error) attempt \<Rightarrow> ('obj ds_state, kube_error) attempt"

definition on_base :: "('obj base_cluster, kube_error) attempt \<Rightarrow> ('obj ds_state, kube_error) attempt" where
  "on_base f s = (case f (dsBase s) of (b, e) \<Rightarrow> (s\<lparr>dsBase := b\<rparr>, e))"

definition ds_call :: "'obj ds_state \<Rightarrow> 'obj ds_state" where
  "ds_call s = s\<lparr>dsBase := base_call (dsBase s)\<rparr>"

definition ds_fault :: "'obj ds_env \<Rightarrow> 'obj ds_state \<Rightarrow> kube_error option" where
  "ds_fault E s = beFault (deBase E) (bcCalls (dsBase s))"

definition ds_read :: "'obj ds_env \<Rightarrow> ('obj ds_state \<Rightarrow> 'a option) \<Rightarrow> 'obj ds_state \<Rightarrow> 'obj ds_state \<times> (kube_error + 'a)" where
  "ds_read E sel s =
     (ds_call s,
      case ds_fault E s of
        Some e \<Rightarrow> Inl e
      | None \<Rightarrow> (case sel s of None \<Rightarrow> Inl KNotFound | Some x \<Rightarrow> Inr x))"

definition ds_object :: "string \<Rightarrow> 'obj ds_state \<Rightarrow> 'obj option" where
  "ds_object name s = bcObjects (dsBase s) name"

definition ds_put :: "'obj ds_env \<Rightarrow> string \<Rightarrow> 'obj \<Rightarrow> ('obj ds_state, kube_error) attempt" where
  "ds_put E name obj s =
     (case ds_fault E s of
        Some e \<Rightarrow> (ds_call s, Some e)
      | None \<Rightarrow> (s\<lparr>dsBase := (base_call (dsBase s))\<lparr>bcObjects := (bcObjects (dsBase s))(name \<mapsto> obj)\<rparr>\<rparr>, None))"

text \<open>The names of the objects of the data service, by what builds them.\<close>

definition TLSSecret :: string where "TLSSecret = ''DataServiceTLSSecret''"
definition PodDisruptionBudget :: string where "PodDisruptionBudget = ''DataServicePodDisruptionBudget''"
definition DataServiceService :: string where "DataServiceService = ''DataServiceService''"
definition StatefulSet :: string where "StatefulSet = ''DataServiceStatefulSet''"
definition Route :: string where "Route = ''DataServiceRoute''"

section \<open>Storage class\<close>

text \<open>
  The class of the stateful set's first volume claim, then that of the meter base, of a
  claim made before, and the cluster's default. No class is chosen when there is not exactly
  one default.
\<close>

definition default_class :: "'obj ds_env \<Rightarrow> 'obj ds_state \<Rightarrow> 'obj ds_state \<times> (kube_error + string option)" where
  "default_class E s =
     (case GetDefaultStorageClass (deBase E) (dsBase s) of
        (b, Inl DefaultStorageClassNotFound) \<Rightarrow> (s\<lparr>dsBase := b\<rparr>, Inr None)
      | (b, Inl MultipleDefaultStorageClassFound) \<Rightarrow> (s\<lparr>dsBase := b\<rparr>, Inr None)
      | (b, Inl (StorageOther e)) \<Rightarrow> (s\<lparr>dsBase := b\<rparr>, Inl e)
      | (b, Inr c) \<Rightarrow> (s\<lparr>dsBase := b\<rparr>, Inr (Some c)))"

definition claim_class :: "'obj ds_env \<Rightarrow> meter_base \<Rightarrow> 'obj ds_state \<Rightarrow> 'obj ds_state \<times> (kube_error + string option)" where
  "claim_class E m s =
     (if meStorageClassName m \<noteq> None then (s, Inr (meStorageClassName m))
      else
        (case ds_read E dsClaim s of
           (s1, Inl e) \<Rightarrow> if e \<noteq> KNotFound then (s1, Inl e) else default_class E s1
         | (s1, Inr (Some c)) \<Rightarrow> (s1, Inr (Some c))
         | (s1, Inr None) \<Rightarrow> default_class E s1))"

definition getStorageClassName ::
  "'obj ds_env \<Rightarrow> meter_base \<Rightarrow> 'obj ds_state \<Rightarrow> 'obj ds_state \<times> (kube_error + string option)" where
  "getStorageClassName E m s =
     (case ds_read E (ds_object StatefulSet) s of
        (s1, Inl e) \<Rightarrow> if e \<noteq> KNotFound then (s1, Inl e) else claim_class E m s1
      | (s1, Inr sts) \<Rightarrow>
          (case deVolumeClaimClasses E sts of
             c # _ \<Rightarrow> (s1, Inr c)
           | [] \<Rightarrow> claim_class E m s1))"

section \<open>Steps\<close>

definition secret_step :: "'obj ds_env \<Rightarrow> ('obj ds_state, kube_error) attempt" where
  "secret_step E s =
     (case beManifest (deBase E) TLSSecret of
        Inl err \<Rightarrow> (s, Some (KGo err))
      | Inr secret \<Rightarrow>
          (case deSetController E secret of
             Inl err \<Rightarrow> (s, Some (KGo err))
           | Inr controlled \<Rightarrow>
               (case ds_read E (ds_object TLSSecret) s of
                  (s1, Inr _) \<Rightarrow> (s1, None)
                | (s1, Inl e) \<Rightarrow> if e = KNotFound then ds_put E TLSSecret controlled s1 else (s1, Some e))))"

text \<open>The environment whose stateful set uses a storage class.\<close>

definition with_class :: "'obj ds_env \<Rightarrow> string option \<Rightarrow> 'obj base_env" where
  "with_class E c = (deBase E)\<lparr>beManifest := (beManifest (deBase E))(StatefulSet := deStatefulSet E c)\<rparr>"

definition stateful_set_step :: "'obj ds_env \<Rightarrow> meter_base \<Rightarrow> ('obj ds_state, kube_error) attempt" where
  "stateful_set_step E m s =
     (case getStorageClassName E m s of
        (s1, Inl e) \<Rightarrow> (s1, Some e)
      | (s1, Inr c) \<Rightarrow> on_base (Factory_CreateOrUpdate (with_class E c) True StatefulSet) s1)"

definition affinity_attempt :: "'obj ds_env \<Rightarrow> ('obj ds_state, kube_error) attempt" where
  "affinity_attempt E s =
     (case ds_read E (ds_object StatefulSet) s of
        (s1, Inl e) \<Rightarrow> (s1, Some e)
      | (s1, Inr sts) \<Rightarrow>
          (if required_terms (deAffinity E sts) \<noteq> [] then ds_put E StatefulSet (deSetRequired E [] sts) s1 else (s1, None)))"

definition affinity_step :: "'obj ds_env \<Rightarrow> ('obj ds_state, kube_error) attempt" where
  "affinity_step E s =
     (case dsRetry E (affinity_attempt E) s of
        (s1, Some e) \<Rightarrow> (s1, if e = KNotFound then None else Some e)
      | (s1, None) \<Rightarrow> (s1, None))"

text \<open>A pod that is gone already is no error.\<close>

definition delete_pod :: "'obj ds_env \<Rightarrow> ds_pod \<Rightarrow> ('obj ds_state, kube_error) attempt" where
  "delete_pod E pod s =
     (case ds_fault E s of
        Some e \<Rightarrow> (ds_call s, if e = KNotFound then None else Some e)
      | None \<Rightarrow> ((ds_call s)\<lparr>dsPods := filter (\<lambda>p. pod_key p \<noteq> pod_key pod) (dsPods s)\<rparr>, None))"

definition unschedulable :: "pod_condition \<Rightarrow> bool" where
  "unschedulable c \<longleftrightarrow> pnType c = ''PodScheduled'' \<and> pnReason c = ''Unschedulable'' \<and> pnStatus c = ''False''"

fun delete_for_conditions :: "'obj ds_env \<Rightarrow> ds_pod \<Rightarrow> pod_condition list \<Rightarrow> ('obj ds_state, kube_error) attempt" where
  "delete_for_conditions E pod [] s = (s, None)"
| "delete_for_conditions E pod (c # cs) s =
     (if unschedulable c
      then (case delete_pod E pod s of
              (s1, Some e) \<Rightarrow> (s1, Some e)
            | (s1, None) \<Rightarrow> delete_for_conditions E pod cs s1)
      else delete_for_conditions E pod cs s)"

fun delete_stuck_pods :: "'obj ds_env \<Rightarrow> ds_pod list \<Rightarrow> ('obj ds_state, kube_error) attempt" where
  "delete_stuck_pods E [] s = (s, None)"
| "delete_stuck_pods E (pod # pods) s =
     (if required_terms (dpAffinity pod) \<noteq> [] \<and> dpPhase pod = ''Pending''
      then (case delete_for_conditions E pod (dpConditions pod) s of
              (s1, Some e) \<Rightarrow> (s1, Some e)
            | (s1, None) \<Rightarrow> delete_stuck_pods E pods s1)
      else delete_stuck_pods E pods s)"

definition data_service_pod :: "ds_pod \<Rightarrow> bool" where
  "data_service_pod p \<longleftrightarrow> dpLabels p ''app'' = Some ''rhm-data-service''"

definition pods_step :: "'obj ds_env \<Rightarrow> ('obj ds_state, kube_error) attempt" where
  "pods_step E s =
     (case ds_fault E s of
        Some e \<Rightarrow> (ds_call s, Some e)
      | None \<Rightarrow> delete_stuck_pods E (filter data_service_pod (dsPods s)) (ds_call s))"

definition route_step :: "'obj ds_env \<Rightarrow> meter_base \<Rightarrow> ('obj ds_state, kube_error) attempt" where
  "route_step E m s =
     (case beManifest (deBase E) Route of
        Inl err \<Rightarrow> (s, Some (KGo err))
      | Inr base_route \<Rightarrow>
          (let route = (case meRouteSpec m of None \<Rightarrow> base_route | Some spec \<Rightarrow> deRouteSpec E spec base_route) in
           if \<not> ToBool (meRouteDisabled m)
           then on_base (beRetryPlain (deBase E) (beCreateOrUpdate (deBase E) Route route
                  (\<lambda>current. beMerge (deBase E) (beSetControllerReference (deBase E) current) route))) s
           else on_base (delete_object (deBase E) Route) s))"

definition install_data_service :: "'obj ds_env \<Rightarrow> meter_base \<Rightarrow> ('obj ds_state, kube_error) attempt" where
  "install_data_service E m =
     run_steps [secret_step E,
       on_base (Factory_CreateOrUpdate (deBase E) True PodDisruptionBudget),
       on_base (Factory_CreateOrUpdate (deBase E) True DataServiceService),
       stateful_set_step E m, affinity_step E, pods_step E, route_step E m]"

definition remove_data_service :: "'obj ds_env \<Rightarrow> ('obj ds_state, kube_error) attempt" where
  "remove_data_service E =
     run_steps [on_base (delete_object (deBase E) Route), on_base (delete_object (with_class E None) StatefulSet),
       on_base (delete_object (deBase E) DataServiceService), on_base (delete_object (deBase E) TLSSecret),
       on_base (delete_object (deBase E) PodDisruptionBudget)]"

definition ds_Reconcile :: "'obj ds_env \<Rightarrow> ('obj ds_state, kube_error) attempt" where
  "ds_Reconcile E s =
     (case ds_read E (\<lambda>s. bcMeterBase (dsBase s)) s of
        (s1, Inl e) \<Rightarrow> (s1, if e = KNotFound then None else Some e)
      | (s1, Inr m) \<Rightarrow> if IsDataServiceEnabled m then install_data_service E m s1 else remove_data_service E s1)"

text \<open>The operator's deployment: its objects are created or updated without an owner.\<close>

definition deployment_objects :: "string list" where
  "deployment_objects = [''MOCABundleConfigMap'', ''MOServiceMonitorMetricsReaderSecret'', ''MOMetricsService'', ''MOMetricsServiceMonitor'']"

definition deployment_Reconcile :: "'obj ds_env \<Rightarrow> ('obj ds_state, kube_error) attempt" where
  "deployment_Reconcile E s =
     (case ds_read E dsDeployment s of
        (s1, Inl e) \<Rightarrow> (s1, if e = KNotFound then None else Some e)
      | (s1, Inr _) \<Rightarrow> run_steps (map (\<lambda>name. on_base (Factory_CreateOrUpdate (deBase E) False name)) deployment_objects) s1)"

definition deployment_predicate :: "string \<Rightarrow> bool" where
  "deployment_predicate name \<longleftrightarrow> name = ''ibm-metrics-operator-controller-manager''"

definition watched_in_namespace :: "string \<Rightarrow> string \<Rightarrow> string \<Rightarrow> string \<Rightarrow> bool" where
  "watched_in_namespace watched deployedNamespace name namespace \<longleftrightarrow> name = watched \<and> namespace = deployedNamespace"

section \<open>What the steps keep\<close>

text \<open>The pods a run may delete.\<close>

definition stuck_pod :: "ds_pod \<Rightarrow> bool" where
  "stuck_pod p \<longleftrightarrow> data_service_pod p \<and> required_terms (dpAffinity p) \<noteq> [] \<and> dpPhase p = ''Pending'' \<and>
     (\<exists>c\<in>set (dpConditions p). unschedulable c)"

text \<open>Relative to the pods at the start: nothing was added, and what is gone was stuck.\<close>

definition pods_from :: "ds_pod list \<Rightarrow> 'obj ds_state \<Rightarrow> bool" where
  "pods_from ps s \<longleftrightarrow> set (dsPods s) \<subseteq> set ps \<and> (\<forall>p\<in>set ps. \<not> stuck_pod p \<longrightarrow> p \<in> set (dsPods s))"

lemma ds_call_simps [simp]:
  "dsPods (ds_call s) = dsPods s" "dsClaim (ds_call s) = dsClaim s" "bcObjects (dsBase (ds_call s)) = bcObjects (dsBase s)"
  "bcMeterBase (dsBase (ds_call s)) = bcMeterBase (dsBase s)" "ds_object name (ds_call s) = ds_object name s"
  "bcStorageClasses (dsBase (ds_call s)) = bcStorageClasses (dsBase s)"
  by (simp_all add: ds_call_def base_call_def ds_object_def)

lemma on_base_pods: "on_base f s = (s', e) \<Longrightarrow> dsPods s' = dsPods s"
  by (auto simp: on_base_def split: prod.splits)

lemma pods_same: "dsPods s' = dsPods s \<Longrightarrow> pods_from ps s \<Longrightarrow> pods_from ps s'"
  by (simp add: pods_from_def)

lemma keeps_on_base: "keeps (pods_from ps) (on_base f)"
  by (rule keepsI) (metis on_base_pods pods_same)

lemma keeps_secret_step: "keeps (pods_from ps) (secret_step E)"
  by (rule keepsI, erule pods_same [rotated])
     (auto simp: secret_step_def ds_read_def ds_put_def split: sum.splits option.splits if_splits)

lemma claim_class_pods: "claim_class E m s = (s', r) \<Longrightarrow> dsPods s' = dsPods s"
  by (auto simp: claim_class_def default_class_def ds_read_def split: if_splits option.splits sum.splits prod.splits storage_error.splits)

lemma getStorageClassName_pods: "getStorageClassName E m s = (s', r) \<Longrightarrow> dsPods s' = dsPods s"
  by (auto simp: getStorageClassName_def ds_read_def dest!: claim_class_pods split: if_splits option.splits sum.splits list.splits)

lemma keeps_stateful_set_step: "keeps (pods_from ps) (stateful_set_step E m)"
  by (rule keepsI, erule pods_same [rotated])
     (auto simp: stateful_set_step_def dest!: getStorageClassName_pods on_base_pods split: prod.splits sum.splits)

lemma keeps_affinity_step:
  assumes "retry_ok ((=) KConflict) (dsRetry E)"
  shows "keeps (pods_from ps) (affinity_step E)"
proof -
  have "keeps (pods_from ps) (affinity_attempt E)"
    by (rule keepsI, erule pods_same [rotated])
       (auto simp: affinity_attempt_def ds_read_def ds_put_def split: sum.splits option.splits if_splits)
  with assms have "keeps (pods_from ps) (dsRetry E (affinity_attempt E))" by (rule keeps_retry)
  then show ?thesis
    by (auto intro!: keepsI simp: affinity_step_def dest: keepsD [where P = "pods_from ps"] split: prod.splits option.splits)
qed

lemma keeps_route_step: "keeps (pods_from ps) (route_step E m)"
  by (rule keepsI, erule pods_same [rotated])
     (auto simp: route_step_def Let_def dest!: on_base_pods split: sum.splits if_splits)

lemma keeps_delete_pod:
  assumes "distinct (map pod_key ps)" "pod \<in> set ps" "stuck_pod pod"
  shows "keeps (pods_from ps) (delete_pod E pod)"
proof (rule keepsI)
  fix s s' err
  assume pods: "pods_from ps s" and run: "delete_pod E pod s = (s', err)"
  have same: "p = pod" if "p \<in> set ps" "pod_key p = pod_key pod" for p
    using assms that by (auto simp: distinct_map inj_on_def)
  show "pods_from ps s'"
  proof (cases "ds_fault E s")
    case None
    then have "dsPods s' = filter (\<lambda>p. pod_key p \<noteq> pod_key pod) (dsPods s)" using run by (auto simp: delete_pod_def)
    then show ?thesis using pods assms(3) same by (auto simp: pods_from_def)
  next
    case (Some e)
    then show ?thesis using run by (intro pods_same [OF _ pods]) (auto simp: delete_pod_def)
  qed
qed

lemma keeps_delete_for_conditions:
  assumes "distinct (map pod_key ps)" "pod \<in> set ps" "stuck_pod pod"
  shows "keeps (pods_from ps) (delete_for_conditions E pod cs)"
proof (rule keepsI)
  fix s s' err
  show "pods_from ps s \<Longrightarrow> delete_for_conditions E pod cs s = (s', err) \<Longrightarrow> pods_from ps s'"
    by (induction cs arbitrary: s)
       (auto dest: keepsD [OF keeps_delete_pod [OF assms]] split: if_splits prod.splits option.splits)
qed

lemma no_condition_no_deletion:
  "\<not> (\<exists>c\<in>set cs. unschedulable c) \<Longrightarrow> delete_for_conditions E pod cs s = (s, None)"
  by (induction cs) auto

lemma keeps_delete_stuck_pods:
  assumes "distinct (map pod_key ps)" "set pods \<subseteq> set ps" "\<forall>p\<in>set pods. data_service_pod p"
  shows "keeps (pods_from ps) (delete_stuck_pods E pods)"
  using assms(2,3)
proof (induction pods)
  case (Cons pod pods)
  have one: "pods_from ps s1" if "pods_from ps s" "delete_for_conditions E pod (dpConditions pod) s = (s1, e)"
      "required_terms (dpAffinity pod) \<noteq> []" "dpPhase pod = ''Pending''" for s s1 e
  proof (cases "stuck_pod pod")
    case True
    show ?thesis using keepsD [OF keeps_delete_for_conditions [OF assms(1) _ True] that(1,2)] Cons.prems by simp
  next
    case False
    then show ?thesis using that Cons.prems no_condition_no_deletion [of "dpConditions pod" E pod s] by (auto simp: stuck_pod_def)
  qed
  have rest: "keeps (pods_from ps) (delete_stuck_pods E pods)" using Cons by simp
  show ?case
  proof (rule keepsI)
    fix s s' err
    assume pods: "pods_from ps s" and run: "delete_stuck_pods E (pod # pods) s = (s', err)"
    show "pods_from ps s'"
    proof (cases "required_terms (dpAffinity pod) \<noteq> [] \<and> dpPhase pod = ''Pending''")
      case True
      obtain s1 e where d: "delete_for_conditions E pod (dpConditions pod) s = (s1, e)" by fastforce
      have "pods_from ps s1" using one [OF pods d] True by simp
      then show ?thesis using run True d keepsD [OF rest] by (cases e) auto
    next
      case False
      then have "delete_stuck_pods E pods s = (s', err)" using run by (simp split: if_splits)
      then show ?thesis using keepsD [OF rest pods] by simp
    qed
  qed
qed (simp add: keeps_def)

lemma keeps_install_data_service:
  assumes "distinct (map pod_key ps)" "retry_ok ((=) KConflict) (dsRetry E)"
  shows "keeps (pods_from ps) (install_data_service E m)"
proof -
  have "keeps (pods_from ps) (pods_step E)"
  proof (rule keepsI)
    fix s s' err
    assume pods: "pods_from ps s" and run: "pods_step E s = (s', err)"
    have k: "keeps (pods_from ps) (delete_stuck_pods E (filter data_service_pod (dsPods s)))"
      by (rule keeps_delete_stuck_pods [OF assms(1)]) (use pods in \<open>auto simp: pods_from_def\<close>)
    have c: "pods_from ps (ds_call s)" using pods by (rule pods_same [rotated]) simp
    show "pods_from ps s'" using run c keepsD [OF k c] by (auto simp: pods_step_def split: option.splits)
  qed
  then show ?thesis unfolding install_data_service_def
    by (intro keeps_run_steps)
       (auto intro: keeps_secret_step keeps_on_base keeps_stateful_set_step keeps_affinity_step [OF assms(2)] keeps_route_step)
qed

lemma keeps_remove_data_service: "keeps (pods_from ps) (remove_data_service E)"
  unfolding remove_data_service_def by (intro keeps_run_steps) (auto intro: keeps_on_base)

text \<open>
  C34: Whatever calls fail, a run of the data service controller deletes only pods of the data
  service that are pending, cannot be scheduled and have a required anti-affinity; every
  other pod stays. Pods are told apart by namespace and name.
\<close>

theorem only_stuck_pods_deleted:
  assumes "distinct (map pod_key (dsPods s))" "retry_ok ((=) KConflict) (dsRetry E)" "ds_Reconcile E s = (s', err)"
  shows "set (dsPods s') \<subseteq> set (dsPods s) \<and> (\<forall>p\<in>set (dsPods s) - set (dsPods s'). stuck_pod p)"
proof -
  have c: "pods_from (dsPods s) (ds_call s)" by (simp add: pods_from_def)
  have "pods_from (dsPods s) s'"
    using assms(3) c keepsD [OF keeps_install_data_service [OF assms(1,2)] c] keepsD [OF keeps_remove_data_service [of "dsPods s" E] c]
    by (auto simp: ds_Reconcile_def ds_read_def split: option.splits if_splits)
  then show ?thesis by (auto simp: pods_from_def)
qed

section \<open>Undisturbed runs\<close>

definition ds_no_faults :: "'obj ds_env \<Rightarrow> bool" where
  "ds_no_faults E \<longleftrightarrow> (\<forall>n. beFault (deBase E) n = None)"

lemma ds_fault_None [simp]: "ds_no_faults E \<Longrightarrow> ds_fault E s = None"
  by (simp add: ds_no_faults_def ds_fault_def)

text \<open>The class that is used, in the order of precedence.\<close>

definition chosen_class :: "'obj ds_env \<Rightarrow> meter_base \<Rightarrow> 'obj ds_state \<Rightarrow> string option" where
  "chosen_class E m s =
     (case map_option (deVolumeClaimClasses E) (ds_object StatefulSet s) of
        Some (c # _) \<Rightarrow> c
      | _ \<Rightarrow>
          (case (meStorageClassName m, dsClaim s) of
             (Some c, _) \<Rightarrow> Some c
           | (None, Some (Some c)) \<Rightarrow> Some c
           | _ \<Rightarrow>
               (case filter (\<lambda>c. is_default_class (snd c)) (bcStorageClasses (dsBase s)) of
                  [c] \<Rightarrow> Some (fst c)
                | _ \<Rightarrow> None)))"

lemma default_class_result:
  assumes "ds_no_faults E"
  shows "default_class E s = (ds_call s,
    Inr (case filter (\<lambda>c. is_default_class (snd c)) (bcStorageClasses (dsBase s)) of [c] \<Rightarrow> Some (fst c) | _ \<Rightarrow> None))"
  using assms by (auto simp: default_class_def GetDefaultStorageClass_def ds_no_faults_def ds_call_def split: list.splits)

lemma claim_class_result:
  assumes "ds_no_faults E" "claim_class E m s = (s', r)"
  shows "r = Inr (case (meStorageClassName m, dsClaim s) of
             (Some c, _) \<Rightarrow> Some c
           | (None, Some (Some c)) \<Rightarrow> Some c
           | _ \<Rightarrow>
               (case filter (\<lambda>c. is_default_class (snd c)) (bcStorageClasses (dsBase s)) of
                  [c] \<Rightarrow> Some (fst c)
                | _ \<Rightarrow> None))" "bcObjects (dsBase s') = bcObjects (dsBase s)"
  using assms by (auto simp: claim_class_def ds_read_def default_class_result split: if_splits option.splits)

lemma storage_class_result:
  assumes "ds_no_faults E" "getStorageClassName E m s = (s', r)"
  shows "r = Inr (chosen_class E m s)" "bcObjects (dsBase s') = bcObjects (dsBase s)"
  using assms claim_class_result [OF assms(1), of m "ds_call s" s']
  by (auto simp: getStorageClassName_def ds_read_def chosen_class_def split: if_splits option.splits list.splits)

definition data_service_objects :: "string set" where
  "data_service_objects = {Route, StatefulSet, DataServiceService, TLSSecret, PodDisruptionBudget}"

text \<open>
  With the data service disabled, a run without failing calls ends without an error and
  leaves none of the five objects of the data service; every other object and every pod
  stays as it is.
\<close>

theorem disabled_data_service_removed:
  assumes "ds_no_faults E" "\<forall>name. \<exists>obj. beManifest (deBase E) name = Inr obj" "\<exists>obj. deStatefulSet E None = Inr obj"
    and "bcMeterBase (dsBase s) = Some m" "\<not> IsDataServiceEnabled m"
  shows "\<exists>s'. ds_Reconcile E s = (s', None) \<and>
    bcObjects (dsBase s') = (bcObjects (dsBase s)) |` (- data_service_objects) \<and> dsPods s' = dsPods s"
proof -
  have del: "\<exists>t'. on_base (delete_object B name) t = (t', None) \<and>
      bcObjects (dsBase t') = (bcObjects (dsBase t))(name := None) \<and> dsPods t' = dsPods t"
    if "beFault B = beFault (deBase E)" "\<exists>obj. beManifest B name = Inr obj" for B name t
    using that assms(1) by (auto simp: on_base_def delete_object_def ds_no_faults_def base_call_def)
  have wc: "beFault (with_class E c) = beFault (deBase E)" "beManifest (with_class E c) StatefulSet = deStatefulSet E c" for c
    by (simp_all add: with_class_def)
  have plain: "\<exists>t'. on_base (delete_object (deBase E) name) t = (t', None) \<and>
      bcObjects (dsBase t') = (bcObjects (dsBase t))(name := None) \<and> dsPods t' = dsPods t" for name t
    using del [of "deBase E" name t] assms(2) by simp
  obtain t1 where t1: "on_base (delete_object (deBase E) Route) (ds_call s) = (t1, None)"
    "bcObjects (dsBase t1) = (bcObjects (dsBase s))(Route := None)" "dsPods t1 = dsPods s" using plain [of Route "ds_call s"] by auto
  obtain t2 where t2: "on_base (delete_object (with_class E None) StatefulSet) t1 = (t2, None)"
    "bcObjects (dsBase t2) = (bcObjects (dsBase t1))(StatefulSet := None)" "dsPods t2 = dsPods t1"
    using del [of "with_class E None" StatefulSet t1] assms(3) by (auto simp: wc)
  obtain t3 where t3: "on_base (delete_object (deBase E) DataServiceService) t2 = (t3, None)"
    "bcObjects (dsBase t3) = (bcObjects (dsBase t2))(DataServiceService := None)" "dsPods t3 = dsPods t2" using plain by blast
  obtain t4 where t4: "on_base (delete_object (deBase E) TLSSecret) t3 = (t4, None)"
    "bcObjects (dsBase t4) = (bcObjects (dsBase t3))(TLSSecret := None)" "dsPods t4 = dsPods t3" using plain by blast
  obtain t5 where t5: "on_base (delete_object (deBase E) PodDisruptionBudget) t4 = (t5, None)"
    "bcObjects (dsBase t5) = (bcObjects (dsBase t4))(PodDisruptionBudget := None)" "dsPods t5 = dsPods t4" using plain by blast
  have "ds_Reconcile E s = (t5, None)"
    using assms(1,4,5) t1(1) t2(1) t3(1) t4(1) t5(1) by (simp add: ds_Reconcile_def ds_read_def remove_data_service_def)
  moreover have "bcObjects (dsBase t5) = (bcObjects (dsBase s)) |` (- data_service_objects)"
    by (auto simp: t1(2) t2(2) t3(2) t4(2) t5(2) data_service_objects_def restrict_map_def)
  ultimately show ?thesis using t1(3) t2(3) t3(3) t4(3) t5(3) by auto
qed

section \<open>Installation\<close>

text \<open>
  What the installation relies on: the manifests can be built, \<open>controllerutil.CreateOrUpdate\<close>
  stores an object under the name when the mutation gives one, merging succeeds, and an
  emptied anti-affinity is empty.
\<close>

definition stores_objects :: "'obj base_env \<Rightarrow> bool" where
  "stores_objects B \<longleftrightarrow>
     (\<forall>name obj f s. (\<forall>x. \<exists>y. f x = Inr y) \<longrightarrow>
        (\<exists>y s'. beCreateOrUpdate B name obj f s = (s', None) \<and> bcObjects s' = (bcObjects s)(name \<mapsto> y))) \<and>
     (\<forall>a b. \<exists>c. beMerge B a b = Inr c) \<and> retry_ok ((=) KConflict) (beRetryPlain B)"

definition installs :: "'obj ds_env \<Rightarrow> bool" where
  "installs E \<longleftrightarrow> ds_no_faults E \<and> stores_objects (deBase E) \<and> retry_ok ((=) KConflict) (dsRetry E) \<and>
     (\<forall>name. \<exists>obj. beManifest (deBase E) name = Inr obj) \<and> (\<forall>c. \<exists>obj. deStatefulSet E c = Inr obj) \<and>
     (\<forall>obj. \<exists>obj'. deSetController E obj = Inr obj') \<and>
     (\<forall>obj. required_terms (deAffinity E (deSetRequired E [] obj)) = [])"

lemma retried_store:
  assumes "stores_objects B" "\<forall>x. \<exists>y. f x = Inr y"
  shows "\<exists>t' y. on_base (beRetryPlain B (beCreateOrUpdate B name obj f)) t = (t', None) \<and>
    bcObjects (dsBase t') = (bcObjects (dsBase t))(name \<mapsto> y)"
proof -
  obtain y s' where r: "beCreateOrUpdate B name obj f (dsBase t) = (s', None)"
    and o: "bcObjects s' = (bcObjects (dsBase t))(name \<mapsto> y)"
    using assms unfolding stores_objects_def by blast
  have "retry_ok ((=) KConflict) (beRetryPlain B)" using assms(1) by (simp add: stores_objects_def)
  then have "beRetryPlain B (beCreateOrUpdate B name obj f) (dsBase t) = (s', None)"
    by (rule retry_ok_first [where f = "beCreateOrUpdate B name obj f", OF _ r])
  then show ?thesis using o by (auto simp: on_base_def)
qed

lemma factory_store:
  assumes "stores_objects B" "beManifest B name = Inr obj"
  shows "\<exists>t' y. on_base (Factory_CreateOrUpdate B owner name) t = (t', None) \<and>
    bcObjects (dsBase t') = (bcObjects (dsBase t))(name \<mapsto> y)"
proof -
  let ?f = "\<lambda>current. case beManifest B name of
                Inl err \<Rightarrow> Inl (Panic ''nil pointer dereference'')
              | Inr updateObj \<Rightarrow>
                  beMerge B current (if owner then beSetControllerReference B updateObj else updateObj)"
  have "\<forall>x. \<exists>y. ?f x = Inr y" using assms by (simp add: stores_objects_def)
  from retried_store [where f = ?f, OF assms(1) this, of name obj t] show ?thesis
    using assms(2) by (simp add: on_base_def Factory_CreateOrUpdate_def)
qed

lemma secret_installed:
  assumes "installs E"
  shows "\<exists>t' y. secret_step E t = (t', None) \<and> bcObjects (dsBase t') = (bcObjects (dsBase t))(TLSSecret \<mapsto> y) \<and>
    (\<forall>x. ds_object TLSSecret t = Some x \<longrightarrow> y = x)"
proof -
  obtain a b where ab: "beManifest (deBase E) TLSSecret = Inr a" "deSetController E a = Inr b"
    using assms unfolding installs_def by metis
  have nf: "ds_no_faults E" using assms by (simp add: installs_def)
  show ?thesis
  proof (cases "ds_object TLSSecret t")
    case None
    then show ?thesis using ab nf by (auto simp: secret_step_def ds_read_def ds_put_def base_call_def)
  next
    case (Some x)
    then have "bcObjects (dsBase (ds_call t)) = (bcObjects (dsBase t))(TLSSecret \<mapsto> x)" by (auto simp: ds_object_def)
    then show ?thesis using ab nf Some by (auto simp: secret_step_def ds_read_def)
  qed
qed

lemma stateful_set_installed:
  assumes "installs E"
  shows "\<exists>t' y. stateful_set_step E m t = (t', None) \<and> bcObjects (dsBase t') = (bcObjects (dsBase t))(StatefulSet \<mapsto> y)"
proof -
  have nf: "ds_no_faults E" using assms by (simp add: installs_def)
  obtain t1 r where g: "getStorageClassName E m t = (t1, r)" by fastforce
  note c = storage_class_result [OF nf g]
  have "\<exists>obj. deStatefulSet E (chosen_class E m t) = Inr obj" using assms by (simp add: installs_def)
  then obtain obj where "beManifest (with_class E (chosen_class E m t)) StatefulSet = Inr obj" by (auto simp: with_class_def)
  moreover have "stores_objects (with_class E (chosen_class E m t))"
    using assms by (simp add: installs_def with_class_def stores_objects_def)
  ultimately show ?thesis using factory_store [of "with_class E (chosen_class E m t)" StatefulSet obj True t1] g c
    by (auto simp: stateful_set_step_def)
qed

lemma affinity_cleared:
  assumes "installs E" "ds_object StatefulSet t = Some sts"
  shows "\<exists>t' y. affinity_step E t = (t', None) \<and> bcObjects (dsBase t') = (bcObjects (dsBase t))(StatefulSet \<mapsto> y) \<and>
    required_terms (deAffinity E y) = []"
proof -
  have "\<exists>t' y. affinity_attempt E t = (t', None) \<and> bcObjects (dsBase t') = (bcObjects (dsBase t))(StatefulSet \<mapsto> y) \<and>
      required_terms (deAffinity E y) = []"
  proof (cases "required_terms (deAffinity E sts) = []")
    case True
    have "bcObjects (dsBase t) = (bcObjects (dsBase t))(StatefulSet \<mapsto> sts)" using assms(2) by (auto simp: ds_object_def)
    then show ?thesis using True assms by (auto simp: affinity_attempt_def ds_read_def installs_def intro!: exI [of _ sts])
  next
    case False
    then show ?thesis using assms by (auto simp: affinity_attempt_def ds_read_def ds_put_def installs_def base_call_def)
  qed
  then obtain t' y where r: "affinity_attempt E t = (t', None)" and y: "bcObjects (dsBase t') = (bcObjects (dsBase t))(StatefulSet \<mapsto> y)"
    "required_terms (deAffinity E y) = []" by blast
  have "retry_ok ((=) KConflict) (dsRetry E)" using assms(1) by (simp add: installs_def)
  then have "dsRetry E (affinity_attempt E) t = (t', None)" by (rule retry_ok_first [where f = "affinity_attempt E", OF _ r])
  then show ?thesis using y by (auto simp: affinity_step_def)
qed

lemma delete_for_conditions_objects:
  assumes "ds_no_faults E" "delete_for_conditions E pod cs t = (t', e)"
  shows "e = None" "bcObjects (dsBase t') = bcObjects (dsBase t)"
  using assms(2)
  by (induction cs arbitrary: t) (auto simp: delete_pod_def assms(1) split: if_splits)

lemma delete_stuck_pods_objects:
  assumes "ds_no_faults E" "delete_stuck_pods E pods t = (t', e)"
  shows "e = None" "bcObjects (dsBase t') = bcObjects (dsBase t)"
  using assms(2)
  by (induction pods arbitrary: t)
     (auto dest: delete_for_conditions_objects [OF assms(1)] split: if_splits prod.splits option.splits)

lemma pods_step_ok:
  assumes "ds_no_faults E"
  shows "\<exists>t'. pods_step E t = (t', None) \<and> bcObjects (dsBase t') = bcObjects (dsBase t)"
proof -
  obtain t' e where d: "delete_stuck_pods E (filter data_service_pod (dsPods t)) (ds_call t) = (t', e)" by fastforce
  then show ?thesis using delete_stuck_pods_objects [OF assms d] assms by (simp add: pods_step_def)
qed

lemma route_installed:
  assumes "installs E"
  shows "\<exists>t' r. route_step E m t = (t', None) \<and> bcObjects (dsBase t') = (bcObjects (dsBase t))(Route := r) \<and>
    (r \<noteq> None \<longleftrightarrow> \<not> ToBool (meRouteDisabled m))"
proof -
  obtain base where b: "beManifest (deBase E) Route = Inr base" using assms unfolding installs_def by metis
  define route where "route = (case meRouteSpec m of None \<Rightarrow> base | Some spec \<Rightarrow> deRouteSpec E spec base)"
  show ?thesis
  proof (cases "ToBool (meRouteDisabled m)")
    case True
    then show ?thesis using b assms
      by (auto simp: route_step_def on_base_def delete_object_def installs_def ds_no_faults_def base_call_def)
  next
    case False
    have s: "stores_objects (deBase E)" using assms by (simp add: installs_def)
    then have "\<forall>x. \<exists>y. beMerge (deBase E) (beSetControllerReference (deBase E) x) route = Inr y" by (simp add: stores_objects_def)
    from retried_store [where f = "\<lambda>current. beMerge (deBase E) (beSetControllerReference (deBase E) current) route", OF s this,
        of Route route t] show ?thesis
      using b False by (auto simp: route_step_def route_def Let_def)
  qed
qed

text \<open>
  C32: With the data service enabled, an undisturbed run ends without an error with the secret,
  the disruption budget, the service and the stateful set in place, the route exactly when
  it is not disabled, and no required anti-affinity left in the stateful set. An existing
  certificate is kept, and every object that is not the data service's stays as it is.
\<close>

theorem enabled_data_service_installed:
  assumes "installs E" "bcMeterBase (dsBase s) = Some m" "IsDataServiceEnabled m"
  shows "\<exists>s'. ds_Reconcile E s = (s', None) \<and>
    (\<forall>name\<in>{TLSSecret, PodDisruptionBudget, DataServiceService, StatefulSet}. ds_object name s' \<noteq> None) \<and>
    (ds_object Route s' \<noteq> None \<longleftrightarrow> \<not> ToBool (meRouteDisabled m)) \<and>
    (\<forall>sts. ds_object StatefulSet s' = Some sts \<longrightarrow> required_terms (deAffinity E sts) = []) \<and>
    (\<forall>x. ds_object TLSSecret s = Some x \<longrightarrow> ds_object TLSSecret s' = Some x) \<and>
    (\<forall>name. name \<notin> data_service_objects \<longrightarrow> ds_object name s' = ds_object name s)"
proof -
  have B: "stores_objects (deBase E)" and nf: "ds_no_faults E" using assms(1) by (simp_all add: installs_def)
  obtain o2 o3 where man: "beManifest (deBase E) PodDisruptionBudget = Inr o2" "beManifest (deBase E) DataServiceService = Inr o3"
    using assms(1) unfolding installs_def by metis
  obtain t1 y1 where t1: "secret_step E (ds_call s) = (t1, None)" "bcObjects (dsBase t1) = (bcObjects (dsBase s))(TLSSecret \<mapsto> y1)"
    "\<forall>x. ds_object TLSSecret s = Some x \<longrightarrow> y1 = x" using secret_installed [OF assms(1), of "ds_call s"] by auto
  obtain t2 y2 where t2: "on_base (Factory_CreateOrUpdate (deBase E) True PodDisruptionBudget) t1 = (t2, None)"
    "bcObjects (dsBase t2) = (bcObjects (dsBase t1))(PodDisruptionBudget \<mapsto> y2)" using factory_store [OF B man(1)] by blast
  obtain t3 y3 where t3: "on_base (Factory_CreateOrUpdate (deBase E) True DataServiceService) t2 = (t3, None)"
    "bcObjects (dsBase t3) = (bcObjects (dsBase t2))(DataServiceService \<mapsto> y3)" using factory_store [OF B man(2)] by blast
  obtain t4 y4 where t4: "stateful_set_step E m t3 = (t4, None)" "bcObjects (dsBase t4) = (bcObjects (dsBase t3))(StatefulSet \<mapsto> y4)"
    using stateful_set_installed [OF assms(1)] by blast
  have "ds_object StatefulSet t4 = Some y4" by (simp add: ds_object_def t4(2))
  then obtain t5 y5 where t5: "affinity_step E t4 = (t5, None)" "bcObjects (dsBase t5) = (bcObjects (dsBase t4))(StatefulSet \<mapsto> y5)"
    "required_terms (deAffinity E y5) = []" using affinity_cleared [OF assms(1)] by blast
  obtain t6 where t6: "pods_step E t5 = (t6, None)" "bcObjects (dsBase t6) = bcObjects (dsBase t5)" using pods_step_ok [OF nf] by blast
  obtain t7 r where t7: "route_step E m t6 = (t7, None)" "bcObjects (dsBase t7) = (bcObjects (dsBase t6))(Route := r)"
    "r \<noteq> None \<longleftrightarrow> \<not> ToBool (meRouteDisabled m)" using route_installed [OF assms(1)] by blast
  have "ds_Reconcile E s = (t7, None)"
    using assms(2,3) nf t1(1) t2(1) t3(1) t4(1) t5(1) t6(1) t7(1) by (simp add: ds_Reconcile_def ds_read_def install_data_service_def)
  moreover have "bcObjects (dsBase t7) = (bcObjects (dsBase s))(TLSSecret \<mapsto> y1, PodDisruptionBudget \<mapsto> y2,
      DataServiceService \<mapsto> y3, StatefulSet \<mapsto> y5, Route := r)"
    by (simp add: t1(2) t2(2) t3(2) t4(2) t5(2) t6(2) t7(2))
  ultimately show ?thesis using t1(3) t5(3) t7(3)
    by (auto simp: ds_object_def data_service_objects_def TLSSecret_def PodDisruptionBudget_def DataServiceService_def StatefulSet_def
        Route_def)
qed

section \<open>Witnesses\<close>

definition demo_ds_env :: "string ds_env" where
  "demo_ds_env = \<lparr>deBase = demo_base_env, deStatefulSet = (\<lambda>c. Inr ''sts''), deSetController = Inr, deRouteSpec = (\<lambda>spec r. spec),
     deAffinity = (\<lambda>obj. if obj = ''sts'' then Some (Some [''term'']) else None), deSetRequired = (\<lambda>terms obj. ''cleared''),
     deVolumeClaimClasses = (\<lambda>obj. []), dsRetry = demo_retry (Suc 0) ((=) KConflict)\<rparr>"

definition demo_ds_pod :: "string \<Rightarrow> string \<Rightarrow> ds_pod" where
  "demo_ds_pod name phase = \<lparr>dpNamespace = ''ns'', dpName = name, dpLabels = [''app'' \<mapsto> ''rhm-data-service''], dpAffinity = Some (Some [''term'']),
     dpPhase = phase, dpConditions = [\<lparr>pnType = ''PodScheduled'', pnReason = ''Unschedulable'', pnStatus = ''False''\<rparr>]\<rparr>"

definition demo_ds :: "bool option \<Rightarrow> string ds_state" where
  "demo_ds enabled = \<lparr>dsBase = (demo_base_cluster ''week'')\<lparr>bcMeterBase := Some (demo_base\<lparr>meDataServiceEnabled := enabled\<rparr>),
       bcObjects := [TLSSecret \<mapsto> ''old'', ''other'' \<mapsto> ''kept'']\<rparr>,
     dsPods = [demo_ds_pod ''a'' ''Pending'', demo_ds_pod ''b'' ''Running''], dsClaim = None, dsDeployment = None\<rparr>"

lemma demo_installs: "installs demo_ds_env"
  by (auto simp: installs_def stores_objects_def ds_no_faults_def demo_ds_env_def demo_base_env_def demo_retry_ok required_terms_def)

lemma demo_ds_enabled:
  "bcMeterBase (dsBase (demo_ds b)) = Some (demo_base\<lparr>meDataServiceEnabled := b\<rparr>)"
  "IsDataServiceEnabled (demo_base\<lparr>meDataServiceEnabled := b\<rparr>) \<longleftrightarrow> b \<noteq> Some False"
  by (auto simp: demo_ds_def IsDataServiceEnabled_def split: option.splits)

theorem enabled_data_service_installed_witness:
  "\<exists>s'. ds_Reconcile demo_ds_env (demo_ds None) = (s', None) \<and> ds_object StatefulSet s' \<noteq> None \<and> ds_object Route s' \<noteq> None \<and>
     ds_object TLSSecret s' = Some ''old'' \<and> ds_object ''other'' s' = Some ''kept''"
proof -
  have "ds_object TLSSecret (demo_ds None) = Some ''old''" "ds_object ''other'' (demo_ds None) = Some ''kept''"
    "''other'' \<notin> data_service_objects" "\<not> ToBool (meRouteDisabled (demo_base\<lparr>meDataServiceEnabled := None\<rparr>))"
    by (simp_all add: ds_object_def demo_ds_def data_service_objects_def TLSSecret_def PodDisruptionBudget_def DataServiceService_def
        StatefulSet_def Route_def demo_base_def)
  with enabled_data_service_installed [OF demo_installs demo_ds_enabled(1) iffD2 [OF demo_ds_enabled(2)], of None]
  show ?thesis by auto
qed

theorem disabled_data_service_removed_witness:
  "\<exists>s'. ds_Reconcile demo_ds_env (demo_ds (Some False)) = (s', None) \<and> ds_object TLSSecret s' = None \<and>
     ds_object ''other'' s' = Some ''kept''"
proof -
  have "ds_no_faults demo_ds_env" "\<forall>name. \<exists>obj. beManifest (deBase demo_ds_env) name = Inr obj"
    "\<exists>obj. deStatefulSet demo_ds_env None = Inr obj"
    using demo_installs by (auto simp: installs_def)
  moreover have "\<not> IsDataServiceEnabled (demo_base\<lparr>meDataServiceEnabled := Some False\<rparr>)" by (simp add: demo_ds_enabled(2))
  ultimately obtain s' where "ds_Reconcile demo_ds_env (demo_ds (Some False)) = (s', None)"
    "bcObjects (dsBase s') = (bcObjects (dsBase (demo_ds (Some False)))) |` (- data_service_objects)"
    using disabled_data_service_removed [of demo_ds_env "demo_ds (Some False)"] demo_ds_enabled(1) by blast
  then show ?thesis
    by (simp add: ds_object_def demo_ds_def data_service_objects_def TLSSecret_def PodDisruptionBudget_def DataServiceService_def
        StatefulSet_def Route_def)
qed

theorem only_stuck_pods_deleted_witness:
  "\<exists>s' err. ds_Reconcile demo_ds_env (demo_ds None) = (s', err) \<and> demo_ds_pod ''b'' ''Running'' \<in> set (dsPods s')"
proof -
  obtain s' err where run: "ds_Reconcile demo_ds_env (demo_ds None) = (s', err)" by fastforce
  have "distinct (map pod_key (dsPods (demo_ds None)))" "demo_ds_pod ''b'' ''Running'' \<in> set (dsPods (demo_ds None))"
    by (simp_all add: demo_ds_def demo_ds_pod_def pod_key_def)
  moreover have "retry_ok ((=) KConflict) (dsRetry demo_ds_env)" using demo_installs by (simp add: installs_def)
  moreover have "\<not> stuck_pod (demo_ds_pod ''b'' ''Running'')" by (simp add: stuck_pod_def demo_ds_pod_def)
  ultimately show ?thesis using only_stuck_pods_deleted [OF _ _ run] run by blast
qed

end
