(* ===== verification/Manifests.thy ===== *)
theory Manifests
  imports DataServices "HOL-Library.Signed_Division"
begin

text \<open>
  The manifest factory (\<open>v2/pkg/manifests/factory.go\<close>, \<open>inject.go\<close>) and the changes of a
  container's environment (\<open>v2/pkg/utils/envvar/envvar.go\<close>, \<open>proxy.go\<close>): images, resources,
  arguments, storage and replicas of the workloads the operator installs.

  The decoded assets, the proxy settings, the generator of certificates and the overrides
  of the subscription are fields of an environment. What the code does not touch is left out
  of the objects.
\<close>

section \<open>Environment variables\<close>

record env_var =
  evName :: string
  evValue :: string
  evFieldPath :: "string option"

record envVarAction =
  vaAdd :: bool
  vaRemove :: bool
  vaVar :: env_var

type_synonym Changes = "envVarAction list"

definition env_Add :: "env_var \<Rightarrow> envVarAction" where
  "env_Add v = \<lparr>vaAdd = True, vaRemove = False, vaVar = v\<rparr>"

definition env_Remove :: "env_var \<Rightarrow> envVarAction" where
  "env_Remove v = \<lparr>vaAdd = False, vaRemove = True, vaVar = v\<rparr>"

definition put_env :: "env_var \<Rightarrow> (string \<rightharpoonup> env_var) \<Rightarrow> (string \<rightharpoonup> env_var)" where
  "put_env v m = m(evName v \<mapsto> v)"

definition apply_action :: "envVarAction \<Rightarrow> (string \<rightharpoonup> env_var) \<Rightarrow> (string \<rightharpoonup> env_var)" where
  "apply_action a m =
     (let m1 = (if vaAdd a then put_env (vaVar a) m else m)
      in if vaRemove a then m1(evName (vaVar a) := None) else m1)"

definition env_map :: "Changes \<Rightarrow> env_var list \<Rightarrow> (string \<rightharpoonup> env_var)" where
  "env_map changes env = fold apply_action changes (fold put_env env Map.empty)"

text \<open>The names in the order in which the map happens to be visited.\<close>

definition Merge_env :: "((string \<rightharpoonup> env_var) \<Rightarrow> string list) \<Rightarrow> Changes \<Rightarrow> env_var list \<Rightarrow> env_var list" where
  "Merge_env order changes env =
     (let envVars = env_map changes env
      in sort_key evName (map (\<lambda>name. the (envVars name)) (order envVars)))"

record proxy_config =
  pxHTTPProxy :: string
  pxHTTPSProxy :: string
  pxNoProxy :: string

definition plain_var :: "string \<Rightarrow> string \<Rightarrow> env_var" where
  "plain_var name v = \<lparr>evName = name, evValue = v, evFieldPath = None\<rparr>"

definition field_var :: "string \<Rightarrow> string \<Rightarrow> env_var" where
  "field_var name path = \<lparr>evName = name, evValue = [], evFieldPath = Some path\<rparr>"

definition proxy_change :: "string \<Rightarrow> string \<Rightarrow> envVarAction" where
  "proxy_change name v = (if v \<noteq> [] then env_Add (plain_var name v) else env_Remove (plain_var name []))"

definition AddHttpsProxy :: "proxy_config \<Rightarrow> Changes" where
  "AddHttpsProxy p =
     [proxy_change ''HTTP_PROXY'' (pxHTTPProxy p), proxy_change ''HTTPS_PROXY'' (pxHTTPSProxy p),
      proxy_change ''NO_PROXY'' (pxNoProxy p)]"

section \<open>Containers and pods\<close>

record probe =
  pbPath :: string
  pbPort :: int
  pbTimeoutSeconds :: int
  pbInitialDelaySeconds :: int
  pbPeriodSeconds :: int
  pbFailureThreshold :: int

record container =
  ctName :: string
  ctImage :: string
  ctArgs :: "string list"
  ctEnv :: "env_var list"
  ctLimits :: "smap option"
  ctRequests :: "smap option"
  ctLivenessProbe :: "probe option"
  ctReadinessProbe :: "probe option"
  ctVolumeMounts :: "(string \<times> string \<times> bool) list"

datatype volume = ConfigMapVolume string string | TokenVolume string string int string

text \<open>\<open>psPreferred\<close>: the namespaces of each preferred anti-affinity term, when there is an anti-affinity.\<close>

record pod_spec =
  psContainers :: "container list"
  psVolumes :: "volume list"
  psPreferred :: "string list list option"

record related_images =
  imReporter :: string
  imKubeRbacProxy :: string
  imMetricState :: string
  imAuthChecker :: string
  imDQLite :: string
  imMeterDefFileServer :: string

text \<open>
  \<open>faResources\<close>: limits and requests by container, when the configuration has them.
  \<open>faInject\<close>: the overrides of the subscription, in their order, with the name an error gives them.
\<close>

record factory =
  faNamespace :: string
  faImages :: related_images
  faProxy :: proxy_config
  faOrder :: "(string \<rightharpoonup> env_var) \<Rightarrow> string list"
  faResources :: "(string \<rightharpoonup> (string \<times> string) list \<times> (string \<times> string) list) option"
  faInject :: "(string \<times> (pod_spec \<Rightarrow> pod_spec \<times> go_error option)) list"
  faRetryLimit :: "int option"
  faUploadTargetsOverride :: "string list"
  faReporterSchema :: string
  faDataServiceReplicas :: int
  faMinute :: int
  faCertificates :: "string \<Rightarrow> (bytes \<times> bytes \<times> bytes \<times> bytes) result"

text \<open>Writing to a nil map panics.\<close>

fun write_map :: "(string \<times> string) list \<Rightarrow> smap option \<Rightarrow> smap option result" where
  "write_map [] m = Inr m"
| "write_map ((k, v) # kvs) None = Inl (Panic ''assignment to entry in nil map'')"
| "write_map ((k, v) # kvs) (Some m) = write_map kvs (Some (m(k \<mapsto> v)))"

definition updateContainerResources :: "factory \<Rightarrow> container \<Rightarrow> container result" where
  "updateContainerResources f c =
     (case faResources f of
        None \<Rightarrow> Inr c
      | Some containers \<Rightarrow>
          (case containers (ctName c) of
             None \<Rightarrow> Inr c
           | Some (limits, requests) \<Rightarrow>
               (case write_map limits (ctLimits c) of
                  Inl p \<Rightarrow> Inl p
                | Inr limits' \<Rightarrow>
                    (case write_map requests (ctRequests c) of
                       Inl p \<Rightarrow> Inl p
                     | Inr requests' \<Rightarrow> Inr (c\<lparr>ctLimits := limits', ctRequests := requests'\<rparr>)))))"

definition addPodName :: Changes where
  "addPodName = [env_Add (field_var ''POD_NAME'' ''metadata.name''), env_Add (field_var ''POD_NAMESPACE'' ''metadata.namespace'')]"

definition authcheck_container :: "factory \<Rightarrow> container \<Rightarrow> container" where
  "authcheck_container f c =
     c\<lparr>ctImage := imAuthChecker (faImages f), ctArgs := [],
       ctLivenessProbe := Some \<lparr>pbPath = ''/healthz'', pbPort = 28088, pbTimeoutSeconds = 5, pbInitialDelaySeconds = 0,
         pbPeriodSeconds = 30, pbFailureThreshold = 3\<rparr>,
       ctReadinessProbe := Some \<lparr>pbPath = ''/readyz'', pbPort = 28088, pbTimeoutSeconds = 5, pbInitialDelaySeconds = 15,
         pbPeriodSeconds = 30, pbFailureThreshold = 3\<rparr>\<rparr>"

definition ReplaceImages :: "factory \<Rightarrow> container \<Rightarrow> container result" where
  "ReplaceImages f c0 =
     (case updateContainerResources f c0 of
        Inl p \<Rightarrow> Inl p
      | Inr c \<Rightarrow>
          (let im = faImages f; changes = AddHttpsProxy (faProxy f);
               (c1, changes1) =
                 (if starts_with ''kube-rbac-proxy'' (ctName c) then (c\<lparr>ctImage := imKubeRbacProxy im\<rparr>, changes)
                  else if ctName c = ''metric-state'' then (c\<lparr>ctImage := imMetricState im\<rparr>, changes)
                  else if ctName c = ''authcheck'' then (authcheck_container f c, changes @ addPodName)
                  else if ctName c = ''reporter'' then (c\<lparr>ctImage := imReporter im\<rparr>, changes)
                  else if ctName c = ''rhm-data-service'' then (c\<lparr>ctImage := imDQLite im\<rparr>, changes)
                  else if ctName c = ''rhm-meterdefinition-file-server'' then (c\<lparr>ctImage := imMeterDefFileServer im\<rparr>, changes)
                  else (c, changes))
           in Inr (c1\<lparr>ctEnv := Merge_env (faOrder f) changes1 (ctEnv c1)\<rparr>)))"

definition UpdateEnvVar :: "factory \<Rightarrow> container \<Rightarrow> bool \<Rightarrow> container" where
  "UpdateEnvVar f c isDisconnected =
     c\<lparr>ctEnv := Merge_env (faOrder f) [env_Add (plain_var ''IS_DISCONNECTED'' (FormatBool isDisconnected))] (ctEnv c)\<rparr>"

text \<open>The overrides run until one fails; the pod keeps what was changed before.\<close>

fun injectSubscriptionConfig ::
  "(string \<times> (pod_spec \<Rightarrow> pod_spec \<times> go_error option)) list \<Rightarrow> pod_spec \<Rightarrow> pod_spec \<times> go_error option" where
  "injectSubscriptionConfig [] p = (p, None)"
| "injectSubscriptionConfig ((what, inject) # rest) p =
     (case inject p of
        (p1, Some err) \<Rightarrow> (p1, Some (Err (''failed to inject '' @ what @ '' - '' @ error_string err)))
      | (p1, None) \<Rightarrow> injectSubscriptionConfig rest p1)"

fun map_containers :: "(container \<Rightarrow> container result) \<Rightarrow> container list \<Rightarrow> container list result" where
  "map_containers g [] = Inr []"
| "map_containers g (c # cs) =
     (case g c of
        Inl p \<Rightarrow> Inl p
      | Inr c' \<Rightarrow> (case map_containers g cs of Inl p \<Rightarrow> Inl p | Inr cs' \<Rightarrow> Inr (c' # cs')))"

section \<open>Workloads\<close>

definition default_namespace :: "factory \<Rightarrow> string \<Rightarrow> string" where
  "default_namespace f ns = (if ns = [] then faNamespace f else ns)"

record stateful_set =
  sfNamespace :: string
  sfPod :: pod_spec
  sfClaimClasses :: "string option list"
  sfReplicas :: "int option"

definition NewStatefulSet :: "factory \<Rightarrow> stateful_set result \<Rightarrow> stateful_set result" where
  "NewStatefulSet f asset =
     (case asset of Inl err \<Rightarrow> Inl err | Inr d \<Rightarrow> Inr (d\<lparr>sfNamespace := default_namespace f (sfNamespace d)\<rparr>))"

text \<open>\<open>strings.NewReplacer\<close> for the one placeholder of the arguments.\<close>

function replace_namespace :: "string \<Rightarrow> string \<Rightarrow> string" where
  "replace_namespace ns s =
     (if s = [] then []
      else if starts_with ''{{NAMESPACE}}'' s then ns @ replace_namespace ns (drop 13 s)
      else hd s # replace_namespace ns (tl s))"
  by pat_completeness auto
termination by (relation "measure (\<lambda>(ns, s). length s)") auto

declare replace_namespace.simps [simp del]

definition data_service_container :: "factory \<Rightarrow> container \<Rightarrow> container result" where
  "data_service_container f c =
     (case ReplaceImages f c of
        Inl p \<Rightarrow> Inl p
      | Inr c1 \<Rightarrow> Inr (c1\<lparr>ctArgs := map (replace_namespace (faNamespace f)) (ctArgs c1)\<rparr>))"

text \<open>The conversion of an \<open>int\<close> to an \<open>int32\<close>.\<close>

definition int32 :: "int \<Rightarrow> int" where
  "int32 n = (n + 2 ^ 31) mod 2 ^ 32 - 2 ^ 31"

text \<open>A panic is \<open>Inl\<close>; an error leaves the stateful set as far as it was changed.\<close>

definition UpdateDataServiceStatefulSet ::
  "factory \<Rightarrow> stateful_set result \<Rightarrow> string option \<Rightarrow> stateful_set \<Rightarrow> (stateful_set \<times> go_error option) result" where
  "UpdateDataServiceStatefulSet f asset storageClassName sts =
     (case NewStatefulSet f asset of
        Inl err \<Rightarrow> Inr (sts, Some err)
      | Inr sts2 \<Rightarrow>
          (let sts1 = sts\<lparr>sfPod := sfPod sts2, sfClaimClasses := sfClaimClasses sts2, sfReplicas := sfReplicas sts2\<rparr> in
           case map_containers (data_service_container f) (psContainers (sfPod sts1)) of
             Inl p \<Rightarrow> Inl p
           | Inr cs \<Rightarrow>
               (let pod = (sfPod sts1)\<lparr>psContainers := cs,
                      psPreferred := map_option (map (\<lambda>_. [faNamespace f])) (psPreferred (sfPod sts1))\<rparr>;
                    sts3 = sts1\<lparr>sfClaimClasses := map (\<lambda>_. storageClassName) (sfClaimClasses sts1)\<rparr>
                in case injectSubscriptionConfig (faInject f) pod of
                     (pod1, Some err) \<Rightarrow> Inr (sts3\<lparr>sfPod := pod1\<rparr>, Some err)
                   | (pod1, None) \<Rightarrow>
                       Inr (sts3\<lparr>sfPod := pod1, sfReplicas := Some (int32 (faDataServiceReplicas f))\<rparr>, None))))"

text \<open>The error of the update is dropped.\<close>

definition NewDataServiceStatefulSet :: "factory \<Rightarrow> stateful_set result \<Rightarrow> string option \<Rightarrow> stateful_set result" where
  "NewDataServiceStatefulSet f asset storageClassName =
     (case NewStatefulSet f asset of
        Inl err \<Rightarrow> Inl err
      | Inr sts \<Rightarrow>
          (case UpdateDataServiceStatefulSet f asset storageClassName sts of
             Inl p \<Rightarrow> Inl p
           | Inr (sts1, _) \<Rightarrow> Inr sts1))"

record disruption_budget =
  pdNamespace :: string
  pdMinAvailable :: "int option"

definition NewPodDisruptionBudget :: "factory \<Rightarrow> disruption_budget result \<Rightarrow> disruption_budget result" where
  "NewPodDisruptionBudget f asset =
     (case asset of
        Inl err \<Rightarrow> Inl err
      | Inr p \<Rightarrow>
          Inr (p\<lparr>pdNamespace := default_namespace f (pdNamespace p),
                 pdMinAvailable := Some (int32 (int32 (faDataServiceReplicas f) sdiv 2 + 1))\<rparr>))"

record metric_deployment =
  dyNamespace :: string
  dyMaxSurge :: string
  dyMaxUnavailable :: string
  dyPod :: pod_spec

definition NewDeployment :: "factory \<Rightarrow> metric_deployment result \<Rightarrow> metric_deployment result" where
  "NewDeployment f asset =
     (case asset of
        Inl err \<Rightarrow> Inl err
      | Inr d \<Rightarrow>
          Inr (d\<lparr>dyNamespace := default_namespace f (dyNamespace d), dyMaxSurge := ''25%'', dyMaxUnavailable := ''25%''\<rparr>))"

definition MetricStateDeployment :: "factory \<Rightarrow> metric_deployment result \<Rightarrow> metric_deployment result" where
  "MetricStateDeployment f asset =
     (case NewDeployment f asset of
        Inl err \<Rightarrow> Inl err
      | Inr d \<Rightarrow>
          (case map_containers (ReplaceImages f) (psContainers (dyPod d)) of
             Inl p \<Rightarrow> Inl p
           | Inr cs \<Rightarrow>
               (case injectSubscriptionConfig (faInject f) ((dyPod d)\<lparr>psContainers := cs\<rparr>) of
                  (pod, Some err) \<Rightarrow> Inl (Err (''failed to inject subscription config - '' @ error_string err))
                | (pod, None) \<Rightarrow> Inr (d\<lparr>dyNamespace := faNamespace f, dyPod := pod\<rparr>))))"

text \<open>An endpoint has its server name and the name of the secret with its token, behind a pointer.\<close>

record endpoint =
  enServerName :: "string option"
  enAuthorization :: "string option option"

definition addBearerToken :: "endpoint \<Rightarrow> string \<Rightarrow> endpoint result" where
  "addBearerToken e secretName =
     (case enAuthorization e of
        None \<Rightarrow> Inl (Panic ''nil pointer dereference'')
      | Some _ \<Rightarrow> Inr (e\<lparr>enAuthorization := Some (Some secretName)\<rparr>))"

definition monitor_endpoint :: "factory \<Rightarrow> string option \<Rightarrow> endpoint \<Rightarrow> endpoint result" where
  "monitor_endpoint f secretName e =
     (let e1 = e\<lparr>enServerName := Some (''rhm-metric-state-service.'' @ faNamespace f @ ''.svc'')\<rparr> in
      case secretName of
        Some name \<Rightarrow> if enAuthorization e1 = None then addBearerToken e1 name else Inr e1
      | None \<Rightarrow> Inr e1)"

fun monitor_endpoints :: "factory \<Rightarrow> string option \<Rightarrow> endpoint list \<Rightarrow> endpoint list result" where
  "monitor_endpoints f secretName [] = Inr []"
| "monitor_endpoints f secretName (e # es) =
     (case monitor_endpoint f secretName e of
        Inl p \<Rightarrow> Inl p
      | Inr e' \<Rightarrow> (case monitor_endpoints f secretName es of Inl p \<Rightarrow> Inl p | Inr es' \<Rightarrow> Inr (e' # es')))"

definition MetricStateServiceMonitor ::
  "factory \<Rightarrow> (string \<times> endpoint list) result \<Rightarrow> string option \<Rightarrow> (string \<times> endpoint list) result" where
  "MetricStateServiceMonitor f asset secretName =
     (case asset of
        Inl err \<Rightarrow> Inl err
      | Inr (ns, es) \<Rightarrow>
          (case monitor_endpoints f secretName es of Inl p \<Rightarrow> Inl p | Inr es' \<Rightarrow> Inr (faNamespace f, es')))"

text \<open>
  The bundle is the certificate of the authority, its key, the certificate of the server and
  its key; the caller names the last two the other way round.
\<close>

definition NewDataServiceTLSSecret ::
  "factory \<Rightarrow> (string \<times> (string \<rightharpoonup> bytes) option) result \<Rightarrow> string \<Rightarrow> (string \<times> (string \<rightharpoonup> bytes)) result" where
  "NewDataServiceTLSSecret f asset commonNamePrefix =
     (case asset of
        Inl err \<Rightarrow> Inl err
      | Inr (ns, data) \<Rightarrow>
          (let commonName = strings_Join ''.'' [commonNamePrefix, faNamespace f, ''svc'', ''cluster'', ''local''] in
           case faCertificates f commonName of
             Inl err \<Rightarrow> Inl err
           | Inr (caCertPEM, caKeyPEM, serverKeyPEM, serverCertPEM) \<Rightarrow>
               Inr (default_namespace f ns,
                    (case data of None \<Rightarrow> Map.empty | Some m \<Rightarrow> m)(''ca.crt'' \<mapsto> caCertPEM, ''ca.key'' \<mapsto> caKeyPEM,
                      ''tls.crt'' \<mapsto> serverKeyPEM, ''tls.key'' \<mapsto> serverCertPEM))))"

section \<open>The reporter's job\<close>

record reporter_job =
  rjNamespace :: string
  rjSchedule :: string
  rjBackoffLimit :: "int option"
  rjTTLSecondsAfterFinished :: "int option"
  rjPod :: pod_spec

definition ToPrometheusArgs :: "string \<Rightarrow> string \<Rightarrow> string \<Rightarrow> string list" where
  "ToPrometheusArgs service namespace portName =
     [''--prometheus-service='' @ service, ''--prometheus-namespace='' @ namespace, ''--prometheus-port='' @ portName]"

definition reporter_args :: "factory \<Rightarrow> bool \<Rightarrow> string list" where
  "reporter_args f userWorkloadEnabled =
     [''--namespace'', faNamespace f,
      ''--dataServiceCertFile=/etc/configmaps/ibm-metrics-operator-serving-certs-ca-bundle/service-ca.crt'',
      ''--dataServiceTokenFile=/etc/data-service-sa/data-service-token'',
      ''--cafile=/etc/configmaps/ibm-metrics-operator-serving-certs-ca-bundle/service-ca.crt''] @
     (if userWorkloadEnabled then ToPrometheusArgs ''thanos-querier'' ''openshift-monitoring'' ''web''
      else ToPrometheusArgs ''rhm-prometheus-meterbase'' (faNamespace f) ''rbac'') @
     (if faUploadTargetsOverride f \<noteq> [] then [''--uploadTargets'', strings_Join '','' (faUploadTargetsOverride f)] else []) @
     (if faReporterSchema f \<noteq> [] then [''--reporterSchema'', faReporterSchema f] else [])"

definition reporter_container :: "factory \<Rightarrow> bool \<Rightarrow> bool \<Rightarrow> container \<Rightarrow> container result" where
  "reporter_container f userWorkloadEnabled isDisconnected c =
     (case ReplaceImages f c of
        Inl p \<Rightarrow> Inl p
      | Inr c1 \<Rightarrow>
          (let c2 = UpdateEnvVar f c1 isDisconnected
           in Inr (c2\<lparr>ctArgs := ctArgs c2 @ reporter_args f userWorkloadEnabled,
                      ctVolumeMounts := ctVolumeMounts c2 @
                        [(''ibm-metrics-operator-serving-certs-ca-bundle'',
                          ''/etc/configmaps/ibm-metrics-operator-serving-certs-ca-bundle'', False),
                         (''data-service-token-vol'', ''/etc/data-service-sa'', True)]\<rparr>)))"

definition NewReporterCronJob :: "factory \<Rightarrow> reporter_job result \<Rightarrow> bool \<Rightarrow> bool \<Rightarrow> reporter_job result" where
  "NewReporterCronJob f asset userWorkloadEnabled isDisconnected =
     (case asset of
        Inl err \<Rightarrow> Inl err
      | Inr j \<Rightarrow>
          (case psContainers (rjPod j) of
             [] \<Rightarrow> Inl (Panic ''index out of range'')
           | c # cs \<Rightarrow>
               (case reporter_container f userWorkloadEnabled isDisconnected c of
                  Inl p \<Rightarrow> Inl p
                | Inr c' \<Rightarrow>
                    (let pod = (rjPod j)\<lparr>psContainers := c' # cs, psVolumes := psVolumes (rjPod j) @
                           [ConfigMapVolume ''ibm-metrics-operator-serving-certs-ca-bundle'' ''ibm-metrics-operator-serving-certs-ca-bundle'',
                            TokenVolume ''data-service-token-vol'' (''rhm-data-service.'' @ faNamespace f @ ''.svc'') 3600
                              ''data-service-token'']\<rparr>
                     in case injectSubscriptionConfig (faInject f) pod of
                          (pod1, Some err) \<Rightarrow> Inl (Err (''failed to inject subscription config - '' @ error_string err))
                        | (pod1, None) \<Rightarrow>
                            Inr (j\<lparr>rjNamespace := default_namespace f (rjNamespace j),
                                   rjSchedule := (if rjSchedule j = [] then Itoa (faMinute f) @ '' * * * *'' else rjSchedule j),
                                   rjBackoffLimit := faRetryLimit f, rjTTLSecondsAfterFinished := Some (86400 * 3),
                                   rjPod := pod1\<rparr>)))))"

section \<open>Merged environments\<close>

definition visits_keys :: "((string \<rightharpoonup> env_var) \<Rightarrow> string list) \<Rightarrow> bool" where
  "visits_keys order \<longleftrightarrow> (\<forall>m. finite (dom m) \<longrightarrow> distinct (order m) \<and> set (order m) = dom m)"

definition env_lookup :: "env_var list \<Rightarrow> (string \<rightharpoonup> env_var)" where
  "env_lookup env = map_of (map (\<lambda>v. (evName v, v)) env)"

definition keyed :: "(string \<rightharpoonup> env_var) \<Rightarrow> bool" where
  "keyed m \<longleftrightarrow> finite (dom m) \<and> (\<forall>k v. m k = Some v \<longrightarrow> evName v = k)"

lemma keyed_put: "keyed m \<Longrightarrow> keyed (put_env v m)"
  by (auto simp: keyed_def put_env_def)

lemma keyed_action: "keyed m \<Longrightarrow> keyed (apply_action a m)"
  by (auto simp: keyed_def apply_action_def put_env_def Let_def)

lemma keyed_fold: "keyed m \<Longrightarrow> (\<And>x m. keyed m \<Longrightarrow> keyed (f x m)) \<Longrightarrow> keyed (fold f xs m)"
  by (induction xs arbitrary: m) auto

lemma keyed_env_map: "keyed (env_map changes env)"
  unfolding env_map_def by (intro keyed_fold keyed_action keyed_put) (auto simp: keyed_def)

lemma distinct_map_sort_key: "distinct (map f (sort_key g xs)) \<longleftrightarrow> distinct (map f xs)"
  by (rule mset_eq_imp_distinct_iff) (simp add: mset_map)

lemma Merge_env_values:
  assumes "visits_keys order"
  shows "set (Merge_env order changes env) = ran (env_map changes env)" "distinct (map evName (Merge_env order changes env))"
proof -
  let ?m = "env_map changes env"
  have m: "keyed ?m" by (rule keyed_env_map)
  then have o: "distinct (order ?m)" "set (order ?m) = dom ?m" using assms by (auto simp: visits_keys_def keyed_def)
  have "(\<lambda>name. the (?m name)) ` dom ?m = ran ?m" by (force simp: ran_def)
  then show "set (Merge_env order changes env) = ran ?m" using o(2) by (simp add: Merge_env_def Let_def)
  have "map (\<lambda>name. evName (the (?m name))) (order ?m) = order ?m"
    by (rule map_idI) (use o(2) m in \<open>auto simp: keyed_def\<close>)
  then have "distinct (map evName (map (\<lambda>name. the (?m name)) (order ?m)))" using o(1) by (simp add: comp_def)
  then show "distinct (map evName (Merge_env order changes env))"
    by (simp only: Merge_env_def Let_def distinct_map_sort_key)
qed

lemma Merge_env_lookup:
  assumes "visits_keys order"
  shows "env_lookup (Merge_env order changes env) = env_map changes env"
proof
  fix k
  let ?m = "env_map changes env" and ?e = "Merge_env order changes env"
  note v = Merge_env_values [OF assms, of changes env]
  show "env_lookup ?e k = ?m k"
  proof (cases "?m k")
    case None
    then have "k \<notin> evName ` set ?e" using v(1) keyed_env_map [of changes env] by (auto simp: ran_def keyed_def)
    then have "env_lookup ?e k = None" by (auto simp: env_lookup_def map_of_eq_None_iff)
    then show ?thesis using None by simp
  next
    case (Some x)
    then have "x \<in> set ?e" "evName x = k" using v(1) keyed_env_map [of changes env] by (auto simp: ran_def keyed_def)
    then have "(k, x) \<in> set (map (\<lambda>v. (evName v, v)) ?e)" by force
    then show ?thesis using v(2) Some by (simp add: env_lookup_def map_of_eq_Some_iff comp_def)
  qed
qed

lemma Merge_env_order:
  assumes "visits_keys order" "visits_keys order'"
  shows "Merge_env order' changes env = Merge_env order changes env"
proof -
  let ?m = "env_map changes env"
  have "set (order' ?m) = set (order ?m)" "distinct (order' ?m)" "distinct (order ?m)"
    using assms keyed_env_map [of changes env] by (auto simp: visits_keys_def keyed_def)
  then have "mset (order' ?m) = mset (order ?m)" by (simp add: set_eq_iff_mset_eq_distinct)
  then have same: "mset (map (\<lambda>name. the (?m name)) (order' ?m)) = mset (map (\<lambda>name. the (?m name)) (order ?m))"
    by (simp add: mset_map)
  have "distinct (map evName (map (\<lambda>name. the (?m name)) (order' ?m)))"
    using Merge_env_values(2) [OF assms(2), of changes env] by (simp only: Merge_env_def Let_def distinct_map_sort_key)
  from sort_key_distinct_unique [OF same this] show ?thesis by (simp add: Merge_env_def Let_def)
qed

text \<open>
  Merging changes into the environment of a container gives a list sorted by name with
  every name once. It has the value the last change or, without one, the last entry of
  the old environment gave it; it does not depend on the order the map is visited in.
\<close>

theorem merged_environment:
  assumes "visits_keys order"
  shows "sorted (map evName (Merge_env order changes env)) \<and> distinct (map evName (Merge_env order changes env)) \<and>
    env_lookup (Merge_env order changes env) = env_map changes env \<and>
    (\<forall>order'. visits_keys order' \<longrightarrow> Merge_env order' changes env = Merge_env order changes env)"
proof -
  have "sorted (map evName (Merge_env order changes env))" by (simp add: Merge_env_def Let_def)
  then show ?thesis
    using Merge_env_values(2) [OF assms, of changes env] Merge_env_lookup [OF assms] Merge_env_order [OF assms] by blast
qed

section \<open>Replicas of the data service\<close>

lemma int32_range: "- (2 ^ 31) \<le> int32 n \<and> int32 n < 2 ^ 31"
  by (simp add: int32_def)

lemma int32_small: "- (2 ^ 31) \<le> n \<Longrightarrow> n < 2 ^ 31 \<Longrightarrow> int32 n = n"
  by (simp add: int32_def)

text \<open>Half of a number and one more, rounded towards zero as Go does, is a majority of it.\<close>

lemma half_and_one:
  fixes n :: int
  assumes "- (2 ^ 31) \<le> n" "n < 2 ^ 31"
  shows "int32 (n sdiv 2 + 1) = n sdiv 2 + 1" "n < 2 * (n sdiv 2 + 1)" "n sdiv 2 + 1 \<le> n \<longleftrightarrow> 0 < n"
proof -
  have half: "n sdiv 2 = (if 0 \<le> n then n div 2 else - (- n div 2))"
    by (auto simp: signed_divide_int_def sgn_if)
  have "- (2 ^ 31) \<le> n sdiv 2 + 1" "n sdiv 2 + 1 < 2 ^ 31" using assms by (auto simp: half)
  then show "int32 (n sdiv 2 + 1) = n sdiv 2 + 1" by (rule int32_small)
  show "n < 2 * (n sdiv 2 + 1)" "n sdiv 2 + 1 \<le> n \<longleftrightarrow> 0 < n" by (auto simp: half)
qed

text \<open>
  C35: The disruption budget of the data service asks for a majority of the replicas its
  stateful set asks for, for every configured number, of which both take the lower 32 bits
  as a signed number. It asks for no more than there are exactly when this number is
  positive: for no replicas it still asks for one.
\<close>

theorem budget_keeps_majority:
  assumes "UpdateDataServiceStatefulSet f asset c sts = Inr (sts', None)" "NewPodDisruptionBudget f budget = Inr p"
  shows "\<exists>n k. n = int32 (faDataServiceReplicas f) \<and> sfReplicas sts' = Some n \<and> pdMinAvailable p = Some k \<and>
    n < 2 * k \<and> (k \<le> n \<longleftrightarrow> 0 < n) \<and>
    (n = faDataServiceReplicas f \<longleftrightarrow> - (2 ^ 31) \<le> faDataServiceReplicas f \<and> faDataServiceReplicas f < 2 ^ 31)"
proof -
  let ?n = "int32 (faDataServiceReplicas f)"
  note half = half_and_one [of ?n] and range = int32_range [of "faDataServiceReplicas f"]
  have "pdMinAvailable p = Some (?n sdiv 2 + 1)"
    using assms(2) half(1) range by (auto simp: NewPodDisruptionBudget_def split: sum.splits)
  moreover have "sfReplicas sts' = Some ?n"
    using assms(1) by (auto simp: UpdateDataServiceStatefulSet_def Let_def split: sum.splits prod.splits option.splits)
  moreover have "?n = faDataServiceReplicas f \<longleftrightarrow> - (2 ^ 31) \<le> faDataServiceReplicas f \<and> faDataServiceReplicas f < 2 ^ 31"
    using range int32_small by metis
  ultimately show ?thesis using half(2,3) range by blast
qed

text \<open>A failed override is not reported: the stateful set is returned with the replicas of its asset.\<close>

lemma failed_override_dropped:
  assumes "UpdateDataServiceStatefulSet f (Inr a) c (a\<lparr>sfNamespace := default_namespace f (sfNamespace a)\<rparr>) = Inr (sts, Some err)"
  shows "NewDataServiceStatefulSet f (Inr a) c = Inr sts \<and> sfReplicas sts = sfReplicas a"
  using assms
  by (auto simp: NewDataServiceStatefulSet_def UpdateDataServiceStatefulSet_def NewStatefulSet_def Let_def
      split: sum.splits prod.splits option.splits)

text \<open>Every volume claim gets the storage class.\<close>

lemma claims_use_class:
  "UpdateDataServiceStatefulSet f (Inr a) c sts = Inr (sts', err) \<Longrightarrow> set (sfClaimClasses sts') \<subseteq> {c}"
  by (auto simp: UpdateDataServiceStatefulSet_def NewStatefulSet_def Let_def split: sum.splits prod.splits option.splits)

section \<open>Certificates, monitors and the job\<close>

lemma tls_secret_entries:
  assumes "faCertificates f commonName = Inr (caCert, caKey, serverCert, serverKey)"
    "commonName = strings_Join ''.'' [prefix, faNamespace f, ''svc'', ''cluster'', ''local'']"
  shows "\<exists>m. NewDataServiceTLSSecret f (Inr (ns, d)) prefix = Inr (default_namespace f ns, m) \<and>
    m ''tls.crt'' = Some serverCert \<and> m ''tls.key'' = Some serverKey \<and> m ''ca.crt'' = Some caCert \<and> m ''ca.key'' = Some caKey"
  using assms by (simp add: NewDataServiceTLSSecret_def)

text \<open>A bearer token is only added to an endpoint without an authorization, where adding it panics.\<close>

lemma bearer_token_panics:
  "MetricStateServiceMonitor f (Inr (ns, e # es)) (Some secretName) =
     (if enAuthorization e = None then Inl (Panic ''nil pointer dereference'')
      else case monitor_endpoints f (Some secretName) es of
        Inl p \<Rightarrow> Inl p
      | Inr es' \<Rightarrow> Inr (faNamespace f, e\<lparr>enServerName := Some (''rhm-metric-state-service.'' @ faNamespace f @ ''.svc'')\<rparr> # es'))"
  by (auto simp: MetricStateServiceMonitor_def monitor_endpoint_def addBearerToken_def Let_def split: sum.splits)

text \<open>What the job's container is told: whether the cluster is disconnected, and the proxies of the operator.\<close>

lemma reporter_environment:
  assumes "visits_keys (faOrder f)" "reporter_container f uwm disconnected c = Inr c'"
  shows "env_lookup (ctEnv c') ''IS_DISCONNECTED'' = Some (plain_var ''IS_DISCONNECTED'' (FormatBool disconnected))"
    "ctArgs c' = (if starts_with ''kube-rbac-proxy'' (ctName c) \<or> ctName c \<noteq> ''authcheck'' then ctArgs c else []) @ reporter_args f uwm"
proof -
  obtain c1 where c1: "ReplaceImages f c = Inr c1" using assms(2) by (auto simp: reporter_container_def split: sum.splits)
  have "ctEnv c' = Merge_env (faOrder f) [env_Add (plain_var ''IS_DISCONNECTED'' (FormatBool disconnected))] (ctEnv c1)"
    using assms(2) c1 by (auto simp: reporter_container_def UpdateEnvVar_def Let_def)
  then show "env_lookup (ctEnv c') ''IS_DISCONNECTED'' = Some (plain_var ''IS_DISCONNECTED'' (FormatBool disconnected))"
    by (simp add: Merge_env_lookup [OF assms(1)] env_map_def apply_action_def env_Add_def put_env_def plain_var_def Let_def)
  show "ctArgs c' = (if starts_with ''kube-rbac-proxy'' (ctName c) \<or> ctName c \<noteq> ''authcheck'' then ctArgs c else []) @ reporter_args f uwm"
    using assms(2)
    by (auto simp: reporter_container_def ReplaceImages_def updateContainerResources_def UpdateEnvVar_def authcheck_container_def Let_def
        split: sum.splits option.splits if_splits)
qed

section \<open>Witnesses\<close>

definition sorted_order :: "(string \<rightharpoonup> env_var) \<Rightarrow> string list" where
  "sorted_order m = sorted_list_of_set (dom m)"

lemma sorted_order_visits: "visits_keys sorted_order"
  by (simp add: visits_keys_def sorted_order_def)

definition demo_factory :: factory where
  "demo_factory = \<lparr>faNamespace = ''ns'', faImages = \<lparr>imReporter = ''r'', imKubeRbacProxy = ''k'', imMetricState = ''m'',
       imAuthChecker = ''a'', imDQLite = ''d'', imMeterDefFileServer = ''s''\<rparr>,
     faProxy = \<lparr>pxHTTPProxy = ''p'', pxHTTPSProxy = [], pxNoProxy = []\<rparr>, faOrder = sorted_order, faResources = None, faInject = [],
     faRetryLimit = Some 0, faUploadTargetsOverride = [], faReporterSchema = [], faDataServiceReplicas = 3, faMinute = 7,
     faCertificates = (\<lambda>n. Inr (''c'', ''k'', ''sc'', ''sk''))\<rparr>"

definition demo_stateful_set :: stateful_set where
  "demo_stateful_set = \<lparr>sfNamespace = [], sfPod = \<lparr>psContainers = [], psVolumes = [], psPreferred = None\<rparr>,
     sfClaimClasses = [None], sfReplicas = None\<rparr>"

theorem merged_environment_witness:
  "visits_keys sorted_order \<and>
   env_lookup (Merge_env sorted_order (AddHttpsProxy (faProxy demo_factory)) [plain_var ''NO_PROXY'' ''x'', plain_var ''A'' ''1'']) =
     [''A'' \<mapsto> plain_var ''A'' ''1'', ''HTTP_PROXY'' \<mapsto> plain_var ''HTTP_PROXY'' ''p'']"
proof -
  have "env_map (AddHttpsProxy (faProxy demo_factory)) [plain_var ''NO_PROXY'' ''x'', plain_var ''A'' ''1''] =
      [''A'' \<mapsto> plain_var ''A'' ''1'', ''HTTP_PROXY'' \<mapsto> plain_var ''HTTP_PROXY'' ''p'']"
    by (rule ext) (simp add: env_map_def AddHttpsProxy_def proxy_change_def demo_factory_def apply_action_def put_env_def env_Add_def
        env_Remove_def plain_var_def Let_def)
  moreover have "env_lookup (Merge_env sorted_order changes env) = env_map changes env" for changes env
    using merged_environment [OF sorted_order_visits, of changes env] by blast
  ultimately show ?thesis using sorted_order_visits by simp
qed

theorem budget_keeps_majority_witness:
  "\<exists>sts' p k. UpdateDataServiceStatefulSet demo_factory (Inr demo_stateful_set) (Some ''fast'') demo_stateful_set = Inr (sts', None) \<and>
     NewPodDisruptionBudget demo_factory (Inr \<lparr>pdNamespace = [], pdMinAvailable = None\<rparr>) = Inr p \<and>
     sfReplicas sts' = Some 3 \<and> pdMinAvailable p = Some k \<and> 3 < 2 * k \<and> k \<le> 3"
proof -
  obtain sts' where u: "UpdateDataServiceStatefulSet demo_factory (Inr demo_stateful_set) (Some ''fast'') demo_stateful_set = Inr (sts', None)"
    by (simp add: UpdateDataServiceStatefulSet_def NewStatefulSet_def demo_factory_def demo_stateful_set_def Let_def)
  obtain p where b: "NewPodDisruptionBudget demo_factory (Inr \<lparr>pdNamespace = [], pdMinAvailable = None\<rparr>) = Inr p"
    by (simp add: NewPodDisruptionBudget_def)
  have "int32 (faDataServiceReplicas demo_factory) = 3" by (simp add: demo_factory_def int32_small)
  with budget_keeps_majority [OF u b] u b show ?thesis by auto
qed

end
