(* ===== verification/Uploaders.thy ===== *)
theory Uploaders
  imports ReportUpload Registration PromClients "HOL-Library.Sublist"
begin

text \<open>
  The upload targets of the reporter (\<open>reporter/v2/pkg/uploaders/uploader.go\<close>,
  \<open>marketplace.go\<close>, \<open>insights.go\<close>, \<open>cos.go\<close>, \<open>localfile.go\<close>, \<open>util.go\<close>) and their set-up
  from the configuration of the job (\<open>reporter/v2/pkg/reporter/uploader.go\<close>,
  \<open>dataservice.go\<close>).

  The HTTP exchange, the object storage, the data service, files, parsers and certificate
  pools are fields of an environment; answers depend on what was uploaded so far. Files do
  not change while the targets are set up. An upload takes the content its reader gives.
\<close>

section \<open>Paths\<close>

text \<open>\<open>filepath.Base\<close> and \<open>filepath.Ext\<close>.\<close>

definition path_Base :: "string \<Rightarrow> string" where
  "path_Base path =
     (if path = [] then ''.''
      else (let b = rev (takeWhile (\<lambda>c. c \<noteq> CHR ''/'') (dropWhile (\<lambda>c. c = CHR ''/'') (rev path)))
            in if b = [] then ''/'' else b))"

definition path_Ext :: "string \<Rightarrow> string" where
  "path_Ext path =
     (let r = rev path; t = takeWhile (\<lambda>c. c \<noteq> CHR ''/'' \<and> c \<noteq> CHR ''.'') r
      in case drop (length t) r of
           c # _ \<Rightarrow> if c = CHR ''.'' then CHR ''.'' # rev t else []
         | [] \<Rightarrow> [])"

definition without_ext :: "string \<Rightarrow> string" where
  "without_ext fileBase = take (length fileBase - length (path_Ext fileBase)) fileBase"

text \<open>\<open>filepath.Clean\<close> on the parts of a path, the last part first, and \<open>filepath.Join\<close> of two parts.\<close>

fun clean_parts :: "bool \<Rightarrow> string list \<Rightarrow> string list \<Rightarrow> string list" where
  "clean_parts rooted [] out = out"
| "clean_parts rooted (p # ps) out =
     (if p = [] \<or> p = ''.'' then clean_parts rooted ps out
      else if p = ''..'' then
        (case out of
           o1 # outs \<Rightarrow> if o1 = ''..'' then clean_parts rooted ps (p # out) else clean_parts rooted ps outs
         | [] \<Rightarrow> if rooted then clean_parts rooted ps [] else clean_parts rooted ps [p])
      else clean_parts rooted ps (p # out))"

definition path_Clean :: "string \<Rightarrow> string" where
  "path_Clean path =
     (if path = [] then ''.''
      else
        (let rooted = hd path = CHR ''/'';
             parts = rev (clean_parts rooted (split_on (CHR ''/'') path) [])
         in if rooted then CHR ''/'' # strings_Join ''/'' parts
            else if parts = [] then ''.'' else strings_Join ''/'' parts))"

definition path_Join :: "string \<Rightarrow> string \<Rightarrow> string" where
  "path_Join a b =
     (if a = [] \<and> b = [] then [] else if a = [] then path_Clean b else if b = [] then path_Clean a
      else path_Clean (a @ ''/'' @ b))"

section \<open>Targets\<close>

datatype uploader_target =
    TargetInsights | TargetNoOp | TargetLocalPath string | TargetCOSS3 | TargetMarketplace | TargetDataService
  | TargetOther string

fun target_Name :: "uploader_target \<Rightarrow> string" where
  "target_Name TargetInsights = ''redhat-insights''"
| "target_Name TargetNoOp = ''noop''"
| "target_Name (TargetLocalPath _) = ''local-path''"
| "target_Name TargetCOSS3 = ''cos-s3''"
| "target_Name TargetMarketplace = ''redhat-marketplace''"
| "target_Name TargetDataService = ''data-service''"
| "target_Name (TargetOther name) = name"

definition MustParseUploaderTarget :: "string \<Rightarrow> uploader_target result" where
  "MustParseUploaderTarget s =
     (if s = target_Name (TargetLocalPath []) then Inr (TargetLocalPath [])
      else if s = target_Name TargetNoOp then Inr TargetNoOp
      else if s = target_Name TargetCOSS3 then Inr TargetCOSS3
      else if s = target_Name TargetMarketplace then Inr TargetMarketplace
      else if s = target_Name TargetDataService then Inr TargetDataService
      else Inl (Panic (''provided string is not a valid upload target '' @ s)))"

section \<open>Configuration\<close>

record MarketplaceUploaderConfig =
  muURL :: string
  muAuthorizeAccountCreation :: bool
  muToken :: string
  muAdditionalCertFiles :: "string list"
  muCertificates :: "string list"
  muCipherSuites :: "string list"
  muMinVersion :: string

record RedHatInsightsUploaderConfig =
  riURL :: string
  riToken :: string
  riOperatorVersion :: string
  riClusterID :: string
  riAdditionalCertFiles :: "string list"

record COSS3UploaderConfig =
  coApiKey :: string
  coServiceInstanceID :: string
  coAuthEndpoint :: string
  coServiceEndpoint :: string
  coBucket :: string

record reporter_DataServiceConfig =
  dcAddress :: string
  dcDataServiceToken :: string
  dcDataServiceCert :: bytes
  dcOutputPath :: string
  dcCipherSuites :: "string list"
  dcMinVersion :: string

text \<open>The set-up a job has: the fields of \<open>Config\<close> the upload targets use.\<close>

record uploader_config =
  ucTargets :: "uploader_target list"
  ucOutputDirectory :: string
  ucDataServiceTokenFile :: string
  ucDataServiceCertFile :: string
  ucDeployedNamespace :: string
  ucIsDisconnected :: bool
  ucCipherSuites :: "string list"
  ucMinVersion :: string

datatype 'pool uploader =
    RedHatInsightsUploader RedHatInsightsUploaderConfig "'pool round_tripper"
  | NoOpUploader
  | LocalFilePathUploader string
  | COSS3Uploader COSS3UploaderConfig
  | MarketplaceUploader MarketplaceUploaderConfig "'pool round_tripper"
  | DataServiceUploader reporter_DataServiceConfig "string option"

fun uploader_Name :: "'pool uploader \<Rightarrow> string" where
  "uploader_Name (RedHatInsightsUploader c t) = ''redhat-insights''"
| "uploader_Name NoOpUploader = ''noop''"
| "uploader_Name (LocalFilePathUploader p) = ''local-path''"
| "uploader_Name (COSS3Uploader c) = ''cos-s3''"
| "uploader_Name (MarketplaceUploader c t) = ''redhat-marketplace''"
| "uploader_Name (DataServiceUploader c t) = ''data-service''"

section \<open>Environment\<close>

record http_part =
  hpDisposition :: string
  hpContentType :: string
  hpBody :: bytes

record upload_request_http =
  hqMethod :: string
  hqURL :: string
  hqQuery :: "string \<rightharpoonup> string list"
  hqHeader :: header
  hqParts :: "http_part list"

record upload_response_http =
  hsStatusCode :: int
  hsBody :: "bytes result"

record MarketplaceUsageResponse =
  urRequestID :: string
  urMessage :: string
  urErrorCode :: string

text \<open>
  \<open>uvUnmarshal\<close> gives what was decoded before an error; \<open>uvParseURL\<close> splits the address from
  its query.
\<close>

record 'pool uploader_env = registration_env +
  uvSystemCertPool :: "'pool result"
  uvAppendCertsFromPEM :: "bytes \<Rightarrow> 'pool \<Rightarrow> 'pool"
  uvAddCert :: "string \<Rightarrow> 'pool \<Rightarrow> 'pool"
  uvReadFile :: "string \<Rightarrow> bytes result"
  uvParseURL :: "string \<Rightarrow> (string \<times> (string \<rightharpoonup> string list)) result"
  uvNewRequest :: "string \<Rightarrow> go_error option"
  uvBoundary :: string
  uvDo :: "upload_action list \<Rightarrow> upload_request_http \<Rightarrow> upload_response_http result"
  uvUnmarshal :: "bytes \<Rightarrow> MarketplaceUsageResponse \<times> go_error option"
  uvUnmarshalMap :: "bytes \<Rightarrow> go_error option"
  uvStat :: "string \<Rightarrow> go_error option"
  uvOpenFile :: "upload_action list \<Rightarrow> string \<Rightarrow> go_error option"
  uvCopy :: "upload_action list \<Rightarrow> string \<Rightarrow> bytes \<Rightarrow> go_error option"
  uvS3Upload :: "upload_action list \<Rightarrow> COSS3UploaderConfig \<Rightarrow> string \<Rightarrow> bytes \<Rightarrow> string result"
  uvRpcs :: "upload_action list \<Rightarrow> reporter_DataServiceConfig \<Rightarrow> string option \<Rightarrow> client_rpcs"
  uvSha256 :: "bytes \<Rightarrow> string"
  uvMetadata :: "bytes \<Rightarrow> smap result option"
  uvDial :: "reporter_DataServiceConfig \<Rightarrow> go_error option"
  uvPullSecret :: "kube_error + (string \<rightharpoonup> bytes)"
  uvClusterVersion :: "kube_error + string"
  uvCloudToken :: "bytes \<Rightarrow> string result"
  uvOperatorVersion :: string
  uvUnmarshalCOS :: "bytes \<Rightarrow> COSS3UploaderConfig result"

section \<open>Marketplace\<close>

fun load_cert_files :: "'pool uploader_env \<Rightarrow> string list \<Rightarrow> 'pool \<Rightarrow> 'pool result" where
  "load_cert_files E [] pool = Inr pool"
| "load_cert_files E (f # fs) pool =
     (case uvReadFile E f of
        Inl err \<Rightarrow> Inl (wrap ''failed to load cert file'' err)
      | Inr caCert \<Rightarrow> load_cert_files E fs (uvAppendCertsFromPEM E caCert pool))"

definition uploader_cert_pool :: "'pool uploader_env \<Rightarrow> string list \<Rightarrow> string list \<Rightarrow> 'pool tls_setup result" where
  "uploader_cert_pool E certs fs =
     (case uvSystemCertPool E of
        Inl err \<Rightarrow> Inl (wrap ''failed to get system cert pool'' err)
      | Inr pool \<Rightarrow>
          (case load_cert_files E fs pool of
             Inl err \<Rightarrow> Inl err
           | Inr pool1 \<Rightarrow>
               (let pool2 = fold (uvAddCert E) certs pool1
                in Inr \<lparr>tlRootCAs = pool2, tlClientCAs = Some pool2, tlCipherSuites = [], tlMinVersion = []\<rparr>)))"

text \<open>The HTTP version is always 1: it is set before it is compared with nil.\<close>

definition NewMarketplaceUploader :: "'pool uploader_env \<Rightarrow> MarketplaceUploaderConfig \<Rightarrow> 'pool uploader result" where
  "NewMarketplaceUploader E config =
     (case uploader_cert_pool E (muCertificates config) (muAdditionalCertFiles config) of
        Inl err \<Rightarrow> Inl err
      | Inr tls \<Rightarrow>
          (let transport = Transport (tls\<lparr>tlCipherSuites := muCipherSuites config, tlMinVersion := muMinVersion config\<rparr>);
               transport1 = (if muToken config \<noteq> [] then WithBearerAuth transport (muToken config) else transport)
           in Inr (MarketplaceUploader config transport1)))"

datatype marketplace_error = VerificationError string | MarketplaceErr go_error

definition StatusUnprocessableEntity :: int where "StatusUnprocessableEntity = 422"

definition checkError :: "int \<Rightarrow> MarketplaceUsageResponse \<Rightarrow> string \<Rightarrow> marketplace_error option" where
  "checkError code status message =
     (if code < 300 \<and> code \<ge> 200 then None
      else if code = StatusUnprocessableEntity then Some (VerificationError (urMessage status))
      else Some (MarketplaceErr (Err message)))"

definition form_data :: "string \<Rightarrow> string \<Rightarrow> string" where
  "form_data name fileName = ''form-data; name=\"'' @ name @ ''\"; filename=\"'' @ fileName @ ''\"''"

definition multipart_header :: "'pool uploader_env \<Rightarrow> header" where
  "multipart_header E = [''Content-Type'' \<mapsto> [''multipart/form-data; boundary='' @ uvBoundary E]]"

definition marketplace_request ::
  "'pool uploader_env \<Rightarrow> MarketplaceUploaderConfig \<Rightarrow> string \<Rightarrow> bytes \<Rightarrow> upload_request_http result" where
  "marketplace_request E r fileName content =
     (case uvParseURL E (muURL r @ ''/metering/api/v2/metrics'') of
        Inl err \<Rightarrow> Inl err
      | Inr (url, q) \<Rightarrow>
          (let query = q(''authorizeAccountCreation'' \<mapsto> [FormatBool (muAuthorizeAccountCreation r)]);
               fileBase = path_Base fileName
           in case uvNewRequest E url of
                Some err \<Rightarrow> Inl err
              | None \<Rightarrow>
                  Inr \<lparr>hqMethod = ''POST'', hqURL = url, hqQuery = query, hqHeader = multipart_header E,
                       hqParts = [\<lparr>hpDisposition = form_data (without_ext fileBase) fileBase,
                                   hpContentType = ''application/gzip'', hpBody = content\<rparr>]\<rparr>))"

text \<open>What \<open>client.Do\<close> sends: the transports add their headers.\<close>

definition client_Do ::
  "'pool uploader_env \<Rightarrow> 'pool round_tripper \<Rightarrow> upload_action list \<Rightarrow> upload_request_http \<Rightarrow> upload_response_http result" where
  "client_Do E rt h req = uvDo E h (req\<lparr>hqHeader := RoundTrip rt (hqHeader req)\<rparr>)"

definition marketplace_send ::
  "'pool uploader_env \<Rightarrow> 'pool round_tripper \<Rightarrow> upload_action list \<Rightarrow> upload_request_http \<Rightarrow>
     string \<times> marketplace_error option" where
  "marketplace_send E rt h req =
     (case client_Do E rt h req of
        Inl err \<Rightarrow> ([], Some (MarketplaceErr (wrap ''failed to post'' err)))
      | Inr resp \<Rightarrow>
          (case hsBody resp of
             Inl err \<Rightarrow> ([], Some (MarketplaceErr (wrap ''failed to read response body'' err)))
           | Inr body \<Rightarrow>
               (case uvUnmarshal E body of
                  (status, jsonErr) \<Rightarrow>
                    (case checkError (hsStatusCode resp) status ''failed to upload'' of
                       Some err \<Rightarrow> (urRequestID status, Some err)
                     | None \<Rightarrow> (if jsonErr \<noteq> None then ([], None) else (urRequestID status, None))))))"

definition marketplace_UploadFile ::
  "'pool uploader_env \<Rightarrow> MarketplaceUploaderConfig \<Rightarrow> 'pool round_tripper \<Rightarrow> upload_action list \<Rightarrow> string \<Rightarrow> bytes \<Rightarrow>
     string result" where
  "marketplace_UploadFile E r rt h fileName content =
     (case marketplace_request E r fileName content of
        Inl err \<Rightarrow> Inl err
      | Inr req \<Rightarrow>
          (case marketplace_send E rt h req of
             (i, None) \<Rightarrow> Inr i
           | (i, Some (VerificationError _)) \<Rightarrow> Inr i
           | (i, Some (MarketplaceErr err)) \<Rightarrow> Inl err))"


section \<open>Insights\<close>

definition mktplaceFileUploadType :: string where
  "mktplaceFileUploadType = ''application/vnd.redhat.mkt.tar+tgz''"

fun escapeQuotes :: "string \<Rightarrow> string" where
  "escapeQuotes [] = []"
| "escapeQuotes (c # cs) =
     (if c = CHR 0x5C \<or> c = CHR 0x22 then CHR 0x5C # c # escapeQuotes cs else c # escapeQuotes cs)"

definition getUserAgent :: "string \<Rightarrow> string \<Rightarrow> string" where
  "getUserAgent version clusterID = ''marketplace-operator/'' @ version @ '' cluster/'' @ clusterID"

text \<open>The certificates come from the pool of \<open>v2/pkg/prometheus\<close>, which sets the versions too.\<close>

definition NewRedHatInsightsUploader :: "'pool uploader_env \<Rightarrow> RedHatInsightsUploaderConfig \<Rightarrow> 'pool uploader result" where
  "NewRedHatInsightsUploader E config =
     (case uploader_cert_pool E [] (riAdditionalCertFiles config) of
        Inl err \<Rightarrow> Inl err
      | Inr tls \<Rightarrow>
          Inr (RedHatInsightsUploader config
            (WithBearerAuth (Transport (tls\<lparr>tlCipherSuites := cipherSuites, tlMinVersion := ''VersionTLS12''\<rparr>)) (riToken config))))"

definition ProvideRedHatInsightsUploader :: "'pool uploader_env \<Rightarrow> kube_error + 'pool uploader" where
  "ProvideRedHatInsightsUploader E =
     (case uvPullSecret E of
        Inl e \<Rightarrow> Inl e
      | Inr data \<Rightarrow>
          (case uvClusterVersion E of
             Inl e \<Rightarrow> Inl e
           | Inr clusterID \<Rightarrow>
               (case data ''.dockerconfigjson'' of
                  None \<Rightarrow> Inl (KGo (Err ''failed to find .dockerconfigjson in secret openshift-config/pull-secret''))
                | Some dockerConfig \<Rightarrow>
                    (case uvCloudToken E dockerConfig of
                       Inl err \<Rightarrow> Inl (KGo err)
                     | Inr cloudToken \<Rightarrow>
                         (case NewRedHatInsightsUploader E
                              \<lparr>riURL = ''https://cloud.redhat.com'', riToken = cloudToken,
                               riOperatorVersion = uvOperatorVersion E, riClusterID = clusterID,
                               riAdditionalCertFiles = []\<rparr> of
                            Inl err \<Rightarrow> Inl (KGo err)
                          | Inr u \<Rightarrow> Inr u)))))"

definition insights_request ::
  "'pool uploader_env \<Rightarrow> RedHatInsightsUploaderConfig \<Rightarrow> string \<Rightarrow> bytes \<Rightarrow> upload_request_http result" where
  "insights_request E r fileName content =
     (let url = riURL r @ ''/api/ingress/v1/upload'' in
      case uvNewRequest E url of
        Some err \<Rightarrow> Inl err
      | None \<Rightarrow>
          Inr \<lparr>hqMethod = ''POST'', hqURL = url, hqQuery = Map.empty,
               hqHeader = (multipart_header E)(''User-Agent'' \<mapsto> [getUserAgent (riOperatorVersion r) (riClusterID r)]),
               hqParts =
                 [\<lparr>hpDisposition = form_data (escapeQuotes ''file'') (escapeQuotes (path_Base fileName)),
                   hpContentType = mktplaceFileUploadType, hpBody = content\<rparr>,
                  \<lparr>hpDisposition = ''form-data; name=\"type\"'', hpContentType = [], hpBody = mktplaceFileUploadType\<rparr>]\<rparr>)"

definition insights_UploadFile ::
  "'pool uploader_env \<Rightarrow> RedHatInsightsUploaderConfig \<Rightarrow> 'pool round_tripper \<Rightarrow> upload_action list \<Rightarrow> string \<Rightarrow> bytes \<Rightarrow>
     string result" where
  "insights_UploadFile E r rt h fileName content =
     (case insights_request E r fileName content of
        Inl err \<Rightarrow> Inl (wrap ''failed to get upload file req'' err)
      | Inr req \<Rightarrow>
          (case client_Do E rt h req of
             Inl err \<Rightarrow> Inl (wrap ''failed to post'' err)
           | Inr resp \<Rightarrow>
               (case hsBody resp of
                  Inl err \<Rightarrow> Inl (wrap ''failed to read response body'' err)
                | Inr body \<Rightarrow>
                    (if hsStatusCode resp \<ge> 300 \<or> hsStatusCode resp < 200 then Inl (Err ''failed to upload field'')
                     else
                       (case uvUnmarshalMap E body of
                          Some err \<Rightarrow> Inl (wrap ''failed to parse json'' err)
                        | None \<Rightarrow> Inr [])))))"

section \<open>Object storage, local files, data service\<close>

definition cos_UploadFile ::
  "'pool uploader_env \<Rightarrow> COSS3UploaderConfig \<Rightarrow> upload_action list \<Rightarrow> string \<Rightarrow> bytes \<Rightarrow> string result" where
  "cos_UploadFile E r h path content =
     (case uvS3Upload E h r (path_Base path) content of
        Inl err \<Rightarrow> Inl (wrap ''failed to upload file'' err)
      | Inr uploadID \<Rightarrow> Inr uploadID)"

text \<open>The directory is looked up before an empty one is replaced.\<close>

definition local_UploadFile ::
  "'pool uploader_env \<Rightarrow> string \<Rightarrow> upload_action list \<Rightarrow> string \<Rightarrow> bytes \<Rightarrow> string result" where
  "local_UploadFile E localFilePath h fileName content =
     (case uvStat E localFilePath of
        Some err \<Rightarrow> Inl err
      | None \<Rightarrow>
          (let dir = (if localFilePath = [] then ''.'' else localFilePath);
               name = path_Join dir (path_Base fileName)
           in case uvOpenFile E h name of
                Some err \<Rightarrow> Inl err
              | None \<Rightarrow> (case uvCopy E h name content of Some err \<Rightarrow> Inl err | None \<Rightarrow> Inr name)))"

definition data_service_UploadFile ::
  "'pool uploader_env \<Rightarrow> reporter_DataServiceConfig \<Rightarrow> string option \<Rightarrow> upload_action list \<Rightarrow> string \<Rightarrow> bytes \<Rightarrow> string result" where
  "data_service_UploadFile E c token h fileName content =
     (case client_UploadFile (uvRpcs E h c token) (uvSha256 E) path_Base (uvMetadata E content) fileName (Inr content) of
        (i, Some err) \<Rightarrow> Inl err
      | (i, None) \<Rightarrow> Inr i)"

fun uploader_UploadFile ::
  "'pool uploader_env \<Rightarrow> 'pool uploader \<Rightarrow> upload_action list \<Rightarrow> string \<Rightarrow> bytes \<Rightarrow> string result" where
  "uploader_UploadFile E (RedHatInsightsUploader c rt) h name content = insights_UploadFile E c rt h name content"
| "uploader_UploadFile E NoOpUploader h name content = Inr []"
| "uploader_UploadFile E (LocalFilePathUploader p) h name content = local_UploadFile E p h name content"
| "uploader_UploadFile E (COSS3Uploader c) h name content = cos_UploadFile E c h name content"
| "uploader_UploadFile E (MarketplaceUploader c rt) h name content = marketplace_UploadFile E c rt h name content"
| "uploader_UploadFile E (DataServiceUploader c token) h name content = data_service_UploadFile E c token h name content"

section \<open>Set-up\<close>

definition ProvideUploader :: "'pool uploader list \<Rightarrow> 'pool uploader result" where
  "ProvideUploader us = (case us of [] \<Rightarrow> Inl (Err ''uploader not provided'') | u # _ \<Rightarrow> Inr u)"

definition read_token_file :: "'pool uploader_env \<Rightarrow> string \<Rightarrow> string result" where
  "read_token_file E f = (if f = [] then Inr [] else uvReadFile E f)"

definition reporter_provideDataServiceConfig :: "'pool uploader_env \<Rightarrow> uploader_config \<Rightarrow> reporter_DataServiceConfig result" where
  "reporter_provideDataServiceConfig E c =
     (case uvReadFile E (ucDataServiceCertFile c) of
        Inl err \<Rightarrow> Inl err
      | Inr cert \<Rightarrow>
          (case read_token_file E (ucDataServiceTokenFile c) of
             Inl err \<Rightarrow> Inl err
           | Inr token \<Rightarrow>
               Inr \<lparr>dcAddress = ''rhm-data-service.'' @ ucDeployedNamespace c @ ''.svc:8004'', dcDataServiceToken = token,
                    dcDataServiceCert = cert, dcOutputPath = ucOutputDirectory c,
                    dcCipherSuites = ucCipherSuites c, dcMinVersion = ucMinVersion c\<rparr>))"

definition ProvideGRPCCallOptions :: "'pool uploader_env \<Rightarrow> string \<Rightarrow> string option result" where
  "ProvideGRPCCallOptions E f =
     (case read_token_file E f of
        Inl err \<Rightarrow> Inl err
      | Inr token \<Rightarrow> Inr (if token \<noteq> [] then Some token else None))"

definition provide_data_service :: "'pool uploader_env \<Rightarrow> uploader_config \<Rightarrow> 'pool uploader result" where
  "provide_data_service E c =
     (case reporter_provideDataServiceConfig E c of
        Inl err \<Rightarrow> Inl err
      | Inr d \<Rightarrow>
          (case uvDial E d of
             Some err \<Rightarrow> Inl err
           | None \<Rightarrow>
               (case ProvideGRPCCallOptions E (ucDataServiceTokenFile c) of
                  Inl err \<Rightarrow> Inl err
                | Inr opts \<Rightarrow> Inr (DataServiceUploader d opts))))"

definition provideCOSS3Config :: "'pool uploader_env \<Rightarrow> cluster \<Rightarrow> cluster \<times> (kube_error + COSS3UploaderConfig)" where
  "provideCOSS3Config E s =
     (case get_secret E ''rhm-cos-uploader-secret'' s of
        (s1, Inl e) \<Rightarrow> (s1, Inl e)
      | (s1, Inr secret) \<Rightarrow>
          (s1, case scData secret ''config.yaml'' of
                 None \<Rightarrow> Inl (KGo (Err ''rhm-cos-uploader-secret does not contain a config.yaml''))
               | Some config \<Rightarrow>
                   (case uvUnmarshalCOS E config of
                      Inl err \<Rightarrow> Inl (KGo (wrap ''failed to unmarshal rhm-cos-uploader-secret config.yaml'' err))
                    | Inr c \<Rightarrow> Inr c)))"

definition MktplProductionURL :: string where "MktplProductionURL = ''https://swc.saas.ibm.com''"
definition MktplStageURL :: string where "MktplStageURL = ''https://sandbox.swc.saas.ibm.com''"

definition provideMarketplaceConfig ::
  "'pool uploader_env \<Rightarrow> uploader_config \<Rightarrow> cluster \<Rightarrow> cluster \<times> (secret_error + MarketplaceUploaderConfig)" where
  "provideMarketplaceConfig E c s =
     (case ReturnSecret E s of
        (s1, Inl e) \<Rightarrow> (s1, Inl e)
      | (s1, Inr si) \<Rightarrow>
          (case api_get E clConfig s1 of
             (s2, Inl e) \<Rightarrow> (s2, Inl (SecretErr e))
           | (s2, Inr config) \<Rightarrow>
               (s2, Inr \<lparr>muURL = (if siEnv si = StageEnv then MktplStageURL else MktplProductionURL),
                         muAuthorizeAccountCreation = ToBool (cfAuthorizeAccountCreation config), muToken = siToken si,
                         muAdditionalCertFiles = [], muCertificates = [], muCipherSuites = ucCipherSuites c,
                         muMinVersion = ucMinVersion c\<rparr>)))"

text \<open>One target: the uploaders it adds, none or one.\<close>

fun provide_target ::
  "'pool uploader_env \<Rightarrow> uploader_config \<Rightarrow> uploader_target \<Rightarrow> cluster \<Rightarrow>
     cluster \<times> (secret_error + 'pool uploader list)" where
  "provide_target E c TargetInsights s =
     (s, case ProvideRedHatInsightsUploader E of Inl e \<Rightarrow> Inl (SecretErr e) | Inr u \<Rightarrow> Inr [u])"
| "provide_target E c TargetNoOp s = (s, Inr [NoOpUploader])"
| "provide_target E c (TargetLocalPath p) s = (s, Inr [LocalFilePathUploader p])"
| "provide_target E c TargetDataService s =
     (s, case provide_data_service E c of Inl err \<Rightarrow> Inl (SecretErr (KGo err)) | Inr u \<Rightarrow> Inr [u])"
| "provide_target E c TargetCOSS3 s =
     (case provideCOSS3Config E s of
        (s1, Inl e) \<Rightarrow> (s1, Inl (SecretErr e))
      | (s1, Inr cos) \<Rightarrow> (s1, Inr [COSS3Uploader cos]))"
| "provide_target E c TargetMarketplace s =
     (case provideMarketplaceConfig E c s of
        (s1, Inl e) \<Rightarrow> (s1, if e = NoSecretsFound \<and> ucIsDisconnected c then Inr [] else Inl e)
      | (s1, Inr config) \<Rightarrow>
          (s1, case NewMarketplaceUploader E config of Inl err \<Rightarrow> Inl (SecretErr (KGo err)) | Inr u \<Rightarrow> Inr [u]))"
| "provide_target E c (TargetOther name) s =
     (s, Inl (SecretErr (KGo (Err (''uploader target not available '' @ name)))))"

fun ProvideUploaders ::
  "'pool uploader_env \<Rightarrow> uploader_config \<Rightarrow> uploader_target list \<Rightarrow> cluster \<Rightarrow>
     cluster \<times> (secret_error + 'pool uploader list)" where
  "ProvideUploaders E c [] s = (s, Inr [])"
| "ProvideUploaders E c (target # targets) s =
     (case provide_target E c target s of
        (s1, Inl e) \<Rightarrow> (s1, Inl e)
      | (s1, Inr us) \<Rightarrow>
          (case ProvideUploaders E c targets s1 of
             (s2, Inl e) \<Rightarrow> (s2, Inl e)
           | (s2, Inr rest) \<Rightarrow> (s2, Inr (us @ rest))))"

text \<open>The upload targets as the upload job uses them.\<close>

definition job_uploaders ::
  "'pool uploader_env \<Rightarrow> 'pool uploader list \<Rightarrow> (string \<times> (upload_action list \<Rightarrow> string \<Rightarrow> bytes \<Rightarrow> string result)) list" where
  "job_uploaders E us = map (\<lambda>u. (uploader_Name u, uploader_UploadFile E u)) us"

section \<open>Paths and targets\<close>

lemma path_Ext_suffix: "without_ext b @ path_Ext b = b"
proof -
  define t where "t = takeWhile (\<lambda>c. c \<noteq> CHR ''/'' \<and> c \<noteq> CHR ''.'') (rev b)"
  have r: "rev b = t @ drop (length t) (rev b)"
    unfolding t_def by (metis takeWhile_dropWhile_id dropWhile_eq_drop)
  show ?thesis
  proof (cases "\<exists>cs. drop (length t) (rev b) = CHR ''.'' # cs")
    case True
    then obtain cs where "rev b = t @ CHR ''.'' # cs" using r by metis
    then have b: "b = rev cs @ CHR ''.'' # rev t" by (metis rev_append rev_rev_ident append.assoc append_Cons append_Nil rev.simps(2))
    have "path_Ext b = CHR ''.'' # rev t" using True by (auto simp: path_Ext_def t_def Let_def)
    then show ?thesis by (simp add: without_ext_def b)
  next
    case False
    then have "path_Ext b = []" by (auto simp: path_Ext_def t_def Let_def split: list.splits)
    then show ?thesis by (simp add: without_ext_def)
  qed
qed

lemma escapeQuotes_inj: "escapeQuotes a = escapeQuotes b \<Longrightarrow> a = b"
proof (induction a arbitrary: b rule: escapeQuotes.induct)
  case 1
  then show ?case by (cases b) (auto split: if_splits)
next
  case (2 c cs)
  then show ?case by (cases b) (auto split: if_splits)
qed

text \<open>Names are parsed back to their targets, but the insights target is refused.\<close>

lemma parse_target_names:
  "MustParseUploaderTarget s = Inr t \<Longrightarrow> target_Name t = s"
  "t \<in> {TargetNoOp, TargetCOSS3, TargetMarketplace, TargetDataService} \<Longrightarrow> MustParseUploaderTarget (target_Name t) = Inr t"
  "\<exists>m. MustParseUploaderTarget (target_Name TargetInsights) = Inl (Panic m)"
  by (auto simp: MustParseUploaderTarget_def split: if_splits)

text \<open>An empty directory never becomes the current one: \<open>os.Stat\<close> refuses the empty name first.\<close>

lemma empty_local_path_fails: "uvStat E [] = Some err \<Longrightarrow> local_UploadFile E [] h name b = Inl err"
  by (simp add: local_UploadFile_def)

section \<open>Accepted uploads\<close>

definition accepted_code :: "int \<Rightarrow> bool" where
  "accepted_code code \<longleftrightarrow> 200 \<le> code \<and> code < 300 \<or> code = StatusUnprocessableEntity"

text \<open>The exchange of an upload to the marketplace: the status code and body of the answer.\<close>

definition marketplace_answer ::
  "'pool uploader_env \<Rightarrow> MarketplaceUploaderConfig \<Rightarrow> 'pool round_tripper \<Rightarrow> upload_action list \<Rightarrow> string \<Rightarrow> bytes \<Rightarrow>
     (int \<times> bytes) option" where
  "marketplace_answer E r rt h name b =
     (case marketplace_request E r name b of
        Inl _ \<Rightarrow> None
      | Inr req \<Rightarrow>
          (case client_Do E rt h req of
             Inl _ \<Rightarrow> None
           | Inr resp \<Rightarrow> (case hsBody resp of Inl _ \<Rightarrow> None | Inr body \<Rightarrow> Some (hsStatusCode resp, body))))"

lemma marketplace_accepted:
  "(\<exists>i. marketplace_UploadFile E r rt h name b = Inr i) \<longleftrightarrow>
     (\<exists>code body. marketplace_answer E r rt h name b = Some (code, body) \<and> accepted_code code)"
  by (auto simp: marketplace_UploadFile_def marketplace_send_def marketplace_answer_def checkError_def accepted_code_def
      split: sum.splits option.splits prod.splits if_splits)

lemma marketplace_request_id:
  assumes "marketplace_answer E r rt h name b = Some (code, body)" "accepted_code code"
  shows "marketplace_UploadFile E r rt h name b =
    Inr (if code = StatusUnprocessableEntity \<or> snd (uvUnmarshal E body) = None then urRequestID (fst (uvUnmarshal E body)) else [])"
  using assms
  by (auto simp: marketplace_UploadFile_def marketplace_send_def marketplace_answer_def checkError_def accepted_code_def
      StatusUnprocessableEntity_def split: sum.splits option.splits prod.splits if_splits)

text \<open>C33: A stored report sent to the marketplace alone is finished exactly when the marketplace
  answered with a readable body and a status of success or with 422: a refused verification
  counts as an upload, a body that is not JSON too. Every other end is a failure.\<close>

theorem marketplace_upload_finishes_iff:
  assumes "ueUploaders J = job_uploaders E [MarketplaceUploader c rt]"
    and "ueDownloadFile J (usHistory s) f = Inr local" "ueReadFile J (usHistory s) local = Inr data"
  shows "fst (findStatus (snd (uploadFile J f s))) \<longleftrightarrow>
    (\<exists>code body. marketplace_answer E c rt (usHistory s) (fiName f) data = Some (code, body) \<and> accepted_code code)"
proof -
  have "fst (findStatus (snd (uploadFile J f s))) \<longleftrightarrow>
      (\<exists>i. marketplace_UploadFile E c rt (usHistory s) (fiName f) data = Inr i)"
    using assms
    by (auto simp: uploadFile_def job_uploaders_def findStatus_def required_targets_def failure_details_def OneSuccessOf_iff
        Success_def UploadStatusSuccess_def UploadStatusFailure_def split: sum.splits option.splits if_splits)
  then show ?thesis by (simp only: marketplace_accepted)
qed

section \<open>Set-up\<close>

lemma provide_target_names:
  assumes "provide_target E c t s = (s', Inr us)"
  shows "map uploader_Name us = [target_Name t] \<or> (us = [] \<and> t = TargetMarketplace \<and> ucIsDisconnected c)"
  using assms
  by (cases t) (auto simp: ProvideRedHatInsightsUploader_def NewRedHatInsightsUploader_def provide_data_service_def
      NewMarketplaceUploader_def Let_def split: sum.splits option.splits prod.splits if_splits)

lemma ProvideUploaders_names:
  assumes "ProvideUploaders E c targets s = (s', Inr us)"
  shows "\<exists>kept. map uploader_Name us = map target_Name kept \<and> subseq kept targets \<and>
    filter (\<lambda>t. t \<noteq> TargetMarketplace) kept = filter (\<lambda>t. t \<noteq> TargetMarketplace) targets \<and>
    (\<not> ucIsDisconnected c \<longrightarrow> kept = targets)"
  using assms
proof (induction targets arbitrary: s us)
  case (Cons t targets)
  then obtain s1 us1 us2 where t: "provide_target E c t s = (s1, Inr us1)"
    and r: "ProvideUploaders E c targets s1 = (s', Inr us2)" and us: "us = us1 @ us2"
    by (auto split: prod.splits sum.splits)
  from Cons.IH [OF r] obtain kept where k: "map uploader_Name us2 = map target_Name kept" "subseq kept targets"
    "filter (\<lambda>t. t \<noteq> TargetMarketplace) kept = filter (\<lambda>t. t \<noteq> TargetMarketplace) targets"
    "\<not> ucIsDisconnected c \<longrightarrow> kept = targets" by blast
  from provide_target_names [OF t] show ?case
  proof
    assume "map uploader_Name us1 = [target_Name t]"
    with k show ?thesis by (intro exI [of _ "t # kept"]) (simp add: us)
  next
    assume "us1 = [] \<and> t = TargetMarketplace \<and> ucIsDisconnected c"
    with k show ?thesis by (intro exI [of _ kept]) (auto simp: us)
  qed
qed simp

text \<open>What a marketplace uploader of the set-up has: an address, the settings of the job, and a token in every request.\<close>

definition marketplace_secured :: "uploader_config \<Rightarrow> 'pool uploader \<Rightarrow> bool" where
  "marketplace_secured c u \<longleftrightarrow>
     (case u of
        MarketplaceUploader m rt \<Rightarrow>
          muURL m \<in> {MktplProductionURL, MktplStageURL} \<and>
          muCipherSuites m = ucCipherSuites c \<and> muMinVersion m = ucMinVersion c \<and>
          (muToken m \<noteq> [] \<longrightarrow> (\<forall>req. RoundTrip rt req ''Authorization'' = Some [''Bearer '' @ muToken m]))
      | _ \<Rightarrow> True)"

lemma provide_target_secured:
  assumes "provide_target E c t s = (s', Inr us)"
  shows "list_all (marketplace_secured c) us"
  using assms
  by (cases t) (auto simp: ProvideRedHatInsightsUploader_def NewRedHatInsightsUploader_def provide_data_service_def
      NewMarketplaceUploader_def provideMarketplaceConfig_def marketplace_secured_def WithBearerAuth_def WithHeader_def Let_def
      split: sum.splits option.splits prod.splits if_splits)

lemma ProvideUploaders_secured:
  "ProvideUploaders E c targets s = (s', Inr us) \<Longrightarrow> list_all (marketplace_secured c) us"
  by (induction targets arbitrary: s us)
     (auto dest: provide_target_secured split: prod.splits sum.splits)

text \<open>A set-up that succeeds serves every target of the job in its order; only the marketplace
  may be left out, and only in a disconnected environment. Its uploader talks to one of the two
  addresses of the marketplace with the job's settings and sends the token of the pull secret.\<close>

theorem targets_served:
  assumes "ProvideUploaders E c targets s = (s', Inr us)"
  shows "(\<exists>kept. map fst (job_uploaders E us) = map target_Name kept \<and> subseq kept targets \<and>
      filter (\<lambda>t. t \<noteq> TargetMarketplace) kept = filter (\<lambda>t. t \<noteq> TargetMarketplace) targets \<and>
      (\<not> ucIsDisconnected c \<longrightarrow> kept = targets)) \<and> list_all (marketplace_secured c) us"
  using ProvideUploaders_names [OF assms] ProvideUploaders_secured [OF assms] by (simp add: job_uploaders_def comp_def)

section \<open>Witnesses\<close>

text \<open>An environment whose marketplace answers with the given code.\<close>

definition demo_uploader_env :: "int \<Rightarrow> nat uploader_env" where
  "demo_uploader_env code =
     \<lparr>clFault = (\<lambda>_. None), clRetry = demo_retry 4 (\<lambda>e. e = KConflict), clRetryShared = demo_retry 4 (\<lambda>e. e = KConflict),
      clNow = 10, clUUID = (\<lambda>_. ''uuid''), reAuths = (\<lambda>_. Inr [IBMEntitlementProdKey \<mapsto> ''pw'']), reDecodeSegment = (\<lambda>_. None),
      reParseUnverified = (\<lambda>_. Inl (Err ''none'')), reSetOwner = (\<lambda>c x. Inr x),
      reGet = (\<lambda>_ _. Inr (200, ''[]'')), reAccounts = (\<lambda>_. Inr []), reIsDisconnected = False, reURL = [],
      uvSystemCertPool = Inr 0, uvAppendCertsFromPEM = (\<lambda>b p. Suc p), uvAddCert = (\<lambda>c p. Suc p),
      uvReadFile = (\<lambda>f. Inr f), uvParseURL = (\<lambda>u. Inr (u, Map.empty)), uvNewRequest = (\<lambda>_. None), uvBoundary = ''b'',
      uvDo = (\<lambda>h req. Inr \<lparr>hsStatusCode = code, hsBody = Inr ''{}''\<rparr>),
      uvUnmarshal = (\<lambda>b. (\<lparr>urRequestID = ''foo'', urMessage = [], urErrorCode = []\<rparr>, None)),
      uvUnmarshalMap = (\<lambda>b. None), uvStat = (\<lambda>p. if p = [] then Some (Err ''no such file or directory'') else None),
      uvOpenFile = (\<lambda>_ _. None), uvCopy = (\<lambda>_ _ _. None), uvS3Upload = (\<lambda>_ _ _ _. Inr ''s3''),
      uvRpcs = (\<lambda>_ _ _. \<lparr>crGetFile = (\<lambda>_. Inl \<lparr>gsCode = CNotFound, gsMessage = []\<rparr>), crOpenUpload = None, crSend = (\<lambda>_. None),
        crCloseAndRecv = (\<lambda>_. Inr (''7'', 0))\<rparr>),
      uvSha256 = id, uvMetadata = (\<lambda>_. None), uvDial = (\<lambda>_. None), uvPullSecret = Inl KNotFound, uvClusterVersion = Inl KNotFound,
      uvCloudToken = (\<lambda>b. Inr b), uvOperatorVersion = ''2'', uvUnmarshalCOS = (\<lambda>_. Inl (Err ''none''))\<rparr>"

definition demo_marketplace :: MarketplaceUploaderConfig where
  "demo_marketplace = \<lparr>muURL = MktplProductionURL, muAuthorizeAccountCreation = False, muToken = ''pw'',
     muAdditionalCertFiles = [], muCertificates = [], muCipherSuites = [''suite''], muMinVersion = ''VersionTLS12''\<rparr>"

definition demo_transport :: "nat round_tripper" where
  "demo_transport = Transport \<lparr>tlRootCAs = 0, tlClientCAs = Some 0, tlCipherSuites = [''suite''], tlMinVersion = ''VersionTLS12''\<rparr>"

definition demo_targets :: uploader_config where
  "demo_targets = \<lparr>ucTargets = [TargetDataService, TargetMarketplace], ucOutputDirectory = ''/tmp'', ucDataServiceTokenFile = ''token'',
     ucDataServiceCertFile = ''cert'', ucDeployedNamespace = ''ns'', ucIsDisconnected = False, ucCipherSuites = [''suite''],
     ucMinVersion = ''VersionTLS12''\<rparr>"

definition demo_entitled :: cluster where
  "demo_entitled = (demo_cluster_state (Some demo_config))\<lparr>clSecrets := [IBMEntitlementKeySecretName \<mapsto>
     demo_secret\<lparr>scData := [IBMEntitlementDataKey \<mapsto> ''auths'']\<rparr>]\<rparr>"

theorem marketplace_upload_finishes_iff_witness:
  "let s = \<lparr>usReports = Map.empty, usHistory = []\<rparr>;
       J = (\<lambda>code. demo_uploads\<lparr>ueUploaders := job_uploaders (demo_uploader_env code) [MarketplaceUploader demo_marketplace demo_transport]\<rparr>)
   in fst (findStatus (snd (uploadFile (J 422) demo_info s))) \<and> \<not> fst (findStatus (snd (uploadFile (J 500) demo_info s)))"
proof -
  let ?s = "\<lparr>usReports = Map.empty, usHistory = []\<rparr>"
  have "fst (findStatus (snd (uploadFile (demo_uploads\<lparr>ueUploaders :=
        job_uploaders (demo_uploader_env code) [MarketplaceUploader demo_marketplace demo_transport]\<rparr>) demo_info ?s))) \<longleftrightarrow> accepted_code code" for code
    by (subst marketplace_upload_finishes_iff [where E = "demo_uploader_env code" and c = demo_marketplace and rt = demo_transport and
          local = "''local''" and data = "''abc''"])
       (simp_all add: demo_uploads_def marketplace_answer_def marketplace_request_def client_Do_def demo_uploader_env_def Let_def)
  then show ?thesis by (simp add: Let_def accepted_code_def StatusUnprocessableEntity_def)
qed

lemma demo_served:
  "\<exists>s' us. ProvideUploaders (demo_uploader_env 200) demo_targets [TargetDataService, TargetMarketplace] demo_entitled = (s', Inr us)"
  by (simp add: demo_targets_def provide_data_service_def reporter_provideDataServiceConfig_def ProvideGRPCCallOptions_def read_token_file_def
      provideMarketplaceConfig_def ReturnSecret_def get_secret_def api_get_def demo_entitled_def demo_cluster_state_def
      parse_result_def Parse_def Parse_entitlement_def use_auth_def demo_secret_def NewMarketplaceUploader_def uploader_cert_pool_def
      RHMPullSecretName_def IBMEntitlementKeySecretName_def IBMEntitlementDataKey_def IBMEntitlementProdKey_def
      IBMEntitlementStageKey_def demo_uploader_env_def Let_def)

theorem targets_served_witness:
  "\<exists>s' us. ProvideUploaders (demo_uploader_env 200) demo_targets [TargetDataService, TargetMarketplace] demo_entitled = (s', Inr us) \<and>
     map fst (job_uploaders (demo_uploader_env 200) us) = [''data-service'', ''redhat-marketplace''] \<and>
     list_all (marketplace_secured demo_targets) us"
proof -
  obtain s' us where p: "ProvideUploaders (demo_uploader_env 200) demo_targets [TargetDataService, TargetMarketplace] demo_entitled = (s', Inr us)"
    using demo_served by blast
  have "\<not> ucIsDisconnected demo_targets" by (simp add: demo_targets_def)
  with targets_served [OF p] p show ?thesis by auto
qed

end
