(* ===== verification/Spec2Isabelle.thy ===== *)
theory Spec2Isabelle
  imports ReporterController ReportUpload ReportScheduling MeterProcessors ReportTask MarketplaceConfigs
    MeterBases Manifests Uploaders
begin

text \<open>
  A verification library for the Red Hat Marketplace operators: the Go code under \<open>src/\<close>
  as HOL definitions, with the theorems that make its parts correct. Each theory opens with
  what it models; this header says how the parts fit together.

  \<^bold>\<open>The program.\<close>
  The repository holds six programs that run in one cluster.

  \<^item> The operator (\<open>v2/\<close>) registers the cluster with the marketplace, installs the metering
    workloads and keeps the conditions of its custom resources. It plans one \<open>MeterReport\<close> for every
    day.
  \<^item> The metric state (\<open>metering/v2/\<close>) watches workloads, decides which meter definitions cover
    them and exposes what it finds as Prometheus metrics.
  \<^item> The reporter (\<open>reporter/v2/\<close>) runs as a job: it queries Prometheus for the period of a
    report, builds the report, stores it in the data service and uploads stored reports.
  \<^item> The data service (\<open>airgap/v2/\<close>) stores files with metadata behind a gRPC interface.
  \<^item> The data reporter (\<open>datareporter/v2/\<close>) takes events over HTTP, filters them, sends them to
    their destinations and reports batches to the data service.
  \<^item> The authentication checker (\<open>authchecker/v2/\<close>) is a probe and is not modelled.

  \<^bold>\<open>Shared theories.\<close>
  \<^item> \<open>Prelude\<close>: the Go types, errors as sums, headers, strings, generic lemmas on lists and
    maps, and the locales several components implement.
  \<^item> \<open>Retries\<close>: what \<open>retry.RetryOnConflict\<close> documents (\<open>retry_ok\<close>), what attempts keep, how a
    reconciler ends.
  \<^item> \<open>Cluster\<close>: the operator's own resources and the API server as the controllers call it.
  \<^item> \<open>Conditions\<close> (\<open>v2/pkg/utils/status/status.go\<close>): condition lists refine a map with
    last-write-wins updates and keep their types distinct.
  \<^item> \<open>Decimal\<close>: printing and reading of numbers, with the round trip.

  \<^bold>\<open>Data reporter.\<close>
  \<^item> \<open>EventTypes\<close>, \<open>EventReporting\<close>, \<open>EventProcessor\<close> (\<open>pkg/events/\<close>): the accumulator, the report
    archive and the engine's goroutines as a step relation. In every reachable state each
    accepted event is in exactly one place, no key holds more than its bound, and the loop of
    the sender refines the steps.
  \<^item> \<open>Destinations\<close> (\<open>pkg/uploader\<close>) and \<open>DataFilters\<close> (\<open>pkg/selector\<close>, \<open>transformer\<close>,
    \<open>datafilter\<close>): the exchange with a destination and its authorization, the building of filters
    from the resource, and that every event reaches the data service exactly once.
  \<^item> \<open>EventApi\<close> (\<open>pkg/filters\<close>, \<open>server\<close>) and \<open>ReporterController\<close>: the authenticated endpoint, and
    what a reconcile leaves behind and reads.

  \<^bold>\<open>Data service.\<close>
  \<^item> \<open>FileFilters\<close>: the filter language, its parser and printer, and that a query built from
    parsed filters has only known columns and operators.
  \<^item> \<open>FileStore\<close>, \<open>FileServer\<close>: the writes of a save, paging that enumerates every file once,
    transactions of the clean-up, the checksum of uploads, chunked downloads.
  \<^item> \<open>DataServiceClient\<close> (\<open>reporter/v2/pkg/dataservice\<close>): the client against the server, end to end.

  \<^bold>\<open>Metric state.\<close>
  \<^item> \<open>MeterFilters\<close>, \<open>NamespaceWatch\<close>: workload filters and the watched namespaces.
  \<^item> \<open>MeterStores\<close>, \<open>MeterMetrics\<close>, \<open>MeterProcessors\<close>: the dictionary and the store of covered
    objects as step relations, the queue that tracks the index, the metrics that follow it,
    and the processors that write status.

  \<^bold>\<open>Reporter.\<close>
  \<^item> \<open>UsageRecords\<close>, \<open>PromQueries\<close>: labels of a meter definition, their templates, queries and
    their retries.
  \<^item> \<open>ReportBuilders\<close>, \<open>ReportWriting\<close>: the three report schemas and their files.
  \<^item> \<open>ReportCollection\<close>: the pool of workers as a step relation: a collection ends, loses no
    sample and does not crash.
  \<^item> \<open>ReportInputs\<close>, \<open>MeterReports\<close>, \<open>ReportTask\<close>: the inputs and status of a report and the task
    that collects, archives and stores it; the archive that is sent covers the samples.
  \<^item> \<open>ReportUpload\<close>, \<open>Uploaders\<close>: the upload of stored reports. A file is deleted only when a
    required target took it, and the loop over the files ends; what counts as taken by the marketplace is
    \<open>marketplace_upload_finishes_iff\<close>; \<open>targets_served\<close> is about the set-up of the targets.

  \<^bold>\<open>Operator.\<close>
  \<^item> \<open>ReportScheduling\<close>: one report for every day, and none removed too early.
  \<^item> \<open>Registration\<close>, \<open>MarketplaceConfigs\<close>: pull secrets, the registration, the license that
    gates the installation, the meter base created from the configuration.
  \<^item> \<open>MeterConversions\<close>, \<open>ServiceVersions\<close>, \<open>Signatures\<close>, \<open>MeterDefinitions\<close>: the two versions of
    a meter definition and what survives their round trip, definitions carried by service
    versions and read back from the API server through JSON, the verification of signatures and
    that it does not ask for the authority, and the convergence of a definition's conditions.
  \<^item> \<open>PromClients\<close>: which service the operator queries, with which certificates and tokens.
  \<^item> \<open>MeterBases\<close>, \<open>DataServices\<close>: the controllers of the meter base, the data service and the
    operator's deployment: what an undisturbed run installs or removes, and what no run touches
    whatever calls fail.
  \<^item> \<open>Manifests\<close>: the objects these controllers install: images, environments, resources,
    replicas and the disruption budget that asks for a majority of them.

  \<^bold>\<open>How state, errors and effects are modelled.\<close>
  A struct is a record and an enumeration a datatype. A function that fails returns a sum
  with the error on the left; a run-time panic is the value \<^const>\<open>Panic\<close> or an end of a run, so
  that every early return of the source is a branch. Goroutines are inductive step relations
  over one state; theorems about them hold in every reachable state and so for every
  interleaving. Maps are visited in an order that is an argument. The API server, the
  database, HTTP exchanges, parsers and file systems are fields of an environment record;
  failing calls are numbered in their order, so a theorem without a hypothesis on them holds
  for every pattern of failures. What the code relies on is a named predicate on these
  fields (\<open>retry_ok\<close>, \<open>cache_laws\<close>, \<open>objects_only\<close>, \<open>installs\<close>), and every theorem with such a
  hypothesis is applied to a concrete environment.

  \<^bold>\<open>Bounds and fuel.\<close>
  \<open>client_ListFiles\<close> takes the number of pages it may ask for and returns \<^const>\<open>None\<close> when it is
  used up; \<open>client_lists_all_files\<close> shows that enough pages give the result. \<open>RunGeneric\<close> takes
  a number of rounds and returns the state reached and whether the loop ended by then: what is
  said about deletions holds for every number, \<open>RunGeneric_ends\<close> shows how many rounds are enough
  when every listing of part of the files shows one with attempts left, and
  \<open>exhausted_partial_listing_loops\<close> that otherwise the loop may run for ever.
  \<open>retryWriteTx\<close> and \<open>Retry\<close> take their number of attempts from the code. The paging
  theorem bounds offsets by \<open>2 ^ 50\<close>, below the \<open>int64\<close> of the tokens. The lookup of owners runs
  for at most the frames of its stack. The decoder of signatures is a loop that may not end and
  is modelled by an option. Replicas are converted to \<open>int32\<close> with the wrap-around written out.

  \<^bold>\<open>Not modelled.\<close>
  Generated code (protocol buffers, deep copies, client sets), mocks, release tools and
  command lines; the start-up of managers, servers and the dqlite cluster, which only calls
  libraries; the schema migrations, carried out by a library; discovery of the platform and network probes; the
  generation of certificates; logging; the clean-up controller of old jobs; the
  authentication checker; reflection helpers; the channels of a collection, their closing, the
  number of its workers and the cancellation of its context: its step relation says what the
  workers do with an item, in any order, not how they wait for one. Timers and waiting times show only as the order of steps.
\<close>

end
